(* ===== verification/Go_Prelude.thy ===== *)
theory Go_Prelude
  imports Main "HOL-Library.Word"
begin

text \<open>
  Shared vocabulary of the development: Go maps as association lists, signed 64-bit
  arithmetic, error results, instants and durations, and the rule collections that the
  component theories extend.

  Instants (\<open>time.Time\<close>) are nanoseconds since Go's zero time, so \<open>IsZero\<close> is \<open>0\<close>
  and \<open>a.After(b)\<close> is \<open>b < a\<close>. Durations are nanoseconds too. Both are \<open>int\<close>;
  where Go's 64-bit arithmetic on a duration could overflow, the wrap-around is written
  out with \<open>wrap64\<close>.
\<close>

named_theorems gomap_simps "lookup, size and domain of Go maps after an update"
named_theorems gomap_intros "well-formedness of Go maps after an update"

type_synonym gotime = int
type_synonym duration = int
type_synonym u64 = "64 word"
type_synonym u32 = "32 word"
type_synonym ('e, 'a) result = "'e + 'a"

section \<open>Error results\<close>

definition bindE :: "('e, 'a) result \<Rightarrow> ('a \<Rightarrow> ('e, 'b) result) \<Rightarrow> ('e, 'b) result" where
  "bindE r f = (case r of Inl e \<Rightarrow> Inl e | Inr a \<Rightarrow> f a)"

definition guardE :: "bool \<Rightarrow> 'e \<Rightarrow> ('e, unit) result" where
  "guardE c e = (if c then Inr () else Inl e)"

lemma bindE_simps [simp]:
  "bindE (Inl e) f = Inl e"
  "bindE (Inr a) f = f a"
  by (simp_all add: bindE_def)

lemma bindE_Inr_iff: "bindE r f = Inr b \<longleftrightarrow> (\<exists>a. r = Inr a \<and> f a = Inr b)"
  by (cases r) simp_all

lemma bindE_Inl_iff: "bindE r f = Inl e \<longleftrightarrow> r = Inl e \<or> (\<exists>a. r = Inr a \<and> f a = Inl e)"
  by (cases r) simp_all

lemma guardE_iff [simp]:
  "guardE c e = Inr u \<longleftrightarrow> c"
  "guardE c e = Inl e' \<longleftrightarrow> \<not> c \<and> e' = e"
  by (auto simp: guardE_def)

text \<open>A loop that stops at the first error: \<open>for _, x := range xs { if err := f(x); err != nil { return err } }\<close>.\<close>

fun eachE :: "('a \<Rightarrow> ('e, unit) result) \<Rightarrow> 'a list \<Rightarrow> ('e, unit) result" where
  "eachE f [] = Inr ()"
| "eachE f (x # xs) = (case f x of Inl e \<Rightarrow> Inl e | Inr _ \<Rightarrow> eachE f xs)"

lemma eachE_Inr_iff: "eachE f xs = Inr u \<longleftrightarrow> (\<forall>x \<in> set xs. f x = Inr ())"
  by (induction xs) (auto split: sum.splits)

text \<open>The loop that also builds a slice.\<close>

fun mapE :: "('a \<Rightarrow> ('e, 'b) result) \<Rightarrow> 'a list \<Rightarrow> ('e, 'b list) result" where
  "mapE f [] = Inr []"
| "mapE f (x # xs) =
     (case f x of Inl e \<Rightarrow> Inl e
      | Inr y \<Rightarrow> (case mapE f xs of Inl e \<Rightarrow> Inl e | Inr ys \<Rightarrow> Inr (y # ys)))"

lemma mapE_Inr_iff: "mapE f xs = Inr ys \<longleftrightarrow> list_all2 (\<lambda>x y. f x = Inr y) xs ys"
proof (induction xs arbitrary: ys)
  case Nil
  then show ?case by auto
next
  case (Cons x xs)
  show ?case
  proof (cases "mapE f xs")
    case (Inl e)
    with Cons.IH have "\<not> list_all2 (\<lambda>x y. f x = Inr y) xs zs" for zs
      by (metis sum.distinct(1))
    with Inl show ?thesis
      by (cases ys) (auto split: sum.splits)
  next
    case (Inr zs)
    with Cons.IH have "list_all2 (\<lambda>x y. f x = Inr y) xs us \<longleftrightarrow> us = zs" for us
      by (metis sum.inject(2))
    with Inr show ?thesis
      by (cases ys) (auto split: sum.splits)
  qed
qed

lemma mapE_length: "mapE f xs = Inr ys \<Longrightarrow> length ys = length xs"
  by (auto simp: mapE_Inr_iff dest: list_all2_lengthD)

section \<open>Signed 64-bit arithmetic\<close>

definition wrap64 :: "int \<Rightarrow> int" where
  "wrap64 x = (x + 2 ^ 63) mod 2 ^ 64 - 2 ^ 63"

definition max_int64 :: int where
  "max_int64 = 2 ^ 63 - 1"

lemma wrap64_id: "- (2 ^ 63) \<le> x \<Longrightarrow> x < 2 ^ 63 \<Longrightarrow> wrap64 x = x"
  by (simp add: wrap64_def)

lemma wrap64_range: "- (2 ^ 63) \<le> wrap64 x \<and> wrap64 x < 2 ^ 63"
proof -
  have "0 \<le> (x + 2 ^ 63) mod 2 ^ 64" and "(x + 2 ^ 63) mod 2 ^ 64 < (2 ^ 64 :: int)"
    by simp_all
  then show ?thesis by (simp add: wrap64_def)
qed

text \<open>Go's integer division truncates towards zero.\<close>

definition go_div :: "int \<Rightarrow> int \<Rightarrow> int" where
  "go_div a b = sgn a * sgn b * (\<bar>a\<bar> div \<bar>b\<bar>)"

lemma go_div_pos: "0 \<le> a \<Longrightarrow> 0 < b \<Longrightarrow> go_div a b = a div b"
  by (cases "a = 0") (auto simp: go_div_def sgn_if)

definition secs :: "int \<Rightarrow> duration" where
  "secs n = n * 1000000000"

section \<open>Go maps\<close>

text \<open>
  A Go map is an association list without repeated keys. Assignment, \<open>delete\<close>, \<open>len\<close>
  and \<open>range\<close> are \<open>mput\<close>, \<open>mdel\<close>, \<open>length\<close> and recursion over the list; a lookup is
  \<open>map_of\<close>. The order of the list stands for the unspecified iteration order.
\<close>

type_synonym ('k, 'v) gomap = "('k \<times> 'v) list"

definition gomap_ok :: "('k, 'v) gomap \<Rightarrow> bool" where
  "gomap_ok m \<longleftrightarrow> distinct (map fst m)"

definition mdel :: "'k \<Rightarrow> ('k, 'v) gomap \<Rightarrow> ('k, 'v) gomap" where
  "mdel k m = filter (\<lambda>p. fst p \<noteq> k) m"

definition mput :: "'k \<Rightarrow> 'v \<Rightarrow> ('k, 'v) gomap \<Rightarrow> ('k, 'v) gomap" where
  "mput k v m = (k, v) # mdel k m"

lemma gomap_ok_Nil [simp]: "gomap_ok []"
  by (simp add: gomap_ok_def)

lemma mdel_Nil [simp]: "mdel k [] = []"
  by (simp add: mdel_def)

lemma map_of_mdel [simp, gomap_simps]: "map_of (mdel k m) = (map_of m)(k := None)"
  by (induction m) (auto simp: mdel_def fun_eq_iff)

lemma map_of_mput [simp, gomap_simps]: "map_of (mput k v m) = (map_of m)(k \<mapsto> v)"
  by (simp add: mput_def fun_eq_iff)

lemma set_mdel [simp]: "set (mdel k m) = {p \<in> set m. fst p \<noteq> k}"
  by (auto simp: mdel_def)

lemma gomap_ok_filter [simp, gomap_intros]: "gomap_ok m \<Longrightarrow> gomap_ok (filter P m)"
  by (induction m) (auto simp: gomap_ok_def)

lemma gomap_ok_mdel [simp, gomap_intros]: "gomap_ok m \<Longrightarrow> gomap_ok (mdel k m)"
  by (simp add: mdel_def)

lemma gomap_ok_mput [simp, gomap_intros]: "gomap_ok m \<Longrightarrow> gomap_ok (mput k v m)"
  using gomap_ok_mdel [of m k] by (auto simp: gomap_ok_def mput_def mdel_def)

lemma mdel_absent: "map_of m k = None \<Longrightarrow> mdel k m = m"
  by (auto simp: mdel_def map_of_eq_None_iff filter_id_conv)

lemma length_mdel_le [simp]: "length (mdel k m) \<le> length m"
  by (simp add: mdel_def)

lemma length_mdel_present:
  "gomap_ok m \<Longrightarrow> map_of m k = Some v \<Longrightarrow> Suc (length (mdel k m)) = length m"
proof (induction m)
  case Nil
  then show ?case by simp
next
  case (Cons p m)
  show ?case
  proof (cases "fst p = k")
    case True
    with Cons.prems(1) have "map_of m k = None"
      by (auto simp: gomap_ok_def map_of_eq_None_iff)
    with True show ?thesis using mdel_absent [of m k] by (simp add: mdel_def)
  next
    case False
    with Cons show ?thesis by (auto simp: gomap_ok_def mdel_def split: if_splits)
  qed
qed

lemma length_mput_present [gomap_simps]:
  "gomap_ok m \<Longrightarrow> map_of m k = Some v \<Longrightarrow> length (mput k w m) = length m"
  using length_mdel_present [of m k v] by (simp add: mput_def)

lemma length_mput_absent [gomap_simps]:
  "map_of m k = None \<Longrightarrow> length (mput k w m) = Suc (length m)"
  by (simp add: mput_def mdel_absent)

lemma length_mput_le: "length (mput k w m) \<le> Suc (length m)"
  by (simp add: mput_def)

lemma map_of_filter_ok:
  assumes "gomap_ok m"
  shows "map_of (filter P m) k =
    (case map_of m k of None \<Rightarrow> None | Some v \<Rightarrow> if P (k, v) then Some v else None)"
  using assms
proof (induction m)
  case Nil
  then show ?case by simp
next
  case (Cons p m)
  have ok: "gomap_ok m" and fresh: "fst p \<notin> fst ` set m"
    using Cons.prems by (auto simp: gomap_ok_def)
  have none: "map_of (filter P m) (fst p) = None"
    using fresh by (auto simp: map_of_eq_None_iff)
  show ?case
    using Cons.IH [OF ok] none by (cases p) auto
qed

lemma gomap_ok_mem_iff: "gomap_ok m \<Longrightarrow> (k, v) \<in> set m \<longleftrightarrow> map_of m k = Some v"
  by (auto simp: gomap_ok_def intro: map_of_is_SomeI map_of_SomeD)

lemma map_of_SomeD_ok: "map_of m k = Some v \<Longrightarrow> (k, v) \<in> set m"
  by (rule map_of_SomeD)

lemma mput_neq_Nil [simp]: "mput k v m \<noteq> []"
  by (simp add: mput_def)

lemma length_filter_le_bound: "length m \<le> n \<Longrightarrow> length (filter P m) \<le> n"
  using length_filter_le [of P m] by linarith

lemma length_mdel_bound: "length m \<le> n \<Longrightarrow> length (mdel k m) \<le> n"
  using length_mdel_le [of k m] by linarith

text \<open>
  Reading a map of slices or maps by a missing key gives the empty value, as Go's zero
  value does.
\<close>

definition mget_list :: "('k, 'v list) gomap \<Rightarrow> 'k \<Rightarrow> 'v list" where
  "mget_list m k = (case map_of m k of None \<Rightarrow> [] | Some xs \<Rightarrow> xs)"

lemma mget_list_mput [simp]:
  "mget_list (mput k v m) k' = (if k' = k then v else mget_list m k')"
  by (simp add: mget_list_def)

lemma mget_list_mdel [simp]:
  "mget_list (mdel k m) k' = (if k' = k then [] else mget_list m k')"
  by (simp add: mget_list_def)


section \<open>One-shot operations\<close>

text \<open>
  Several components promise that something works once: a captcha is answered once, a claim on a
  message is settled once. \<open>held\<close> says that the thing is still there; an operation that
  uses it successfully takes it away, and only a granting operation brings it back. The
  conclusion, for any sequence of operations, is then the same for all of them.
\<close>

fun successes :: "('op \<Rightarrow> 's \<Rightarrow> bool \<times> 's) \<Rightarrow> ('op \<Rightarrow> bool) \<Rightarrow> 'op list \<Rightarrow> 's \<Rightarrow> nat" where
  "successes step uses [] s = 0"
| "successes step uses (operation # rest) s =
    (if uses operation \<and> fst (step operation s) then 1 else 0) +
    successes step uses rest (snd (step operation s))"

locale one_shot =
  fixes step :: "'op \<Rightarrow> 's \<Rightarrow> bool \<times> 's"
    and inv :: "'s \<Rightarrow> bool"
    and held :: "'s \<Rightarrow> bool"
    and uses :: "'op \<Rightarrow> bool"
    and grants :: "'op \<Rightarrow> bool"
  assumes step_inv: "inv s \<Longrightarrow> inv (snd (step operation s))"
    and use_needs: "inv s \<Longrightarrow> uses operation \<Longrightarrow> fst (step operation s) \<Longrightarrow> held s"
    and use_consumes: "inv s \<Longrightarrow> uses operation \<Longrightarrow> fst (step operation s) \<Longrightarrow> \<not> grants operation \<Longrightarrow>
      \<not> held (snd (step operation s))"
    and granted_only: "inv s \<Longrightarrow> \<not> held s \<Longrightarrow> \<not> grants operation \<Longrightarrow> \<not> held (snd (step operation s))"
begin

lemma never_after:
  assumes "inv s" "\<not> held s" "\<forall>operation \<in> set ops. \<not> grants operation"
  shows "successes step uses ops s = 0"
  using assms
proof (induction ops arbitrary: s)
  case (Cons operation rest)
  then have "\<not> (uses operation \<and> fst (step operation s))" using use_needs by blast
  with Cons show ?case by (simp add: step_inv granted_only)
qed simp

lemma at_most_once:
  assumes "inv s" "\<forall>operation \<in> set ops. \<not> grants operation"
  shows "successes step uses ops s \<le> 1"
  using assms
proof (induction ops arbitrary: s)
  case (Cons operation rest)
  show ?case
  proof (cases "uses operation \<and> fst (step operation s)")
    case True
    then have "successes step uses rest (snd (step operation s)) = 0"
      using Cons.prems by (intro never_after step_inv use_consumes) auto
    with True show ?thesis by simp
  next
    case False
    moreover have "successes step uses rest (snd (step operation s)) \<le> 1"
      using Cons by (simp add: step_inv)
    ultimately show ?thesis by auto
  qed
qed simp

end

end
