(* ===== verification/Risk_Memory.thy ===== *)
theory Risk_Memory
  imports Go_Prelude
begin

text \<open>
  The in-process risk-control backend of \<open>cool-next/risk/risk.go\<close>
  (\<open>memoryRiskBackend\<close>): per-client rate windows, one-time captchas with an index by
  client, and per-account failure counters with a growing lock. Every operation runs under
  the backend's mutex, so an operation is one atomic step of the state \<open>risk_backend\<close>; its
  reading of the clock is the argument \<open>now\<close>. Pointers into the maps
  (\<open>map[string]*memoryRiskClient\<close>) become a lookup followed by \<open>mput\<close>.
\<close>

section \<open>Configuration\<close>

record captcha_config =
  cc_TTL :: duration
  cc_Capacity :: int
  cc_OutstandingPerIP :: int
  cc_RateLimit :: int
  cc_RateWindow :: duration

record login_config =
  lc_IPRateLimit :: int
  lc_IPRateWindow :: duration
  lc_FailureLimit :: int
  lc_FailureWindow :: duration
  lc_LockBase :: duration
  lc_LockMax :: duration

record risk_config =
  rc_Type :: string
  rc_Group :: string
  rc_Prefix :: string
  rc_TrustedProxyCIDRs :: "string list"
  rc_ClientCapacity :: int
  rc_AccountCapacity :: int
  rc_Captcha :: captcha_config
  rc_Login :: login_config

section \<open>State\<close>

datatype risk_result = RiskAllowed | RiskLimited | RiskMatched | RiskNotMatched | RiskConflict

record risk_window =
  rw_count :: int
  rw_expiresAt :: gotime

record risk_client =
  cl_captcha :: risk_window
  cl_login :: risk_window

record risk_captcha =
  cp_answer :: string
  cp_client :: string
  cp_expiresAt :: gotime

record risk_account =
  ac_failures :: int
  ac_lastFailure :: gotime
  ac_lockUntil :: gotime
  ac_expiresAt :: gotime

record risk_backend =
  rb_config :: risk_config
  rb_clients :: "(string, risk_client) gomap"
  rb_accounts :: "(string, risk_account) gomap"
  rb_captchas :: "(string, risk_captcha) gomap"
  rb_captchasByClient :: "(string, (string, gotime) gomap) gomap"

definition zero_window :: risk_window where
  "zero_window = \<lparr>rw_count = 0, rw_expiresAt = 0\<rparr>"

definition zero_client :: risk_client where
  "zero_client = \<lparr>cl_captcha = zero_window, cl_login = zero_window\<rparr>"

definition zero_account :: risk_account where
  "zero_account = \<lparr>ac_failures = 0, ac_lastFailure = 0, ac_lockUntil = 0, ac_expiresAt = 0\<rparr>"

definition newMemoryBackend :: "risk_config \<Rightarrow> risk_backend" where
  "newMemoryBackend config =
    \<lparr>rb_config = config, rb_clients = [], rb_accounts = [], rb_captchas = [],
     rb_captchasByClient = []\<rparr>"

section \<open>Windows and lock durations\<close>

definition increaseRiskWindow :: "risk_window \<Rightarrow> gotime \<Rightarrow> duration \<Rightarrow> risk_window" where
  "increaseRiskWindow w now dur =
    (let w' = (if \<not> now < rw_expiresAt w then w\<lparr>rw_count := 0, rw_expiresAt := now + dur\<rparr> else w)
     in w'\<lparr>rw_count := rw_count w' + 1\<rparr>)"

definition resetRiskWindow :: "risk_window \<Rightarrow> gotime \<Rightarrow> risk_window" where
  "resetRiskWindow w now = (if \<not> now < rw_expiresAt w then zero_window else w)"

text \<open>The loop of \<open>riskLockDuration\<close>, with the doubling at 64 bits.\<close>

fun lock_loop :: "duration \<Rightarrow> nat \<Rightarrow> duration \<Rightarrow> duration + duration" where
  "lock_loop lockMax 0 dur = Inr dur"
| "lock_loop lockMax (Suc remaining) dur =
    (if lockMax \<le> dur \<or> go_div lockMax 2 < dur then Inl lockMax
     else lock_loop lockMax remaining (wrap64 (dur * 2)))"

definition riskLockDuration :: "risk_config \<Rightarrow> int \<Rightarrow> duration" where
  "riskLockDuration config failures =
    (case lock_loop (lc_LockMax (rc_Login config))
            (nat (failures - lc_FailureLimit (rc_Login config))) (lc_LockBase (rc_Login config)) of
       Inl early \<Rightarrow> early
     | Inr dur \<Rightarrow>
         if lc_LockMax (rc_Login config) < dur then lc_LockMax (rc_Login config) else dur)"

definition laterTime :: "gotime \<Rightarrow> gotime \<Rightarrow> gotime" where
  "laterTime first second = (if first < second then second else first)"

section \<open>Cleaning\<close>

text \<open>Reading the inner map of a client without captchas gives the empty (nil) map.\<close>

definition client_captchas :: "risk_backend \<Rightarrow> string \<Rightarrow> (string, gotime) gomap" where
  "client_captchas b client = mget_list (rb_captchasByClient b) client"

definition removeCaptchaLocked :: "string \<Rightarrow> string \<Rightarrow> risk_backend \<Rightarrow> risk_backend" where
  "removeCaptchaLocked captchaID client b =
    (let b1 = b\<lparr>rb_captchas := mdel captchaID (rb_captchas b)\<rparr>;
         inner = mdel captchaID (client_captchas b1 client)
     in case map_of (rb_captchasByClient b1) client of
          None \<Rightarrow> b1
        | Some _ \<Rightarrow>
            b1\<lparr>rb_captchasByClient :=
              (if inner = [] then mdel client (rb_captchasByClient b1)
               else mput client inner (rb_captchasByClient b1))\<rparr>)"

fun clean_captcha_entries ::
  "gotime \<Rightarrow> string \<Rightarrow> (string \<times> gotime) list \<Rightarrow> risk_backend \<Rightarrow> risk_backend" where
  "clean_captcha_entries now client [] b = b"
| "clean_captcha_entries now client ((captchaID, expiresAt) # rest) b =
    clean_captcha_entries now client rest
      (if \<not> now < expiresAt then removeCaptchaLocked captchaID client b else b)"

definition cleanCaptchasLocked :: "string \<Rightarrow> gotime \<Rightarrow> risk_backend \<Rightarrow> risk_backend" where
  "cleanCaptchasLocked client now b = clean_captcha_entries now client (client_captchas b client) b"

fun clean_all_entries ::
  "gotime \<Rightarrow> (string \<times> risk_captcha) list \<Rightarrow> risk_backend \<Rightarrow> risk_backend" where
  "clean_all_entries now [] b = b"
| "clean_all_entries now ((captchaID, rec) # rest) b =
    clean_all_entries now rest
      (if \<not> now < cp_expiresAt rec then removeCaptchaLocked captchaID (cp_client rec) b else b)"

definition cleanAllLocked :: "gotime \<Rightarrow> risk_backend \<Rightarrow> risk_backend" where
  "cleanAllLocked now b = clean_all_entries now (rb_captchas b) b"

definition cleanClientLocked :: "string \<Rightarrow> gotime \<Rightarrow> risk_backend \<Rightarrow> risk_backend" where
  "cleanClientLocked client now b =
    (case map_of (rb_clients b) client of
       None \<Rightarrow> b
     | Some state \<Rightarrow>
         let state' = state\<lparr>cl_captcha := resetRiskWindow (cl_captcha state) now,
                            cl_login := resetRiskWindow (cl_login state) now\<rparr>;
             b1 = b\<lparr>rb_clients := mput client state' (rb_clients b)\<rparr>;
             b2 = cleanCaptchasLocked client now b1
         in if rw_count (cl_captcha state') = 0 \<and> rw_count (cl_login state') = 0
               \<and> client_captchas b2 client = []
            then b2\<lparr>rb_clients := mdel client (rb_clients b2)\<rparr> else b2)"

fun clean_client_entries :: "gotime \<Rightarrow> string list \<Rightarrow> risk_backend \<Rightarrow> risk_backend" where
  "clean_client_entries now [] b = b"
| "clean_client_entries now (client # rest) b =
    clean_client_entries now rest (cleanClientLocked client now b)"

definition cleanClientsLocked :: "gotime \<Rightarrow> risk_backend \<Rightarrow> risk_backend" where
  "cleanClientsLocked now b =
    (let b1 = cleanAllLocked now b
     in clean_client_entries now (map fst (rb_clients b1)) b1)"

definition cleanAccountsLocked :: "gotime \<Rightarrow> risk_backend \<Rightarrow> risk_backend" where
  "cleanAccountsLocked now b =
    b\<lparr>rb_accounts := filter (\<lambda>(account, state). now < ac_expiresAt state) (rb_accounts b)\<rparr>"

text \<open>\<open>clientLocked\<close>: the client's entry, created when there is room for it.\<close>

definition clientLocked :: "string \<Rightarrow> gotime \<Rightarrow> risk_backend \<Rightarrow> risk_client option \<times> risk_backend" where
  "clientLocked client now b =
    (let b1 = cleanClientLocked client now b
     in case map_of (rb_clients b1) client of
          Some state \<Rightarrow> (Some state, b1)
        | None \<Rightarrow>
            let cap = rc_ClientCapacity (rb_config b1);
                full = (cap \<le> int (length (rb_clients b1)));
                b2 = (if full then cleanClientsLocked now b1 else b1)
            in if full \<and> cap \<le> int (length (rb_clients b2)) then (None, b2)
               else (Some zero_client,
                     b2\<lparr>rb_clients := mput client zero_client (rb_clients b2)\<rparr>))"

section \<open>Operations\<close>

text \<open>
  The outstanding and capacity checks that \<open>allowCaptcha\<close> and \<open>saveCaptcha\<close> share:
  \<open>True\<close> when a captcha may be added.
\<close>

definition captcha_room :: "string \<Rightarrow> gotime \<Rightarrow> risk_backend \<Rightarrow> bool \<times> risk_backend" where
  "captcha_room client now b =
    (let b1 = cleanCaptchasLocked client now b;
         cc = rc_Captcha (rb_config b1)
     in if cc_OutstandingPerIP cc \<le> int (length (client_captchas b1 client)) then (False, b1)
        else if cc_Capacity cc \<le> int (length (rb_captchas b1)) then
          (let b2 = cleanAllLocked now b1
           in (\<not> cc_Capacity cc \<le> int (length (rb_captchas b2)), b2))
        else (True, b1))"

definition allowCaptcha :: "gotime \<Rightarrow> string \<Rightarrow> risk_backend \<Rightarrow> risk_result \<times> risk_backend" where
  "allowCaptcha now client b =
    (case clientLocked client now b of
       (None, b1) \<Rightarrow> (RiskLimited, b1)
     | (Some state, b1) \<Rightarrow>
         let cc = rc_Captcha (rb_config b1);
             w = increaseRiskWindow (cl_captcha state) now (cc_RateWindow cc);
             b2 = b1\<lparr>rb_clients := mput client (state\<lparr>cl_captcha := w\<rparr>) (rb_clients b1)\<rparr>
         in if cc_RateLimit cc < rw_count w then (RiskLimited, b2)
            else (case captcha_room client now b2 of
                    (True, b3) \<Rightarrow> (RiskAllowed, b3)
                  | (False, b3) \<Rightarrow> (RiskLimited, b3)))"

definition saveCaptcha ::
  "gotime \<Rightarrow> string \<Rightarrow> string \<Rightarrow> string \<Rightarrow> risk_backend \<Rightarrow> risk_result \<times> risk_backend" where
  "saveCaptcha now client captchaID answer b =
    (case map_of (rb_captchas b) captchaID of
       Some _ \<Rightarrow> (RiskConflict, b)
     | None \<Rightarrow>
         (case clientLocked client now b of
            (None, b1) \<Rightarrow> (RiskLimited, b1)
          | (Some state, b1) \<Rightarrow>
              (case captcha_room client now b1 of
                 (False, b2) \<Rightarrow> (RiskLimited, b2)
               | (True, b2) \<Rightarrow>
                   let expiresAt = now + cc_TTL (rc_Captcha (rb_config b2))
                   in (RiskAllowed,
                       b2\<lparr>rb_captchas := mput captchaID
                            \<lparr>cp_answer = answer, cp_client = client, cp_expiresAt = expiresAt\<rparr>
                            (rb_captchas b2),
                          rb_captchasByClient := mput client
                            (mput captchaID expiresAt (client_captchas b2 client))
                            (rb_captchasByClient b2)\<rparr>))))"

definition consumeCaptcha ::
  "gotime \<Rightarrow> string \<Rightarrow> string \<Rightarrow> risk_backend \<Rightarrow> risk_result \<times> risk_backend" where
  "consumeCaptcha now captchaID answer b =
    (case map_of (rb_captchas b) captchaID of
       None \<Rightarrow> (RiskNotMatched, b)
     | Some rec \<Rightarrow>
         let b1 = removeCaptchaLocked captchaID (cp_client rec) b
         in if \<not> now < cp_expiresAt rec \<or> cp_answer rec \<noteq> answer then (RiskNotMatched, b1)
            else (RiskMatched, b1))"

definition allowLogin ::
  "gotime \<Rightarrow> string \<Rightarrow> string \<Rightarrow> risk_backend \<Rightarrow> risk_result \<times> risk_backend" where
  "allowLogin now client account b =
    (case clientLocked client now b of
       (None, b1) \<Rightarrow> (RiskLimited, b1)
     | (Some state, b1) \<Rightarrow>
         let lc = rc_Login (rb_config b1);
             w = increaseRiskWindow (cl_login state) now (lc_IPRateWindow lc);
             b2 = b1\<lparr>rb_clients := mput client (state\<lparr>cl_login := w\<rparr>) (rb_clients b1)\<rparr>
         in if lc_IPRateLimit lc < rw_count w then (RiskLimited, b2)
            else (case map_of (rb_accounts b2) account of
                    None \<Rightarrow> (RiskAllowed, b2)
                  | Some st \<Rightarrow>
                      if \<not> now < ac_expiresAt st
                      then (RiskAllowed, b2\<lparr>rb_accounts := mdel account (rb_accounts b2)\<rparr>)
                      else if now < ac_lockUntil st then (RiskLimited, b2)
                      else (RiskAllowed, b2)))"

text \<open>One recorded failure of an account whose entry is known and not locked.\<close>

definition count_failure :: "risk_config \<Rightarrow> gotime \<Rightarrow> risk_account \<Rightarrow> risk_account" where
  "count_failure config now st =
    (let lc = rc_Login config;
         st1 = (if ac_lastFailure st \<noteq> 0 \<and> \<not> now < ac_lastFailure st + lc_FailureWindow lc
                then st\<lparr>ac_failures := 0\<rparr> else st);
         st2 = st1\<lparr>ac_failures := ac_failures st1 + 1, ac_lastFailure := now\<rparr>;
         st3 = (if lc_FailureLimit lc \<le> ac_failures st2
                then st2\<lparr>ac_lockUntil := now + riskLockDuration config (ac_failures st2)\<rparr> else st2)
     in st3\<lparr>ac_expiresAt := laterTime (now + lc_FailureWindow lc) (ac_lockUntil st3)\<rparr>)"

definition failure_on ::
  "gotime \<Rightarrow> string \<Rightarrow> risk_account \<Rightarrow> risk_backend \<Rightarrow> risk_result \<times> risk_backend" where
  "failure_on now account st b =
    (RiskAllowed, b\<lparr>rb_accounts := mput account
       (if now < ac_lockUntil st then st else count_failure (rb_config b) now st) (rb_accounts b)\<rparr>)"

definition recordLoginFailure ::
  "gotime \<Rightarrow> string \<Rightarrow> risk_backend \<Rightarrow> risk_result \<times> risk_backend" where
  "recordLoginFailure now account b =
    (let b1 = (case map_of (rb_accounts b) account of
                 Some st \<Rightarrow> if \<not> now < ac_expiresAt st
                           then b\<lparr>rb_accounts := mdel account (rb_accounts b)\<rparr> else b
               | None \<Rightarrow> b)
     in case map_of (rb_accounts b1) account of
          Some st \<Rightarrow> failure_on now account st b1
        | None \<Rightarrow>
            let cap = rc_AccountCapacity (rb_config b1);
                full = (cap \<le> int (length (rb_accounts b1)));
                b2 = (if full then cleanAccountsLocked now b1 else b1)
            in if full \<and> cap \<le> int (length (rb_accounts b2)) then (RiskLimited, b2)
               else failure_on now account zero_account b2)"

definition clearLoginFailure :: "string \<Rightarrow> risk_backend \<Rightarrow> risk_result \<times> risk_backend" where
  "clearLoginFailure account b = (RiskAllowed, b\<lparr>rb_accounts := mdel account (rb_accounts b)\<rparr>)"

text \<open>The operations of the \<open>riskBackend\<close> interface as steps of one machine.\<close>

datatype risk_op =
    AllowCaptcha string
  | SaveCaptcha string string string
  | ConsumeCaptcha string string
  | AllowLogin string string
  | RecordLoginFailure string
  | ClearLoginFailure string

fun risk_step :: "gotime \<Rightarrow> risk_op \<Rightarrow> risk_backend \<Rightarrow> risk_result \<times> risk_backend" where
  "risk_step now (AllowCaptcha client) b = allowCaptcha now client b"
| "risk_step now (SaveCaptcha client captchaID answer) b = saveCaptcha now client captchaID answer b"
| "risk_step now (ConsumeCaptcha captchaID answer) b = consumeCaptcha now captchaID answer b"
| "risk_step now (AllowLogin client account) b = allowLogin now client account b"
| "risk_step now (RecordLoginFailure account) b = recordLoginFailure now account b"
| "risk_step now (ClearLoginFailure account) b = clearLoginFailure account b"

fun risk_run :: "(gotime \<times> risk_op) list \<Rightarrow> risk_backend \<Rightarrow> risk_backend" where
  "risk_run [] b = b"
| "risk_run ((now, operation) # rest) b = risk_run rest (snd (risk_step now operation b))"


section \<open>Well-formed states\<close>

text \<open>
  The index by client agrees with the captchas: the inner maps are nonempty, and an entry
  stands in a client's inner map exactly when the captcha exists, belongs to that client and
  expires at the recorded time.
\<close>

definition idx_ok :: "risk_backend \<Rightarrow> bool" where
  "idx_ok b \<longleftrightarrow> gomap_ok (rb_captchas b) \<and> gomap_ok (rb_captchasByClient b) \<and>
     (\<forall>c m. map_of (rb_captchasByClient b) c = Some m \<longrightarrow> m \<noteq> [] \<and> gomap_ok m) \<and>
     (\<forall>cid c e. map_of (client_captchas b c) cid = Some e \<longleftrightarrow>
        (\<exists>rec. map_of (rb_captchas b) cid = Some rec \<and> cp_client rec = c \<and> cp_expiresAt rec = e))"

definition risk_wf :: "risk_backend \<Rightarrow> bool" where
  "risk_wf b \<longleftrightarrow> idx_ok b \<and> gomap_ok (rb_clients b) \<and> gomap_ok (rb_accounts b) \<and>
     (\<forall>c. client_captchas b c \<noteq> [] \<longrightarrow> map_of (rb_clients b) c \<noteq> None)"

lemma idx_okD:
  assumes "idx_ok b"
  shows "gomap_ok (rb_captchas b)" "gomap_ok (rb_captchasByClient b)"
    "gomap_ok (client_captchas b c)"
    "map_of (client_captchas b c) cid = Some e \<longleftrightarrow>
       (\<exists>rec. map_of (rb_captchas b) cid = Some rec \<and> cp_client rec = c \<and> cp_expiresAt rec = e)"
    "map_of (rb_captchasByClient b) c = None \<longleftrightarrow> client_captchas b c = []"
  using assms
  by (auto simp: idx_ok_def client_captchas_def mget_list_def split: option.splits)

subsection \<open>Removing one captcha\<close>

lemma removeCaptcha_frame [simp]:
  "rb_config (removeCaptchaLocked cid c b) = rb_config b"
  "rb_clients (removeCaptchaLocked cid c b) = rb_clients b"
  "rb_accounts (removeCaptchaLocked cid c b) = rb_accounts b"
  "rb_captchas (removeCaptchaLocked cid c b) = mdel cid (rb_captchas b)"
  by (auto simp: removeCaptchaLocked_def Let_def split: option.splits)

lemma removeCaptcha_index:
  "client_captchas (removeCaptchaLocked cid c b) c' =
    (if c' = c then mdel cid (client_captchas b c) else client_captchas b c')"
  by (auto simp: removeCaptchaLocked_def client_captchas_def Let_def mget_list_def
      split: option.splits)

lemma removeCaptcha_inner:
  assumes "idx_ok b" "map_of (rb_captchasByClient (removeCaptchaLocked cid c b)) c' = Some m"
  shows "m \<noteq> [] \<and> gomap_ok m"
proof -
  have "client_captchas (removeCaptchaLocked cid c b) c' = m"
    using assms(2) by (simp add: client_captchas_def mget_list_def)
  moreover have "gomap_ok (client_captchas (removeCaptchaLocked cid c b) c')"
    using idx_okD(3) [OF assms(1)] by (simp add: removeCaptcha_index)
  moreover have "m \<noteq> []"
    using assms
    by (auto simp: removeCaptchaLocked_def idx_ok_def client_captchas_def Let_def
        split: option.splits if_splits)
  ultimately show ?thesis by simp
qed

lemma removeCaptcha_idx_ok:
  assumes ok: "idx_ok b"
    and own: "\<And>rec. map_of (rb_captchas b) cid = Some rec \<Longrightarrow> cp_client rec = c"
  shows "idx_ok (removeCaptchaLocked cid c b)"
proof -
  let ?b = "removeCaptchaLocked cid c b"
  have "gomap_ok (rb_captchasByClient ?b)"
    using idx_okD(2) [OF ok] by (auto simp: removeCaptchaLocked_def Let_def split: option.splits)
  moreover have "map_of (client_captchas ?b c') i = Some e \<longleftrightarrow>
      (\<exists>rec. map_of (rb_captchas ?b) i = Some rec \<and> cp_client rec = c' \<and> cp_expiresAt rec = e)"
    for c' i e
    using idx_okD(4) [OF ok, of c' i e] own by (auto simp: removeCaptcha_index)
  ultimately show ?thesis
    using idx_okD(1) [OF ok] removeCaptcha_inner [OF ok] by (simp add: idx_ok_def)
qed

subsection \<open>What a cleaning step may do\<close>

definition captchas_shrunk ::
  "gotime \<Rightarrow> (string, risk_captcha) gomap \<Rightarrow> (string, risk_captcha) gomap \<Rightarrow> bool" where
  "captchas_shrunk now m m' \<longleftrightarrow> length m' \<le> length m \<and>
     (\<forall>cid rec. map_of m' cid = Some rec \<longrightarrow> map_of m cid = Some rec) \<and>
     (\<forall>cid rec. map_of m cid = Some rec \<longrightarrow> now < cp_expiresAt rec \<longrightarrow> map_of m' cid = Some rec)"

lemma captchas_shrunkD:
  assumes "captchas_shrunk now m m'"
  shows "length m' \<le> length m" "map_of m' cid = Some rec \<Longrightarrow> map_of m cid = Some rec"
    "map_of m cid = Some rec \<Longrightarrow> now < cp_expiresAt rec \<Longrightarrow> map_of m' cid = Some rec"
  using assms unfolding captchas_shrunk_def by blast+

lemma captchas_shrunk_refl [simp]: "captchas_shrunk now m m"
  by (simp add: captchas_shrunk_def)

lemma captchas_shrunk_trans:
  "captchas_shrunk now m1 m2 \<Longrightarrow> captchas_shrunk now m2 m3 \<Longrightarrow> captchas_shrunk now m1 m3"
  unfolding captchas_shrunk_def by (meson order_trans)

lemma captchas_shrunk_mdel:
  "(\<And>rec. map_of m cid = Some rec \<Longrightarrow> \<not> now < cp_expiresAt rec) \<Longrightarrow> captchas_shrunk now m (mdel cid m)"
  by (auto simp: captchas_shrunk_def)

text \<open>
  \<open>cleans now b b'\<close>: from \<open>b\<close> to \<open>b'\<close> only captchas that are expired at \<open>now\<close> were removed,
  and nothing else changed.
\<close>

definition cleans :: "gotime \<Rightarrow> risk_backend \<Rightarrow> risk_backend \<Rightarrow> bool" where
  "cleans now b b' \<longleftrightarrow> rb_config b' = rb_config b \<and> rb_clients b' = rb_clients b \<and>
     rb_accounts b' = rb_accounts b \<and> idx_ok b' \<and>
     (\<forall>c. length (client_captchas b' c) \<le> length (client_captchas b c)) \<and>
     captchas_shrunk now (rb_captchas b) (rb_captchas b')"

lemma cleans_refl: "idx_ok b \<Longrightarrow> cleans now b b"
  by (simp add: cleans_def)

lemma cleans_trans: "cleans now a b \<Longrightarrow> cleans now b c \<Longrightarrow> cleans now a c"
  unfolding cleans_def by (metis captchas_shrunk_trans order_trans)

lemma cleans_idx_ok: "cleans now b b' \<Longrightarrow> idx_ok b'"
  by (simp add: cleans_def)

lemma cleans_back:
  "cleans now b b' \<Longrightarrow> map_of (rb_captchas b') cid = Some rec \<Longrightarrow> map_of (rb_captchas b) cid = Some rec"
  unfolding cleans_def by (blast intro: captchas_shrunkD)

lemma cleans_keep:
  "cleans now b b' \<Longrightarrow> map_of (rb_captchas b) cid = Some rec \<Longrightarrow> now < cp_expiresAt rec \<Longrightarrow>
     map_of (rb_captchas b') cid = Some rec"
  unfolding cleans_def by (blast intro: captchas_shrunkD)

lemma cleans_frame:
  assumes "cleans now b b'"
  shows "rb_config b' = rb_config b" "rb_clients b' = rb_clients b" "rb_accounts b' = rb_accounts b"
    "length (rb_captchas b') \<le> length (rb_captchas b)"
    "length (client_captchas b' c) \<le> length (client_captchas b c)"
  using assms by (auto simp: cleans_def dest: captchas_shrunkD(1))

lemma removeCaptcha_cleans:
  assumes ok: "idx_ok b"
    and own: "\<And>rec. map_of (rb_captchas b) cid = Some rec \<Longrightarrow>
      cp_client rec = c \<and> \<not> now < cp_expiresAt rec"
  shows "cleans now b (removeCaptchaLocked cid c b)"
  using removeCaptcha_idx_ok [OF ok, of cid c] own
  by (auto simp: cleans_def removeCaptcha_index intro!: captchas_shrunk_mdel)

lemma clean_captcha_entries_cleans:
  assumes "idx_ok b"
    and "\<And>cid e rec. (cid, e) \<in> set entries \<Longrightarrow> map_of (rb_captchas b) cid = Some rec \<Longrightarrow>
      cp_client rec = c \<and> cp_expiresAt rec = e"
  shows "cleans now b (clean_captcha_entries now c entries b)"
  using assms
proof (induction now c entries b rule: clean_captcha_entries.induct)
  case (1 now client b)
  then show ?case by (simp add: cleans_refl)
next
  case (2 now client cid e rest b)
  let ?b = "if \<not> now < e then removeCaptchaLocked cid client b else b"
  have first: "cleans now b ?b"
    using "2.prems" by (auto intro!: removeCaptcha_cleans cleans_refl)
  have rest: "cleans now ?b (clean_captcha_entries now client rest ?b)"
  proof (rule "2.IH")
    show "idx_ok ?b" using first by (rule cleans_idx_ok)
    show "cp_client rec = client \<and> cp_expiresAt rec = e'"
      if "(cid', e') \<in> set rest" "map_of (rb_captchas ?b) cid' = Some rec" for cid' e' rec
      using "2.prems"(2) [of cid' e' rec] that(1) cleans_back [OF first that(2)] by simp
  qed
  from cleans_trans [OF first rest] show ?case by (simp only: clean_captcha_entries.simps)
qed

lemma cleanCaptchas_cleans: "idx_ok b \<Longrightarrow> cleans now b (cleanCaptchasLocked c now b)"
  unfolding cleanCaptchasLocked_def
  by (rule clean_captcha_entries_cleans)
    (auto simp: idx_okD gomap_ok_mem_iff)

lemma clean_all_entries_cleans:
  assumes "idx_ok b"
    and "\<And>cid rec rec'. (cid, rec) \<in> set entries \<Longrightarrow> map_of (rb_captchas b) cid = Some rec' \<Longrightarrow> rec' = rec"
  shows "cleans now b (clean_all_entries now entries b)"
  using assms
proof (induction now entries b rule: clean_all_entries.induct)
  case (1 now b)
  then show ?case by (simp add: cleans_refl)
next
  case (2 now cid rec rest b)
  let ?b = "if \<not> now < cp_expiresAt rec then removeCaptchaLocked cid (cp_client rec) b else b"
  have first: "cleans now b ?b"
    using "2.prems" by (auto intro!: removeCaptcha_cleans cleans_refl)
  have rest: "cleans now ?b (clean_all_entries now rest ?b)"
  proof (rule "2.IH")
    show "idx_ok ?b" using first by (rule cleans_idx_ok)
    show "rec'' = rec'"
      if "(cid', rec') \<in> set rest" "map_of (rb_captchas ?b) cid' = Some rec''" for cid' rec' rec''
      using "2.prems"(2) [of cid' rec' rec''] that(1) cleans_back [OF first that(2)] by simp
  qed
  from cleans_trans [OF first rest] show ?case by (simp only: clean_all_entries.simps)
qed

lemma cleanAll_cleans: "idx_ok b \<Longrightarrow> cleans now b (cleanAllLocked now b)"
  unfolding cleanAllLocked_def
  by (rule clean_all_entries_cleans) (auto simp: idx_okD gomap_ok_mem_iff)

subsection \<open>Cleaning that may also reset or drop clients\<close>

definition window_reset :: "gotime \<Rightarrow> risk_window \<Rightarrow> risk_window \<Rightarrow> bool" where
  "window_reset now w w' \<longleftrightarrow> w' = w \<or> (\<not> now < rw_expiresAt w \<and> w' = zero_window)"

definition stale_window :: "gotime \<Rightarrow> risk_window \<Rightarrow> bool" where
  "stale_window now w \<longleftrightarrow> rw_count w = 0 \<or> \<not> now < rw_expiresAt w"

definition clients_tidied ::
  "gotime \<Rightarrow> (string, risk_client) gomap \<Rightarrow> (string, risk_client) gomap \<Rightarrow> bool" where
  "clients_tidied now m m' \<longleftrightarrow> length m' \<le> length m \<and>
     (\<forall>c st'. map_of m' c = Some st' \<longrightarrow>
        (\<exists>st. map_of m c = Some st \<and> window_reset now (cl_captcha st) (cl_captcha st') \<and>
              window_reset now (cl_login st) (cl_login st'))) \<and>
     (\<forall>c st. map_of m c = Some st \<longrightarrow> map_of m' c = None \<longrightarrow>
        stale_window now (cl_captcha st) \<and> stale_window now (cl_login st))"

lemma window_reset_refl [simp]: "window_reset now w w"
  by (simp add: window_reset_def)

lemma window_reset_resetRiskWindow [simp]: "window_reset now w (resetRiskWindow w now)"
  by (simp add: window_reset_def resetRiskWindow_def)

lemma window_reset_trans: "window_reset now u v \<Longrightarrow> window_reset now v w \<Longrightarrow> window_reset now u w"
  by (auto simp: window_reset_def)

lemma stale_window_reset: "window_reset now u v \<Longrightarrow> stale_window now v \<Longrightarrow> stale_window now u"
  by (auto simp: window_reset_def stale_window_def)

lemma clients_tidied_refl [simp]: "clients_tidied now m m"
  unfolding clients_tidied_def by (auto intro: window_reset_refl)

lemma clients_tidied_None:
  assumes "clients_tidied now m m'" "map_of m c = None"
  shows "map_of m' c = None"
proof (cases "map_of m' c")
  case (Some st')
  with assms show ?thesis unfolding clients_tidied_def by fastforce
qed

lemma clients_tidied_trans:
  assumes a: "clients_tidied now m1 m2" and b: "clients_tidied now m2 m3"
  shows "clients_tidied now m1 m3"
  unfolding clients_tidied_def
proof (intro conjI allI impI)
  show "length m3 \<le> length m1" using a b by (simp add: clients_tidied_def)
  fix c st'
  assume "map_of m3 c = Some st'"
  then show "\<exists>st. map_of m1 c = Some st \<and> window_reset now (cl_captcha st) (cl_captcha st') \<and>
      window_reset now (cl_login st) (cl_login st')"
    using a b unfolding clients_tidied_def by (meson window_reset_trans)
next
  fix c st
  assume c: "map_of m1 c = Some st" "map_of m3 c = None"
  have "stale_window now (cl_captcha st) \<and> stale_window now (cl_login st)"
  proof (cases "map_of m2 c")
    case None
    with a c show ?thesis unfolding clients_tidied_def by blast
  next
    case (Some st2)
    with b c have "stale_window now (cl_captcha st2) \<and> stale_window now (cl_login st2)"
      unfolding clients_tidied_def by blast
    moreover from a Some c have "window_reset now (cl_captcha st) (cl_captcha st2) \<and>
        window_reset now (cl_login st) (cl_login st2)"
      unfolding clients_tidied_def by fastforce
    ultimately show ?thesis by (blast intro: stale_window_reset)
  qed
  then show "stale_window now (cl_captcha st)" and "stale_window now (cl_login st)"
    by blast+
qed

text \<open>
  \<open>tidies now b b'\<close>: a cleaning step on a well-formed state keeps it well-formed, drops only
  expired captchas and windows, and drops a client only when nothing about it is live.
\<close>

definition tidies :: "gotime \<Rightarrow> risk_backend \<Rightarrow> risk_backend \<Rightarrow> bool" where
  "tidies now b b' \<longleftrightarrow> rb_config b' = rb_config b \<and> rb_accounts b' = rb_accounts b \<and> risk_wf b' \<and>
     clients_tidied now (rb_clients b) (rb_clients b') \<and>
     (\<forall>c. length (client_captchas b' c) \<le> length (client_captchas b c)) \<and>
     captchas_shrunk now (rb_captchas b) (rb_captchas b')"

lemma tidies_frame:
  assumes "tidies now b b'"
  shows "rb_config b' = rb_config b" "rb_accounts b' = rb_accounts b" "risk_wf b'"
    "clients_tidied now (rb_clients b) (rb_clients b')"
    "length (rb_captchas b') \<le> length (rb_captchas b)"
    "length (client_captchas b' c) \<le> length (client_captchas b c)"
    "captchas_shrunk now (rb_captchas b) (rb_captchas b')"
  using assms by (auto simp: tidies_def dest: captchas_shrunkD(1))

lemma tidies_back:
  "tidies now b b' \<Longrightarrow> map_of (rb_captchas b') cid = Some rec \<Longrightarrow> map_of (rb_captchas b) cid = Some rec"
  unfolding tidies_def by (blast intro: captchas_shrunkD)

lemma tidies_keep:
  "tidies now b b' \<Longrightarrow> map_of (rb_captchas b) cid = Some rec \<Longrightarrow> now < cp_expiresAt rec \<Longrightarrow>
     map_of (rb_captchas b') cid = Some rec"
  unfolding tidies_def by (blast intro: captchas_shrunkD)

lemma tidies_refl: "risk_wf b \<Longrightarrow> tidies now b b"
  by (simp add: tidies_def)

lemma tidies_trans:
  assumes a: "tidies now x y" and b: "tidies now y z"
  shows "tidies now x z"
  unfolding tidies_def
proof (intro conjI allI impI)
  show "rb_config z = rb_config x" "rb_accounts z = rb_accounts x" "risk_wf z"
    using tidies_frame(1-3) [OF a] tidies_frame(1-3) [OF b] by simp_all
  show "clients_tidied now (rb_clients x) (rb_clients z)"
    by (rule clients_tidied_trans [OF tidies_frame(4) [OF a] tidies_frame(4) [OF b]])
  show "length (client_captchas z c) \<le> length (client_captchas x c)" for c
    using tidies_frame(6) [OF b] tidies_frame(6) [OF a] by (rule order_trans)
  show "captchas_shrunk now (rb_captchas x) (rb_captchas z)"
    by (rule captchas_shrunk_trans [OF tidies_frame(7) [OF a] tidies_frame(7) [OF b]])
qed

lemma cleans_tidies:
  assumes wf: "risk_wf b" and c: "cleans now b b'"
  shows "tidies now b b'"
proof -
  have "client_captchas b cl \<noteq> []" if "client_captchas b' cl \<noteq> []" for cl
    using cleans_frame(5) [OF c, of cl] that by auto
  then have "risk_wf b'"
    using wf cleans_frame(2,3) [OF c] cleans_idx_ok [OF c] unfolding risk_wf_def by auto
  then show ?thesis
    using c unfolding tidies_def cleans_def by simp
qed

lemma clients_update_simps [simp]:
  "client_captchas (b\<lparr>rb_clients := m\<rparr>) c = client_captchas b c"
  "client_captchas (b\<lparr>rb_accounts := m'\<rparr>) c = client_captchas b c"
  "idx_ok (b\<lparr>rb_clients := m\<rparr>) = idx_ok b"
  "idx_ok (b\<lparr>rb_accounts := m'\<rparr>) = idx_ok b"
  by (simp_all add: client_captchas_def idx_ok_def)

lemma cleanClient_tidies:
  assumes wf: "risk_wf b"
  shows "tidies now b (cleanClientLocked c now b)"
proof (cases "map_of (rb_clients b) c")
  case None
  then show ?thesis using wf by (simp add: cleanClientLocked_def tidies_refl)
next
  case (Some st)
  define st' where "st' = st\<lparr>cl_captcha := resetRiskWindow (cl_captcha st) now,
    cl_login := resetRiskWindow (cl_login st) now\<rparr>"
  define b1 where "b1 = b\<lparr>rb_clients := mput c st' (rb_clients b)\<rparr>"
  define b2 where "b2 = cleanCaptchasLocked c now b1"
  let ?gone = "rw_count (cl_captcha st') = 0 \<and> rw_count (cl_login st') = 0 \<and> client_captchas b2 c = []"
  have ok: "gomap_ok (rb_clients b)" using wf by (simp add: risk_wf_def)
  have wf1: "risk_wf b1"
    using wf by (auto simp: risk_wf_def b1_def)
  have t1: "tidies now b b1"
    using wf1 Some length_mput_present [OF ok Some]
    by (auto simp: tidies_def b1_def clients_tidied_def st'_def)
  have t2: "tidies now b1 b2"
    unfolding b2_def using wf1 by (intro cleans_tidies cleanCaptchas_cleans) (auto simp: risk_wf_def)
  have clients2: "rb_clients b2 = rb_clients b1"
    unfolding b2_def using wf1 by (intro cleans_frame(2) [OF cleanCaptchas_cleans]) (simp add: risk_wf_def)
  have t3: "tidies now b2 (b2\<lparr>rb_clients := mdel c (rb_clients b2)\<rparr>)" if gone: ?gone
  proof -
    have "risk_wf (b2\<lparr>rb_clients := mdel c (rb_clients b2)\<rparr>)"
      using tidies_frame(3) [OF t2] gone by (auto simp: risk_wf_def)
    moreover have "clients_tidied now (rb_clients b2) (mdel c (rb_clients b2))"
      using gone clients2 by (auto simp: clients_tidied_def b1_def stale_window_def)
    ultimately show ?thesis by (simp add: tidies_def)
  qed
  have eq: "cleanClientLocked c now b =
      (if ?gone then b2\<lparr>rb_clients := mdel c (rb_clients b2)\<rparr> else b2)"
    using Some by (simp add: cleanClientLocked_def Let_def b2_def b1_def st'_def)
  show ?thesis
    using eq tidies_trans [OF t1 t2] tidies_trans [OF tidies_trans [OF t1 t2] t3] by (cases ?gone) simp_all
qed

lemma clean_client_entries_tidies:
  "risk_wf b \<Longrightarrow> tidies now b (clean_client_entries now cs b)"
proof (induction now cs b rule: clean_client_entries.induct)
  case (1 now b)
  then show ?case by (simp add: tidies_refl)
next
  case (2 now c rest b)
  have first: "tidies now b (cleanClientLocked c now b)"
    using "2.prems" by (rule cleanClient_tidies)
  then have "tidies now (cleanClientLocked c now b) (clean_client_entries now rest (cleanClientLocked c now b))"
    by (intro "2.IH" tidies_frame(3))
  from tidies_trans [OF first this] show ?case by simp
qed

lemma cleanAll_tidies: "risk_wf b \<Longrightarrow> tidies now b (cleanAllLocked now b)"
  by (intro cleans_tidies cleanAll_cleans) (simp_all add: risk_wf_def)

lemma cleanCaptchas_tidies: "risk_wf b \<Longrightarrow> tidies now b (cleanCaptchasLocked c now b)"
  by (intro cleans_tidies cleanCaptchas_cleans) (simp_all add: risk_wf_def)

lemma cleanClients_tidies:
  assumes "risk_wf b"
  shows "tidies now b (cleanClientsLocked now b)"
proof -
  have first: "tidies now b (cleanAllLocked now b)"
    using assms by (rule cleanAll_tidies)
  show ?thesis
    unfolding cleanClientsLocked_def Let_def
    by (rule tidies_trans [OF first]) (intro clean_client_entries_tidies tidies_frame(3) [OF first])
qed

subsection \<open>Looking a client up\<close>

text \<open>
  \<open>clientLocked\<close> tidies the state and then, if the client was unknown or stale, enters a
  zero client when there is room.
\<close>

lemma clientLocked_cases:
  assumes wf: "risk_wf b" and step: "clientLocked c now b = (r, b')"
  obtains (found) st where "r = Some st" "tidies now b b'" "map_of (rb_clients b') c = Some st"
  | (full) "r = None" "tidies now b b'" "map_of (rb_clients b') c = None"
      "rc_ClientCapacity (rb_config b') \<le> int (length (rb_clients b'))"
  | (fresh) b1 where "r = Some zero_client" "tidies now b b1" "map_of (rb_clients b1) c = None"
      "int (length (rb_clients b1)) < rc_ClientCapacity (rb_config b1)"
      "b' = b1\<lparr>rb_clients := mput c zero_client (rb_clients b1)\<rparr>"
proof -
  let ?b1 = "cleanClientLocked c now b"
  have t1: "tidies now b ?b1" using wf by (rule cleanClient_tidies)
  show thesis
  proof (cases "map_of (rb_clients ?b1) c")
    case (Some st)
    with step t1 show ?thesis by (intro found [of st]) (auto simp: clientLocked_def Let_def)
  next
    case None
    let ?full = "rc_ClientCapacity (rb_config ?b1) \<le> int (length (rb_clients ?b1))"
    define b2 where "b2 = (if ?full then cleanClientsLocked now ?b1 else ?b1)"
    have t12: "tidies now ?b1 b2"
      using cleanClients_tidies [OF tidies_frame(3) [OF t1]] tidies_refl [OF tidies_frame(3) [OF t1]]
      by (simp add: b2_def)
    have t2: "tidies now b b2" by (rule tidies_trans [OF t1 t12])
    have cfg: "rb_config b2 = rb_config ?b1" using tidies_frame(1) [OF t12] .
    have none2: "map_of (rb_clients b2) c = None"
      using tidies_frame(4) [OF t12] None by (rule clients_tidied_None)
    have eq: "clientLocked c now b =
        (if ?full \<and> rc_ClientCapacity (rb_config ?b1) \<le> int (length (rb_clients b2)) then (None, b2)
         else (Some zero_client, b2\<lparr>rb_clients := mput c zero_client (rb_clients b2)\<rparr>))"
      using None by (simp add: clientLocked_def Let_def b2_def)
    show ?thesis
    proof (cases "?full \<and> rc_ClientCapacity (rb_config ?b1) \<le> int (length (rb_clients b2))")
      case True
      with eq step have "r = None" "b' = b2" by simp_all
      with True t2 none2 cfg show ?thesis by (intro full) simp_all
    next
      case False
      then have "int (length (rb_clients b2)) < rc_ClientCapacity (rb_config b2)"
        using cfg by (auto simp: b2_def split: if_splits)
      moreover from False eq step have "r = Some zero_client"
        "b' = b2\<lparr>rb_clients := mput c zero_client (rb_clients b2)\<rparr>" by auto
      ultimately show ?thesis using t2 none2 by (intro fresh)
    qed
  qed
qed

section \<open>The invariant\<close>

definition risk_inv :: "risk_backend \<Rightarrow> bool" where
  "risk_inv b \<longleftrightarrow> risk_wf b \<and>
     int (length (rb_clients b)) \<le> rc_ClientCapacity (rb_config b) \<and>
     int (length (rb_accounts b)) \<le> rc_AccountCapacity (rb_config b) \<and>
     int (length (rb_captchas b)) \<le> cc_Capacity (rc_Captcha (rb_config b)) \<and>
     (\<forall>c. int (length (client_captchas b c)) \<le> cc_OutstandingPerIP (rc_Captcha (rb_config b))) \<and>
     (\<forall>a st. map_of (rb_accounts b) a = Some st \<longrightarrow> ac_lockUntil st \<le> ac_expiresAt st)"

lemma risk_invD:
  assumes "risk_inv b"
  shows "risk_wf b" "map_of (rb_accounts b) a = Some st \<Longrightarrow> ac_lockUntil st \<le> ac_expiresAt st"
    "gomap_ok (rb_clients b)" "gomap_ok (rb_accounts b)" "gomap_ok (rb_captchas b)" "idx_ok b"
  using assms by (auto simp: risk_inv_def risk_wf_def idx_ok_def)

lemma tidies_inv:
  assumes inv: "risk_inv b" and t: "tidies now b b'"
  shows "risk_inv b'"
proof -
  have "length (rb_clients b') \<le> length (rb_clients b)"
    using tidies_frame(4) [OF t] by (simp add: clients_tidied_def)
  moreover have "int (length (client_captchas b' c)) \<le> cc_OutstandingPerIP (rc_Captcha (rb_config b))" for c
    using inv tidies_frame(6) [OF t, of c] unfolding risk_inv_def by (meson of_nat_mono order_trans)
  ultimately show ?thesis
    using inv tidies_frame(1,2,3,5) [OF t] unfolding risk_inv_def by auto
qed

lemma client_update_inv:
  assumes inv: "risk_inv b" and st: "map_of (rb_clients b) c = Some st"
  shows "risk_inv (b\<lparr>rb_clients := mput c st' (rb_clients b)\<rparr>)"
  using inv length_mput_present [OF risk_invD(3) [OF inv] st, of st']
  by (auto simp: risk_inv_def risk_wf_def)

lemma clientLocked_inv:
  assumes inv: "risk_inv b" and step: "clientLocked c now b = (r, b')"
  shows "risk_inv b'" and "r = Some st \<Longrightarrow> map_of (rb_clients b') c = Some st"
proof -
  have *: "risk_inv b' \<and> (\<forall>st. r = Some st \<longrightarrow> map_of (rb_clients b') c = Some st)"
    using risk_invD(1) [OF inv] step
  proof (cases rule: clientLocked_cases)
    case (found st)
    then show ?thesis using tidies_inv [OF inv] by simp
  next
    case full
    then show ?thesis using tidies_inv [OF inv] by simp
  next
    case (fresh b1)
    have inv1: "risk_inv b1" using inv fresh(2) by (rule tidies_inv)
    then have "risk_inv b'"
      using fresh(3-5) by (auto simp: risk_inv_def risk_wf_def length_mput_absent)
    then show ?thesis using fresh(1,5) by simp
  qed
  then show "risk_inv b'" by blast
  from * show "r = Some st \<Longrightarrow> map_of (rb_clients b') c = Some st" by blast
qed

lemma captcha_room_cleans:
  assumes idx: "idx_ok b" and room: "captcha_room c now b = (ok, b')"
  shows "cleans now b b'"
proof -
  have c1: "cleans now b (cleanCaptchasLocked c now b)"
    using idx by (rule cleanCaptchas_cleans)
  moreover have "cleans now b (cleanAllLocked now (cleanCaptchasLocked c now b))"
    by (rule cleans_trans [OF c1 cleanAll_cleans [OF cleans_idx_ok [OF c1]]])
  ultimately show ?thesis
    using room by (auto simp: captcha_room_def Let_def split: if_splits)
qed

lemma captcha_room_tidies:
  assumes wf: "risk_wf b" and room: "captcha_room c now b = (ok, b')"
  shows "tidies now b b'" "rb_clients b' = rb_clients b"
proof -
  have "cleans now b b'"
    using wf room by (intro captcha_room_cleans) (auto simp: risk_wf_def)
  then show "tidies now b b'" "rb_clients b' = rb_clients b"
    using wf by (auto intro: cleans_tidies cleans_frame(2))
qed

lemma captcha_room_space:
  assumes wf: "risk_wf b" and room: "captcha_room c now b = (True, b')"
  shows "int (length (client_captchas b' c)) < cc_OutstandingPerIP (rc_Captcha (rb_config b'))"
    and "int (length (rb_captchas b')) < cc_Capacity (rc_Captcha (rb_config b'))"
proof -
  define b1 where "b1 = cleanCaptchasLocked c now b"
  have t: "tidies now b1 (cleanAllLocked now b1)"
    unfolding b1_def by (intro cleanAll_tidies tidies_frame(3) [OF cleanCaptchas_tidies] wf)
  show "int (length (client_captchas b' c)) < cc_OutstandingPerIP (rc_Captcha (rb_config b'))"
    and "int (length (rb_captchas b')) < cc_Capacity (rc_Captcha (rb_config b'))"
    using room tidies_frame(1) [OF t] tidies_frame(6) [OF t, of c]
    by (auto simp: captcha_room_def Let_def b1_def [symmetric] split: if_splits)
qed

lemma captcha_room_inv:
  "risk_inv b \<Longrightarrow> captcha_room c now b = (ok, b') \<Longrightarrow> risk_inv b'"
  by (rule tidies_inv [OF _ captcha_room_tidies(1)]) (auto dest: risk_invD)

lemma allowCaptcha_inv:
  assumes inv: "risk_inv b"
  shows "risk_inv (snd (allowCaptcha now c b))"
proof -
  obtain r b1 where cl: "clientLocked c now b = (r, b1)" by fastforce
  have inv1: "risk_inv b1" using inv cl by (rule clientLocked_inv)
  show ?thesis
  proof (cases r)
    case None
    with cl inv1 show ?thesis by (simp add: allowCaptcha_def)
  next
    case (Some st)
    define b2 where "b2 = b1\<lparr>rb_clients := mput c (st\<lparr>cl_captcha := increaseRiskWindow (cl_captcha st) now
        (cc_RateWindow (rc_Captcha (rb_config b1)))\<rparr>) (rb_clients b1)\<rparr>"
    have inv2: "risk_inv b2"
      unfolding b2_def using inv1 clientLocked_inv(2) [OF inv cl Some] by (rule client_update_inv)
    obtain ok b3 where room: "captcha_room c now b2 = (ok, b3)" by fastforce
    then have "risk_inv b3" by (rule captcha_room_inv [OF inv2])
    with cl Some inv2 room show ?thesis
      by (cases ok) (simp_all add: allowCaptcha_def Let_def b2_def [symmetric])
  qed
qed

lemma saveCaptcha_new_inv:
  assumes inv: "risk_inv b" and client: "map_of (rb_clients b) c \<noteq> None"
    and new: "map_of (rb_captchas b) cid = None"
    and room: "int (length (client_captchas b c)) < cc_OutstandingPerIP (rc_Captcha (rb_config b))"
      "int (length (rb_captchas b)) < cc_Capacity (rc_Captcha (rb_config b))"
  shows "risk_inv (b\<lparr>rb_captchas := mput cid
           \<lparr>cp_answer = answer, cp_client = c, cp_expiresAt = e\<rparr> (rb_captchas b),
         rb_captchasByClient := mput c (mput cid e (client_captchas b c)) (rb_captchasByClient b)\<rparr>)"
    (is "risk_inv ?b")
proof -
  have idx: "idx_ok b" using inv by (rule risk_invD)
  have cc: "client_captchas ?b c' = (if c' = c then mput cid e (client_captchas b c) else client_captchas b c')"
    for c'
    by (simp add: client_captchas_def)
  have absent: "map_of (client_captchas b c') cid = None" for c'
    using idx_okD(4) [OF idx, of c' cid] new by (cases "map_of (client_captchas b c') cid") auto
  have "idx_ok ?b"
    unfolding idx_ok_def
  proof (intro conjI allI impI)
    show "gomap_ok (rb_captchas ?b)" "gomap_ok (rb_captchasByClient ?b)"
      using idx_okD [OF idx] by simp_all
    show "m \<noteq> []" "gomap_ok m" if "map_of (rb_captchasByClient ?b) c' = Some m" for c' m
      using that idx idx_okD(3) [OF idx, of c] by (auto simp: idx_ok_def split: if_splits)
    show "map_of (client_captchas ?b c') i = Some t \<longleftrightarrow>
        (\<exists>rec. map_of (rb_captchas ?b) i = Some rec \<and> cp_client rec = c' \<and> cp_expiresAt rec = t)" for i c' t
      using idx_okD(4) [OF idx, of c' i t] absent [of c'] new unfolding cc by auto
  qed
  then have "risk_wf ?b"
    using inv client unfolding risk_wf_def cc risk_inv_def by auto
  moreover have "int (length (client_captchas ?b c')) \<le> cc_OutstandingPerIP (rc_Captcha (rb_config b))" for c'
    using inv room(1) absent [of c] unfolding cc risk_inv_def by (simp add: length_mput_absent)
  ultimately show ?thesis
    using inv room(2) new unfolding risk_inv_def by (simp add: length_mput_absent)
qed

lemma clientLocked_captcha_absent:
  assumes "risk_wf b" "clientLocked c now b = (r, b')" "map_of (rb_captchas b) cid = None"
  shows "map_of (rb_captchas b') cid = None"
proof -
  obtain b1 where "tidies now b b1" "rb_captchas b' = rb_captchas b1"
    using assms(1,2) by (cases rule: clientLocked_cases) auto
  then show ?thesis
    using assms(3) tidies_back [of now b b1 cid] by (cases "map_of (rb_captchas b1) cid") auto
qed

lemma saveCaptcha_inv:
  assumes inv: "risk_inv b"
  shows "risk_inv (snd (saveCaptcha now c cid answer b))"
proof (cases "map_of (rb_captchas b) cid")
  case (Some rec)
  with inv show ?thesis by (simp add: saveCaptcha_def)
next
  case new: None
  obtain r b1 where cl: "clientLocked c now b = (r, b1)" by fastforce
  have inv1: "risk_inv b1" using inv cl by (rule clientLocked_inv)
  show ?thesis
  proof (cases r)
    case None
    with new cl inv1 show ?thesis by (simp add: saveCaptcha_def)
  next
    case (Some st)
    obtain ok b2 where room: "captcha_room c now b1 = (ok, b2)" by fastforce
    have t: "tidies now b1 b2" using risk_invD(1) [OF inv1] room by (rule captcha_room_tidies(1))
    have inv2: "risk_inv b2" using inv1 t by (rule tidies_inv)
    show ?thesis
    proof (cases ok)
      case False
      with new cl Some room inv2 show ?thesis by (simp add: saveCaptcha_def)
    next
      case True
      have absent: "map_of (rb_captchas b2) cid = None"
        using clientLocked_captcha_absent [OF risk_invD(1) [OF inv] cl new] tidies_back [OF t, of cid]
        by (cases "map_of (rb_captchas b2) cid") auto
      have "map_of (rb_clients b2) c \<noteq> None"
        using clientLocked_inv(2) [OF inv cl Some] captcha_room_tidies(2) [OF risk_invD(1) [OF inv1] room]
        by simp
      with inv2 absent captcha_room_space [OF risk_invD(1) [OF inv1]] room True
      show ?thesis
        using new cl Some by (simp add: saveCaptcha_def Let_def saveCaptcha_new_inv)
    qed
  qed
qed

lemma consumeCaptcha_inv:
  assumes inv: "risk_inv b"
  shows "risk_inv (snd (consumeCaptcha now cid answer b))"
proof (cases "map_of (rb_captchas b) cid")
  case None
  with inv show ?thesis by (simp add: consumeCaptcha_def)
next
  case (Some rec)
  let ?b = "removeCaptchaLocked cid (cp_client rec) b"
  have "idx_ok ?b"
    using Some risk_invD(6) [OF inv] by (intro removeCaptcha_idx_ok) simp_all
  moreover have len: "length (client_captchas ?b c) \<le> length (client_captchas b c)" for c
    by (simp add: removeCaptcha_index)
  then have "client_captchas b c \<noteq> []" if "client_captchas ?b c \<noteq> []" for c
    using that by (metis le_zero_eq length_0_conv)
  ultimately have "risk_wf ?b"
    using inv unfolding risk_inv_def risk_wf_def by auto
  moreover have "int (length (client_captchas ?b c)) \<le> cc_OutstandingPerIP (rc_Captcha (rb_config b))" for c
    using inv len [of c] unfolding risk_inv_def by (meson of_nat_mono order_trans)
  moreover have "int (length (rb_captchas ?b)) \<le> cc_Capacity (rc_Captcha (rb_config b))"
    using inv length_mdel_le [of cid "rb_captchas b"] unfolding risk_inv_def
    by (simp only: removeCaptcha_frame) linarith
  ultimately have "risk_inv ?b"
    using inv unfolding risk_inv_def by simp
  with Some show ?thesis by (simp add: consumeCaptcha_def Let_def)
qed

lemma accounts_shrink_inv:
  assumes inv: "risk_inv b" and len: "length m \<le> length (rb_accounts b)" and ok: "gomap_ok m"
    and old: "\<And>a st. map_of m a = Some st \<Longrightarrow> map_of (rb_accounts b) a = Some st"
  shows "risk_inv (b\<lparr>rb_accounts := m\<rparr>)"
  using inv len ok old unfolding risk_inv_def risk_wf_def by fastforce

lemma account_delete_inv: "risk_inv b \<Longrightarrow> risk_inv (b\<lparr>rb_accounts := mdel a (rb_accounts b)\<rparr>)"
  by (rule accounts_shrink_inv) (auto simp: risk_invD split: if_splits)

lemma cleanAccounts_inv:
  assumes inv: "risk_inv b"
  shows "risk_inv (cleanAccountsLocked now b)"
  unfolding cleanAccountsLocked_def
  by (rule accounts_shrink_inv [OF inv])
    (auto simp: risk_invD [OF inv] map_of_filter_ok [OF risk_invD(4) [OF inv]] split: option.splits if_splits)

lemma account_put_inv:
  assumes inv: "risk_inv b" and lock: "ac_lockUntil st \<le> ac_expiresAt st"
    and room: "map_of (rb_accounts b) a \<noteq> None \<or>
      int (length (rb_accounts b)) < rc_AccountCapacity (rb_config b)"
  shows "risk_inv (b\<lparr>rb_accounts := mput a st (rb_accounts b)\<rparr>)"
proof -
  have "int (length (mput a st (rb_accounts b))) \<le> rc_AccountCapacity (rb_config b)"
  proof (cases "map_of (rb_accounts b) a")
    case None
    with room show ?thesis by (simp add: length_mput_absent)
  next
    case (Some st')
    with inv show ?thesis
      using length_mput_present [OF risk_invD(4) [OF inv] Some] by (simp add: risk_inv_def)
  qed
  then show ?thesis
    using inv lock unfolding risk_inv_def risk_wf_def by auto
qed

lemma count_failure_lock: "ac_lockUntil (count_failure config now st) \<le> ac_expiresAt (count_failure config now st)"
  by (simp add: count_failure_def laterTime_def Let_def)

lemma allowLogin_inv:
  assumes inv: "risk_inv b"
  shows "risk_inv (snd (allowLogin now c a b))"
proof -
  obtain r b1 where cl: "clientLocked c now b = (r, b1)" by fastforce
  have inv1: "risk_inv b1" using inv cl by (rule clientLocked_inv)
  show ?thesis
  proof (cases r)
    case None
    with cl inv1 show ?thesis by (simp add: allowLogin_def)
  next
    case (Some st)
    define b2 where "b2 = b1\<lparr>rb_clients := mput c (st\<lparr>cl_login := increaseRiskWindow (cl_login st) now
        (lc_IPRateWindow (rc_Login (rb_config b1)))\<rparr>) (rb_clients b1)\<rparr>"
    have inv2: "risk_inv b2"
      unfolding b2_def using inv1 clientLocked_inv(2) [OF inv cl Some] by (rule client_update_inv)
    then show ?thesis
      using cl Some account_delete_inv [OF inv2]
      by (simp add: allowLogin_def Let_def b2_def [symmetric] split: option.split)
  qed
qed

lemma failure_on_inv:
  assumes "risk_inv b" "ac_lockUntil st \<le> ac_expiresAt st"
    and "map_of (rb_accounts b) a \<noteq> None \<or> int (length (rb_accounts b)) < rc_AccountCapacity (rb_config b)"
  shows "risk_inv (snd (failure_on now a st b))"
  using assms by (auto simp: failure_on_def intro!: account_put_inv count_failure_lock)

lemma recordLoginFailure_inv:
  assumes inv: "risk_inv b"
  shows "risk_inv (snd (recordLoginFailure now a b))"
proof -
  define b1 where "b1 = (case map_of (rb_accounts b) a of
      Some st \<Rightarrow> if \<not> now < ac_expiresAt st then b\<lparr>rb_accounts := mdel a (rb_accounts b)\<rparr> else b
    | None \<Rightarrow> b)"
  let ?full = "rc_AccountCapacity (rb_config b1) \<le> int (length (rb_accounts b1))"
  define b2 where "b2 = (if ?full then cleanAccountsLocked now b1 else b1)"
  have inv1: "risk_inv b1"
    using inv account_delete_inv [OF inv] by (simp add: b1_def split: option.split)
  have inv2: "risk_inv b2"
    using inv1 cleanAccounts_inv [OF inv1] by (simp add: b2_def)
  have cfg: "rb_config b2 = rb_config b1" by (simp add: b2_def cleanAccountsLocked_def)
  have eq: "recordLoginFailure now a b =
      (case map_of (rb_accounts b1) a of
         Some st \<Rightarrow> failure_on now a st b1
       | None \<Rightarrow> if ?full \<and> rc_AccountCapacity (rb_config b1) \<le> int (length (rb_accounts b2))
                then (RiskLimited, b2) else failure_on now a zero_account b2)"
    by (simp only: recordLoginFailure_def Let_def b1_def b2_def)
  show ?thesis
  proof (cases "map_of (rb_accounts b1) a")
    case (Some st)
    with eq show ?thesis using failure_on_inv [OF inv1] risk_invD(2) [OF inv1 Some] by simp
  next
    case None
    show ?thesis
    proof (cases "?full \<and> rc_AccountCapacity (rb_config b1) \<le> int (length (rb_accounts b2))")
      case True
      with eq None inv2 show ?thesis by simp
    next
      case False
      then have "int (length (rb_accounts b2)) < rc_AccountCapacity (rb_config b2)"
        using cfg by (auto simp: b2_def split: if_splits)
      with failure_on_inv [OF inv2, of zero_account a now] have "risk_inv (snd (failure_on now a zero_account b2))"
        by (simp add: zero_account_def)
      with eq None False show ?thesis by auto
    qed
  qed
qed

lemma clearLoginFailure_inv: "risk_inv b \<Longrightarrow> risk_inv (snd (clearLoginFailure a b))"
  by (simp add: clearLoginFailure_def account_delete_inv)

lemma risk_step_inv: "risk_inv b \<Longrightarrow> risk_inv (snd (risk_step now operation b))"
  by (cases operation) (simp_all add: allowCaptcha_inv saveCaptcha_inv consumeCaptcha_inv allowLogin_inv
      recordLoginFailure_inv clearLoginFailure_inv)

end
