(* ===== verification/Risk_Properties.thy ===== *)
theory Risk_Properties
  imports Risk_Memory
begin

text \<open>
  What the in-process risk-control backend guarantees over whole runs of its operations:
  capacities, one-time captchas, the login rate limit of a client and the lock of an account
  after repeated failures.
\<close>

section \<open>Runs\<close>

lemma risk_run_inv: "risk_inv b \<Longrightarrow> risk_inv (risk_run ops b)"
  by (induction ops b rule: risk_run.induct) (simp_all add: risk_step_inv)

definition capacities_ok :: "risk_config \<Rightarrow> bool" where
  "capacities_ok config \<longleftrightarrow> 0 < rc_ClientCapacity config \<and> 0 < rc_AccountCapacity config \<and>
     0 < cc_Capacity (rc_Captcha config) \<and> 0 < cc_OutstandingPerIP (rc_Captcha config)"

lemma newMemoryBackend_inv: "capacities_ok config \<Longrightarrow> risk_inv (newMemoryBackend config)"
  by (auto simp: risk_inv_def risk_wf_def idx_ok_def newMemoryBackend_def capacities_ok_def
      client_captchas_def mget_list_def)

lemma clientLocked_frame:
  assumes wf: "risk_wf b" and step: "clientLocked c now b = (r, b')"
  shows "rb_config b' = rb_config b" "rb_accounts b' = rb_accounts b"
    "map_of (rb_captchas b) cid = Some rec \<Longrightarrow> now < cp_expiresAt rec \<Longrightarrow>
       map_of (rb_captchas b') cid = Some rec"
proof -
  obtain b1 where "tidies now b b1" "rb_config b' = rb_config b1" "rb_accounts b' = rb_accounts b1"
    "rb_captchas b' = rb_captchas b1"
    using wf step by (cases rule: clientLocked_cases) auto
  then show "rb_config b' = rb_config b" "rb_accounts b' = rb_accounts b"
    "map_of (rb_captchas b) cid = Some rec \<Longrightarrow> now < cp_expiresAt rec \<Longrightarrow>
       map_of (rb_captchas b') cid = Some rec"
    using tidies_frame(1,2) [of now b b1] tidies_keep [of now b b1] by auto
qed

text \<open>
  The two operations that begin with \<open>clientLocked\<close> and then bump one of the client's
  windows, in the form the proofs use.
\<close>

lemma allowCaptcha_unfold:
  assumes inv: "risk_inv b" and cl: "clientLocked c now b = (r, b1)"
  obtains (full) "r = None" "allowCaptcha now c b = (RiskLimited, b1)"
  | (bumped) st w b2 res b3 where "r = Some st" "map_of (rb_clients b1) c = Some st"
      "b2 = b1\<lparr>rb_clients := mput c (st\<lparr>cl_captcha := w\<rparr>) (rb_clients b1)\<rparr>" "risk_inv b2"
      "allowCaptcha now c b = (res, b3)" "tidies now b2 b3" "rb_clients b3 = rb_clients b2"
proof (cases r)
  case None
  with cl full show ?thesis by (simp add: allowCaptcha_def)
next
  case (Some st)
  have inv1: "risk_inv b1" and st: "map_of (rb_clients b1) c = Some st"
    using clientLocked_inv [OF inv cl] Some by blast+
  define w where "w = increaseRiskWindow (cl_captcha st) now (cc_RateWindow (rc_Captcha (rb_config b1)))"
  define b2 where "b2 = b1\<lparr>rb_clients := mput c (st\<lparr>cl_captcha := w\<rparr>) (rb_clients b1)\<rparr>"
  have inv2: "risk_inv b2" unfolding b2_def using inv1 st by (rule client_update_inv)
  obtain ok b3 where room: "captcha_room c now b2 = (ok, b3)" by fastforce
  note t = captcha_room_tidies [OF risk_invD(1) [OF inv2] room]
  have "\<exists>res b'. allowCaptcha now c b = (res, b') \<and> tidies now b2 b' \<and> rb_clients b' = rb_clients b2"
    using cl Some room t tidies_refl [OF risk_invD(1) [OF inv2]]
    by (cases ok) (auto simp: allowCaptcha_def Let_def w_def [symmetric] b2_def [symmetric])
  with Some st inv2 b2_def bumped show ?thesis by blast
qed

lemma allowLogin_unfold:
  assumes inv: "risk_inv b" and cl: "clientLocked c now b = (r, b1)"
  obtains (full) "r = None" "allowLogin now c a b = (RiskLimited, b1)"
  | (bumped) st w res b3 where "r = Some st" "map_of (rb_clients b1) c = Some st"
      "w = increaseRiskWindow (cl_login st) now (lc_IPRateWindow (rc_Login (rb_config b)))"
      "allowLogin now c a b = (res, b3)"
      "rb_clients b3 = mput c (st\<lparr>cl_login := w\<rparr>) (rb_clients b1)"
      "rb_captchas b3 = rb_captchas b1"
      "res = RiskAllowed \<Longrightarrow> rw_count w \<le> lc_IPRateLimit (rc_Login (rb_config b))"
      "\<And>st'. map_of (rb_accounts b) a = Some st' \<Longrightarrow> now < ac_lockUntil st' \<Longrightarrow> res = RiskLimited"
      "\<And>a' st'. map_of (rb_accounts b) a' = Some st' \<Longrightarrow> now < ac_expiresAt st' \<Longrightarrow>
         map_of (rb_accounts b3) a' = Some st'"
proof (cases r)
  case None
  with cl full show ?thesis by (simp add: allowLogin_def)
next
  case (Some st)
  have inv1: "risk_inv b1" and st: "map_of (rb_clients b1) c = Some st"
    using clientLocked_inv [OF inv cl] Some by blast+
  note fr = clientLocked_frame(1,2) [OF risk_invD(1) [OF inv] cl]
  define w where "w = increaseRiskWindow (cl_login st) now (lc_IPRateWindow (rc_Login (rb_config b)))"
  obtain res b3 where al: "allowLogin now c a b = (res, b3)" by fastforce
  note al' = al [unfolded allowLogin_def cl Some, simplified, unfolded Let_def fr, folded w_def]
  have locks: "ac_lockUntil st' \<le> ac_expiresAt st'" if "map_of (rb_accounts b) a' = Some st'" for a' st'
    using risk_invD(2) [OF inv that] .
  have facts: "rb_clients b3 = mput c (st\<lparr>cl_login := w\<rparr>) (rb_clients b1)" "rb_captchas b3 = rb_captchas b1"
    "res = RiskAllowed \<Longrightarrow> rw_count w \<le> lc_IPRateLimit (rc_Login (rb_config b))"
    using al' by (auto simp: fr split: if_splits option.splits)
  have lim: "res = RiskLimited" if "map_of (rb_accounts b) a = Some st'" "now < ac_lockUntil st'" for st'
    using al' that locks [OF that(1)] by (auto simp: fr split: if_splits)
  have keep: "map_of (rb_accounts b3) a' = Some st'"
    if "map_of (rb_accounts b) a' = Some st'" "now < ac_expiresAt st'" for a' st'
    using al' that by (auto simp: fr split: if_splits option.splits)
  show ?thesis by (rule bumped [OF Some st w_def al facts(1,2) facts(3) lim keep])
qed

lemma saveCaptcha_unfold:
  assumes inv: "risk_inv b" and new: "map_of (rb_captchas b) cid = None"
    and cl: "clientLocked c now b = (r, b1)"
  obtains (refused) b2 where "saveCaptcha now c cid answer b = (RiskLimited, b2)" "tidies now b1 b2"
      "rb_clients b2 = rb_clients b1"
  | (saved) b2 where "tidies now b1 b2" "rb_clients b2 = rb_clients b1"
      "saveCaptcha now c cid answer b =
        (RiskAllowed, b2\<lparr>rb_captchas := mput cid
             \<lparr>cp_answer = answer, cp_client = c,
              cp_expiresAt = now + cc_TTL (rc_Captcha (rb_config b))\<rparr> (rb_captchas b2),
           rb_captchasByClient := mput c
             (mput cid (now + cc_TTL (rc_Captcha (rb_config b))) (client_captchas b2 c))
             (rb_captchasByClient b2)\<rparr>)"
proof (cases r)
  case None
  have "risk_wf b1" using clientLocked_inv(1) [OF inv cl] by (rule risk_invD)
  with None new cl show ?thesis by (intro refused) (simp_all add: saveCaptcha_def tidies_refl)
next
  case (Some st)
  have inv1: "risk_inv b1" using inv cl by (rule clientLocked_inv)
  obtain ok b2 where room: "captcha_room c now b1 = (ok, b2)" by fastforce
  note t = captcha_room_tidies [OF risk_invD(1) [OF inv1] room]
  have cfg: "rb_config b2 = rb_config b"
    using tidies_frame(1) [OF t(1)] clientLocked_frame(1) [OF risk_invD(1) [OF inv] cl] by simp
  show ?thesis
  proof (cases ok)
    case False
    with Some new cl room t show ?thesis by (intro refused [of b2]) (simp_all add: saveCaptcha_def)
  next
    case True
    with Some new cl room t cfg show ?thesis
      by (intro saved [of b2]) (simp_all add: saveCaptcha_def Let_def)
  qed
qed

lemma recordLoginFailure_frame:
  "rb_config (snd (recordLoginFailure now a b)) = rb_config b"
  "rb_clients (snd (recordLoginFailure now a b)) = rb_clients b"
  "rb_captchas (snd (recordLoginFailure now a b)) = rb_captchas b"
  by (auto simp: recordLoginFailure_def failure_on_def cleanAccountsLocked_def Let_def
      split: option.split)

lemma risk_step_config: "risk_inv b \<Longrightarrow> rb_config (snd (risk_step now operation b)) = rb_config b"
proof (cases operation)
  case (AllowCaptcha c)
  assume inv: "risk_inv b"
  obtain r b1 where cl: "clientLocked c now b = (r, b1)" by fastforce
  note fr = clientLocked_frame(1) [OF risk_invD(1) [OF inv] cl]
  from inv cl show ?thesis
    using AllowCaptcha fr by (cases rule: allowCaptcha_unfold) (auto dest: tidies_frame(1))
next
  case (SaveCaptcha c cid answer)
  assume inv: "risk_inv b"
  obtain r b1 where cl: "clientLocked c now b = (r, b1)" by fastforce
  note fr = clientLocked_frame(1) [OF risk_invD(1) [OF inv] cl]
  show ?thesis
  proof (cases "map_of (rb_captchas b) cid")
    case None
    from inv None cl show ?thesis
      using SaveCaptcha fr
      by (cases rule: saveCaptcha_unfold [where answer = answer]) (auto dest: tidies_frame(1))
  qed (use SaveCaptcha in \<open>simp add: saveCaptcha_def\<close>)
next
  case (ConsumeCaptcha cid answer)
  then show ?thesis by (simp add: consumeCaptcha_def Let_def split: option.split)
next
  case (AllowLogin c a)
  assume inv: "risk_inv b"
  obtain r b1 where cl: "clientLocked c now b = (r, b1)" by fastforce
  note fr = clientLocked_frame(1) [OF risk_invD(1) [OF inv] cl]
  show ?thesis
    using AllowLogin fr cl by (auto simp: allowLogin_def Let_def split: option.split)
next
  case (RecordLoginFailure a)
  then show ?thesis by (simp add: recordLoginFailure_frame)
next
  case (ClearLoginFailure a)
  then show ?thesis by (simp add: clearLoginFailure_def)
qed

lemma risk_run_config: "risk_inv b \<Longrightarrow> rb_config (risk_run ops b) = rb_config b"
  by (induction ops b rule: risk_run.induct) (simp_all add: risk_step_inv risk_step_config)

section \<open>Captchas\<close>

fun consumes :: "string \<Rightarrow> risk_op \<Rightarrow> bool" where
  "consumes cid (ConsumeCaptcha i answer) = (i = cid)"
| "consumes cid _ = False"

fun saves :: "string \<Rightarrow> risk_op \<Rightarrow> bool" where
  "saves cid (SaveCaptcha c i answer) = (i = cid)"
| "saves cid _ = False"

text \<open>A live captcha survives every operation but its own consumption.\<close>

lemma risk_step_keeps_captcha:
  assumes inv: "risk_inv b" and rec: "map_of (rb_captchas b) cid = Some rec"
    and live: "now < cp_expiresAt rec" and other: "\<not> consumes cid operation"
  shows "map_of (rb_captchas (snd (risk_step now operation b))) cid = Some rec"
proof (cases operation)
  case (AllowCaptcha c)
  obtain r b1 where cl: "clientLocked c now b = (r, b1)" by fastforce
  note kept = clientLocked_frame(3) [OF risk_invD(1) [OF inv] cl rec live]
  from inv cl show ?thesis
  proof (cases rule: allowCaptcha_unfold)
    case full
    with AllowCaptcha kept show ?thesis by simp
  next
    case (bumped st w b2 res b3)
    then show ?thesis using AllowCaptcha tidies_keep [OF bumped(6) _ live] kept by simp
  qed
next
  case (SaveCaptcha c i answer)
  obtain r b1 where cl: "clientLocked c now b = (r, b1)" by fastforce
  note kept = clientLocked_frame(3) [OF risk_invD(1) [OF inv] cl rec live]
  show ?thesis
  proof (cases "map_of (rb_captchas b) i")
    case (Some rec')
    with SaveCaptcha rec show ?thesis by (simp add: saveCaptcha_def)
  next
    case None
    with rec have "i \<noteq> cid" by auto
    from inv None cl show ?thesis
    proof (cases rule: saveCaptcha_unfold [where answer = answer])
      case (refused b2)
      then show ?thesis using SaveCaptcha tidies_keep [OF refused(2) kept live] by simp
    next
      case (saved b2)
      then show ?thesis using SaveCaptcha tidies_keep [OF saved(1) kept live] \<open>i \<noteq> cid\<close> by simp
    qed
  qed
next
  case (ConsumeCaptcha i answer)
  with rec other show ?thesis by (auto simp: consumeCaptcha_def Let_def split: option.split)
next
  case (AllowLogin c a)
  obtain r b1 where cl: "clientLocked c now b = (r, b1)" by fastforce
  note kept = clientLocked_frame(3) [OF risk_invD(1) [OF inv] cl rec live]
  from inv cl show ?thesis
    using AllowLogin kept by (cases rule: allowLogin_unfold [where a = a]) auto
next
  case (RecordLoginFailure a)
  with rec show ?thesis by (simp add: recordLoginFailure_frame)
next
  case (ClearLoginFailure a)
  with rec show ?thesis by (simp add: clearLoginFailure_def)
qed

lemma risk_run_keeps_captcha:
  assumes "risk_inv b" "map_of (rb_captchas b) cid = Some rec"
    and "\<And>t operation. (t, operation) \<in> set ops \<Longrightarrow> t < cp_expiresAt rec \<and> \<not> consumes cid operation"
  shows "map_of (rb_captchas (risk_run ops b)) cid = Some rec"
  using assms
proof (induction ops b rule: risk_run.induct)
  case (1 b)
  then show ?case by simp
next
  case (2 now operation rest b)
  have "map_of (rb_captchas (snd (risk_step now operation b))) cid = Some rec"
    using "2.prems" by (intro risk_step_keeps_captcha) auto
  with "2.prems" show ?case by (auto intro!: "2.IH" risk_step_inv)
qed

text \<open>A captcha that is gone stays gone until it is saved again.\<close>

lemma risk_step_absent_captcha:
  assumes inv: "risk_inv b" and none: "map_of (rb_captchas b) cid = None" and other: "\<not> saves cid operation"
  shows "map_of (rb_captchas (snd (risk_step now operation b))) cid = None"
proof -
  have stays_gone: "map_of (rb_captchas b'') cid = None" if "tidies now b' b''" "map_of (rb_captchas b') cid = None"
    for b' b''
    using tidies_back [OF that(1), of cid] that(2) by (cases "map_of (rb_captchas b'') cid") auto
  show ?thesis
  proof (cases operation)
    case (AllowCaptcha c)
    obtain r b1 where cl: "clientLocked c now b = (r, b1)" by fastforce
    note absent = clientLocked_captcha_absent [OF risk_invD(1) [OF inv] cl none]
    from inv cl show ?thesis
    proof (cases rule: allowCaptcha_unfold)
      case full
      with AllowCaptcha absent show ?thesis by simp
    next
      case (bumped st w b2 res b3)
      then show ?thesis using AllowCaptcha stays_gone [OF bumped(6)] absent by simp
    qed
  next
    case (SaveCaptcha c i answer)
    obtain r b1 where cl: "clientLocked c now b = (r, b1)" by fastforce
    note absent = clientLocked_captcha_absent [OF risk_invD(1) [OF inv] cl none]
    show ?thesis
    proof (cases "map_of (rb_captchas b) i")
      case (Some rec')
      with SaveCaptcha none show ?thesis by (simp add: saveCaptcha_def)
    next
      case None
      from inv None cl show ?thesis
      proof (cases rule: saveCaptcha_unfold [where answer = answer])
        case (refused b2)
        then show ?thesis using SaveCaptcha stays_gone [OF refused(2) absent] by simp
      next
        case (saved b2)
        then show ?thesis using SaveCaptcha stays_gone [OF saved(1) absent] other by auto
      qed
    qed
  next
    case (ConsumeCaptcha i answer)
    with none show ?thesis by (auto simp: consumeCaptcha_def Let_def split: option.split)
  next
    case (AllowLogin c a)
    obtain r b1 where cl: "clientLocked c now b = (r, b1)" by fastforce
    note absent = clientLocked_captcha_absent [OF risk_invD(1) [OF inv] cl none]
    from inv cl show ?thesis
      using AllowLogin absent by (cases rule: allowLogin_unfold [where a = a]) auto
  next
    case (RecordLoginFailure a)
    with none show ?thesis by (simp add: recordLoginFailure_frame)
  next
    case (ClearLoginFailure a)
    with none show ?thesis by (simp add: clearLoginFailure_def)
  qed
qed

lemma risk_run_absent_captcha:
  assumes "risk_inv b" "map_of (rb_captchas b) cid = None"
    and "\<And>t operation. (t, operation) \<in> set ops \<Longrightarrow> \<not> saves cid operation"
  shows "map_of (rb_captchas (risk_run ops b)) cid = None"
  using assms
proof (induction ops b rule: risk_run.induct)
  case (1 b)
  then show ?case by simp
next
  case (2 now operation rest b)
  have "map_of (rb_captchas (snd (risk_step now operation b))) cid = None"
    using "2.prems" by (intro risk_step_absent_captcha) auto
  with "2.prems" show ?case by (auto intro!: "2.IH" risk_step_inv)
qed

section \<open>The login window of a client\<close>

fun logs_in :: "string \<Rightarrow> risk_op \<Rightarrow> bool" where
  "logs_in c (AllowLogin c' a) = (c' = c)"
| "logs_in c _ = False"

text \<open>
  \<open>login_window E k c b\<close>: the client has an entry whose login window ends at \<open>E\<close> and has
  counted \<open>k\<close> attempts.
\<close>

definition login_window :: "gotime \<Rightarrow> int \<Rightarrow> string \<Rightarrow> risk_backend \<Rightarrow> bool" where
  "login_window E k c b \<longleftrightarrow>
     (\<exists>st. map_of (rb_clients b) c = Some st \<and> rw_expiresAt (cl_login st) = E \<and> rw_count (cl_login st) = k)"

lemma tidies_login_window:
  assumes t: "tidies now b b'" and lw: "login_window E k c b" and live: "now < E" "0 < k"
  shows "login_window E k c b'"
proof -
  obtain st where st: "map_of (rb_clients b) c = Some st" "rw_expiresAt (cl_login st) = E"
    "rw_count (cl_login st) = k"
    using lw by (auto simp: login_window_def)
  have ct: "clients_tidied now (rb_clients b) (rb_clients b')" using t by (rule tidies_frame)
  obtain st' where st': "map_of (rb_clients b') c = Some st'"
    using ct st live unfolding clients_tidied_def stale_window_def by (cases "map_of (rb_clients b') c") fastforce+
  then have "window_reset now (cl_login st) (cl_login st')"
    using ct st(1) unfolding clients_tidied_def by fastforce
  with st(2,3) live(1) have "cl_login st' = cl_login st"
    by (auto simp: window_reset_def)
  with st st' show ?thesis by (auto simp: login_window_def)
qed

lemma clientLocked_login_window:
  assumes wf: "risk_wf b" and cl: "clientLocked c' now b = (r, b')"
    and lw: "login_window E k c b" and live: "now < E" "0 < k"
  shows "login_window E k c b'"
    and "c' = c \<Longrightarrow> \<exists>st. r = Some st \<and> rw_expiresAt (cl_login st) = E \<and> rw_count (cl_login st) = k"
proof -
  have "login_window E k c b' \<and> (c' = c \<longrightarrow>
      (\<exists>st. r = Some st \<and> rw_expiresAt (cl_login st) = E \<and> rw_count (cl_login st) = k))"
    using wf cl
  proof (cases rule: clientLocked_cases)
    case (found st)
    then show ?thesis using tidies_login_window [OF found(2) lw live] by (auto simp: login_window_def)
  next
    case full
    then show ?thesis using tidies_login_window [OF full(2) lw live] by (auto simp: login_window_def)
  next
    case (fresh b1)
    then show ?thesis using tidies_login_window [OF fresh(2) lw live] by (auto simp: login_window_def)
  qed
  then show "login_window E k c b'"
    and "c' = c \<Longrightarrow> \<exists>st. r = Some st \<and> rw_expiresAt (cl_login st) = E \<and> rw_count (cl_login st) = k"
    by blast+
qed

lemma login_window_clients:
  "rb_clients b' = rb_clients b \<Longrightarrow> login_window E k c b' = login_window E k c b"
  by (simp add: login_window_def)

text \<open>Within a live window every operation keeps it; an attempt of the client itself counts up.\<close>

lemma risk_step_login_window:
  assumes inv: "risk_inv b" and lw: "login_window E k c b" and live: "now < E" "0 < k"
  shows "login_window E (if logs_in c operation then k + 1 else k) c (snd (risk_step now operation b))"
proof (cases operation)
  case (AllowCaptcha c')
  obtain r b1 where cl: "clientLocked c' now b = (r, b1)" by fastforce
  note lw1 = clientLocked_login_window [OF risk_invD(1) [OF inv] cl lw live]
  from inv cl show ?thesis
  proof (cases rule: allowCaptcha_unfold)
    case full
    with AllowCaptcha lw1 show ?thesis by simp
  next
    case (bumped st w b2 res b3)
    have "login_window E k c b2" using lw1 bumped(1-3) by (auto simp: login_window_def)
    then show ?thesis using AllowCaptcha bumped by (simp add: login_window_def)
  qed
next
  case (SaveCaptcha c' i answer)
  obtain r b1 where cl: "clientLocked c' now b = (r, b1)" by fastforce
  note lw1 = clientLocked_login_window [OF risk_invD(1) [OF inv] cl lw live]
  show ?thesis
  proof (cases "map_of (rb_captchas b) i")
    case (Some rec')
    with SaveCaptcha lw show ?thesis by (simp add: saveCaptcha_def)
  next
    case None
    from inv None cl show ?thesis
      using SaveCaptcha lw1(1)
      by (cases rule: saveCaptcha_unfold [where answer = answer]) (auto simp: login_window_def)
  qed
next
  case (ConsumeCaptcha i answer)
  with lw show ?thesis by (simp add: consumeCaptcha_def Let_def login_window_def split: option.split)
next
  case (AllowLogin c' a)
  obtain r b1 where cl: "clientLocked c' now b = (r, b1)" by fastforce
  note lw1 = clientLocked_login_window [OF risk_invD(1) [OF inv] cl lw live]
  from inv cl show ?thesis
  proof (cases rule: allowLogin_unfold [where a = a])
    case full
    with AllowLogin lw1 show ?thesis by auto
  next
    case (bumped st w res b3)
    show ?thesis
    proof (cases "c' = c")
      case True
      with lw1 bumped live show ?thesis
        using AllowLogin by (auto simp: login_window_def increaseRiskWindow_def Let_def)
    next
      case False
      with lw1 bumped AllowLogin show ?thesis by (auto simp: login_window_def)
    qed
  qed
next
  case (RecordLoginFailure a)
  with lw show ?thesis by (simp add: recordLoginFailure_frame login_window_def)
next
  case (ClearLoginFailure a)
  with lw show ?thesis by (simp add: clearLoginFailure_def login_window_def)
qed

lemma allowLogin_counted:
  assumes inv: "risk_inv b" and lw: "login_window E k c b" and live: "now < E" "0 < k"
    and ok: "fst (allowLogin now c a b) = RiskAllowed"
  shows "k + 1 \<le> lc_IPRateLimit (rc_Login (rb_config b))"
proof -
  obtain r b1 where cl: "clientLocked c now b = (r, b1)" by fastforce
  note lw1 = clientLocked_login_window [OF risk_invD(1) [OF inv] cl lw live]
  from inv cl show ?thesis
    using ok lw1(2) live
    by (cases rule: allowLogin_unfold [where a = a]) (auto simp: increaseRiskWindow_def Let_def)
qed

text \<open>The attempts of a client that a run lets through.\<close>

fun allowed_logins :: "string \<Rightarrow> (gotime \<times> risk_op) list \<Rightarrow> risk_backend \<Rightarrow> nat" where
  "allowed_logins c [] b = 0"
| "allowed_logins c ((now, operation) # rest) b =
    (case risk_step now operation b of
       (res, b') \<Rightarrow> (if logs_in c operation \<and> res = RiskAllowed then 1 else 0) + allowed_logins c rest b')"

lemma allowed_logins_in_window:
  assumes "risk_inv b" "login_window E k c b" "0 < k"
    and "\<And>t operation. (t, operation) \<in> set ops \<Longrightarrow> t < E"
  shows "int (allowed_logins c ops b) \<le> max 0 (lc_IPRateLimit (rc_Login (rb_config b)) - k)"
  using assms
proof (induction c ops b arbitrary: k rule: allowed_logins.induct)
  case (1 c b)
  then show ?case by simp
next
  case (2 c now operation rest b)
  obtain res b' where step: "risk_step now operation b = (res, b')" by fastforce
  have now: "now < E" using "2.prems"(4) [of now operation] by simp
  define k' where "k' = (if logs_in c operation then k + 1 else k)"
  have lw': "login_window E k' c b'"
    using risk_step_login_window [OF "2.prems"(1,2) now "2.prems"(3), of operation] step
    by (simp add: k'_def)
  have inv': "risk_inv b'" and cfg: "rb_config b' = rb_config b"
    using risk_step_inv [OF "2.prems"(1), of now operation] risk_step_config [OF "2.prems"(1), of now operation] step
    by simp_all
  have IH: "int (allowed_logins c rest b') \<le> max 0 (lc_IPRateLimit (rc_Login (rb_config b')) - k')"
    using "2.prems"(3,4) by (intro "2.IH" [OF step [symmetric] inv' lw']) (auto simp: k'_def)
  show ?case
  proof (cases "logs_in c operation \<and> res = RiskAllowed")
    case True
    then obtain a where "operation = AllowLogin c a" by (cases operation) auto
    then have "k + 1 \<le> lc_IPRateLimit (rc_Login (rb_config b))"
      using allowLogin_counted [OF "2.prems"(1,2) now "2.prems"(3), of a] step True by simp
    with True IH step cfg show ?thesis by (simp add: k'_def)
  next
    case False
    with IH step cfg show ?thesis by (auto simp: k'_def split: if_splits)
  qed
qed

text \<open>The first attempt after a stale window opens a window that lasts the configured time.\<close>

lemma allowLogin_opens_window:
  assumes inv: "risk_inv b" and pos: "0 < lc_IPRateWindow (rc_Login (rb_config b))" "0 \<le> now"
    and stale: "\<And>st. map_of (rb_clients b) c = Some st \<Longrightarrow> \<not> now < rw_expiresAt (cl_login st)"
    and ok: "fst (allowLogin now c a b) = RiskAllowed"
  shows "login_window (now + lc_IPRateWindow (rc_Login (rb_config b))) 1 c (snd (allowLogin now c a b))"
proof -
  obtain r b1 where cl: "clientLocked c now b = (r, b1)" by fastforce
  have stale1: "\<not> now < rw_expiresAt (cl_login st)" if "r = Some st" for st
    using risk_invD(1) [OF inv] cl
  proof (cases rule: clientLocked_cases)
    case (found st')
    then obtain st0 where "map_of (rb_clients b) c = Some st0" "window_reset now (cl_login st0) (cl_login st')"
      using tidies_frame(4) [OF found(2)] unfolding clients_tidied_def by blast
    with stale [of st0] found(1) that pos show ?thesis
      by (auto simp: window_reset_def zero_window_def)
  next
    case (fresh b2)
    then have "st = zero_client" using that by simp
    with pos show ?thesis by (simp add: zero_client_def zero_window_def)
  qed (use that in simp)
  from inv cl show ?thesis
    using ok stale1
    by (cases rule: allowLogin_unfold [where a = a])
      (auto simp: login_window_def increaseRiskWindow_def Let_def)
qed

section \<open>The lock of an account\<close>

fun clears :: "string \<Rightarrow> risk_op \<Rightarrow> bool" where
  "clears a (ClearLoginFailure a') = (a' = a)"
| "clears a _ = False"

lemma risk_step_keeps_lock:
  assumes inv: "risk_inv b" and st: "map_of (rb_accounts b) a = Some st"
    and locked: "now < ac_lockUntil st" and other: "\<not> clears a operation"
  shows "map_of (rb_accounts (snd (risk_step now operation b))) a = Some st"
proof -
  have live: "now < ac_expiresAt st" using risk_invD(2) [OF inv st] locked by simp
  show ?thesis
  proof (cases operation)
    case (AllowCaptcha c)
    obtain r b1 where cl: "clientLocked c now b = (r, b1)" by fastforce
    note fr = clientLocked_frame(2) [OF risk_invD(1) [OF inv] cl]
    from inv cl show ?thesis
      using AllowCaptcha fr st by (cases rule: allowCaptcha_unfold) (auto dest: tidies_frame(2))
  next
    case (SaveCaptcha c i answer)
    obtain r b1 where cl: "clientLocked c now b = (r, b1)" by fastforce
    note fr = clientLocked_frame(2) [OF risk_invD(1) [OF inv] cl]
    show ?thesis
    proof (cases "map_of (rb_captchas b) i")
      case None
      from inv None cl show ?thesis
        using SaveCaptcha fr st
        by (cases rule: saveCaptcha_unfold [where answer = answer]) (auto dest: tidies_frame(2))
    qed (use SaveCaptcha st in \<open>simp add: saveCaptcha_def\<close>)
  next
    case (ConsumeCaptcha i answer)
    with st show ?thesis by (simp add: consumeCaptcha_def Let_def split: option.split)
  next
    case (AllowLogin c a')
    obtain r b1 where cl: "clientLocked c now b = (r, b1)" by fastforce
    note fr = clientLocked_frame(2) [OF risk_invD(1) [OF inv] cl]
    from inv cl show ?thesis
      using AllowLogin fr st live by (cases rule: allowLogin_unfold [where a = a']) auto
  next
    case (RecordLoginFailure a')
    with st live locked risk_invD(4) [OF inv] show ?thesis
      by (auto simp: recordLoginFailure_def failure_on_def cleanAccountsLocked_def Let_def map_of_filter_ok
          split: option.splits if_splits)
  next
    case (ClearLoginFailure a')
    with st other show ?thesis by (simp add: clearLoginFailure_def)
  qed
qed

lemma risk_run_keeps_lock:
  assumes "risk_inv b" "map_of (rb_accounts b) a = Some st"
    and "\<And>t operation. (t, operation) \<in> set ops \<Longrightarrow> t < ac_lockUntil st \<and> \<not> clears a operation"
  shows "map_of (rb_accounts (risk_run ops b)) a = Some st"
  using assms
proof (induction ops b rule: risk_run.induct)
  case (1 b)
  then show ?case by simp
next
  case (2 now operation rest b)
  have "map_of (rb_accounts (snd (risk_step now operation b))) a = Some st"
    using "2.prems" by (intro risk_step_keeps_lock) auto
  with "2.prems" show ?case by (auto intro!: "2.IH" risk_step_inv)
qed

lemma allowLogin_locked:
  assumes inv: "risk_inv b" and st: "map_of (rb_accounts b) a = Some st" and locked: "now < ac_lockUntil st"
  shows "fst (allowLogin now c a b) = RiskLimited"
proof -
  obtain r b1 where cl: "clientLocked c now b = (r, b1)" by fastforce
  from inv cl show ?thesis
    using st locked by (cases rule: allowLogin_unfold [where a = a]) auto
qed

section \<open>Lock durations\<close>

lemma lock_loop_exact:
  assumes "0 < dur" "dur \<le> lockMax" "lockMax < 2 ^ 63"
  shows "(case lock_loop lockMax n dur of Inl e \<Rightarrow> e | Inr e \<Rightarrow> min lockMax e) = min lockMax (dur * 2 ^ n)"
  using assms
proof (induction n arbitrary: dur)
  case 0
  then show ?case by simp
next
  case (Suc n)
  have half: "go_div lockMax 2 = lockMax div 2" using Suc.prems by (simp add: go_div_pos)
  have grows: "dur * 2 \<le> dur * 2 ^ Suc n" using Suc.prems(1) by simp
  show ?case
  proof (cases "lockMax \<le> dur \<or> lockMax div 2 < dur")
    case True
    then have "lockMax \<le> dur * 2" using Suc.prems by linarith
    then have "lockMax \<le> dur * 2 ^ Suc n" using grows by (rule order_trans)
    with True half show ?thesis by simp
  next
    case False
    then have bounds: "0 < dur * 2" "dur * 2 \<le> lockMax" using Suc.prems by linarith+
    then have "wrap64 (dur * 2) = dur * 2" using Suc.prems by (intro wrap64_id) linarith+
    with False half Suc.IH [OF bounds Suc.prems(3)] show ?thesis by (simp add: mult.assoc)
  qed
qed

definition lock_times_ok :: "risk_config \<Rightarrow> bool" where
  "lock_times_ok config \<longleftrightarrow> 0 < lc_LockBase (rc_Login config) \<and>
     lc_LockBase (rc_Login config) \<le> lc_LockMax (rc_Login config) \<and> lc_LockMax (rc_Login config) < 2 ^ 63"

lemma lock_duration_doubling:
  assumes "lock_times_ok config"
  shows "riskLockDuration config failures =
    min (lc_LockMax (rc_Login config))
        (lc_LockBase (rc_Login config) * 2 ^ nat (failures - lc_FailureLimit (rc_Login config)))"
  using lock_loop_exact [of "lc_LockBase (rc_Login config)" "lc_LockMax (rc_Login config)"
      "nat (failures - lc_FailureLimit (rc_Login config))"] assms
  by (auto simp: riskLockDuration_def lock_times_ok_def split: sum.splits)

section \<open>Counting failures\<close>

text \<open>Failures of one account at the given instants.\<close>

definition failures_at :: "gotime list \<Rightarrow> string \<Rightarrow> (gotime \<times> risk_op) list" where
  "failures_at ts a = map (\<lambda>t. (t, RecordLoginFailure a)) ts"

text \<open>Instants at which each failure falls inside the window opened by the one before it.\<close>

fun within_gap :: "duration \<Rightarrow> gotime list \<Rightarrow> bool" where
  "within_gap d (t1 # t2 # ts) = (t1 \<le> t2 \<and> t2 < t1 + d \<and> within_gap d (t2 # ts))"
| "within_gap d _ = True"

text \<open>\<open>counted k t a b\<close>: the account has \<open>k\<close> failures, the last one at \<open>t\<close>, and is not locked.\<close>

definition counted :: "int \<Rightarrow> gotime \<Rightarrow> string \<Rightarrow> risk_backend \<Rightarrow> bool" where
  "counted k t a b \<longleftrightarrow> (\<exists>st. map_of (rb_accounts b) a = Some st \<and> ac_failures st = k \<and>
     ac_lastFailure st = t \<and> ac_lockUntil st = 0 \<and>
     ac_expiresAt st = t + lc_FailureWindow (rc_Login (rb_config b)))"

lemma record_next_failure:
  assumes c: "counted k t a b" and t: "0 < t" "t \<le> t'" "t' < t + lc_FailureWindow (rc_Login (rb_config b))"
    and limit: "lc_FailureLimit (rc_Login (rb_config b)) = L"
  shows "k + 1 < L \<Longrightarrow> counted (k + 1) t' a (snd (recordLoginFailure t' a b))"
    and "L \<le> k + 1 \<Longrightarrow> \<exists>st. map_of (rb_accounts (snd (recordLoginFailure t' a b))) a = Some st \<and>
        ac_failures st = k + 1 \<and> ac_lockUntil st = t' + riskLockDuration (rb_config b) (k + 1)"
proof -
  obtain st where st: "map_of (rb_accounts b) a = Some st" "ac_failures st = k" "ac_lastFailure st = t"
    "ac_lockUntil st = 0" "ac_expiresAt st = t + lc_FailureWindow (rc_Login (rb_config b))"
    using c by (auto simp: counted_def)
  then have eq: "rb_accounts (snd (recordLoginFailure t' a b)) =
      mput a (count_failure (rb_config b) t' st) (rb_accounts b)"
    using t by (simp add: recordLoginFailure_def failure_on_def)
  have gap: "\<not> (t \<noteq> 0 \<and> \<not> t' < t + lc_FailureWindow (rc_Login (rb_config b)))" using t by simp
  show "k + 1 < L \<Longrightarrow> counted (k + 1) t' a (snd (recordLoginFailure t' a b))"
    using eq st limit gap t by (auto simp: counted_def recordLoginFailure_frame count_failure_def Let_def laterTime_def)
  show "L \<le> k + 1 \<Longrightarrow> \<exists>st. map_of (rb_accounts (snd (recordLoginFailure t' a b))) a = Some st \<and>
        ac_failures st = k + 1 \<and> ac_lockUntil st = t' + riskLockDuration (rb_config b) (k + 1)"
    using eq st limit gap by (auto simp: count_failure_def Let_def)
qed

lemma record_first_failure:
  assumes new: "map_of (rb_accounts b) a = None" and t: "0 < t" "0 < lc_FailureWindow (rc_Login (rb_config b))"
    and room: "int (length (rb_accounts b)) < rc_AccountCapacity (rb_config b)"
    and limit: "lc_FailureLimit (rc_Login (rb_config b)) = L"
  shows "1 < L \<Longrightarrow> counted 1 t a (snd (recordLoginFailure t a b))"
    and "L \<le> 1 \<Longrightarrow> \<exists>st. map_of (rb_accounts (snd (recordLoginFailure t a b))) a = Some st \<and>
        ac_failures st = 1 \<and> ac_lockUntil st = t + riskLockDuration (rb_config b) 1"
proof -
  have eq: "rb_accounts (snd (recordLoginFailure t a b)) =
      mput a (count_failure (rb_config b) t zero_account) (rb_accounts b)"
    using new t room by (simp add: recordLoginFailure_def failure_on_def zero_account_def)
  show "1 < L \<Longrightarrow> counted 1 t a (snd (recordLoginFailure t a b))"
    using eq limit t by (auto simp: counted_def recordLoginFailure_frame count_failure_def zero_account_def
        Let_def laterTime_def)
  show "L \<le> 1 \<Longrightarrow> \<exists>st. map_of (rb_accounts (snd (recordLoginFailure t a b))) a = Some st \<and>
        ac_failures st = 1 \<and> ac_lockUntil st = t + riskLockDuration (rb_config b) 1"
    using eq limit by (auto simp: count_failure_def zero_account_def Let_def)
qed

lemma run_more_failures:
  assumes "counted k t a b" "0 < t" "within_gap (lc_FailureWindow (rc_Login (rb_config b))) (t # ts)"
    and "k < lc_FailureLimit (rc_Login (rb_config b))" "ts \<noteq> []"
    and "k + int (length ts) = lc_FailureLimit (rc_Login (rb_config b))"
  shows "\<exists>st. map_of (rb_accounts (risk_run (failures_at ts a) b)) a = Some st \<and>
    ac_lockUntil st = last ts + riskLockDuration (rb_config b) (lc_FailureLimit (rc_Login (rb_config b)))"
  using assms
proof (induction ts arbitrary: k t b)
  case Nil
  then show ?case by simp
next
  case (Cons t' ts)
  let ?b = "snd (recordLoginFailure t' a b)"
  have gap: "t \<le> t'" "t' < t + lc_FailureWindow (rc_Login (rb_config b))" using Cons.prems(3) by simp_all
  show ?case
  proof (cases "ts = []")
    case True
    then have "lc_FailureLimit (rc_Login (rb_config b)) = k + 1" using Cons.prems(6) by simp
    with record_next_failure(2) [OF Cons.prems(1,2) gap refl] True show ?thesis
      by (auto simp: failures_at_def)
  next
    case False
    with Cons.prems(6) have more: "k + 1 < lc_FailureLimit (rc_Login (rb_config b))"
      by (cases ts) simp_all
    have "counted (k + 1) t' a ?b" by (rule record_next_failure(1) [OF Cons.prems(1,2) gap refl more])
    moreover have "0 < t'" using Cons.prems(2) gap by simp
    moreover have "within_gap (lc_FailureWindow (rc_Login (rb_config ?b))) (t' # ts)"
      using Cons.prems(3) by (simp add: recordLoginFailure_frame)
    ultimately show ?thesis
      using Cons.IH [of "k + 1" t' ?b] False more Cons.prems(6)
      by (simp add: failures_at_def recordLoginFailure_frame)
  qed
qed

section \<open>Example states\<close>

definition sample_config :: risk_config where
  "sample_config =
    \<lparr>rc_Type = ''memory'', rc_Group = ''default'', rc_Prefix = ''cool:risk:'', rc_TrustedProxyCIDRs = [],
     rc_ClientCapacity = 2, rc_AccountCapacity = 2,
     rc_Captcha = \<lparr>cc_TTL = 300, cc_Capacity = 3, cc_OutstandingPerIP = 2, cc_RateLimit = 4, cc_RateWindow = 60\<rparr>,
     rc_Login = \<lparr>lc_IPRateLimit = 2, lc_IPRateWindow = 60, lc_FailureLimit = 3, lc_FailureWindow = 900,
                 lc_LockBase = 60, lc_LockMax = 200\<rparr>\<rparr>"

lemma sample_config_simps [simp]:
  "rc_ClientCapacity sample_config = 2" "rc_AccountCapacity sample_config = 2"
  "cc_TTL (rc_Captcha sample_config) = 300" "cc_Capacity (rc_Captcha sample_config) = 3"
  "cc_OutstandingPerIP (rc_Captcha sample_config) = 2" "cc_RateLimit (rc_Captcha sample_config) = 4"
  "cc_RateWindow (rc_Captcha sample_config) = 60"
  "lc_IPRateLimit (rc_Login sample_config) = 2" "lc_IPRateWindow (rc_Login sample_config) = 60"
  "lc_FailureLimit (rc_Login sample_config) = 3" "lc_FailureWindow (rc_Login sample_config) = 900"
  "lc_LockBase (rc_Login sample_config) = 60" "lc_LockMax (rc_Login sample_config) = 200"
  by (simp_all add: sample_config_def)

lemma sample_capacities: "capacities_ok sample_config"
  by (simp add: capacities_ok_def)

lemma sample_inv: "risk_inv (newMemoryBackend sample_config)"
  by (rule newMemoryBackend_inv [OF sample_capacities])

lemma newMemoryBackend_simps [simp]:
  "rb_config (newMemoryBackend config) = config" "rb_clients (newMemoryBackend config) = []"
  "rb_accounts (newMemoryBackend config) = []" "rb_captchas (newMemoryBackend config) = []"
  "rb_captchasByClient (newMemoryBackend config) = []"
  by (simp_all add: newMemoryBackend_def)

lemma saveCaptcha_fresh:
  "saveCaptcha 10 ''c'' ''x'' ''ans'' (newMemoryBackend sample_config) =
    (RiskAllowed, \<lparr>rb_config = sample_config, rb_clients = [(''c'', zero_client)], rb_accounts = [],
       rb_captchas = [(''x'', \<lparr>cp_answer = ''ans'', cp_client = ''c'', cp_expiresAt = 310\<rparr>)],
       rb_captchasByClient = [(''c'', [(''x'', 310)])]\<rparr>)"
  by (simp add: saveCaptcha_def clientLocked_def cleanClientLocked_def captcha_room_def
      cleanCaptchasLocked_def client_captchas_def mget_list_def newMemoryBackend_def mput_def)

section \<open>Properties\<close>

text \<open>C5: whatever operations arrive, and at whatever instants, a backend created from a
  configuration with positive capacities never holds more clients, accounts or captchas than
  configured, never has more outstanding captchas for one client than configured, and its
  index by client lists exactly the captchas that exist.\<close>

theorem risk_capacities_hold:
  assumes "capacities_ok config" and "b = risk_run ops (newMemoryBackend config)"
  shows "int (length (rb_clients b)) \<le> rc_ClientCapacity config \<and>
    int (length (rb_accounts b)) \<le> rc_AccountCapacity config \<and>
    int (length (rb_captchas b)) \<le> cc_Capacity (rc_Captcha config) \<and>
    int (length (client_captchas b c)) \<le> cc_OutstandingPerIP (rc_Captcha config) \<and>
    (map_of (client_captchas b c) cid = Some e \<longleftrightarrow>
      (\<exists>rec. map_of (rb_captchas b) cid = Some rec \<and> cp_client rec = c \<and> cp_expiresAt rec = e))"
proof -
  have "risk_inv (newMemoryBackend config)" by (rule newMemoryBackend_inv) fact
  then have "risk_inv b" "rb_config b = config"
    using assms(2) risk_run_inv risk_run_config by auto
  then show ?thesis using idx_okD(4) [OF risk_invD(6)] by (auto simp: risk_inv_def)
qed

theorem risk_capacities_hold_witness:
  "capacities_ok sample_config \<and>
   int (length (rb_captchas (risk_run [(10, SaveCaptcha ''c'' ''x'' ''ans'')] (newMemoryBackend sample_config)))) \<le> 3"
proof -
  let ?b = "risk_run [(10, SaveCaptcha ''c'' ''x'' ''ans'')] (newMemoryBackend sample_config)"
  have "int (length (rb_captchas ?b)) \<le> cc_Capacity (rc_Captcha sample_config)"
    using risk_capacities_hold [OF sample_capacities refl,
      of "[(10, SaveCaptcha ''c'' ''x'' ''ans'')]"] by blast
  moreover have "cc_Capacity (rc_Captcha sample_config) = 3" by (simp add: sample_config_def)
  ultimately show ?thesis using sample_capacities by (simp only: simp_thms)
qed

text \<open>C30: a captcha is good for one attempt. After it was presented, whether the answer was right or
  not, no later presentation matches, whatever other operations happened in between, until a
  captcha is saved again under the same identifier.\<close>

theorem captcha_used_once:
  assumes "capacities_ok config"
    and "consumeCaptcha now cid answer (risk_run before (newMemoryBackend config)) = (res, b)"
    and "\<And>t operation. (t, operation) \<in> set between \<Longrightarrow> \<not> saves cid operation"
  shows "fst (consumeCaptcha later cid answer' (risk_run between b)) = RiskNotMatched"
proof -
  have inv: "risk_inv (risk_run before (newMemoryBackend config))"
    by (intro risk_run_inv newMemoryBackend_inv assms(1))
  have "risk_inv b" using consumeCaptcha_inv [OF inv, of now cid answer] assms(2) by simp
  moreover have "map_of (rb_captchas b) cid = None"
    using assms(2) by (auto simp: consumeCaptcha_def Let_def split: option.splits if_splits)
  ultimately have "map_of (rb_captchas (risk_run between b)) cid = None"
    using assms(3) by (rule risk_run_absent_captcha)
  then show ?thesis by (simp add: consumeCaptcha_def)
qed

theorem captcha_used_once_witness:
  "\<exists>b. consumeCaptcha 20 ''x'' ''ans'' (risk_run [(10, SaveCaptcha ''c'' ''x'' ''ans'')]
      (newMemoryBackend sample_config)) = (RiskMatched, b) \<and>
    fst (consumeCaptcha 30 ''x'' ''ans'' (risk_run [(25, ClearLoginFailure ''a'')] b)) = RiskNotMatched"
proof -
  obtain b where b: "consumeCaptcha 20 ''x'' ''ans'' (risk_run [(10, SaveCaptcha ''c'' ''x'' ''ans'')]
      (newMemoryBackend sample_config)) = (RiskMatched, b)"
    by (simp add: saveCaptcha_fresh consumeCaptcha_def Let_def)
  have "fst (consumeCaptcha 30 ''x'' ''ans'' (risk_run [(25, ClearLoginFailure ''a'')] b)) = RiskNotMatched"
    by (rule captcha_used_once [OF sample_capacities b]) auto
  with b show ?thesis by blast
qed

text \<open>C31: a saved captcha can be redeemed. Once saved, and as long as only operations other than its
  own presentation happen before its lifetime ends, presenting it within its lifetime succeeds
  exactly for the saved answer.\<close>

theorem captcha_redeemable:
  assumes "capacities_ok config"
    and "saveCaptcha now c cid answer (risk_run before (newMemoryBackend config)) = (RiskAllowed, b)"
    and "\<And>t operation. (t, operation) \<in> set between \<Longrightarrow>
      t < now + cc_TTL (rc_Captcha config) \<and> \<not> consumes cid operation"
    and "later < now + cc_TTL (rc_Captcha config)"
  shows "fst (consumeCaptcha later cid answer' (risk_run between b)) =
    (if answer' = answer then RiskMatched else RiskNotMatched)"
proof -
  let ?b0 = "risk_run before (newMemoryBackend config)"
  have inv0: "risk_inv (newMemoryBackend config)" by (rule newMemoryBackend_inv) fact
  then have inv: "risk_inv ?b0" and cfg: "rb_config ?b0 = config"
    by (simp_all add: risk_run_inv risk_run_config)
  have new: "map_of (rb_captchas ?b0) cid = None"
    using assms(2) by (cases "map_of (rb_captchas ?b0) cid") (simp_all add: saveCaptcha_def)
  obtain r b1 where cl: "clientLocked c now ?b0 = (r, b1)" by fastforce
  define rec where "rec = \<lparr>cp_answer = answer, cp_client = c, cp_expiresAt = now + cc_TTL (rc_Captcha config)\<rparr>"
  have "map_of (rb_captchas b) cid = Some rec"
    using inv new cl
    by (cases rule: saveCaptcha_unfold [where answer = answer]) (use assms(2) cfg in \<open>auto simp: rec_def\<close>)
  moreover have "risk_inv b" using saveCaptcha_inv [OF inv, of now c cid answer] assms(2) by simp
  ultimately have "map_of (rb_captchas (risk_run between b)) cid = Some rec"
    using assms(3) by (intro risk_run_keeps_captcha) (auto simp: rec_def)
  then show ?thesis using assms(4) by (simp add: consumeCaptcha_def Let_def rec_def)
qed

theorem captcha_redeemable_witness:
  "fst (consumeCaptcha 300 ''x'' ''ans'' (risk_run [(290, AllowLogin ''d'' ''a'')]
    (snd (saveCaptcha 10 ''c'' ''x'' ''ans'' (newMemoryBackend sample_config))))) = RiskMatched"
proof -
  obtain b where b: "saveCaptcha 10 ''c'' ''x'' ''ans'' (risk_run [] (newMemoryBackend sample_config)) = (RiskAllowed, b)"
    by (simp add: saveCaptcha_fresh)
  have "fst (consumeCaptcha 300 ''x'' ''ans'' (risk_run [(290, AllowLogin ''d'' ''a'')] b)) =
      (if ''ans'' = ''ans'' then RiskMatched else RiskNotMatched)"
    by (rule captcha_redeemable [OF sample_capacities b]) auto
  with b show ?thesis by simp
qed

text \<open>C32: the login rate limit of a client holds under any interleaving. If an attempt by a client is
  let through at an instant where it has no live window, then among that attempt and all
  operations of any kind that follow before the window ends, at most the configured number of
  that client's attempts are let through.\<close>

theorem login_rate_limited:
  assumes "risk_inv b" and "0 < lc_IPRateWindow (rc_Login (rb_config b))" and "0 \<le> now"
    and "\<And>st. map_of (rb_clients b) c = Some st \<Longrightarrow> \<not> now < rw_expiresAt (cl_login st)"
    and "fst (allowLogin now c a b) = RiskAllowed"
    and "\<And>t operation. (t, operation) \<in> set ops \<Longrightarrow> t < now + lc_IPRateWindow (rc_Login (rb_config b))"
  shows "int (allowed_logins c ((now, AllowLogin c a) # ops) b) \<le> max 1 (lc_IPRateLimit (rc_Login (rb_config b)))"
proof -
  let ?b = "snd (allowLogin now c a b)"
  have "login_window (now + lc_IPRateWindow (rc_Login (rb_config b))) 1 c ?b"
    using assms(1-5) by (rule allowLogin_opens_window)
  moreover have "risk_inv ?b" using assms(1) by (rule allowLogin_inv)
  moreover have "rb_config ?b = rb_config b"
    using risk_step_config [OF assms(1), of now "AllowLogin c a"] by simp
  ultimately have "int (allowed_logins c ops ?b) \<le> max 0 (lc_IPRateLimit (rc_Login (rb_config b)) - 1)"
    using allowed_logins_in_window [of ?b _ 1 c ops] assms(6) by fastforce
  with assms(5) show ?thesis by (cases "allowLogin now c a b") simp
qed

theorem login_rate_limited_witness:
  "int (allowed_logins ''c'' [(10, AllowLogin ''c'' ''a''), (20, AllowLogin ''c'' ''b''), (30, AllowLogin ''c'' ''a'')]
     (newMemoryBackend sample_config)) \<le> 2"
proof -
  have "fst (allowLogin 10 ''c'' ''a'' (newMemoryBackend sample_config)) = RiskAllowed"
    by (simp add: allowLogin_def clientLocked_def cleanClientLocked_def increaseRiskWindow_def
        zero_client_def zero_window_def Let_def)
  then have "int (allowed_logins ''c'' ((10, AllowLogin ''c'' ''a'') #
      [(20, AllowLogin ''c'' ''b''), (30, AllowLogin ''c'' ''a'')]) (newMemoryBackend sample_config))
    \<le> max 1 (lc_IPRateLimit (rc_Login (rb_config (newMemoryBackend sample_config))))"
    by (intro login_rate_limited [OF sample_inv]) auto
  then show ?thesis by (simp del: allowed_logins.simps)
qed

text \<open>C33: the lock that a further failure puts on an account lasts the base duration doubled once for
  every failure beyond the limit, capped at the configured maximum; the 64-bit doubling in the
  code never overflows on the way.\<close>

theorem lock_duration_exact:
  assumes "0 < lc_LockBase (rc_Login config)"
    and "lc_LockBase (rc_Login config) \<le> lc_LockMax (rc_Login config)"
    and "lc_LockMax (rc_Login config) \<le> max_int64"
  shows "riskLockDuration config failures =
    min (lc_LockMax (rc_Login config))
        (lc_LockBase (rc_Login config) * 2 ^ nat (failures - lc_FailureLimit (rc_Login config)))"
  using assms by (intro lock_duration_doubling) (simp add: lock_times_ok_def max_int64_def)

theorem lock_duration_exact_witness:
  "riskLockDuration sample_config 4 = 120 \<and> riskLockDuration sample_config 5 = 200"
proof -
  have eq: "riskLockDuration sample_config f = min 200 (60 * 2 ^ nat (f - 3))" for f
    using lock_duration_exact [of sample_config f] by (simp add: max_int64_def)
  show ?thesis unfolding eq by simp
qed

text \<open>C34: after as many failures of an account as the limit allows, each inside the window opened by
  the failure before it, every login to that account is refused from any client until the lock
  ends, whatever other operations (captchas, other logins, further failures, cleaning) happen
  in between, unless the account's failures are explicitly cleared.\<close>

theorem failures_lock_account:
  assumes "capacities_ok config" and "config = rb_config b" and "risk_inv b"
    and "map_of (rb_accounts b) a = None"
    and "int (length (rb_accounts b)) < rc_AccountCapacity config"
    and "0 < t" and "0 < lc_FailureWindow (rc_Login config)"
    and "within_gap (lc_FailureWindow (rc_Login config)) (t # ts)"
    and "int (length (t # ts)) = lc_FailureLimit (rc_Login config)"
    and "lock_end = last (t # ts) + riskLockDuration config (lc_FailureLimit (rc_Login config))"
    and "\<And>u operation. (u, operation) \<in> set ops \<Longrightarrow> u < lock_end \<and> \<not> clears a operation"
    and "later < lock_end"
  shows "fst (allowLogin later c a (risk_run ops (risk_run (failures_at (t # ts) a) b))) = RiskLimited"
proof -
  let ?b1 = "snd (recordLoginFailure t a b)" and ?b2 = "risk_run (failures_at (t # ts) a) b"
  note first = record_first_failure [OF assms(4) assms(6) _ _ refl]
  have "\<exists>st. map_of (rb_accounts ?b2) a = Some st \<and> ac_lockUntil st = lock_end"
  proof (cases "ts = []")
    case True
    then show ?thesis using first(2) assms(2,5,7,9,10) by (auto simp: failures_at_def)
  next
    case False
    then have more: "1 < lc_FailureLimit (rc_Login (rb_config b))" using assms(2,9) by (cases ts) auto
    then have "counted 1 t a ?b1" using first(1) assms(2,5,7) by simp
    then show ?thesis
      using run_more_failures [of 1 t a ?b1 ts] assms(2,6,8,9,10) more False
      by (simp add: failures_at_def recordLoginFailure_frame)
  qed
  then obtain st where "map_of (rb_accounts ?b2) a = Some st" "ac_lockUntil st = lock_end" by blast
  moreover have inv2: "risk_inv ?b2" using assms(3) by (rule risk_run_inv)
  ultimately have "map_of (rb_accounts (risk_run ops ?b2)) a = Some st" "ac_lockUntil st = lock_end"
    using risk_run_keeps_lock [OF inv2] assms(11) by blast+
  then show ?thesis using allowLogin_locked [OF risk_run_inv [OF inv2]] assms(12) by blast
qed

theorem failures_lock_account_witness:
  "fst (allowLogin 140 ''d'' ''a'' (risk_run [(125, RecordLoginFailure ''a'')]
     (risk_run (failures_at [100, 110, 120] ''a'') (newMemoryBackend sample_config)))) = RiskLimited"
proof -
  have dur: "riskLockDuration sample_config 3 = 60"
    using lock_duration_doubling [of sample_config 3] by (simp add: lock_times_ok_def)
  show ?thesis
    by (rule failures_lock_account [of sample_config _ _ _ _ "180", OF sample_capacities _ sample_inv])
      (auto simp: dur)
qed

end
