(* ===== verification/Go_Strings.thy ===== *)
theory Go_Strings
  imports Go_Prelude
begin

text \<open>
  The parts of Go's \<open>strings\<close>, \<open>strconv\<close>, \<open>unicode\<close> and \<open>unicode/utf8\<close> packages that
  the modelled code calls. A Go string is a list of bytes (\<open>char\<close>); ranging over it
  decodes UTF-8 with the replacement rune for ill-formed bytes, as the language does.
  The Unicode case tables beyond ASCII are parameters of the functions that need them.
\<close>

section \<open>UTF-8\<close>

definition byte :: "char \<Rightarrow> nat" where
  "byte c = of_char c"

definition rune_error :: nat where
  "rune_error = 65533"

definition in_range :: "nat \<Rightarrow> nat \<Rightarrow> nat \<Rightarrow> bool" where
  "in_range lo hi b \<longleftrightarrow> lo \<le> b \<and> b \<le> hi"

text \<open>\<open>utf8.DecodeRuneInString\<close>: the first rune and the number of bytes it takes.\<close>

fun decode_rune :: "string \<Rightarrow> nat \<times> nat" where
  "decode_rune [] = (rune_error, 0)"
| "decode_rune (c0 # cs) =
    (let b0 = byte c0 in
     if b0 < 128 then (b0, 1)
     else if in_range 194 223 b0 then
       (case cs of
          c1 # _ \<Rightarrow> if in_range 128 191 (byte c1)
                    then ((b0 - 192) * 64 + (byte c1 - 128), 2) else (rune_error, 1)
        | _ \<Rightarrow> (rune_error, 1))
     else if in_range 224 239 b0 then
       (case cs of
          c1 # c2 # _ \<Rightarrow>
            if in_range (if b0 = 224 then 160 else 128) (if b0 = 237 then 159 else 191) (byte c1)
               \<and> in_range 128 191 (byte c2)
            then ((b0 - 224) * 4096 + (byte c1 - 128) * 64 + (byte c2 - 128), 3)
            else (rune_error, 1)
        | _ \<Rightarrow> (rune_error, 1))
     else if in_range 240 244 b0 then
       (case cs of
          c1 # c2 # c3 # _ \<Rightarrow>
            if in_range (if b0 = 240 then 144 else 128) (if b0 = 244 then 143 else 191) (byte c1)
               \<and> in_range 128 191 (byte c2) \<and> in_range 128 191 (byte c3)
            then ((b0 - 240) * 262144 + (byte c1 - 128) * 4096 + (byte c2 - 128) * 64
                  + (byte c3 - 128), 4)
            else (rune_error, 1)
        | _ \<Rightarrow> (rune_error, 1))
     else (rune_error, 1))"

lemma decode_rune_size: "s \<noteq> [] \<Longrightarrow> 0 < snd (decode_rune s)"
  by (cases s) (auto simp: Let_def split: list.splits)

lemma decode_rune_shorter [simp]: "s \<noteq> [] \<Longrightarrow> length s - snd (decode_rune s) < length s"
  using decode_rune_size [of s] by (simp add: diff_less)

function runes :: "string \<Rightarrow> nat list" where
  "runes s = (if s = [] then [] else
     fst (decode_rune s) # runes (drop (snd (decode_rune s)) s))"
  by pat_completeness auto
termination
  by (relation "measure length") simp_all

declare runes.simps [simp del]

text \<open>\<open>utf8.ValidString\<close>: no byte is decoded to the replacement rune on its own.\<close>

function valid_utf8 :: "string \<Rightarrow> bool" where
  "valid_utf8 s = (if s = [] then True
     else if decode_rune s = (rune_error, 1) then False
     else valid_utf8 (drop (snd (decode_rune s)) s))"
  by pat_completeness auto
termination
  by (relation "measure length") simp_all

declare valid_utf8.simps [simp del]

definition encode_rune :: "nat \<Rightarrow> string" where
  "encode_rune r =
    (if r < 128 then [char_of r]
     else if r < 2048 then [char_of (192 + r div 64), char_of (128 + r mod 64)]
     else if 1114111 < r \<or> in_range 55296 57343 r then map char_of [239, 191, 189 :: nat]
     else if r < 65536 then
       [char_of (224 + r div 4096), char_of (128 + r div 64 mod 64), char_of (128 + r mod 64)]
     else
       [char_of (240 + r div 262144), char_of (128 + r div 4096 mod 64),
        char_of (128 + r div 64 mod 64), char_of (128 + r mod 64)])"

text \<open>\<open>unicode.IsControl\<close> and \<open>unicode.IsSpace\<close>.\<close>

definition is_control :: "nat \<Rightarrow> bool" where
  "is_control r \<longleftrightarrow> r < 32 \<or> in_range 127 159 r"

definition is_space :: "nat \<Rightarrow> bool" where
  "is_space r \<longleftrightarrow> in_range 9 13 r \<or> r = 32 \<or> r = 133 \<or> r = 160 \<or> r = 5760 \<or>
     in_range 8192 8202 r \<or> r = 8232 \<or> r = 8233 \<or> r = 8239 \<or> r = 8287 \<or> r = 12288"

section \<open>Trimming\<close>

function trim_left :: "string \<Rightarrow> string" where
  "trim_left s = (if s \<noteq> [] \<and> is_space (fst (decode_rune s))
     then trim_left (drop (snd (decode_rune s)) s) else s)"
  by pat_completeness auto
termination
  by (relation "measure length") simp_all

declare trim_left.simps [simp del]

text \<open>
  The last rune of a string is a space exactly if one of its last one, two or three bytes
  long suffixes is the encoding of a space.
\<close>

definition space_suffix :: "nat \<Rightarrow> string \<Rightarrow> bool" where
  "space_suffix n s \<longleftrightarrow> n \<le> length s \<and>
     (let t = drop (length s - n) s in snd (decode_rune t) = n \<and> is_space (fst (decode_rune t)))"

function trim_right :: "string \<Rightarrow> string" where
  "trim_right s =
    (if space_suffix 1 s then trim_right (take (length s - 1) s)
     else if space_suffix 2 s then trim_right (take (length s - 2) s)
     else if space_suffix 3 s then trim_right (take (length s - 3) s)
     else s)"
  by pat_completeness auto
termination
  by (relation "measure length") (auto simp: space_suffix_def)

declare trim_right.simps [simp del]

definition trim_space :: "string \<Rightarrow> string" where
  "trim_space s = trim_right (trim_left s)"

definition trim_char :: "char \<Rightarrow> string \<Rightarrow> string" where
  "trim_char c s = rev (dropWhile (\<lambda>x. x = c) (rev (dropWhile (\<lambda>x. x = c) s)))"

lemma trim_left_Nil [simp]: "trim_left [] = []"
  by (simp add: trim_left.simps)

lemma trim_right_Nil [simp]: "trim_right [] = []"
  by (subst trim_right.simps) (simp add: space_suffix_def)

lemma trim_space_Nil [simp]: "trim_space [] = []"
  by (simp add: trim_space_def)

section \<open>Prefixes, splitting and joining\<close>

text \<open>Evaluation on ASCII strings, where bytes and runes coincide.\<close>

lemma decode_rune_two: "snd (decode_rune [a, b]) = 2 \<Longrightarrow> 128 \<le> byte b"
  by (auto simp: Let_def in_range_def split: if_splits)
lemma decode_rune_three: "snd (decode_rune [a, b, c]) = 3 \<Longrightarrow> 128 \<le> byte c"
  by (auto simp: Let_def in_range_def split: if_splits)

lemma trim_right_ascii:
  assumes "byte c < 128" "\<not> is_space (byte c)"
  shows "trim_right (s @ [c]) = s @ [c]"
proof -
  have 1: "\<not> space_suffix (Suc 0) (s @ [c])" using assms by (simp add: space_suffix_def)
  have 2: "\<not> space_suffix 2 (s @ [c])"
  proof
    assume "space_suffix 2 (s @ [c])"
    moreover obtain a pre where "s = pre @ [a]" using calculation
      by (cases s rule: rev_cases) (auto simp: space_suffix_def)
    ultimately show False using decode_rune_two [of a c] assms by (simp add: space_suffix_def)
  qed
  have 3: "\<not> space_suffix 3 (s @ [c])"
  proof
    assume sp: "space_suffix 3 (s @ [c])"
    then obtain a b pre where "s = pre @ [a, b]"
      by (cases s rule: rev_cases; cases "butlast s" rule: rev_cases) (auto simp: space_suffix_def)
    with sp show False using decode_rune_three [of a b c] assms by (simp add: space_suffix_def)
  qed
  show ?thesis by (subst trim_right.simps) (simp add: 1 2 3)
qed

lemma trim_left_ascii: "byte c < 128 \<Longrightarrow> \<not> is_space (byte c) \<Longrightarrow> trim_left (c # s) = c # s"
  by (subst trim_left.simps) simp

lemma trim_space_ascii:
  assumes "s \<noteq> []" "byte (hd s) < 128" "\<not> is_space (byte (hd s))" "byte (last s) < 128" "\<not> is_space (byte (last s))"
  shows "trim_space s = s"
proof -
  have "trim_left s = s" using assms(1-3) trim_left_ascii by (cases s) auto
  moreover have "trim_right s = s" using trim_right_ascii [OF assms(4,5), of "butlast s"] assms(1) by simp
  ultimately show ?thesis by (simp add: trim_space_def)
qed

lemma runes_Nil [simp]: "runes [] = []"
  by (subst runes.simps) simp

lemma runes_ascii: "byte c < 128 \<Longrightarrow> runes (c # s) = byte c # runes s"
  by (subst runes.simps) (simp add: Let_def)

lemmas ascii_eval = byte_def is_space_def is_control_def in_range_def trim_space_ascii runes_ascii

lemmas char_eval = char_of_def bit_Suc_0_iff

definition has_prefix :: "string \<Rightarrow> string \<Rightarrow> bool" where
  "has_prefix p s \<longleftrightarrow> take (length p) s = p"

definition has_suffix :: "string \<Rightarrow> string \<Rightarrow> bool" where
  "has_suffix p s \<longleftrightarrow> length p \<le> length s \<and> drop (length s - length p) s = p"

definition trim_prefix :: "string \<Rightarrow> string \<Rightarrow> string" where
  "trim_prefix p s = (if has_prefix p s then drop (length p) s else s)"

lemma has_prefix_append [simp]: "has_prefix p (p @ s)"
  by (simp add: has_prefix_def)

lemma has_prefix_iff: "has_prefix p s \<longleftrightarrow> (\<exists>t. s = p @ t)"
  by (metis append_eq_conv_conj append_take_drop_id has_prefix_def)

lemma trim_prefix_append [simp]: "trim_prefix p (p @ s) = s"
  by (simp add: trim_prefix_def)

fun split_on :: "char \<Rightarrow> string \<Rightarrow> string list" where
  "split_on c [] = [[]]"
| "split_on c (x # xs) =
    (if x = c then [] # split_on c xs
     else (case split_on c xs of [] \<Rightarrow> [[x]] | y # ys \<Rightarrow> (x # y) # ys))"

fun join :: "string \<Rightarrow> string list \<Rightarrow> string" where
  "join sep [] = []"
| "join sep [x] = x"
| "join sep (x # y # ys) = x @ sep @ join sep (y # ys)"

lemma split_on_neq_Nil [simp]: "split_on c s \<noteq> []"
  by (induction s) (auto split: list.splits)

lemma join_split_on: "join [c] (split_on c s) = s"
proof (induction s)
  case Nil
  then show ?case by simp
next
  case (Cons x xs)
  obtain y ys where y: "split_on c xs = y # ys"
    by (cases "split_on c xs") auto
  with Cons.IH show ?case by (cases ys) auto
qed

lemma split_on_no_sep: "w \<in> set (split_on c s) \<Longrightarrow> c \<notin> set w"
  by (induction s arbitrary: w) (auto split: list.splits if_splits)

lemma split_on_single: "c \<notin> set s \<Longrightarrow> split_on c s = [s]"
  by (induction s) auto

lemma split_on_append: "c \<notin> set s \<Longrightarrow> split_on c (s @ c # t) = s # split_on c t"
  by (induction s) auto

lemma split_on_concat: "split_on c (s @ c # t) = split_on c s @ split_on c t"
proof (induction s)
  case (Cons d s)
  then show ?case by (cases "split_on c s") (auto split: list.splits)
qed simp

lemma split_on_join:
  "xs \<noteq> [] \<Longrightarrow> (\<And>x. x \<in> set xs \<Longrightarrow> c \<notin> set x) \<Longrightarrow> split_on c (join [c] xs) = xs"
  by (induction xs rule: induct_list012) (auto simp: split_on_single split_on_append)

section \<open>Letter case\<close>

definition lower_ascii :: "nat \<Rightarrow> nat" where
  "lower_ascii r = (if in_range 65 90 r then r + 32 else r)"

definition upper_ascii :: "nat \<Rightarrow> nat" where
  "upper_ascii r = (if in_range 97 122 r then r - 32 else r)"

definition to_lower :: "(nat \<Rightarrow> nat) \<Rightarrow> string \<Rightarrow> string" where
  "to_lower table s = concat (map (\<lambda>r. encode_rune (if r < 128 then lower_ascii r else table r)) (runes s))"

definition to_upper :: "(nat \<Rightarrow> nat) \<Rightarrow> string \<Rightarrow> string" where
  "to_upper table s = concat (map (\<lambda>r. encode_rune (if r < 128 then upper_ascii r else table r)) (runes s))"

section \<open>Decimal numbers\<close>

text \<open>\<open>strconv.FormatUint(n, 10)\<close>.\<close>

fun format_uint :: "nat \<Rightarrow> string" where
  "format_uint n = (if n < 10 then [char_of (48 + n)] else format_uint (n div 10) @ [char_of (48 + n mod 10)])"

declare format_uint.simps [simp del]

definition is_digit :: "char \<Rightarrow> bool" where
  "is_digit c \<longleftrightarrow> in_range 48 57 (byte c)"

definition dec_value :: "string \<Rightarrow> nat" where
  "dec_value s = foldl (\<lambda>n c. n * 10 + (byte c - 48)) 0 s"

text \<open>\<open>strconv.ParseUint(s, 10, 64)\<close>.\<close>

definition parse_uint :: "string \<Rightarrow> nat option" where
  "parse_uint s = (if s \<noteq> [] \<and> list_all is_digit s \<and> dec_value s < 2 ^ 64 then Some (dec_value s) else None)"

text \<open>\<open>strconv.Atoi\<close>.\<close>

definition atoi :: "string \<Rightarrow> int option" where
  "atoi s =
    (let neg = (s \<noteq> [] \<and> hd s = CHR ''-'');
         ds = (if s \<noteq> [] \<and> (hd s = CHR ''-'' \<or> hd s = CHR ''+'') then tl s else s);
         v = (if neg then - int (dec_value ds) else int (dec_value ds))
     in if ds \<noteq> [] \<and> list_all is_digit ds \<and> - (2 ^ 63) \<le> v \<and> v < 2 ^ 63 then Some v else None)"

lemma byte_char_of: "n < 256 \<Longrightarrow> byte (char_of n) = n"
  by (simp add: byte_def)

lemma format_uint_digits: "list_all is_digit (format_uint n)"
proof (induction n rule: format_uint.induct)
  case (1 n)
  have "n mod 10 < 10" by simp
  then have "is_digit (char_of (48 + n mod 10))"
    by (simp add: is_digit_def in_range_def byte_char_of)
  moreover have "is_digit (char_of (48 + n))" if "n < 10"
    using that by (simp add: is_digit_def in_range_def byte_char_of)
  ultimately show ?case
    using 1 by (subst format_uint.simps) simp
qed

lemma format_uint_neq_Nil [simp]: "format_uint n \<noteq> []"
  by (subst format_uint.simps) simp

lemma dec_value_snoc: "dec_value (s @ [c]) = dec_value s * 10 + (byte c - 48)"
  by (simp add: dec_value_def)

lemma dec_value_format_uint [simp]: "dec_value (format_uint n) = n"
proof (induction n rule: format_uint.induct)
  case (1 n)
  show ?case
  proof (cases "n < 10")
    case True
    then show ?thesis
      by (subst format_uint.simps) (simp add: dec_value_def byte_char_of)
  next
    case False
    with "1.IH" have "dec_value (format_uint (n div 10)) = n div 10"
      by simp
    with False show ?thesis
      by (subst format_uint.simps) (simp add: dec_value_snoc byte_char_of)
  qed
qed

lemma parse_format_uint: "n < 2 ^ 64 \<Longrightarrow> parse_uint (format_uint n) = Some n"
  by (simp add: parse_uint_def format_uint_digits)

lemma format_uint_inj: "format_uint m = format_uint n \<longleftrightarrow> m = n"
  by (metis dec_value_format_uint)

section \<open>Fields\<close>

text \<open>\<open>strings.Fields\<close>: the maximal runs of bytes between spaces.\<close>

function fields_acc :: "string \<Rightarrow> string \<Rightarrow> string list" where
  "fields_acc acc s =
    (if s = [] then (if acc = [] then [] else [acc])
     else if is_space (fst (decode_rune s)) then
       (if acc = [] then fields_acc [] (drop (snd (decode_rune s)) s)
        else acc # fields_acc [] (drop (snd (decode_rune s)) s))
     else fields_acc (acc @ take (snd (decode_rune s)) s) (drop (snd (decode_rune s)) s))"
  by pat_completeness auto
termination
  by (relation "measure (\<lambda>(acc, s). length s)") simp_all

declare fields_acc.simps [simp del]

definition fields :: "string \<Rightarrow> string list" where
  "fields s = fields_acc [] s"

section \<open>Encoding what was decoded\<close>

lemma char_of_byte: "byte c = n \<Longrightarrow> char_of n = c"
  by (auto simp: byte_def)

lemma base64_digits: "z < 64 \<Longrightarrow> (q * 64 + z) div 64 = q" "z < 64 \<Longrightarrow> (q * 64 + z) mod 64 = z" for z q :: nat
  by simp_all

lemma encode_decode_rune: "decode_rune s = (r, n) \<Longrightarrow> (r, n) \<noteq> (rune_error, 1) \<Longrightarrow> s \<noteq> [] \<Longrightarrow> encode_rune r = take n s"
proof -
  assume a: "decode_rune s = (r, n)" "(r, n) \<noteq> (rune_error, 1)" "s \<noteq> []"
  then obtain c0 cs where s: "s = c0 # cs" by (cases s) auto
  have lt: "byte c < 256" for c by (simp add: byte_def)
  consider "byte c0 < 128" | "in_range 194 223 (byte c0)" | "in_range 224 239 (byte c0)" | "in_range 240 244 (byte c0)"
    using a s by (auto simp: Let_def split: if_splits)
  then show ?thesis
  proof cases
    case 1
    with a s show ?thesis by (auto simp: encode_rune_def char_of_byte)
  next
    case 2
    then obtain c1 more where c: "cs = c1 # more" "in_range 128 191 (byte c1)"
      and r: "r = (byte c0 - 192) * 64 + (byte c1 - 128)" "n = 2"
      using a s by (auto simp: Let_def in_range_def split: list.splits if_splits)
    have b: "194 \<le> byte c0" "byte c0 \<le> 223" "128 \<le> byte c1" "byte c1 \<le> 191" using 2 c(2) by (simp_all add: in_range_def)
    define x y where "x = byte c0 - 192" and "y = byte c1 - 128"
    have xy: "2 \<le> x" "x < 32" "y < 64" "byte c0 = 192 + x" "byte c1 = 128 + y" "r = x * 64 + y"
      using b by (simp_all add: x_def y_def r(1))
    have "\<not> r < 128" "r < 2048" using xy by simp_all
    moreover have "192 + r div 64 = byte c0" "128 + r mod 64 = byte c1" using xy(3) by (simp_all add: xy)
    ultimately show ?thesis using s c(1) r(2) by (simp add: encode_rune_def char_of_byte)
  next
    case 3
    then obtain c1 c2 more where c: "cs = c1 # c2 # more"
       "in_range (if byte c0 = 224 then 160 else 128) (if byte c0 = 237 then 159 else 191) (byte c1)" "in_range 128 191 (byte c2)"
      and r: "r = (byte c0 - 224) * 4096 + (byte c1 - 128) * 64 + (byte c2 - 128)" "n = 3"
      using a s by (auto simp: Let_def in_range_def split: list.splits if_splits)
    have b: "224 \<le> byte c0" "byte c0 \<le> 239" "128 \<le> byte c1" "byte c1 \<le> 191" "128 \<le> byte c2" "byte c2 \<le> 191"
      using 3 c(2,3) by (auto simp: in_range_def split: if_splits)
    have big: "2048 \<le> r"
      using b c(2) by (cases "byte c0 = 224") (auto simp: r(1) in_range_def)
    have small: "r < 65536" using b by (simp add: r(1))
    have nsur: "\<not> in_range 55296 57343 r"
      using b c(2) by (cases "byte c0 = 237") (auto simp: r(1) in_range_def)
    define x y z where "x = byte c0 - 224" and "y = byte c1 - 128" and "z = byte c2 - 128"
    have xyz: "x < 16" "y < 64" "z < 64" "byte c0 = 224 + x" "byte c1 = 128 + y" "byte c2 = 128 + z" "r = x * 4096 + y * 64 + z"
      using b by (simp_all add: x_def y_def z_def r(1))
    have r64: "r = (x * 64 + y) * 64 + z" using xyz(7) by simp
    note d = base64_digits [OF xyz(3), of "x * 64 + y", folded r64] base64_digits [OF xyz(2), of x]
    have "224 + r div 4096 = byte c0" "128 + r div 64 mod 64 = byte c1" "128 + r mod 64 = byte c2"
      using div_mult2_eq [of r 64 64] xyz(2) by (simp_all add: d xyz(4-6))
    then show ?thesis using s c(1) r(2) big small nsur by (simp add: encode_rune_def char_of_byte)
  next
    case 4
    then obtain c1 c2 c3 more where c: "cs = c1 # c2 # c3 # more"
       "in_range (if byte c0 = 240 then 144 else 128) (if byte c0 = 244 then 143 else 191) (byte c1)"
       "in_range 128 191 (byte c2)" "in_range 128 191 (byte c3)"
      and r: "r = (byte c0 - 240) * 262144 + (byte c1 - 128) * 4096 + (byte c2 - 128) * 64 + (byte c3 - 128)" "n = 4"
      using a s by (auto simp: Let_def in_range_def split: list.splits if_splits)
    have b: "240 \<le> byte c0" "byte c0 \<le> 244" "128 \<le> byte c1" "byte c1 \<le> 191" "128 \<le> byte c2" "byte c2 \<le> 191"
       "128 \<le> byte c3" "byte c3 \<le> 191"
      using 4 c(2,3,4) by (auto simp: in_range_def split: if_splits)
    have big: "65536 \<le> r"
      using b c(2) by (cases "byte c0 = 240") (auto simp: r(1) in_range_def)
    have small: "r \<le> 1114111"
      using b c(2) by (cases "byte c0 = 244") (auto simp: r(1) in_range_def)
    define w x y z where "w = byte c0 - 240" and "x = byte c1 - 128" and "y = byte c2 - 128" and "z = byte c3 - 128"
    have xyz: "w < 5" "x < 64" "y < 64" "z < 64" "byte c0 = 240 + w" "byte c1 = 128 + x" "byte c2 = 128 + y" "byte c3 = 128 + z"
      "r = w * 262144 + x * 4096 + y * 64 + z"
      using b by (simp_all add: w_def x_def y_def z_def r(1))
    have r64: "r = ((w * 64 + x) * 64 + y) * 64 + z" using xyz(9) by simp
    note d = base64_digits [OF xyz(4), of "(w * 64 + x) * 64 + y", folded r64]
      base64_digits [OF xyz(3), of "w * 64 + x"] base64_digits [OF xyz(2), of w]
    have "r div (64 * 64) = w * 64 + x" unfolding div_mult2_eq d by (rule refl)
    moreover have "r div (64 * 64 * 64) = w" unfolding div_mult2_eq d by (rule refl)
    moreover have "r div 64 mod 64 = y" "r mod 64 = z" unfolding d by (rule refl)+
    ultimately have "240 + r div 262144 = byte c0" "128 + r div 4096 mod 64 = byte c1"
      "128 + r div 64 mod 64 = byte c2" "128 + r mod 64 = byte c3"
      using xyz(2) by (simp_all add: xyz(5-8))
    then show ?thesis using s c(1) r(2) big small by (simp add: encode_rune_def char_of_byte in_range_def)
  qed
qed

lemma runes_encode: "valid_utf8 s \<Longrightarrow> concat (map encode_rune (runes s)) = s"
proof (induction s rule: runes.induct)
  case (1 s)
  show ?case
  proof (cases "s = []")
    case False
    obtain r n where d: "decode_rune s = (r, n)" by fastforce
    have v: "(r, n) \<noteq> (rune_error, 1)" "valid_utf8 (drop n s)"
      using 1(2) False d valid_utf8.simps [of s] by (auto split: if_splits)
    have "runes s = r # runes (drop n s)" using False d runes.simps [of s] by simp
    with 1(1) [OF False] d v(2) encode_decode_rune [OF d v(1) False] show ?thesis by simp
  qed simp
qed

end
