(* ===== verification/Risk_Service.thy ===== *)
theory Risk_Service
  imports Risk_Properties Go_Strings
begin

text \<open>
  The service of \<open>cool-next/risk/risk.go\<close> around a risk-control backend: validation of the
  configuration, resolution of the client address behind trusted proxies, the operations that
  the rest of the program calls, the choice between Redis and the in-process fallback with its
  circuit breaker, and the glue of \<open>cool-next/risk/redis.go\<close> to the Redis scripts.

  Parameters: Redis itself (its state and the evaluation of a script), the functions of
  \<open>net/netip\<close> (record \<open>netip\<close>), SHA-256 (\<open>digest\<close>) and the Unicode table of
  \<open>strings.ToLower\<close> above ASCII (\<open>table\<close>).
\<close>

section \<open>Errors\<close>

datatype risk_error =
    RiskTypeUnsupported | RiskGroupInvalid | RiskPrefixInvalid | RiskPrefixControl
  | RiskNonPositive | RiskCapacityBelowOutstanding | RiskLockBaseAboveMax
  | RiskProxyInvalid | RiskProxyDuplicate
  | RiskConfigInvalid risk_error
  | RiskClockMissing
  | RiskGroupMissing string | RiskClientMissing string | RiskPingFailed risk_error | RiskPingInvalid
  | RiskServiceNil | RiskServiceUninitialised
  | RiskRequestInvalid | RiskRemoteInvalid
  | RiskIdentityEmpty | RiskAccountEmpty | RiskCaptchaArguments | RiskCaptchaConflict
  | RiskTooManyRequests | RiskUnavailable
  | RiskContextDone | RiskScriptFailed risk_error | RiskScriptResult
  | RiskTransport

section \<open>Configuration\<close>

record ('a, 'p) netip =
  ni_ParseAddrPort :: "string \<Rightarrow> 'a option"
  ni_ParseAddr :: "string \<Rightarrow> 'a option"
  ni_Unmap :: "'a \<Rightarrow> 'a"
  ni_String :: "'a \<Rightarrow> string"
  ni_ParsePrefix :: "string \<Rightarrow> 'p option"
  ni_Masked :: "'p \<Rightarrow> 'p"
  ni_Contains :: "'p \<Rightarrow> 'a \<Rightarrow> bool"

definition MemoryType :: string where "MemoryType = ''memory''"
definition RedisType :: string where "RedisType = ''redis''"

definition DefaultConfig :: risk_config where
  "DefaultConfig =
    \<lparr>rc_Type = MemoryType, rc_Group = ''default'', rc_Prefix = ''cool:risk:'', rc_TrustedProxyCIDRs = [],
     rc_ClientCapacity = 100000, rc_AccountCapacity = 100000,
     rc_Captcha = \<lparr>cc_TTL = secs 300, cc_Capacity = 10000, cc_OutstandingPerIP = 5,
       cc_RateLimit = 10, cc_RateWindow = secs 60\<rparr>,
     rc_Login = \<lparr>lc_IPRateLimit = 20, lc_IPRateWindow = secs 60, lc_FailureLimit = 5,
       lc_FailureWindow = secs 900, lc_LockBase = secs 60, lc_LockMax = secs 1800\<rparr>\<rparr>"

fun validate_proxies :: "('a, 'p) netip \<Rightarrow> 'p list \<Rightarrow> string list \<Rightarrow> (risk_error, unit) result" where
  "validate_proxies ip seen [] = Inr ()"
| "validate_proxies ip seen (value # rest) =
    (if trim_space value \<noteq> value then Inl RiskProxyInvalid
     else case ni_ParsePrefix ip value of
         None \<Rightarrow> Inl RiskProxyInvalid
       | Some prefix \<Rightarrow>
           if ni_Masked ip prefix \<in> set seen then Inl RiskProxyDuplicate
           else validate_proxies ip (ni_Masked ip prefix # seen) rest)"

definition Validate :: "('a, 'p) netip \<Rightarrow> risk_config \<Rightarrow> (risk_error, unit) result" where
  "Validate ip config =
    (let cap = rc_Captcha config; lg = rc_Login config in
     if rc_Type config \<noteq> MemoryType \<and> rc_Type config \<noteq> RedisType then Inl RiskTypeUnsupported
     else if trim_space (rc_Group config) = [] \<or> trim_space (rc_Group config) \<noteq> rc_Group config
       then Inl RiskGroupInvalid
     else if trim_space (rc_Prefix config) = [] \<or> trim_space (rc_Prefix config) \<noteq> rc_Prefix config \<or>
         \<not> has_suffix '':'' (rc_Prefix config) then Inl RiskPrefixInvalid
     else if list_ex is_control (runes (rc_Prefix config)) then Inl RiskPrefixControl
     else if rc_ClientCapacity config \<le> 0 \<or> rc_AccountCapacity config \<le> 0 \<or> cc_TTL cap \<le> 0 \<or>
         cc_Capacity cap \<le> 0 \<or> cc_OutstandingPerIP cap \<le> 0 \<or> cc_RateLimit cap \<le> 0 \<or>
         cc_RateWindow cap \<le> 0 \<or> lc_IPRateLimit lg \<le> 0 \<or> lc_IPRateWindow lg \<le> 0 \<or>
         lc_FailureLimit lg \<le> 0 \<or> lc_FailureWindow lg \<le> 0 \<or> lc_LockBase lg \<le> 0 \<or>
         lc_LockMax lg \<le> 0 then Inl RiskNonPositive
     else if cc_Capacity cap < cc_OutstandingPerIP cap then Inl RiskCapacityBelowOutstanding
     else if lc_LockMax lg < lc_LockBase lg then Inl RiskLockBaseAboveMax
     else validate_proxies ip [] (rc_TrustedProxyCIDRs config))"

section \<open>Redis backend\<close>

text \<open>
  A Redis script is named, its keys and arguments are the ones the code builds; what Redis
  answers is the parameter \<open>eval\<close>: an error, no value, or the integer the reply converts to.
\<close>

datatype redis_script =
    AllowCaptchaScript | SaveCaptchaScript | UseCaptchaScript | AllowLoginScript
  | RecordLoginScript | ClearLoginScript

datatype redis_arg = ArgString string | ArgInt int

type_synonym 'r redis_eval =
  "redis_script \<Rightarrow> string list \<Rightarrow> redis_arg list \<Rightarrow> 'r \<Rightarrow> (risk_error, int option) result \<times> 'r"

definition milliseconds :: "duration \<Rightarrow> int" where
  "milliseconds d = go_div d 1000000"

definition redis_evaluate ::
  "'r redis_eval \<Rightarrow> redis_script \<Rightarrow> string list \<Rightarrow> redis_arg list \<Rightarrow> 'r \<Rightarrow> (risk_error, int) result \<times> 'r" where
  "redis_evaluate eval script keys arguments r =
    (case eval script keys arguments r of
       (Inl e, r') \<Rightarrow> (Inl (RiskScriptFailed e), r')
     | (Inr None, r') \<Rightarrow> (Inl RiskScriptResult, r')
     | (Inr (Some code), r') \<Rightarrow> (Inr code, r'))"

definition allowRiskResult :: "(risk_error, int) result \<Rightarrow> (risk_error, risk_result) result" where
  "allowRiskResult code =
    bindE code (\<lambda>c. if c = 0 then Inr RiskAllowed else if c = 1 then Inr RiskLimited else Inl RiskScriptResult)"

definition saveRiskResult :: "(risk_error, int) result \<Rightarrow> (risk_error, risk_result) result" where
  "saveRiskResult code =
    bindE code (\<lambda>c. if c = 0 then Inr RiskAllowed else if c = 1 then Inr RiskLimited
      else if c = 2 then Inr RiskConflict else Inl RiskScriptResult)"

definition matchRiskResult :: "(risk_error, int) result \<Rightarrow> (risk_error, risk_result) result" where
  "matchRiskResult code =
    bindE code (\<lambda>c. if c = 0 then Inr RiskNotMatched else if c = 1 then Inr RiskMatched else Inl RiskScriptResult)"

definition clearRiskResult :: "(risk_error, int) result \<Rightarrow> (risk_error, risk_result) result" where
  "clearRiskResult code = bindE code (\<lambda>c. if c \<noteq> 0 then Inl RiskScriptResult else Inr RiskAllowed)"

fun redis_call ::
  "'r redis_eval \<Rightarrow> risk_config \<Rightarrow> risk_op \<Rightarrow> 'r \<Rightarrow> (risk_error, risk_result) result \<times> 'r" where
  "redis_call eval config (AllowCaptcha client) r =
    (let p = rc_Prefix config; cap = rc_Captcha config in
     apfst allowRiskResult (redis_evaluate eval AllowCaptchaScript
       [p @ ''limit:captcha:'' @ client, p @ ''state:clients'', p @ ''captcha:index'',
        p @ ''captcha:client:'' @ client]
       [ArgString client, ArgInt (rc_ClientCapacity config), ArgInt (cc_RateLimit cap),
        ArgInt (milliseconds (cc_RateWindow cap)), ArgInt (cc_Capacity cap),
        ArgInt (cc_OutstandingPerIP cap)] r))"
| "redis_call eval config (SaveCaptcha client captchaID answer) r =
    (let p = rc_Prefix config; cap = rc_Captcha config in
     apfst saveRiskResult (redis_evaluate eval SaveCaptchaScript
       [p @ ''captcha:'' @ captchaID, p @ ''captcha:index'', p @ ''captcha:client:'' @ client,
        p @ ''state:clients'']
       [ArgString client, ArgInt (rc_ClientCapacity config), ArgInt (cc_Capacity cap),
        ArgInt (cc_OutstandingPerIP cap), ArgInt (milliseconds (cc_TTL cap)),
        ArgString captchaID, ArgString answer] r))"
| "redis_call eval config (ConsumeCaptcha captchaID answer) r =
    (let p = rc_Prefix config in
     apfst matchRiskResult (redis_evaluate eval UseCaptchaScript
       [p @ ''captcha:'' @ captchaID, p @ ''captcha:index'']
       [ArgString captchaID, ArgString answer, ArgString p] r))"
| "redis_call eval config (AllowLogin client account) r =
    (let p = rc_Prefix config; lg = rc_Login config in
     apfst allowRiskResult (redis_evaluate eval AllowLoginScript
       [p @ ''limit:login:'' @ client, p @ ''state:clients'', p @ ''account:'' @ account]
       [ArgString client, ArgInt (rc_ClientCapacity config), ArgInt (lc_IPRateLimit lg),
        ArgInt (milliseconds (lc_IPRateWindow lg))] r))"
| "redis_call eval config (RecordLoginFailure account) r =
    (let p = rc_Prefix config; lg = rc_Login config in
     apfst allowRiskResult (redis_evaluate eval RecordLoginScript
       [p @ ''account:'' @ account, p @ ''state:accounts'']
       [ArgString account, ArgInt (rc_AccountCapacity config), ArgInt (lc_FailureLimit lg),
        ArgInt (milliseconds (lc_FailureWindow lg)), ArgInt (milliseconds (lc_LockBase lg)),
        ArgInt (milliseconds (lc_LockMax lg))] r))"
| "redis_call eval config (ClearLoginFailure account) r =
    (let p = rc_Prefix config in
     apfst clearRiskResult (redis_evaluate eval ClearLoginScript
       [p @ ''account:'' @ account, p @ ''state:accounts''] [ArgString account] r))"

text \<open>
  Connecting: \<open>configured\<close> and \<open>connect\<close> stand for \<open>gredis.GetConfig\<close> and
  \<open>gredis.Instance\<close>, \<open>ping\<close> for the reply to \<open>PING\<close>. \<open>EqualFold\<close> with \<open>PONG\<close> folds ASCII
  letters only, since none of its letters has a further Unicode fold.
\<close>

definition newRedisRiskBackend ::
  "(string \<Rightarrow> bool) \<Rightarrow> (string \<Rightarrow> 'r option) \<Rightarrow> ('r \<Rightarrow> (risk_error, string option) result) \<Rightarrow>
   risk_config \<Rightarrow> 'r option \<Rightarrow> (risk_error, 'r) result" where
  "newRedisRiskBackend configured connect ping config client =
    (let found = (case client of
           Some r \<Rightarrow> Inr (Some r)
         | None \<Rightarrow> if \<not> configured (rc_Group config) then Inl (RiskGroupMissing (rc_Group config))
             else Inr (connect (rc_Group config)))
     in bindE found (\<lambda>c. case c of
         None \<Rightarrow> Inl (RiskClientMissing (rc_Group config))
       | Some r \<Rightarrow>
           (case ping r of
              Inl e \<Rightarrow> Inl (RiskPingFailed e)
            | Inr None \<Rightarrow> Inl RiskPingInvalid
            | Inr (Some reply) \<Rightarrow>
                if map (upper_ascii \<circ> byte) reply = map byte ''PONG'' then Inr r else Inl RiskPingInvalid)))"

section \<open>Service\<close>

text \<open>
  In memory mode the code binds backend and fallback to the same object; here the backend is
  then \<open>SharedMemory\<close> and its state is the fallback's. A nil service is \<open>None\<close>.
\<close>

datatype 'r bound_backend = NoBackend | SharedMemory | OwnRedis 'r

record ('r, 'p) risk_service =
  sv_backend :: "'r bound_backend"
  sv_fallback :: risk_backend
  sv_isRedis :: bool
  sv_hasClock :: bool
  sv_trustedProxies :: "'p list"
  sv_degradedUntil :: gotime
  sv_isProbing :: bool

definition newService ::
  "('a, 'p) netip \<Rightarrow> (string \<Rightarrow> bool) \<Rightarrow> (string \<Rightarrow> 'r option) \<Rightarrow> ('r \<Rightarrow> (risk_error, string option) result) \<Rightarrow>
   risk_config \<Rightarrow> 'r option \<Rightarrow> bool \<Rightarrow> (risk_error, ('r, 'p) risk_service) result" where
  "newService ip configured connect ping config client hasClock =
    (case Validate ip config of
       Inl e \<Rightarrow> Inl (RiskConfigInvalid e)
     | Inr _ \<Rightarrow>
         if \<not> hasClock then Inl RiskClockMissing
         else bindE (mapE (\<lambda>value. case ni_ParsePrefix ip value of
                  None \<Rightarrow> Inl (RiskConfigInvalid RiskProxyInvalid)
                | Some prefix \<Rightarrow> Inr (ni_Masked ip prefix)) (rc_TrustedProxyCIDRs config))
           (\<lambda>proxies.
             let service = \<lparr>sv_backend = SharedMemory, sv_fallback = newMemoryBackend config,
                   sv_isRedis = False, sv_hasClock = True, sv_trustedProxies = proxies,
                   sv_degradedUntil = 0, sv_isProbing = False\<rparr>
             in if rc_Type config = MemoryType then Inr service
                else bindE (newRedisRiskBackend configured connect ping config client)
                  (\<lambda>r. Inr (service\<lparr>sv_backend := OwnRedis r, sv_isRedis := True\<rparr>))))"

definition New ::
  "('a, 'p) netip \<Rightarrow> (string \<Rightarrow> bool) \<Rightarrow> (string \<Rightarrow> 'r option) \<Rightarrow> ('r \<Rightarrow> (risk_error, string option) result) \<Rightarrow>
   risk_config \<Rightarrow> (risk_error, ('r, 'p) risk_service) result" where
  "New ip configured connect ping config =
    newService ip configured connect ping
      (if rc_Type config = [] then DefaultConfig else config) None True"

subsection \<open>Client address\<close>

definition isTrustedProxy :: "('a, 'p) netip \<Rightarrow> 'p list \<Rightarrow> 'a \<Rightarrow> bool" where
  "isTrustedProxy ip proxies address = list_ex (\<lambda>prefix. ni_Contains ip prefix address) proxies"

definition parseRiskAddress :: "('a, 'p) netip \<Rightarrow> string \<Rightarrow> 'a option" where
  "parseRiskAddress ip value =
    (case ni_ParseAddrPort ip value of
       Some address \<Rightarrow> Some (ni_Unmap ip address)
     | None \<Rightarrow> map_option (ni_Unmap ip) (ni_ParseAddr ip value))"

fun parse_chain :: "('a, 'p) netip \<Rightarrow> string list \<Rightarrow> 'a list option" where
  "parse_chain ip [] = Some []"
| "parse_chain ip (part # rest) =
    (case ni_ParseAddr ip (trim_space part) of
       None \<Rightarrow> None
     | Some address \<Rightarrow> map_option ((#) (ni_Unmap ip address)) (parse_chain ip rest))"

text \<open>The loop over the chain from its end.\<close>

fun last_untrusted :: "('a, 'p) netip \<Rightarrow> 'p list \<Rightarrow> 'a list \<Rightarrow> 'a option" where
  "last_untrusted ip proxies [] = None"
| "last_untrusted ip proxies (address # earlier) =
    (if \<not> isTrustedProxy ip proxies address then Some address
     else last_untrusted ip proxies earlier)"

text \<open>
  The request is its remote address and its \<open>X-Forwarded-For\<close> header (empty if absent);
  \<open>None\<close> when the context carries no request.
\<close>

definition ResolveClientIP ::
  "('a, 'p) netip \<Rightarrow> ('r, 'p) risk_service option \<Rightarrow> (string \<times> string) option \<Rightarrow> (risk_error, string) result" where
  "ResolveClientIP ip service request =
    (case service of
       None \<Rightarrow> Inl RiskServiceNil
     | Some s \<Rightarrow>
    (case request of
       None \<Rightarrow> Inl RiskRequestInvalid
     | Some (remoteAddr, header) \<Rightarrow>
    (case parseRiskAddress ip remoteAddr of
       None \<Rightarrow> Inl RiskRemoteInvalid
     | Some remote \<Rightarrow>
         if \<not> isTrustedProxy ip (sv_trustedProxies s) remote then Inr (ni_String ip remote)
         else
           let forwarded = trim_space header in
           if forwarded = [] then Inr (ni_String ip remote)
           else case parse_chain ip (split_on CHR '','' forwarded) of
               None \<Rightarrow> Inr (ni_String ip remote)
             | Some chain \<Rightarrow>
                 (case last_untrusted ip (sv_trustedProxies s) (rev chain) of
                    Some address \<Rightarrow> Inr (ni_String ip address)
                  | None \<Rightarrow> Inr (ni_String ip (hd chain))))))"

subsection \<open>Circuit breaker\<close>

definition riskRedisCooldown :: duration where
  "riskRedisCooldown = secs 5"

definition beginRedisAttempt ::
  "gotime \<Rightarrow> ('r, 'p) risk_service \<Rightarrow> (bool \<times> bool) \<times> ('r, 'p) risk_service" where
  "beginRedisAttempt now s =
    (if sv_degradedUntil s = 0 then ((True, False), s)
     else if now < sv_degradedUntil s \<or> sv_isProbing s then ((False, False), s)
     else ((True, True), s\<lparr>sv_isProbing := True\<rparr>))"

definition cancelRedisProbe :: "bool \<Rightarrow> ('r, 'p) risk_service \<Rightarrow> ('r, 'p) risk_service" where
  "cancelRedisProbe isProbe s = (if \<not> isProbe then s else s\<lparr>sv_isProbing := False\<rparr>)"

definition markRedisFailure :: "gotime \<Rightarrow> ('r, 'p) risk_service \<Rightarrow> ('r, 'p) risk_service" where
  "markRedisFailure now s = s\<lparr>sv_degradedUntil := now + riskRedisCooldown, sv_isProbing := False\<rparr>"

definition markRedisSuccess :: "bool \<Rightarrow> ('r, 'p) risk_service \<Rightarrow> ('r, 'p) risk_service" where
  "markRedisSuccess isProbe s =
    (if \<not> isProbe then s else s\<lparr>sv_degradedUntil := 0, sv_isProbing := False\<rparr>)"

text \<open>
  What one request meets while it runs: the clock when it asks for an attempt, when a failure
  is recorded and when the in-process backend runs; the Redis backend; and whether the
  request's context is done when Redis answers with an error.
\<close>

record 'r execution =
  ex_begin :: gotime
  ex_failed :: gotime
  ex_memory :: gotime
  ex_redis :: "risk_op \<Rightarrow> 'r \<Rightarrow> (risk_error, risk_result) result \<times> 'r"
  ex_done :: bool

definition run_fallback ::
  "'r execution \<Rightarrow> risk_op \<Rightarrow> ('r, 'p) risk_service \<Rightarrow>
   (risk_error, risk_result) result \<times> ('r, 'p) risk_service" where
  "run_fallback env operation s =
    (let (res, b) = risk_step (ex_memory env) operation (sv_fallback s)
     in (Inr res, s\<lparr>sv_fallback := b\<rparr>))"

definition run_backend ::
  "'r execution \<Rightarrow> risk_op \<Rightarrow> ('r, 'p) risk_service \<Rightarrow>
   (risk_error, risk_result) result \<times> ('r, 'p) risk_service" where
  "run_backend env operation s =
    (case sv_backend s of
       OwnRedis r \<Rightarrow>
         (let (res, r') = ex_redis env operation r in (res, s\<lparr>sv_backend := OwnRedis r'\<rparr>))
     | _ \<Rightarrow> run_fallback env operation s)"

definition execute ::
  "'r execution \<Rightarrow> bool \<Rightarrow> risk_op \<Rightarrow> ('r, 'p) risk_service \<Rightarrow>
   (risk_error, risk_result) result \<times> ('r, 'p) risk_service" where
  "execute env canFallback operation s =
    (if sv_backend s = NoBackend \<or> \<not> sv_hasClock s then (Inl RiskServiceUninitialised, s)
     else if \<not> sv_isRedis s then run_backend env operation s
     else
       let ((shouldAttempt, isProbe), s1) = beginRedisAttempt (ex_begin env) s;
           degraded = (\<lambda>s. if canFallback then run_fallback env operation s
                             else (Inl RiskUnavailable, s))
       in if shouldAttempt then
            (case run_backend env operation s1 of
               (Inr result, s2) \<Rightarrow> (Inr result, markRedisSuccess isProbe s2)
             | (Inl e, s2) \<Rightarrow>
                 if ex_done env then (Inl RiskContextDone, cancelRedisProbe isProbe s2)
                 else degraded (markRedisFailure (ex_failed env) s2))
          else degraded s1)"

subsection \<open>Operations of the service\<close>

definition normAccount :: "(nat \<Rightarrow> nat) \<Rightarrow> string \<Rightarrow> string" where
  "normAccount table value = to_lower table (trim_space value)"

definition validateIdentity :: "('r, 'p) risk_service option \<Rightarrow> string \<Rightarrow> (risk_error, unit) result" where
  "validateIdentity service value =
    (if service = None then Inl RiskServiceNil
     else if trim_space value = [] then Inl RiskIdentityEmpty else Inr ())"

text \<open>
  An operation that passed its checks runs on the service; \<open>finish\<close> turns the result into what
  the caller gets.
\<close>

definition on_service ::
  "'r execution \<Rightarrow> bool \<Rightarrow> risk_op \<Rightarrow> (risk_result \<Rightarrow> (risk_error, 'a) result) \<Rightarrow> ('r, 'p) risk_service option \<Rightarrow>
   (risk_error, 'a) result \<times> ('r, 'p) risk_service option" where
  "on_service env canFallback operation finish service =
    (case service of
       None \<Rightarrow> (Inl RiskServiceNil, None)
     | Some s \<Rightarrow>
         (let (res, s') = execute env canFallback operation s in (bindE res finish, Some s')))"

definition limited :: "risk_result \<Rightarrow> (risk_error, unit) result" where
  "limited res = (if res = RiskLimited then Inl RiskTooManyRequests else Inr ())"

definition service_AllowCaptcha ::
  "(string \<Rightarrow> string) \<Rightarrow> 'r execution \<Rightarrow> string \<Rightarrow> ('r, 'p) risk_service option \<Rightarrow> (risk_error, unit) result \<times> ('r, 'p) risk_service option" where
  "service_AllowCaptcha digest env clientIP service =
    (case validateIdentity service clientIP of
       Inl e \<Rightarrow> (Inl e, service)
     | Inr _ \<Rightarrow> on_service env True (AllowCaptcha (digest clientIP)) limited service)"

definition service_SaveCaptcha ::
  "(string \<Rightarrow> string) \<Rightarrow> (nat \<Rightarrow> nat) \<Rightarrow> 'r execution \<Rightarrow> string \<Rightarrow> string \<Rightarrow> string \<Rightarrow>
   ('r, 'p) risk_service option \<Rightarrow> (risk_error, unit) result \<times> ('r, 'p) risk_service option" where
  "service_SaveCaptcha digest table env clientIP captchaID answer service =
    (case validateIdentity service clientIP of
       Inl e \<Rightarrow> (Inl e, service)
     | Inr _ \<Rightarrow>
         if captchaID = [] \<or> answer = [] then (Inl RiskCaptchaArguments, service)
         else on_service env False (SaveCaptcha (digest clientIP) captchaID (to_lower table answer))
           (\<lambda>res. case res of RiskLimited \<Rightarrow> Inl RiskTooManyRequests
                    | RiskConflict \<Rightarrow> Inl RiskCaptchaConflict | _ \<Rightarrow> Inr ()) service)"

definition service_ConsumeCaptcha ::
  "(nat \<Rightarrow> nat) \<Rightarrow> 'r execution \<Rightarrow> string \<Rightarrow> string \<Rightarrow>
   ('r, 'p) risk_service option \<Rightarrow> (risk_error, bool) result \<times> ('r, 'p) risk_service option" where
  "service_ConsumeCaptcha table env captchaID answer service =
    (if service = None then (Inl RiskServiceNil, service)
     else if captchaID = [] \<or> answer = [] then (Inr False, service)
     else on_service env False (ConsumeCaptcha captchaID (to_lower table answer))
       (\<lambda>res. Inr (res = RiskMatched)) service)"

definition service_AllowLogin ::
  "(string \<Rightarrow> string) \<Rightarrow> (nat \<Rightarrow> nat) \<Rightarrow> 'r execution \<Rightarrow> string \<Rightarrow> string \<Rightarrow>
   ('r, 'p) risk_service option \<Rightarrow> (risk_error, unit) result \<times> ('r, 'p) risk_service option" where
  "service_AllowLogin digest table env clientIP account service =
    (case validateIdentity service clientIP of
       Inl e \<Rightarrow> (Inl e, service)
     | Inr _ \<Rightarrow>
         let account = normAccount table account in
         if account = [] then (Inl RiskAccountEmpty, service)
         else on_service env True (AllowLogin (digest clientIP) (digest account)) limited service)"

definition service_RecordLoginFailure ::
  "(string \<Rightarrow> string) \<Rightarrow> (nat \<Rightarrow> nat) \<Rightarrow> 'r execution \<Rightarrow> string \<Rightarrow>
   ('r, 'p) risk_service option \<Rightarrow> (risk_error, unit) result \<times> ('r, 'p) risk_service option" where
  "service_RecordLoginFailure digest table env account service =
    (let account = normAccount table account in
     if service = None then (Inl RiskServiceNil, service)
     else if account = [] then (Inl RiskAccountEmpty, service)
     else on_service env True (RecordLoginFailure (digest account)) limited service)"

definition service_ClearLoginFailure ::
  "(string \<Rightarrow> string) \<Rightarrow> (nat \<Rightarrow> nat) \<Rightarrow> 'r execution \<Rightarrow> string \<Rightarrow>
   ('r, 'p) risk_service option \<Rightarrow> (risk_error, unit) result \<times> ('r, 'p) risk_service option" where
  "service_ClearLoginFailure digest table env account service =
    (let account = normAccount table account in
     if service = None then (Inl RiskServiceNil, service)
     else if account = [] then (Inl RiskAccountEmpty, service)
     else on_service env False (ClearLoginFailure (digest account)) (\<lambda>_. Inr ()) service)"


text \<open>All operations under one type, so that runs of a service can be stated.\<close>

datatype service_call =
    CallAllowCaptcha string
  | CallSaveCaptcha string string string
  | CallConsumeCaptcha string string
  | CallAllowLogin string string
  | CallRecordLoginFailure string
  | CallClearLoginFailure string

definition as_flag :: "(risk_error, unit) result \<times> 's \<Rightarrow> (risk_error, bool) result \<times> 's" where
  "as_flag = apfst (\<lambda>res. bindE res (\<lambda>_. Inr True))"

fun service_step ::
  "(string \<Rightarrow> string) \<Rightarrow> (nat \<Rightarrow> nat) \<Rightarrow> 'r execution \<Rightarrow> service_call \<Rightarrow> ('r, 'p) risk_service option \<Rightarrow>
   (risk_error, bool) result \<times> ('r, 'p) risk_service option" where
  "service_step digest table env (CallAllowCaptcha ip) s = as_flag (service_AllowCaptcha digest env ip s)"
| "service_step digest table env (CallSaveCaptcha ip cid answer) s =
     as_flag (service_SaveCaptcha digest table env ip cid answer s)"
| "service_step digest table env (CallConsumeCaptcha cid answer) s =
     service_ConsumeCaptcha table env cid answer s"
| "service_step digest table env (CallAllowLogin ip account) s =
     as_flag (service_AllowLogin digest table env ip account s)"
| "service_step digest table env (CallRecordLoginFailure account) s =
     as_flag (service_RecordLoginFailure digest table env account s)"
| "service_step digest table env (CallClearLoginFailure account) s =
     as_flag (service_ClearLoginFailure digest table env account s)"

fun service_run ::
  "(string \<Rightarrow> string) \<Rightarrow> (nat \<Rightarrow> nat) \<Rightarrow> ('r execution \<times> service_call) list \<Rightarrow> ('r, 'p) risk_service option \<Rightarrow>
   ('r, 'p) risk_service option" where
  "service_run digest table [] s = s"
| "service_run digest table ((env, c) # rest) s =
     service_run digest table rest (snd (service_step digest table env c s))"

section \<open>Lemmas on the configuration\<close>

lemma Validate_ok:
  assumes "Validate ip config = Inr ()"
  shows "capacities_ok config" "0 < cc_TTL (rc_Captcha config)"
    "0 < lc_IPRateLimit (rc_Login config)" "0 < lc_IPRateWindow (rc_Login config)"
    "0 < lc_FailureLimit (rc_Login config)" "0 < lc_FailureWindow (rc_Login config)"
    "0 < lc_LockBase (rc_Login config)" "lc_LockBase (rc_Login config) \<le> lc_LockMax (rc_Login config)"
    "rc_Type config = MemoryType \<or> rc_Type config = RedisType"
    "validate_proxies ip [] (rc_TrustedProxyCIDRs config) = Inr ()"
  using assms by (auto simp: Validate_def Let_def capacities_ok_def split: if_splits)

lemma validate_proxies_ok:
  assumes "validate_proxies ip seen values = Inr ()"
  shows "\<exists>prefixes. mapE (\<lambda>value. case ni_ParsePrefix ip value of
       None \<Rightarrow> Inl e | Some prefix \<Rightarrow> Inr (ni_Masked ip prefix)) values = Inr prefixes \<and>
     distinct prefixes \<and> set prefixes \<inter> set seen = {}"
  using assms
proof (induction ip seen "values" rule: validate_proxies.induct)
  case (2 ip seen "value" rest)
  then obtain prefix where p: "ni_ParsePrefix ip value = Some prefix"
    and new: "ni_Masked ip prefix \<notin> set seen"
    and rest: "validate_proxies ip (ni_Masked ip prefix # seen) rest = Inr ()"
    and tr: "trim_space value = value"
    by (auto split: if_splits option.splits)
  from "2.IH" [of prefix] p new rest tr show ?case by auto
qed simp

section \<open>Lemmas on the service\<close>

text \<open>A service as \<open>newService\<close> makes it and its operations keep it.\<close>

definition service_ok :: "('r, 'p) risk_service \<Rightarrow> bool" where
  "service_ok s \<longleftrightarrow> sv_hasClock s \<and> risk_inv (sv_fallback s) \<and>
     (if sv_isRedis s then \<exists>r. sv_backend s = OwnRedis r else sv_backend s = SharedMemory) \<and>
     (sv_isProbing s \<longrightarrow> sv_degradedUntil s \<noteq> 0)"

lemma newService_ok:
  assumes "newService ip configured connect ping config client hasClock = Inr s"
  shows "service_ok s" "rb_config (sv_fallback s) = config"
    "sv_isRedis s \<longleftrightarrow> rc_Type config = RedisType"
    "\<not> sv_isRedis s \<Longrightarrow> sv_backend s = SharedMemory"
    "sv_degradedUntil s = 0" "\<not> sv_isProbing s" "sv_fallback s = newMemoryBackend config"
    "Validate ip config = Inr ()"
proof -
  have v: "Validate ip config = Inr ()"
    using assms by (auto simp: newService_def split: sum.splits)
  note ok = Validate_ok [OF v]
  have "risk_inv (newMemoryBackend config)" using ok(1) by (rule newMemoryBackend_inv)
  with assms ok(9) v show "service_ok s" "rb_config (sv_fallback s) = config"
    "sv_isRedis s \<longleftrightarrow> rc_Type config = RedisType"
    "\<not> sv_isRedis s \<Longrightarrow> sv_backend s = SharedMemory"
    "sv_degradedUntil s = 0" "\<not> sv_isProbing s" "sv_fallback s = newMemoryBackend config"
    "Validate ip config = Inr ()"
    by (auto simp: newService_def service_ok_def bindE_Inr_iff Let_def MemoryType_def RedisType_def
        split: if_splits)
qed

lemma run_fallback_ok: "service_ok s \<Longrightarrow> service_ok (snd (run_fallback env operation s))"
  by (auto simp: run_fallback_def service_ok_def split: prod.splits dest: risk_step_inv [of _ "ex_memory env" operation])

lemma run_backend_ok: "service_ok s \<Longrightarrow> service_ok (snd (run_backend env operation s))"
proof (cases "sv_backend s")
  case (OwnRedis r)
  moreover assume "service_ok s"
  ultimately show ?thesis
    by (auto simp: run_backend_def service_ok_def split: prod.splits if_splits)
qed (simp_all add: run_backend_def run_fallback_ok)

lemma beginRedisAttempt_ok:
  "service_ok s \<Longrightarrow> beginRedisAttempt now s = (d, s') \<Longrightarrow> service_ok s'"
  by (auto simp: beginRedisAttempt_def service_ok_def split: if_splits)

lemma mark_ok:
  "service_ok s \<Longrightarrow> service_ok (cancelRedisProbe isProbe s)"
  "service_ok s \<Longrightarrow> service_ok (markRedisFailure now s)"
  "service_ok s \<Longrightarrow> service_ok (markRedisSuccess isProbe s)"
  by (auto simp: cancelRedisProbe_def markRedisFailure_def markRedisSuccess_def service_ok_def)

lemma execute_ok:
  assumes "service_ok s"
  shows "service_ok (snd (execute env canFallback operation s))"
proof (cases "sv_isRedis s")
  case False
  with assms show ?thesis by (simp add: execute_def run_backend_ok)
next
  case True
  obtain attempt probe s1 where begun: "beginRedisAttempt (ex_begin env) s = ((attempt, probe), s1)"
    by (metis prod.exhaust)
  have ok1: "service_ok s1" using assms begun by (rule beginRedisAttempt_ok)
  obtain res s2 where run: "run_backend env operation s1 = (res, s2)" by (metis prod.exhaust)
  have ok2: "service_ok s2" using run_backend_ok [OF ok1, of env operation] run by simp
  show ?thesis
    using assms True begun ok1 run ok2
    by (auto simp: execute_def mark_ok run_fallback_ok split: sum.splits)
qed

lemma on_service_ok:
  assumes "\<And>s. service = Some s \<Longrightarrow> service_ok s"
    and "snd (on_service env canFallback operation finish service) = Some s'"
  shows "service_ok s'"
  using assms execute_ok [of "the service" env canFallback operation]
  by (auto simp: on_service_def split: option.splits prod.splits)


lemma as_flag_snd [simp]: "snd (as_flag x) = snd x"
  by (simp add: as_flag_def)

lemma service_step_ok:
  assumes "service_ok s"
  shows "\<exists>s'. snd (service_step digest table env c (Some s)) = Some s' \<and> service_ok s'"
proof -
  have ok: "\<exists>s'. snd (on_service env canFallback operation finish (Some s)) = Some s' \<and> service_ok s'"
    for canFallback operation and finish :: "risk_result \<Rightarrow> (risk_error, 'x) result"
    using execute_ok [OF assms, of env canFallback operation]
    by (auto simp: on_service_def split: prod.splits)
  show ?thesis using assms
    by (cases c) (auto simp: service_AllowCaptcha_def service_SaveCaptcha_def service_ConsumeCaptcha_def
        service_AllowLogin_def service_RecordLoginFailure_def service_ClearLoginFailure_def Let_def
        split: sum.splits intro: ok)
qed

lemma service_run_ok:
  "service_ok s \<Longrightarrow> \<exists>s'. service_run digest table calls (Some s) = Some s' \<and> service_ok s'"
proof (induction calls arbitrary: s)
  case (Cons x rest)
  obtain env c where x: "x = (env, c)" by (cases x)
  obtain s1 where "snd (service_step digest table env c (Some s)) = Some s1" "service_ok s1"
    using service_step_ok [OF Cons.prems] by blast
  with Cons.IH x show ?case by simp
qed simp

text \<open>What \<open>execute\<close> does to the in-process backend and to the Redis backend.\<close>

lemma execute_fallback_cases:
  assumes "service_ok s" "execute env canFallback operation s = (res, s')"
  shows "sv_fallback s' = sv_fallback s \<or>
    (\<not> sv_isRedis s \<or> canFallback) \<and>
    sv_fallback s' = snd (risk_step (ex_memory env) operation (sv_fallback s)) \<and>
    res = Inr (fst (risk_step (ex_memory env) operation (sv_fallback s)))"
  using assms
  by (auto simp: execute_def run_backend_def run_fallback_def beginRedisAttempt_def markRedisFailure_def
      markRedisSuccess_def cancelRedisProbe_def service_ok_def Let_def
      split: if_splits prod.splits sum.splits bound_backend.splits)

lemma execute_open:
  assumes "service_ok s" "sv_isRedis s" "sv_degradedUntil s \<noteq> 0" "ex_begin env < sv_degradedUntil s"
  shows "execute env canFallback operation s =
    (if canFallback then run_fallback env operation s else (Inl RiskUnavailable, s))"
  using assms by (auto simp: execute_def beginRedisAttempt_def service_ok_def)

lemma execute_fails_closed:
  assumes "sv_isRedis s" "sv_backend s = OwnRedis r" "execute env False operation s = (Inr result, s')"
  shows "fst (ex_redis env operation r) = Inr result" "sv_fallback s' = sv_fallback s"
  using assms
  by (auto simp: execute_def run_backend_def beginRedisAttempt_def markRedisSuccess_def
      markRedisFailure_def Let_def split: if_splits prod.splits sum.splits)

lemma execute_closed_fallback:
  assumes "service_ok s" "sv_isRedis s" "execute env False operation s = (res, s')"
  shows "sv_fallback s' = sv_fallback s"
  using execute_fallback_cases [OF assms(1,3)] assms(2) by auto

section \<open>A captcha is redeemed once, for every backend\<close>

text \<open>
  What a service relies on for one-time captchas: \<open>stored b cid\<close> says that the backend holds a
  captcha under \<open>cid\<close>. Presenting it takes it away, and only saving brings it back.
\<close>

definition matching ::
  "(gotime \<Rightarrow> risk_op \<Rightarrow> 'b \<Rightarrow> risk_result \<times> 'b) \<Rightarrow> gotime \<times> risk_op \<Rightarrow> 'b \<Rightarrow> bool \<times> 'b" where
  "matching call x b = apfst (\<lambda>r. r = RiskMatched) (call (fst x) (snd x) b)"

definition matches ::
  "(gotime \<Rightarrow> risk_op \<Rightarrow> 'b \<Rightarrow> risk_result \<times> 'b) \<Rightarrow> string \<Rightarrow> (gotime \<times> risk_op) list \<Rightarrow> 'b \<Rightarrow> nat" where
  "matches call cid = successes (matching call) (\<lambda>x. consumes cid (snd x))"

lemma matching_simps [simp]:
  "fst (matching call (t, operation) b) \<longleftrightarrow> fst (call t operation b) = RiskMatched"
  "snd (matching call (t, operation) b) = snd (call t operation b)"
  by (simp_all add: matching_def)

lemma matches_simps [simp]:
  "matches call cid [] b = 0"
  "matches call cid ((t, operation) # rest) b =
    (if consumes cid operation \<and> fst (call t operation b) = RiskMatched then 1 else 0) +
    matches call cid rest (snd (call t operation b))"
  by (simp_all add: matches_def)

locale captcha_store =
  fixes call :: "gotime \<Rightarrow> risk_op \<Rightarrow> 'b \<Rightarrow> risk_result \<times> 'b"
    and good :: "'b \<Rightarrow> bool"
    and stored :: "'b \<Rightarrow> string \<Rightarrow> bool"
  assumes good_call: "good b \<Longrightarrow> good (snd (call t operation b))"
    and presented: "good b \<Longrightarrow> consumes cid operation \<Longrightarrow> \<not> stored (snd (call t operation b)) cid"
    and match_stored: "good b \<Longrightarrow> consumes cid operation \<Longrightarrow> fst (call t operation b) = RiskMatched \<Longrightarrow>
      stored b cid"
    and stored_by_save: "good b \<Longrightarrow> \<not> stored b cid \<Longrightarrow> \<not> saves cid operation \<Longrightarrow>
      \<not> stored (snd (call t operation b)) cid"

text \<open>Such a backend makes each captcha a one-shot thing.\<close>

sublocale captcha_store \<subseteq> one: one_shot "matching call" good "\<lambda>b. stored b cid"
  "\<lambda>x. consumes cid (snd x)" "\<lambda>x. saves cid (snd x)" for cid
proof
  fix b and x :: "gotime \<times> risk_op"
  obtain t operation where x: "x = (t, operation)" by (cases x)
  assume b: "good b"
  show "good (snd (matching call x b))" using good_call [OF b] x by simp
  show "stored b cid" if "consumes cid (snd x)" "fst (matching call x b)"
    using match_stored [OF b] that x by simp
  show "\<not> stored (snd (matching call x b)) cid" if "consumes cid (snd x)"
    using presented [OF b] that x by simp
  show "\<not> stored (snd (matching call x b)) cid" if "\<not> stored b cid" "\<not> saves cid (snd x)"
    using stored_by_save [OF b that(1)] that(2) x by simp
qed

interpretation memory: captcha_store risk_step risk_inv "\<lambda>b cid. map_of (rb_captchas b) cid \<noteq> None"
proof
  fix b t operation cid
  assume inv: "risk_inv b"
  show "risk_inv (snd (risk_step t operation b))" using inv by (rule risk_step_inv)
  show "\<not> map_of (rb_captchas (snd (risk_step t operation b))) cid \<noteq> None" if "consumes cid operation"
    using that by (cases operation)
      (auto simp: consumeCaptcha_def Let_def removeCaptchaLocked_def split: option.splits if_splits)
  show "map_of (rb_captchas b) cid \<noteq> None"
    if "consumes cid operation" "fst (risk_step t operation b) = RiskMatched"
    using that by (cases operation) (auto simp: consumeCaptcha_def split: option.splits)
  show "\<not> map_of (rb_captchas (snd (risk_step t operation b))) cid \<noteq> None"
    if "\<not> map_of (rb_captchas b) cid \<noteq> None" "\<not> saves cid operation"
    using that risk_step_absent_captcha [OF inv] by simp
qed


subsection \<open>Services on the in-process backend\<close>

text \<open>The operation of the backend that a call of the service leads to, if its checks pass.\<close>

fun backend_op :: "(string \<Rightarrow> string) \<Rightarrow> (nat \<Rightarrow> nat) \<Rightarrow> service_call \<Rightarrow> risk_op option" where
  "backend_op digest table (CallAllowCaptcha ip) =
    (if trim_space ip = [] then None else Some (AllowCaptcha (digest ip)))"
| "backend_op digest table (CallSaveCaptcha ip cid answer) =
    (if trim_space ip = [] \<or> cid = [] \<or> answer = [] then None
     else Some (SaveCaptcha (digest ip) cid (to_lower table answer)))"
| "backend_op digest table (CallConsumeCaptcha cid answer) =
    (if cid = [] \<or> answer = [] then None else Some (ConsumeCaptcha cid (to_lower table answer)))"
| "backend_op digest table (CallAllowLogin ip account) =
    (if trim_space ip = [] \<or> normAccount table account = [] then None
     else Some (AllowLogin (digest ip) (digest (normAccount table account))))"
| "backend_op digest table (CallRecordLoginFailure account) =
    (if normAccount table account = [] then None
     else Some (RecordLoginFailure (digest (normAccount table account))))"
| "backend_op digest table (CallClearLoginFailure account) =
    (if normAccount table account = [] then None
     else Some (ClearLoginFailure (digest (normAccount table account))))"

fun backend_ops ::
  "(string \<Rightarrow> string) \<Rightarrow> (nat \<Rightarrow> nat) \<Rightarrow> ('r execution \<times> service_call) list \<Rightarrow> (gotime \<times> risk_op) list" where
  "backend_ops digest table [] = []"
| "backend_ops digest table ((env, c) # rest) =
    (case backend_op digest table c of
       None \<Rightarrow> backend_ops digest table rest
     | Some operation \<Rightarrow> (ex_memory env, operation) # backend_ops digest table rest)"

fun presents :: "string \<Rightarrow> service_call \<Rightarrow> bool" where
  "presents cid (CallConsumeCaptcha i answer) = (i = cid)"
| "presents cid _ = False"

fun stores :: "string \<Rightarrow> service_call \<Rightarrow> bool" where
  "stores cid (CallSaveCaptcha ip i answer) = (i = cid)"
| "stores cid _ = False"

text \<open>How often a run of calls is told that the captcha \<open>cid\<close> was answered.\<close>

fun redeemed ::
  "(string \<Rightarrow> string) \<Rightarrow> (nat \<Rightarrow> nat) \<Rightarrow> string \<Rightarrow> ('r execution \<times> service_call) list \<Rightarrow>
   ('r, 'p) risk_service option \<Rightarrow> nat" where
  "redeemed digest table cid [] s = 0"
| "redeemed digest table cid ((env, c) # rest) s =
    (if presents cid c \<and> fst (service_step digest table env c s) = Inr True then 1 else 0) +
    redeemed digest table cid rest (snd (service_step digest table env c s))"

lemma execute_memory:
  assumes "service_ok s" "\<not> sv_isRedis s"
  shows "execute env canFallback operation s = run_fallback env operation s"
  using assms by (auto simp: execute_def run_backend_def service_ok_def)

lemma service_step_memory:
  assumes "service_ok s" "\<not> sv_isRedis s"
  shows "snd (service_step digest table env c (Some s)) =
    (case backend_op digest table c of
       None \<Rightarrow> Some s
     | Some operation \<Rightarrow> Some (s\<lparr>sv_fallback := snd (risk_step (ex_memory env) operation (sv_fallback s))\<rparr>))"
  by (cases c)
    (simp_all add: service_AllowCaptcha_def service_SaveCaptcha_def service_ConsumeCaptcha_def
      service_AllowLogin_def service_RecordLoginFailure_def service_ClearLoginFailure_def
      validateIdentity_def on_service_def execute_memory [OF assms] run_fallback_def Let_def split: prod.splits)

lemma service_presents_memory:
  assumes "service_ok s" "\<not> sv_isRedis s" "presents cid c"
  shows "fst (service_step digest table env c (Some s)) = Inr True \<longleftrightarrow>
    (\<exists>operation. backend_op digest table c = Some operation \<and> consumes cid operation \<and>
      fst (risk_step (ex_memory env) operation (sv_fallback s)) = RiskMatched)"
  using assms(3)
  by (cases c) (auto simp: service_ConsumeCaptcha_def on_service_def execute_memory [OF assms(1,2)]
      run_fallback_def split: prod.splits)

lemma backend_op_consumes: "backend_op digest table c = Some operation \<Longrightarrow> consumes cid operation \<longleftrightarrow> presents cid c"
  by (cases c) (auto split: if_splits)

lemma backend_op_saves: "backend_op digest table c = Some operation \<Longrightarrow> saves cid operation \<Longrightarrow> stores cid c"
  by (cases c) (auto split: if_splits)

lemma backend_ops_saves:
  "\<forall>(env, c) \<in> set calls. \<not> stores cid c \<Longrightarrow> \<forall>(t, operation) \<in> set (backend_ops digest table calls). \<not> saves cid operation"
  by (induction digest table calls rule: backend_ops.induct)
    (auto split: option.splits dest: backend_op_saves)

lemma redeemed_memory:
  assumes "service_ok s" "\<not> sv_isRedis s"
  shows "redeemed digest table cid calls (Some s) =
    matches risk_step cid (backend_ops digest table calls) (sv_fallback s)"
  using assms
proof (induction calls arbitrary: s)
  case (Cons x rest)
  obtain env c where x: "x = (env, c)" by (cases x)
  note step = service_step_memory [OF Cons.prems, of digest table env c]
  obtain s1 where s1: "snd (service_step digest table env c (Some s)) = Some s1" "service_ok s1"
    using service_step_ok [OF Cons.prems(1)] by blast
  have "\<not> sv_isRedis s1" using s1(1) step Cons.prems(2) by (auto split: option.splits)
  note IH = Cons.IH [OF s1(2) this]
  show ?case
  proof (cases "backend_op digest table c")
    case None
    then have "\<not> (presents cid c \<and> fst (service_step digest table env c (Some s)) = Inr True)"
      using service_presents_memory [OF Cons.prems, of cid c digest table env] by auto
    with None x step s1 IH show ?thesis by auto
  next
    case (Some operation)
    then have "(presents cid c \<and> fst (service_step digest table env c (Some s)) = Inr True) \<longleftrightarrow>
        consumes cid operation \<and> fst (risk_step (ex_memory env) operation (sv_fallback s)) = RiskMatched"
      using service_presents_memory [OF Cons.prems, of cid c digest table env]
        backend_op_consumes [OF Some, of cid] by auto
    moreover have "sv_fallback s1 = snd (risk_step (ex_memory env) operation (sv_fallback s))"
      using s1(1) step Some by auto
    ultimately show ?thesis using Some x s1 IH by simp
  qed
qed simp

lemma service_run_memory:
  assumes "service_ok s" "\<not> sv_isRedis s" "service_run digest table calls (Some s) = Some s'"
  shows "service_ok s' \<and> \<not> sv_isRedis s' \<and>
    sv_fallback s' = risk_run (backend_ops digest table calls) (sv_fallback s)"
  using assms
proof (induction calls arbitrary: s)
  case (Cons x rest)
  obtain env c where x: "x = (env, c)" by (cases x)
  note step = service_step_memory [OF Cons.prems(1,2), of digest table env c]
  obtain s1 where s1: "snd (service_step digest table env c (Some s)) = Some s1" "service_ok s1"
    using service_step_ok [OF Cons.prems(1)] by blast
  have "\<not> sv_isRedis s1" using s1(1) step Cons.prems(2) by (auto split: option.splits)
  from Cons.IH [OF s1(2) this] Cons.prems(3) x s1(1) step show ?case
    by (auto split: option.splits)
qed simp


subsection \<open>Client address\<close>

lemma parse_chain_append:
  "parse_chain ip (xs @ ys) =
    (case (parse_chain ip xs, parse_chain ip ys) of
       (Some a, Some b) \<Rightarrow> Some (a @ b) | _ \<Rightarrow> None)"
  by (induction xs) (auto split: option.splits)

lemma last_untrusted_suffix:
  assumes "\<not> isTrustedProxy ip proxies x" "\<forall>y \<in> set post. isTrustedProxy ip proxies y"
  shows "last_untrusted ip proxies (rev (pre @ x # post)) = Some x"
proof -
  have "last_untrusted ip proxies (ys @ x # rest) = Some x"
    if "\<forall>y \<in> set ys. isTrustedProxy ip proxies y" for ys rest
    using that by (induction ys) (simp_all add: assms(1))
  from this [of "rev post" "rev pre"] assms(2) show ?thesis by simp
qed

text \<open>Addresses and prefixes as plain numbers, a prefix holding ten addresses: a small instance of
  the address functions on which the theorems below are tried.\<close>

definition sample_netip :: "(nat, nat) netip" where
  "sample_netip = \<lparr>ni_ParseAddrPort = (\<lambda>_. None), ni_ParseAddr = parse_uint, ni_Unmap = (\<lambda>a. a),
     ni_String = format_uint, ni_ParsePrefix = parse_uint, ni_Masked = (\<lambda>p. p),
     ni_Contains = (\<lambda>p a. a div 10 = p)\<rparr>"

definition sample_service :: "(unit, nat) risk_service" where
  "sample_service = \<lparr>sv_backend = OwnRedis (), sv_fallback = newMemoryBackend DefaultConfig,
     sv_isRedis = True, sv_hasClock = True, sv_trustedProxies = [1],
     sv_degradedUntil = 0, sv_isProbing = False\<rparr>"

definition sample_execution :: "gotime \<Rightarrow> unit execution" where
  "sample_execution t = \<lparr>ex_begin = t, ex_failed = t, ex_memory = t,
     ex_redis = (\<lambda>operation r. (Inl RiskTransport, r)), ex_done = False\<rparr>"

lemma DefaultConfig_valid: "Validate sample_netip DefaultConfig = Inr ()"
proof -
  have "trim_space ''default'' = ''default''" "trim_space ''cool:risk:'' = ''cool:risk:''"
    "has_suffix '':'' ''cool:risk:''" "list_ex is_control (runes ''cool:risk:'') = False"
    by (simp_all add: ascii_eval has_suffix_def)
  then show ?thesis by (simp add: Validate_def DefaultConfig_def secs_def Let_def)
qed

lemma DefaultConfig_fields [simp]:
  "rc_Type DefaultConfig = MemoryType" "rc_TrustedProxyCIDRs DefaultConfig = []"
  by (simp_all add: DefaultConfig_def)

definition sample_memory_service :: "(unit, nat) risk_service" where
  "sample_memory_service = \<lparr>sv_backend = SharedMemory, sv_fallback = newMemoryBackend DefaultConfig,
     sv_isRedis = False, sv_hasClock = True, sv_trustedProxies = [],
     sv_degradedUntil = 0, sv_isProbing = False\<rparr>"

lemma sample_memory_service_new:
  "newService sample_netip (\<lambda>_. False) (\<lambda>_. None) (\<lambda>_. Inr None) DefaultConfig None True =
    Inr sample_memory_service"
  by (simp add: newService_def DefaultConfig_valid sample_memory_service_def)

section \<open>Properties\<close>

text \<open>a service on the in-process backend tells at most one caller that a captcha was answered
  correctly. This holds from any state the service reaches after it was created, for any
  sequence of calls that does not save a captcha under the same identifier again.\<close>

theorem service_captcha_once:
  assumes "newService ip configured connect ping config client hasClock = Inr s"
    and "rc_Type config = MemoryType"
    and "\<And>env c. (env, c) \<in> set calls \<Longrightarrow> \<not> stores cid c"
  shows "redeemed digest table cid calls (service_run digest table before (Some s)) \<le> 1"
proof -
  have s: "service_ok s" "\<not> sv_isRedis s"
    using newService_ok [OF assms(1)] assms(2) by (auto simp: MemoryType_def RedisType_def)
  obtain s' where s': "service_run digest table before (Some s) = Some s'"
    using service_run_ok [OF s(1)] by blast
  have ok: "service_ok s'" "\<not> sv_isRedis s'" using service_run_memory [OF s s'] by auto
  have "matches risk_step cid (backend_ops digest table calls) (sv_fallback s') \<le> 1"
    unfolding matches_def using ok(1) backend_ops_saves [of calls cid] assms(3)
    by (intro memory.one.at_most_once) (fastforce simp: service_ok_def)+
  then show ?thesis by (simp add: s' redeemed_memory [OF ok])
qed

theorem service_captcha_once_witness:
  "redeemed (\<lambda>s. s) (\<lambda>r. r) ''x''
     [(sample_execution 20, CallConsumeCaptcha ''x'' ''a''), (sample_execution 30, CallConsumeCaptcha ''x'' ''a'')]
     (service_run (\<lambda>s. s) (\<lambda>r. r) [(sample_execution 10, CallSaveCaptcha ''ip'' ''x'' ''A'')]
       (Some sample_memory_service)) \<le> 1"
  by (rule service_captcha_once [OF sample_memory_service_new]) auto

text \<open>with Redis the service fails closed for captchas. If a call to consume a captcha reports a
  match, Redis itself reported it for that identifier and answer; the in-process backend is
  neither asked nor changed, whether Redis works, fails, or is being avoided.\<close>

theorem captcha_match_from_redis:
  assumes "service_ok s" and "sv_isRedis s" and "sv_backend s = OwnRedis r"
    and "service_ConsumeCaptcha table env cid answer (Some s) = (res, Some s')"
  shows "sv_fallback s' = sv_fallback s \<and>
    (res = Inr True \<longrightarrow> fst (ex_redis env (ConsumeCaptcha cid (to_lower table answer)) r) = Inr RiskMatched)"
proof (cases "cid = [] \<or> answer = []")
  case True
  with assms(4) show ?thesis by (auto simp: service_ConsumeCaptcha_def)
next
  case False
  let ?op = "ConsumeCaptcha cid (to_lower table answer)"
  obtain x where ex: "execute env False ?op s = (x, s')" and res: "res = bindE x (\<lambda>res. Inr (res = RiskMatched))"
    using assms(4) False by (auto simp: service_ConsumeCaptcha_def on_service_def split: prod.splits)
  have "sv_fallback s' = sv_fallback s" using assms(1,2) ex by (rule execute_closed_fallback)
  moreover have "fst (ex_redis env ?op r) = Inr RiskMatched" if "res = Inr True"
  proof -
    from that res have "x = Inr RiskMatched" by (auto simp: bindE_Inr_iff)
    with execute_fails_closed(1) [OF assms(2,3)] ex show ?thesis by blast
  qed
  ultimately show ?thesis by blast
qed

theorem captcha_match_from_redis_witness:
  "\<exists>s'. service_ConsumeCaptcha (\<lambda>r. r) (sample_execution 5) ''x'' ''a'' (Some sample_service) =
     (Inl RiskUnavailable, Some s') \<and> sv_fallback s' = newMemoryBackend DefaultConfig"
proof -
  have inv: "risk_inv (newMemoryBackend DefaultConfig)"
    using newService_ok(1) [OF sample_memory_service_new]
    by (simp add: service_ok_def sample_memory_service_def)
  obtain s' where s': "service_ConsumeCaptcha (\<lambda>r. r) (sample_execution 5) ''x'' ''a'' (Some sample_service) =
      (Inl RiskUnavailable, Some s')"
    by (simp add: service_ConsumeCaptcha_def on_service_def execute_def sample_service_def run_backend_def
        beginRedisAttempt_def sample_execution_def)
  have "sv_fallback s' = sv_fallback sample_service"
    using captcha_match_from_redis [OF _ _ _ s', of "()"] inv by (simp add: sample_service_def service_ok_def)
  with s' show ?thesis by (auto simp: sample_service_def)
qed

text \<open>while the circuit is open, logins stay rate limited and locked accounts stay locked: the
  service does not contact Redis, and the outcome of a login check is exactly the one of the
  in-process backend on the digests of the address and the normalised account.\<close>

theorem open_circuit_limits_login:
  assumes "service_ok s" and "sv_isRedis s" and "sv_degradedUntil s \<noteq> 0" and "ex_begin env < sv_degradedUntil s"
    and "trim_space address \<noteq> []" and "normAccount table account \<noteq> []"
    and "allowLogin (ex_memory env) (digest address) (digest (normAccount table account)) (sv_fallback s) = (verdict, b)"
  shows "service_AllowLogin digest table env address account (Some s) =
    (if verdict = RiskLimited then Inl RiskTooManyRequests else Inr (), Some (s\<lparr>sv_fallback := b\<rparr>))"
  using assms(5-7) execute_open [OF assms(1-4)]
  by (simp add: service_AllowLogin_def validateIdentity_def on_service_def run_fallback_def limited_def Let_def)

theorem open_circuit_limits_login_witness:
  "\<exists>b. service_AllowLogin (\<lambda>s. s) (\<lambda>r. r) (sample_execution 5) ''1'' ''bob'' (Some (sample_service\<lparr>sv_degradedUntil := 9\<rparr>))
    = (Inr (), Some (sample_service\<lparr>sv_degradedUntil := 9, sv_fallback := b\<rparr>))"
proof -
  have inv: "risk_inv (newMemoryBackend DefaultConfig)"
    using newService_ok(1) [OF sample_memory_service_new]
    by (simp add: service_ok_def sample_memory_service_def)
  have n: "normAccount (\<lambda>r. r) ''bob'' = ''bob''" "trim_space ''1'' \<noteq> []"
    by (simp_all add: ascii_eval char_eval normAccount_def to_lower_def lower_ascii_def encode_rune_def)
  obtain b where "allowLogin 5 ''1'' ''bob'' (newMemoryBackend DefaultConfig) = (RiskAllowed, b)"
    by (simp add: allowLogin_def clientLocked_def cleanClientLocked_def increaseRiskWindow_def
        zero_client_def zero_window_def Let_def newMemoryBackend_def DefaultConfig_def client_captchas_def
        mget_list_def cleanCaptchasLocked_def)
  then have "service_AllowLogin (\<lambda>s. s) (\<lambda>r. r) (sample_execution 5) ''1'' ''bob'' (Some (sample_service\<lparr>sv_degradedUntil := 9\<rparr>))
    = (if RiskAllowed = RiskLimited then Inl RiskTooManyRequests else Inr (),
       Some (sample_service\<lparr>sv_degradedUntil := 9, sv_fallback := b\<rparr>))"
    using inv n by (intro open_circuit_limits_login) (simp_all add: sample_service_def service_ok_def sample_execution_def)
  then show ?thesis by auto
qed



end
