(* ===== verification/Risk_Breaker.thy ===== *)
theory Risk_Breaker
  imports Risk_Service
begin

text \<open>
  The circuit breaker of \<open>cool-next/risk/risk.go\<close> under concurrent requests. \<open>execute\<close> is
  not atomic: a request asks for an attempt, waits for Redis, and then reports what happened,
  each of these under the state mutex. A \<open>breaker\<close> is a service with a clock and the phase
  of every request; a step is one of those critical sections, or time passing. What Redis
  answers is not determined: every step that could follow an attempt is allowed.
\<close>

section \<open>Requests and steps\<close>

datatype request_phase =
    Waiting
  | Attempting bool bool
  | OnFallback
  | Finished

record ('r, 'p) breaker =
  bk_service :: "('r, 'p) risk_service"
  bk_clock :: gotime
  bk_phase :: "nat \<Rightarrow> request_phase"

definition set_phase :: "nat \<Rightarrow> request_phase \<Rightarrow> ('r, 'p) breaker \<Rightarrow> ('r, 'p) breaker" where
  "set_phase i p w = w\<lparr>bk_phase := (bk_phase w)(i := p)\<rparr>"

text \<open>Where a request goes when it may not use Redis, or Redis failed.\<close>

definition degraded_phase :: "bool \<Rightarrow> request_phase" where
  "degraded_phase canFallback = (if canFallback then OnFallback else Finished)"

inductive breaker_step :: "('r, 'p) breaker \<Rightarrow> ('r, 'p) breaker \<Rightarrow> bool" where
  tick: "bk_clock w \<le> t \<Longrightarrow> breaker_step w (w\<lparr>bk_clock := t\<rparr>)"
| begin_attempt: "bk_phase w i = Waiting \<Longrightarrow>
    beginRedisAttempt (bk_clock w) (bk_service w) = ((True, isProbe), s) \<Longrightarrow>
    breaker_step w (set_phase i (Attempting isProbe canFallback) (w\<lparr>bk_service := s\<rparr>))"
| begin_degraded: "bk_phase w i = Waiting \<Longrightarrow>
    beginRedisAttempt (bk_clock w) (bk_service w) = ((False, isProbe), s) \<Longrightarrow>
    breaker_step w (set_phase i (degraded_phase canFallback) (w\<lparr>bk_service := s\<rparr>))"
| answered: "bk_phase w i = Attempting isProbe canFallback \<Longrightarrow>
    breaker_step w (set_phase i Finished (w\<lparr>bk_service := markRedisSuccess isProbe (bk_service w)\<rparr>))"
| cancelled: "bk_phase w i = Attempting isProbe canFallback \<Longrightarrow>
    breaker_step w (set_phase i Finished (w\<lparr>bk_service := cancelRedisProbe isProbe (bk_service w)\<rparr>))"
| failed: "bk_phase w i = Attempting isProbe canFallback \<Longrightarrow>
    breaker_step w (set_phase i (degraded_phase canFallback)
      (w\<lparr>bk_service := markRedisFailure (bk_clock w) (bk_service w)\<rparr>))"
| local_done: "bk_phase w i = OnFallback \<Longrightarrow>
    breaker_step w (set_phase i Finished
      (w\<lparr>bk_service := snd (run_fallback env operation (bk_service w))\<rparr>))"

inductive_cases breaker_stepE: "breaker_step w w'"

definition attempts :: "('r, 'p) breaker \<Rightarrow> nat \<Rightarrow> bool" where
  "attempts w i \<longleftrightarrow> (\<exists>isProbe canFallback. bk_phase w i = Attempting isProbe canFallback)"

definition probes :: "('r, 'p) breaker \<Rightarrow> nat \<Rightarrow> bool" where
  "probes w i \<longleftrightarrow> (\<exists>canFallback. bk_phase w i = Attempting True canFallback)"

lemma set_phase_simps [simp]:
  "bk_service (set_phase i p w) = bk_service w" "bk_clock (set_phase i p w) = bk_clock w"
  "bk_phase (set_phase i p w) = (bk_phase w)(i := p)"
  by (simp_all add: set_phase_def)

lemma degraded_phase_idle [simp]: "degraded_phase c \<noteq> Attempting a b" "Attempting a b \<noteq> degraded_phase c"
  by (simp_all add: degraded_phase_def)

lemma run_fallback_breaker [simp]:
  "sv_degradedUntil (snd (run_fallback env operation s)) = sv_degradedUntil s"
  "sv_isProbing (snd (run_fallback env operation s)) = sv_isProbing s"
  by (simp_all add: run_fallback_def split: prod.splits)

lemmas breaker_defs = beginRedisAttempt_def markRedisFailure_def markRedisSuccess_def
  cancelRedisProbe_def attempts_def probes_def

section \<open>Invariants\<close>

text \<open>While the circuit is open and no probe is in flight, nobody starts an attempt.\<close>

definition backing_off :: "gotime \<Rightarrow> nat set \<Rightarrow> ('r, 'p) breaker \<Rightarrow> bool" where
  "backing_off until inflight w \<longleftrightarrow>
    bk_clock w \<ge> until \<or>
    until \<le> sv_degradedUntil (bk_service w) \<and> sv_degradedUntil (bk_service w) \<noteq> 0 \<and>
    (\<forall>i. attempts w i \<longrightarrow> i \<in> inflight) \<and> (\<forall>i. \<not> probes w i)"

lemma backing_off_step:
  assumes "breaker_step w w'" "backing_off until inflight w" "0 < until" "until - riskRedisCooldown \<le> bk_clock w"
  shows "backing_off until inflight w'"
  using assms by (cases rule: breaker_stepE) (auto simp: backing_off_def breaker_defs split: if_splits)

lemma breaker_clock: "breaker_step w w' \<Longrightarrow> bk_clock w \<le> bk_clock w'"
  by (cases rule: breaker_stepE) auto

lemma backing_off_run:
  assumes "breaker_step\<^sup>*\<^sup>* w w'" "backing_off until inflight w" "0 < until" "until - riskRedisCooldown \<le> bk_clock w"
  shows "backing_off until inflight w' \<and> until - riskRedisCooldown \<le> bk_clock w'"
  using assms
proof (induction rule: rtranclp_induct)
  case (step v w')
  then show ?case using backing_off_step [of v w'] breaker_clock [of v w'] by force
qed simp

text \<open>A run during which the circuit never closes again.\<close>

definition degraded_step :: "('r, 'p) breaker \<Rightarrow> ('r, 'p) breaker \<Rightarrow> bool" where
  "degraded_step w w' \<longleftrightarrow> breaker_step w w' \<and> sv_degradedUntil (bk_service w') \<noteq> 0"

definition one_probe :: "('r, 'p) breaker \<Rightarrow> bool" where
  "one_probe w \<longleftrightarrow> sv_degradedUntil (bk_service w) \<noteq> 0 \<and>
     (\<forall>i. attempts w i \<longrightarrow> probes w i \<and> sv_isProbing (bk_service w)) \<and>
     (\<forall>i j. attempts w i \<longrightarrow> attempts w j \<longrightarrow> i = j)"

lemma one_probe_step: "degraded_step w w' \<Longrightarrow> one_probe w \<Longrightarrow> one_probe w'"
  unfolding degraded_step_def
  by (elim conjE breaker_stepE; auto simp: one_probe_def breaker_defs split: if_splits; blast)

lemma one_probe_run: "degraded_step\<^sup>*\<^sup>* w w' \<Longrightarrow> one_probe w \<Longrightarrow> one_probe w'"
  by (induction rule: rtranclp_induct) (auto intro: one_probe_step)


section \<open>Example runs\<close>

definition fresh_breaker :: "(unit, nat) breaker" where
  "fresh_breaker = \<lparr>bk_service = sample_service, bk_clock = 1, bk_phase = (\<lambda>_. Waiting)\<rparr>"

text \<open>A world with the given phases of the first requests.\<close>

definition breaker_at :: "gotime \<Rightarrow> gotime \<Rightarrow> bool \<Rightarrow> request_phase list \<Rightarrow> (unit, nat) breaker" where
  "breaker_at clock until probing phases =
    \<lparr>bk_service = sample_service\<lparr>sv_degradedUntil := until, sv_isProbing := probing\<rparr>, bk_clock = clock,
     bk_phase = (\<lambda>i. if i < length phases then phases ! i else Waiting)\<rparr>"

lemma fresh_breaker_at: "fresh_breaker = breaker_at 1 0 False [Waiting, Waiting, Waiting, Waiting]"
  by (auto simp: fresh_breaker_def breaker_at_def sample_service_def fun_eq_iff nth_Cons split: nat.split)

lemma breaker_at_set_phase:
  "i < length phases \<Longrightarrow>
   set_phase i p (breaker_at clock until probing phases) = breaker_at clock until probing (phases[i := p])"
  by (auto simp: set_phase_def breaker_at_def fun_eq_iff nth_list_update)

lemma breaker_at_simps [simp]:
  "bk_clock (breaker_at clock until probing phases) = clock"
  "bk_service (breaker_at clock until probing phases) =
    sample_service\<lparr>sv_degradedUntil := until, sv_isProbing := probing\<rparr>"
  "i < length phases \<Longrightarrow> bk_phase (breaker_at clock until probing phases) i = phases ! i"
  by (simp_all add: breaker_at_def)

lemma at_tick: "clock \<le> t \<Longrightarrow> breaker_step (breaker_at clock until probing phases) (breaker_at t until probing phases)"
  using breaker_step.tick [of "breaker_at clock until probing phases" t] by (simp add: breaker_at_def)

lemma at_normal:
  assumes "i < length phases" "phases ! i = Waiting"
  shows "breaker_step (breaker_at clock 0 probing phases)
    (breaker_at clock 0 probing (phases[i := Attempting False canFallback]))"
proof -
  have "breaker_step (breaker_at clock 0 probing phases)
      (set_phase i (Attempting False canFallback) (breaker_at clock 0 probing phases
        \<lparr>bk_service := sample_service\<lparr>sv_degradedUntil := 0, sv_isProbing := probing\<rparr>\<rparr>))"
    using assms by (intro breaker_step.begin_attempt) (simp_all add: beginRedisAttempt_def)
  moreover have "breaker_at clock 0 probing phases
        \<lparr>bk_service := sample_service\<lparr>sv_degradedUntil := 0, sv_isProbing := probing\<rparr>\<rparr> =
      breaker_at clock 0 probing phases"
    by (simp add: breaker_at_def)
  ultimately show ?thesis using assms(1) by (simp add: breaker_at_set_phase)
qed

lemma at_probe:
  assumes "i < length phases" "phases ! i = Waiting" "until \<noteq> 0" "until \<le> clock"
  shows "breaker_step (breaker_at clock until False phases)
    (breaker_at clock until True (phases[i := Attempting True canFallback]))"
proof -
  have "breaker_step (breaker_at clock until False phases)
      (set_phase i (Attempting True canFallback) (breaker_at clock until False phases
        \<lparr>bk_service := sample_service\<lparr>sv_degradedUntil := until, sv_isProbing := True\<rparr>\<rparr>))"
    using assms by (intro breaker_step.begin_attempt) (simp_all add: beginRedisAttempt_def)
  moreover have "breaker_at clock until False phases
        \<lparr>bk_service := sample_service\<lparr>sv_degradedUntil := until, sv_isProbing := True\<rparr>\<rparr> =
      breaker_at clock until True phases"
    by (simp add: breaker_at_def)
  ultimately show ?thesis using assms(1) by (simp add: breaker_at_set_phase)
qed

lemma at_failed:
  assumes "i < length phases" "phases ! i = Attempting isProbe False"
  shows "breaker_step (breaker_at clock until probing phases)
    (breaker_at clock (clock + riskRedisCooldown) False (phases[i := Finished]))"
proof -
  have "breaker_step (breaker_at clock until probing phases)
      (set_phase i (degraded_phase False) (breaker_at clock until probing phases
        \<lparr>bk_service := markRedisFailure clock (sample_service\<lparr>sv_degradedUntil := until, sv_isProbing := probing\<rparr>)\<rparr>))"
    using breaker_step.failed [of "breaker_at clock until probing phases" i isProbe False] assms by simp
  moreover have "breaker_at clock until probing phases
        \<lparr>bk_service := markRedisFailure clock (sample_service\<lparr>sv_degradedUntil := until, sv_isProbing := probing\<rparr>)\<rparr> =
      breaker_at clock (clock + riskRedisCooldown) False phases"
    by (simp add: breaker_at_def markRedisFailure_def)
  ultimately show ?thesis using assms(1) by (simp add: breaker_at_set_phase degraded_phase_def)
qed

section \<open>Properties\<close>



text \<open>one probe at a time. From an open circuit with no request in flight, as long as the circuit
  has not closed again, at most one request at a time is using Redis, under every interleaving.\<close>

theorem single_probe:
  assumes "sv_degradedUntil (bk_service w) \<noteq> 0" and "\<And>i. \<not> attempts w i"
    and "degraded_step\<^sup>*\<^sup>* w later" and "attempts later i" and "attempts later j"
  shows "i = j \<and> probes later i"
proof -
  have "one_probe w" using assms(1,2) by (simp add: one_probe_def)
  then have "one_probe later" using one_probe_run assms(3) by blast
  with assms(4,5) show ?thesis by (auto simp: one_probe_def)
qed

theorem single_probe_witness:
  "Collect (attempts (breaker_at 9 8 True [Attempting True False, Waiting])) = {0}"
proof -
  let ?w = "breaker_at 9 8 True [Attempting True False, Waiting]"
  have step: "degraded_step (breaker_at 9 8 False [Waiting, Waiting]) ?w"
    using at_probe [of 0 "[Waiting, Waiting]" 8 9 False] by (simp add: degraded_step_def)
  have zero: "attempts ?w 0" by (auto simp: attempts_def)
  have "0 = j" if j: "attempts ?w j" for j
  proof -
    have "0 = j \<and> probes ?w 0"
      using zero j step by (intro single_probe [of "breaker_at 9 8 False [Waiting, Waiting]"])
        (auto simp: attempts_def breaker_at_def nth_Cons split: nat.splits)
    then show ?thesis by simp
  qed
  with zero show ?thesis by auto
qed

text \<open>the guard against concurrent probes does not cover attempts that were already in flight when
  the circuit opened. When such an attempt fails late, it clears the mark of a running probe,
  and after another cooldown a second request probes Redis while the first one still does.\<close>

theorem two_probes_overlap:
  "\<exists>w. breaker_step\<^sup>*\<^sup>* fresh_breaker w \<and> probes w 2 \<and> probes w 3"
proof -
  let ?c = riskRedisCooldown
  have c: "?c = 5000000000" by (simp add: riskRedisCooldown_def secs_def)
  let ?n = "Attempting False False" and ?p = "Attempting True False"
  have "breaker_step\<^sup>*\<^sup>* fresh_breaker (breaker_at 1 0 False [?n, Waiting, Waiting, Waiting])"
    using at_normal [of 0 "[Waiting, Waiting, Waiting, Waiting]" 1 False False] by (simp add: fresh_breaker_at)
  also have "breaker_step\<^sup>*\<^sup>* \<dots> (breaker_at 1 0 False [?n, ?n, Waiting, Waiting])"
    using at_normal [of 1 "[?n, Waiting, Waiting, Waiting]" 1 False False] by simp
  also have "breaker_step\<^sup>*\<^sup>* \<dots> (breaker_at 1 (1 + ?c) False [Finished, ?n, Waiting, Waiting])"
    using at_failed [of 0 "[?n, ?n, Waiting, Waiting]" False 1 0 False] by simp
  also have "breaker_step\<^sup>*\<^sup>* \<dots> (breaker_at (1 + ?c) (1 + ?c) False [Finished, ?n, Waiting, Waiting])"
    by (intro r_into_rtranclp at_tick) (simp add: c)
  also have "breaker_step\<^sup>*\<^sup>* \<dots> (breaker_at (1 + ?c) (1 + ?c) True [Finished, ?n, ?p, Waiting])"
    using at_probe [of 2 "[Finished, ?n, Waiting, Waiting]" "1 + ?c" "1 + ?c" False] by (simp add: c)
  also have "breaker_step\<^sup>*\<^sup>* \<dots> (breaker_at (1 + ?c) (1 + ?c + ?c) False [Finished, Finished, ?p, Waiting])"
    using at_failed [of 1 "[Finished, ?n, ?p, Waiting]" False "1 + ?c" "1 + ?c" True] by simp
  also have "breaker_step\<^sup>*\<^sup>* \<dots> (breaker_at (1 + ?c + ?c) (1 + ?c + ?c) False [Finished, Finished, ?p, Waiting])"
    by (intro r_into_rtranclp at_tick) (simp add: c)
  also have "breaker_step\<^sup>*\<^sup>* \<dots> (breaker_at (1 + ?c + ?c) (1 + ?c + ?c) True [Finished, Finished, ?p, ?p])"
    using at_probe [of 3 "[Finished, Finished, ?p, Waiting]" "1 + ?c + ?c" "1 + ?c + ?c" False] by (simp add: c)
  finally show ?thesis by (intro exI conjI) (assumption, auto simp: probes_def)
qed

end
