(* ===== verification/Go_Exception.thy ===== *)
theory Go_Exception
  imports Go_Strings
begin

text \<open>
  The error values of the program (\<open>cool-next/core/exception\<close>). An error is a plain one (a
  sentinel or an error of a library) or a business exception with a name, a code, a message,
  an HTTP status and a cause; the stack-carrying wrapper around it is transparent to
  \<open>errors.Is\<close> and \<open>errors.As\<close> and is left out. The messages of the code are Chinese; the
  model names them by ASCII labels. A status code is absent or given once, which are the two
  ways the constructors are called; the redaction of texts by regular expressions is the
  parameter \<open>redact\<close>.
\<close>

section \<open>Errors\<close>

datatype go_error =
    PlainError string
  | BaseException (be_Name: string) (be_Code: int) (be_Message: string) (be_StatusCode: int)
      (be_Cause: "go_error option")

definition CommException :: string where "CommException = ''CoolCommException''"
definition ValidateException :: string where "ValidateException = ''CoolValidateException''"
definition CoreException :: string where "CoreException = ''CoolCoreException''"

definition getStatusCode :: "int option \<Rightarrow> int" where
  "getStatusCode statusCode = (case statusCode of None \<Rightarrow> 0 | Some code \<Rightarrow> code)"

definition newException ::
  "string \<Rightarrow> int \<Rightarrow> string \<Rightarrow> string \<Rightarrow> go_error option \<Rightarrow> int option \<Rightarrow> go_error" where
  "newException name code message fallback cause statusCode =
    BaseException name code (if message = [] then fallback else message) (getStatusCode statusCode) cause"

definition exc_Comm :: "string \<Rightarrow> int option \<Rightarrow> go_error" where
  "exc_Comm message statusCode = newException CommException 1001 message ''comm fail'' None statusCode"

definition exc_Validate :: "string \<Rightarrow> int option \<Rightarrow> go_error" where
  "exc_Validate message statusCode = newException ValidateException 1002 message ''validate fail'' None statusCode"

definition exc_Core :: "string \<Rightarrow> int option \<Rightarrow> go_error" where
  "exc_Core message statusCode = newException CoreException 1003 message ''core fail'' None statusCode"

definition exc_WrapComm :: "go_error option \<Rightarrow> string \<Rightarrow> int option \<Rightarrow> go_error option" where
  "exc_WrapComm cause message statusCode = (case cause of None \<Rightarrow> None
     | Some e \<Rightarrow> Some (newException CommException 1001 message ''comm fail'' (Some e) statusCode))"

definition exc_WrapValidate :: "go_error option \<Rightarrow> string \<Rightarrow> int option \<Rightarrow> go_error option" where
  "exc_WrapValidate cause message statusCode = (case cause of None \<Rightarrow> None
     | Some e \<Rightarrow> Some (newException ValidateException 1002 message ''validate fail'' (Some e) statusCode))"

definition exc_WrapCore :: "go_error option \<Rightarrow> string \<Rightarrow> int option \<Rightarrow> go_error option" where
  "exc_WrapCore cause message statusCode = (case cause of None \<Rightarrow> None
     | Some e \<Rightarrow> Some (newException CoreException 1003 message ''core fail'' (Some e) statusCode))"

text \<open>The common uses: no status code, and wrapping an error that is there.\<close>

abbreviation core :: "string \<Rightarrow> go_error" where
  "core message \<equiv> exc_Core message None"

abbreviation comm :: "string \<Rightarrow> go_error" where
  "comm message \<equiv> exc_Comm message None"

abbreviation wrap_core :: "string \<Rightarrow> go_error \<Rightarrow> go_error" where
  "wrap_core message e \<equiv> newException CoreException 1003 message ''core fail'' (Some e) None"

lemma wrap_core_eq: "exc_WrapCore (Some e) message None = Some (wrap_core message e)"
  by (simp add: exc_WrapCore_def)

text \<open>\<open>errors.Is\<close> against a sentinel: the sentinel itself or any cause below.\<close>

fun error_is :: "go_error \<Rightarrow> go_error \<Rightarrow> bool" where
  "error_is target (PlainError s) = (target = PlainError s)"
| "error_is target (BaseException name code message status cause) =
    (target = BaseException name code message status cause \<or>
     (case cause of None \<Rightarrow> False | Some e \<Rightarrow> error_is target e))"

section \<open>What a client sees\<close>

record exc_result =
  xr_Code :: int
  xr_Message :: string
  xr_StatusCode :: int

definition isValidStatusCode :: "int \<Rightarrow> bool" where
  "isValidStatusCode statusCode \<longleftrightarrow>
    statusCode = 0 \<or>
    200 \<le> statusCode \<and> statusCode \<le> 599 \<and> statusCode \<noteq> 204 \<and> statusCode \<noteq> 205 \<and> statusCode \<noteq> 304"

definition unknownResult :: exc_result where
  "unknownResult = \<lparr>xr_Code = 1001, xr_Message = ''comm fail'', xr_StatusCode = 500\<rparr>"

definition safeMessage :: "(string \<Rightarrow> string) \<Rightarrow> string \<Rightarrow> string \<Rightarrow> string" where
  "safeMessage redact message fallback = redact (if message = [] then fallback else message)"

definition Resolve :: "(string \<Rightarrow> string) \<Rightarrow> go_error option \<Rightarrow> exc_result" where
  "Resolve redact err =
    (case err of
       None \<Rightarrow> \<lparr>xr_Code = 1000, xr_Message = ''success'', xr_StatusCode = 200\<rparr>
     | Some (PlainError _) \<Rightarrow> unknownResult
     | Some (BaseException name code message status cause) \<Rightarrow>
         if \<not> isValidStatusCode status then unknownResult
         else
           let statusCode = (if status = 0 then 200 else status) in
           if name = CommException \<and> code = 1001 then
             \<lparr>xr_Code = 1001, xr_Message = safeMessage redact message ''comm fail'', xr_StatusCode = statusCode\<rparr>
           else if name = ValidateException \<and> code = 1002 then
             \<lparr>xr_Code = 1002, xr_Message = safeMessage redact message ''validate fail'', xr_StatusCode = statusCode\<rparr>
           else if name = CoreException \<and> code = 1003 then
             \<lparr>xr_Code = 1003, xr_Message = ''core fail'', xr_StatusCode = statusCode\<rparr>
           else unknownResult)"

lemma exception_names [simp]:
  "CommException \<noteq> ValidateException" "CommException \<noteq> CoreException" "ValidateException \<noteq> CoreException"
  "ValidateException \<noteq> CommException" "CoreException \<noteq> CommException" "CoreException \<noteq> ValidateException"
  by (simp_all add: CommException_def ValidateException_def CoreException_def)

lemma isValidStatusCode_range: "isValidStatusCode s \<Longrightarrow> s = 0 \<or> 200 \<le> s \<and> s \<le> 599"
  by (auto simp: isValidStatusCode_def)

text \<open>C39: whatever the error is, the client gets a status that can carry the response body and one of
  the four published codes; the text is a fixed one or the redacted message of a business or
  validation exception. In particular nothing of a core exception and nothing of any cause
  reaches the client.\<close>

theorem resolve_safe:
  "Resolve redact err = r \<Longrightarrow>
   xr_StatusCode r \<noteq> 0 \<and> isValidStatusCode (xr_StatusCode r) \<and> xr_Code r \<in> {1000, 1001, 1002, 1003} \<and>
   (xr_Message r \<in> {''success'', ''comm fail'', ''core fail''} \<or>
    (\<exists>name code message status cause. err = Some (BaseException name code message status cause) \<and>
       name \<in> {CommException, ValidateException} \<and>
       xr_Message r = redact (if message = [] then
         (if name = CommException then ''comm fail'' else ''validate fail'') else message)))"
proof -
  assume r: "Resolve redact err = r"
  consider "r \<in> {\<lparr>xr_Code = 1000, xr_Message = ''success'', xr_StatusCode = 200\<rparr>, unknownResult}"
    | name code message status cause where "err = Some (BaseException name code message status cause)"
        "isValidStatusCode status"
        "r = (let statusCode = (if status = 0 then 200 else status) in
           if name = CommException \<and> code = 1001 then
             \<lparr>xr_Code = 1001, xr_Message = safeMessage redact message ''comm fail'', xr_StatusCode = statusCode\<rparr>
           else if name = ValidateException \<and> code = 1002 then
             \<lparr>xr_Code = 1002, xr_Message = safeMessage redact message ''validate fail'', xr_StatusCode = statusCode\<rparr>
           else if name = CoreException \<and> code = 1003 then
             \<lparr>xr_Code = 1003, xr_Message = ''core fail'', xr_StatusCode = statusCode\<rparr>
           else unknownResult)"
    using r by (cases err; cases "the err") (simp_all add: Resolve_def split: if_splits)
  then show ?thesis
  proof cases
    case 1
    then show ?thesis by (auto simp: unknownResult_def isValidStatusCode_def)
  next
    case (2 name code message status cause)
    from 2(2) have "isValidStatusCode (if status = 0 then 200 else status)"
      by (auto simp: isValidStatusCode_def)
    with 2(1,3) show ?thesis
      by (simp add: Let_def safeMessage_def unknownResult_def isValidStatusCode_def split: if_splits) 
  qed
qed

theorem resolve_safe_witness:
  "xr_StatusCode (Resolve (\<lambda>s. s) (Some (wrap_core ''load failed'' (PlainError ''dsn'')))) \<noteq> 0 \<and>
   xr_Message (Resolve (\<lambda>s. s) (Some (wrap_core ''load failed'' (PlainError ''dsn'')))) = ''core fail''"
  using resolve_safe [OF refl, of "\<lambda>s. s" "Some (wrap_core ''load failed'' (PlainError ''dsn''))"]
  by (simp add: Resolve_def newException_def getStatusCode_def isValidStatusCode_def)

end
