(* ===== verification/Auth_Session.thy ===== *)
theory Auth_Session
  imports Go_Exception
begin

text \<open>
  Sessions of \<open>cool-next/auth\<close>: identities and snapshots (\<open>identity.go\<close>), their validation,
  the wire format of a stored session and the in-process store (\<open>store.go\<close>).

  A Go slice that may be nil is an \<open>option\<close>. \<open>TokenSubject\<close> is embedded in \<open>Snapshot\<close> and in
  \<open>Claims\<close>, which are record extensions of it. Each operation of the store runs under its
  mutex; the instants at which it reads the clock and the state of its context are arguments.
\<close>

section \<open>Identities\<close>

type_synonym kind = string

definition AdminKind :: kind where "AdminKind = ''admin''"
definition AppKind :: kind where "AppKind = ''app''"

lemma kinds_distinct [simp]: "AdminKind \<noteq> AppKind" "AppKind \<noteq> AdminKind"
  by (simp_all add: AdminKind_def AppKind_def)

record token_subject =
  ts_SessionID :: string
  ts_Subject :: kind
  ts_UserID :: u64
  ts_Username :: string
  ts_RoleIDs :: "u64 list option"
  ts_PasswordV :: int

record snapshot = token_subject +
  sn_AccessJTI :: string
  sn_RefreshJTI :: string
  sn_ExpiresAt :: gotime

record principal =
  pr_Subject :: kind
  pr_UserID :: u64
  pr_Username :: string
  pr_RoleIDs :: "u64 list option"
  pr_PasswordV :: int

text \<open>The sentinels that callers compare with \<open>errors.Is\<close>.\<close>

definition ErrInvalidCredential :: go_error where "ErrInvalidCredential = PlainError ''login expired''"
definition ErrSessionNotFound :: go_error where "ErrSessionNotFound = PlainError ''session not found''"
definition ErrRefreshReplay :: go_error where "ErrRefreshReplay = PlainError ''refresh token replay''"
definition errExpired :: go_error where "errExpired = PlainError ''session expired''"

definition validatePrincipal :: "principal \<Rightarrow> (go_error, unit) result" where
  "validatePrincipal p =
    (if pr_UserID p = 0 then Inl (core ''principal id empty'')
     else if pr_Subject p = AdminKind then
       (if trim_space (pr_Username p) = [] \<or> pr_PasswordV p \<le> 0 then Inl (core ''admin principal invalid'')
        else if list_ex (\<lambda>r. r = 0) (case pr_RoleIDs p of None \<Rightarrow> [] | Some rs \<Rightarrow> rs) then Inl (core ''admin role id not positive'')
        else Inr ())
     else if pr_Subject p = AppKind then
       (if pr_Username p \<noteq> [] \<or> pr_RoleIDs p \<noteq> None \<or> pr_PasswordV p \<noteq> 0 then Inl (core ''app principal has admin fields'')
        else Inr ())
     else Inl (core ''principal kind invalid''))"

text \<open>\<open>append([]uint64(nil), xs...)\<close>: a copy, nil when there is nothing to copy.\<close>

definition copy_ids :: "u64 list option \<Rightarrow> u64 list option" where
  "copy_ids ids = (case ids of Some (x # xs) \<Rightarrow> Some (x # xs) | _ \<Rightarrow> None)"

definition snapshot_principal :: "snapshot \<Rightarrow> principal" where
  "snapshot_principal v =
    \<lparr>pr_Subject = ts_Subject v, pr_UserID = ts_UserID v, pr_Username = ts_Username v,
     pr_RoleIDs = ts_RoleIDs v, pr_PasswordV = ts_PasswordV v\<rparr>"

definition validIdentifier :: "string \<Rightarrow> bool" where
  "validIdentifier value \<longleftrightarrow> \<not> (value = [] \<or> trim_space value \<noteq> value \<or> \<not> valid_utf8 value) \<and>
     list_all (\<lambda>c. \<not> is_control c) (runes value)"

definition validateSnapshot :: "snapshot \<Rightarrow> gotime \<Rightarrow> (go_error, unit) result" where
  "validateSnapshot v now =
    (if \<not> validIdentifier (ts_SessionID v) then Inl (core ''session id invalid'')
     else if \<not> validIdentifier (sn_AccessJTI v) \<or> \<not> validIdentifier (sn_RefreshJTI v) then Inl (core ''session jti invalid'')
     else if sn_ExpiresAt v = 0 \<or> \<not> now < sn_ExpiresAt v then Inl (core ''session expired'')
     else validatePrincipal (snapshot_principal v))"

definition cloneSnapshot :: "snapshot \<Rightarrow> snapshot" where
  "cloneSnapshot v = v\<lparr>ts_RoleIDs := copy_ids (ts_RoleIDs v)\<rparr>"

section \<open>In-process store\<close>

type_synonym sessions = "(string, snapshot) gomap"

text \<open>The state of the caller's context: nil, or the reason it is done, or usable.\<close>

datatype context_state = ContextNil | ContextDone go_error | ContextOk

definition contextError :: "context_state \<Rightarrow> (go_error, unit) result" where
  "contextError c = (case c of ContextNil \<Rightarrow> Inl (core ''session context nil'') | ContextDone e \<Rightarrow> Inl e | ContextOk \<Rightarrow> Inr ())"

definition cleanupExpired :: "gotime \<Rightarrow> sessions \<Rightarrow> sessions" where
  "cleanupExpired now st = filter (\<lambda>(k, v). now < sn_ExpiresAt v) st"

definition revokeUserSet :: "kind \<Rightarrow> u64 list \<Rightarrow> (go_error, u64 set) result" where
  "revokeUserSet subject userIDs =
    (if subject \<noteq> AdminKind \<and> subject \<noteq> AppKind then Inl (core ''session user invalid'')
     else if list_ex (\<lambda>u. u = 0) userIDs then Inl (core ''session user invalid'') else Inr (set userIDs))"

definition store_Get ::
  "context_state \<Rightarrow> gotime \<Rightarrow> string \<Rightarrow> sessions \<Rightarrow> (go_error, snapshot option) result \<times> sessions" where
  "store_Get ctx now sessionID st =
    (case contextError ctx of
       Inl e \<Rightarrow> (Inl e, st)
     | Inr _ \<Rightarrow>
         if \<not> validIdentifier sessionID then (Inl (core ''session id invalid''), st)
         else let st' = cleanupExpired now st in (Inr (map_option cloneSnapshot (map_of st' sessionID)), st'))"

definition store_Save ::
  "context_state \<Rightarrow> gotime \<Rightarrow> gotime \<Rightarrow> snapshot \<Rightarrow> sessions \<Rightarrow> (go_error, unit) result \<times> sessions" where
  "store_Save ctx now later v st =
    (case bindE (contextError ctx) (\<lambda>_. validateSnapshot v now) of
       Inl e \<Rightarrow> (Inl e, st)
     | Inr _ \<Rightarrow> (Inr (), mput (ts_SessionID v) (cloneSnapshot v) (cleanupExpired later st)))"

definition store_RotateRefresh ::
  "context_state \<Rightarrow> gotime \<Rightarrow> gotime \<Rightarrow> string \<Rightarrow> string \<Rightarrow> snapshot \<Rightarrow> sessions \<Rightarrow>
   (go_error, unit) result \<times> sessions" where
  "store_RotateRefresh ctx now later sessionID expectedRefreshJTI nxt st =
    (case contextError ctx of
       Inl e \<Rightarrow> (Inl e, st)
     | Inr _ \<Rightarrow>
    (if \<not> validIdentifier sessionID \<or> \<not> validIdentifier expectedRefreshJTI
       then (Inl (core ''rotation arguments invalid''), st)
     else case validateSnapshot nxt now of
       Inl e \<Rightarrow> (Inl e, st)
     | Inr _ \<Rightarrow>
         if ts_SessionID nxt \<noteq> sessionID then (Inl (core ''rotation changes session id''), st)
         else let st' = cleanupExpired later st in
           (case map_of st' sessionID of
              None \<Rightarrow> (Inl ErrSessionNotFound, st')
            | Some current \<Rightarrow>
                if sn_RefreshJTI current \<noteq> expectedRefreshJTI then (Inl ErrRefreshReplay, st')
                else if ts_Subject current \<noteq> ts_Subject nxt \<or> ts_UserID current \<noteq> ts_UserID nxt
                  then (Inl (core ''rotation changes identity''), st')
                else (Inr (), mput sessionID (cloneSnapshot nxt) st'))))"

definition store_Revoke :: "context_state \<Rightarrow> string \<Rightarrow> sessions \<Rightarrow> (go_error, unit) result \<times> sessions" where
  "store_Revoke ctx sessionID st =
    (case contextError ctx of
       Inl e \<Rightarrow> (Inl e, st)
     | Inr _ \<Rightarrow> if \<not> validIdentifier sessionID then (Inl (core ''session id invalid''), st)
               else (Inr (), mdel sessionID st))"

definition is_target :: "kind \<Rightarrow> u64 set \<Rightarrow> snapshot \<Rightarrow> bool" where
  "is_target subject targets v \<longleftrightarrow> ts_UserID v \<in> targets \<and> ts_Subject v = subject"

definition store_RevokeUsers ::
  "context_state \<Rightarrow> gotime \<Rightarrow> kind \<Rightarrow> u64 list \<Rightarrow> sessions \<Rightarrow> (go_error, unit) result \<times> sessions" where
  "store_RevokeUsers ctx now subject userIDs st =
    (case bindE (contextError ctx) (\<lambda>_. revokeUserSet subject userIDs) of
       Inl e \<Rightarrow> (Inl e, st)
     | Inr targets \<Rightarrow>
         if targets = {} then (Inr (), st)
         else (Inr (), filter (\<lambda>(k, v). \<not> is_target subject targets v) (cleanupExpired now st)))"

text \<open>
  The store as the rest of the program sees it (interface \<open>Store\<close>): a record of operations on
  some state. The clock readings of an operation are its first arguments.
\<close>

record 's store_ops =
  op_Get :: "gotime \<Rightarrow> string \<Rightarrow> 's \<Rightarrow> (go_error, snapshot option) result \<times> 's"
  op_Save :: "gotime \<Rightarrow> gotime \<Rightarrow> snapshot \<Rightarrow> 's \<Rightarrow> (go_error, unit) result \<times> 's"
  op_RotateRefresh :: "gotime \<Rightarrow> gotime \<Rightarrow> string \<Rightarrow> string \<Rightarrow> snapshot \<Rightarrow> 's \<Rightarrow> (go_error, unit) result \<times> 's"
  op_Revoke :: "string \<Rightarrow> 's \<Rightarrow> (go_error, unit) result \<times> 's"
  op_RevokeUsers :: "gotime \<Rightarrow> kind \<Rightarrow> u64 list \<Rightarrow> 's \<Rightarrow> (go_error, unit) result \<times> 's"

definition memory_store :: "context_state \<Rightarrow> sessions store_ops" where
  "memory_store ctx =
    \<lparr>op_Get = store_Get ctx, op_Save = store_Save ctx, op_RotateRefresh = store_RotateRefresh ctx,
     op_Revoke = store_Revoke ctx, op_RevokeUsers = store_RevokeUsers ctx\<rparr>"

section \<open>Abstract store\<close>

text \<open>
  What the store means at an instant: the partial map of the sessions that are still alive.
\<close>

definition live :: "gotime \<Rightarrow> sessions \<Rightarrow> string \<rightharpoonup> snapshot" where
  "live now st = (\<lambda>sid. case map_of st sid of
     Some v \<Rightarrow> if now < sn_ExpiresAt v then Some v else None | None \<Rightarrow> None)"

text \<open>Sessions in the store are keyed by their identifier and were valid when stored.\<close>

definition sessions_ok :: "sessions \<Rightarrow> bool" where
  "sessions_ok st \<longleftrightarrow> gomap_ok st \<and>
     (\<forall>sid v. map_of st sid = Some v \<longrightarrow> ts_SessionID v = sid \<and> cloneSnapshot v = v \<and>
        (\<exists>t. validateSnapshot v t = Inr ()))"

lemma clone_idem [simp]: "cloneSnapshot (cloneSnapshot v) = cloneSnapshot v"
  by (simp add: cloneSnapshot_def copy_ids_def split: option.splits list.splits)

lemma clone_fields [simp]:
  "ts_SessionID (cloneSnapshot v) = ts_SessionID v" "ts_Subject (cloneSnapshot v) = ts_Subject v"
  "ts_UserID (cloneSnapshot v) = ts_UserID v" "ts_Username (cloneSnapshot v) = ts_Username v"
  "ts_PasswordV (cloneSnapshot v) = ts_PasswordV v" "sn_AccessJTI (cloneSnapshot v) = sn_AccessJTI v"
  "sn_RefreshJTI (cloneSnapshot v) = sn_RefreshJTI v" "sn_ExpiresAt (cloneSnapshot v) = sn_ExpiresAt v"
  by (simp_all add: cloneSnapshot_def)

lemma clone_valid: "validateSnapshot v t = Inr () \<Longrightarrow> validateSnapshot (cloneSnapshot v) t = Inr ()"
  by (auto simp: validateSnapshot_def validatePrincipal_def snapshot_principal_def cloneSnapshot_def copy_ids_def
      split: if_splits option.splits list.splits)

lemma map_of_cleanup: "gomap_ok st \<Longrightarrow> map_of (cleanupExpired now st) = live now st"
  by (rule ext) (simp add: cleanupExpired_def live_def map_of_filter_ok split: option.splits)

lemma live_le: "live now st sid = Some v \<Longrightarrow> t \<le> now \<Longrightarrow> live t st sid = Some v"
  by (auto simp: live_def split: option.splits if_splits)

lemma live_cleanup:
  "gomap_ok st \<Longrightarrow> live now (cleanupExpired t st) sid = (if t \<le> now then live now st sid else live t st sid)"
  by (auto simp: live_def map_of_cleanup split: option.splits)

lemma live_mput [simp]:
  "live now (mput k v st) = (live now st)(k := if now < sn_ExpiresAt v then Some v else None)"
  by (auto simp: live_def fun_eq_iff)

lemma live_mdel [simp]: "live now (mdel k st) = (live now st)(k := None)"
  by (auto simp: live_def fun_eq_iff)


lemma live_revoked:
  assumes "gomap_ok st"
  shows "live now (filter (\<lambda>(k, v). \<not> is_target subject targets v) (cleanupExpired t st)) sid =
    (case live now (cleanupExpired t st) sid of
       Some v \<Rightarrow> if is_target subject targets v then None else Some v
     | None \<Rightarrow> None)"
proof -
  have "gomap_ok (cleanupExpired t st)" using assms by (simp add: cleanupExpired_def)
  then show ?thesis by (auto simp: live_def map_of_filter_ok split: option.splits)
qed

lemma cleanup_ok: "sessions_ok st \<Longrightarrow> sessions_ok (cleanupExpired now st)"
  by (auto simp: sessions_ok_def cleanupExpired_def map_of_filter_ok split: option.splits if_splits)

lemma filter_sessions_ok: "sessions_ok st \<Longrightarrow> sessions_ok (filter P st)"
  by (auto simp: sessions_ok_def map_of_filter_ok split: option.splits if_splits)

lemma mput_ok:
  "sessions_ok st \<Longrightarrow> validateSnapshot v t = Inr () \<Longrightarrow>
   sessions_ok (mput (ts_SessionID v) (cloneSnapshot v) st)"
  by (auto simp: sessions_ok_def intro: clone_valid)

lemma mdel_ok: "sessions_ok st \<Longrightarrow> sessions_ok (mdel k st)"
  by (auto simp: sessions_ok_def)

lemma live_ok: "sessions_ok st \<Longrightarrow> live t st sid = Some v \<Longrightarrow> ts_SessionID v = sid \<and> cloneSnapshot v = v"
  by (auto simp: sessions_ok_def live_def split: option.splits if_splits)

section \<open>The contract of a session store\<close>

text \<open>
  What the authentication service relies on. \<open>sees t st\<close> is the partial map of the sessions
  alive at \<open>t\<close>; each operation changes it, for every later instant, by exactly its update.
\<close>

locale session_store =
  fixes ops :: "'s store_ops"
    and inv :: "'s \<Rightarrow> bool"
    and sees :: "gotime \<Rightarrow> 's \<Rightarrow> string \<rightharpoonup> snapshot"
  assumes alive: "inv st \<Longrightarrow> sees t st sid = Some v \<Longrightarrow> t < sn_ExpiresAt v \<and> ts_SessionID v = sid"
    and get: "inv st \<Longrightarrow> op_Get ops now sid st = (got, st') \<Longrightarrow>
      inv st' \<and> (\<forall>t \<ge> now. sees t st' = sees t st) \<and> (\<forall>r. got = Inr r \<longrightarrow> r = sees now st sid)"
    and save: "inv st \<Longrightarrow> op_Save ops now later v st = (res, st') \<Longrightarrow>
      inv st' \<and> (\<forall>t \<ge> later. sees t st' = (if res = Inr ()
        then (sees t st)(ts_SessionID v := if t < sn_ExpiresAt v then Some (cloneSnapshot v) else None)
        else sees t st))"
    and rotate: "inv st \<Longrightarrow> op_RotateRefresh ops now later sid jti v st = (res, st') \<Longrightarrow>
      inv st' \<and> (\<forall>t \<ge> later. sees t st' = (if res = Inr ()
        then (sees t st)(sid := if t < sn_ExpiresAt v then Some (cloneSnapshot v) else None)
        else sees t st)) \<and>
      (res = Inr () \<longrightarrow> (\<exists>current. sees later st sid = Some current \<and> sn_RefreshJTI current = jti \<and>
        ts_Subject current = ts_Subject v \<and> ts_UserID current = ts_UserID v \<and> ts_SessionID v = sid))"
    and revoke: "inv st \<Longrightarrow> op_Revoke ops sid st = (res, st') \<Longrightarrow>
      inv st' \<and> sees t st' = (if res = Inr () then (sees t st)(sid := None) else sees t st)"
    and revoke_users: "inv st \<Longrightarrow> op_RevokeUsers ops now subject ids st = (res, st') \<Longrightarrow>
      inv st' \<and> (\<forall>t \<ge> now. sees t st' = (if res = Inr ()
        then (\<lambda>sid. case sees t st sid of
            Some v \<Rightarrow> if is_target subject (set ids) v then None else Some v
          | None \<Rightarrow> None)
        else sees t st))"

lemma store_Get_spec:
  assumes "sessions_ok st" "store_Get ctx now sid st = (res, st')"
  shows "sessions_ok st' \<and> (\<forall>t \<ge> now. live t st' = live t st) \<and> (\<forall>r. res = Inr r \<longrightarrow> r = live now st sid)"
proof -
  have ok: "gomap_ok st" using assms(1) by (simp add: sessions_ok_def)
  have "map_option cloneSnapshot (live now st sid) = live now st sid"
    using live_ok [OF assms(1), of now sid] by (cases "live now st sid") auto
  with assms ok show ?thesis
    by (auto simp: store_Get_def Let_def map_of_cleanup live_cleanup cleanup_ok fun_eq_iff
        split: sum.splits if_splits)
qed

lemma store_Save_spec:
  assumes "sessions_ok st" "store_Save ctx now later v st = (res, st')"
  shows "sessions_ok st' \<and> (\<forall>t \<ge> later. live t st' = (if res = Inr ()
        then (live t st)(ts_SessionID v := if t < sn_ExpiresAt v then Some (cloneSnapshot v) else None)
        else live t st))"
proof -
  have ok: "gomap_ok st" using assms(1) by (simp add: sessions_ok_def)
  show ?thesis
  proof (cases res)
    case (Inl e)
    with assms show ?thesis by (auto simp: store_Save_def split: sum.splits)
  next
    case (Inr u)
    then have "validateSnapshot v now = Inr ()"
      and st': "st' = mput (ts_SessionID v) (cloneSnapshot v) (cleanupExpired later st)"
      using assms(2) by (auto simp: store_Save_def bindE_Inr_iff split: sum.splits)
    then show ?thesis
      using Inr assms(1) ok by (auto simp: mput_ok cleanup_ok live_cleanup fun_eq_iff)
  qed
qed

lemma store_RotateRefresh_spec:
  assumes "sessions_ok st" "store_RotateRefresh ctx now later sid jti v st = (res, st')"
  shows "sessions_ok st' \<and> (\<forall>t \<ge> later. live t st' = (if res = Inr ()
        then (live t st)(sid := if t < sn_ExpiresAt v then Some (cloneSnapshot v) else None)
        else live t st)) \<and>
      (res = Inr () \<longrightarrow> (\<exists>current. live later st sid = Some current \<and> sn_RefreshJTI current = jti \<and>
        ts_Subject current = ts_Subject v \<and> ts_UserID current = ts_UserID v \<and> ts_SessionID v = sid))"
proof -
  have ok: "gomap_ok st" using assms(1) by (simp add: sessions_ok_def)
  show ?thesis
  proof (cases res)
    case (Inl e)
    then have "st' = st \<or> st' = cleanupExpired later st"
      using assms(2) by (auto simp: store_RotateRefresh_def Let_def split: sum.splits if_splits option.splits)
    with Inl assms(1) ok show ?thesis by (auto simp: cleanup_ok live_cleanup fun_eq_iff)
  next
    case (Inr u)
    then obtain current where cur: "live later st sid = Some current" "sn_RefreshJTI current = jti"
      "ts_Subject current = ts_Subject v" "ts_UserID current = ts_UserID v" "ts_SessionID v = sid"
      and valid: "validateSnapshot v now = Inr ()"
      and st': "st' = mput sid (cloneSnapshot v) (cleanupExpired later st)"
      using assms(2) ok
      by (auto simp: store_RotateRefresh_def Let_def map_of_cleanup split: sum.splits if_splits option.splits)
    have "sessions_ok st'"
      using mput_ok [OF cleanup_ok [OF assms(1)] valid] st' cur(5) by simp
    then show ?thesis using Inr cur st' ok by (auto simp: live_cleanup fun_eq_iff)
  qed
qed

lemma store_Revoke_spec:
  assumes "sessions_ok st" "store_Revoke ctx sid st = (res, st')"
  shows "sessions_ok st' \<and> live t st' = (if res = Inr () then (live t st)(sid := None) else live t st)"
  using assms by (auto simp: store_Revoke_def mdel_ok split: sum.splits if_splits)

lemma store_RevokeUsers_spec:
  assumes "sessions_ok st" "store_RevokeUsers ctx now subject ids st = (res, st')"
  shows "sessions_ok st' \<and> (\<forall>t \<ge> now. live t st' = (if res = Inr ()
        then (\<lambda>sid. case live t st sid of
            Some v \<Rightarrow> if is_target subject (set ids) v then None else Some v
          | None \<Rightarrow> None)
        else live t st))"
proof -
  have ok: "gomap_ok st" using assms(1) by (simp add: sessions_ok_def)
  consider e where "res = Inl e" "st' = st"
    | "ids = []" "res = Inr ()" "st' = st"
    | "res = Inr ()" "st' = filter (\<lambda>(k, v). \<not> is_target subject (set ids) v) (cleanupExpired now st)"
    using assms(2)
    by (auto simp: store_RevokeUsers_def revokeUserSet_def bindE_Inr_iff split: sum.splits if_splits)
  then show ?thesis
  proof cases
    case 2
    then show ?thesis using assms(1) by (auto simp: fun_eq_iff is_target_def split: option.splits)
  next
    case 3
    then show ?thesis using assms(1) ok
      by (auto simp: filter_sessions_ok cleanup_ok live_revoked live_cleanup fun_eq_iff)
  qed (use assms(1) in auto)
qed

interpretation mem_store: session_store "memory_store ctx" sessions_ok live for ctx
proof
  fix st t sid v assume "sessions_ok st" "live t st sid = Some v"
  then show "t < sn_ExpiresAt v \<and> ts_SessionID v = sid"
    using live_ok [of st t sid v] by (simp add: live_def split: option.splits if_splits)
qed (simp only: memory_store_def store_ops.simps,
    (erule (1) store_Get_spec store_Save_spec store_RotateRefresh_spec store_Revoke_spec store_RevokeUsers_spec))+

end
