(* ===== verification/Auth_Service.thy ===== *)
theory Auth_Service
  imports Auth_Session
begin

text \<open>
  The authentication service of \<open>cool-next/auth/identity.go\<close> and the authorisation checks of
  \<open>cool-next/auth/perm.go\<close>: signing in, verifying access tokens against the session store,
  refreshing with replay detection, and deciding a request by permission and resource.

  The token codec, the source of session identifiers, the resolver of a refresh and the
  business authorizer are interfaces of the code: what they answer during one call is in the
  record \<open>auth_env\<close> or an argument. The session store is any implementation of its interface
  (\<open>store_ops\<close>).
\<close>

section \<open>Tokens and verified identities\<close>

record claims = token_subject +
  cm_JTI :: string
  cm_IsRefresh :: bool
  cm_IssuedAt :: gotime
  cm_NotBefore :: gotime
  cm_ExpiresAt :: gotime

record token_pair =
  tp_AccessToken :: string
  tp_RefreshToken :: string
  tp_AccessJTI :: string
  tp_RefreshJTI :: string
  tp_AccessExpiresAt :: gotime
  tp_ExpiresAt :: gotime

record admin_identity =
  ai_UserID :: u64
  ai_Username :: string
  ai_PasswordV :: int
  ai_roleIDs :: "u64 list option"

record verified_identity =
  vi_subject :: kind
  vi_admin :: admin_identity
  vi_app :: u64

record session_state =
  ss_ID :: string
  ss_Subject :: kind
  ss_AccessJTI :: string
  ss_ExpiresAt :: gotime

text \<open>The two values that the service puts into a context.\<close>

record auth_context =
  cx_identity :: "verified_identity option"
  cx_session :: "session_state option"

definition zero_admin :: admin_identity where
  "zero_admin = \<lparr>ai_UserID = 0, ai_Username = [], ai_PasswordV = 0, ai_roleIDs = None\<rparr>"

definition newAdminIdentity :: "u64 \<Rightarrow> string \<Rightarrow> int \<Rightarrow> u64 list option \<Rightarrow> admin_identity" where
  "newAdminIdentity userID username passwordV roleIDs =
    \<lparr>ai_UserID = userID, ai_Username = username, ai_PasswordV = passwordV, ai_roleIDs = copy_ids roleIDs\<rparr>"

definition unauthErr :: go_error where
  "unauthErr = exc_Comm ''identity not verified'' (Some 401)"

definition credentialErr :: go_error where
  "credentialErr = exc_Comm ''login expired'' (Some 401)"

definition identityFromContext :: "auth_context option \<Rightarrow> verified_identity option" where
  "identityFromContext ctx = (case ctx of None \<Rightarrow> None | Some c \<Rightarrow> cx_identity c)"

definition auth_Admin :: "auth_context option \<Rightarrow> (go_error, admin_identity) result" where
  "auth_Admin ctx =
    (case identityFromContext ctx of
       None \<Rightarrow> Inl unauthErr
     | Some i \<Rightarrow> if vi_subject i \<noteq> AdminKind then Inl unauthErr
         else Inr ((vi_admin i)\<lparr>ai_roleIDs := copy_ids (ai_roleIDs (vi_admin i))\<rparr>))"

definition auth_App :: "auth_context option \<Rightarrow> (go_error, u64) result" where
  "auth_App ctx =
    (case identityFromContext ctx of
       None \<Rightarrow> Inl unauthErr
     | Some i \<Rightarrow> if vi_subject i \<noteq> AppKind then Inl unauthErr else Inr (vi_app i))"

definition auth_Session :: "auth_context option \<Rightarrow> session_state option" where
  "auth_Session ctx = (case ctx of None \<Rightarrow> None | Some c \<Rightarrow> cx_session c)"

definition withAdmin :: "u64 \<Rightarrow> string \<Rightarrow> int \<Rightarrow> u64 list option \<Rightarrow> auth_context \<Rightarrow> auth_context" where
  "withAdmin userID username passwordV roleIDs ctx =
    ctx\<lparr>cx_identity := Some \<lparr>vi_subject = AdminKind,
      vi_admin = newAdminIdentity userID username passwordV roleIDs, vi_app = 0\<rparr>\<rparr>"

definition withApp :: "u64 \<Rightarrow> auth_context \<Rightarrow> auth_context" where
  "withApp appID ctx = ctx\<lparr>cx_identity := Some \<lparr>vi_subject = AppKind, vi_admin = zero_admin, vi_app = appID\<rparr>\<rparr>"

definition withSession :: "session_state \<Rightarrow> auth_context \<Rightarrow> auth_context" where
  "withSession state ctx = ctx\<lparr>cx_session := Some state\<rparr>"

definition tokenSubject :: "string \<Rightarrow> principal \<Rightarrow> token_subject" where
  "tokenSubject sessionID p =
    \<lparr>ts_SessionID = sessionID, ts_Subject = pr_Subject p, ts_UserID = pr_UserID p,
     ts_Username = pr_Username p, ts_RoleIDs = copy_ids (pr_RoleIDs p), ts_PasswordV = pr_PasswordV p\<rparr>"

definition toPrincipal :: "snapshot \<Rightarrow> principal" where
  "toPrincipal v =
    \<lparr>pr_Subject = ts_Subject v, pr_UserID = ts_UserID v, pr_Username = ts_Username v,
     pr_RoleIDs = copy_ids (ts_RoleIDs v), pr_PasswordV = ts_PasswordV v\<rparr>"

definition snapshotFromPair :: "token_subject \<Rightarrow> token_pair \<Rightarrow> snapshot" where
  "snapshotFromPair subject pair =
    token_subject.extend subject
      \<lparr>sn_AccessJTI = tp_AccessJTI pair, sn_RefreshJTI = tp_RefreshJTI pair, sn_ExpiresAt = tp_ExpiresAt pair\<rparr>"

definition contextWithSession :: "claims \<Rightarrow> snapshot \<Rightarrow> auth_context \<Rightarrow> auth_context" where
  "contextWithSession cl current ctx =
    (let ctx' = withSession \<lparr>ss_ID = ts_SessionID current, ss_Subject = ts_Subject current,
           ss_AccessJTI = sn_AccessJTI current, ss_ExpiresAt = sn_ExpiresAt current\<rparr> ctx
     in if ts_Subject cl = AdminKind
        then withAdmin (ts_UserID current) (ts_Username current) (ts_PasswordV current) (ts_RoleIDs current) ctx'
        else withApp (ts_UserID current) ctx')"

text \<open>The snapshot and the claims agree on who the session belongs to and which token is current.\<close>

definition checkClaims :: "claims \<Rightarrow> snapshot \<Rightarrow> (go_error, unit) result" where
  "checkClaims cl current =
    (if ts_SessionID cl \<noteq> ts_SessionID current \<or> ts_Subject cl \<noteq> ts_Subject current \<or>
        ts_UserID cl \<noteq> ts_UserID current then Inl ErrInvalidCredential
     else if ts_Subject cl = AdminKind \<and> ts_PasswordV cl \<noteq> ts_PasswordV current then Inl ErrInvalidCredential
     else if cm_JTI cl \<noteq> (if cm_IsRefresh cl then sn_RefreshJTI current else sn_AccessJTI current)
       then Inl ErrInvalidCredential
     else Inr ())"

section \<open>Service\<close>

text \<open>
  What one call meets: the codec's answers, the next session identifier, and the clock when
  the store reads, when the service compares, and when the store checks and writes.
\<close>

record auth_env =
  ae_Parse :: "string \<Rightarrow> bool \<Rightarrow> (go_error, claims) result"
  ae_IssuePair :: "token_subject \<Rightarrow> (go_error, token_pair) result"
  ae_newID :: "(go_error, string) result"
  ae_get :: gotime
  ae_now :: gotime
  ae_check :: gotime
  ae_write :: gotime

definition auth_Create ::
  "auth_env \<Rightarrow> 's store_ops \<Rightarrow> principal \<Rightarrow> 's \<Rightarrow> (go_error, token_pair) result \<times> 's" where
  "auth_Create env ops p st =
    (case validatePrincipal p of
       Inl e \<Rightarrow> (Inl e, st)
     | Inr _ \<Rightarrow>
    (case ae_newID env of
       Inl e \<Rightarrow> (Inl (wrap_core ''session id failed'' e), st)
     | Inr sessionID \<Rightarrow>
    (case ae_IssuePair env (tokenSubject sessionID p) of
       Inl e \<Rightarrow> (Inl (wrap_core ''issue failed'' e), st)
     | Inr pair \<Rightarrow>
    (case op_Save ops (ae_check env) (ae_write env) (snapshotFromPair (tokenSubject sessionID p) pair) st of
       (Inl e, st') \<Rightarrow> (Inl (wrap_core ''save failed'' e), st')
     | (Inr _, st') \<Rightarrow> (Inr pair, st')))))"

definition auth_revokeReplay :: "'s store_ops \<Rightarrow> string \<Rightarrow> 's \<Rightarrow> go_error \<times> 's" where
  "auth_revokeReplay ops sessionID st =
    (case op_Revoke ops sessionID st of
       (Inl e, st') \<Rightarrow> (wrap_core ''revoke failed'' e, st')
     | (Inr _, st') \<Rightarrow> (unauthErr, st'))"

definition auth_verify ::
  "auth_env \<Rightarrow> 's store_ops \<Rightarrow> string \<Rightarrow> bool \<Rightarrow> 's \<Rightarrow> (go_error, claims \<times> snapshot) result \<times> 's" where
  "auth_verify env ops token isRefresh st =
    (case ae_Parse env token isRefresh of
       Inl e \<Rightarrow> (Inl (if error_is ErrInvalidCredential e then credentialErr else wrap_core ''verify failed'' e), st)
     | Inr cl \<Rightarrow>
    (case op_Get ops (ae_get env) (ts_SessionID cl) st of
       (Inl e, st') \<Rightarrow> (Inl (wrap_core ''read session failed'' e), st')
     | (Inr None, st') \<Rightarrow> (Inl unauthErr, st')
     | (Inr (Some current), st') \<Rightarrow>
         if \<not> ae_now env < sn_ExpiresAt current then (Inl unauthErr, st')
         else (case checkClaims cl current of
             Inr _ \<Rightarrow> (Inr (cl, current), st')
           | Inl _ \<Rightarrow>
               if isRefresh \<and> ts_SessionID cl \<noteq> [] \<and> cm_JTI cl \<noteq> sn_RefreshJTI current
               then apfst Inl (auth_revokeReplay ops (ts_SessionID cl) st')
               else (Inl unauthErr, st'))))"

definition auth_Access ::
  "auth_env \<Rightarrow> 's store_ops \<Rightarrow> string \<Rightarrow> auth_context \<Rightarrow> 's \<Rightarrow> (go_error, auth_context) result \<times> 's" where
  "auth_Access env ops token ctx st =
    (case auth_verify env ops token False st of
       (Inl e, st') \<Rightarrow> (Inl e, st')
     | (Inr (cl, current), st') \<Rightarrow> (Inr (contextWithSession cl current ctx), st'))"

text \<open>What happens after a refresh token was verified: this is the second critical section of a refresh.\<close>

definition auth_rotate ::
  "auth_env \<Rightarrow> 's store_ops \<Rightarrow> (principal \<Rightarrow> (go_error, principal) result) \<Rightarrow> claims \<Rightarrow> snapshot \<Rightarrow> 's \<Rightarrow>
   (go_error, token_pair) result \<times> 's" where
  "auth_rotate env ops resolve cl current st =
    (case bindE (resolve (toPrincipal current)) (\<lambda>p. bindE (validatePrincipal p) (\<lambda>_. Inr p)) of
       Inl e \<Rightarrow> (Inl e, st)
     | Inr p \<Rightarrow>
         if pr_Subject p \<noteq> ts_Subject current \<or> pr_UserID p \<noteq> ts_UserID current
         then (Inl (core ''refresh changes identity''), st)
         else
    (case ae_IssuePair env (tokenSubject (ts_SessionID current) p) of
       Inl e \<Rightarrow> (Inl (wrap_core ''issue failed'' e), st)
     | Inr pair \<Rightarrow>
    (case op_RotateRefresh ops (ae_check env) (ae_write env) (ts_SessionID current) (cm_JTI cl)
        (snapshotFromPair (tokenSubject (ts_SessionID current) p) pair) st of
       (Inr _, st') \<Rightarrow> (Inr pair, st')
     | (Inl e, st') \<Rightarrow>
         if error_is ErrSessionNotFound e then (Inl unauthErr, st')
         else if error_is ErrRefreshReplay e then apfst Inl (auth_revokeReplay ops (ts_SessionID current) st')
         else (Inl (wrap_core ''rotate failed'' e), st'))))"

definition auth_RefreshWith ::
  "auth_env \<Rightarrow> 's store_ops \<Rightarrow> (principal \<Rightarrow> (go_error, principal) result) option \<Rightarrow> string \<Rightarrow> 's \<Rightarrow>
   (go_error, token_pair) result \<times> 's" where
  "auth_RefreshWith env ops resolve token st =
    (case resolve of
       None \<Rightarrow> (Inl (core ''refresh resolver nil''), st)
     | Some f \<Rightarrow>
         (case auth_verify env ops token True st of
            (Inl e, st') \<Rightarrow> (Inl e, st')
          | (Inr (cl, current), st') \<Rightarrow> auth_rotate env ops f cl current st'))"

end
