(* ===== verification/Go_Path.thy ===== *)
theory Go_Path
  imports Go_Exception
begin

text \<open>
  Names and paths of the Go standard library: \<open>path.Clean\<close> and \<open>token.IsIdentifier\<close>. The Unicode
  classes of runes above ASCII are parameters.
\<close>

section \<open>Paths\<close>

text \<open>\<open>path.Clean\<close>: one pass over the segments with a stack of kept ones (last first).\<close>

fun clean_segments :: "bool \<Rightarrow> string list \<Rightarrow> string list \<Rightarrow> string list" where
  "clean_segments rooted kept [] = rev kept"
| "clean_segments rooted kept (s # rest) =
    (if s = [] \<or> s = ''.'' then clean_segments rooted kept rest
     else if s = ''..'' then
       (case kept of
          upper # below \<Rightarrow> if upper \<noteq> ''..'' then clean_segments rooted below rest
                        else clean_segments rooted (s # kept) rest
        | [] \<Rightarrow> if rooted then clean_segments rooted [] rest else clean_segments rooted [s] rest)
     else clean_segments rooted (s # kept) rest)"

definition path_clean :: "string \<Rightarrow> string" where
  "path_clean p =
    (let rooted = has_prefix ''/'' p; body = join ''/'' (clean_segments rooted [] (split_on CHR ''/'' p))
     in if rooted then CHR ''/'' # body else if body = [] then ''.'' else body)"

definition proper_segment :: "string \<Rightarrow> bool" where
  "proper_segment s \<longleftrightarrow> s \<noteq> [] \<and> s \<noteq> ''.'' \<and> s \<noteq> ''..''"

lemma clean_segments_proper:
  assumes "list_all proper_segment kept"
  shows "list_all proper_segment (clean_segments True kept segments) \<and>
    set (clean_segments True kept segments) \<subseteq> set kept \<union> set segments"
  using assms
proof (induction segments arbitrary: kept)
  case (Cons s rest)
  show ?case
  proof (cases "s = [] \<or> s = ''.''")
    case True
    with Cons.IH [OF Cons.prems] show ?thesis by auto
  next
    case False
    show ?thesis
    proof (cases "s = ''..''")
      case True
      with Cons.IH [of "tl kept"] Cons.prems show ?thesis
        by (cases kept) (auto simp: proper_segment_def)
    next
      case False2: False
      with False Cons.IH [of "s # kept"] Cons.prems show ?thesis
        by (auto simp: proper_segment_def)
    qed
  qed
qed (simp add: list_all_iff)

lemma path_clean_proper:
  assumes "has_prefix ''/'' p" "path_clean p = p"
  shows "p = ''/'' \<or> list_all proper_segment (tl (split_on CHR ''/'' p))"
proof -
  obtain q where p: "p = CHR ''/'' # q" using assms(1) by (auto simp: has_prefix_iff)
  define xs where "xs = clean_segments True [] (split_on CHR ''/'' q)"
  have xs: "list_all proper_segment xs" "set xs \<subseteq> set (split_on CHR ''/'' q)"
    using clean_segments_proper [of "[]" "split_on CHR ''/'' q"] by (auto simp: xs_def)
  have q: "join ''/'' xs = q"
    using assms p by (simp add: path_clean_def Let_def xs_def)
  show ?thesis
  proof (cases "xs = []")
    case True
    with p q show ?thesis by simp
  next
    case False
    have "split_on CHR ''/'' q = xs"
      using split_on_join [OF False, of "CHR ''/''"] xs(2) split_on_no_sep q by blast
    with p xs(1) show ?thesis by simp
  qed
qed

lemma clean_segments_fixed:
  "list_all proper_segment segments \<Longrightarrow> clean_segments True kept segments = rev kept @ segments"
  by (induction segments arbitrary: kept) (simp_all add: proper_segment_def)

text \<open>A rooted path is cleaned once and for all.\<close>

lemma path_clean_idem:
  assumes "has_prefix ''/'' p"
  shows "path_clean (path_clean p) = path_clean p" "has_prefix ''/'' (path_clean p)"
proof -
  obtain q where p: "p = CHR ''/'' # q" using assms by (auto simp: has_prefix_iff)
  define xs where "xs = clean_segments True [] (split_on CHR ''/'' p)"
  have xs: "list_all proper_segment xs" "\<And>x. x \<in> set xs \<Longrightarrow> CHR ''/'' \<notin> set x"
    using clean_segments_proper [of "[]" "split_on CHR ''/'' p"] split_on_no_sep by (auto simp: xs_def)
  have pc: "path_clean p = CHR ''/'' # join ''/'' xs" using assms by (simp add: path_clean_def xs_def Let_def)
  show "has_prefix ''/'' (path_clean p)" by (simp add: pc has_prefix_iff)
  have "clean_segments True [] (split_on CHR ''/'' (join ''/'' xs)) = xs"
  proof (cases "xs = []")
    case False
    with split_on_join [OF False, of "CHR ''/''"] xs clean_segments_fixed [OF xs(1), of "[]"] show ?thesis by simp
  qed simp
  then have "clean_segments True [] (split_on CHR ''/'' (path_clean p)) = xs" by (simp add: pc)
  then show "path_clean (path_clean p) = path_clean p"
    unfolding pc by (simp add: path_clean_def has_prefix_def Let_def)
qed

section \<open>Identifiers\<close>

record unicode_lib =
  ul_letter :: "nat \<Rightarrow> bool"
  ul_digit :: "nat \<Rightarrow> bool"
  ul_upper :: "nat \<Rightarrow> nat"

definition rune_letter :: "unicode_lib \<Rightarrow> nat \<Rightarrow> bool" where
  "rune_letter u r = (if r < 128 then in_range 65 90 r \<or> in_range 97 122 r else ul_letter u r)"

definition rune_digit :: "unicode_lib \<Rightarrow> nat \<Rightarrow> bool" where
  "rune_digit u r = (if r < 128 then in_range 48 57 r else ul_digit u r)"

definition go_keywords :: "string list" where
  "go_keywords = [''break'', ''case'', ''chan'', ''const'', ''continue'', ''default'', ''defer'', ''else'', ''fallthrough'', ''for'',
    ''func'', ''go'', ''goto'', ''if'', ''import'', ''interface'', ''map'', ''package'', ''range'', ''return'', ''select'',
    ''struct'', ''switch'', ''type'', ''var'']"

definition is_identifier :: "unicode_lib \<Rightarrow> string \<Rightarrow> bool" where
  "is_identifier u s \<longleftrightarrow> s \<noteq> [] \<and> s \<notin> set go_keywords \<and>
    (case runes s of [] \<Rightarrow> True
     | r # rs \<Rightarrow> (rune_letter u r \<or> r = 95) \<and> list_all (\<lambda>r. rune_letter u r \<or> r = 95 \<or> rune_digit u r) rs)"

end
