(* ===== verification/Auth_Perm.thy ===== *)
theory Auth_Perm
  imports Auth_Service Go_Path
begin

text \<open>
  Authorisation (\<open>cool-next/auth/perm.go\<close>): deriving the permission of an admin route,
  normalised resources of the two protocols, the decision for a request, and the boundary
  through which grants are changed.

  The business authorizer and the row locks of the database are parameters; the lexical
  normalisation of \<open>path.Clean\<close> is modelled.
\<close>

section \<open>Permission of a route\<close>

text \<open>The runes of a permission segment are ASCII letters, digits and underscores, not led by a digit.\<close>

fun segment_runes :: "nat \<Rightarrow> nat list \<Rightarrow> bool" where
  "segment_runes index [] = True"
| "segment_runes index (r # rest) =
    (if in_range 97 122 r \<or> in_range 65 90 r \<or> r = 95 then segment_runes (index + 1) rest
     else if in_range 48 57 r then index \<noteq> 0 \<and> segment_runes (index + 1) rest
     else False)"

definition validSegment :: "string \<Rightarrow> bool" where
  "validSegment v \<longleftrightarrow> v \<noteq> [] \<and> segment_runes 0 (runes v)"

definition adminPathPrefix :: string where "adminPathPrefix = ''/admin/''"
definition adminDictDataPath :: string where "adminDictDataPath = ''/admin/dict/info/data''"

definition DerivePermission :: "string \<Rightarrow> bool \<Rightarrow> (go_error, string) result" where
  "DerivePermission fullPath ignoreToken =
    (if ignoreToken \<or> \<not> has_prefix adminPathPrefix fullPath then Inr []
     else if fullPath = adminDictDataPath then Inr []
     else
       let remainder = trim_char CHR ''/'' (trim_prefix adminPathPrefix fullPath) in
       if remainder = [] then Inl (core ''route has no permission'')
       else
         let segments = split_on CHR ''/'' remainder in
         if ''comm'' \<in> set (butlast segments) then Inr []
         else if list_ex (\<lambda>s. \<not> validSegment s) segments then Inl (core ''segment is no permission'')
         else Inr (join '':'' segments))"

section \<open>Resources\<close>

definition validResourcePath :: "string \<Rightarrow> bool" where
  "validResourcePath value \<longleftrightarrow>
    \<not> (value = [] \<or> trim_space value \<noteq> value \<or> \<not> has_prefix ''/'' value \<or>
       CHR ''?'' \<in> set value \<or> CHR ''#'' \<in> set value) \<and>
    list_all (\<lambda>r. \<not> (is_control r \<or> is_space r)) (runes value)"

definition http_methods :: "string list" where
  "http_methods = [''CONNECT'', ''DELETE'', ''GET'', ''HEAD'', ''OPTIONS'', ''PATCH'', ''POST'', ''PUT'', ''TRACE'']"

definition HTTPResource :: "(nat \<Rightarrow> nat) \<Rightarrow> string \<Rightarrow> string \<Rightarrow> (go_error, string) result" where
  "HTTPResource table meth requestPath =
    (let normalized = to_upper table (trim_space meth) in
     if normalized \<notin> set http_methods then Inl (core ''http method invalid'')
     else if \<not> validResourcePath requestPath \<or> path_clean requestPath \<noteq> requestPath
       then Inl (core ''http path not normalised'')
     else Inr (normalized @ '' '' @ requestPath))"

definition GRPCResource :: "string \<Rightarrow> (go_error, string) result" where
  "GRPCResource fullMethod =
    (if \<not> validResourcePath fullMethod \<or> path_clean fullMethod \<noteq> fullMethod
       then Inl (core ''grpc method not normalised'')
     else
       (case split_on CHR ''/'' (trim_prefix ''/'' fullMethod) of
          [service, name] \<Rightarrow> if service = [] \<or> name = [] then Inl (core ''grpc method invalid'') else Inr fullMethod
        | _ \<Rightarrow> Inl (core ''grpc method invalid'')))"

section \<open>Authorisation\<close>

record authorization =
  az_Subject :: kind
  az_SubjectID :: u64
  az_Permission :: string
  az_Resource :: string

type_synonym authorizer = "authorization \<Rightarrow> (go_error, bool) result"

definition toAuthz :: "verified_identity \<Rightarrow> string \<Rightarrow> string \<Rightarrow> (go_error, authorization) result" where
  "toAuthz identity permission resource =
    (let subjectID = (if vi_subject identity = AdminKind then Inr (ai_UserID (vi_admin identity))
                      else if vi_subject identity = AppKind then Inr (vi_app identity)
                      else Inl (core ''identity kind invalid''))
     in bindE subjectID (\<lambda>i. if i = 0 then Inl (core ''identity id empty'')
          else Inr \<lparr>az_Subject = vi_subject identity, az_SubjectID = i, az_Permission = permission,
                    az_Resource = resource\<rparr>))"

definition Authorize ::
  "auth_context option \<Rightarrow> authorizer option \<Rightarrow> string \<Rightarrow> string \<Rightarrow> (go_error, unit) result" where
  "Authorize ctx authorizer permission resource =
    (case authorizer of
       None \<Rightarrow> Inl (core ''authorizer nil'')
     | Some decide \<Rightarrow>
         if trim_space permission = [] then Inl (core ''permission empty'')
         else if trim_space resource = [] then Inl (core ''resource empty'')
         else (case identityFromContext ctx of
             None \<Rightarrow> Inl unauthErr
           | Some identity \<Rightarrow>
               bindE (toAuthz identity permission resource) (\<lambda>az.
                 (case decide az of
                    Inl e \<Rightarrow> Inl (wrap_core ''authorize failed'' e)
                  | Inr allowed \<Rightarrow> if allowed then Inr () else Inl (exc_Comm ''forbidden'' (Some 403))))))"

record auth_rule =
  ru_IgnoreToken :: bool
  ru_Permission :: string
  ru_Resource :: string

text \<open>On an error the caller gets its own context back; only a success carries the verified one.\<close>

definition auth_Authenticate ::
  "auth_env \<Rightarrow> 's store_ops \<Rightarrow> authorizer option \<Rightarrow> auth_context \<Rightarrow> string \<Rightarrow> auth_rule \<Rightarrow> 's \<Rightarrow>
   (go_error, auth_context) result \<times> 's" where
  "auth_Authenticate env ops authorizer ctx token rule st =
    (if ru_IgnoreToken rule then (Inr ctx, st)
     else (case auth_Access env ops token ctx st of
         (Inl e, st') \<Rightarrow> (Inl e, st')
       | (Inr verified, st') \<Rightarrow>
           if trim_space (ru_Permission rule) = [] then (Inr verified, st')
           else (case Authorize (Some verified) authorizer (ru_Permission rule) (ru_Resource rule) of
               Inl e \<Rightarrow> (Inl e, st')
             | Inr _ \<Rightarrow> (Inr verified, st'))))"

definition authProtocol ::
  "auth_env \<Rightarrow> 's store_ops \<Rightarrow> authorizer option \<Rightarrow> auth_context \<Rightarrow> string \<Rightarrow> string \<Rightarrow> bool \<Rightarrow>
   (go_error, string) result \<Rightarrow> 's \<Rightarrow> (go_error, auth_context) result \<times> 's" where
  "authProtocol env ops authorizer ctx token permission ignoreToken resource st =
    (if ignoreToken then (Inr ctx, st)
     else if token = [] then (Inl credentialErr, st)
     else if trim_space permission = [] then
       auth_Authenticate env ops authorizer ctx token
         \<lparr>ru_IgnoreToken = False, ru_Permission = permission, ru_Resource = []\<rparr> st
     else (case resource of
         Inl e \<Rightarrow> (Inl e, st)
       | Inr built \<Rightarrow> auth_Authenticate env ops authorizer ctx token
           \<lparr>ru_IgnoreToken = False, ru_Permission = permission, ru_Resource = built\<rparr> st))"

definition AuthenticateHTTP ::
  "(nat \<Rightarrow> nat) \<Rightarrow> auth_env \<Rightarrow> 's store_ops \<Rightarrow> authorizer option \<Rightarrow> auth_context \<Rightarrow> string \<Rightarrow> string \<Rightarrow> string \<Rightarrow>
   string \<Rightarrow> bool \<Rightarrow> 's \<Rightarrow> (go_error, auth_context) result \<times> 's" where
  "AuthenticateHTTP table env ops authorizer ctx token meth requestPath permission ignoreToken st =
    authProtocol env ops authorizer ctx token permission ignoreToken (HTTPResource table meth requestPath) st"

definition AuthenticateGRPC ::
  "auth_env \<Rightarrow> 's store_ops \<Rightarrow> authorizer option \<Rightarrow> auth_context \<Rightarrow> string \<Rightarrow> string \<Rightarrow>
   string \<Rightarrow> bool \<Rightarrow> 's \<Rightarrow> (go_error, auth_context) result \<times> 's" where
  "AuthenticateGRPC env ops authorizer ctx token fullMethod permission ignoreToken st =
    authProtocol env ops authorizer ctx token permission ignoreToken (GRPCResource fullMethod) st"

section \<open>Changing grants\<close>

definition NormalizeIDs :: "u64 list \<Rightarrow> u64 list" where
  "NormalizeIDs ids = remdups_adj (sort (filter (\<lambda>i. i \<noteq> 0) ids))"

definition ValidateSnapshot :: "u64 list \<Rightarrow> u64 list \<Rightarrow> string \<Rightarrow> (go_error, unit) result" where
  "ValidateSnapshot before after message =
    (if NormalizeIDs before \<noteq> NormalizeIDs after then Inl (comm message) else Inr ())"

text \<open>\<open>lock\<close> is the database's row lock: the identifiers that exist and are now locked.\<close>

definition LockTable ::
  "(string \<Rightarrow> u64 list \<Rightarrow> (go_error, u64 list) result) \<Rightarrow> string \<Rightarrow> u64 list \<Rightarrow> string \<Rightarrow> (go_error, unit) result" where
  "LockTable lock table ids message =
    (let ids = NormalizeIDs ids in
     if ids = [] then Inr ()
     else (case lock table ids of
         Inl e \<Rightarrow> Inl (wrap_core message e)
       | Inr locked \<Rightarrow> if ids \<noteq> locked then Inl (exc_Validate (message @ '': target missing'') None) else Inr ()))"

definition boundary_RevokeUsers ::
  "gotime \<Rightarrow> 's store_ops \<Rightarrow> kind \<Rightarrow> u64 list \<Rightarrow> 's \<Rightarrow> (go_error, unit) result \<times> 's" where
  "boundary_RevokeUsers now ops subject userIDs st =
    (let userIDs = NormalizeIDs userIDs in
     if userIDs = [] then (Inr (), st)
     else (case op_RevokeUsers ops now subject userIDs st of
         (Inl e, st') \<Rightarrow> (Inl (wrap_core ''revoke users failed'' e), st')
       | (Inr _, st') \<Rightarrow> (Inr (), st')))"

definition LockUsersAndRevoke ::
  "gotime \<Rightarrow> (string \<Rightarrow> u64 list \<Rightarrow> (go_error, u64 list) result) \<Rightarrow> 's store_ops \<Rightarrow> string \<Rightarrow> u64 list \<Rightarrow> kind \<Rightarrow> string \<Rightarrow> 's \<Rightarrow>
   (go_error, unit) result \<times> 's" where
  "LockUsersAndRevoke now lock ops table userIDs subject message st =
    (let userIDs = NormalizeIDs userIDs in
     if userIDs = [] then (Inr (), st)
     else (case LockTable lock table userIDs message of
         Inl e \<Rightarrow> (Inl e, st)
       | Inr _ \<Rightarrow>
           (case op_RevokeUsers ops now subject userIDs st of
              (Inl e, st') \<Rightarrow> (Inl (wrap_core ''revoke users failed'' e), st')
            | (Inr _, st') \<Rightarrow> (Inr (), st'))))"

lemma set_NormalizeIDs [simp]: "set (NormalizeIDs ids) = set ids - {0}"
  by (auto simp: NormalizeIDs_def)

lemma distinct_remdups_adj_sorted: "sorted xs \<Longrightarrow> distinct (remdups_adj xs)"
  by (induction xs rule: remdups_adj.induct) (auto simp: order_antisym)

lemma NormalizeIDs_sorted: "sorted (NormalizeIDs ids)" "distinct (NormalizeIDs ids)"
  by (simp_all add: NormalizeIDs_def sorted_remdups_adj distinct_remdups_adj_sorted)

lemma NormalizeIDs_fixed: "sorted ids \<Longrightarrow> distinct ids \<Longrightarrow> 0 \<notin> set ids \<Longrightarrow> NormalizeIDs ids = ids"
proof -
  assume "sorted ids" "distinct ids" "0 \<notin> set ids"
  moreover have "filter (\<lambda>i. i \<noteq> 0) ids = ids" using \<open>0 \<notin> set ids\<close> by (intro filter_True) auto
  ultimately show ?thesis by (simp add: NormalizeIDs_def sorted_sort_id remdups_adj_distinct)
qed

lemma NormalizeIDs_idem [simp]: "NormalizeIDs (NormalizeIDs ids) = NormalizeIDs ids"
  by (rule NormalizeIDs_fixed) (simp_all add: NormalizeIDs_sorted)

lemma NormalizeIDs_empty [simp]: "NormalizeIDs [] = []"
  by (simp add: NormalizeIDs_def)

lemma NormalizeIDs_eq_iff: "NormalizeIDs xs = NormalizeIDs ys \<longleftrightarrow> set xs - {0} = set ys - {0}"
  by (metis NormalizeIDs_sorted set_NormalizeIDs sorted_distinct_set_unique)

end
