(* ===== verification/Auth_Properties.thy ===== *)
theory Auth_Properties
  imports Auth_Perm
begin

text \<open>
  What authentication guarantees: who gets in, that a refresh token is good for one rotation
  under every interleaving, that a replay ends the session, that revoking users locks them
  out, and that a protected route is only entered with the authorizer's consent. The lemmas
  on the service are proved for every session store that keeps the contract
  \<open>session_store\<close> and then used on the in-process store.
\<close>

section \<open>Runs of store operations\<close>

text \<open>
  Requests run concurrently, but each operation of a store is atomic: whatever the interleaving,
  what the store sees is a sequence of calls with nondecreasing clock readings.
\<close>

datatype store_call =
    CallGet string
  | CallSave snapshot
  | CallRotate string string snapshot
  | CallRevoke string
  | CallRevokeUsers kind "u64 list"

fun store_step :: "'s store_ops \<Rightarrow> gotime \<Rightarrow> gotime \<Rightarrow> store_call \<Rightarrow> 's \<Rightarrow> bool \<times> 's" where
  "store_step ops now later (CallGet sid) st = apfst (\<lambda>r. r \<noteq> Inr None) (op_Get ops later sid st)"
| "store_step ops now later (CallSave v) st = apfst (\<lambda>r. r = Inr ()) (op_Save ops now later v st)"
| "store_step ops now later (CallRotate sid jti v) st =
     apfst (\<lambda>r. r = Inr ()) (op_RotateRefresh ops now later sid jti v st)"
| "store_step ops now later (CallRevoke sid) st = apfst (\<lambda>r. r = Inr ()) (op_Revoke ops sid st)"
| "store_step ops now later (CallRevokeUsers subject ids) st =
     apfst (\<lambda>r. r = Inr ()) (op_RevokeUsers ops later subject ids st)"

fun rotates :: "string \<Rightarrow> string \<Rightarrow> store_call \<Rightarrow> bool" where
  "rotates sid jti (CallRotate s j v) = (s = sid \<and> j = jti)"
| "rotates sid jti _ = False"

fun installs :: "string \<Rightarrow> string \<Rightarrow> store_call \<Rightarrow> bool" where
  "installs sid jti (CallSave v) = (ts_SessionID v = sid \<and> sn_RefreshJTI v = jti)"
| "installs sid jti (CallRotate s j v) = (s = sid \<and> sn_RefreshJTI v = jti)"
| "installs sid jti _ = False"

text \<open>How many rotations of the session \<open>sid\<close> away from the refresh token \<open>jti\<close> succeed.\<close>

fun rotations ::
  "'s store_ops \<Rightarrow> string \<Rightarrow> string \<Rightarrow> ((gotime \<times> gotime) \<times> store_call) list \<Rightarrow> 's \<Rightarrow> nat" where
  "rotations ops sid jti [] st = 0"
| "rotations ops sid jti (((now, later), c) # rest) st =
    (if rotates sid jti c \<and> fst (store_step ops now later c st) then 1 else 0) +
    rotations ops sid jti rest (snd (store_step ops now later c st))"

definition holds_jti :: "(gotime \<Rightarrow> 's \<Rightarrow> string \<rightharpoonup> snapshot) \<Rightarrow> gotime \<Rightarrow> string \<Rightarrow> string \<Rightarrow> 's \<Rightarrow> bool" where
  "holds_jti sees since sid jti st \<longleftrightarrow>
    (\<exists>t \<ge> since. \<exists>v. sees t st sid = Some v \<and> sn_RefreshJTI v = jti)"

lemma holds_jti_since: "holds_jti sees later sid jti st \<Longrightarrow> since \<le> later \<Longrightarrow> holds_jti sees since sid jti st"
  by (auto simp: holds_jti_def intro: order_trans)

lemma apfst_Inl_neq [simp]: "apfst Inl x = (Inr a, s) \<longleftrightarrow> False" "(Inr a, s) = apfst Inl x \<longleftrightarrow> False"
  by (cases x; simp)+

context session_store
begin

lemma store_step_inv: "inv st \<Longrightarrow> inv (snd (store_step ops now later c st))"
  by (cases c) (auto simp: apfst_def map_prod_def split: prod.splits
      dest: get save rotate revoke revoke_users)

lemma store_step_sees:
  assumes "inv st" "later \<le> t" "sees t (snd (store_step ops now later c st)) sid = Some v"
    and "\<not> installs sid (sn_RefreshJTI v) c"
  shows "sees t st sid = Some v"
proof (cases c)
  case (CallGet s)
  obtain got st' where g: "op_Get ops later s st = (got, st')" by fastforce
  from get [OF assms(1) g] assms(2,3) CallGet g show ?thesis by simp
next
  case (CallSave w)
  obtain res st' where g: "op_Save ops now later w st = (res, st')" by fastforce
  from save [OF assms(1) g] assms(2-4) CallSave g show ?thesis by (auto split: if_splits)
next
  case (CallRotate s j w)
  obtain res st' where g: "op_RotateRefresh ops now later s j w st = (res, st')" by fastforce
  from rotate [OF assms(1) g] assms(2-4) CallRotate g show ?thesis by (auto split: if_splits)
next
  case (CallRevoke s)
  obtain res st' where g: "op_Revoke ops s st = (res, st')" by fastforce
  from revoke [OF assms(1) g, of t] assms(3) CallRevoke g show ?thesis by (auto split: if_splits)
next
  case (CallRevokeUsers subject ids)
  obtain res st' where g: "op_RevokeUsers ops later subject ids st = (res, st')" by fastforce
  from revoke_users [OF assms(1) g] assms(2,3) CallRevokeUsers g show ?thesis
    by (auto split: if_splits option.splits)
qed

lemma not_held_step:
  assumes "inv st" "\<not> holds_jti sees since sid jti st" "since \<le> later" "\<not> installs sid jti c"
  shows "\<not> holds_jti sees later sid jti (snd (store_step ops now later c st))"
  using assms store_step_sees [OF assms(1)] unfolding holds_jti_def by (metis order_trans)

lemma rotates_success:
  assumes "inv st" "rotates sid jti c" "fst (store_step ops now later c st)"
  shows "holds_jti sees later sid jti st"
    "\<not> installs sid jti c \<Longrightarrow> \<not> holds_jti sees later sid jti (snd (store_step ops now later c st))"
proof -
  obtain w where c: "c = CallRotate sid jti w" using assms(2) by (cases c) auto
  obtain res st' where g: "op_RotateRefresh ops now later sid jti w st = (res, st')" by fastforce
  from assms(3) c g have res: "res = Inr ()" by simp
  note law = rotate [OF assms(1) g, unfolded res, simplified]
  show "holds_jti sees later sid jti st" using law unfolding holds_jti_def by blast
  show "\<not> holds_jti sees later sid jti (snd (store_step ops now later c st))" if "\<not> installs sid jti c"
    using law that c g unfolding holds_jti_def by (auto split: if_splits)
qed

lemma rotations_none:
  assumes "inv st" "\<not> holds_jti sees since sid jti st" "sorted (since # map (snd \<circ> fst) calls)"
    and "\<forall>(t, c) \<in> set calls. \<not> installs sid jti c"
  shows "rotations ops sid jti calls st = 0"
  using assms
proof (induction calls arbitrary: st since)
  case (Cons x rest)
  obtain now later c where x: "x = ((now, later), c)" by (metis prod.exhaust)
  have le: "since \<le> later" using Cons.prems(3) x by simp
  have "\<not> holds_jti sees later sid jti st"
    using Cons.prems(2) le holds_jti_since by metis
  then have "\<not> (rotates sid jti c \<and> fst (store_step ops now later c st))"
    using rotates_success(1) [OF Cons.prems(1)] by blast
  moreover have "\<not> holds_jti sees later sid jti (snd (store_step ops now later c st))"
    using Cons.prems x le by (intro not_held_step [where since = since]) auto
  then have "rotations ops sid jti rest (snd (store_step ops now later c st)) = 0"
    using Cons.prems x by (intro Cons.IH [where since = later] store_step_inv) (auto simp: comp_def)
  ultimately show ?case using x by simp
qed simp

lemma rotations_once:
  assumes "inv st" "sorted (map (snd \<circ> fst) calls)"
    and "\<forall>(t, c) \<in> set calls. \<not> installs sid jti c"
  shows "rotations ops sid jti calls st \<le> 1"
  using assms
proof (induction calls arbitrary: st)
  case (Cons x rest)
  obtain now later c where x: "x = ((now, later), c)" by (metis prod.exhaust)
  let ?st = "snd (store_step ops now later c st)"
  have inv: "inv ?st" using Cons.prems(1) by (rule store_step_inv)
  show ?case
  proof (cases "rotates sid jti c \<and> fst (store_step ops now later c st)")
    case True
    then have "\<not> holds_jti sees later sid jti ?st"
      using rotates_success(2) [OF Cons.prems(1)] Cons.prems(3) x by auto
    then have "rotations ops sid jti rest ?st = 0"
      using inv Cons.prems x by (intro rotations_none [where since = later]) (auto simp: comp_def)
    then show ?thesis using x by simp
  next
    case False
    have "rotations ops sid jti rest ?st \<le> 1" using inv Cons.prems x by (intro Cons.IH) (auto simp: comp_def)
    with False x show ?thesis by auto
  qed
qed simp

text \<open>Verification and rotation against the contract.\<close>

lemma verify_ok:
  assumes "inv st" "auth_verify env ops token isRefresh st = (Inr (cl, current), st')"
  shows "inv st'" "ae_Parse env token isRefresh = Inr cl"
    "sees (ae_get env) st (ts_SessionID cl) = Some current" "ae_now env < sn_ExpiresAt current"
    "checkClaims cl current = Inr ()" "\<And>t. ae_get env \<le> t \<Longrightarrow> sees t st' = sees t st"
proof -
  obtain got where cl: "ae_Parse env token isRefresh = Inr cl"
    and g: "op_Get ops (ae_get env) (ts_SessionID cl) st = (got, st')" "got = Inr (Some current)"
    and rest: "ae_now env < sn_ExpiresAt current" "checkClaims cl current = Inr ()"
    using assms(2)
    by (auto simp: auth_verify_def split: sum.splits prod.splits option.splits if_splits)
  from get [OF assms(1) g(1)] g(2) cl rest show "inv st'" "ae_Parse env token isRefresh = Inr cl"
    "sees (ae_get env) st (ts_SessionID cl) = Some current" "ae_now env < sn_ExpiresAt current"
    "checkClaims cl current = Inr ()" "\<And>t. ae_get env \<le> t \<Longrightarrow> sees t st' = sees t st"
    by auto
qed

lemma access_ok:
  assumes "inv st" "auth_Access env ops token ctx st = (Inr ctx', st')"
  obtains cl current where "ae_Parse env token False = Inr cl"
    "sees (ae_get env) st (ts_SessionID cl) = Some current" "ae_now env < sn_ExpiresAt current"
    "checkClaims cl current = Inr ()" "ctx' = contextWithSession cl current ctx" "inv st'"
    "\<And>t. ae_get env \<le> t \<Longrightarrow> sees t st' = sees t st"
proof -
  obtain cl current where v: "auth_verify env ops token False st = (Inr (cl, current), st')"
    and ctx': "ctx' = contextWithSession cl current ctx"
    using assms(2) by (auto simp: auth_Access_def split: prod.splits sum.splits)
  show ?thesis using verify_ok [OF assms(1) v] ctx' by (intro that)
qed

lemma refresh_ok:
  assumes "inv st" "auth_RefreshWith env ops resolve token st = (Inr pair, st')"
  obtains cl current p where "ae_Parse env token True = Inr cl"
    "sees (ae_get env) st (ts_SessionID cl) = Some current" "checkClaims cl current = Inr ()"
    "validatePrincipal p = Inr ()" "pr_Subject p = ts_Subject current" "pr_UserID p = ts_UserID current"
    "inv st'"
    "\<And>t. ae_get env \<le> t \<Longrightarrow> ae_write env \<le> t \<Longrightarrow> sees t st' = (sees t st)(ts_SessionID current :=
       if t < tp_ExpiresAt pair
       then Some (cloneSnapshot (snapshotFromPair (tokenSubject (ts_SessionID current) p) pair)) else None)"
proof -
  obtain f cl current st1 where f: "resolve = Some f"
    and v: "auth_verify env ops token True st = (Inr (cl, current), st1)"
    and r: "auth_rotate env ops f cl current st1 = (Inr pair, st')"
    using assms(2) by (auto simp: auth_RefreshWith_def split: option.splits prod.splits sum.splits)
  obtain p where p: "validatePrincipal p = Inr ()" "pr_Subject p = ts_Subject current"
      "pr_UserID p = ts_UserID current"
    and w: "op_RotateRefresh ops (ae_check env) (ae_write env) (ts_SessionID current) (cm_JTI cl)
      (snapshotFromPair (tokenSubject (ts_SessionID current) p) pair) st1 = (Inr (), st')"
    using r by (auto simp: auth_rotate_def bindE_Inr_iff split: sum.splits prod.splits if_splits)
  note ver = verify_ok [OF assms(1) v]
  from rotate [OF ver(1) w] have inv': "inv st'"
    and upd: "\<And>t. ae_write env \<le> t \<Longrightarrow> sees t st' = (sees t st1)(ts_SessionID current :=
       if t < tp_ExpiresAt pair
       then Some (cloneSnapshot (snapshotFromPair (tokenSubject (ts_SessionID current) p) pair)) else None)"
    by (auto simp: snapshotFromPair_def token_subject.defs)
  show ?thesis
    by (rule that [OF ver(2,3,5) p inv']) (simp add: upd ver(6))
qed

lemma revoked_out:
  assumes "inv st" "op_RevokeUsers ops now subject ids st = (Inr (), st')"
    and "ae_Parse env token isRefresh = Inr cl" "ts_Subject cl = subject" "ts_UserID cl \<in> set ids"
    and "now \<le> ae_get env"
  shows "\<exists>e st''. auth_verify env ops token isRefresh st' = (Inl e, st'')"
proof (rule ccontr)
  assume "\<not> ?thesis"
  then obtain cl' current st'' where v: "auth_verify env ops token isRefresh st' = (Inr (cl', current), st'')"
    by (metis prod.exhaust sum.exhaust)
  have inv': "inv st'" and gone: "sees (ae_get env) st' = (\<lambda>sid. case sees (ae_get env) st sid of
      Some v \<Rightarrow> if is_target subject (set ids) v then None else Some v | None \<Rightarrow> None)"
    using revoke_users [OF assms(1,2)] assms(6) by (auto simp: is_target_def conj_commute)
  note ver = verify_ok [OF inv' v]
  have "ts_Subject current = subject" "ts_UserID current \<in> set ids"
    using ver(2,5) assms(3-5) by (auto simp: checkClaims_def split: if_splits)
  with ver(3) gone show False by (auto simp: is_target_def split: option.splits if_splits)
qed

end


section \<open>Paths and permissions\<close>

lemma http_methods_no_space: "m \<in> set http_methods \<Longrightarrow> CHR '' '' \<notin> set m"
  by (auto simp: http_methods_def)

lemma HTTPResource_ok:
  assumes "HTTPResource table meth p = Inr r"
  obtains m where "m = to_upper table (trim_space meth)" "m \<in> set http_methods" "r = m @ CHR '' '' # p"
    "validResourcePath p" "path_clean p = p"
  using assms by (auto simp: HTTPResource_def Let_def split: if_splits)

lemma decode_ascii: "fst (decode_rune (c # cs)) < 128 \<Longrightarrow> byte c < 128"
  by (auto simp: Let_def in_range_def rune_error_def split: if_splits list.splits)

lemma runes_ascii_bytes: "\<forall>r \<in> set (runes s). r < 128 \<Longrightarrow> map byte s = runes s"
proof (induction s)
  case (Cons c s)
  have "fst (decode_rune (c # s)) < 128"
    using Cons.prems runes.simps [of "c # s"] by (metis list.discI list.set_intros(1))
  then have "byte c < 128" by (rule decode_ascii)
  then have "runes (c # s) = byte c # runes s" by (rule runes_ascii)
  with Cons show ?case by simp
qed simp

lemma segment_runes_ascii: "segment_runes i rs \<Longrightarrow> r \<in> set rs \<Longrightarrow> r < 128 \<and> r \<noteq> 58 \<and> r \<noteq> 47"
  by (induction i rs rule: segment_runes.induct) (auto simp: in_range_def split: if_splits)

lemma validSegment_chars:
  assumes "validSegment s"
  shows "CHR '':'' \<notin> set s" "CHR ''/'' \<notin> set s"
proof -
  have runes: "\<And>r. r \<in> set (runes s) \<Longrightarrow> r < 128 \<and> r \<noteq> 58 \<and> r \<noteq> 47"
    using assms segment_runes_ascii by (auto simp: validSegment_def)
  then have "map byte s = runes s" using runes_ascii_bytes by blast
  then have bytes: "\<And>c. c \<in> set s \<Longrightarrow> byte c \<noteq> 58 \<and> byte c \<noteq> 47"
    using runes by (metis image_eqI list.set_map)
  show "CHR '':'' \<notin> set s" "CHR ''/'' \<notin> set s"
    using bytes [of "CHR '':''"] bytes [of "CHR ''/''"] by (auto simp: byte_def)
qed

lemma DerivePermission_split:
  assumes "DerivePermission p False = Inr permission" "permission \<noteq> []"
  shows "split_on CHR '':'' permission =
      split_on CHR ''/'' (trim_char CHR ''/'' (trim_prefix adminPathPrefix p))"
    and "has_prefix adminPathPrefix p"
proof -
  let ?segments = "split_on CHR ''/'' (trim_char CHR ''/'' (trim_prefix adminPathPrefix p))"
  have valid: "\<forall>s \<in> set ?segments. validSegment s" and perm: "permission = join '':'' ?segments"
    and "has_prefix adminPathPrefix p"
    using assms by (auto simp: DerivePermission_def Let_def list_ex_iff split: if_splits)
  then show "has_prefix adminPathPrefix p" by blast
  show "split_on CHR '':'' permission = ?segments"
    unfolding perm using valid validSegment_chars(1) by (intro split_on_join) auto
qed

section \<open>A sample run\<close>

text \<open>A codec whose tokens name their identifier, two clocks apart.\<close>

definition sample_snapshot :: snapshot where
  "sample_snapshot = \<lparr>ts_SessionID = ''s'', ts_Subject = AppKind, ts_UserID = 7, ts_Username = [],
     ts_RoleIDs = None, ts_PasswordV = 0, sn_AccessJTI = ''a'', sn_RefreshJTI = ''r'', sn_ExpiresAt = 100\<rparr>"

definition sample_claims :: "bool \<Rightarrow> claims" where
  "sample_claims refresh = \<lparr>ts_SessionID = ''s'', ts_Subject = AppKind, ts_UserID = 7, ts_Username = [],
     ts_RoleIDs = None, ts_PasswordV = 0, cm_JTI = (if refresh then ''r'' else ''a''), cm_IsRefresh = refresh,
     cm_IssuedAt = 1, cm_NotBefore = 1, cm_ExpiresAt = 100\<rparr>"

definition sample_pair :: token_pair where
  "sample_pair = \<lparr>tp_AccessToken = ''A2'', tp_RefreshToken = ''R2'', tp_AccessJTI = ''a2'',
     tp_RefreshJTI = ''r2'', tp_AccessExpiresAt = 50, tp_ExpiresAt = 120\<rparr>"

definition sample_env :: "gotime \<Rightarrow> auth_env" where
  "sample_env t = \<lparr>ae_Parse = (\<lambda>token refresh. Inr (sample_claims refresh)),
     ae_IssuePair = (\<lambda>s. Inr sample_pair), ae_newID = Inr ''s'',
     ae_get = t, ae_now = t, ae_check = t, ae_write = t\<rparr>"

lemma sample_identifiers [simp]:
  "validIdentifier ''s''" "validIdentifier ''a''" "validIdentifier ''r''" "validIdentifier ''a2''" "validIdentifier ''r2''"
  by (simp_all add: validIdentifier_def ascii_eval valid_utf8.simps rune_error_def)

lemma sample_store_ok: "sessions_ok [(''s'', sample_snapshot)]"
  by (auto simp: sessions_ok_def gomap_ok_def sample_snapshot_def cloneSnapshot_def copy_ids_def
      validateSnapshot_def validatePrincipal_def snapshot_principal_def split: if_splits
      intro!: exI [of _ "0::int"])


lemma live_valid:
  assumes "sessions_ok st" "live t st sid = Some v"
  shows "validIdentifier sid"
proof -
  have "map_of st sid = Some v" using assms(2) by (simp add: live_def split: option.splits if_splits)
  with assms(1) obtain t where "ts_SessionID v = sid" "validateSnapshot v t = Inr ()"
    unfolding sessions_ok_def by blast
  then show ?thesis by (auto simp: validateSnapshot_def split: if_splits)
qed

lemma Authorize_ok:
  assumes "Authorize ctx authorizer permission resource = Inr ()"
  obtains decide identity az where "authorizer = Some decide" "identityFromContext ctx = Some identity"
    "toAuthz identity permission resource = Inr az" "decide az = Inr True"
proof -
  obtain decide where d: "authorizer = Some decide"
    using assms by (cases authorizer) (simp_all add: Authorize_def)
  obtain identity where i: "identityFromContext ctx = Some identity"
    using assms d by (cases "identityFromContext ctx") (simp_all add: Authorize_def split: if_splits)
  obtain az where az: "toAuthz identity permission resource = Inr az"
    using assms d i by (cases "toAuthz identity permission resource") (simp_all add: Authorize_def split: if_splits)
  have "decide az = Inr True"
    using assms d i az by (cases "decide az") (simp_all add: Authorize_def split: if_splits)
  with d i az show ?thesis by (rule that)
qed

section \<open>Properties\<close>

text \<open>C18: an access token is accepted exactly when the codec accepts it and the session it names is
  alive now, belongs to the same identity, has the same password version (admin side), and
  has this very token as its current access token. The identity that the request then carries
  is the one stored in the session, not the one claimed by the token.\<close>

theorem access_exact:
  assumes "sessions_ok st" and "ae_Parse env token False = Inr cl" and "\<not> cm_IsRefresh cl"
    and "validIdentifier (ts_SessionID cl)" and "ae_get env \<le> ae_now env"
  shows "fst (auth_Access env (memory_store ContextOk) token ctx st) = Inr ctx' \<longleftrightarrow>
    (\<exists>current. live (ae_now env) st (ts_SessionID cl) = Some current \<and>
       ts_Subject current = ts_Subject cl \<and> ts_UserID current = ts_UserID cl \<and>
       (ts_Subject cl = AdminKind \<longrightarrow> ts_PasswordV current = ts_PasswordV cl) \<and>
       sn_AccessJTI current = cm_JTI cl \<and> ctx' = contextWithSession cl current ctx)"
proof -
  obtain st' where g: "store_Get ContextOk (ae_get env) (ts_SessionID cl) st =
      (Inr (live (ae_get env) st (ts_SessionID cl)), st')"
  proof -
    obtain got st' where 1: "store_Get ContextOk (ae_get env) (ts_SessionID cl) st = (got, st')" by fastforce
    obtain r where 2: "got = Inr r"
      using 1 assms(4) by (auto simp: store_Get_def contextError_def Let_def)
    show ?thesis using store_Get_spec [OF assms(1) 1] 1 2 by (intro that [of st']) simp
  qed
  have alive: "live (ae_now env) st (ts_SessionID cl) =
      (case live (ae_get env) st (ts_SessionID cl) of
         Some v \<Rightarrow> if ae_now env < sn_ExpiresAt v then Some v else None | None \<Rightarrow> None)"
    using assms(5) by (auto simp: live_def split: option.splits)
  have sid: "\<And>t v. live t st (ts_SessionID cl) = Some v \<Longrightarrow> ts_SessionID v = ts_SessionID cl"
    using live_ok [OF assms(1)] by blast
  show ?thesis
  proof (cases "live (ae_get env) st (ts_SessionID cl)")
    case None
    with assms(2) g alive show ?thesis by (simp add: auth_Access_def auth_verify_def memory_store_def)
  next
    case (Some current)
    with assms(2,3) g alive sid [OF Some] show ?thesis
      by (auto simp: auth_Access_def auth_verify_def memory_store_def checkClaims_def split: if_splits)
  qed
qed

theorem access_exact_witness:
  "\<exists>ctx'. fst (auth_Access (sample_env 10) (memory_store ContextOk) ''t'' \<lparr>cx_identity = None, cx_session = None\<rparr>
     [(''s'', sample_snapshot)]) = Inr ctx'"
proof -
  have "fst (auth_Access (sample_env 10) (memory_store ContextOk) ''t'' \<lparr>cx_identity = None, cx_session = None\<rparr>
      [(''s'', sample_snapshot)]) =
    Inr (contextWithSession (sample_claims False) sample_snapshot \<lparr>cx_identity = None, cx_session = None\<rparr>)"
    by (subst access_exact [OF sample_store_ok, of _ _ "sample_claims False"])
      (simp_all add: sample_env_def sample_claims_def sample_snapshot_def live_def)
  then show ?thesis by blast
qed

text \<open>C6: a refresh token is good for one rotation. However the operations of concurrent requests
  interleave at the store, among all rotations of a session that present the same refresh
  token at most one succeeds, as long as no operation installs that token's identifier again.\<close>

theorem refresh_rotates_once:
  assumes "sessions_ok st" and "sorted (map (snd \<circ> fst) calls)"
    and "\<And>t c. (t, c) \<in> set calls \<Longrightarrow> \<not> installs sid jti c"
  shows "rotations (memory_store ctx) sid jti calls st \<le> 1"
  using assms by (intro mem_store.rotations_once) auto

theorem refresh_rotates_once_witness:
  "rotations (memory_store ContextOk) ''s'' ''r''
     [((5, 5), CallRotate ''s'' ''r'' (sample_snapshot\<lparr>sn_RefreshJTI := ''r2''\<rparr>)),
      ((5, 6), CallRotate ''s'' ''r'' (sample_snapshot\<lparr>sn_RefreshJTI := ''r3''\<rparr>))]
     [(''s'', sample_snapshot)] \<le> 1"
  by (rule refresh_rotates_once [OF sample_store_ok]) auto

text \<open>C37: replaying a refresh token ends the session. After a refresh with a token succeeded and the
  codec issued a new refresh token, presenting the old one again is refused, and the session
  is gone from the store at every later instant, so that the newly issued tokens are dead too.\<close>

theorem replay_ends_session:
  assumes "sessions_ok st" and "auth_RefreshWith env (memory_store c) resolve token st = (Inr pair, st1)"
    and "ae_Parse env token True = Inr cl" and "ae_Parse env' token True = Inr cl" and "cm_IsRefresh cl"
    and "tp_RefreshJTI pair \<noteq> cm_JTI cl"
    and "ae_get env \<le> ae_get env'" and "ae_write env \<le> ae_get env'" and "ae_get env' \<le> ae_now env'"
    and "ae_now env' < tp_ExpiresAt pair"
    and "auth_RefreshWith env' (memory_store ContextOk) (Some resolve') token st1 = (res, st2)"
  shows "res = Inl unauthErr \<and> live t st2 (ts_SessionID cl) = None"
proof -
  obtain cl' current p where cl': "ae_Parse env token True = Inr cl'"
    and cur': "live (ae_get env) st (ts_SessionID cl') = Some current" "checkClaims cl' current = Inr ()"
    and "validatePrincipal p = Inr ()" "pr_Subject p = ts_Subject current" "pr_UserID p = ts_UserID current"
    and ok1: "sessions_ok st1"
    and upd': "\<And>t. ae_get env \<le> t \<Longrightarrow> ae_write env \<le> t \<Longrightarrow> live t st1 = (live t st)(ts_SessionID current :=
       if t < tp_ExpiresAt pair
       then Some (cloneSnapshot (snapshotFromPair (tokenSubject (ts_SessionID current) p) pair)) else None)"
    by (rule mem_store.refresh_ok [OF assms(1,2)]) blast
  have cur: "live (ae_get env) st (ts_SessionID cl) = Some current" using cl' cur'(1) assms(3) by simp
  note upd = upd' [OF assms(7,8)]
  let ?v = "cloneSnapshot (snapshotFromPair (tokenSubject (ts_SessionID current) p) pair)"
  have sid: "ts_SessionID current = ts_SessionID cl" using live_ok [OF assms(1) cur(1)] by simp
  have stored: "live (ae_get env') st1 (ts_SessionID cl) = Some ?v"
    using upd sid assms(9,10) by simp
  have jti: "sn_RefreshJTI ?v = tp_RefreshJTI pair" "sn_ExpiresAt ?v = tp_ExpiresAt pair"
    by (simp_all add: snapshotFromPair_def token_subject.defs)
  have valid: "validIdentifier (ts_SessionID cl)" using ok1 stored by (rule live_valid)
  obtain got st1' where g: "store_Get ContextOk (ae_get env') (ts_SessionID cl) st1 = (got, st1')" by fastforce
  have got: "got = Inr (Some ?v)" "sessions_ok st1'"
    using store_Get_spec [OF ok1 g] g valid stored
    by (auto simp: store_Get_def contextError_def Let_def)
  have "checkClaims cl ?v = Inl ErrInvalidCredential"
    using assms(5,6) jti(1) by (auto simp: checkClaims_def)
  moreover have "ts_SessionID cl \<noteq> []" using valid by (simp add: validIdentifier_def)
  ultimately have "auth_RefreshWith env' (memory_store ContextOk) (Some resolve') token st1 =
      (Inl unauthErr, mdel (ts_SessionID cl) st1')"
    using assms(4,6,10) g got(1) jti valid
    by (simp add: auth_RefreshWith_def auth_verify_def memory_store_def auth_revokeReplay_def
        store_Revoke_def contextError_def)
  with assms(11) show ?thesis by auto
qed

theorem replay_ends_session_witness:
  "\<exists>st1 st2. auth_RefreshWith (sample_env 10) (memory_store ContextOk) (Some Inr) ''t'' [(''s'', sample_snapshot)] =
      (Inr sample_pair, st1) \<and>
    auth_RefreshWith (sample_env 20) (memory_store ContextOk) (Some Inr) ''t'' st1 = (Inl unauthErr, st2) \<and>
    live 20 st2 ''s'' = None"
proof -
  obtain st1 where one: "auth_RefreshWith (sample_env 10) (memory_store ContextOk) (Some Inr) ''t'' [(''s'', sample_snapshot)] =
      (Inr sample_pair, st1)"
    by (simp add: auth_RefreshWith_def auth_verify_def auth_rotate_def memory_store_def sample_env_def
        store_Get_def store_RotateRefresh_def contextError_def cleanupExpired_def sample_snapshot_def
        sample_claims_def sample_pair_def checkClaims_def toPrincipal_def validatePrincipal_def
        validateSnapshot_def snapshot_principal_def snapshotFromPair_def tokenSubject_def
        token_subject.defs cloneSnapshot_def copy_ids_def Let_def)
  obtain res st2 where two: "auth_RefreshWith (sample_env 20) (memory_store ContextOk) (Some Inr) ''t'' st1 = (res, st2)"
    by fastforce
  have "res = Inl unauthErr \<and> live 20 st2 (ts_SessionID (sample_claims True)) = None"
    by (rule replay_ends_session [OF sample_store_ok one _ _ _ _ _ _ _ _ two])
      (simp_all add: sample_env_def sample_claims_def sample_pair_def)
  with one two show ?thesis by (simp add: sample_claims_def)
qed


text \<open>changing a user's grants locks the user out at once. When locking and revoking succeeds, all
  users named existed, and from then on no token of any of them with that kind of identity is
  accepted, neither for access nor for a refresh.\<close>

theorem revoked_users_locked_out:
  assumes "sessions_ok st"
    and "LockUsersAndRevoke now lock (memory_store c) table userIDs subject message st = (Inr (), st')"
    and "ae_Parse env token isRefresh = Inr cl" and "ts_Subject cl = subject"
    and "ts_UserID cl \<in> set userIDs" and "ts_UserID cl \<noteq> 0" and "now \<le> ae_get env"
  shows "(\<exists>locked. lock table (NormalizeIDs userIDs) = Inr locked \<and> set locked = set userIDs - {0}) \<and>
    (\<exists>e st''. auth_verify env (memory_store c) token isRefresh st' = (Inl e, st''))"
proof -
  let ?ids = "NormalizeIDs userIDs"
  have in_ids: "ts_UserID cl \<in> set ?ids" using assms(5,6) by simp
  then have ne: "?ids \<noteq> []" by (metis list.set(1) emptyE)
  have again: "NormalizeIDs ?ids = ?ids"
    using NormalizeIDs_sorted [of userIDs] set_NormalizeIDs [of userIDs]
    by (simp add: NormalizeIDs_def sorted_sort_id remdups_adj_distinct filter_id_conv)
  have lock: "LockTable lock table ?ids message = Inr ()"
    and rev: "op_RevokeUsers (memory_store c) now subject ?ids st = (Inr (), st')"
    using assms(2) ne by (auto simp: LockUsersAndRevoke_def Let_def split: sum.splits prod.splits)
  have "lock table ?ids = Inr ?ids"
    using lock ne by (auto simp: LockTable_def again Let_def split: sum.splits if_splits)
  moreover have "\<exists>e st''. auth_verify env (memory_store c) token isRefresh st' = (Inl e, st'')"
    using assms(1) rev assms(3,4) in_ids assms(7) by (rule mem_store.revoked_out)
  ultimately show ?thesis by simp
qed

theorem revoked_users_locked_out_witness:
  "\<exists>st' e st''. LockUsersAndRevoke 10 (\<lambda>table ids. Inr ids) (memory_store ContextOk) ''user'' [7] AppKind ''m''
      [(''s'', sample_snapshot)] = (Inr (), st') \<and>
    auth_verify (sample_env 10) (memory_store ContextOk) ''t'' False st' = (Inl e, st'')"
proof -
  obtain st' where one: "LockUsersAndRevoke 10 (\<lambda>table ids. Inr ids) (memory_store ContextOk) ''user'' [7] AppKind ''m''
      [(''s'', sample_snapshot)] = (Inr (), st')"
    by (simp add: LockUsersAndRevoke_def LockTable_def NormalizeIDs_def memory_store_def store_RevokeUsers_def
        contextError_def revokeUserSet_def Let_def)
  have "ae_Parse (sample_env 10) ''t'' False = Inr (sample_claims False)" "10 \<le> ae_get (sample_env 10)"
    "ts_Subject (sample_claims False) = AppKind" "ts_UserID (sample_claims False) \<in> set [7]"
    "ts_UserID (sample_claims False) \<noteq> 0"
    by (simp_all add: sample_env_def sample_claims_def)
  from revoked_users_locked_out [OF sample_store_ok one this(1,3,4,5,2)]
  obtain e st'' where "auth_verify (sample_env 10) (memory_store ContextOk) ''t'' False st' = (Inl e, st'')"
    by blast
  with one show ?thesis by blast
qed

text \<open>a request that needs a permission enters only with consent. If a protocol entry that does not
  ignore tokens and names a permission lets a request through, then its resource was
  normalised, its token belongs to a live session, the request carries the identity of that
  session, and the authorizer allowed this very user, permission and resource.\<close>

theorem protected_entry_authorized:
  assumes "sessions_ok st" and "trim_space permission \<noteq> []"
    and "authProtocol env (memory_store c) authorizer ctx token permission False resource st = (Inr ctx', st')"
  shows "\<exists>cl current decide built. ae_Parse env token False = Inr cl \<and>
    live (ae_get env) st (ts_SessionID cl) = Some current \<and> ae_now env < sn_ExpiresAt current \<and>
    checkClaims cl current = Inr () \<and> ctx' = contextWithSession cl current ctx \<and>
    resource = Inr built \<and> authorizer = Some decide \<and>
    decide \<lparr>az_Subject = (if ts_Subject current = AdminKind then AdminKind else AppKind),
      az_SubjectID = ts_UserID current, az_Permission = permission, az_Resource = built\<rparr> = Inr True"
proof -
  obtain built st1 where built: "resource = Inr built"
    and acc: "auth_Access env (memory_store c) token ctx st = (Inr ctx', st1)"
    and ok: "Authorize (Some ctx') authorizer permission built = Inr ()"
    using assms(2,3)
    by (auto simp: authProtocol_def auth_Authenticate_def split: if_splits sum.splits prod.splits)
  obtain cl current where *: "ae_Parse env token False = Inr cl"
      "live (ae_get env) st (ts_SessionID cl) = Some current" "ae_now env < sn_ExpiresAt current"
      "checkClaims cl current = Inr ()" "ctx' = contextWithSession cl current ctx"
    by (rule mem_store.access_ok [OF assms(1) acc]) blast
  have "ts_Subject cl = ts_Subject current" using *(4) by (auto simp: checkClaims_def split: if_splits)
  then have id: "\<exists>i. identityFromContext (Some ctx') = Some i \<and>
      vi_subject i = (if ts_Subject current = AdminKind then AdminKind else AppKind) \<and>
      (if ts_Subject current = AdminKind then ai_UserID (vi_admin i) else vi_app i) = ts_UserID current"
    by (simp add: *(5) identityFromContext_def contextWithSession_def withSession_def withAdmin_def
        withApp_def newAdminIdentity_def Let_def)
  obtain decide identity az where d: "authorizer = Some decide" "identityFromContext (Some ctx') = Some identity"
      "toAuthz identity permission built = Inr az" "decide az = Inr True"
    using ok by (rule Authorize_ok)
  have "az = \<lparr>az_Subject = (if ts_Subject current = AdminKind then AdminKind else AppKind),
      az_SubjectID = ts_UserID current, az_Permission = permission, az_Resource = built\<rparr>"
    using id d(2,3) by (auto simp: toAuthz_def Let_def split: if_splits)
  with * built d show ?thesis by blast
qed

theorem protected_entry_authorized_witness:
  "\<exists>ctx' st'. authProtocol (sample_env 10) (memory_store ContextOk) (Some (\<lambda>az. Inr (az_SubjectID az = 7)))
      \<lparr>cx_identity = None, cx_session = None\<rparr> ''t'' ''order'' False (Inr ''/order'') [(''s'', sample_snapshot)] =
      (Inr ctx', st') \<and> ctx' = contextWithSession (sample_claims False) sample_snapshot \<lparr>cx_identity = None, cx_session = None\<rparr>"
proof -
  have trim: "trim_space ''order'' = ''order''" "trim_space ''/order'' = ''/order''"
    by (simp_all add: ascii_eval)
  obtain ctx' st' where one: "authProtocol (sample_env 10) (memory_store ContextOk) (Some (\<lambda>az. Inr (az_SubjectID az = 7)))
      \<lparr>cx_identity = None, cx_session = None\<rparr> ''t'' ''order'' False (Inr ''/order'') [(''s'', sample_snapshot)] =
      (Inr ctx', st')"
    by (simp add: authProtocol_def auth_Authenticate_def auth_Access_def auth_verify_def memory_store_def
        store_Get_def contextError_def cleanupExpired_def sample_env_def sample_snapshot_def sample_claims_def
        cloneSnapshot_def copy_ids_def checkClaims_def trim Authorize_def identityFromContext_def
        contextWithSession_def withSession_def withApp_def toAuthz_def Let_def)
  have t: "trim_space ''order'' \<noteq> []" by (simp add: trim)
  from protected_entry_authorized [OF sample_store_ok t one]
  have "ctx' = contextWithSession (sample_claims False) sample_snapshot \<lparr>cx_identity = None, cx_session = None\<rparr>"
    by (auto simp: sample_env_def live_def sample_claims_def split: if_splits)
  with one show ?thesis by blast
qed

text \<open>resources are canonical. A resource built for an HTTP request is a known method, one space
  and the path, where the path is the root or has no empty, dot or dot-dot segment; and two
  requests have the same resource only if they have the same path.\<close>

theorem http_resource_canonical:
  assumes "HTTPResource table meth p = Inr r" and "HTTPResource table meth' p' = Inr r'"
  shows "(r = r' \<longleftrightarrow> to_upper table (trim_space meth) = to_upper table (trim_space meth') \<and> p = p') \<and>
    to_upper table (trim_space meth) \<in> set http_methods \<and>
    (p = ''/'' \<or> list_all proper_segment (tl (split_on CHR ''/'' p)))"
proof -
  obtain m where m: "m = to_upper table (trim_space meth)" "m \<in> set http_methods" "r = m @ CHR '' '' # p"
      "validResourcePath p" "path_clean p = p"
    using assms(1) by (rule HTTPResource_ok)
  obtain m' where m': "m' = to_upper table (trim_space meth')" "m' \<in> set http_methods" "r' = m' @ CHR '' '' # p'"
    using assms(2) by (rule HTTPResource_ok)
  have "takeWhile (\<lambda>x. x \<noteq> CHR '' '') r = m" "takeWhile (\<lambda>x. x \<noteq> CHR '' '') r' = m'"
    unfolding m(3) m'(3) using http_methods_no_space [OF m(2)] http_methods_no_space [OF m'(2)]
    by (auto simp: takeWhile_tail takeWhile_append2)
  then have "r = r' \<longleftrightarrow> m = m' \<and> p = p'" using m(3) m'(3) by auto
  moreover have "has_prefix ''/'' p" using m(4) by (simp add: validResourcePath_def)
  ultimately show ?thesis using m m'(1) path_clean_proper by blast
qed

theorem http_resource_canonical_witness:
  "HTTPResource (\<lambda>r. r) ''get'' ''/a/b'' = Inr ''GET /a/b'' \<and> list_all proper_segment (tl (split_on CHR ''/'' ''/a/b''))"
proof -
  have r: "HTTPResource (\<lambda>r. r) ''get'' ''/a/b'' = Inr ''GET /a/b''"
    by (simp add: HTTPResource_def to_upper_def upper_ascii_def encode_rune_def ascii_eval char_eval
        http_methods_def validResourcePath_def path_clean_def has_prefix_def)
  from http_resource_canonical [OF r r] show ?thesis using r by simp
qed

text \<open>derived permissions identify routes. Two admin routes that need a token and derive the same
  nonempty permission are the same path up to slashes at its ends.\<close>

theorem permission_identifies_route:
  assumes "DerivePermission p False = Inr permission" and "DerivePermission p' False = Inr permission"
    and "permission \<noteq> []"
  shows "trim_char CHR ''/'' (trim_prefix adminPathPrefix p) = trim_char CHR ''/'' (trim_prefix adminPathPrefix p') \<and>
    has_prefix adminPathPrefix p \<and> has_prefix adminPathPrefix p'"
  using DerivePermission_split [OF assms(1,3)] DerivePermission_split [OF assms(2,3)] join_split_on by metis

theorem permission_identifies_route_witness:
  "DerivePermission ''/admin/base/user/add'' False = Inr ''base:user:add'' \<and>
   has_prefix adminPathPrefix ''/admin/base/user/add''"
proof -
  have r: "DerivePermission ''/admin/base/user/add'' False = Inr ''base:user:add''"
    by (simp add: DerivePermission_def adminPathPrefix_def adminDictDataPath_def has_prefix_def trim_prefix_def
        trim_char_def validSegment_def ascii_eval Let_def)
  from permission_identifies_route [OF r r] r show ?thesis by simp
qed

end
