(* ===== verification/Auth_Wire.thy ===== *)
theory Auth_Wire
  imports Auth_Session
begin

text \<open>
  The versioned wire format of a session (\<open>encode\<close> and \<open>decode\<close> of \<open>cool-next/auth/store.go\<close>).
  The text of a JSON document and its tree are identified; what \<open>encoding/json\<close> does between
  the tree and the Go struct is modelled: field names, omitted nil pointers, coercion of
  invalid UTF-8, the null and type rules of \<open>Unmarshal\<close>, and that a key that is no exact
  field name still matches a field whose folded name is equal (\<open>folded\<close> is the folding).
\<close>

section \<open>JSON\<close>

datatype json =
    JNull
  | JInt int
  | JString string
  | JArray "json list"
  | JObject "(string \<times> json) list"
  | JOther string

record wire_session =
  ws_SchemaVersion :: int
  ws_SessionID :: string
  ws_Subject :: kind
  ws_UserID :: string
  ws_Username :: "string option"
  ws_RoleIDs :: "string list option"
  ws_PasswordV :: "int option"
  ws_AccessJTI :: string
  ws_RefreshJTI :: string
  ws_ExpiresAt :: int

definition zero_wire :: wire_session where
  "zero_wire = \<lparr>ws_SchemaVersion = 0, ws_SessionID = [], ws_Subject = [], ws_UserID = [], ws_Username = None,
     ws_RoleIDs = None, ws_PasswordV = None, ws_AccessJTI = [], ws_RefreshJTI = [], ws_ExpiresAt = 0\<rparr>"

definition json_text :: "string \<Rightarrow> json" where
  "json_text s = JString (concat (map encode_rune (runes s)))"

definition marshal :: "wire_session \<Rightarrow> json" where
  "marshal w = JObject (
    [(''schemaVersion'', JInt (ws_SchemaVersion w)), (''sessionId'', json_text (ws_SessionID w)),
     (''subject'', json_text (ws_Subject w)), (''userId'', json_text (ws_UserID w))] @
    (case ws_Username w of None \<Rightarrow> [] | Some s \<Rightarrow> [(''username'', json_text s)]) @
    (case ws_RoleIDs w of None \<Rightarrow> [] | Some rs \<Rightarrow> [(''roleIds'', JArray (map json_text rs))]) @
    (case ws_PasswordV w of None \<Rightarrow> [] | Some n \<Rightarrow> [(''passwordV'', JInt n)]) @
    [(''accessJti'', json_text (ws_AccessJTI w)), (''refreshJti'', json_text (ws_RefreshJTI w)),
     (''expiresAt'', JInt (ws_ExpiresAt w))])"

definition wire_names :: "string list" where
  "wire_names = [''schemaVersion'', ''sessionId'', ''subject'', ''userId'', ''username'', ''roleIds'',
     ''passwordV'', ''accessJti'', ''refreshJti'', ''expiresAt'']"

definition field_of :: "(string \<Rightarrow> string) \<Rightarrow> string \<Rightarrow> string option" where
  "field_of folded key = (if key \<in> set wire_names then Some key else find (\<lambda>n. folded n = folded key) wire_names)"

definition json_int :: "json \<Rightarrow> int option" where
  "json_int j = (case j of JInt n \<Rightarrow> if - (2 ^ 63) \<le> n \<and> n < 2 ^ 63 then Some n else None | _ \<Rightarrow> None)"

definition json_string :: "json \<Rightarrow> string option" where
  "json_string j = (case j of JString s \<Rightarrow> Some s | _ \<Rightarrow> None)"

fun json_strings :: "json list \<Rightarrow> string list option" where
  "json_strings [] = Some []"
| "json_strings (j # js) =
    (case (if j = JNull then Some [] else json_string j, json_strings js) of
       (Some s, Some ss) \<Rightarrow> Some (s # ss) | _ \<Rightarrow> None)"

text \<open>
  Assigning one field. A null leaves a plain field alone and clears a pointer; \<open>None\<close> is a type
  error, after which \<open>Unmarshal\<close> fails.
\<close>

definition assign_field :: "string \<Rightarrow> json \<Rightarrow> wire_session \<Rightarrow> wire_session option" where
  "assign_field f j w =
    (if f = ''username'' then
       (if j = JNull then Some (w\<lparr>ws_Username := None\<rparr>)
        else map_option (\<lambda>s. w\<lparr>ws_Username := Some s\<rparr>) (json_string j))
     else if f = ''roleIds'' then
       (case j of JNull \<Rightarrow> Some (w\<lparr>ws_RoleIDs := None\<rparr>)
        | JArray js \<Rightarrow> map_option (\<lambda>ss. w\<lparr>ws_RoleIDs := Some ss\<rparr>) (json_strings js) | _ \<Rightarrow> None)
     else if f = ''passwordV'' then
       (if j = JNull then Some (w\<lparr>ws_PasswordV := None\<rparr>)
        else map_option (\<lambda>n. w\<lparr>ws_PasswordV := Some n\<rparr>) (json_int j))
     else if j = JNull then Some w
     else if f = ''schemaVersion'' then map_option (\<lambda>n. w\<lparr>ws_SchemaVersion := n\<rparr>) (json_int j)
     else if f = ''expiresAt'' then map_option (\<lambda>n. w\<lparr>ws_ExpiresAt := n\<rparr>) (json_int j)
     else if f = ''sessionId'' then map_option (\<lambda>s. w\<lparr>ws_SessionID := s\<rparr>) (json_string j)
     else if f = ''subject'' then map_option (\<lambda>s. w\<lparr>ws_Subject := s\<rparr>) (json_string j)
     else if f = ''userId'' then map_option (\<lambda>s. w\<lparr>ws_UserID := s\<rparr>) (json_string j)
     else if f = ''accessJti'' then map_option (\<lambda>s. w\<lparr>ws_AccessJTI := s\<rparr>) (json_string j)
     else map_option (\<lambda>s. w\<lparr>ws_RefreshJTI := s\<rparr>) (json_string j))"

fun unmarshal_fields ::
  "(string \<Rightarrow> string) \<Rightarrow> (string \<times> json) list \<Rightarrow> wire_session \<Rightarrow> wire_session option" where
  "unmarshal_fields folded [] w = Some w"
| "unmarshal_fields folded ((key, j) # rest) w =
    (case field_of folded key of
       None \<Rightarrow> unmarshal_fields folded rest w
     | Some f \<Rightarrow> (case assign_field f j w of None \<Rightarrow> None | Some w' \<Rightarrow> unmarshal_fields folded rest w'))"

text \<open>Both calls of \<open>Unmarshal\<close>: the set of keys and the struct. A null document is no error.\<close>

definition unmarshal :: "(string \<Rightarrow> string) \<Rightarrow> json \<Rightarrow> (string set \<times> wire_session) option" where
  "unmarshal folded content =
    (case content of
       JNull \<Rightarrow> Some ({}, zero_wire)
     | JObject members \<Rightarrow> map_option (\<lambda>w. (fst ` set members, w)) (unmarshal_fields folded members zero_wire)
     | _ \<Rightarrow> None)"

section \<open>Encoding and decoding\<close>

definition unix_epoch :: gotime where
  "unix_epoch = 62135596800 * 1000000000"

definition UnixMilli :: "gotime \<Rightarrow> int" where
  "UnixMilli t = (t - unix_epoch) div 1000000"

definition time_UnixMilli :: "int \<Rightarrow> gotime" where
  "time_UnixMilli ms = ms * 1000000 + unix_epoch"

definition schemaVersion :: int where
  "schemaVersion = 1"

definition encode_wire :: "snapshot \<Rightarrow> wire_session" where
  "encode_wire v =
    (let w = \<lparr>ws_SchemaVersion = schemaVersion, ws_SessionID = ts_SessionID v, ws_Subject = ts_Subject v,
           ws_UserID = format_uint (unat (ts_UserID v)), ws_Username = None, ws_RoleIDs = None, ws_PasswordV = None,
           ws_AccessJTI = sn_AccessJTI v, ws_RefreshJTI = sn_RefreshJTI v,
           ws_ExpiresAt = UnixMilli (sn_ExpiresAt v)\<rparr>
     in if ts_Subject v = AdminKind
        then w\<lparr>ws_Username := Some (ts_Username v),
               ws_RoleIDs := Some (map (\<lambda>r. format_uint (unat r)) (case ts_RoleIDs v of None \<Rightarrow> [] | Some rs \<Rightarrow> rs)),
               ws_PasswordV := Some (ts_PasswordV v)\<rparr>
        else w)"

definition session_encode :: "snapshot \<Rightarrow> gotime \<Rightarrow> (go_error, json) result" where
  "session_encode v now = bindE (validateSnapshot v now) (\<lambda>_. Inr (marshal (encode_wire v)))"

definition parseUint64 :: "string \<Rightarrow> string \<Rightarrow> (go_error, u64) result" where
  "parseUint64 field value =
    (if value = [] then Inl (core (field @ '' empty''))
     else (case parse_uint value of
         None \<Rightarrow> Inl (core (field @ '' invalid''))
       | Some n \<Rightarrow> if format_uint n \<noteq> value then Inl (core (field @ '' invalid'')) else Inr (of_nat n)))"

definition session_decode ::
  "(string \<Rightarrow> string) \<Rightarrow> json \<Rightarrow> string \<Rightarrow> string \<Rightarrow> gotime \<Rightarrow> (go_error, snapshot) result" where
  "session_decode folded content expectedKey prefix now =
    (case unmarshal folded content of
       None \<Rightarrow> Inl (core ''session json invalid'')
     | Some (members, w) \<Rightarrow>
    (if ws_SchemaVersion w \<noteq> schemaVersion then Inl (core ''session schema'')
     else if expectedKey \<noteq> [] \<and> expectedKey \<noteq> prefix @ ws_SessionID w then Inl (core ''session key mismatch'')
     else bindE (parseUint64 ''userId'' (ws_UserID w)) (\<lambda>userID.
       let v = \<lparr>ts_SessionID = ws_SessionID w, ts_Subject = ws_Subject w, ts_UserID = userID,
             ts_Username = [], ts_RoleIDs = None, ts_PasswordV = 0, sn_AccessJTI = ws_AccessJTI w,
             sn_RefreshJTI = ws_RefreshJTI w, sn_ExpiresAt = time_UnixMilli (ws_ExpiresAt w)\<rparr>
       in bindE
         (if ws_Subject w = AdminKind then
            (case (ws_Username w, ws_RoleIDs w, ws_PasswordV w) of
               (Some username, Some roles, Some passwordV) \<Rightarrow>
                 bindE (mapE (parseUint64 ''roleIds'') roles) (\<lambda>roleIDs.
                   Inr (v\<lparr>ts_Username := username, ts_PasswordV := passwordV, ts_RoleIDs := Some roleIDs\<rparr>))
             | _ \<Rightarrow> Inl (core ''admin session incomplete''))
          else if ws_Subject w = AppKind then
            (if ''username'' \<in> members \<or> ''roleIds'' \<in> members \<or> ''passwordV'' \<in> members
             then Inl (core ''app session has admin members'') else Inr v)
          else Inl (core ''session kind invalid''))
         (\<lambda>v. if \<not> now < sn_ExpiresAt v then Inl errExpired
              else bindE (validateSnapshot v now) (\<lambda>_. Inr v)))))"

section \<open>Lemmas\<close>

lemma parseUint64_format [simp]: "parseUint64 f (format_uint (unat x)) = Inr (x :: u64)"
proof -
  have "unat x < 2 ^ 64" using unsigned_less [of x] by simp
  then show ?thesis by (simp add: parseUint64_def parse_format_uint)
qed

lemma mapE_parse_format [simp]:
  "mapE (parseUint64 f) (map (\<lambda>r. format_uint (unat r)) rs) = Inr (rs :: u64 list)"
  by (induction rs) simp_all

lemma digits_runes:
  "list_all is_digit s \<Longrightarrow> concat (map encode_rune (runes s)) = s"
proof (induction s)
  case (Cons c s)
  then have b: "byte c < 128" by (simp add: is_digit_def in_range_def)
  with Cons show ?case by (simp add: runes_ascii encode_rune_def char_of_byte)
qed simp

lemma json_text_format [simp]: "json_text (format_uint n) = JString (format_uint n)"
  by (simp add: json_text_def digits_runes format_uint_digits)

lemma json_text_valid: "valid_utf8 s \<Longrightarrow> json_text s = JString s"
  by (simp add: json_text_def runes_encode)

lemma json_strings_format [simp]:
  "json_strings (map (json_text \<circ> (\<lambda>r. format_uint (unat r))) rs) = Some (map (\<lambda>r. format_uint (unat r)) rs)"
  by (induction rs) (simp_all add: json_string_def)

lemma validIdentifier_utf8: "validIdentifier s \<Longrightarrow> valid_utf8 s"
  by (simp add: validIdentifier_def)

lemma field_of_name: "n \<in> set wire_names \<Longrightarrow> field_of folded n = Some n"
  by (simp add: field_of_def)

lemma kind_text [simp]: "json_text AdminKind = JString AdminKind" "json_text AppKind = JString AppKind"
  by (simp_all add: json_text_def AdminKind_def AppKind_def ascii_eval encode_rune_def char_eval)

text \<open>What a session becomes when it is stored and read back: its end is cut to milliseconds, and an
  administrator without roles has an empty list of them.\<close>

definition stored_form :: "snapshot \<Rightarrow> snapshot" where
  "stored_form v = v\<lparr>sn_ExpiresAt := time_UnixMilli (UnixMilli (sn_ExpiresAt v)),
     ts_RoleIDs := (if ts_Subject v = AdminKind then Some (case ts_RoleIDs v of None \<Rightarrow> [] | Some rs \<Rightarrow> rs)
       else ts_RoleIDs v)\<rparr>"

lemma time_UnixMilli_le: "time_UnixMilli (UnixMilli t) \<le> t" "t < time_UnixMilli (UnixMilli t) + 1000000"
  by (simp_all add: time_UnixMilli_def UnixMilli_def)


lemma unmarshal_marshal:
  assumes "valid_utf8 (ws_SessionID w)" "valid_utf8 (ws_AccessJTI w)" "valid_utf8 (ws_RefreshJTI w)"
    and "ws_Subject w \<in> {AdminKind, AppKind}" "valid_utf8 (ws_UserID w)"
    and "\<And>s. ws_Username w = Some s \<Longrightarrow> valid_utf8 s"
    and "\<And>rs. ws_RoleIDs w = Some rs \<Longrightarrow> json_strings (map json_text rs) = Some rs"
    and "\<And>n. ws_PasswordV w = Some n \<Longrightarrow> - (2 ^ 63) \<le> n \<and> n < 2 ^ 63"
    and "- (2 ^ 63) \<le> ws_ExpiresAt w" "ws_ExpiresAt w < 2 ^ 63" "ws_SchemaVersion w = schemaVersion"
  shows "\<exists>members. unmarshal folded (marshal w) = Some (members, w) \<and>
    (''username'' \<in> members \<longleftrightarrow> ws_Username w \<noteq> None) \<and> (''roleIds'' \<in> members \<longleftrightarrow> ws_RoleIDs w \<noteq> None) \<and>
    (''passwordV'' \<in> members \<longleftrightarrow> ws_PasswordV w \<noteq> None)"
proof -
  have names: "field_of folded n = Some n" if "n \<in> set wire_names" for n
    using that by (rule field_of_name)
  have subj: "json_text (ws_Subject w) = JString (ws_Subject w)" using assms(4) by auto
  note simps = unmarshal_def marshal_def names wire_names_def zero_wire_def assign_field_def
    json_string_def json_int_def json_text_valid schemaVersion_def subj
  show ?thesis
    using assms by (cases "ws_Username w"; cases "ws_RoleIDs w"; cases "ws_PasswordV w")
      (auto simp: simps)
qed

lemma valid_utf8_format [simp]: "valid_utf8 (format_uint n)"
proof -
  have "valid_utf8 s" if "list_all is_digit s" for s
    using that
  proof (induction s)
    case (Cons c s)
    then have "byte c < 128" by (simp add: is_digit_def in_range_def)
    with Cons show ?case by (simp add: valid_utf8.simps [of "c # s"] rune_error_def)
  qed (simp add: valid_utf8.simps)
  then show ?thesis using format_uint_digits by blast
qed

lemma stored_form_valid:
  assumes "validateSnapshot v now = Inr ()" "now < time_UnixMilli (UnixMilli (sn_ExpiresAt v))"
    and "time_UnixMilli (UnixMilli (sn_ExpiresAt v)) \<noteq> 0"
  shows "validateSnapshot (stored_form v) now = Inr ()"
  using assms by (auto simp: validateSnapshot_def validatePrincipal_def snapshot_principal_def stored_form_def
      split: if_splits option.splits)

definition wire_sample :: snapshot where
  "wire_sample = \<lparr>ts_SessionID = ''s'', ts_Subject = AdminKind, ts_UserID = 7, ts_Username = ''bob'',
     ts_RoleIDs = Some [1, 2], ts_PasswordV = 3, sn_AccessJTI = ''a'', sn_RefreshJTI = ''r'',
     sn_ExpiresAt = 5001234567\<rparr>"

lemma wire_sample_valid: "validateSnapshot wire_sample 17 = Inr ()" "valid_utf8 (ts_Username wire_sample)"
  by (simp_all add: wire_sample_def validateSnapshot_def validIdentifier_def validatePrincipal_def
      snapshot_principal_def ascii_eval valid_utf8.simps rune_error_def)

lemma wire_sample_bounds:
  "0 \<le> sn_ExpiresAt wire_sample" "sn_ExpiresAt wire_sample < 2 ^ 63 * 1000000"
  "17 < time_UnixMilli (UnixMilli (sn_ExpiresAt wire_sample))"
  "- (2 ^ 63) \<le> ts_PasswordV wire_sample" "ts_PasswordV wire_sample < 2 ^ 63"
  by (simp_all add: wire_sample_def time_UnixMilli_def UnixMilli_def unix_epoch_def)

lemma encode_decode:
  assumes "validateSnapshot v now = Inr ()" and "valid_utf8 (ts_Username v)"
    and "- (2 ^ 63) \<le> ts_PasswordV v" and "ts_PasswordV v < 2 ^ 63"
    and "0 \<le> sn_ExpiresAt v" and "sn_ExpiresAt v < 2 ^ 63 * 1000000"
    and "now < time_UnixMilli (UnixMilli (sn_ExpiresAt v))" and "0 \<le> now"
  shows "\<exists>content. session_encode v now = Inr content \<and>
    session_decode folded content (prefix @ ts_SessionID v) prefix now = Inr (stored_form v)"
proof -
  let ?w = "encode_wire v"
  have ids: "valid_utf8 (ts_SessionID v)" "valid_utf8 (sn_AccessJTI v)" "valid_utf8 (sn_RefreshJTI v)"
    and kinds: "ts_Subject v \<in> {AdminKind, AppKind}"
    and app: "ts_Subject v = AppKind \<Longrightarrow> ts_Username v = [] \<and> ts_RoleIDs v = None \<and> ts_PasswordV v = 0"
    using assms(1) validIdentifier_utf8
    by (auto simp: validateSnapshot_def validatePrincipal_def snapshot_principal_def split: if_splits)
  have ms: "- (2 ^ 63) \<le> UnixMilli (sn_ExpiresAt v)" "UnixMilli (sn_ExpiresAt v) < 2 ^ 63"
    using assms(5,6) by (auto simp: UnixMilli_def unix_epoch_def)
  have "\<exists>members. unmarshal folded (marshal ?w) = Some (members, ?w) \<and>
    (''username'' \<in> members \<longleftrightarrow> ws_Username ?w \<noteq> None) \<and> (''roleIds'' \<in> members \<longleftrightarrow> ws_RoleIDs ?w \<noteq> None) \<and>
    (''passwordV'' \<in> members \<longleftrightarrow> ws_PasswordV ?w \<noteq> None)"
    using ids kinds assms(2-4) ms
    by (intro unmarshal_marshal) (auto simp: encode_wire_def Let_def split: if_splits)
  then obtain members where um: "unmarshal folded (marshal ?w) = Some (members, ?w)"
    "''username'' \<in> members \<longleftrightarrow> ws_Username ?w \<noteq> None" "''roleIds'' \<in> members \<longleftrightarrow> ws_RoleIDs ?w \<noteq> None"
    "''passwordV'' \<in> members \<longleftrightarrow> ws_PasswordV ?w \<noteq> None"
    by blast
  have "time_UnixMilli (UnixMilli (sn_ExpiresAt v)) \<noteq> 0" using assms(7,8) by simp
  note stored = stored_form_valid [OF assms(1,7) this]
  have "session_decode folded (marshal ?w) (prefix @ ts_SessionID v) prefix now = Inr (stored_form v)"
  proof (cases "ts_Subject v = AdminKind")
    case True
    have "\<lparr>ts_SessionID = ts_SessionID v, ts_Subject = AdminKind, ts_UserID = ts_UserID v, ts_Username = ts_Username v,
        ts_RoleIDs = Some (case ts_RoleIDs v of None \<Rightarrow> [] | Some rs \<Rightarrow> rs), ts_PasswordV = ts_PasswordV v,
        sn_AccessJTI = sn_AccessJTI v, sn_RefreshJTI = sn_RefreshJTI v,
        sn_ExpiresAt = time_UnixMilli (UnixMilli (sn_ExpiresAt v))\<rparr> = stored_form v"
      using True by (simp add: stored_form_def)
    with True um(1) stored assms(7) show ?thesis
      by (simp add: session_decode_def encode_wire_def Let_def)
  next
    case False
    then have "ts_Subject v = AppKind" using kinds by simp
    moreover have "\<lparr>ts_SessionID = ts_SessionID v, ts_Subject = AppKind, ts_UserID = ts_UserID v, ts_Username = [],
        ts_RoleIDs = None, ts_PasswordV = 0, sn_AccessJTI = sn_AccessJTI v, sn_RefreshJTI = sn_RefreshJTI v,
        sn_ExpiresAt = time_UnixMilli (UnixMilli (sn_ExpiresAt v))\<rparr> = stored_form v"
      using app calculation by (simp add: stored_form_def)
    ultimately show ?thesis using um stored assms(7)
      by (simp add: session_decode_def encode_wire_def Let_def)
  qed
  then show ?thesis using assms(1) by (simp add: session_encode_def)
qed

section \<open>Properties\<close>

text \<open>C38: sessions survive storage. A valid session whose user name is valid UTF-8 and whose end, cut to
  milliseconds, is still ahead is encoded, and decoding the result under its own key gives the
  session back with its end cut to milliseconds; nothing else about it changes.\<close>

theorem session_wire_roundtrip:
  assumes "validateSnapshot v now = Inr ()" and "valid_utf8 (ts_Username v)"
    and "- (2 ^ 63) \<le> ts_PasswordV v" and "ts_PasswordV v < 2 ^ 63"
    and "0 \<le> sn_ExpiresAt v" and "sn_ExpiresAt v < 2 ^ 63 * 1000000"
    and "now < time_UnixMilli (UnixMilli (sn_ExpiresAt v))" and "0 \<le> now"
  shows "\<exists>content. session_encode v now = Inr content \<and>
    session_decode folded content (prefix @ ts_SessionID v) prefix now = Inr (stored_form v)"
  using assms by (rule encode_decode)

theorem session_wire_roundtrip_witness:
  "\<exists>content. session_encode wire_sample 17 = Inr content \<and>
    session_decode (\<lambda>s. s) content ''k:s'' ''k:'' 17 = Inr (wire_sample\<lparr>sn_ExpiresAt := 5001000000\<rparr>)"
proof -
  have "stored_form wire_sample = wire_sample\<lparr>sn_ExpiresAt := 5001000000\<rparr>" "''k:s'' = ''k:'' @ ts_SessionID wire_sample"
    by (simp_all add: stored_form_def wire_sample_def time_UnixMilli_def UnixMilli_def unix_epoch_def)
  then show ?thesis
    using session_wire_roundtrip [OF wire_sample_valid wire_sample_bounds(4,5,1,2,3), of "\<lambda>s. s" "''k:''"] by simp
qed

text \<open>whatever a backend returns for a session is checked. Content that decodes gives a session that
  is valid at that instant, and stands under the key of its own identifier.\<close>

theorem session_decode_sound:
  assumes "session_decode folded content expectedKey prefix now = Inr v"
  shows "validateSnapshot v now = Inr () \<and> now < sn_ExpiresAt v \<and>
    (expectedKey = [] \<or> expectedKey = prefix @ ts_SessionID v)"
  using assms
  by (auto simp: session_decode_def Let_def bindE_Inr_iff split: option.splits prod.splits if_splits)


theorem session_decode_sound_witness:
  "\<exists>content v. session_decode (\<lambda>s. s) content ''k:s'' ''k:'' 17 = Inr v \<and> validateSnapshot v 17 = Inr ()"
proof -
  obtain content where "session_decode (\<lambda>s. s) content (''k:'' @ ts_SessionID wire_sample) ''k:'' 17 = Inr (stored_form wire_sample)"
    using encode_decode [OF wire_sample_valid wire_sample_bounds(4,5,1,2,3), of "\<lambda>s. s" "''k:''"] by auto
  with session_decode_sound [OF this] show ?thesis by (auto simp: wire_sample_def)
qed

end
