(* ===== verification/Outbox_Store.thy ===== *)
theory Outbox_Store
  imports Go_Exception "HOL-Library.Product_Lexorder" "HOL-Library.List_Lexorder" "HOL-Library.Char_ord"
begin

text \<open>
  The reliable-message store of \<open>cool-next/outbox/store\<close>: records, the SQL statements of
  \<open>sql.go\<close> as operations on a table, and the operations of \<open>database.go\<close> over them.

  A table is a list of rows. Instants and durations are whole microseconds, the resolution of the
  statements. A statement reads the database clock when it runs. What the database adds is a
  parameter of each operation: an error of the driver (\<open>db_fail\<close>, which rolls a transaction
  back) and the rows that other transactions hold locked (\<open>skip\<close>, for \<open>SKIP LOCKED\<close>).
\<close>

section \<open>Records\<close>

datatype db_kind = MySQL | PostgreSQL | SQLite

datatype status = StPending | StRetry | StLeased | StSent | StDead | StOther string

definition validStatus :: "status \<Rightarrow> bool" where
  "validStatus s \<longleftrightarrow> s = StPending \<or> s = StRetry \<or> s = StLeased \<or> s = StSent \<or> s = StDead"

record outbox_row =
  or_messageId :: string
  or_topic :: string
  or_messageType :: string
  or_messageVersion :: nat
  or_messageKey :: "string option"
  or_payload :: string
  or_headers :: string
  or_status :: status
  or_attempts :: nat
  or_availableAt :: int
  or_leaseOwner :: "string option"
  or_claimToken :: "string option"
  or_leaseExpiresAt :: "int option"
  or_lastError :: "string option"
  or_createTime :: int
  or_updateTime :: int
  or_sentAt :: "int option"

type_synonym outbox_table = "outbox_row list"

text \<open>A \<open>Record\<close> of the code is a row whose identifier and status were checked, with the token
  as a plain string.\<close>

record outbox_record =
  rd_row :: outbox_row
  rd_claimToken :: string

definition hex_lower :: "char \<Rightarrow> bool" where
  "hex_lower c \<longleftrightarrow> in_range 48 57 (byte c) \<or> in_range 97 102 (byte c)"

definition dash_positions :: "nat set" where
  "dash_positions = {8, 13, 18, 23}"

definition validMessageID :: "string \<Rightarrow> bool" where
  "validMessageID v \<longleftrightarrow> length v = 36 \<and> v ! 8 = CHR ''-'' \<and> v ! 13 = CHR ''-'' \<and> v ! 18 = CHR ''-'' \<and>
     v ! 23 = CHR ''-'' \<and> v ! 14 = CHR ''7'' \<and> in_range 56 98 (byte (v ! 19)) \<and>
     list_all (\<lambda>i. i \<in> dash_positions \<or> hex_lower (v ! i)) [0..<36]"

text \<open>\<open>json_valid\<close> and \<open>json_headers\<close> stand for \<open>json.Valid\<close> and for a non-null JSON object of
  strings.\<close>

definition NewRecord ::
  "(string \<Rightarrow> bool) \<Rightarrow> (string \<Rightarrow> bool) \<Rightarrow> string \<Rightarrow> string \<Rightarrow> string \<Rightarrow> nat \<Rightarrow> string option \<Rightarrow> string \<Rightarrow> string \<Rightarrow>
   (go_error, outbox_row) result" where
  "NewRecord json_valid json_headers messageID topic messageType messageVersion messageKey payload headers =
    (if \<not> validMessageID messageID then Inl (PlainError ''message id invalid'')
     else if trim_space topic = [] \<or> trim_space messageType = [] then Inl (PlainError ''metadata invalid'')
     else if messageVersion = 0 \<or> \<not> json_valid payload \<or> \<not> json_headers headers
       then Inl (PlainError ''content invalid'')
     else if (case messageKey of None \<Rightarrow> False | Some k \<Rightarrow> trim_space k = []) then Inl (PlainError ''key invalid'')
     else Inr \<lparr>or_messageId = messageID, or_topic = topic, or_messageType = messageType,
       or_messageVersion = messageVersion, or_messageKey = messageKey, or_payload = payload, or_headers = headers,
       or_status = StPending, or_attempts = 0, or_availableAt = 0, or_leaseOwner = None, or_claimToken = None,
       or_leaseExpiresAt = None, or_lastError = None, or_createTime = 0, or_updateTime = 0, or_sentAt = None\<rparr>)"

definition ErrClaimLost :: go_error where "ErrClaimLost = PlainError ''claim lost''"
definition ErrNotFound :: go_error where "ErrNotFound = PlainError ''message not found''"
definition ErrReplayRejected :: go_error where "ErrReplayRejected = PlainError ''message not dead''"
definition ErrReplayConflict :: go_error where "ErrReplayConflict = PlainError ''message changed''"

section \<open>Statements\<close>

text \<open>
  A duration argument is in microseconds, at least one for a positive duration; SQLite stores
  milliseconds, so there a positive duration is at least one of those, and adding rounds to
  the nearest millisecond.
\<close>

definition durationArgument :: "db_kind \<Rightarrow> duration \<Rightarrow> int" where
  "durationArgument kind d =
    (let us = go_div d 1000; us' = (if 0 < d \<and> us = 0 then 1 else us)
     in if kind = SQLite \<and> 0 < d \<and> us' < 1000 then 1000 else us')"

definition addDuration :: "db_kind \<Rightarrow> int \<Rightarrow> int \<Rightarrow> int" where
  "addDuration kind source us =
    (case kind of SQLite \<Rightarrow> source + sgn us * ((\<bar>us\<bar> + 500) div 1000 * 1000) | _ \<Rightarrow> source + us)"

definition renewDeadline :: "db_kind \<Rightarrow> int \<Rightarrow> int \<Rightarrow> int \<Rightarrow> int" where
  "renewDeadline kind deadline now us =
    (case kind of
       MySQL \<Rightarrow> max (deadline + us) (now + us)
     | PostgreSQL \<Rightarrow> max deadline now + us
     | SQLite \<Rightarrow> addDuration SQLite (if now < deadline then deadline else now) us)"

text \<open>\<open>SELECT messageId ... WHERE ... ORDER BY ... LIMIT\<close> and \<open>UPDATE ... WHERE\<close> with its count.\<close>

definition select_ids ::
  "(outbox_row \<Rightarrow> bool) \<Rightarrow> (outbox_row \<Rightarrow> 'k::linorder) \<Rightarrow> string set \<Rightarrow> int \<Rightarrow> outbox_table \<Rightarrow> string list" where
  "select_ids P key skip limit tab =
    map or_messageId (take (nat limit) (sort_key key (filter (\<lambda>r. P r \<and> or_messageId r \<notin> skip) tab)))"

definition update_rows ::
  "(outbox_row \<Rightarrow> bool) \<Rightarrow> (outbox_row \<Rightarrow> outbox_row) \<Rightarrow> outbox_table \<Rightarrow> nat \<times> outbox_table" where
  "update_rows P f tab = (length (filter P tab), map (\<lambda>r. if P r then f r else r) tab)"

text \<open>Comparisons with NULL do not hold.\<close>

definition is_ready :: "int \<Rightarrow> outbox_row \<Rightarrow> bool" where
  "is_ready now r \<longleftrightarrow> (or_status r = StPending \<or> or_status r = StRetry) \<and> or_availableAt r \<le> now"

definition is_expired :: "int \<Rightarrow> outbox_row \<Rightarrow> bool" where
  "is_expired now r \<longleftrightarrow> or_status r = StLeased \<and> (case or_leaseExpiresAt r of None \<Rightarrow> False | Some t \<Rightarrow> t \<le> now)"

definition lease_time :: "outbox_row \<Rightarrow> int" where
  "lease_time r = (case or_leaseExpiresAt r of None \<Rightarrow> 0 | Some t \<Rightarrow> t)"

datatype claim_mode = ClaimAny | ClaimReady | ClaimLapsed

definition claimCandidates :: "claim_mode \<Rightarrow> int \<Rightarrow> string set \<Rightarrow> int \<Rightarrow> outbox_table \<Rightarrow> string list" where
  "claimCandidates mode now skip limit tab =
    (case mode of
       ClaimAny \<Rightarrow> select_ids (\<lambda>r. is_ready now r \<or> is_expired now r)
         (\<lambda>r. (if or_status r = StLeased then lease_time r else or_availableAt r, or_createTime r, or_messageId r))
         skip limit tab
     | ClaimReady \<Rightarrow> select_ids (is_ready now) (\<lambda>r. (or_availableAt r, or_createTime r, or_messageId r)) skip limit tab
     | ClaimLapsed \<Rightarrow> select_ids (is_expired now) (\<lambda>r. (lease_time r, or_messageId r)) skip limit tab)"

definition set_lease :: "db_kind \<Rightarrow> int \<Rightarrow> string \<Rightarrow> string \<Rightarrow> int \<Rightarrow> outbox_row \<Rightarrow> outbox_row" where
  "set_lease kind now owner token us r =
    r\<lparr>or_status := StLeased, or_leaseOwner := Some owner, or_claimToken := Some token,
      or_leaseExpiresAt := Some (addDuration kind now us), or_updateTime := now\<rparr>"

definition stmt_claim ::
  "claim_mode \<Rightarrow> db_kind \<Rightarrow> int \<Rightarrow> string \<Rightarrow> string \<Rightarrow> int \<Rightarrow> string \<Rightarrow> outbox_table \<Rightarrow> nat \<times> outbox_table" where
  "stmt_claim mode kind now owner token us mid tab =
    (case mode of
       ClaimAny \<Rightarrow> update_rows (\<lambda>r. or_messageId r = mid \<and> (is_ready now r \<or> is_expired now r))
         (\<lambda>r. set_lease kind now owner token us
            (if or_status r = StPending \<or> or_status r = StRetry then r\<lparr>or_attempts := or_attempts r + 1\<rparr> else r)) tab
     | ClaimReady \<Rightarrow> update_rows (\<lambda>r. or_messageId r = mid \<and> is_ready now r)
         (\<lambda>r. set_lease kind now owner token us (r\<lparr>or_attempts := or_attempts r + 1\<rparr>)) tab
     | ClaimLapsed \<Rightarrow> update_rows (\<lambda>r. or_messageId r = mid \<and> is_expired now r)
         (set_lease kind now owner token us) tab)"

text \<open>The rows that a claim holder may change.\<close>

definition held_by :: "string \<Rightarrow> string \<Rightarrow> outbox_row \<Rightarrow> bool" where
  "held_by mid token r \<longleftrightarrow> or_messageId r = mid \<and> or_status r = StLeased \<and> or_claimToken r = Some token"

definition stmt_renew :: "db_kind \<Rightarrow> int \<Rightarrow> int \<Rightarrow> string \<Rightarrow> string \<Rightarrow> outbox_table \<Rightarrow> nat \<times> outbox_table" where
  "stmt_renew kind now us mid token =
    update_rows (held_by mid token)
      (\<lambda>r. r\<lparr>or_leaseExpiresAt := map_option (\<lambda>t. renewDeadline kind t now us) (or_leaseExpiresAt r),
             or_updateTime := now\<rparr>)"

definition release :: "int \<Rightarrow> outbox_row \<Rightarrow> outbox_row" where
  "release now r = r\<lparr>or_leaseOwner := None, or_claimToken := None, or_leaseExpiresAt := None, or_updateTime := now\<rparr>"

definition stmt_markSent :: "int \<Rightarrow> string \<Rightarrow> string \<Rightarrow> outbox_table \<Rightarrow> nat \<times> outbox_table" where
  "stmt_markSent now mid token =
    update_rows (held_by mid token)
      (\<lambda>r. (release now r)\<lparr>or_status := StSent, or_sentAt := Some now, or_lastError := None\<rparr>)"

definition stmt_markRetry ::
  "db_kind \<Rightarrow> int \<Rightarrow> int \<Rightarrow> string \<Rightarrow> string \<Rightarrow> string \<Rightarrow> outbox_table \<Rightarrow> nat \<times> outbox_table" where
  "stmt_markRetry kind now us summary mid token =
    update_rows (held_by mid token)
      (\<lambda>r. (release now r)\<lparr>or_status := StRetry, or_availableAt := addDuration kind now us,
             or_lastError := Some summary, or_sentAt := None\<rparr>)"

definition stmt_markDead :: "int \<Rightarrow> string \<Rightarrow> string \<Rightarrow> string \<Rightarrow> outbox_table \<Rightarrow> nat \<times> outbox_table" where
  "stmt_markDead now summary mid token =
    update_rows (held_by mid token)
      (\<lambda>r. (release now r)\<lparr>or_status := StDead, or_lastError := Some summary, or_sentAt := None\<rparr>)"

definition is_disposable :: "int \<Rightarrow> outbox_row \<Rightarrow> bool" where
  "is_disposable threshold r \<longleftrightarrow> or_status r = StSent \<and> (case or_sentAt r of None \<Rightarrow> False | Some t \<Rightarrow> t \<le> threshold)"

definition stmt_cleanupCandidates :: "db_kind \<Rightarrow> int \<Rightarrow> int \<Rightarrow> int \<Rightarrow> outbox_table \<Rightarrow> string list" where
  "stmt_cleanupCandidates kind now us limit tab =
    select_ids (is_disposable (addDuration kind now us))
      (\<lambda>r. (case or_sentAt r of None \<Rightarrow> 0 | Some t \<Rightarrow> t, or_messageId r)) {} limit tab"

definition stmt_cleanupSent :: "db_kind \<Rightarrow> int \<Rightarrow> int \<Rightarrow> string \<Rightarrow> outbox_table \<Rightarrow> nat \<times> outbox_table" where
  "stmt_cleanupSent kind now us mid tab =
    (let gone = (\<lambda>r. or_messageId r = mid \<and> is_disposable (addDuration kind now us) r)
     in (length (filter gone tab), filter (\<lambda>r. \<not> gone r) tab))"

definition stmt_replayDead :: "int \<Rightarrow> string \<Rightarrow> outbox_table \<Rightarrow> nat \<times> outbox_table" where
  "stmt_replayDead now mid =
    update_rows (\<lambda>r. or_messageId r = mid \<and> or_status r = StDead)
      (\<lambda>r. (release now r)\<lparr>or_status := StRetry, or_attempts := 0, or_availableAt := now,
             or_sentAt := None, or_lastError := None\<rparr>)"

definition stmt_show :: "string \<Rightarrow> outbox_table \<Rightarrow> outbox_row list" where
  "stmt_show mid tab = filter (\<lambda>r. or_messageId r = mid) tab"

definition stmt_list :: "status \<Rightarrow> string option \<Rightarrow> int \<Rightarrow> outbox_table \<Rightarrow> outbox_row list" where
  "stmt_list st topic limit tab =
    take (nat limit) (sort_key (\<lambda>r. (or_createTime r, or_messageId r))
      (filter (\<lambda>r. or_status r = st \<and> (case topic of None \<Rightarrow> True | Some t \<Rightarrow> or_topic r = t)) tab))"

definition stmt_readClaimed :: "string \<Rightarrow> string \<Rightarrow> outbox_table \<Rightarrow> outbox_row list" where
  "stmt_readClaimed mid token tab = filter (held_by mid token) tab"

text \<open>\<open>INSERT\<close>: the primary key makes a second record with the same identifier an error.\<close>

definition stmt_enqueue :: "int \<Rightarrow> outbox_row \<Rightarrow> outbox_table \<Rightarrow> outbox_table option" where
  "stmt_enqueue now r tab =
    (if or_messageId r \<in> or_messageId ` set tab then None
     else Some (tab @ [r\<lparr>or_status := StPending, or_attempts := 0, or_availableAt := now, or_leaseOwner := None,
       or_claimToken := None, or_leaseExpiresAt := None, or_lastError := None, or_createTime := now,
       or_updateTime := now, or_sentAt := None\<rparr>]))"


section \<open>Operations\<close>

text \<open>
  What an operation meets: the database kind, whether the store is set up, an error of the
  driver, the clock at its first statement and at the later ones, and the rows locked by others.
\<close>

record db_env =
  de_kind :: db_kind
  de_ready :: bool
  de_fail :: "go_error option"
  de_now :: int
  de_later :: int
  de_skip :: "string set"

definition not_ready :: go_error where "not_ready = PlainError ''store not initialised''"
definition invariantError :: "string \<Rightarrow> go_error" where "invariantError action = PlainError (action @ '' breaks the store'')"

definition toRecord :: "outbox_row \<Rightarrow> (go_error, outbox_record) result" where
  "toRecord r =
    (if \<not> validMessageID (or_messageId r) then Inl (PlainError ''stored id invalid'')
     else if \<not> validStatus (or_status r) then Inl (PlainError ''stored status unknown'')
     else Inr \<lparr>rd_row = r, rd_claimToken = (case or_claimToken r of None \<Rightarrow> [] | Some t \<Rightarrow> t)\<rparr>)"

definition readClaimed :: "string \<Rightarrow> string \<Rightarrow> outbox_table \<Rightarrow> (go_error, outbox_record) result" where
  "readClaimed mid token tab =
    (case stmt_readClaimed mid token tab of
       [] \<Rightarrow> Inl (PlainError ''claim not read back'')
     | r # _ \<Rightarrow> if or_messageId r = [] then Inl (PlainError ''claim not read back'') else toRecord r)"

text \<open>The loop over the candidates; each one gets the next random token.\<close>

fun claim_loop ::
  "claim_mode \<Rightarrow> db_env \<Rightarrow> string \<Rightarrow> int \<Rightarrow> (string \<times> string) list \<Rightarrow> outbox_table \<Rightarrow>
   (go_error, outbox_record list) result \<times> outbox_table" where
  "claim_loop mode env owner us [] tab = (Inr [], tab)"
| "claim_loop mode env owner us ((mid, token) # rest) tab =
    (let (affected, tab') = stmt_claim mode (de_kind env) (de_later env) owner token us mid tab in
     if affected = 0 \<and> de_kind env = SQLite then claim_loop mode env owner us rest tab'
     else if affected \<noteq> 1 then (Inl (invariantError ''claim''), tab')
     else (case readClaimed mid token tab' of
         Inl e \<Rightarrow> (Inl e, tab')
       | Inr rec \<Rightarrow>
           (case claim_loop mode env owner us rest tab' of
              (Inl e, tab'') \<Rightarrow> (Inl e, tab'')
            | (Inr recs, tab'') \<Rightarrow> (Inr (rec # recs), tab''))))"

definition claimWithin ::
  "claim_mode \<Rightarrow> db_env \<Rightarrow> string \<Rightarrow> int \<Rightarrow> duration \<Rightarrow> (nat \<Rightarrow> string) \<Rightarrow> outbox_table \<Rightarrow>
   (go_error, outbox_record list) result \<times> outbox_table" where
  "claimWithin mode env owner limit leaseDuration tokens tab =
    (let ids = claimCandidates mode (de_now env) (de_skip env) limit tab
     in claim_loop mode env owner (durationArgument (de_kind env) leaseDuration)
          (zip ids (map tokens [0..<length ids])) tab)"

text \<open>A transaction keeps its changes only if its body and the driver report no error.\<close>

definition transaction ::
  "go_error option \<Rightarrow> (outbox_table \<Rightarrow> (go_error, 'a) result \<times> outbox_table) \<Rightarrow> outbox_table \<Rightarrow>
   (go_error, 'a) result \<times> outbox_table" where
  "transaction fail body tab =
    (case fail of
       Some e \<Rightarrow> (Inl e, tab)
     | None \<Rightarrow> (case body tab of (Inl e, _) \<Rightarrow> (Inl e, tab) | (Inr a, tab') \<Rightarrow> (Inr a, tab')))"

definition store_claim ::
  "claim_mode \<Rightarrow> db_env \<Rightarrow> string \<Rightarrow> int \<Rightarrow> duration \<Rightarrow> (nat \<Rightarrow> string) \<Rightarrow> outbox_table \<Rightarrow>
   (go_error, outbox_record list) result \<times> outbox_table" where
  "store_claim mode env owner limit leaseDuration tokens tab =
    (if \<not> de_ready env then (Inl not_ready, tab)
     else if trim_space owner = [] \<or> limit \<le> 0 \<or> leaseDuration \<le> 0
       then (Inl (PlainError ''claim arguments invalid''), tab)
     else transaction (de_fail env) (claimWithin mode env owner limit leaseDuration tokens) tab)"

text \<open>
  On SQLite a claim that finds the database busy waits and tries again. The outcomes of the tries
  are given; \<open>gone\<close> says whether the context ends during a wait.
\<close>

datatype claim_try = TryOk | TryBusy go_error | TryFailed go_error

fun claimSQLite :: "nat \<Rightarrow> (nat \<Rightarrow> claim_try) \<Rightarrow> (nat \<Rightarrow> bool) \<Rightarrow> nat \<Rightarrow> (go_error, nat) result" where
  "claimSQLite 0 tries gone attempt = Inl (PlainError ''claim retries exhausted'')"
| "claimSQLite (Suc left) tries gone attempt =
    (case tries attempt of
       TryOk \<Rightarrow> Inr attempt
     | TryFailed e \<Rightarrow> Inl e
     | TryBusy e \<Rightarrow>
         if left = 0 then Inl e
         else if gone attempt then Inl (PlainError ''context done'')
         else claimSQLite left tries gone (attempt + 1))"

definition execClaimUpdate ::
  "db_env \<Rightarrow> string \<Rightarrow> (outbox_table \<Rightarrow> nat \<times> outbox_table) \<Rightarrow> outbox_table \<Rightarrow> (go_error, unit) result \<times> outbox_table" where
  "execClaimUpdate env action stmt tab =
    (if \<not> de_ready env then (Inl not_ready, tab)
     else case de_fail env of
         Some e \<Rightarrow> (Inl e, tab)
       | None \<Rightarrow>
           (let (affected, tab') = stmt tab in
            if affected = 0 then (Inl ErrClaimLost, tab')
            else if affected \<noteq> 1 then (Inl (invariantError action), tab')
            else (Inr (), tab')))"

definition outbox_Renew ::
  "db_env \<Rightarrow> string \<Rightarrow> string \<Rightarrow> duration \<Rightarrow> outbox_table \<Rightarrow> (go_error, unit) result \<times> outbox_table" where
  "outbox_Renew env mid token leaseDuration tab =
    (if leaseDuration \<le> 0 then (Inl (PlainError ''lease duration not positive''), tab)
     else execClaimUpdate env ''renew''
       (stmt_renew (de_kind env) (de_now env) (durationArgument (de_kind env) leaseDuration) mid token) tab)"

definition outbox_MarkSent ::
  "db_env \<Rightarrow> string \<Rightarrow> string \<Rightarrow> outbox_table \<Rightarrow> (go_error, unit) result \<times> outbox_table" where
  "outbox_MarkSent env mid token = execClaimUpdate env ''sent'' (stmt_markSent (de_now env) mid token)"

definition outbox_MarkRetry ::
  "db_env \<Rightarrow> string \<Rightarrow> string \<Rightarrow> duration \<Rightarrow> string \<Rightarrow> outbox_table \<Rightarrow> (go_error, unit) result \<times> outbox_table" where
  "outbox_MarkRetry env mid token retryAfter summary tab =
    (if retryAfter < 0 then (Inl (PlainError ''retry delay negative''), tab)
     else execClaimUpdate env ''retry''
       (stmt_markRetry (de_kind env) (de_now env) (durationArgument (de_kind env) retryAfter) summary mid token) tab)"

definition outbox_MarkDead ::
  "db_env \<Rightarrow> string \<Rightarrow> string \<Rightarrow> string \<Rightarrow> outbox_table \<Rightarrow> (go_error, unit) result \<times> outbox_table" where
  "outbox_MarkDead env mid token summary = execClaimUpdate env ''dead'' (stmt_markDead (de_now env) summary mid token)"

fun cleanup_loop :: "db_env \<Rightarrow> int \<Rightarrow> string list \<Rightarrow> outbox_table \<Rightarrow> (go_error, nat) result \<times> outbox_table" where
  "cleanup_loop env us [] tab = (Inr 0, tab)"
| "cleanup_loop env us (mid # rest) tab =
    (let (affected, tab') = stmt_cleanupSent (de_kind env) (de_later env) us mid tab in
     if affected \<noteq> 0 \<and> affected \<noteq> 1 then (Inl (invariantError ''cleanup''), tab')
     else (case cleanup_loop env us rest tab' of
         (Inl e, tab'') \<Rightarrow> (Inl e, tab'')
       | (Inr n, tab'') \<Rightarrow> (Inr (affected + n), tab'')))"

definition outbox_CleanupSent ::
  "db_env \<Rightarrow> duration \<Rightarrow> int \<Rightarrow> outbox_table \<Rightarrow> (go_error, nat) result \<times> outbox_table" where
  "outbox_CleanupSent env retention limit tab =
    (if \<not> de_ready env then (Inl not_ready, tab)
     else if retention \<le> 0 \<or> limit \<le> 0 then (Inl (PlainError ''cleanup arguments invalid''), tab)
     else transaction (de_fail env) (\<lambda>tab.
       let us = durationArgument (de_kind env) (- retention)
       in cleanup_loop env us (stmt_cleanupCandidates (de_kind env) (de_now env) us limit tab) tab) tab)"

definition outbox_Enqueue ::
  "db_env \<Rightarrow> bool \<Rightarrow> bool \<Rightarrow> outbox_row \<Rightarrow> outbox_table \<Rightarrow> (go_error, unit) result \<times> outbox_table" where
  "outbox_Enqueue env tx_valid same_group r tab =
    (if \<not> de_ready env \<or> \<not> tx_valid then (Inl (PlainError ''enqueue transaction invalid''), tab)
     else if \<not> same_group then (Inl (PlainError ''enqueue transaction group''), tab)
     else case de_fail env of
         Some e \<Rightarrow> (Inl e, tab)
       | None \<Rightarrow> (case stmt_enqueue (de_now env) r tab of
             None \<Rightarrow> (Inl (PlainError ''duplicate message''), tab)
           | Some tab' \<Rightarrow> (Inr (), tab')))"

definition outbox_ReplayDead :: "db_env \<Rightarrow> string \<Rightarrow> outbox_table \<Rightarrow> (go_error, unit) result \<times> outbox_table" where
  "outbox_ReplayDead env mid tab =
    (if \<not> de_ready env then (Inl not_ready, tab)
     else if \<not> validMessageID mid then (Inl (PlainError ''message id invalid''), tab)
     else transaction (de_fail env) (\<lambda>tab.
       case stmt_show mid tab of
         [] \<Rightarrow> (Inl ErrNotFound, tab)
       | r # _ \<Rightarrow>
           if or_messageId r = [] then (Inl ErrNotFound, tab)
           else if or_status r \<noteq> StDead then (Inl ErrReplayRejected, tab)
           else
             (let (affected, tab') = stmt_replayDead (de_later env) mid tab in
              if affected = 0 then (Inl ErrReplayConflict, tab')
              else if affected \<noteq> 1 then (Inl (invariantError ''replay''), tab')
              else (Inr (), tab'))) tab)"

definition check_metadata :: "outbox_row \<Rightarrow> (go_error, outbox_row) result" where
  "check_metadata r =
    (if \<not> validMessageID (or_messageId r) then Inl (PlainError ''stored id invalid'')
     else if \<not> validStatus (or_status r) then Inl (PlainError ''stored status unknown'')
     else Inr r)"

definition outbox_List ::
  "db_env \<Rightarrow> status \<Rightarrow> string \<Rightarrow> int \<Rightarrow> outbox_table \<Rightarrow> (go_error, outbox_row list) result" where
  "outbox_List env st topic limit tab =
    (if \<not> de_ready env then Inl not_ready
     else let trimmed = trim_space topic in
       if \<not> validStatus st \<or> limit \<le> 0 \<or> 200 < limit \<or> (topic \<noteq> [] \<and> trimmed = [])
       then Inl (PlainError ''list arguments invalid'')
       else case de_fail env of
           Some e \<Rightarrow> Inl e
         | None \<Rightarrow> mapE check_metadata (stmt_list st (if trimmed = [] then None else Some trimmed) limit tab))"

definition outbox_Show :: "db_env \<Rightarrow> string \<Rightarrow> outbox_table \<Rightarrow> (go_error, outbox_row) result" where
  "outbox_Show env mid tab =
    (if \<not> de_ready env then Inl not_ready
     else if \<not> validMessageID mid then Inl (PlainError ''message id invalid'')
     else case de_fail env of
         Some e \<Rightarrow> Inl e
       | None \<Rightarrow> (case stmt_show mid tab of
             [] \<Rightarrow> Inl ErrNotFound
           | r # _ \<Rightarrow> if or_messageId r = [] then Inl ErrNotFound else check_metadata r))"

section \<open>Consumer inbox\<close>

text \<open>
  The inbox remembers which consumer has processed which message. How a duplicate shows up
  differs by database: an error with number 1062, no returned row, or no affected row; the
  other errors of the driver are in \<open>de_fail\<close>.
\<close>

type_synonym inbox_table = "(string \<times> string) set"

definition InsertIfAbsent ::
  "db_env \<Rightarrow> bool \<Rightarrow> bool \<Rightarrow> string \<Rightarrow> string \<Rightarrow> inbox_table \<Rightarrow> (go_error, bool) result \<times> inbox_table" where
  "InsertIfAbsent env has_tx same_group consumer mid inbox =
    (if \<not> has_tx \<or> trim_space consumer = [] \<or> \<not> validMessageID mid
       then (Inl (PlainError ''inbox arguments invalid''), inbox)
     else if \<not> same_group then (Inl (PlainError ''inbox transaction group''), inbox)
     else case de_fail env of
         Some e \<Rightarrow> (Inl e, inbox)
       | None \<Rightarrow>
           let present = ((consumer, mid) \<in> inbox); inbox' = insert (consumer, mid) inbox in
           (case de_kind env of
              MySQL \<Rightarrow> if present then (Inr False, inbox) else (Inr True, inbox')
            | PostgreSQL \<Rightarrow> (Inr (\<not> present), inbox')
            | SQLite \<Rightarrow> (let affected = (if present then 0 else 1 :: nat) in (Inr (affected = 1), inbox'))))"

end
