(* ===== verification/Outbox_Claims.thy ===== *)
theory Outbox_Claims
  imports Outbox_Store
begin

text \<open>
  What the outbox promises: rows stay well formed, a claim is exclusive until its lease lapses,
  a stale claim changes nothing, a message is settled at most once per claim, nothing that was
  not sent is ever lost, and claims are served oldest first.
\<close>

section \<open>Rows by identifier\<close>

definition row_of :: "outbox_table \<Rightarrow> string \<rightharpoonup> outbox_row" where
  "row_of tab = map_of (map (\<lambda>r. (or_messageId r, r)) tab)"

definition ids_distinct :: "outbox_table \<Rightarrow> bool" where
  "ids_distinct tab \<longleftrightarrow> distinct (map or_messageId tab)"

lemma row_of_simps [simp]:
  "row_of [] m = None"
  "row_of (r # tab) m = (if or_messageId r = m then Some r else row_of tab m)"
  by (simp_all add: row_of_def)

lemma row_of_SomeD: "row_of tab m = Some r \<Longrightarrow> r \<in> set tab \<and> or_messageId r = m"
  by (induction tab) (auto split: if_splits)

lemma row_of_None: "row_of tab m = None \<longleftrightarrow> m \<notin> or_messageId ` set tab"
  by (induction tab) auto

lemma row_of_mem: "ids_distinct tab \<Longrightarrow> r \<in> set tab \<Longrightarrow> row_of tab (or_messageId r) = Some r"
  by (induction tab) (auto simp: ids_distinct_def)

lemma row_of_append: "row_of (tab @ tab2) m = (case row_of tab m of Some r \<Rightarrow> Some r | None \<Rightarrow> row_of tab2 m)"
  by (induction tab) auto

lemma update_rows_cong:
  "(\<And>r. P r \<longleftrightarrow> Q r) \<Longrightarrow> (\<And>r. Q r \<Longrightarrow> f r = g r) \<Longrightarrow> update_rows P f tab = update_rows Q g tab"
  by (auto simp: update_rows_def cong: filter_cong)

text \<open>An update that touches one message only.\<close>

lemma update_one:
  assumes "ids_distinct tab" "\<And>r. P r \<Longrightarrow> or_messageId r = mid" "\<And>r. or_messageId (f r) = or_messageId r"
  shows "fst (update_rows P f tab) = (case row_of tab mid of Some r \<Rightarrow> if P r then 1 else 0 | None \<Rightarrow> 0)"
    and "row_of (snd (update_rows P f tab)) m =
      (if m = mid then map_option (\<lambda>r. if P r then f r else r) (row_of tab m) else row_of tab m)"
    and "map or_messageId (snd (update_rows P f tab)) = map or_messageId tab"
proof -
  have none: "filter P tab = []" if "mid \<notin> or_messageId ` set tab" for tab
    using that assms(2) by (auto simp: filter_empty_conv)
  show "fst (update_rows P f tab) = (case row_of tab mid of Some r \<Rightarrow> if P r then 1 else 0 | None \<Rightarrow> 0)"
    using assms(1)
  proof (induction tab)
    case (Cons r tab)
    show ?case
    proof (cases "or_messageId r = mid")
      case True
      with Cons.prems have "filter P tab = []" by (intro none) (auto simp: ids_distinct_def)
      with True show ?thesis by (simp add: update_rows_def)
    next
      case False
      then have "\<not> P r" using assms(2) by blast
      with Cons False show ?thesis by (simp add: update_rows_def ids_distinct_def)
    qed
  qed (simp add: update_rows_def)
  show "row_of (snd (update_rows P f tab)) m =
      (if m = mid then map_option (\<lambda>r. if P r then f r else r) (row_of tab m) else row_of tab m)"
    using assms(2,3) by (induction tab) (auto simp: update_rows_def)
  show "map or_messageId (snd (update_rows P f tab)) = map or_messageId tab"
    using assms(3) by (induction tab) (auto simp: update_rows_def)
qed

lemma update_one_distinct:
  assumes "ids_distinct tab" "\<And>r. P r \<Longrightarrow> or_messageId r = mid" "\<And>r. or_messageId (f r) = or_messageId r"
  shows "ids_distinct (snd (update_rows P f tab))"
  using assms update_one(3) [OF assms] by (simp add: ids_distinct_def)

section \<open>Well-formed rows\<close>

definition unleased :: "outbox_row \<Rightarrow> bool" where
  "unleased r \<longleftrightarrow> or_leaseOwner r = None \<and> or_claimToken r = None \<and> or_leaseExpiresAt r = None"

definition row_ok :: "outbox_row \<Rightarrow> bool" where
  "row_ok r \<longleftrightarrow>
    (case or_status r of
       StPending \<Rightarrow> unleased r \<and> or_attempts r = 0 \<and> or_sentAt r = None \<and> or_lastError r = None
     | StRetry \<Rightarrow> unleased r \<and> or_sentAt r = None
     | StLeased \<Rightarrow> or_leaseOwner r \<noteq> None \<and> or_claimToken r \<noteq> None \<and> or_leaseExpiresAt r \<noteq> None \<and>
         0 < or_attempts r \<and> or_sentAt r = None
     | StSent \<Rightarrow> unleased r \<and> 0 < or_attempts r \<and> or_sentAt r \<noteq> None \<and> or_lastError r = None
     | StDead \<Rightarrow> unleased r \<and> 0 < or_attempts r \<and> or_sentAt r = None \<and> or_lastError r \<noteq> None
     | StOther _ \<Rightarrow> False)"

definition outbox_ok :: "outbox_table \<Rightarrow> bool" where
  "outbox_ok tab \<longleftrightarrow> ids_distinct tab \<and> (\<forall>m r. row_of tab m = Some r \<longrightarrow> row_ok r)"

lemma outbox_okD: "outbox_ok tab \<Longrightarrow> ids_distinct tab" "outbox_ok tab \<Longrightarrow> row_of tab m = Some r \<Longrightarrow> row_ok r"
  by (auto simp: outbox_ok_def)

text \<open>Everything the statements do to one row, as a relation: \<open>fresh\<close> are the tokens a claim hands out.\<close>

definition claimed_row :: "db_kind \<Rightarrow> int \<Rightarrow> string \<Rightarrow> string \<Rightarrow> int \<Rightarrow> outbox_row \<Rightarrow> outbox_row" where
  "claimed_row kind now owner token us r =
    set_lease kind now owner token us
      (if or_status r = StLeased then r else r\<lparr>or_attempts := or_attempts r + 1\<rparr>)"

definition mode_takes :: "claim_mode \<Rightarrow> int \<Rightarrow> outbox_row \<Rightarrow> bool" where
  "mode_takes mode now r \<longleftrightarrow> (mode \<noteq> ClaimLapsed \<and> is_ready now r) \<or> (mode \<noteq> ClaimReady \<and> is_expired now r)"

lemma held_by_id: "held_by mid token r \<Longrightarrow> or_messageId r = mid"
  by (simp add: held_by_def)

lemma set_lease_id [simp]: "or_messageId (set_lease kind now owner token us r) = or_messageId r"
  by (simp add: set_lease_def)

lemma release_simps [simp]:
  "or_messageId (release now r) = or_messageId r" "or_status (release now r) = or_status r"
  "or_attempts (release now r) = or_attempts r" "unleased (release now r)" "or_sentAt (release now r) = or_sentAt r"
  "or_lastError (release now r) = or_lastError r"
  by (simp_all add: release_def unleased_def)

lemma unleased_update [simp]:
  "unleased (r\<lparr>or_status := s\<rparr>) = unleased r" "unleased (r\<lparr>or_sentAt := t\<rparr>) = unleased r"
  "unleased (r\<lparr>or_lastError := e\<rparr>) = unleased r" "unleased (r\<lparr>or_availableAt := a\<rparr>) = unleased r"
  "unleased (r\<lparr>or_attempts := n\<rparr>) = unleased r"
  by (simp_all add: unleased_def)

lemma stmt_claim_row:
  assumes "ids_distinct tab"
  shows "fst (stmt_claim mode kind now owner token us mid tab) =
      (case row_of tab mid of Some r \<Rightarrow> if mode_takes mode now r then 1 else 0 | None \<Rightarrow> 0)"
    and "row_of (snd (stmt_claim mode kind now owner token us mid tab)) m =
      (if m = mid then map_option (\<lambda>r. if mode_takes mode now r then claimed_row kind now owner token us r else r) (row_of tab m)
       else row_of tab m)"
    and "map or_messageId (snd (stmt_claim mode kind now owner token us mid tab)) = map or_messageId tab"
proof -
  define P f where "P = (\<lambda>r. or_messageId r = mid \<and> mode_takes mode now r)"
    and "f = claimed_row kind now owner token us"
  have eq: "stmt_claim mode kind now owner token us mid tab = update_rows P f tab"
    unfolding stmt_claim_def P_def f_def
    by (cases mode; simp only: claim_mode.case; intro update_rows_cong)
      (auto simp: mode_takes_def claimed_row_def is_ready_def is_expired_def)
  have P: "\<And>r. P r \<Longrightarrow> or_messageId r = mid" and f: "\<And>r. or_messageId (f r) = or_messageId r"
    by (auto simp: P_def f_def claimed_row_def)
  note U = update_one [where P = P and f = f and mid = mid and tab = tab, OF assms P f]
  show "fst (stmt_claim mode kind now owner token us mid tab) =
      (case row_of tab mid of Some r \<Rightarrow> if mode_takes mode now r then 1 else 0 | None \<Rightarrow> 0)"
    using U(1) row_of_SomeD [of tab mid] by (auto simp: eq P_def split: option.splits)
  show "row_of (snd (stmt_claim mode kind now owner token us mid tab)) m =
      (if m = mid then map_option (\<lambda>r. if mode_takes mode now r then claimed_row kind now owner token us r else r) (row_of tab m)
       else row_of tab m)"
    using U(2) [of m] row_of_SomeD [of tab mid]
    by (cases "row_of tab mid") (auto simp: eq P_def f_def)
  show "map or_messageId (snd (stmt_claim mode kind now owner token us mid tab)) = map or_messageId tab"
    using U(3) by (simp add: eq)
qed


lemma readClaimed_row:
  assumes "ids_distinct tab" "readClaimed mid token tab = Inr rec"
  shows "row_of tab mid = Some (rd_row rec) \<and> held_by mid token (rd_row rec) \<and> rd_claimToken rec = token"
proof -
  obtain r rest where f: "filter (held_by mid token) tab = r # rest" and r: "toRecord r = Inr rec"
    using assms(2) by (auto simp: readClaimed_def stmt_readClaimed_def split: list.splits if_splits)
  then have "r \<in> set tab" "held_by mid token r" by (auto simp: filter_eq_Cons_iff)
  moreover have "rd_row rec = r" "rd_claimToken rec = (case or_claimToken r of None \<Rightarrow> [] | Some t \<Rightarrow> t)"
    using r by (auto simp: toRecord_def split: if_splits)
  ultimately show ?thesis using row_of_mem [OF assms(1), of r] by (auto simp: held_by_def)
qed

text \<open>
  The loop over distinct candidates: a row that changes was claimable at the clock of the updates
  and holds one of the tokens afterwards.
\<close>

definition takes_row ::
  "claim_mode \<Rightarrow> db_env \<Rightarrow> string \<Rightarrow> int \<Rightarrow> string \<Rightarrow> outbox_row \<Rightarrow> outbox_row \<Rightarrow> bool" where
  "takes_row mode env owner us token r r' \<longleftrightarrow>
    mode_takes mode (de_later env) r \<and> r' = claimed_row (de_kind env) (de_later env) owner token us r"

lemma claim_loop_rows:
  assumes "ids_distinct tab" "distinct (map fst pairs)"
  shows "map or_messageId (snd (claim_loop mode env owner us pairs tab)) = map or_messageId tab \<and>
    (row_of (snd (claim_loop mode env owner us pairs tab)) m = row_of tab m \<or>
     (\<exists>r r' token. row_of tab m = Some r \<and> (m, token) \<in> set pairs \<and> takes_row mode env owner us token r r' \<and>
        row_of (snd (claim_loop mode env owner us pairs tab)) m = Some r')) \<and>
    (m \<notin> fst ` set pairs \<longrightarrow> row_of (snd (claim_loop mode env owner us pairs tab)) m = row_of tab m)"
  using assms
proof (induction mode env owner us pairs tab rule: claim_loop.induct)
  case (2 mode env owner us mid token rest tab)
  define st where "st = stmt_claim mode (de_kind env) (de_later env) owner token us mid tab"
  note S = stmt_claim_row [OF 2(3), of mode "de_kind env" "de_later env" owner token us mid, folded st_def]
  have dist: "ids_distinct (snd st)" using 2(3) S(3) by (simp add: ids_distinct_def)
  have fresh: "mid \<notin> fst ` set rest" "distinct (map fst rest)" using 2(4) by auto
  have one: "row_of (snd st) m = row_of tab m \<or>
      (\<exists>r. m = mid \<and> row_of tab m = Some r \<and> takes_row mode env owner us token r
         (claimed_row (de_kind env) (de_later env) owner token us r) \<and>
       row_of (snd st) m = Some (claimed_row (de_kind env) (de_later env) owner token us r))"
    by (cases "row_of tab m") (auto simp: S(2) takes_row_def)
  have other: "m \<noteq> mid \<Longrightarrow> row_of (snd st) m = row_of tab m" by (simp add: S(2))
  define R where "R tab' = (map or_messageId tab' = map or_messageId tab \<and>
      (row_of tab' m = row_of tab m \<or>
       (\<exists>r r' t. row_of tab m = Some r \<and> (m, t) \<in> set ((mid, token) # rest) \<and> takes_row mode env owner us t r r' \<and>
          row_of tab' m = Some r')) \<and>
      (m \<notin> fst ` set ((mid, token) # rest) \<longrightarrow> row_of tab' m = row_of tab m))" for tab'
  have stop: "R (snd st)" using one other S(3) by (auto simp: R_def)
  have step: "R tab''" if "map or_messageId tab'' = map or_messageId (snd st) \<and>
      (row_of tab'' m = row_of (snd st) m \<or>
       (\<exists>r r' t. row_of (snd st) m = Some r \<and> (m, t) \<in> set rest \<and> takes_row mode env owner us t r r' \<and>
          row_of tab'' m = Some r')) \<and>
      (m \<notin> fst ` set rest \<longrightarrow> row_of tab'' m = row_of (snd st) m)" for tab''
  proof (cases "m = mid")
    case True
    then have "row_of tab'' m = row_of (snd st) m" using that fresh(1) by blast
    with that one other S(3) True show ?thesis by (auto simp: R_def)
  next
    case False
    with that other S(3) show ?thesis unfolding R_def by force
  qed
  define skips goes where "skips = (fst st = 0 \<and> de_kind env = SQLite)"
    and "goes = (fst st = 1 \<and> (\<exists>rec. readClaimed mid token (snd st) = Inr rec))"
  have unfold: "snd (claim_loop mode env owner us ((mid, token) # rest) tab) =
      (if skips \<or> goes then snd (claim_loop mode env owner us rest (snd st)) else snd st)"
    by (cases st) (auto simp: skips_def goes_def st_def [symmetric] split: sum.splits prod.splits)
  have IH: "R (snd (claim_loop mode env owner us rest (snd st)))" if "skips \<or> goes"
  proof (cases skips)
    case True
    show ?thesis
      by (rule step, rule 2(1) [of st "fst st" "snd st"]) (use True dist fresh(2) in \<open>auto simp: st_def skips_def\<close>)
  next
    case False
    then obtain rec where "fst st = 1" "readClaimed mid token (snd st) = Inr rec" using \<open>skips \<or> goes\<close> by (auto simp: goes_def)
    then show ?thesis
      by (intro step, intro 2(2) [of st "fst st" "snd st" rec])
        (use False dist fresh(2) in \<open>auto simp: st_def skips_def prod_eq_iff\<close>)
  qed
  show ?case
    unfolding R_def [symmetric] unfold using stop IH by simp
qed simp


lemma select_ids_distinct: "ids_distinct tab \<Longrightarrow> distinct (select_ids P key skip limit tab)"
proof -
  assume "ids_distinct tab"
  then have "distinct (map or_messageId (filter (\<lambda>r. P r \<and> or_messageId r \<notin> skip) tab))"
    by (auto simp: ids_distinct_def distinct_map inj_on_def)
  then have "distinct (map or_messageId (sort_key key (filter (\<lambda>r. P r \<and> or_messageId r \<notin> skip) tab)))"
    by (simp add: distinct_map)
  then show ?thesis by (simp add: select_ids_def take_map [symmetric])
qed

lemma claimCandidates_distinct: "ids_distinct tab \<Longrightarrow> distinct (claimCandidates mode now skip limit tab)"
  by (cases mode) (simp_all add: claimCandidates_def select_ids_distinct)

definition claim_pairs :: "claim_mode \<Rightarrow> db_env \<Rightarrow> int \<Rightarrow> (nat \<Rightarrow> string) \<Rightarrow> outbox_table \<Rightarrow> (string \<times> string) list" where
  "claim_pairs mode env limit tokens tab =
    (let ids = claimCandidates mode (de_now env) (de_skip env) limit tab in zip ids (map tokens [0..<length ids]))"

lemma fst_claim_pairs: "map fst (claim_pairs mode env limit tokens tab) = claimCandidates mode (de_now env) (de_skip env) limit tab"
  by (simp add: claim_pairs_def Let_def)

lemma store_claim_ok:
  assumes "fst (store_claim mode env owner limit d tokens tab) = Inr recs"
  shows "0 < limit \<and> 0 < d \<and> fst (claim_loop mode env owner (durationArgument (de_kind env) d)
    (claim_pairs mode env limit tokens tab) tab) = Inr recs"
proof (cases "de_fail env")
  case None
  define out where "out = claim_loop mode env owner (durationArgument (de_kind env) d) (claim_pairs mode env limit tokens tab) tab"
  have "fst out = Inr recs \<and> 0 < limit \<and> 0 < d"
    using assms None
    by (cases out; cases "fst out")
      (auto simp: store_claim_def transaction_def claimWithin_def Let_def claim_pairs_def out_def split: if_splits)
  then show ?thesis by (simp add: out_def)
qed (use assms in \<open>simp add: store_claim_def transaction_def split: if_splits\<close>)

lemma store_claim_rows:
  assumes "ids_distinct tab"
  shows "map or_messageId (snd (store_claim mode env owner limit d tokens tab)) = map or_messageId tab \<and>
    (row_of (snd (store_claim mode env owner limit d tokens tab)) m = row_of tab m \<or>
     (\<exists>r r' i. row_of tab m = Some r \<and> 0 < d \<and>
        takes_row mode env owner (durationArgument (de_kind env) d) (tokens i) r r' \<and>
        row_of (snd (store_claim mode env owner limit d tokens tab)) m = Some r'))"
proof -
  define ids where "ids = claimCandidates mode (de_now env) (de_skip env) limit tab"
  define pairs where "pairs = zip ids (map tokens [0..<length ids])"
  define us where "us = durationArgument (de_kind env) d"
  have "distinct (map fst pairs)"
    using claimCandidates_distinct [OF assms] by (simp add: pairs_def ids_def)
  note L = claim_loop_rows [OF assms this, where m = m and mode = mode and env = env and owner = owner and us = us]
  have token: "\<exists>i. t = tokens i" if "(m, t) \<in> set pairs" for t
    using that by (auto simp: pairs_def set_zip)
  have eq: "store_claim mode env owner limit d tokens tab =
      (if \<not> de_ready env then (Inl not_ready, tab)
       else if trim_space owner = [] \<or> limit \<le> 0 \<or> d \<le> 0 then (Inl (PlainError ''claim arguments invalid''), tab)
       else transaction (de_fail env) (claim_loop mode env owner us pairs) tab)"
    by (simp add: store_claim_def claimWithin_def [abs_def] Let_def ids_def pairs_def us_def transaction_def)
  show ?thesis
    using L token unfolding eq us_def [symmetric]
    by (auto simp: transaction_def split: option.splits sum.splits prod.splits) blast+
qed


lemma stmt_cleanupSent_row:
  assumes "ids_distinct tab"
  shows "row_of (snd (stmt_cleanupSent kind now us mid tab)) m =
      (case row_of tab m of Some r \<Rightarrow> if m = mid \<and> is_disposable (addDuration kind now us) r then None else Some r
       | None \<Rightarrow> None)"
    and "ids_distinct (snd (stmt_cleanupSent kind now us mid tab))"
proof -
  have "row_of (filter (\<lambda>r. \<not> (or_messageId r = mid \<and> Q r)) tab) m =
      (case row_of tab m of Some r \<Rightarrow> if m = mid \<and> Q r then None else Some r | None \<Rightarrow> None)" for Q
    using assms
  proof (induction tab)
    case (Cons r tab)
    have "m \<notin> or_messageId ` set tab" if "or_messageId r = m" using Cons.prems that by (auto simp: ids_distinct_def)
    then have "row_of (filter P tab) m = None" if "or_messageId r = m" for P using that by (auto simp: row_of_None)
    with Cons show ?case by (auto simp: ids_distinct_def)
  qed simp
  then show "row_of (snd (stmt_cleanupSent kind now us mid tab)) m =
      (case row_of tab m of Some r \<Rightarrow> if m = mid \<and> is_disposable (addDuration kind now us) r then None else Some r
       | None \<Rightarrow> None)"
    by (simp add: stmt_cleanupSent_def Let_def)
  show "ids_distinct (snd (stmt_cleanupSent kind now us mid tab))"
    using assms by (simp add: stmt_cleanupSent_def Let_def ids_distinct_def distinct_map_filter)
qed

lemma cleanup_loop_rows:
  assumes "ids_distinct tab"
  shows "ids_distinct (snd (cleanup_loop env us ids tab)) \<and>
    (row_of (snd (cleanup_loop env us ids tab)) m = row_of tab m \<or>
     (\<exists>r. row_of tab m = Some r \<and> is_disposable (addDuration (de_kind env) (de_later env) us) r \<and>
        row_of (snd (cleanup_loop env us ids tab)) m = None))"
  using assms
proof (induction ids arbitrary: tab)
  case (Cons mid rest)
  define st where "st = stmt_cleanupSent (de_kind env) (de_later env) us mid tab"
  note S = stmt_cleanupSent_row [OF Cons.prems, of "de_kind env" "de_later env" us mid, folded st_def]
  have "snd (cleanup_loop env us (mid # rest) tab) \<in> {snd st, snd (cleanup_loop env us rest (snd st))}"
    by (auto simp: st_def split: prod.splits sum.splits)
  then show ?case
    using Cons.IH [OF S(2)] S(1) [of m] S(2) by (auto split: option.splits if_splits)
qed simp

lemma CleanupSent_rows:
  assumes "ids_distinct tab"
  shows "ids_distinct (snd (outbox_CleanupSent env retention limit tab)) \<and>
    (row_of (snd (outbox_CleanupSent env retention limit tab)) m = row_of tab m \<or>
     (\<exists>r. row_of tab m = Some r \<and> 0 < retention \<and>
        is_disposable (addDuration (de_kind env) (de_later env) (durationArgument (de_kind env) (- retention))) r \<and>
        row_of (snd (outbox_CleanupSent env retention limit tab)) m = None))"
proof -
  define us where "us = durationArgument (de_kind env) (- retention)"
  define ids where "ids = stmt_cleanupCandidates (de_kind env) (de_now env) us limit tab"
  have "snd (outbox_CleanupSent env retention limit tab) \<in> {tab, snd (cleanup_loop env us ids tab)}"
    "retention \<le> 0 \<Longrightarrow> snd (outbox_CleanupSent env retention limit tab) = tab"
    by (auto simp: outbox_CleanupSent_def transaction_def Let_def us_def ids_def split: option.splits prod.splits sum.splits)
  with cleanup_loop_rows [OF assms, of env us ids m] assms show ?thesis
    unfolding us_def [symmetric] by (cases "0 < retention") auto
qed

section \<open>The operations of a store\<close>

datatype outbox_op =
    OpEnqueue db_env bool bool outbox_row
  | OpClaim claim_mode db_env string int duration "nat \<Rightarrow> string"
  | OpRenew db_env string string duration
  | OpSent db_env string string
  | OpRetry db_env string string duration string
  | OpDead db_env string string string
  | OpReplay db_env string
  | OpCleanup db_env duration int

definition succeeded :: "(go_error, 'a) result \<Rightarrow> bool" where
  "succeeded r = (case r of Inl _ \<Rightarrow> False | Inr _ \<Rightarrow> True)"

fun outbox_do :: "outbox_op \<Rightarrow> outbox_table \<Rightarrow> bool \<times> outbox_table" where
  "outbox_do (OpEnqueue env tx grp r) tab = map_prod succeeded (\<lambda>t. t) (outbox_Enqueue env tx grp r tab)"
| "outbox_do (OpClaim mode env owner limit d tokens) tab =
    map_prod succeeded (\<lambda>t. t) (store_claim mode env owner limit d tokens tab)"
| "outbox_do (OpRenew env mid token d) tab = map_prod succeeded (\<lambda>t. t) (outbox_Renew env mid token d tab)"
| "outbox_do (OpSent env mid token) tab = map_prod succeeded (\<lambda>t. t) (outbox_MarkSent env mid token tab)"
| "outbox_do (OpRetry env mid token d e) tab = map_prod succeeded (\<lambda>t. t) (outbox_MarkRetry env mid token d e tab)"
| "outbox_do (OpDead env mid token e) tab = map_prod succeeded (\<lambda>t. t) (outbox_MarkDead env mid token e tab)"
| "outbox_do (OpReplay env mid) tab = map_prod succeeded (\<lambda>t. t) (outbox_ReplayDead env mid tab)"
| "outbox_do (OpCleanup env d limit) tab = map_prod succeeded (\<lambda>t. t) (outbox_CleanupSent env d limit tab)"

definition outbox_run :: "outbox_op list \<Rightarrow> outbox_table \<Rightarrow> outbox_table" where
  "outbox_run ops tab = foldl (\<lambda>tab operation. snd (outbox_do operation tab)) tab ops"

lemma outbox_run_simps [simp]:
  "outbox_run [] tab = tab"
  "outbox_run (operation # ops) tab = outbox_run ops (snd (outbox_do operation tab))"
  by (simp_all add: outbox_run_def)

section \<open>The life of one message\<close>

text \<open>What one operation may do to one message, as the abstract state machine of the outbox.\<close>

inductive moves :: "outbox_op \<Rightarrow> outbox_row \<Rightarrow> outbox_row \<Rightarrow> bool" where
  claimed: "takes_row mode env owner (durationArgument (de_kind env) d) (tokens i) r r' \<Longrightarrow>
    moves (OpClaim mode env owner limit d tokens) r r'"
| renewed: "held_by mid token r \<Longrightarrow>
    r' = r\<lparr>or_leaseExpiresAt := map_option (\<lambda>t. renewDeadline (de_kind env) t (de_now env)
             (durationArgument (de_kind env) d)) (or_leaseExpiresAt r), or_updateTime := de_now env\<rparr> \<Longrightarrow>
    moves (OpRenew env mid token d) r r'"
| sent: "held_by mid token r \<Longrightarrow>
    moves (OpSent env mid token) r
      ((release (de_now env) r)\<lparr>or_status := StSent, or_sentAt := Some (de_now env), or_lastError := None\<rparr>)"
| retried: "held_by mid token r \<Longrightarrow>
    moves (OpRetry env mid token d e) r
      ((release (de_now env) r)\<lparr>or_status := StRetry,
        or_availableAt := addDuration (de_kind env) (de_now env) (durationArgument (de_kind env) d),
        or_lastError := Some e, or_sentAt := None\<rparr>)"
| died: "held_by mid token r \<Longrightarrow>
    moves (OpDead env mid token e) r
      ((release (de_now env) r)\<lparr>or_status := StDead, or_lastError := Some e, or_sentAt := None\<rparr>)"
| replayed: "or_messageId r = mid \<Longrightarrow> or_status r = StDead \<Longrightarrow>
    moves (OpReplay env mid) r
      ((release (de_later env) r)\<lparr>or_status := StRetry, or_attempts := 0, or_availableAt := de_later env,
        or_sentAt := None, or_lastError := None\<rparr>)"

inductive_cases moves_ClaimE: "moves (OpClaim mode env owner limit d tokens) r r'"

inductive removes :: "outbox_op \<Rightarrow> outbox_row \<Rightarrow> bool" where
  cleaned: "0 < d \<Longrightarrow>
    is_disposable (addDuration (de_kind env) (de_later env) (durationArgument (de_kind env) (- d))) r \<Longrightarrow>
    removes (OpCleanup env d limit) r"

inductive adds :: "outbox_op \<Rightarrow> outbox_row \<Rightarrow> bool" where
  enqueued: "adds (OpEnqueue env tx grp r) (r\<lparr>or_status := StPending, or_attempts := 0, or_availableAt := de_now env,
    or_leaseOwner := None, or_claimToken := None, or_leaseExpiresAt := None, or_lastError := None,
    or_createTime := de_now env, or_updateTime := de_now env, or_sentAt := None\<rparr>)"

definition life_step :: "outbox_op \<Rightarrow> outbox_row option \<Rightarrow> outbox_row option \<Rightarrow> bool" where
  "life_step operation x y \<longleftrightarrow> x = y \<or>
    (case (x, y) of
       (Some r, Some r') \<Rightarrow> moves operation r r'
     | (Some r, None) \<Rightarrow> removes operation r
     | (None, Some r') \<Rightarrow> adds operation r'
     | (None, None) \<Rightarrow> True)"

lemma life_step_refl [simp, intro]: "life_step operation x x"
  by (simp add: life_step_def)


lemma update_life:
  assumes "ids_distinct tab" "\<And>r. P r \<Longrightarrow> or_messageId r = mid" "\<And>r. or_messageId (f r) = or_messageId r"
    "\<And>r. P r \<Longrightarrow> moves operation r (f r)"
  shows "life_step operation (row_of tab m) (row_of (snd (update_rows P f tab)) m)"
    and "ids_distinct (snd (update_rows P f tab))"
proof -
  note U = update_one [where P = P and f = f and mid = mid and tab = tab, OF assms(1-3)]
  show "life_step operation (row_of tab m) (row_of (snd (update_rows P f tab)) m)"
    using U(2) [of m] assms(4) by (cases "row_of tab m") (auto simp: life_step_def)
  show "ids_distinct (snd (update_rows P f tab))" using U(3) assms(1) by (simp add: ids_distinct_def)
qed

lemma execClaimUpdate_life:
  assumes "ids_distinct tab" "\<And>r. or_messageId (f r) = or_messageId r"
    "\<And>r. held_by mid token r \<Longrightarrow> moves operation r (f r)"
  shows "ids_distinct (snd (execClaimUpdate env action (update_rows (held_by mid token) f) tab)) \<and>
    life_step operation (row_of tab m) (row_of (snd (execClaimUpdate env action (update_rows (held_by mid token) f) tab)) m)"
proof -
  note U = update_life [where P = "held_by mid token" and f = f and mid = mid, OF assms(1) held_by_id assms(2,3)]
  have "snd (execClaimUpdate env action (update_rows (held_by mid token) f) tab) \<in>
      {tab, snd (update_rows (held_by mid token) f tab)}"
    by (auto simp: execClaimUpdate_def split: option.splits prod.splits)
  with U assms(1) show ?thesis by auto
qed

lemma execClaimUpdate_ok:
  assumes "ids_distinct tab" "\<And>r. or_messageId (f r) = or_messageId r"
    "fst (execClaimUpdate env action (update_rows (held_by mid token) f) tab) = Inr u"
  shows "(\<exists>r. row_of tab mid = Some r \<and> held_by mid token r) \<and>
    row_of (snd (execClaimUpdate env action (update_rows (held_by mid token) f) tab)) mid = map_option f (row_of tab mid)"
proof -
  note U = update_one [where P = "held_by mid token" and f = f and mid = mid and tab = tab, OF assms(1) held_by_id assms(2)]
  have "fst (update_rows (held_by mid token) f tab) = 1"
    "snd (execClaimUpdate env action (update_rows (held_by mid token) f) tab) = snd (update_rows (held_by mid token) f tab)"
    using assms(3) by (auto simp: execClaimUpdate_def split: option.splits prod.splits if_splits)
  with U(1) U(2) show ?thesis by (auto split: option.splits if_splits)
qed

lemma Enqueue_life:
  assumes "ids_distinct tab"
  shows "ids_distinct (snd (outbox_Enqueue env tx grp r tab)) \<and>
    life_step (OpEnqueue env tx grp r) (row_of tab m) (row_of (snd (outbox_Enqueue env tx grp r tab)) m)"
proof -
  have "ids_distinct tab' \<and> life_step (OpEnqueue env tx grp r) (row_of tab m) (row_of tab' m)"
    if "stmt_enqueue (de_now env) r tab = Some tab'" for tab'
  proof -
    have tab': "tab' = tab @ [r\<lparr>or_status := StPending, or_attempts := 0, or_availableAt := de_now env,
        or_leaseOwner := None, or_claimToken := None, or_leaseExpiresAt := None, or_lastError := None,
        or_createTime := de_now env, or_updateTime := de_now env, or_sentAt := None\<rparr>]"
      and new: "or_messageId r \<notin> or_messageId ` set tab"
      using that by (auto simp: stmt_enqueue_def split: if_splits)
    show ?thesis
      using assms new
      by (cases "row_of tab m") (auto simp: tab' ids_distinct_def row_of_append life_step_def intro: enqueued)
  qed
  moreover have "snd (outbox_Enqueue env tx grp r tab) \<in> insert tab (set_option (stmt_enqueue (de_now env) r tab))"
    by (auto simp: outbox_Enqueue_def split: option.splits)
  ultimately show ?thesis using assms by auto
qed

lemma ReplayDead_life:
  assumes "ids_distinct tab"
  shows "ids_distinct (snd (outbox_ReplayDead env mid tab)) \<and>
    life_step (OpReplay env mid) (row_of tab m) (row_of (snd (outbox_ReplayDead env mid tab)) m)"
proof -
  define P :: "outbox_row \<Rightarrow> bool" and f :: "outbox_row \<Rightarrow> outbox_row" where "P = (\<lambda>r. or_messageId r = mid \<and> or_status r = StDead)"
    and "f = (\<lambda>r. (release (de_later env) r)\<lparr>or_status := StRetry, or_attempts := 0, or_availableAt := de_later env,
             or_sentAt := None, or_lastError := None\<rparr>)"
  have "snd (outbox_ReplayDead env mid tab) \<in> {tab, snd (update_rows P f tab)}"
    by (auto simp: outbox_ReplayDead_def transaction_def stmt_replayDead_def P_def f_def
        split: option.splits list.splits prod.splits sum.splits if_splits)
  moreover have "moves (OpReplay env mid) r (f r)" if "P r" for r
    using that unfolding P_def f_def by (auto intro: replayed)
  ultimately show ?thesis
    using update_life [where P = P and f = f and mid = mid and tab = tab and operation = "OpReplay env mid"] assms
    by (auto simp: P_def f_def)
qed

lemma outbox_do_life:
  assumes "ids_distinct tab"
  shows "ids_distinct (snd (outbox_do operation tab)) \<and>
    life_step operation (row_of tab m) (row_of (snd (outbox_do operation tab)) m)"
proof (cases operation)
  case (OpEnqueue env tx grp r)
  then show ?thesis using Enqueue_life [OF assms] by simp
next
  case (OpClaim mode env owner limit d tokens)
  then show ?thesis
    using store_claim_rows [OF assms, of mode env owner limit d tokens m] assms
    by (auto simp: ids_distinct_def life_step_def intro: claimed)
next
  case (OpRenew env mid token d)
  then show ?thesis
  proof (cases "d \<le> 0")
    case False
    then show ?thesis
      unfolding OpRenew outbox_do.simps snd_map_prod outbox_Renew_def if_not_P [OF False] stmt_renew_def
      by (intro execClaimUpdate_life [OF assms]) (auto intro: renewed)
  qed (simp add: outbox_Renew_def assms)
next
  case (OpSent env mid token)
  then show ?thesis
    unfolding OpSent outbox_do.simps snd_map_prod outbox_MarkSent_def stmt_markSent_def
    by (intro execClaimUpdate_life [OF assms]) (auto intro: sent)
next
  case (OpRetry env mid token d e)
  then show ?thesis
  proof (cases "d < 0")
    case False
    then show ?thesis
      unfolding OpRetry outbox_do.simps snd_map_prod outbox_MarkRetry_def if_not_P [OF False] stmt_markRetry_def
      by (intro execClaimUpdate_life [OF assms]) (auto intro: retried)
  qed (simp add: outbox_MarkRetry_def assms)
next
  case (OpDead env mid token e)
  then show ?thesis
    unfolding OpDead outbox_do.simps snd_map_prod outbox_MarkDead_def stmt_markDead_def
    by (intro execClaimUpdate_life [OF assms]) (auto intro: died)
next
  case (OpReplay env mid)
  then show ?thesis using ReplayDead_life [OF assms] by simp
next
  case (OpCleanup env d limit)
  then show ?thesis
    using CleanupSent_rows [OF assms, of env d limit m] by (auto simp: life_step_def intro: cleaned)
qed

section \<open>Well-formed rows stay well formed\<close>

lemma moves_row_ok: "moves operation r r' \<Longrightarrow> row_ok r \<Longrightarrow> row_ok r'"
proof (induction rule: moves.induct)
  case (claimed mode env owner d tokens i r r' limit)
  then show ?case
    by (cases "or_status r")
      (auto simp: takes_row_def claimed_row_def set_lease_def row_ok_def mode_takes_def is_ready_def is_expired_def)
qed (auto simp: row_ok_def held_by_def)

lemma moves_id: "moves operation r r' \<Longrightarrow> or_messageId r' = or_messageId r"
  by (induction rule: moves.induct) (auto simp: takes_row_def claimed_row_def)

definition same_content :: "outbox_row \<Rightarrow> outbox_row \<Rightarrow> bool" where
  "same_content r r' \<longleftrightarrow> or_messageId r' = or_messageId r \<and> or_topic r' = or_topic r \<and>
    or_messageType r' = or_messageType r \<and> or_messageVersion r' = or_messageVersion r \<and>
    or_messageKey r' = or_messageKey r \<and> or_payload r' = or_payload r \<and> or_headers r' = or_headers r \<and>
    or_createTime r' = or_createTime r"

lemma moves_content: "moves operation r r' \<Longrightarrow> same_content r r'"
  by (induction rule: moves.induct) (auto simp: takes_row_def claimed_row_def set_lease_def release_def same_content_def)

lemma adds_row_ok: "adds operation r \<Longrightarrow> row_ok r"
  by (induction rule: adds.induct) (simp add: row_ok_def unleased_def)

lemma life_step_row_ok:
  "life_step operation x (Some r') \<Longrightarrow> (\<And>r. x = Some r \<Longrightarrow> row_ok r) \<Longrightarrow> row_ok r'"
  by (cases x) (auto simp: life_step_def intro: moves_row_ok adds_row_ok)

lemma outbox_do_ok: "outbox_ok tab \<Longrightarrow> outbox_ok (snd (outbox_do operation tab))"
  using outbox_do_life [of tab operation] life_step_row_ok [of operation]
  unfolding outbox_ok_def by metis

lemma outbox_run_ok: "outbox_ok tab \<Longrightarrow> outbox_ok (outbox_run ops tab)"
  by (induction ops arbitrary: tab) (simp_all add: outbox_do_ok)

lemma outbox_ok_Nil [simp]: "outbox_ok []"
  by (simp add: outbox_ok_def ids_distinct_def)

text \<open>A message as the examples use it.\<close>

definition some_row :: outbox_row where
  "some_row = \<lparr>or_messageId = ''m'', or_topic = ''t'', or_messageType = ''y'', or_messageVersion = 1,
     or_messageKey = None, or_payload = ''1'', or_headers = [], or_status = StLeased, or_attempts = 1,
     or_availableAt = 0, or_leaseOwner = Some ''w'', or_claimToken = Some ''a'', or_leaseExpiresAt = Some 10,
     or_lastError = None, or_createTime = 0, or_updateTime = 0, or_sentAt = None\<rparr>"

definition some_env :: "int \<Rightarrow> db_env" where
  "some_env now = \<lparr>de_kind = MySQL, de_ready = True, de_fail = None, de_now = now, de_later = now, de_skip = {}\<rparr>"

lemma some_table_ok: "outbox_ok [some_row]"
  by (auto simp: outbox_ok_def ids_distinct_def some_row_def row_ok_def split: if_splits)

text \<open>C19: Whatever sequence of enqueues, claims, renewals, settlements, replays and clean-ups the
  store runs, every row stays well formed: identifiers are unique, a leased row has an owner, a
  token, a deadline and at least one attempt, no other row has any of them, a sent row has its
  time of sending and no error, a dead row has its error.\<close>

theorem outbox_rows_well_formed:
  assumes "outbox_ok tab"
  shows "ids_distinct (outbox_run ops tab) \<and> (\<forall>r \<in> set (outbox_run ops tab). row_ok r)"
  using outbox_run_ok [OF assms, of ops] row_of_mem by (fastforce simp: outbox_ok_def)

theorem outbox_rows_well_formed_witness:
  "ids_distinct (outbox_run [OpSent (some_env 3) ''m'' ''a''] [some_row]) \<and>
   list_all row_ok (outbox_run [OpSent (some_env 3) ''m'' ''a''] [some_row])"
  unfolding list_all_iff by (rule outbox_rows_well_formed [OF some_table_ok])

text \<open>C1: The store refines the life cycle of single messages: whatever an operation does to the
  table, each message either keeps its row, makes exactly one of the moves that the life cycle
  allows to this operation (claimed, renewed, sent, retried, dead, replayed), is added by its
  own enqueue, or is removed by a clean-up.\<close>

theorem outbox_refines_lifecycle:
  assumes "outbox_ok tab"
  shows "life_step operation (row_of tab m) (row_of (snd (outbox_do operation tab)) m)"
  using outbox_do_life outbox_okD(1) [OF assms] by blast

theorem outbox_refines_lifecycle_witness:
  "life_step (OpSent (some_env 3) ''m'' ''a'') (row_of [some_row] ''m'')
     (row_of (snd (outbox_do (OpSent (some_env 3) ''m'' ''a'') [some_row])) ''m'')"
  by (rule outbox_refines_lifecycle [OF some_table_ok])

section \<open>Claims\<close>

definition settles :: "string \<Rightarrow> string \<Rightarrow> outbox_op \<Rightarrow> bool" where
  "settles mid token operation =
    (case operation of
       OpSent _ m t \<Rightarrow> m = mid \<and> t = token
     | OpRetry _ m t _ _ \<Rightarrow> m = mid \<and> t = token
     | OpDead _ m t _ \<Rightarrow> m = mid \<and> t = token
     | _ \<Rightarrow> False)"

definition hands_out :: "string \<Rightarrow> outbox_op \<Rightarrow> bool" where
  "hands_out token operation = (case operation of OpClaim _ _ _ _ _ tokens \<Rightarrow> token \<in> range tokens | _ \<Rightarrow> False)"

definition claim_held :: "string \<Rightarrow> string \<Rightarrow> outbox_table \<Rightarrow> bool" where
  "claim_held mid token tab = (case row_of tab mid of None \<Rightarrow> False | Some r \<Rightarrow> held_by mid token r)"

lemma exec_settles:
  assumes "ids_distinct tab" "\<And>r. or_messageId (f r) = or_messageId r" "\<And>r. or_status (f r) \<noteq> StLeased"
    "succeeded (fst (execClaimUpdate env action (update_rows (held_by mid token) f) tab))"
  shows "claim_held mid token tab \<and>
    \<not> claim_held mid token (snd (execClaimUpdate env action (update_rows (held_by mid token) f) tab))"
proof -
  have "fst (execClaimUpdate env action (update_rows (held_by mid token) f) tab) = Inr ()"
    using assms(4) by (auto simp: succeeded_def split: sum.splits)
  from execClaimUpdate_ok [OF assms(1,2) this] show ?thesis
    using assms(3) by (auto simp: claim_held_def held_by_def)
qed

lemma settle_result:
  assumes "ids_distinct tab" "settles mid token operation" "fst (outbox_do operation tab)"
  shows "claim_held mid token tab \<and> \<not> claim_held mid token (snd (outbox_do operation tab))"
proof (cases operation)
  case (OpSent env m t)
  with assms(2) have eq: "m = mid" "t = token" by (simp_all add: settles_def)
  show ?thesis
    using assms(3) unfolding eq OpSent outbox_do.simps fst_map_prod snd_map_prod outbox_MarkSent_def stmt_markSent_def
    by (intro exec_settles [OF assms(1)]) simp_all
next
  case (OpRetry env m t d e)
  with assms(2) have eq: "m = mid" "t = token" by (simp_all add: settles_def)
  have no: "\<not> d < 0" using assms(3) OpRetry by (auto simp: outbox_MarkRetry_def succeeded_def)
  show ?thesis
    using assms(3)
    unfolding OpRetry outbox_do.simps fst_map_prod snd_map_prod outbox_MarkRetry_def stmt_markRetry_def if_not_P [OF no] eq
    by (intro exec_settles [OF assms(1)]) simp_all
next
  case (OpDead env m t e)
  with assms(2) have eq: "m = mid" "t = token" by (simp_all add: settles_def)
  show ?thesis
    using assms(3) unfolding eq OpDead outbox_do.simps fst_map_prod snd_map_prod outbox_MarkDead_def stmt_markDead_def
    by (intro exec_settles [OF assms(1)]) simp_all
qed (use assms(2) in \<open>simp_all add: settles_def\<close>)

lemma held_kept:
  assumes "ids_distinct tab" "\<not> claim_held mid token tab" "\<not> hands_out token operation"
  shows "\<not> claim_held mid token (snd (outbox_do operation tab))"
proof
  assume "claim_held mid token (snd (outbox_do operation tab))"
  then obtain r' where r': "row_of (snd (outbox_do operation tab)) mid = Some r'" "held_by mid token r'"
    by (auto simp: claim_held_def split: option.splits)
  have "life_step operation (row_of tab mid) (Some r')" using outbox_do_life [OF assms(1), of operation mid] r'(1) by simp
  moreover have "adds operation r' \<Longrightarrow> False" using r'(2) by (auto simp: adds.simps held_by_def)
  ultimately obtain r where r: "row_of tab mid = Some r" "r' = r \<or> moves operation r r'"
    by (auto simp: life_step_def split: option.splits)
  have "\<not> held_by mid token r" using assms(2) r(1) by (simp add: claim_held_def)
  moreover have "moves operation r r' \<Longrightarrow> held_by mid token r' \<Longrightarrow> \<not> hands_out token operation \<Longrightarrow> held_by mid token r"
    by (induction rule: moves.induct)
      (auto simp: held_by_def takes_row_def claimed_row_def set_lease_def hands_out_def release_def split: if_splits)
  ultimately show False using r(2) r'(2) assms(3) by blast
qed

interpretation settle_once: one_shot outbox_do ids_distinct "claim_held mid token" "settles mid token" "hands_out token"
  for mid token
proof unfold_locales
  show "ids_distinct s \<Longrightarrow> ids_distinct (snd (outbox_do operation s))" for s operation
    using outbox_do_life by blast
qed (use settle_result held_kept in \<open>auto simp: settles_def\<close>)

text \<open>C21: A claim settles its message at most once: however the operations interleave, the reports
  sent, retry and dead made with one claim token succeed at most once in all, as long as no
  later claim hands out the same random token.\<close>

theorem claim_settles_once:
  assumes "outbox_ok tab" "\<forall>operation \<in> set ops. \<not> hands_out token operation"
  shows "successes outbox_do (settles mid token) ops tab \<le> 1"
  using settle_once.at_most_once outbox_okD(1) assms by blast

theorem claim_settles_once_witness:
  "successes outbox_do (settles ''m'' ''a'')
     [OpRetry (some_env 3) ''m'' ''a'' 5 ''e'', OpClaim ClaimAny (some_env 9) ''w'' 5 5 (\<lambda>_. ''b''),
      OpSent (some_env 9) ''m'' ''a''] [some_row] \<le> 1"
  by (rule claim_settles_once [OF some_table_ok]) (simp add: hands_out_def)


lemma held_by_unique: "held_by mid token r \<Longrightarrow> held_by mid' token' r \<Longrightarrow> mid' = mid \<and> token' = token"
  by (simp add: held_by_def)

text \<open>A report or renewal with a claim that the row does not hold changes nothing.\<close>

lemma stale_update:
  assumes "ids_distinct tab" "\<not> claim_held mid token tab"
  shows "update_rows (held_by mid token) f tab = (0, tab)"
proof -
  have "filter (held_by mid token) tab = []" if "\<forall>r \<in> set tab. \<not> held_by mid token r"
    using that by (simp add: filter_empty_conv)
  moreover have no: "\<forall>r \<in> set tab. \<not> held_by mid token r"
    using assms row_of_mem [OF assms(1)] by (auto simp: claim_held_def held_by_def)
  moreover have "map (\<lambda>r. if held_by mid token r then f r else r) tab = tab"
    using no by (induction tab) auto
  ultimately show ?thesis by (simp add: update_rows_def)
qed

text \<open>Fencing: whoever reports on a message without holding its current claim, be it
  because the lease lapsed and another worker claimed the message or because it was settled
  already, is told that the claim is lost (or of an invalid argument or driver error), and
  the table is unchanged.\<close>

theorem stale_claim_changes_nothing:
  assumes "outbox_ok tab" "\<not> claim_held mid token tab" "de_ready env" "de_fail env = None"
  shows "outbox_MarkSent env mid token tab = (Inl ErrClaimLost, tab) \<and>
    outbox_MarkDead env mid token summary tab = (Inl ErrClaimLost, tab) \<and>
    (0 \<le> retryAfter \<longrightarrow> outbox_MarkRetry env mid token retryAfter summary tab = (Inl ErrClaimLost, tab)) \<and>
    (0 < lease \<longrightarrow> outbox_Renew env mid token lease tab = (Inl ErrClaimLost, tab))"
  using stale_update [OF outbox_okD(1) [OF assms(1)] assms(2)] assms(3,4)
  by (simp add: outbox_MarkSent_def outbox_MarkDead_def outbox_MarkRetry_def outbox_Renew_def execClaimUpdate_def
      stmt_markSent_def stmt_markDead_def stmt_markRetry_def stmt_renew_def)

theorem stale_claim_changes_nothing_witness:
  "outbox_MarkSent (some_env 12) ''m'' ''b'' [some_row] = (Inl ErrClaimLost, [some_row]) \<and>
    outbox_MarkDead (some_env 12) ''m'' ''b'' ''e'' [some_row] = (Inl ErrClaimLost, [some_row]) \<and>
    (0 \<le> (5 :: int) \<longrightarrow> outbox_MarkRetry (some_env 12) ''m'' ''b'' 5 ''e'' [some_row] = (Inl ErrClaimLost, [some_row])) \<and>
    (0 < (5 :: int) \<longrightarrow> outbox_Renew (some_env 12) ''m'' ''b'' 5 [some_row] = (Inl ErrClaimLost, [some_row]))"
  by (rule stale_claim_changes_nothing [OF some_table_ok])
    (simp_all add: claim_held_def some_row_def held_by_def some_env_def)

definition disturbs :: "string \<Rightarrow> string \<Rightarrow> int \<Rightarrow> outbox_op \<Rightarrow> bool" where
  "disturbs mid token deadline operation \<longleftrightarrow> settles mid token operation \<or>
    (case operation of
       OpRenew _ m t _ \<Rightarrow> m = mid \<and> t = token
     | OpClaim _ env _ _ _ _ \<Rightarrow> deadline \<le> de_later env
     | _ \<Rightarrow> False)"

lemma undisturbed_step:
  assumes "ids_distinct tab" "row_of tab mid = Some r" "held_by mid token r" "\<not> disturbs mid token (lease_time r) operation"
    "or_leaseExpiresAt r \<noteq> None"
  shows "row_of (snd (outbox_do operation tab)) mid = Some r"
proof -
  have L: "life_step operation (Some r) (row_of (snd (outbox_do operation tab)) mid)"
    using outbox_do_life [OF assms(1), of operation mid] assms(2) by simp
  have "\<not> removes operation r" using assms(3) by (auto simp: removes.simps held_by_def is_disposable_def)
  moreover have "\<not> moves operation r r'" for r'
  proof
    assume "moves operation r r'"
    then show False using assms(3-5)
      by (induction rule: moves.induct)
        (auto simp: disturbs_def settles_def held_by_def takes_row_def mode_takes_def is_ready_def is_expired_def lease_time_def)
  qed
  ultimately show ?thesis using L by (auto simp: life_step_def split: option.splits)
qed

text \<open>C20: A claim is exclusive until its lease ends: while no claim update runs at or after the
  deadline, nothing but a report or renewal with the claim's own token changes the row; other
  workers can neither take, settle, replay nor remove the message.\<close>

theorem claim_exclusive:
  assumes "outbox_ok tab" "row_of tab mid = Some r" "held_by mid token r"
    "\<forall>operation \<in> set ops. \<not> disturbs mid token (lease_time r) operation"
  shows "row_of (outbox_run ops tab) mid = Some r"
proof -
  have "or_leaseExpiresAt r \<noteq> None"
    using outbox_okD(2) [OF assms(1,2)] assms(3) by (auto simp: held_by_def row_ok_def)
  then show ?thesis
    using assms
  proof (induction ops arbitrary: tab)
    case (Cons operation ops)
    then show ?case
      using undisturbed_step [OF outbox_okD(1), of tab mid r token operation] by (simp add: outbox_do_ok)
  qed simp
qed

theorem claim_exclusive_witness:
  "row_of (outbox_run [OpClaim ClaimAny (some_env 9) ''v'' 5 5 (\<lambda>_. ''b''), OpSent (some_env 9) ''m'' ''b'']
     [some_row]) ''m'' = Some some_row"
proof (rule claim_exclusive [OF some_table_ok])
  show "row_of [some_row] ''m'' = Some some_row" "held_by ''m'' ''a'' some_row"
    by (simp_all add: some_row_def held_by_def)
qed (simp add: disturbs_def settles_def lease_time_def some_row_def some_env_def)

section \<open>Nothing is lost\<close>

definition marks_sent :: "string \<Rightarrow> outbox_op \<Rightarrow> bool" where
  "marks_sent mid operation = (case operation of OpSent _ m _ \<Rightarrow> m = mid | _ \<Rightarrow> False)"

lemma kept_step:
  assumes "ids_distinct tab" "row_of tab mid = Some r" "or_status r \<noteq> StSent" "\<not> marks_sent mid operation"
  obtains r' where "row_of (snd (outbox_do operation tab)) mid = Some r'" "or_status r' \<noteq> StSent" "same_content r r'"
proof -
  have L: "life_step operation (Some r) (row_of (snd (outbox_do operation tab)) mid)"
    using outbox_do_life [OF assms(1), of operation mid] assms(2) by simp
  have "\<not> removes operation r" using assms(3) by (auto simp: removes.simps is_disposable_def)
  moreover have "or_status r' \<noteq> StSent" if "moves operation r r'" for r'
  proof -
    have "or_messageId r = mid" using row_of_SomeD [OF assms(2)] by simp
    with that assms(3,4) show ?thesis
      by (induction rule: moves.induct) (auto simp: marks_sent_def held_by_def takes_row_def claimed_row_def set_lease_def)
  qed
  ultimately show ?thesis
    using L moves_content [of operation r] assms(3) that
    by (auto simp: life_step_def same_content_def split: option.splits)
qed

text \<open>C22: Nothing is lost: a message that is not sent yet stays in the store with its content
  unchanged through any operations, crashes of workers included, until some operation
  marks it sent; clean-up never removes it.\<close>

theorem unsent_message_kept:
  assumes "outbox_ok tab" "row_of tab mid = Some r" "or_status r \<noteq> StSent"
    "\<forall>operation \<in> set ops. \<not> marks_sent mid operation"
  shows "\<exists>r'. row_of (outbox_run ops tab) mid = Some r' \<and> or_status r' \<noteq> StSent \<and> same_content r r'"
  using assms
proof (induction ops arbitrary: tab r)
  case Nil
  then show ?case by (simp add: same_content_def)
next
  case (Cons operation ops)
  obtain r' where r': "row_of (snd (outbox_do operation tab)) mid = Some r'" "or_status r' \<noteq> StSent" "same_content r r'"
    using kept_step [OF outbox_okD(1) [OF Cons.prems(1)] Cons.prems(2,3), of operation] Cons.prems(4) by auto
  then show ?case
    using Cons.IH [OF outbox_do_ok [OF Cons.prems(1)] r'(1,2)] Cons.prems(4) by (auto simp: same_content_def)
qed

theorem unsent_message_kept_witness:
  "\<exists>r'. row_of (outbox_run [OpRetry (some_env 9) ''m'' ''a'' 5 ''e'', OpCleanup (some_env 99) 1 9] [some_row]) ''m'' = Some r' \<and>
     or_status r' \<noteq> StSent \<and> same_content some_row r'"
  by (rule unsent_message_kept [OF some_table_ok]) (simp_all add: some_row_def marks_sent_def)


section \<open>Claims are served oldest first\<close>

definition waiting_since :: "outbox_row \<Rightarrow> int" where
  "waiting_since r = (if or_status r = StLeased then lease_time r else or_availableAt r)"

lemma select_ids_least:
  assumes "ids_distinct tab" "mid \<in> set (select_ids P key skip limit tab)"
    "r \<in> set tab" "P r" "or_messageId r \<notin> skip" "or_messageId r \<notin> set (select_ids P key skip limit tab)"
  shows "length (select_ids P key skip limit tab) = nat limit \<and>
    (\<exists>r2. row_of tab mid = Some r2 \<and> P r2 \<and> mid \<notin> skip \<and> key r2 \<le> key r)"
proof -
  define xs where "xs = sort_key key (filter (\<lambda>r. P r \<and> or_messageId r \<notin> skip) tab)"
  have ids: "select_ids P key skip limit tab = map or_messageId (take (nat limit) xs)"
    by (simp add: select_ids_def xs_def)
  have set_xs: "set xs = {r \<in> set tab. P r \<and> or_messageId r \<notin> skip}" by (simp add: xs_def)
  have later: "r \<in> set (drop (nat limit) xs)"
    using assms(3-6) set_xs append_take_drop_id [of "nat limit" xs] unfolding ids
    by (metis (mono_tags, lifting) UnE image_eqI list.set_map mem_Collect_eq set_append)
  obtain r2 where r2: "r2 \<in> set (take (nat limit) xs)" "or_messageId r2 = mid" using assms(2) ids by auto
  have "sorted (map key (take (nat limit) xs @ drop (nat limit) xs))" by (simp add: xs_def)
  then have "key r2 \<le> key r" using later r2(1) unfolding map_append sorted_append by force
  moreover have "r2 \<in> set tab" "P r2" "mid \<notin> skip"
    using r2 set_xs by (auto dest: in_set_takeD)
  moreover have "nat limit < length xs" using later by (cases "length xs \<le> nat limit") auto
  ultimately show ?thesis using row_of_mem [OF assms(1)] r2(2) by (fastforce simp: ids)
qed

lemma claim_loop_all:
  assumes "ids_distinct tab" "de_kind env \<noteq> SQLite" "fst (claim_loop mode env owner us pairs tab) = Inr recs"
  shows "map (or_messageId \<circ> rd_row) recs = map fst pairs"
  using assms
proof (induction mode env owner us pairs tab arbitrary: recs rule: claim_loop.induct)
  case (2 mode env owner us mid token rest tab)
  define st where "st = stmt_claim mode (de_kind env) (de_later env) owner token us mid tab"
  have dist: "ids_distinct (snd st)"
    using stmt_claim_row(3) [OF 2(3), of mode "de_kind env" "de_later env" owner token us mid] 2(3)
    by (simp add: ids_distinct_def st_def)
  obtain rec recs' where R: "fst st = 1" "readClaimed mid token (snd st) = Inr rec" "recs = rec # recs'"
    "fst (claim_loop mode env owner us rest (snd st)) = Inr recs'"
    using 2(4,5) by (cases st) (auto simp: st_def [symmetric] split: if_splits sum.splits prod.splits)
  have "map (or_messageId \<circ> rd_row) recs' = map fst rest"
    by (rule 2(2) [of st "fst st" "snd st" rec]) (use R dist 2(4) in \<open>auto simp: st_def prod_eq_iff\<close>)
  moreover have "or_messageId (rd_row rec) = mid" using readClaimed_row [OF dist R(2)] by (simp add: held_by_def)
  ultimately show ?case using R(3) by (simp add: comp_def)
qed simp

lemma claimCandidates_least_aux:
  assumes "ids_distinct tab" "mid \<in> set (select_ids P key skip limit tab)"
    "r \<in> set tab" "P r" "or_messageId r \<notin> skip" "or_messageId r \<notin> set (select_ids P key skip limit tab)"
    "\<And>r2. P r2 \<Longrightarrow> mode_takes mode now r2" "\<And>r2. P r2 \<Longrightarrow> key r2 \<le> key r \<Longrightarrow> waiting_since r2 \<le> waiting_since r"
  shows "length (select_ids P key skip limit tab) = nat limit \<and>
    (\<exists>r2. row_of tab mid = Some r2 \<and> mode_takes mode now r2 \<and> mid \<notin> skip \<and> waiting_since r2 \<le> waiting_since r)"
  using select_ids_least [OF assms(1-6)] assms(7,8) by blast

lemma claimCandidates_least:
  assumes "ids_distinct tab" "mid \<in> set (claimCandidates mode now skip limit tab)"
    "r \<in> set tab" "mode_takes mode now r" "or_messageId r \<notin> skip" "or_messageId r \<notin> set (claimCandidates mode now skip limit tab)"
  shows "length (claimCandidates mode now skip limit tab) = nat limit \<and>
    (\<exists>r2. row_of tab mid = Some r2 \<and> mode_takes mode now r2 \<and> mid \<notin> skip \<and> waiting_since r2 \<le> waiting_since r)"
proof (cases mode)
  case ClaimAny
  with assms show ?thesis unfolding ClaimAny claimCandidates_def claim_mode.case
    by (intro claimCandidates_least_aux)
      (auto simp: mode_takes_def waiting_since_def split: if_splits)
next
  case ClaimReady
  with assms show ?thesis unfolding ClaimReady claimCandidates_def claim_mode.case
    by (intro claimCandidates_least_aux)
      (auto simp: mode_takes_def waiting_since_def is_ready_def less_eq_prod_def)
next
  case ClaimLapsed
  with assms show ?thesis unfolding ClaimLapsed claimCandidates_def claim_mode.case
    by (intro claimCandidates_least_aux)
      (auto simp: mode_takes_def waiting_since_def is_expired_def less_eq_prod_def)
qed

lemma select_ids_Nil:
  assumes "0 < limit"
  shows "select_ids P key skip limit tab = [] \<longleftrightarrow> (\<forall>r \<in> set tab. P r \<longrightarrow> or_messageId r \<in> skip)"
proof -
  define F where "F = filter (\<lambda>r. P r \<and> or_messageId r \<notin> skip) tab"
  have "select_ids P key skip limit tab = [] \<longleftrightarrow> sort_key key F = []" using assms by (simp add: select_ids_def F_def)
  also have "\<dots> \<longleftrightarrow> F = []" by (metis length_0_conv length_sort)
  finally show ?thesis by (auto simp: F_def filter_empty_conv)
qed

lemma claimCandidates_Nil:
  assumes "0 < limit" "claimCandidates mode now skip limit tab = []" "r \<in> set tab" "mode_takes mode now r"
  shows "or_messageId r \<in> skip"
  using assms by (cases mode) (auto simp: claimCandidates_def mode_takes_def select_ids_Nil)

definition waiting_row :: "string \<Rightarrow> int \<Rightarrow> outbox_row" where
  "waiting_row mid t = some_row\<lparr>or_messageId := mid, or_status := StRetry, or_leaseOwner := None, or_claimToken := None,
     or_leaseExpiresAt := None, or_availableAt := t\<rparr>"

definition id_one :: string where "id_one = ''01890000-0000-7000-8000-000000000001''"
definition id_two :: string where "id_two = ''01890000-0000-7000-8000-000000000002''"

lemma two_waiting_ok: "outbox_ok [waiting_row id_one 5, waiting_row id_two 3]"
  by (auto simp: outbox_ok_def ids_distinct_def waiting_row_def some_row_def row_ok_def unleased_def id_one_def id_two_def
      split: if_splits)

definition claimed_two :: outbox_row where
  "claimed_two = claimed_row MySQL 9 ''w'' ''b'' 5 (waiting_row id_two 3)"

lemma claim_of_two:
  assumes "mode \<noteq> ClaimLapsed"
  shows "store_claim mode (some_env 9) ''w'' 1 5000 (\<lambda>_. ''b'') [waiting_row id_one 5, waiting_row id_two 3] =
     (Inr [\<lparr>rd_row = claimed_two, rd_claimToken = ''b''\<rparr>], [waiting_row id_one 5, claimed_two])"
proof -
  have "claimCandidates mode 9 {} 1 [waiting_row id_one 5, waiting_row id_two 3] = [id_two]"
    using assms by (cases mode) (simp_all add: claimCandidates_def select_ids_def is_ready_def is_expired_def waiting_row_def some_row_def id_one_def
        id_two_def less_eq_prod_def)
  moreover have "validMessageID id_two" by code_simp
  moreover have "trim_space ''w'' = ''w''" by (simp add: ascii_eval)
  moreover have "id_one \<noteq> id_two" "id_two \<noteq> []" by (simp_all add: id_one_def id_two_def)
  ultimately show ?thesis
    using assms by (cases mode) (simp_all add: store_claim_def some_env_def transaction_def claimWithin_def durationArgument_def go_div_def claimed_two_def
        claimed_row_def set_lease_def stmt_claim_def update_rows_def readClaimed_def stmt_readClaimed_def held_by_def toRecord_def
        waiting_row_def some_row_def is_ready_def is_expired_def validStatus_def)
qed

text \<open>On MySQL and PostgreSQL a successful claim returns every message it selected, at most
  as many as asked for; and if a claimable message that nobody has locked is left out, the
  batch is full of messages that have been waiting at least as long.\<close>

theorem claims_oldest_first:
  assumes "outbox_ok tab" "de_kind env \<noteq> SQLite"
    "fst (store_claim mode env owner limit d tokens tab) = Inr recs"
    "row_of tab mid = Some r" "mode_takes mode (de_now env) r" "mid \<notin> de_skip env"
    "mid \<notin> set (map (or_messageId \<circ> rd_row) recs)"
  shows "length recs = nat limit \<and>
    (\<forall>mid2 \<in> set (map (or_messageId \<circ> rd_row) recs).
       \<exists>r2. row_of tab mid2 = Some r2 \<and> mode_takes mode (de_now env) r2 \<and> waiting_since r2 \<le> waiting_since r)"
proof -
  define ids where "ids = claimCandidates mode (de_now env) (de_skip env) limit tab"
  have recs: "map (or_messageId \<circ> rd_row) recs = ids" "0 < limit"
    using claim_loop_all [OF outbox_okD(1) [OF assms(1)] assms(2), of mode owner "durationArgument (de_kind env) d"
        "claim_pairs mode env limit tokens tab" recs] store_claim_ok [OF assms(3)]
    by (simp_all add: ids_def fst_claim_pairs)
  have r: "r \<in> set tab" "or_messageId r = mid" using row_of_SomeD [OF assms(4)] by simp_all
  have least: "length ids = nat limit \<and>
      (\<exists>r2. row_of tab mid2 = Some r2 \<and> mode_takes mode (de_now env) r2 \<and> waiting_since r2 \<le> waiting_since r)"
    if "mid2 \<in> set ids" for mid2
    using claimCandidates_least [OF outbox_okD(1) [OF assms(1)] that [unfolded ids_def] r(1) assms(5)]
      assms(6) assms(7) [unfolded recs(1) ids_def] r(2) by (auto simp: ids_def)
  have "ids \<noteq> []"
    using claimCandidates_Nil [OF recs(2) _ r(1) assms(5)] assms(6) r(2) by (auto simp: ids_def)
  then obtain mid2 where "mid2 \<in> set ids" by (cases ids) auto
  then have "length ids = nat limit" using least by blast
  moreover have "length recs = length ids" using recs(1) by (metis length_map)
  ultimately show ?thesis using least recs(1) by simp
qed


theorem claims_oldest_first_witness:
  "list_all (\<lambda>mid2. \<exists>r2. row_of [waiting_row id_one 5, waiting_row id_two 3] mid2 = Some r2 \<and>
       waiting_since r2 \<le> waiting_since (waiting_row id_one 5))
     (map (or_messageId \<circ> rd_row) [\<lparr>rd_row = claimed_two, rd_claimToken = ''b''\<rparr>])"
proof -
  have "length [\<lparr>rd_row = claimed_two, rd_claimToken = ''b''\<rparr>] = nat 1 \<and>
    (\<forall>mid2 \<in> set (map (or_messageId \<circ> rd_row) [\<lparr>rd_row = claimed_two, rd_claimToken = ''b''\<rparr>]).
       \<exists>r2. row_of [waiting_row id_one 5, waiting_row id_two 3] mid2 = Some r2 \<and>
         mode_takes ClaimAny (de_now (some_env 9)) r2 \<and> waiting_since r2 \<le> waiting_since (waiting_row id_one 5))"
  proof (rule claims_oldest_first [where mid = id_one, OF two_waiting_ok])
    show "fst (store_claim ClaimAny (some_env 9) ''w'' 1 5000 (\<lambda>_. ''b'') [waiting_row id_one 5, waiting_row id_two 3]) =
        Inr [\<lparr>rd_row = claimed_two, rd_claimToken = ''b''\<rparr>]"
      by (simp add: claim_of_two)
  qed (simp_all add: some_env_def waiting_row_def mode_takes_def is_ready_def claimed_two_def claimed_row_def id_one_def id_two_def)
  then show ?thesis unfolding list_all_iff by blast
qed

section \<open>The consumer inbox\<close>

text \<open>A consumer's attempt to register a message. When its transaction does not commit, the
  entry disappears and the attempt does not count.\<close>

record inbox_try =
  it_env :: db_env
  it_tx :: bool
  it_group :: bool
  it_consumer :: string
  it_message :: string
  it_commits :: bool

definition inbox_do :: "inbox_try \<Rightarrow> inbox_table \<Rightarrow> bool \<times> inbox_table" where
  "inbox_do t inbox =
    (let (res, inbox') = InsertIfAbsent (it_env t) (it_tx t) (it_group t) (it_consumer t) (it_message t) inbox
     in if it_commits t then (res = Inr True, inbox') else (False, inbox))"

lemma InsertIfAbsent_cases:
  "InsertIfAbsent env tx grp c m inbox \<in>
    {(Inr True, insert (c, m) inbox), (Inr False, inbox)} \<union> {(Inl e, inbox) | e. True}"
  "fst (InsertIfAbsent env tx grp c m inbox) = Inr True \<Longrightarrow> (c, m) \<notin> inbox"
  by (cases "de_kind env"; auto simp: InsertIfAbsent_def Let_def insert_absorb split: if_splits option.splits)+

interpretation inbox_once: one_shot inbox_do "\<lambda>_. True" "\<lambda>inbox. (c, m) \<notin> inbox"
  "\<lambda>t. it_consumer t = c \<and> it_message t = m" "\<lambda>_. False" for c m
proof unfold_locales
  fix s :: inbox_table and operation :: inbox_try
  let ?r = "InsertIfAbsent (it_env operation) (it_tx operation) (it_group operation) (it_consumer operation) (it_message operation) s"
  note I = InsertIfAbsent_cases [of "it_env operation" "it_tx operation" "it_group operation" "it_consumer operation" "it_message operation" s]
  show "it_consumer operation = c \<and> it_message operation = m \<Longrightarrow> fst (inbox_do operation s) \<Longrightarrow> (c, m) \<notin> s"
    using I(2) by (cases ?r) (auto simp: inbox_do_def split: if_splits)
  show "it_consumer operation = c \<and> it_message operation = m \<Longrightarrow> fst (inbox_do operation s) \<Longrightarrow>
      \<not> (c, m) \<notin> snd (inbox_do operation s)"
    using I(1) by (auto simp: inbox_do_def split: if_splits prod.splits)
  show "\<not> (c, m) \<notin> s \<Longrightarrow> \<not> (c, m) \<notin> snd (inbox_do operation s)"
    using I(1) by (auto simp: inbox_do_def split: if_splits prod.splits)
qed simp

text \<open>A consumer handles a message once: over any sequence of deliveries, on all three
  databases, at most one committed attempt of a consumer to register a message finds it new.\<close>

theorem message_handled_once:
  "successes inbox_do (\<lambda>t. it_consumer t = c \<and> it_message t = m) tries inbox \<le> 1"
  by (rule inbox_once.at_most_once) simp_all

end
