(* ===== verification/Outbox_Message.thy ===== *)
theory Outbox_Message
  imports Outbox_Claims
begin

text \<open>
  Messages of \<open>cool-next/outbox/outbox.go\<close>: construction and validation, time-ordered
  identifiers, and the way of a message into the store and back (\<open>enqueuer.go\<close>).

  The JSON encoder and the Unicode case table are parameters.
\<close>

section \<open>Checks of text\<close>

definition checkText :: "string \<Rightarrow> (go_error, unit) result" where
  "checkText v =
    (if v = [] \<or> trim_space v \<noteq> v then Inl (PlainError ''text invalid'')
     else if list_ex (\<lambda>r. is_control r \<or> is_space r) (runes v) then Inl (PlainError ''text invalid'')
     else Inr ())"

definition has_line_break :: "string \<Rightarrow> bool" where
  "has_line_break v \<longleftrightarrow> list_ex (\<lambda>c. byte c = 13 \<or> byte c = 10) v"

definition checkKey :: "string \<Rightarrow> (go_error, unit) result" where
  "checkKey v = guardE (\<not> (trim_space v \<noteq> v \<or> v = [] \<or> has_line_break v)) (PlainError ''key invalid'')"

definition checkConsumerName :: "string \<Rightarrow> (go_error, unit) result" where
  "checkConsumerName v =
    bindE (checkText v) (\<lambda>_. guardE (\<not> has_prefix ''__cool_'' v) (PlainError ''consumer name reserved''))"

fun versions_loop :: "u32 list \<Rightarrow> u32 set \<Rightarrow> (go_error, unit) result" where
  "versions_loop [] seen = Inr ()"
| "versions_loop (v # vs) seen =
    (if v = 0 then Inl (PlainError ''version not positive'')
     else if v \<in> seen then Inl (PlainError ''version repeated'')
     else versions_loop vs (insert v seen))"

definition versions :: "u32 list \<Rightarrow> (go_error, u32 list) result" where
  "versions vs =
    (if vs = [] then Inl (PlainError ''versions empty'') else bindE (versions_loop vs {}) (\<lambda>_. Inr vs))"

definition allowedHeaders :: "string list" where
  "allowedHeaders = [''content-type'', ''traceparent'', ''tracestate'', ''x-trace-id'']"

definition headerName :: "(nat \<Rightarrow> nat) \<Rightarrow> string \<Rightarrow> (go_error, string) result" where
  "headerName table name =
    (if trim_space name \<noteq> name \<or> name = [] then Inl (PlainError ''header name invalid'')
     else let normalized = to_lower table name in
       if normalized \<notin> set allowedHeaders then Inl (PlainError ''header not allowed'') else Inr normalized)"

definition validHeaderValue :: "string \<Rightarrow> bool" where
  "validHeaderValue v \<longleftrightarrow> \<not> has_line_break v \<and> \<not> list_ex is_control (runes v)"

type_synonym headers = "(string, string) gomap"

fun clean_loop :: "(nat \<Rightarrow> nat) \<Rightarrow> (string \<times> string) list \<Rightarrow> headers \<Rightarrow> (go_error, headers) result" where
  "clean_loop table [] result = Inr result"
| "clean_loop table ((name, v) # rest) result =
    (case headerName table name of
       Inl e \<Rightarrow> Inl e
     | Inr normalized \<Rightarrow>
         if \<not> validHeaderValue v then Inl (PlainError ''header value invalid'')
         else if map_of result normalized \<noteq> None then Inl (PlainError ''header repeated'')
         else clean_loop table rest (mput normalized v result))"

definition cleanHeaders :: "(nat \<Rightarrow> nat) \<Rightarrow> headers \<Rightarrow> (go_error, headers) result" where
  "cleanHeaders table hs = clean_loop table hs []"

section \<open>Identifiers\<close>

unbundle bit_operations_syntax

definition hex_digit :: "nat \<Rightarrow> char" where
  "hex_digit n = (if n < 10 then char_of (48 + n) else char_of (87 + n))"

definition hex_encode :: "8 word list \<Rightarrow> string" where
  "hex_encode bs = concat (map (\<lambda>b. [hex_digit (unat (drop_bit 4 b)), hex_digit (unat (b AND 15))]) bs)"

definition maxUUIDTimestamp :: int where "maxUUIDTimestamp = 2 ^ 48 - 1"

definition uuid_bytes :: "u64 \<Rightarrow> 8 word list \<Rightarrow> 8 word list" where
  "uuid_bytes ts rnd =
    [ucast (drop_bit 40 ts), ucast (drop_bit 32 ts), ucast (drop_bit 24 ts), ucast (drop_bit 16 ts),
     ucast (drop_bit 8 ts), ucast ts, (rnd ! 0 AND 0x0f) OR 0x70, rnd ! 1, (rnd ! 2 AND 0x3f) OR 0x80] @ drop 3 rnd"

definition uuid_text :: "8 word list \<Rightarrow> string" where
  "uuid_text v =
    hex_encode (take 4 v) @ CHR ''-'' # hex_encode (take 2 (drop 4 v)) @ CHR ''-'' # hex_encode (take 2 (drop 6 v)) @
    CHR ''-'' # hex_encode (take 2 (drop 8 v)) @ CHR ''-'' # hex_encode (take 6 (drop 10 v))"

text \<open>The clock in milliseconds and ten random bytes, unless the source fails.\<close>

definition newMessageID :: "int \<Rightarrow> (go_error, 8 word list) result \<Rightarrow> (go_error, string) result" where
  "newMessageID milliseconds source =
    (if milliseconds < 0 \<or> maxUUIDTimestamp < milliseconds then Inl (PlainError ''timestamp out of range'')
     else bindE source (\<lambda>rnd. Inr (uuid_text (uuid_bytes (word_of_int milliseconds) rnd))))"

definition checkMessageID :: "string \<Rightarrow> (go_error, unit) result" where
  "checkMessageID v =
    (if length v \<noteq> 36 \<or> v ! 8 \<noteq> CHR ''-'' \<or> v ! 13 \<noteq> CHR ''-'' \<or> v ! 18 \<noteq> CHR ''-'' \<or> v ! 23 \<noteq> CHR ''-'' \<or> v ! 14 \<noteq> CHR ''7''
       then Inl (PlainError ''message id invalid'')
     else if byte (v ! 19) < 56 \<or> 98 < byte (v ! 19) then Inl (PlainError ''message id variant'')
     else eachE (\<lambda>r. if r = 45 then Inr ()
        else if in_range 65 70 r then Inl (PlainError ''message id upper case'')
        else guardE (in_range 48 57 r \<or> in_range 97 102 r) (PlainError ''message id invalid'')) (runes v))"

section \<open>Envelopes\<close>

record msg_envelope =
  en_messageID :: string
  en_topic :: string
  en_messageType :: string
  en_version :: u32
  en_key :: "string option"
  en_payload :: string
  en_headers :: headers

record message_options =
  mo_key :: "string option"
  mo_version :: u32
  mo_headers :: headers

type_synonym msg_option = "message_options \<Rightarrow> (go_error, message_options) result"

definition WithKey :: "string \<Rightarrow> msg_option" where
  "WithKey key s =
    (if trim_space key \<noteq> key \<or> key = [] then Inl (PlainError ''key invalid'') else Inr (s\<lparr>mo_key := Some key\<rparr>))"

definition WithVersion :: "u32 \<Rightarrow> msg_option" where
  "WithVersion v s = (if v = 0 then Inl (PlainError ''version not positive'') else Inr (s\<lparr>mo_version := v\<rparr>))"

definition WithHeader :: "(nat \<Rightarrow> nat) \<Rightarrow> string \<Rightarrow> string \<Rightarrow> msg_option" where
  "WithHeader table name v s =
    bindE (headerName table name) (\<lambda>normalized.
      if \<not> validHeaderValue v then Inl (PlainError ''header value invalid'')
      else if map_of (mo_headers s) normalized \<noteq> None then Inl (PlainError ''header repeated'')
      else Inr (s\<lparr>mo_headers := mput normalized v (mo_headers s)\<rparr>))"

fun apply_options :: "msg_option option list \<Rightarrow> message_options \<Rightarrow> (go_error, message_options) result" where
  "apply_options [] s = Inr s"
| "apply_options (None # rest) s = Inl (PlainError ''option missing'')"
| "apply_options (Some opt # rest) s = bindE (opt s) (apply_options rest)"

definition newEnvelope ::
  "(string \<Rightarrow> bool) \<Rightarrow> string \<Rightarrow> string \<Rightarrow> string \<Rightarrow> u32 \<Rightarrow> string option \<Rightarrow> string \<Rightarrow> headers \<Rightarrow> (go_error, msg_envelope) result" where
  "newEnvelope json_valid mid topic messageType version key payload hs =
    bindE (checkMessageID mid) (\<lambda>_.
      if version = 0 \<or> \<not> json_valid payload then Inl (PlainError ''content invalid'')
      else Inr \<lparr>en_messageID = mid, en_topic = topic, en_messageType = messageType, en_version = version,
        en_key = key, en_payload = payload, en_headers = hs\<rparr>)"

definition message_New ::
  "(string \<Rightarrow> bool) \<Rightarrow> string \<Rightarrow> string \<Rightarrow> (go_error, string) result \<Rightarrow> msg_option option list \<Rightarrow> int \<Rightarrow>
   (go_error, 8 word list) result \<Rightarrow> (go_error, msg_envelope) result" where
  "message_New json_valid topic messageType marshalled options milliseconds source =
    bindE (checkText topic) (\<lambda>_. bindE (checkText messageType) (\<lambda>_.
    bindE (apply_options options \<lparr>mo_key = None, mo_version = 1, mo_headers = []\<rparr>) (\<lambda>s.
      if mo_version s = 0 then Inl (PlainError ''version not positive'')
      else bindE marshalled (\<lambda>encoded. bindE (newMessageID milliseconds source) (\<lambda>mid.
        newEnvelope json_valid mid topic messageType (mo_version s) (mo_key s) encoded (mo_headers s))))))"

definition Restore ::
  "(nat \<Rightarrow> nat) \<Rightarrow> (string \<Rightarrow> bool) \<Rightarrow> string \<Rightarrow> string \<Rightarrow> string \<Rightarrow> u32 \<Rightarrow> string option \<Rightarrow> string \<Rightarrow> headers \<Rightarrow>
   (go_error, msg_envelope) result" where
  "Restore table json_valid mid topic messageType version key payload hs =
    bindE (checkMessageID mid) (\<lambda>_. bindE (checkText topic) (\<lambda>_. bindE (checkText messageType) (\<lambda>_.
      if version = 0 then Inl (PlainError ''version not positive'')
      else bindE (case key of None \<Rightarrow> Inr () | Some k \<Rightarrow> checkKey k) (\<lambda>_.
        if \<not> json_valid payload then Inl (PlainError ''payload not json'')
        else bindE (cleanHeaders table hs) (\<lambda>normalized.
          newEnvelope json_valid mid topic messageType version key payload normalized)))))"

section \<open>Into the store and back\<close>

record enqueue_limits =
  el_MaxPayloadBytes :: int
  el_MaxHeaderBytes :: int
  el_MaxEnvelopeBytes :: int

text \<open>What \<open>encoding/json\<close> does: validity, headers to text and back, the whole message to text.\<close>

record json_lib =
  js_valid :: "string \<Rightarrow> bool"
  js_headers :: "headers \<Rightarrow> (go_error, string) result"
  js_read_headers :: "string \<Rightarrow> (go_error, headers) result"
  js_headers_valid :: "string \<Rightarrow> bool"
  js_envelope :: "msg_envelope \<Rightarrow> (go_error, string) result"

definition enqueuer_toRecord :: "json_lib \<Rightarrow> enqueue_limits \<Rightarrow> msg_envelope \<Rightarrow> (go_error, outbox_row) result" where
  "enqueuer_toRecord js limits m =
    (if el_MaxPayloadBytes limits < int (length (en_payload m)) then Inl (PlainError ''payload too large'')
     else bindE (js_headers js (en_headers m)) (\<lambda>encodedHeaders.
       if el_MaxHeaderBytes limits < int (length encodedHeaders) then Inl (PlainError ''headers too large'')
       else bindE (js_envelope js m) (\<lambda>encodedEnvelope.
         if el_MaxEnvelopeBytes limits < int (length encodedEnvelope) then Inl (PlainError ''envelope too large'')
         else NewRecord (js_valid js) (js_headers_valid js) (en_messageID m) (en_topic m) (en_messageType m)
           (unat (en_version m)) (en_key m) (en_payload m) encodedHeaders)))"

definition read_envelope :: "(nat \<Rightarrow> nat) \<Rightarrow> json_lib \<Rightarrow> outbox_row \<Rightarrow> (go_error, msg_envelope) result" where
  "read_envelope table js r =
    bindE (js_read_headers js (or_headers r)) (\<lambda>hs.
      Restore table (js_valid js) (or_messageId r) (or_topic r) (or_messageType r)
        (of_nat (or_messageVersion r)) (or_messageKey r) (or_payload r) hs)"

text \<open>Enqueueing runs in the caller's transaction, or in one of its own.\<close>

definition message_Enqueue ::
  "json_lib \<Rightarrow> enqueue_limits \<Rightarrow> db_env \<Rightarrow> bool \<Rightarrow> bool \<Rightarrow> msg_envelope \<Rightarrow> outbox_table \<Rightarrow>
   (go_error, unit) result \<times> outbox_table" where
  "message_Enqueue js limits env tx_valid same_group m tab =
    (case enqueuer_toRecord js limits m of
       Inl e \<Rightarrow> (Inl e, tab)
     | Inr r \<Rightarrow> outbox_Enqueue env tx_valid same_group r tab)"

section \<open>Identifiers are valid and ordered by time\<close>

lemma byte_char_of_lt: "n < 256 \<Longrightarrow> byte (char_of n) = n"
  by (rule byte_char_of)

lemma byte_hex_digit: "n < 16 \<Longrightarrow> byte (hex_digit n) = (if n < 10 then 48 + n else 87 + n)"
  by (simp add: hex_digit_def byte_char_of)

lemma hex_lower_digit: "n < 16 \<Longrightarrow> hex_lower (hex_digit n)"
  by (auto simp: hex_lower_def byte_hex_digit in_range_def)

lemma high_nibble: "unat (drop_bit 4 (b :: 8 word)) = unat b div 16"
  by (simp add: drop_bit_eq_div unat_div)

lemma low_nibble: "unat (b AND (15 :: 8 word)) = unat b mod 16"
proof -
  have "b AND 15 = take_bit 4 b" by (simp add: take_bit_eq_mask mask_eq_exp_minus_1)
  then show ?thesis by (simp add: take_bit_eq_mod unat_mod)
qed

lemma byte_nibbles: "unat (b :: 8 word) div 16 < 16" "unat (b :: 8 word) mod 16 < 16"
  using unsigned_less [of b, where 'a = nat] by (simp_all add: less_mult_imp_div_less)

lemma hex_encode_simps [simp]:
  "hex_encode [] = []"
  "hex_encode (b # bs) = hex_digit (unat b div 16) # hex_digit (unat b mod 16) # hex_encode bs"
  by (simp_all add: hex_encode_def high_nibble low_nibble)

lemma version_nibble: "unat ((r AND (0x0f :: 8 word)) OR 0x70) div 16 = 7"
  unfolding high_nibble [symmetric] by (simp add: drop_bit_or drop_bit_and)

lemma variant_nibble: "unat ((r AND (0x3f :: 8 word)) OR 0x80) div 16 \<in> {8 ..< 12}"
proof -
  define w where "w = drop_bit 4 r AND (3 :: 8 word)"
  have "w = take_bit 2 (drop_bit 4 r)" by (simp add: w_def take_bit_eq_mask mask_eq_exp_minus_1)
  then have "unat w < 4" by (simp add: take_bit_eq_mod unat_mod)
  moreover have "unat (w OR 8) = unat w + 8"
  proof -
    from \<open>unat w < 4\<close> have "unat w = 0 \<or> unat w = 1 \<or> unat w = 2 \<or> unat w = 3" by linarith
    then have "unat w AND 8 = 0" by (elim disjE) simp_all
    then show ?thesis by (simp add: unsigned_or_eq disjunctive_add_eq_or)
  qed
  ultimately show ?thesis
    unfolding high_nibble [symmetric] by (simp add: drop_bit_or drop_bit_and w_def)
qed


lemma ten_bytes:
  assumes "length (rnd :: 8 word list) = 10"
  obtains r0 r1 r2 r3 r4 r5 r6 r7 r8 r9 where "rnd = [r0, r1, r2, r3, r4, r5, r6, r7, r8, r9]"
  using assms by (auto simp: numeral_eq_Suc length_Suc_conv)

lemma uuid_valid:
  assumes "length rnd = 10"
  shows "validMessageID (uuid_text (uuid_bytes ts rnd))"
proof -
  obtain r0 r1 r2 r3 r4 r5 r6 r7 r8 r9 where rnd: "rnd = [r0, r1, r2, r3, r4, r5, r6, r7, r8, r9]"
    using ten_bytes [OF assms] .
  have seven: "hex_digit 7 = CHR ''7''" by (simp add: hex_digit_def char_eval)
  have seven_ok: "hex_lower CHR ''7''" by (simp add: hex_lower_def ascii_eval)
  have variant: "in_range 56 98 (byte (hex_digit (unat ((r2 AND 63) OR 128) div 16)))"
    using variant_nibble [of r2] by (auto simp: byte_hex_digit in_range_def)
  show ?thesis
    using variant
    by (simp add: validMessageID_def uuid_text_def uuid_bytes_def rnd dash_positions_def upt_rec byte_nibbles hex_lower_digit
        version_nibble seven seven_ok)
qed


lemma runes_all_ascii: "list_all (\<lambda>c. byte c < 128) v \<Longrightarrow> runes v = map byte v"
  by (induction v) (simp_all add: runes_ascii)

lemma validMessageID_chars: "validMessageID v \<Longrightarrow> c \<in> set v \<Longrightarrow> c = CHR ''-'' \<or> hex_lower c"
proof -
  assume V: "validMessageID v" and "c \<in> set v"
  then obtain i where i: "i < length v" "c = v ! i" by (auto simp: in_set_conv_nth)
  have "i \<in> dash_positions \<or> hex_lower (v ! i)" using V i by (auto simp: validMessageID_def list_all_iff)
  then show ?thesis using V i(2) by (auto simp: validMessageID_def dash_positions_def)
qed

lemma hex_lower_ascii: "hex_lower c \<Longrightarrow> byte c < 128"
  by (auto simp: hex_lower_def in_range_def)

lemma valid_id_checked: "validMessageID v \<Longrightarrow> checkMessageID v = Inr ()"
proof -
  assume V: "validMessageID v"
  have "byte c < 128" if "c \<in> set v" for c
    using validMessageID_chars [OF V that] hex_lower_ascii by (auto simp: byte_def)
  then have R: "runes v = map byte v" by (intro runes_all_ascii) (simp add: list_all_iff)
  have "byte c = 45 \<or> \<not> in_range 65 70 (byte c) \<and> (in_range 48 57 (byte c) \<or> in_range 97 102 (byte c))" if "c \<in> set v" for c
    using validMessageID_chars [OF V that] by (auto simp: hex_lower_def in_range_def byte_def)
  then have "eachE (\<lambda>r. if r = 45 then Inr ()
        else if in_range 65 70 r then Inl (PlainError ''message id upper case'')
        else guardE (in_range 48 57 r \<or> in_range 97 102 r) (PlainError ''message id invalid'')) (runes v) = Inr ()"
    unfolding R eachE_Inr_iff by (auto simp: guardE_def)
  then show ?thesis using V by (simp add: checkMessageID_def validMessageID_def in_range_def)
qed

section \<open>Order of identifiers\<close>

lemma hex_digit_less: "m < n \<Longrightarrow> n < 16 \<Longrightarrow> hex_digit m < hex_digit n"
  using byte_hex_digit [of m] byte_hex_digit [of n] by (auto simp: byte_def less_char_def split: if_splits)

lemma less_append_cong: "(u :: 'a :: linorder list) < w \<Longrightarrow> length u = length w \<Longrightarrow> u @ x < w @ y"
proof (induction u arbitrary: w)
  case (Cons a u)
  then show ?case by (cases w) auto
qed simp

lemma same_prefix_less: "(x :: 'a :: linorder list) < y \<Longrightarrow> u @ x < u @ y"
  by (induction u) simp_all

definition bytes_of :: "nat \<Rightarrow> string" where
  "bytes_of n = [hex_digit (n div 16), hex_digit (n mod 16)]"

lemma length_bytes_of [simp]: "length (bytes_of n) = 2"
  by (simp add: bytes_of_def)

lemma bytes_of_less: "m < n \<Longrightarrow> n < 256 \<Longrightarrow> bytes_of m < bytes_of n"
proof -
  assume "m < n" "n < 256"
  then have n: "n div 16 < 16" and "m div 16 \<le> n div 16" by (auto simp: div_le_mono less_mult_imp_div_less)
  then consider "m div 16 < n div 16" | "m div 16 = n div 16" "m mod 16 < n mod 16"
    using \<open>m < n\<close> by (metis div_mult_mod_eq le_neq_implies_less nat_add_left_cancel_less)
  then show ?thesis using n by cases (auto simp: bytes_of_def hex_digit_less)
qed

text \<open>The big-endian bytes of a number, in hexadecimal.\<close>

fun big_endian :: "nat \<Rightarrow> nat \<Rightarrow> string" where
  "big_endian 0 n = []"
| "big_endian (Suc k) n = bytes_of (n div 256 ^ k mod 256) @ big_endian k n"

lemma length_big_endian: "length (big_endian k m) = 2 * k"
  by (induction k) (simp_all add: bytes_of_def)


lemma big_endian_less: "m mod 256 ^ k < n mod 256 ^ k \<Longrightarrow> big_endian k m < big_endian k n"
proof (induction k)
  case (Suc k)
  define B a b where "B = (256 ^ k :: nat)" and "a = m div B mod 256" and "b = n div B mod 256"
  have split: "x mod 256 ^ Suc k = B * (x div B mod 256) + x mod B" for x :: nat
    using mod_mult2_eq [of x B 256] by (simp add: B_def mult.commute)
  have lt: "B * a + m mod B < B * b + n mod B"
    using Suc.prems unfolding split a_def b_def .
  have "n mod B < B" by (simp add: B_def)
  have "a \<le> b"
  proof (rule ccontr)
    assume "\<not> a \<le> b"
    then have "B * (b + 1) \<le> B * a" by (intro mult_le_mono2) simp
    then show False using lt \<open>n mod B < B\<close> by simp
  qed
  then consider "a < b" | "a = b" "m mod B < n mod B" using lt by force
  then show ?case
  proof cases
    case 1
    then have "bytes_of a < bytes_of b" by (intro bytes_of_less) (simp_all add: b_def)
    then show ?thesis by (auto intro!: less_append_cong simp: bytes_of_def a_def b_def B_def)
  next
    case 2
    then show ?thesis using Suc.IH by (simp add: same_prefix_less a_def b_def B_def)
  qed
qed simp

lemma append_less_split:
  "(a @ b :: 'a :: linorder list) < c @ d \<Longrightarrow> length a = length c \<Longrightarrow> a < c \<or> a = c \<and> b < d"
proof (induction a arbitrary: c)
  case (Cons x a)
  then show ?case by (cases c) auto
qed simp

lemma uuid_text_time:
  assumes "length rnd = 10"
  shows "\<exists>rest. uuid_text (uuid_bytes ts rnd) =
    take 8 (big_endian 6 (unat ts)) @ CHR ''-'' # drop 8 (big_endian 6 (unat ts)) @ rest"
proof -
  have b: "hex_encode (ucast w # bs) = bytes_of (unat w mod 256) @ hex_encode bs" for w :: u64 and bs
    by (simp add: bytes_of_def unsigned_ucast_eq take_bit_eq_mod)
  obtain r0 r1 r2 r3 r4 r5 r6 r7 r8 r9 where rnd: "rnd = [r0, r1, r2, r3, r4, r5, r6, r7, r8, r9]"
    using ten_bytes [OF assms] .
  have six: "big_endian 6 n = bytes_of (n div 2 ^ 40 mod 256) @ bytes_of (n div 2 ^ 32 mod 256) @ bytes_of (n div 2 ^ 24 mod 256) @
      bytes_of (n div 2 ^ 16 mod 256) @ bytes_of (n div 2 ^ 8 mod 256) @ bytes_of (n mod 256)" for n
  proof -
    have "(6 :: nat) = Suc (Suc (Suc (Suc (Suc (Suc 0)))))" by simp
    then show ?thesis unfolding big_endian.simps by (simp only: big_endian.simps) simp
  qed
  show ?thesis
    unfolding six
    by (simp add: uuid_text_def uuid_bytes_def rnd b unat_div drop_bit_eq_div del: hex_encode_simps(2))
qed

lemma uuid_text_ordered:
  assumes "length r1 = 10" "length r2 = 10" "unat t1 < unat t2" "unat t2 < 2 ^ 48"
  shows "uuid_text (uuid_bytes t1 r1) < uuid_text (uuid_bytes t2 r2)"
proof -
  let ?a = "big_endian 6 (unat t1)" and ?b = "big_endian 6 (unat t2)"
  have "?a < ?b" using assms(3,4) by (intro big_endian_less) simp
  then have "take 8 ?a < take 8 ?b \<or> take 8 ?a = take 8 ?b \<and> drop 8 ?a < drop 8 ?b"
    by (intro append_less_split) (simp_all add: length_big_endian)
  then consider "take 8 ?a < take 8 ?b" | "take 8 ?a = take 8 ?b" "drop 8 ?a < drop 8 ?b" by blast
  moreover obtain s1 s2 where S: "uuid_text (uuid_bytes t1 r1) = take 8 ?a @ CHR ''-'' # drop 8 ?a @ s1"
    "uuid_text (uuid_bytes t2 r2) = take 8 ?b @ CHR ''-'' # drop 8 ?b @ s2"
    using uuid_text_time [OF assms(1)] uuid_text_time [OF assms(2)] by blast
  ultimately show ?thesis
  proof cases
    case 1
    then show ?thesis unfolding S by (intro less_append_cong) (simp_all add: length_big_endian)
  next
    case 2
    then have "drop 8 ?a @ s1 < drop 8 ?b @ s2" by (intro less_append_cong) (simp_all add: length_big_endian)
    then show ?thesis unfolding S 2(1) by (intro same_prefix_less) simp
  qed
qed

text \<open>Every generated message identifier is valid, for the message check and for the
  stricter check of the store, and identifiers generated at a later millisecond sort after the
  earlier ones, whatever the random bytes; outside 48 bits of time generation fails.\<close>

theorem message_id_valid_and_ordered:
  assumes "length r1 = 10" "length r2 = 10" "newMessageID t1 (Inr r1) = Inr id1" "newMessageID t2 (Inr r2) = Inr id2"
  shows "validMessageID id1 \<and> checkMessageID id1 = Inr () \<and> (t1 < t2 \<longrightarrow> id1 < id2)"
proof -
  have id: "id1 = uuid_text (uuid_bytes (word_of_int t1) r1)" "id2 = uuid_text (uuid_bytes (word_of_int t2) r2)"
    and t: "0 \<le> t1" "t1 < 2 ^ 48" "0 \<le> t2" "t2 < 2 ^ 48"
    using assms(3,4) by (auto simp: newMessageID_def maxUUIDTimestamp_def split: if_splits)
  have unat: "unat (word_of_int t :: u64) = nat t" if "0 \<le> t" "t < 2 ^ 48" for t
    using that by (simp add: unat_eq_nat_uint uint_word_of_int_eq take_bit_int_eq_self)
  have "validMessageID id1" using uuid_valid [OF assms(1)] id by simp
  moreover have "t1 < t2 \<longrightarrow> id1 < id2"
    using uuid_text_ordered [OF assms(1,2), of "word_of_int t1" "word_of_int t2"] unat t id by simp
  ultimately show ?thesis using valid_id_checked by blast
qed

theorem message_id_valid_and_ordered_witness:
  "validMessageID (uuid_text (uuid_bytes (word_of_int 5) (replicate 10 255))) \<and>
   uuid_text (uuid_bytes (word_of_int 5) (replicate 10 255)) < uuid_text (uuid_bytes (word_of_int 6) (replicate 10 0))"
proof -
  have "validMessageID (uuid_text (uuid_bytes (word_of_int 5) (replicate 10 255))) \<and>
     checkMessageID (uuid_text (uuid_bytes (word_of_int 5) (replicate 10 255))) = Inr () \<and>
     ((5 :: int) < 6 \<longrightarrow>
       uuid_text (uuid_bytes (word_of_int 5) (replicate 10 255)) < uuid_text (uuid_bytes (word_of_int 6) (replicate 10 0)))"
    by (rule message_id_valid_and_ordered) (simp_all add: newMessageID_def maxUUIDTimestamp_def)
  then show ?thesis by simp
qed


section \<open>Round trip\<close>

text \<open>Headers as they leave \<open>WithHeader\<close>: allowed lower-case names with valid values, each once.\<close>

definition headers_clean :: "headers \<Rightarrow> bool" where
  "headers_clean hs \<longleftrightarrow> gomap_ok hs \<and> (\<forall>(n, v) \<in> set hs. n \<in> set allowedHeaders \<and> validHeaderValue v)"

lemma allowed_name_fixed: "n \<in> set allowedHeaders \<Longrightarrow> headerName table n = Inr n"
  by (auto simp: allowedHeaders_def headerName_def to_lower_def lower_ascii_def encode_rune_def ascii_eval char_eval)

lemma clean_loop_clean:
  assumes "headers_clean (hs :: headers)" "fst ` set hs \<inter> fst ` set acc = {}"
  shows "\<exists>out. clean_loop table hs acc = Inr out \<and> (\<forall>n. map_of out n = map_of (hs @ acc) n)"
  using assms
proof (induction hs arbitrary: acc)
  case (Cons p hs)
  obtain n v where p: "p = (n, v)" by (cases p)
  have "headerName table n = Inr n" "validHeaderValue v" "map_of acc n = None" "n \<notin> fst ` set hs" "headers_clean hs"
    using Cons.prems allowed_name_fixed by (auto simp: p headers_clean_def gomap_ok_def map_of_eq_None_iff)
  moreover have "fst ` set hs \<inter> fst ` set (mput n v acc) = {}"
    using Cons.prems calculation(4) by (auto simp: p mput_def)
  ultimately obtain out where "clean_loop table hs (mput n v acc) = Inr out" "\<forall>k. map_of out k = map_of (hs @ mput n v acc) k"
    using Cons.IH by blast
  moreover have "map_of hs n = None" using \<open>n \<notin> fst ` set hs\<close> by (simp add: map_of_eq_None_iff)
  ultimately show ?case
    using \<open>headerName table n = Inr n\<close> \<open>validHeaderValue v\<close> \<open>map_of acc n = None\<close>
    by (auto simp: p map_add_def split: option.splits)
qed simp

lemma WithHeader_clean: "headers_clean (mo_headers s) \<Longrightarrow> WithHeader table name v s = Inr s' \<Longrightarrow> headers_clean (mo_headers s')"
  by (auto simp: WithHeader_def bindE_Inr_iff headerName_def Let_def headers_clean_def mput_def gomap_ok_mput [unfolded mput_def]
      split: if_splits)

text \<open>What the JSON library documents of itself: an encoded header map is an object of strings that
  decodes to an equal map.\<close>

definition json_roundtrip :: "json_lib \<Rightarrow> headers \<Rightarrow> bool" where
  "json_roundtrip js hs \<longleftrightarrow>
    (\<forall>text. js_headers js hs = Inr text \<longrightarrow> js_headers_valid js text \<and>
       (\<exists>hs'. js_read_headers js text = Inr hs' \<and> gomap_ok hs' \<and> map_of hs' = map_of hs))"

lemma gomap_same_set: "gomap_ok a \<Longrightarrow> gomap_ok b \<Longrightarrow> map_of a = map_of b \<Longrightarrow> set a = set b"
  by (metis gomap_ok_mem_iff subrelI subset_antisym)

definition msg_valid :: "json_lib \<Rightarrow> msg_envelope \<Rightarrow> bool" where
  "msg_valid js m \<longleftrightarrow> validMessageID (en_messageID m) \<and> checkText (en_topic m) = Inr () \<and>
     checkText (en_messageType m) = Inr () \<and> en_version m \<noteq> 0 \<and> js_valid js (en_payload m) \<and> headers_clean (en_headers m) \<and>
     (\<forall>k. en_key m = Some k \<longrightarrow> trim_space k = k \<and> k \<noteq> [])"

text \<open>Messages made by \<open>New\<close> with the options of the package are valid in this sense.\<close>

lemma message_New_valid:
  assumes "message_New (js_valid js) topic messageType marshalled options ms (Inr rnd) = Inr m" "length rnd = 10"
    "\<forall>opt \<in> set options. \<exists>k v n table. opt = Some (WithKey k) \<or> opt = Some (WithVersion v) \<or> opt = Some (WithHeader table n k)"
  shows "msg_valid js m"
proof -
  have opts: "headers_clean (mo_headers s') \<and> (\<forall>k. mo_key s' = Some k \<longrightarrow> trim_space k = k \<and> k \<noteq> [])"
    if "apply_options os s = Inr s'" "headers_clean (mo_headers s)" "\<forall>k. mo_key s = Some k \<longrightarrow> trim_space k = k \<and> k \<noteq> []"
      "\<forall>opt \<in> set os. \<exists>k v n table. opt = Some (WithKey k) \<or> opt = Some (WithVersion v) \<or> opt = Some (WithHeader table n k)"
    for os s s'
    using that
  proof (induction os s rule: apply_options.induct)
    case (3 opt rest s)
    obtain s1 where s1: "opt s = Inr s1" "apply_options rest s1 = Inr s'" using 3(2) by (auto simp: bindE_Inr_iff)
    obtain k v n table where "opt = WithKey k \<or> opt = WithVersion v \<or> opt = WithHeader table n k" using 3(5) by auto
    then have "headers_clean (mo_headers s1) \<and> (\<forall>k. mo_key s1 = Some k \<longrightarrow> trim_space k = k \<and> k \<noteq> [])"
      using s1(1) 3(3,4) WithHeader_clean
      by (elim disjE) (auto simp: WithKey_def WithVersion_def WithHeader_def bindE_Inr_iff split: if_splits)
    then show ?case using 3(1) [OF s1(2)] 3(5) by auto
  qed auto
  have "headers_clean []" by (simp add: headers_clean_def)
  then show ?thesis
    using assms(1) opts [of options "\<lparr>mo_key = None, mo_version = 1, mo_headers = []\<rparr>"] assms(3) uuid_valid [OF assms(2)]
    by (auto simp: message_New_def newEnvelope_def bindE_Inr_iff newMessageID_def msg_valid_def split: if_splits)
qed


definition key_breaks :: "msg_envelope \<Rightarrow> bool" where
  "key_breaks m \<longleftrightarrow> (case en_key m of None \<Rightarrow> False | Some k \<Rightarrow> has_line_break k)"

lemma toRecord_fields:
  assumes "enqueuer_toRecord js limits m = Inr r"
  shows "or_messageId r = en_messageID m \<and> or_topic r = en_topic m \<and> or_messageType r = en_messageType m \<and>
    or_messageVersion r = unat (en_version m) \<and> or_messageKey r = en_key m \<and> or_payload r = en_payload m \<and>
    js_headers js (en_headers m) = Inr (or_headers r)"
  using assms by (auto simp: enqueuer_toRecord_def NewRecord_def bindE_Inr_iff split: if_splits)

lemma restore_stored:
  assumes "msg_valid js m" "json_roundtrip js (en_headers m)" "enqueuer_toRecord js limits m = Inr r"
  shows "if key_breaks m then read_envelope table js r = Inl (PlainError ''key invalid'')
    else \<exists>m'. read_envelope table js r = Inr m' \<and> m' = m\<lparr>en_headers := en_headers m'\<rparr> \<and>
      (\<forall>n. map_of (en_headers m') n = map_of (en_headers m) n)"
proof -
  note F = toRecord_fields [OF assms(3)]
  obtain hs where hs: "js_read_headers js (or_headers r) = Inr hs" "gomap_ok hs" "map_of hs = map_of (en_headers m)"
    using assms(2) F by (auto simp: json_roundtrip_def)
  have clean: "headers_clean hs"
    using assms(1) hs(2,3) gomap_same_set [OF hs(2) _ hs(3)] by (auto simp: msg_valid_def headers_clean_def)
  obtain out where out: "cleanHeaders table hs = Inr out" "\<forall>n. map_of out n = map_of hs n"
    using clean_loop_clean [OF clean, of "[]"] by (auto simp: cleanHeaders_def)
  have key: "(case en_key m of None \<Rightarrow> Inr () | Some k \<Rightarrow> checkKey k) =
      (if key_breaks m then Inl (PlainError ''key invalid'') else Inr ())"
    using assms(1) by (auto simp: msg_valid_def key_breaks_def checkKey_def guardE_def split: option.splits)
  have "checkMessageID (en_messageID m) = Inr ()" using assms(1) valid_id_checked by (simp add: msg_valid_def)
  then show ?thesis
    using assms(1) hs(3) out key F
    by (auto simp: read_envelope_def Restore_def newEnvelope_def msg_valid_def hs(1))
qed

definition package_option :: "msg_option option \<Rightarrow> bool" where
  "package_option opt \<longleftrightarrow> (\<exists>k v n table. opt = Some (WithKey k) \<or> opt = Some (WithVersion v) \<or> opt = Some (WithHeader table n k))"

text \<open>C40: A message built by \<open>New\<close> with the options of the package and accepted by the enqueuer
  is restored by the worker exactly as it was built, provided that the JSON library
  round-trips its headers, with one exception: \<open>WithKey\<close> accepts a key with a line break
  inside, which \<open>Restore\<close> refuses, so such a message is stored but can never be published.\<close>

theorem stored_message_restored:
  assumes "message_New (js_valid js) topic messageType marshalled options ms (Inr rnd) = Inr m"
    "length rnd = 10" "\<forall>opt \<in> set options. package_option opt"
    "json_roundtrip js (en_headers m)" "enqueuer_toRecord js limits m = Inr r"
  shows "if key_breaks m then read_envelope table js r = Inl (PlainError ''key invalid'')
    else \<exists>m'. read_envelope table js r = Inr m' \<and> m' = m\<lparr>en_headers := en_headers m'\<rparr> \<and>
      (\<forall>n. map_of (en_headers m') n = map_of (en_headers m) n)"
  using restore_stored [OF message_New_valid [OF assms(1,2)] assms(4,5)] assms(3) by (auto simp: package_option_def)

definition plain_json :: json_lib where
  "plain_json = \<lparr>js_valid = (\<lambda>_. True), js_headers = (\<lambda>_. Inr ''{}''), js_read_headers = (\<lambda>_. Inr []),
     js_headers_valid = (\<lambda>_. True), js_envelope = (\<lambda>_. Inr ''{}'')\<rparr>"

definition broken_key_message :: msg_envelope where
  "broken_key_message = \<lparr>en_messageID = uuid_text (uuid_bytes 5 (replicate 10 0)), en_topic = ''t'', en_messageType = ''y'',
     en_version = 1, en_key = Some [CHR ''a'', char_of (10 :: nat), CHR ''b''], en_payload = ''1'', en_headers = []\<rparr>"

definition broken_key_row :: outbox_row where
  "broken_key_row = some_row\<lparr>or_messageId := en_messageID broken_key_message, or_headers := ''{}'', or_status := StPending, or_attempts := 0,
     or_leaseOwner := None, or_claimToken := None, or_leaseExpiresAt := None, or_messageKey := en_key broken_key_message\<rparr>"

theorem stored_message_restored_witness:
  "if key_breaks broken_key_message then read_envelope (\<lambda>r. r) plain_json broken_key_row = Inl (PlainError ''key invalid'')
    else \<exists>m'. read_envelope (\<lambda>r. r) plain_json broken_key_row = Inr m' \<and>
      m' = broken_key_message\<lparr>en_headers := en_headers m'\<rparr> \<and>
      (\<forall>n. map_of (en_headers m') n = map_of (en_headers broken_key_message) n)"
proof (rule stored_message_restored)
  have id: "validMessageID (uuid_text (uuid_bytes 5 (replicate 10 0)))" by (rule uuid_valid) simp
  have ts: "trim_space [CHR ''a'', char_of (10 :: nat), CHR ''b''] = [CHR ''a'', char_of (10 :: nat), CHR ''b'']"
    by (rule trim_space_ascii) (simp_all add: byte_def is_space_def in_range_def)
  have texts: "checkText ''t'' = Inr ()" "checkText ''y'' = Inr ()"
    by (simp_all add: checkText_def ascii_eval)
  show "message_New (js_valid plain_json) ''t'' ''y'' (Inr ''1'') [Some (WithKey [CHR ''a'', char_of (10 :: nat), CHR ''b''])] 5
      (Inr (replicate 10 0)) = Inr broken_key_message"
    using valid_id_checked [OF id]
    by (simp add: message_New_def texts WithKey_def ts newMessageID_def maxUUIDTimestamp_def newEnvelope_def plain_json_def
        broken_key_message_def)
  show "enqueuer_toRecord plain_json \<lparr>el_MaxPayloadBytes = 100, el_MaxHeaderBytes = 100, el_MaxEnvelopeBytes = 100\<rparr>
      broken_key_message = Inr broken_key_row"
    using id ts
    by (simp add: enqueuer_toRecord_def plain_json_def NewRecord_def broken_key_message_def broken_key_row_def some_row_def ascii_eval)
qed (auto simp: package_option_def json_roundtrip_def plain_json_def broken_key_message_def)

end
