(* ===== verification/Outbox_Worker.thy ===== *)
theory Outbox_Worker
  imports Outbox_Message
begin

text \<open>
  The publishing worker of \<open>cool-next/outbox/worker.go\<close> and its configuration
  (\<open>config.go\<close>): claiming batches, publishing, retry delays, the outcome of a publication, and
  the life of the worker.
\<close>

section \<open>Configuration\<close>

record outbox_config =
  oc_Enabled :: bool
  oc_DatabaseGroup :: string
  oc_PollInterval :: duration
  oc_BatchSize :: int
  oc_LeaseDuration :: duration
  oc_PublishTimeout :: duration
  oc_PublishMaxAttempts :: nat
  oc_PublishRetryBase :: duration
  oc_PublishRetryMax :: duration
  oc_ConsumerTimeout :: duration
  oc_ConsumerMaxAttempts :: nat
  oc_ConsumerRetryBase :: duration
  oc_ConsumerRetryMax :: duration
  oc_Retention :: duration
  oc_MaxPayloadBytes :: int
  oc_MaxHeaderBytes :: int

definition outbox_DefaultConfig :: outbox_config where
  "outbox_DefaultConfig = \<lparr>oc_Enabled = True, oc_DatabaseGroup = ''default'', oc_PollInterval = 500 * 1000000,
     oc_BatchSize = 100, oc_LeaseDuration = secs 30, oc_PublishTimeout = secs 10, oc_PublishMaxAttempts = 12,
     oc_PublishRetryBase = secs 1, oc_PublishRetryMax = secs 300, oc_ConsumerTimeout = secs 30,
     oc_ConsumerMaxAttempts = 12, oc_ConsumerRetryBase = secs 1, oc_ConsumerRetryMax = secs 300,
     oc_Retention = secs (168 * 3600), oc_MaxPayloadBytes = 1048576, oc_MaxHeaderBytes = 16384\<rparr>"

definition metadataAllowance :: int where "metadataAllowance = 64 * 1024"

definition outbox_Validate :: "outbox_config \<Rightarrow> (go_error, unit) result" where
  "outbox_Validate c =
    (if trim_space (oc_DatabaseGroup c) = [] \<or> trim_space (oc_DatabaseGroup c) \<noteq> oc_DatabaseGroup c
       then Inl (PlainError ''database group invalid'')
     else if oc_PollInterval c \<le> 0 \<or> oc_BatchSize c \<le> 0 \<or> oc_LeaseDuration c \<le> 0 \<or> oc_PublishTimeout c \<le> 0 \<or>
        oc_PublishMaxAttempts c = 0 \<or> oc_PublishRetryBase c \<le> 0 \<or> oc_PublishRetryMax c \<le> 0 \<or> oc_ConsumerTimeout c \<le> 0 \<or>
        oc_ConsumerMaxAttempts c = 0 \<or> oc_ConsumerRetryBase c \<le> 0 \<or> oc_ConsumerRetryMax c \<le> 0 \<or> oc_Retention c \<le> 0 \<or>
        oc_MaxPayloadBytes c \<le> 0 \<or> oc_MaxHeaderBytes c \<le> 0
       then Inl (PlainError ''values not positive'')
     else if oc_LeaseDuration c \<le> oc_PublishTimeout c then Inl (PlainError ''timeout not below lease'')
     else if oc_PublishRetryMax c < oc_PublishRetryBase c then Inl (PlainError ''publish retry base above max'')
     else if oc_ConsumerRetryMax c < oc_ConsumerRetryBase c then Inl (PlainError ''consumer retry base above max'')
     else if wrap64 (wrap64 (max_int64 - oc_MaxHeaderBytes c) - metadataAllowance) < oc_MaxPayloadBytes c
       then Inl (PlainError ''sizes overflow'')
     else Inr ())"

definition MaxEnvelopeBytes :: "outbox_config \<Rightarrow> int" where
  "MaxEnvelopeBytes c = wrap64 (wrap64 (oc_MaxPayloadBytes c + oc_MaxHeaderBytes c) + metadataAllowance)"

definition config_EnqueueLimits :: "outbox_config \<Rightarrow> enqueue_limits" where
  "config_EnqueueLimits c = \<lparr>el_MaxPayloadBytes = oc_MaxPayloadBytes c, el_MaxHeaderBytes = oc_MaxHeaderBytes c,
     el_MaxEnvelopeBytes = MaxEnvelopeBytes c\<rparr>"

record worker_config =
  wc_PollInterval :: duration
  wc_BatchSize :: int
  wc_LeaseDuration :: duration
  wc_PublishTimeout :: duration
  wc_PublishMaxAttempts :: nat
  wc_PublishRetryBase :: duration
  wc_PublishRetryMax :: duration
  wc_Retention :: duration

definition config_WorkerConfig :: "outbox_config \<Rightarrow> worker_config" where
  "config_WorkerConfig c = \<lparr>wc_PollInterval = oc_PollInterval c, wc_BatchSize = oc_BatchSize c,
     wc_LeaseDuration = oc_LeaseDuration c, wc_PublishTimeout = oc_PublishTimeout c,
     wc_PublishMaxAttempts = oc_PublishMaxAttempts c, wc_PublishRetryBase = oc_PublishRetryBase c,
     wc_PublishRetryMax = oc_PublishRetryMax c, wc_Retention = oc_Retention c\<rparr>"

definition checkWorker :: "worker_config \<Rightarrow> (go_error, unit) result" where
  "checkWorker c =
    (if wc_PollInterval c \<le> 0 \<or> wc_BatchSize c \<le> 0 \<or> wc_LeaseDuration c \<le> 0 \<or> wc_PublishTimeout c \<le> 0 \<or>
        wc_PublishMaxAttempts c = 0 \<or> wc_PublishRetryBase c \<le> 0 \<or> wc_PublishRetryMax c \<le> 0 \<or> wc_Retention c \<le> 0
       then Inl (PlainError ''values not positive'')
     else if wc_LeaseDuration c \<le> wc_PublishTimeout c then Inl (PlainError ''timeout not below lease'')
     else if wc_PublishRetryMax c < wc_PublishRetryBase c then Inl (PlainError ''retry base above max'')
     else Inr ())"

section \<open>Retry delays\<close>

text \<open>The loop of \<open>retryDelay\<close> and \<open>consumerDelay\<close>; the first argument counts the rounds left.\<close>

fun delay_loop :: "nat \<Rightarrow> duration \<Rightarrow> duration \<Rightarrow> duration" where
  "delay_loop 0 delay top_delay = delay"
| "delay_loop (Suc n) delay top_delay =
    (if delay < top_delay
     then if go_div top_delay 2 < delay then top_delay else delay_loop n (wrap64 (delay * 2)) top_delay
     else delay)"

definition delay_cap :: "duration \<Rightarrow> duration \<Rightarrow> nat \<Rightarrow> duration" where
  "delay_cap base top_delay attempt =
    (let delay = delay_loop (attempt - 1) base top_delay in if top_delay < delay then top_delay else delay)"

text \<open>\<open>random\<close> is the number drawn below the bound it is given, or the failure of the source.\<close>

definition backoff :: "duration \<Rightarrow> duration \<Rightarrow> nat \<Rightarrow> (int \<Rightarrow> (go_error, int) result) \<Rightarrow> (go_error, duration) result" where
  "backoff base top_delay attempt random =
    (let delay = delay_cap base top_delay attempt; low = go_div delay 2; span = delay - low
     in bindE (random (span + 1)) (\<lambda>n. Inr (low + n)))"

definition retryDelay :: "worker_config \<Rightarrow> nat \<Rightarrow> (int \<Rightarrow> (go_error, int) result) \<Rightarrow> (go_error, duration) result" where
  "retryDelay c attempt random = backoff (wc_PublishRetryBase c) (wc_PublishRetryMax c) attempt random"

section \<open>Claiming a batch\<close>

record worker_state =
  wk_id :: string
  wk_nextExpired :: bool

definition worker_claim ::
  "worker_config \<Rightarrow> db_env \<Rightarrow> string \<Rightarrow> bool \<Rightarrow> int \<Rightarrow> (nat \<Rightarrow> string) \<Rightarrow> outbox_table \<Rightarrow>
   (go_error, outbox_record list) result \<times> outbox_table" where
  "worker_claim c env wid is_lapsed limit tokens tab =
    (if limit \<le> 0 then (Inr [], tab)
     else case store_claim (if is_lapsed then ClaimLapsed else ClaimReady) env wid limit (wc_LeaseDuration c) tokens tab of
         (Inl e, tab') \<Rightarrow> (Inl e, tab')
       | (Inr recs, tab') \<Rightarrow> (Inr recs, tab'))"

text \<open>The three claims of a poll have environments and tokens of their own.\<close>

definition claimBatch ::
  "worker_config \<Rightarrow> (nat \<Rightarrow> db_env) \<Rightarrow> (nat \<Rightarrow> nat \<Rightarrow> string) \<Rightarrow> worker_state \<Rightarrow> outbox_table \<Rightarrow>
   (go_error, outbox_record list) result \<times> worker_state \<times> outbox_table" where
  "claimBatch c env tokens w tab =
    (let first = wk_nextExpired w; w' = w\<lparr>wk_nextExpired := \<not> first\<rparr>;
         firstLimit = go_div (wc_BatchSize c + 1) 2; secondLimit = wc_BatchSize c - firstLimit
     in case worker_claim c (env 0) (wk_id w) first firstLimit (tokens 0) tab of
       (Inl e, tab1) \<Rightarrow> (Inl e, w', tab1)
     | (Inr recs1, tab1) \<Rightarrow>
         (case worker_claim c (env 1) (wk_id w) (\<not> first) (wc_BatchSize c - int (length recs1)) (tokens 1) tab1 of
            (Inl e, tab2) \<Rightarrow> (Inl e, w', tab2)
          | (Inr recs2, tab2) \<Rightarrow>
              (let claimed = recs1 @ recs2 in
               if 0 < secondLimit \<and> int (length claimed) < wc_BatchSize c
               then case worker_claim c (env 2) (wk_id w) first (wc_BatchSize c - int (length claimed)) (tokens 2) tab2 of
                   (Inl e, tab3) \<Rightarrow> (Inl e, w', tab3)
                 | (Inr recs3, tab3) \<Rightarrow> (Inr (claimed @ recs3), w', tab3)
               else (Inr claimed, w', tab2))))"

section \<open>Publishing one record\<close>

definition maxErrorRunes :: nat where "maxErrorRunes = 512"

text \<open>\<open>log_text\<close> stands for \<open>exception.LogText\<close>.\<close>

definition errorSummary :: "(go_error \<Rightarrow> string) \<Rightarrow> go_error \<Rightarrow> string" where
  "errorSummary log_text e =
    (let summary = join '' '' (Go_Strings.fields (log_text e)); rs = runes summary
     in if length rs \<le> maxErrorRunes then summary else concat (map encode_rune (take maxErrorRunes rs)))"

datatype worker_event = EvRetryJitterFailed | EvPublishRetry | EvPublishDead | EvPublishSent | EvStateUpdateFailed | EvClaimLost

text \<open>What happens around one publication: the environments of the store calls, the answer of the
  publisher, a failed renewal, and whether the worker was told to abandon publications.\<close>

record publish_env =
  pe_env :: db_env
  pe_published :: "go_error option"
  pe_renewal :: "go_error option"
  pe_abandoned :: bool
  pe_random :: "int \<Rightarrow> (go_error, int) result"

definition handleClaimLoss :: "publish_env \<Rightarrow> go_error \<Rightarrow> worker_event list" where
  "handleClaimLoss pe cause =
    (if pe_abandoned pe then [] else if error_is ErrClaimLost cause then [EvClaimLost] else [EvStateUpdateFailed])"

definition finishFailure ::
  "worker_config \<Rightarrow> (go_error \<Rightarrow> string) \<Rightarrow> publish_env \<Rightarrow> outbox_record \<Rightarrow> go_error \<Rightarrow> outbox_table \<Rightarrow>
   worker_event list \<times> outbox_table" where
  "finishFailure c log_text pe rec cause tab =
    (if pe_abandoned pe then ([], tab)
     else
       let summary = errorSummary log_text cause; mid = or_messageId (rd_row rec); token = rd_claimToken rec;
           attempts = or_attempts (rd_row rec)
       in if wc_PublishMaxAttempts c \<le> attempts
          then case outbox_MarkDead (pe_env pe) mid token summary tab of
              (Inl e, tab') \<Rightarrow> (handleClaimLoss pe e, tab')
            | (Inr _, tab') \<Rightarrow> ([EvPublishDead], tab')
          else
            let (jitter, delay) = (case retryDelay c attempts (pe_random pe) of
                Inl _ \<Rightarrow> ([EvRetryJitterFailed], wc_PublishRetryMax c)
              | Inr d \<Rightarrow> ([], d))
            in case outbox_MarkRetry (pe_env pe) mid token delay summary tab of
                (Inl e, tab') \<Rightarrow> (jitter @ handleClaimLoss pe e, tab')
              | (Inr _, tab') \<Rightarrow> (jitter @ [EvPublishRetry], tab'))"

definition worker_publish ::
  "(nat \<Rightarrow> nat) \<Rightarrow> json_lib \<Rightarrow> worker_config \<Rightarrow> (go_error \<Rightarrow> string) \<Rightarrow> publish_env \<Rightarrow> outbox_record \<Rightarrow> outbox_table \<Rightarrow>
   worker_event list \<times> outbox_table" where
  "worker_publish table js c log_text pe rec tab =
    (case read_envelope table js (rd_row rec) of
       Inl e \<Rightarrow> finishFailure c log_text pe rec e tab
     | Inr m \<Rightarrow>
         if pe_abandoned pe then ([], tab)
         else case pe_renewal pe of
             Some e \<Rightarrow> (handleClaimLoss pe e, tab)
           | None \<Rightarrow>
               (case pe_published pe of
                  Some e \<Rightarrow> finishFailure c log_text pe rec e tab
                | None \<Rightarrow>
                    (case outbox_MarkSent (pe_env pe) (or_messageId (rd_row rec)) (rd_claimToken rec) tab of
                       (Inl e, tab') \<Rightarrow> (handleClaimLoss pe e, tab')
                     | (Inr _, tab') \<Rightarrow> ([EvPublishSent], tab'))))"

section \<open>Bounds of retry delays\<close>

lemma delay_loop_closed:
  assumes "0 < delay" "delay \<le> top_delay" "top_delay \<le> max_int64"
  shows "delay_loop n delay top_delay = min top_delay (delay * 2 ^ n)"
  using assms(1,2)
proof (induction n arbitrary: delay)
  case (Suc n)
  have half: "go_div top_delay 2 = top_delay div 2" using Suc.prems by (intro go_div_pos) auto
  have grow: "delay * 2 ^ Suc n \<ge> delay * 2" using Suc.prems(1) by simp
  consider "top_delay = delay" | "delay < top_delay" "top_delay div 2 < delay" | "delay < top_delay" "delay \<le> top_delay div 2"
    using Suc.prems(2) by linarith
  then show ?case
  proof cases
    case 1
    have "delay \<le> delay * 2 ^ Suc n" using grow Suc.prems(1) by linarith
    with 1 show ?thesis by (simp add: min_absorb1 del: power_Suc)
  next
    case 2
    then have "top_delay \<le> delay * 2" by linarith
    then have "top_delay \<le> delay * 2 ^ Suc n" using grow by linarith
    with 2 half show ?thesis by (simp add: min_absorb1 del: power_Suc)
  next
    case 3
    then have "delay * 2 \<le> top_delay" by linarith
    then have "wrap64 (delay * 2) = delay * 2" using Suc.prems assms(3) by (intro wrap64_id) (auto simp: max_int64_def)
    with 3 half Suc.IH [of "delay * 2"] Suc.prems \<open>delay * 2 \<le> top_delay\<close> show ?thesis by (simp add: ac_simps)
  qed
qed simp

lemma delay_cap_closed:
  "0 < base \<Longrightarrow> base \<le> top_delay \<Longrightarrow> top_delay \<le> max_int64 \<Longrightarrow>
    delay_cap base top_delay attempt = min top_delay (base * 2 ^ (attempt - 1))"
  by (simp add: delay_cap_def delay_loop_closed Let_def min_def)

lemma backoff_bounds:
  assumes "0 < base" "base \<le> top_delay" "top_delay \<le> max_int64"
    "\<And>bound n. random bound = Inr n \<Longrightarrow> 0 \<le> n \<and> n < bound" "backoff base top_delay attempt random = Inr d"
  shows "min top_delay (base * 2 ^ (attempt - 1)) div 2 \<le> d \<and> d \<le> min top_delay (base * 2 ^ (attempt - 1))"
proof -
  define c where "c = min top_delay (base * 2 ^ (attempt - 1))"
  have "0 < c" using assms(1,2) by (simp add: c_def)
  then have "go_div c 2 = c div 2" by (intro go_div_pos) auto
  moreover have cap: "delay_cap base top_delay attempt = c" using delay_cap_closed [OF assms(1-3)] by (simp add: c_def)
  ultimately obtain n where n: "random (c - c div 2 + 1) = Inr n" "d = c div 2 + n"
    using assms(5) by (auto simp: backoff_def delay_cap_closed [OF assms(1-3)] c_def [symmetric] Let_def bindE_Inr_iff)
  show ?thesis unfolding c_def [symmetric] using assms(4) [OF n(1)] n(2) by linarith
qed

text \<open>The retry delay doubles with every attempt from the configured base up to the configured
  maximum and never overflows; the drawn delay lies between half of that value and the
  value.\<close>

theorem retry_delay_bounds:
  assumes "checkWorker c = Inr ()" "wc_PublishRetryMax c \<le> max_int64"
    "\<And>bound n. random bound = Inr n \<Longrightarrow> 0 \<le> n \<and> n < bound" "retryDelay c attempt random = Inr d"
  shows "min (wc_PublishRetryMax c) (wc_PublishRetryBase c * 2 ^ (attempt - 1)) div 2 \<le> d \<and>
    d \<le> min (wc_PublishRetryMax c) (wc_PublishRetryBase c * 2 ^ (attempt - 1))"
proof (rule backoff_bounds [where random = random])
  show "0 < wc_PublishRetryBase c" "wc_PublishRetryBase c \<le> wc_PublishRetryMax c"
    using assms(1) by (auto simp: checkWorker_def split: if_splits)
qed (use assms in \<open>auto simp: retryDelay_def\<close>)

definition some_worker :: worker_config where
  "some_worker = \<lparr>wc_PollInterval = 1, wc_BatchSize = 2, wc_LeaseDuration = 30000, wc_PublishTimeout = 10000,
     wc_PublishMaxAttempts = 3, wc_PublishRetryBase = 1000, wc_PublishRetryMax = 5000, wc_Retention = 9000\<rparr>"

theorem retry_delay_bounds_witness:
  "min (wc_PublishRetryMax some_worker) (wc_PublishRetryBase some_worker * 2 ^ (3 - 1)) div 2 \<le> (2000 :: int) \<and>
    2000 \<le> min (wc_PublishRetryMax some_worker) (wc_PublishRetryBase some_worker * 2 ^ (3 - 1))"
proof (rule retry_delay_bounds [where random = "\<lambda>bound. if 0 < bound then Inr 0 else Inl not_ready"])
  show "retryDelay some_worker 3 (\<lambda>bound. if 0 < bound then Inr 0 else Inl not_ready) = Inr 2000"
    by (simp add: retryDelay_def backoff_def delay_cap_closed some_worker_def max_int64_def go_div_def)
qed (auto simp: some_worker_def checkWorker_def max_int64_def split: if_splits)

text \<open>A validated configuration never overflows: the limit of a whole message is the sum of the
  payload limit, the header limit and 64 KiB, and the derived worker configuration is valid.\<close>

theorem config_sizes_fit:
  assumes "outbox_Validate c = Inr ()" "oc_MaxPayloadBytes c \<le> max_int64" "oc_MaxHeaderBytes c \<le> max_int64"
  shows "MaxEnvelopeBytes c = oc_MaxPayloadBytes c + oc_MaxHeaderBytes c + 65536 \<and>
    checkWorker (config_WorkerConfig c) = Inr ()"
proof -
  have p: "0 < oc_MaxPayloadBytes c" "0 < oc_MaxHeaderBytes c"
    and no: "\<not> wrap64 (wrap64 (max_int64 - oc_MaxHeaderBytes c) - metadataAllowance) < oc_MaxPayloadBytes c"
    and w: "checkWorker (config_WorkerConfig c) = Inr ()"
    using assms(1) by (auto simp: outbox_Validate_def checkWorker_def config_WorkerConfig_def split: if_splits)
  have "wrap64 (max_int64 - oc_MaxHeaderBytes c) = max_int64 - oc_MaxHeaderBytes c"
    using p assms(3) by (intro wrap64_id) (auto simp: max_int64_def)
  moreover have "wrap64 (max_int64 - oc_MaxHeaderBytes c - metadataAllowance) = max_int64 - oc_MaxHeaderBytes c - metadataAllowance"
    using p assms(3) by (intro wrap64_id) (auto simp: max_int64_def metadataAllowance_def)
  ultimately have fits: "oc_MaxPayloadBytes c + oc_MaxHeaderBytes c + 65536 \<le> max_int64"
    using no by (simp add: metadataAllowance_def)
  have "wrap64 (oc_MaxPayloadBytes c + oc_MaxHeaderBytes c) = oc_MaxPayloadBytes c + oc_MaxHeaderBytes c"
    using p fits by (intro wrap64_id) (auto simp: max_int64_def)
  moreover have "wrap64 (oc_MaxPayloadBytes c + oc_MaxHeaderBytes c + 65536) = oc_MaxPayloadBytes c + oc_MaxHeaderBytes c + 65536"
    using p fits by (intro wrap64_id) (auto simp: max_int64_def)
  ultimately show ?thesis using w by (simp add: MaxEnvelopeBytes_def metadataAllowance_def)
qed

theorem config_sizes_fit_witness:
  "MaxEnvelopeBytes outbox_DefaultConfig = oc_MaxPayloadBytes outbox_DefaultConfig + oc_MaxHeaderBytes outbox_DefaultConfig + 65536 \<and>
    checkWorker (config_WorkerConfig outbox_DefaultConfig) = Inr ()"
proof (rule config_sizes_fit)
  have "trim_space ''default'' = ''default''" by (simp add: ascii_eval)
  then show "outbox_Validate outbox_DefaultConfig = Inr ()"
    by (simp add: outbox_Validate_def outbox_DefaultConfig_def secs_def max_int64_def metadataAllowance_def wrap64_def)
qed (simp_all add: outbox_DefaultConfig_def max_int64_def)


section \<open>A batch takes all it can\<close>

lemma claim_loop_taken:
  assumes "ids_distinct tab" "distinct (map fst pairs)" "de_kind env \<noteq> SQLite"
    "fst (claim_loop mode env owner us pairs tab) = Inr recs" "(m, t) \<in> set pairs"
  shows "\<exists>r r'. row_of tab m = Some r \<and> takes_row mode env owner us t r r' \<and>
    row_of (snd (claim_loop mode env owner us pairs tab)) m = Some r'"
  using assms
proof (induction mode env owner us pairs tab arbitrary: recs rule: claim_loop.induct)
  case (2 mode env owner us mid token rest tab)
  define st where "st = stmt_claim mode (de_kind env) (de_later env) owner token us mid tab"
  note S = stmt_claim_row [OF 2(3), of mode "de_kind env" "de_later env" owner token us mid, folded st_def]
  have dist: "ids_distinct (snd st)" using S(3) 2(3) by (simp add: ids_distinct_def)
  obtain rec recs' where R: "fst st = 1" "readClaimed mid token (snd st) = Inr rec"
    "fst (claim_loop mode env owner us rest (snd st)) = Inr recs'"
    using 2(5,6) by (cases st) (auto simp: st_def [symmetric] split: if_splits sum.splits prod.splits)
  have loop: "snd (claim_loop mode env owner us ((mid, token) # rest) tab) = snd (claim_loop mode env owner us rest (snd st))"
    using R(1,2) by (cases st) (auto simp: st_def [symmetric] split: sum.splits prod.splits)
  have fresh: "mid \<notin> fst ` set rest" "distinct (map fst rest)" using 2(4) by auto
  note L = claim_loop_rows [OF dist fresh(2), where m = mid and mode = mode and env = env and owner = owner and us = us]
  show ?case
  proof (cases "m = mid")
    case True
    then have "t = token" using 2(7) fresh(1) by force
    moreover obtain r where "row_of tab mid = Some r" "mode_takes mode (de_later env) r"
      using S(1) R(1) by (auto split: option.splits if_splits)
    moreover have "row_of (snd (claim_loop mode env owner us rest (snd st))) mid = row_of (snd st) mid"
      using L fresh(1) by blast
    ultimately show ?thesis using True by (simp add: loop S(2) takes_row_def del: claim_loop.simps)
  next
    case False
    have "\<exists>r r'. row_of (snd st) m = Some r \<and> takes_row mode env owner us t r r' \<and>
        row_of (snd (claim_loop mode env owner us rest (snd st))) m = Some r'"
      by (rule 2(2) [of st "fst st" "snd st" rec]) (use R dist 2(5,7) fresh(2) False in \<open>auto simp: st_def prod_eq_iff\<close>)
    then show ?thesis using False by (simp add: loop S(2) del: claim_loop.simps)
  qed
qed simp

definition claimable :: "claim_mode \<Rightarrow> int \<Rightarrow> outbox_table \<Rightarrow> string set" where
  "claimable mode now tab = {m. \<exists>r. row_of tab m = Some r \<and> mode_takes mode now r}"

lemma claimable_set: "ids_distinct tab \<Longrightarrow> claimable mode now tab = or_messageId ` {r \<in> set tab. mode_takes mode now r}"
  by (auto simp: claimable_def row_of_mem dest: row_of_SomeD)

lemma claimable_finite: "ids_distinct tab \<Longrightarrow> finite (claimable mode now tab)"
  by (simp add: claimable_set)

lemma claimable_any: "claimable ClaimAny now tab = claimable ClaimReady now tab \<union> claimable ClaimLapsed now tab"
  "claimable ClaimReady now tab \<inter> claimable ClaimLapsed now tab = {}"
  by (auto simp: claimable_def mode_takes_def is_ready_def is_expired_def)

lemma select_ids_count:
  assumes "ids_distinct tab"
  shows "length (select_ids P key {} limit tab) = min (nat limit) (card (or_messageId ` {r \<in> set tab. P r}))"
    "set (select_ids P key {} limit tab) \<subseteq> or_messageId ` {r \<in> set tab. P r}"
proof -
  have "distinct (map or_messageId (filter P tab))"
    using assms by (simp add: ids_distinct_def distinct_map_filter)
  then have "card (or_messageId ` {r \<in> set tab. P r}) = length (filter P tab)"
    by (metis distinct_card length_map set_filter set_map)
  then show "length (select_ids P key {} limit tab) = min (nat limit) (card (or_messageId ` {r \<in> set tab. P r}))"
    by (simp add: select_ids_def min.commute)
  show "set (select_ids P key {} limit tab) \<subseteq> or_messageId ` {r \<in> set tab. P r}"
    by (auto simp: select_ids_def dest: in_set_takeD)
qed

lemma claimCandidates_count:
  assumes "ids_distinct tab"
  shows "length (claimCandidates mode now {} limit tab) = min (nat limit) (card (claimable mode now tab)) \<and>
    set (claimCandidates mode now {} limit tab) \<subseteq> claimable mode now tab"
  by (cases mode)
    (simp_all add: claimCandidates_def claimable_set [OF assms] mode_takes_def select_ids_count [OF assms])

text \<open>A quiet environment: no other transaction, no driver error, one clock reading.\<close>

definition quiet_env :: "int \<Rightarrow> db_env \<Rightarrow> bool" where
  "quiet_env now env \<longleftrightarrow> de_kind env \<noteq> SQLite \<and> de_skip env = {} \<and> de_now env = now \<and> de_later env = now"

lemma durationArgument_pos:
  assumes "0 < d"
  shows "0 < durationArgument kind d"
proof -
  have "go_div d 1000 = d div 1000" using assms by (intro go_div_pos) simp_all
  moreover have "0 \<le> d div 1000" using assms by simp
  ultimately show ?thesis using assms by (auto simp: durationArgument_def Let_def)
qed

lemma claimed_row_not_taken:
  assumes "kind \<noteq> SQLite" "0 < d"
  shows "\<not> mode_takes mode now (claimed_row kind now owner token (durationArgument kind d) r)"
  using durationArgument_pos [OF assms(2), of kind] assms(1)
  by (cases kind) (simp_all add: mode_takes_def is_ready_def is_expired_def claimed_row_def set_lease_def addDuration_def)

lemma store_claim_count:
  assumes "ids_distinct tab" "quiet_env now env" "store_claim mode env owner limit d tokens tab = (Inr recs, tab')"
  shows "length recs = min (nat limit) (card (claimable mode now tab)) \<and> ids_distinct tab' \<and>
    (\<exists>taken \<subseteq> claimable mode now tab. card taken = length recs \<and>
      (\<forall>mode2. claimable mode2 now tab' = claimable mode2 now tab - taken))"
proof -
  define ids where "ids = claimCandidates mode now {} limit tab"
  define us where "us = durationArgument (de_kind env) d"
  define pairs where "pairs = claim_pairs mode env limit tokens tab"
  have q: "de_kind env \<noteq> SQLite" "de_skip env = {}" "de_now env = now" "de_later env = now"
    using assms(2) by (simp_all add: quiet_env_def)
  have ok: "0 < d" "fst (claim_loop mode env owner us pairs tab) = Inr recs"
    using store_claim_ok [of mode env owner limit d tokens tab recs] assms(3) by (simp_all add: us_def pairs_def)
  have tab': "tab' = snd (claim_loop mode env owner us pairs tab)"
    using assms(3)
    by (auto simp: store_claim_def transaction_def claimWithin_def Let_def us_def pairs_def claim_pairs_def
        split: if_splits option.splits prod.splits sum.splits)
  have fst_pairs: "map fst pairs = ids" using q by (simp add: pairs_def ids_def fst_claim_pairs)
  have dist: "distinct ids" using claimCandidates_distinct [OF assms(1)] by (simp add: ids_def)
  have count: "length ids = min (nat limit) (card (claimable mode now tab))" "set ids \<subseteq> claimable mode now tab"
    using claimCandidates_count [OF assms(1)] by (simp_all add: ids_def)
  have len: "length recs = length ids"
    using claim_loop_all [OF assms(1) q(1) ok(2)] fst_pairs by (metis length_map)
  note L = claim_loop_rows [OF assms(1), of pairs, unfolded fst_pairs, OF dist, where mode = mode and env = env and owner = owner and us = us]
  have same: "row_of tab' m = row_of tab m" if "m \<notin> set ids" for m
    using L [of m] that fst_pairs by (simp add: tab' flip: set_map)
  have gone: "\<not> (\<exists>r. row_of tab' m = Some r \<and> mode_takes mode2 now r)" if "m \<in> set ids" for m mode2
  proof -
    have "m \<in> fst ` set pairs" using that fst_pairs by (simp flip: set_map)
    then obtain t where "(m, t) \<in> set pairs" by auto
    from claim_loop_taken [OF assms(1) _ q(1) ok(2) this] fst_pairs dist
    obtain r r' where "takes_row mode env owner us t r r'" "row_of tab' m = Some r'" by (auto simp: tab')
    then show ?thesis using claimed_row_not_taken [OF q(1) ok(1)] q(4) by (auto simp: takes_row_def us_def)
  qed
  have "claimable mode2 now tab' = claimable mode2 now tab - set ids" for mode2
    using same gone by (fastforce simp: claimable_def)
  moreover have "ids_distinct tab'" using L assms(1) by (simp add: tab' ids_distinct_def)
  ultimately show ?thesis using count len dist by (auto intro!: exI [of _ "set ids"] simp: distinct_card)
qed


definition side :: "bool \<Rightarrow> claim_mode" where
  "side is_lapsed = (if is_lapsed then ClaimLapsed else ClaimReady)"

lemma worker_claim_count:
  assumes "ids_distinct tab" "quiet_env now env" "worker_claim c env wid b limit tokens tab = (Inr recs, tab')"
  shows "length recs = min (nat limit) (card (claimable (side b) now tab)) \<and> ids_distinct tab' \<and>
    card (claimable (side b) now tab') = card (claimable (side b) now tab) - length recs \<and>
    card (claimable (side (\<not> b)) now tab') = card (claimable (side (\<not> b)) now tab)"
proof (cases "limit \<le> 0")
  case True
  then show ?thesis using assms by (simp add: worker_claim_def)
next
  case False
  then have "store_claim (side b) env wid limit (wc_LeaseDuration c) tokens tab = (Inr recs, tab')"
    using assms(3) by (auto simp: worker_claim_def side_def split: prod.splits sum.splits)
  from store_claim_count [OF assms(1,2) this]
  obtain taken where T: "taken \<subseteq> claimable (side b) now tab" "card taken = length recs"
      "\<And>mode2. claimable mode2 now tab' = claimable mode2 now tab - taken"
    and len: "length recs = min (nat limit) (card (claimable (side b) now tab))" "ids_distinct tab'" by blast
  have "finite taken" using T(1) claimable_finite [OF assms(1)] by (rule finite_subset)
  moreover have "taken \<inter> claimable (side (\<not> b)) now tab = {}"
    using T(1) claimable_any(2) [of now tab] by (cases b) (auto simp: side_def)
  then have "claimable (side (\<not> b)) now tab - taken = claimable (side (\<not> b)) now tab" by blast
  ultimately show ?thesis using T len by (simp add: card_Diff_subset)
qed

lemma batch_arith_nat:
  fixes N :: nat
  assumes "h \<le> N" "0 < h" "h < N \<or> N = 1" "n1 = min h f" "n2 = min (N - n1) g"
    "n3 = (if h < N \<and> n1 + n2 < N then min (N - (n1 + n2)) (f - n1) else 0)"
  shows "n1 + n2 + n3 = min N (f + g)"
proof (cases "h < N \<and> n1 + n2 < N")
  case True
  then have "n2 = g" "n3 = min (N - (n1 + n2)) (f - n1)" "n1 \<le> f" using assms(4-6) by (auto simp: min_def split: if_splits)
  then show ?thesis using True by linarith
next
  case False
  then have "n3 = 0" using assms(6) by (simp only: if_False)
  show ?thesis
  proof (cases "h < N")
    case True
    then have "N \<le> n1 + n2" using False by simp
    moreover have "n1 \<le> f" "n2 \<le> g" "n1 + n2 \<le> N" using assms(1,4,5) by linarith+
    ultimately show ?thesis using \<open>n3 = 0\<close> by linarith
  next
    case False
    then have "N = 1" "h = 1" using assms(1-3) by linarith+
    then show ?thesis using assms(4,5) \<open>n3 = 0\<close> by linarith
  qed
qed

lemma batch_arith:
  assumes "0 < n" "n1 = min (nat (go_div (n + 1) 2)) f" "n2 = min (nat (n - int n1)) g"
    "n3 = (if 0 < n - go_div (n + 1) 2 \<and> int n1 + int n2 < n then min (nat (n - int (n1 + n2))) (f - n1) else 0)"
  shows "n1 + n2 + n3 = min (nat n) (f + g)"
proof -
  obtain N where n: "n = int N" using assms(1) by (metis less_imp_le nonneg_int_cases)
  have half: "go_div (int N + 1) 2 = int ((N + 1) div 2)"
    using go_div_pos [of "int N + 1" 2] by (simp add: zdiv_int)
  have "n1 + n2 + n3 = min N (f + g)"
  proof (rule batch_arith_nat)
    show "(N + 1) div 2 \<le> N" "0 < (N + 1) div 2" "(N + 1) div 2 < N \<or> N = 1" using assms(1) n by linarith+
    show "n1 = min ((N + 1) div 2) f" using assms(2) unfolding n half by simp
    show "n2 = min (N - n1) g" using assms(3) unfolding n by (simp add: nat_diff_distrib)
    have "nat (int N - int (n1 + n2)) = N - (n1 + n2)" by simp
    then show "n3 = (if (N + 1) div 2 < N \<and> n1 + n2 < N then min (N - (n1 + n2)) (f - n1) else 0)"
      using assms(4) unfolding n half by (simp only: of_nat_less_iff [where 'a = int, symmetric] of_nat_add) (simp add: algebra_simps)
  qed
  then show ?thesis by (simp add: n)
qed

text \<open>A successful poll of the worker takes as many messages as it can: with nobody else at
  work it claims the smaller of the batch size and the number of claimable messages, fresh and
  lapsed ones together, and it swaps which kind goes first next time, so that
  neither kind can starve the other.\<close>

theorem poll_takes_all_it_can:
  assumes "outbox_ok tab" "0 < wc_BatchSize c" "\<forall>i. quiet_env now (env i)"
    "claimBatch c env tokens w tab = (Inr recs, w', tab')"
  shows "length recs = min (nat (wc_BatchSize c)) (card (claimable ClaimAny now tab)) \<and>
    wk_nextExpired w' = (\<not> wk_nextExpired w)"
proof -
  let ?n = "wc_BatchSize c" and ?b = "wk_nextExpired w"
  note dist = outbox_okD(1) [OF assms(1)]
  obtain recs1 tab1 where c1: "worker_claim c (env 0) (wk_id w) ?b (go_div (?n + 1) 2) (tokens 0) tab = (Inr recs1, tab1)"
    using assms(4) by (auto simp: claimBatch_def Let_def split: prod.splits sum.splits)
  note W1 = worker_claim_count [OF dist assms(3) [rule_format] c1]
  obtain recs2 tab2 where c2: "worker_claim c (env 1) (wk_id w) (\<not> ?b) (?n - int (length recs1)) (tokens 1) tab1 = (Inr recs2, tab2)"
    using assms(4) c1 by (auto simp: claimBatch_def Let_def split: prod.splits sum.splits)
  note W2 = worker_claim_count [OF W1 [THEN conjunct2, THEN conjunct1] assms(3) [rule_format] c2]
  define again where "again = (0 < ?n - go_div (?n + 1) 2 \<and> int (length recs1) + int (length recs2) < ?n)"
  have cards: "card (claimable ClaimAny now tab) = card (claimable (side ?b) now tab) + card (claimable (side (\<not> ?b)) now tab)"
    using claimable_any(2) [of now tab] claimable_finite [OF dist]
    by (cases ?b) (simp_all add: claimable_any(1) card_Un_disjoint side_def)
  have "length recs = min (nat ?n) (card (claimable (side ?b) now tab) + card (claimable (side (\<not> ?b)) now tab)) \<and>
      w' = w\<lparr>wk_nextExpired := \<not> ?b\<rparr>"
  proof (cases again)
    case True
    obtain recs3 tab3 where c3: "worker_claim c (env 2) (wk_id w) ?b (?n - int (length recs1 + length recs2)) (tokens 2) tab2 = (Inr recs3, tab3)"
      and out: "recs = recs1 @ recs2 @ recs3" "w' = w\<lparr>wk_nextExpired := \<not> ?b\<rparr>"
      using assms(4) c1 c2 True by (auto simp: claimBatch_def Let_def again_def split: prod.splits sum.splits)
    note W3 = worker_claim_count [OF W2 [THEN conjunct2, THEN conjunct1] assms(3) [rule_format] c3]
    have "length recs1 + length recs2 + length recs3 =
        min (nat ?n) (card (claimable (side ?b) now tab) + card (claimable (side (\<not> ?b)) now tab))"
      by (rule batch_arith [OF assms(2)]) (use W1 W2 W3 True in \<open>auto simp: again_def\<close>)
    then show ?thesis using out by simp
  next
    case False
    then have out: "recs = recs1 @ recs2" "w' = w\<lparr>wk_nextExpired := \<not> ?b\<rparr>"
      using assms(4) c1 c2 by (auto simp: claimBatch_def Let_def again_def)
    have "length recs1 + length recs2 + 0 =
        min (nat ?n) (card (claimable (side ?b) now tab) + card (claimable (side (\<not> ?b)) now tab))"
      by (rule batch_arith [OF assms(2)]) (use W1 W2 False in \<open>auto simp: again_def\<close>)
    then show ?thesis using out by simp
  qed
  then show ?thesis using cards by simp
qed


definition single_worker :: worker_config where
  "single_worker = some_worker\<lparr>wc_BatchSize := 1, wc_LeaseDuration := 5000\<rparr>"

theorem poll_takes_all_it_can_witness:
  "length [\<lparr>rd_row = claimed_two, rd_claimToken = ''b''\<rparr>] =
      min (nat (wc_BatchSize single_worker)) (card (claimable ClaimAny 9 [waiting_row id_one 5, waiting_row id_two 3])) \<and>
    wk_nextExpired \<lparr>wk_id = ''w'', wk_nextExpired = True\<rparr> = (\<not> wk_nextExpired \<lparr>wk_id = ''w'', wk_nextExpired = False\<rparr>)"
proof (rule poll_takes_all_it_can [OF two_waiting_ok])
  show "claimBatch single_worker (\<lambda>_. some_env 9) (\<lambda>_ _. ''b'') \<lparr>wk_id = ''w'', wk_nextExpired = False\<rparr>
      [waiting_row id_one 5, waiting_row id_two 3] =
    (Inr [\<lparr>rd_row = claimed_two, rd_claimToken = ''b''\<rparr>], \<lparr>wk_id = ''w'', wk_nextExpired = True\<rparr>, [waiting_row id_one 5, claimed_two])"
    by (simp add: claimBatch_def single_worker_def some_worker_def worker_claim_def go_div_def claim_of_two)
qed (simp_all add: single_worker_def some_worker_def some_env_def quiet_env_def)


section \<open>The outcome of a publication\<close>

lemma exec_held:
  assumes "ids_distinct tab" "\<And>r. or_messageId (f r) = or_messageId r" "row_of tab mid = Some r" "held_by mid token r"
    "de_ready env" "de_fail env = None"
  shows "fst (execClaimUpdate env action (update_rows (held_by mid token) f) tab) = Inr () \<and>
    row_of (snd (execClaimUpdate env action (update_rows (held_by mid token) f) tab)) mid = Some (f r)"
proof -
  note U = update_one [where P = "held_by mid token" and f = f and mid = mid and tab = tab, OF assms(1) held_by_id assms(2)]
  have "fst (update_rows (held_by mid token) f tab) = 1" using U(1) assms(3,4) by simp
  then show ?thesis
    using U(2) assms(3-6) by (auto simp: execClaimUpdate_def split: prod.splits)
qed

text \<open>Whether the publication of the record failed.\<close>

definition publication_failed :: "(nat \<Rightarrow> nat) \<Rightarrow> json_lib \<Rightarrow> publish_env \<Rightarrow> outbox_record \<Rightarrow> bool" where
  "publication_failed table js pe rec \<longleftrightarrow>
    (case read_envelope table js (rd_row rec) of Inl _ \<Rightarrow> True | Inr _ \<Rightarrow> pe_published pe \<noteq> None)"

definition random_ok :: "publish_env \<Rightarrow> bool" where
  "random_ok pe \<longleftrightarrow> (\<forall>bound n. pe_random pe bound = Inr n \<longrightarrow> 0 \<le> n \<and> n < bound)"

definition held_record :: "outbox_record \<Rightarrow> outbox_table \<Rightarrow> bool" where
  "held_record rec tab \<longleftrightarrow> row_of tab (or_messageId (rd_row rec)) = Some (rd_row rec) \<and>
     held_by (or_messageId (rd_row rec)) (rd_claimToken rec) (rd_row rec)"

lemma finishFailure_outcome:
  assumes "ids_distinct tab" "held_record rec tab" "checkWorker c = Inr ()" "wc_PublishRetryMax c \<le> max_int64" "random_ok pe"
    "de_ready (pe_env pe)" "de_fail (pe_env pe) = None" "\<not> pe_abandoned pe"
  shows "\<exists>r'. row_of (snd (finishFailure c log_text pe rec cause tab)) (or_messageId (rd_row rec)) = Some r' \<and>
    or_attempts r' = or_attempts (rd_row rec) \<and> or_lastError r' = Some (errorSummary log_text cause) \<and>
    or_status r' = (if wc_PublishMaxAttempts c \<le> or_attempts (rd_row rec) then StDead else StRetry)"
proof -
  let ?mid = "or_messageId (rd_row rec)" and ?tok = "rd_claimToken rec" and ?env = "pe_env pe"
  let ?sum = "errorSummary log_text cause"
  have held: "row_of tab ?mid = Some (rd_row rec)" "held_by ?mid ?tok (rd_row rec)"
    using assms(2) by (simp_all add: held_record_def)
  note H = exec_held [OF assms(1) _ held assms(6,7)]
  show ?thesis
  proof (cases "wc_PublishMaxAttempts c \<le> or_attempts (rd_row rec)")
    case True
    define f where "f = (\<lambda>r. (release (de_now ?env) r)\<lparr>or_status := StDead, or_lastError := Some ?sum, or_sentAt := None\<rparr>)"
    have M: "outbox_MarkDead ?env ?mid ?tok ?sum tab = execClaimUpdate ?env ''dead'' (update_rows (held_by ?mid ?tok) f) tab"
      by (simp add: outbox_MarkDead_def stmt_markDead_def f_def)
    have "fst (outbox_MarkDead ?env ?mid ?tok ?sum tab) = Inr () \<and>
        row_of (snd (outbox_MarkDead ?env ?mid ?tok ?sum tab)) ?mid = Some (f (rd_row rec))"
      unfolding M by (rule H) (simp add: f_def)
    then show ?thesis
      using True assms(8)
      by (cases "outbox_MarkDead ?env ?mid ?tok ?sum tab") (simp add: finishFailure_def Let_def f_def)
  next
    case False
    have pos: "0 < wc_PublishRetryBase c" "wc_PublishRetryBase c \<le> wc_PublishRetryMax c"
      using assms(3) by (auto simp: checkWorker_def split: if_splits)
    define delay where "delay = (case retryDelay c (or_attempts (rd_row rec)) (pe_random pe) of
        Inl _ \<Rightarrow> wc_PublishRetryMax c | Inr d \<Rightarrow> d)"
    have "0 \<le> delay"
    proof (cases "retryDelay c (or_attempts (rd_row rec)) (pe_random pe)")
      case (Inr d)
      from backoff_bounds [OF pos assms(4) _ this [unfolded retryDelay_def]] assms(5)
      have "min (wc_PublishRetryMax c) (wc_PublishRetryBase c * 2 ^ (or_attempts (rd_row rec) - 1)) div 2 \<le> d"
        by (auto simp: random_ok_def)
      moreover have "0 \<le> min (wc_PublishRetryMax c) (wc_PublishRetryBase c * 2 ^ (or_attempts (rd_row rec) - 1)) div 2"
        using pos by simp
      ultimately have "0 \<le> d" by linarith
      then show ?thesis using Inr by (simp add: delay_def)
    qed (use pos in \<open>simp add: delay_def\<close>)
    define f where "f = (\<lambda>r. (release (de_now ?env) r)\<lparr>or_status := StRetry,
        or_availableAt := addDuration (de_kind ?env) (de_now ?env) (durationArgument (de_kind ?env) delay),
        or_lastError := Some ?sum, or_sentAt := None\<rparr>)"
    have M: "outbox_MarkRetry ?env ?mid ?tok delay ?sum tab = execClaimUpdate ?env ''retry'' (update_rows (held_by ?mid ?tok) f) tab"
      using \<open>0 \<le> delay\<close> by (simp add: outbox_MarkRetry_def stmt_markRetry_def f_def)
    have R: "fst (outbox_MarkRetry ?env ?mid ?tok delay ?sum tab) = Inr () \<and>
        row_of (snd (outbox_MarkRetry ?env ?mid ?tok delay ?sum tab)) ?mid = Some (f (rd_row rec))"
      unfolding M by (rule H) (simp add: f_def)
    have "snd (finishFailure c log_text pe rec cause tab) = snd (outbox_MarkRetry ?env ?mid ?tok delay ?sum tab)"
      using False assms(8)
      by (auto simp: finishFailure_def Let_def delay_def split: sum.splits prod.splits)
    then show ?thesis using R False by (simp add: f_def)
  qed
qed


definition some_publish :: publish_env where
  "some_publish = \<lparr>pe_env = some_env 3, pe_published = Some not_ready, pe_renewal = None, pe_abandoned = False,
     pe_random = (\<lambda>bound. if 0 < bound then Inr 0 else Inl not_ready)\<rparr>"


end
