(* ===== verification/Outbox_Consumer.thy ===== *)
theory Outbox_Consumer
  imports Outbox_Worker
begin

text \<open>
  The consuming side: \<open>consumer.go\<close> (one delivery in a transaction with the inbox) and
  \<open>consumer_adapter.go\<close> (validation of subscriptions and brokers, the handling of one broker
  delivery, the life of the adapter).

  The application's own data is the type parameter \<open>'s\<close>; a handler changes it or fails. The
  broker is a parameter: its answers are part of the environment of a delivery.
\<close>

section \<open>Subscriptions\<close>

record subscription =
  sb_name :: string
  sb_topic :: string
  sb_messageType :: string
  sb_versions :: "u32 list"

record consumer_config =
  cc_ConsumerTimeout :: duration
  cc_ConsumerMaxAttempts :: nat
  cc_ConsumerRetryBase :: duration
  cc_ConsumerRetryMax :: duration

definition config_ConsumerConfig :: "outbox_config \<Rightarrow> consumer_config" where
  "config_ConsumerConfig c = \<lparr>cc_ConsumerTimeout = oc_ConsumerTimeout c, cc_ConsumerMaxAttempts = oc_ConsumerMaxAttempts c,
     cc_ConsumerRetryBase = oc_ConsumerRetryBase c, cc_ConsumerRetryMax = oc_ConsumerRetryMax c\<rparr>"

definition checkConsumer :: "consumer_config \<Rightarrow> (go_error, unit) result" where
  "checkConsumer c =
    (if cc_ConsumerTimeout c \<le> 0 \<or> cc_ConsumerMaxAttempts c = 0 \<or> cc_ConsumerRetryBase c \<le> 0 \<or> cc_ConsumerRetryMax c \<le> 0
       then Inl (PlainError ''values not positive'')
     else if cc_ConsumerRetryMax c < cc_ConsumerRetryBase c then Inl (PlainError ''retry base above max'')
     else Inr ())"

definition consumerDelay :: "consumer_config \<Rightarrow> nat \<Rightarrow> (int \<Rightarrow> (go_error, int) result) \<Rightarrow> (go_error, duration) result" where
  "consumerDelay c attempt random = backoff (cc_ConsumerRetryBase c) (cc_ConsumerRetryMax c) attempt random"

text \<open>An error of a handler, with the mark of \<open>Permanent\<close>.\<close>

record consumer_error =
  ce_error :: go_error
  ce_permanent :: bool

type_synonym 's handler = "'s \<Rightarrow> (consumer_error, unit) result \<times> 's"

record 's consumer_definition =
  cd_subscription :: subscription
  cd_decode :: "msg_envelope \<Rightarrow> (go_error, 's handler) result"

definition Consume ::
  "string \<Rightarrow> string \<Rightarrow> string \<Rightarrow> u32 list \<Rightarrow> (msg_envelope \<Rightarrow> (go_error, 's handler) result) option \<Rightarrow>
   (go_error, 's consumer_definition) result" where
  "Consume name topic messageType supportedVersions decode =
    bindE (checkConsumerName name) (\<lambda>_. bindE (checkText topic) (\<lambda>_. bindE (checkText messageType) (\<lambda>_.
      case decode of
        None \<Rightarrow> Inl (PlainError ''handler missing'')
      | Some d \<Rightarrow> bindE (versions supportedVersions) (\<lambda>vs.
          Inr \<lparr>cd_subscription = \<lparr>sb_name = name, sb_topic = topic, sb_messageType = messageType, sb_versions = vs\<rparr>,
            cd_decode = d\<rparr>))))"

record 's deliverer =
  dl_config :: consumer_config
  dl_definitions :: "(string, 's consumer_definition) gomap"
  dl_subscriptions :: "subscription list"

fun deliverer_loop ::
  "'s consumer_definition option list \<Rightarrow> (string, 's consumer_definition) gomap \<Rightarrow> subscription list \<Rightarrow>
   (go_error, (string, 's consumer_definition) gomap \<times> subscription list) result" where
  "deliverer_loop [] compiled subs = Inr (compiled, subs)"
| "deliverer_loop (None # rest) compiled subs = Inl (PlainError ''definition missing'')"
| "deliverer_loop (Some d # rest) compiled subs =
    (if map_of compiled (sb_name (cd_subscription d)) \<noteq> None then Inl (PlainError ''consumer name repeated'')
     else deliverer_loop rest (mput (sb_name (cd_subscription d)) d compiled) (subs @ [cd_subscription d]))"

definition NewDeliverer ::
  "bool \<Rightarrow> bool \<Rightarrow> consumer_config \<Rightarrow> 's consumer_definition option list \<Rightarrow> (go_error, 's deliverer) result" where
  "NewDeliverer runtime_ok has_store config defs =
    (if \<not> runtime_ok then Inl (PlainError ''runtime invalid'')
     else if \<not> has_store then Inl (PlainError ''inbox store missing'')
     else bindE (checkConsumer config) (\<lambda>_.
       if defs = [] then Inl (PlainError ''definitions missing'')
       else bindE (deliverer_loop defs [] []) (\<lambda>(compiled, subs).
         Inr \<lparr>dl_config = config, dl_definitions = compiled, dl_subscriptions = subs\<rparr>)))"

section \<open>One delivery\<close>

datatype delivery_decision = DecAck | DecRetry duration go_error | DecDeadLetter go_error

definition decision_Retry :: "duration \<Rightarrow> go_error \<Rightarrow> delivery_decision" where
  "decision_Retry after e = DecRetry (if after < 0 then 0 else after) e"

definition find_definition :: "'s deliverer \<Rightarrow> subscription \<Rightarrow> (go_error, 's consumer_definition) result" where
  "find_definition d sub =
    (case map_of (dl_definitions d) (sb_name sub) of
       None \<Rightarrow> Inl (PlainError ''subscription not registered'')
     | Some def \<Rightarrow>
         if sb_topic (cd_subscription def) \<noteq> sb_topic sub \<or> sb_messageType (cd_subscription def) \<noteq> sb_messageType sub \<or>
            sb_versions (cd_subscription def) \<noteq> sb_versions sub
         then Inl (PlainError ''subscription mismatch'') else Inr def)"

definition checkEnvelope ::
  "(nat \<Rightarrow> nat) \<Rightarrow> json_lib \<Rightarrow> subscription \<Rightarrow> msg_envelope \<Rightarrow> (go_error, msg_envelope) result" where
  "checkEnvelope table js sub m =
    bindE (Restore table (js_valid js) (en_messageID m) (en_topic m) (en_messageType m) (en_version m) (en_key m)
        (en_payload m) (en_headers m)) (\<lambda>validated.
      if en_topic validated \<noteq> sb_topic sub then Inl (PlainError ''topic mismatch'')
      else if en_messageType validated \<noteq> sb_messageType sub then Inl (PlainError ''message type mismatch'')
      else if en_version validated \<notin> set (sb_versions sub) then Inl (PlainError ''version not supported'')
      else Inr validated)"

text \<open>
  What a delivery meets: the database, whether the transaction is there and of the right group, the
  end of its context after the handler, a failing commit, and the random source.
\<close>

record delivery_env =
  dv_env :: db_env
  dv_tx :: bool
  dv_group :: bool
  dv_begin :: "go_error option"
  dv_expired :: "go_error option"
  dv_commit :: "go_error option"
  dv_random :: "int \<Rightarrow> (go_error, int) result"

text \<open>The body of the transaction, on the inbox and the application's data.\<close>

definition delivery_body ::
  "delivery_env \<Rightarrow> string \<Rightarrow> string \<Rightarrow> 's handler \<Rightarrow> inbox_table \<times> 's \<Rightarrow> (consumer_error, unit) result \<times> (inbox_table \<times> 's)" where
  "delivery_body dv consumer mid invoke st =
    (if \<not> dv_tx dv then (Inl \<lparr>ce_error = PlainError ''transaction invalid'', ce_permanent = False\<rparr>, st)
     else case InsertIfAbsent (dv_env dv) True (dv_group dv) consumer mid (fst st) of
         (Inl e, inbox') \<Rightarrow> (Inl \<lparr>ce_error = e, ce_permanent = False\<rparr>, (inbox', snd st))
       | (Inr False, inbox') \<Rightarrow> (Inr (), (inbox', snd st))
       | (Inr True, inbox') \<Rightarrow>
           (case invoke (snd st) of
              (Inl e, s') \<Rightarrow> (Inl e, (inbox', s'))
            | (Inr _, s') \<Rightarrow>
                (case dv_expired dv of
                   Some e \<Rightarrow> (Inl \<lparr>ce_error = e, ce_permanent = False\<rparr>, (inbox', s'))
                 | None \<Rightarrow> (Inr (), (inbox', s')))))"

text \<open>\<open>Runner().Within\<close>: begin, body, commit; every error rolls the whole transaction back.\<close>

definition within_tx ::
  "delivery_env \<Rightarrow> ('t \<Rightarrow> (consumer_error, unit) result \<times> 't) \<Rightarrow> 't \<Rightarrow> (consumer_error, unit) result \<times> 't" where
  "within_tx dv body st =
    (case dv_begin dv of
       Some e \<Rightarrow> (Inl \<lparr>ce_error = e, ce_permanent = False\<rparr>, st)
     | None \<Rightarrow>
         (case body st of
            (Inl e, _) \<Rightarrow> (Inl e, st)
          | (Inr _, st') \<Rightarrow>
              (case dv_commit dv of
                 Some e \<Rightarrow> (Inl \<lparr>ce_error = e, ce_permanent = False\<rparr>, st)
               | None \<Rightarrow> (Inr (), st'))))"

definition decide :: "consumer_config \<Rightarrow> delivery_env \<Rightarrow> nat \<Rightarrow> (consumer_error, unit) result \<Rightarrow> delivery_decision" where
  "decide c dv attempt res =
    (case res of
       Inr _ \<Rightarrow> DecAck
     | Inl e \<Rightarrow>
         if ce_permanent e \<or> cc_ConsumerMaxAttempts c \<le> attempt then DecDeadLetter (ce_error e)
         else case consumerDelay c attempt (dv_random dv) of
             Inl e' \<Rightarrow> decision_Retry 0 e'
           | Inr delay \<Rightarrow> decision_Retry delay (ce_error e))"

definition Deliver ::
  "(nat \<Rightarrow> nat) \<Rightarrow> json_lib \<Rightarrow> 's deliverer \<Rightarrow> delivery_env \<Rightarrow> subscription \<Rightarrow> msg_envelope \<Rightarrow> nat \<Rightarrow>
   inbox_table \<times> 's \<Rightarrow> delivery_decision \<times> (inbox_table \<times> 's)" where
  "Deliver table js d dv sub m attempt st =
    (if attempt = 0 then (DecDeadLetter (PlainError ''attempt is zero''), st)
     else if cc_ConsumerMaxAttempts (dl_config d) < attempt then (DecDeadLetter (PlainError ''attempts exceeded''), st)
     else case find_definition d sub of
         Inl e \<Rightarrow> (DecDeadLetter e, st)
       | Inr def \<Rightarrow>
           (case checkEnvelope table js sub m of
              Inl e \<Rightarrow> (DecDeadLetter e, st)
            | Inr validated \<Rightarrow>
                (case cd_decode def validated of
                   Inl e \<Rightarrow> (DecDeadLetter e, st)
                 | Inr invoke \<Rightarrow>
                     (let (res, st') = within_tx dv (delivery_body dv (sb_name sub) (en_messageID validated) invoke) st
                      in (decide (dl_config d) dv attempt res, st')))))"

section \<open>What a delivery guarantees\<close>

lemma checkEnvelope_id: "checkEnvelope table js sub m = Inr v \<Longrightarrow> en_messageID v = en_messageID m"
  by (auto simp: checkEnvelope_def Restore_def newEnvelope_def bindE_Inr_iff split: if_splits)

lemma find_definition_SomeD: "find_definition d sub = Inr def \<Longrightarrow> map_of (dl_definitions d) (sb_name sub) = Some def"
  by (auto simp: find_definition_def split: option.splits if_splits)

text \<open>A delivery either leaves everything as it was or ran the transaction to its end.\<close>

lemma Deliver_cases:
  assumes "Deliver table js d dv sub m attempt st = (dec, st')"
  obtains (rejected) e where "dec = DecDeadLetter e" "st' = st"
  | (ran) def v invoke res where "0 < attempt" "attempt \<le> cc_ConsumerMaxAttempts (dl_config d)"
      "map_of (dl_definitions d) (sb_name sub) = Some def" "cd_decode def v = Inr invoke" "en_messageID v = en_messageID m"
      "within_tx dv (delivery_body dv (sb_name sub) (en_messageID m) invoke) st = (res, st')"
      "dec = decide (dl_config d) dv attempt res"
proof -
  note D = assms [unfolded Deliver_def]
  show ?thesis
  proof (cases "attempt = 0 \<or> cc_ConsumerMaxAttempts (dl_config d) < attempt")
    case True
    then show ?thesis using D rejected by (auto split: if_splits)
  next
    case attempt: False
    then have D1: "(case find_definition d sub of Inl e \<Rightarrow> (DecDeadLetter e, st) | Inr def \<Rightarrow>
        (case checkEnvelope table js sub m of Inl e \<Rightarrow> (DecDeadLetter e, st) | Inr validated \<Rightarrow>
          (case cd_decode def validated of Inl e \<Rightarrow> (DecDeadLetter e, st) | Inr invoke \<Rightarrow>
            (let (res, st') = within_tx dv (delivery_body dv (sb_name sub) (en_messageID validated) invoke) st
             in (decide (dl_config d) dv attempt res, st'))))) = (dec, st')"
      using D by simp
    show ?thesis
    proof (cases "find_definition d sub")
      case (Inl e)
      then show ?thesis using D1 by (auto intro: rejected)
    next
      case def: (Inr def)
      show ?thesis
      proof (cases "checkEnvelope table js sub m")
        case (Inl e)
        then show ?thesis using D1 def by (auto intro: rejected)
      next
        case v: (Inr v)
        show ?thesis
        proof (cases "cd_decode def v")
          case (Inl e)
          then show ?thesis using D1 def v by (auto intro: rejected)
        next
          case invoke: (Inr invoke)
          obtain res st1 where W: "within_tx dv (delivery_body dv (sb_name sub) (en_messageID v) invoke) st = (res, st1)"
            by (cases "within_tx dv (delivery_body dv (sb_name sub) (en_messageID v) invoke) st")
          with D1 def v invoke have "dec = decide (dl_config d) dv attempt res" "st1 = st'" by simp_all
          then show ?thesis
            using ran [of def v invoke res] attempt W checkEnvelope_id [OF v] find_definition_SomeD [OF def] invoke by auto
        qed
      qed
    qed
  qed
qed

lemma within_tx_error: "within_tx dv body st = (Inl e, st') \<Longrightarrow> st' = st"
  by (auto simp: within_tx_def split: option.splits prod.splits sum.splits)

lemma within_tx_ok:
  "within_tx dv body st = (Inr u, st') \<Longrightarrow> body st = (Inr (), st')"
  by (auto simp: within_tx_def split: option.splits prod.splits sum.splits)

lemma delivery_body_ok:
  assumes "delivery_body dv c mid invoke (inbox, s) = (Inr (), (inbox', s'))"
  shows "inbox' = insert (c, mid) inbox \<and> (if (c, mid) \<in> inbox then s' = s else invoke s = (Inr (), s'))"
proof -
  have I: "InsertIfAbsent (dv_env dv) True (dv_group dv) c mid inbox = (Inr b, inbox1) \<Longrightarrow>
      inbox1 = insert (c, mid) inbox \<and> (b \<longleftrightarrow> (c, mid) \<notin> inbox)" for b inbox1
    by (cases "de_kind (dv_env dv)") (auto simp: InsertIfAbsent_def Let_def split: if_splits option.splits)
  show ?thesis
    using assms I
    by (auto simp: delivery_body_def split: if_splits prod.splits sum.splits bool.splits option.splits)
qed

lemma decide_Ack: "decide c dv attempt res = DecAck \<longleftrightarrow> res = Inr ()"
  by (auto simp: decide_def decision_Retry_def split: sum.splits)

text \<open>A consumer that counts the messages it handled, for the examples.\<close>

definition counting_definition :: "nat consumer_definition" where
  "counting_definition = \<lparr>cd_subscription = \<lparr>sb_name = ''c'', sb_topic = ''t'', sb_messageType = ''y'', sb_versions = [1]\<rparr>,
     cd_decode = (\<lambda>m. Inr (\<lambda>s. (Inr (), if en_messageID m = en_messageID broken_key_message then s + 1 else s)))\<rparr>"

definition counting_deliverer :: "nat deliverer" where
  "counting_deliverer = \<lparr>dl_config = \<lparr>cc_ConsumerTimeout = 1, cc_ConsumerMaxAttempts = 3, cc_ConsumerRetryBase = 10,
     cc_ConsumerRetryMax = 50\<rparr>, dl_definitions = [(''c'', counting_definition)],
     dl_subscriptions = [cd_subscription counting_definition]\<rparr>"

definition plain_message :: msg_envelope where
  "plain_message = broken_key_message\<lparr>en_key := None\<rparr>"

definition failing_delivery :: delivery_env where
  "failing_delivery = \<lparr>dv_env = some_env 3, dv_tx = True, dv_group = True, dv_begin = None, dv_expired = None,
     dv_commit = Some not_ready, dv_random = (\<lambda>bound. if 0 < bound then Inr 0 else Inl not_ready)\<rparr>"

lemma plain_message_checked:
  "checkEnvelope (\<lambda>r. r) plain_json (cd_subscription counting_definition) plain_message = Inr plain_message"
proof -
  have "checkMessageID (uuid_text (uuid_bytes 5 (replicate 10 0))) = Inr ()" by (rule valid_id_checked [OF uuid_valid]) simp
  moreover have "checkText ''t'' = Inr ()" "checkText ''y'' = Inr ()" by (simp_all add: checkText_def ascii_eval)
  ultimately show ?thesis
    by (simp add: checkEnvelope_def Restore_def newEnvelope_def plain_message_def broken_key_message_def counting_definition_def
        plain_json_def cleanHeaders_def)
qed

text \<open>Every decision of a delivery is backed by the database: an acknowledgement means that
  the message is registered in the inbox; in every other case the inbox and the application's
  data are exactly as before. A retry is only asked for while attempts are left, with a delay
  between zero and the configured maximum.\<close>

theorem delivery_decision_sound:
  assumes "checkConsumer (dl_config d) = Inr ()" "cc_ConsumerRetryMax (dl_config d) \<le> max_int64"
    "\<forall>bound n. dv_random dv bound = Inr n \<longrightarrow> 0 \<le> n \<and> n < bound"
    "Deliver table js d dv sub m attempt st = (dec, st')"
  shows "case dec of
      DecAck \<Rightarrow> (sb_name sub, en_messageID m) \<in> fst st'
    | DecRetry delay e \<Rightarrow> st' = st \<and> attempt < cc_ConsumerMaxAttempts (dl_config d) \<and> 0 \<le> delay \<and>
        delay \<le> cc_ConsumerRetryMax (dl_config d)
    | DecDeadLetter e \<Rightarrow> st' = st"
  using assms(4)
proof (cases rule: Deliver_cases)
  case (ran def v invoke res)
  show ?thesis
  proof (cases res)
    case (Inl e)
    have st: "st' = st" by (rule within_tx_error [OF ran(6) [unfolded Inl]])
    show ?thesis
    proof (cases "ce_permanent e \<or> cc_ConsumerMaxAttempts (dl_config d) \<le> attempt")
      case True
      then show ?thesis using ran(7) Inl st by (auto simp: decide_def)
    next
      case False
      have pos: "0 < cc_ConsumerRetryBase (dl_config d)" "cc_ConsumerRetryBase (dl_config d) \<le> cc_ConsumerRetryMax (dl_config d)"
        using assms(1) by (auto simp: checkConsumer_def split: if_splits)
      show ?thesis
      proof (cases "consumerDelay (dl_config d) attempt (dv_random dv)")
        case (Inl e')
        then show ?thesis using ran(2,7) \<open>res = Inl e\<close> st False pos by (simp add: decide_def decision_Retry_def)
      next
        case (Inr delay)
        from backoff_bounds [OF pos assms(2) _ this [unfolded consumerDelay_def]] assms(3)
        have "delay \<le> cc_ConsumerRetryMax (dl_config d)" by auto
        then show ?thesis using ran(7) \<open>res = Inl e\<close> st False pos Inr by (simp add: decide_def decision_Retry_def)
      qed
    qed
  next
    case (Inr u)
    then have "dec = DecAck" using ran(7) by (simp add: decide_def)
    moreover have "(sb_name sub, en_messageID m) \<in> fst st'"
    proof -
      obtain inbox s inbox' s' where st: "st = (inbox, s)" "st' = (inbox', s')" by (cases st; cases st')
      have "delivery_body dv (sb_name sub) (en_messageID m) invoke (inbox, s) = (Inr (), (inbox', s'))"
        by (rule within_tx_ok [OF ran(6) [unfolded Inr st]])
      from delivery_body_ok [OF this] st show ?thesis by simp
    qed
    ultimately show ?thesis by simp
  qed
qed simp

definition fresh_state :: "inbox_table \<times> nat" where
  "fresh_state = ({}, 0)"

theorem delivery_decision_sound_witness:
  "case DecRetry 5 not_ready of
      DecAck \<Rightarrow> (sb_name (cd_subscription counting_definition), en_messageID plain_message) \<in> fst fresh_state
    | DecRetry delay e \<Rightarrow> fresh_state = fresh_state \<and> 1 < cc_ConsumerMaxAttempts (dl_config counting_deliverer) \<and> 0 \<le> delay \<and>
        delay \<le> cc_ConsumerRetryMax (dl_config counting_deliverer)
    | DecDeadLetter e \<Rightarrow> fresh_state = fresh_state"
proof (rule delivery_decision_sound [where st = fresh_state and st' = fresh_state])
  have "find_definition counting_deliverer (cd_subscription counting_definition) = Inr counting_definition"
    by (simp add: find_definition_def counting_deliverer_def counting_definition_def)
  moreover have "validMessageID (uuid_text (uuid_bytes 5 (replicate 10 0)))" by (rule uuid_valid) simp
  moreover have "trim_space ''c'' = ''c''" by (simp add: ascii_eval)
  moreover have "sb_name (cd_subscription counting_definition) = ''c''"
    "cd_decode counting_definition plain_message = Inr (\<lambda>s. (Inr (), s + 1))"
    by (simp_all add: counting_definition_def plain_message_def)
  moreover have "dl_config counting_deliverer = \<lparr>cc_ConsumerTimeout = 1, cc_ConsumerMaxAttempts = 3, cc_ConsumerRetryBase = 10,
      cc_ConsumerRetryMax = 50\<rparr>" by (simp add: counting_deliverer_def)
  moreover have "validMessageID (en_messageID plain_message)"
    unfolding plain_message_def broken_key_message_def by (simp add: uuid_valid)
  ultimately show "Deliver (\<lambda>r. r) plain_json counting_deliverer failing_delivery (cd_subscription counting_definition)
      plain_message 1 fresh_state = (DecRetry 5 not_ready, fresh_state)"
    by (simp add: Deliver_def plain_message_checked within_tx_def delivery_body_def InsertIfAbsent_def failing_delivery_def
        fresh_state_def some_env_def decide_def consumerDelay_def backoff_def delay_cap_def decision_Retry_def go_div_def Let_def)
qed (auto simp: counting_deliverer_def checkConsumer_def max_int64_def failing_delivery_def split: if_splits)

section \<open>Exactly-once effects\<close>

record delivery =
  dr_env :: delivery_env
  dr_sub :: subscription
  dr_message :: msg_envelope
  dr_attempt :: nat

fun deliver_all ::
  "(nat \<Rightarrow> nat) \<Rightarrow> json_lib \<Rightarrow> 's deliverer \<Rightarrow> delivery list \<Rightarrow> inbox_table \<times> 's \<Rightarrow> inbox_table \<times> 's" where
  "deliver_all table js d [] st = st"
| "deliver_all table js d (x # xs) st =
    deliver_all table js d xs (snd (Deliver table js d (dr_env x) (dr_sub x) (dr_message x) (dr_attempt x) st))"

text \<open>\<open>eff\<close> counts the effect of a message on a consumer: a successful run of this consumer's handler on
  this message adds one, every other successful run adds nothing.\<close>

definition counts_effect :: "('s \<Rightarrow> nat) \<Rightarrow> string \<Rightarrow> string \<Rightarrow> 's deliverer \<Rightarrow> bool" where
  "counts_effect eff c mid d \<longleftrightarrow>
    (\<forall>name def m invoke s s'. map_of (dl_definitions d) name = Some def \<longrightarrow> cd_decode def m = Inr invoke \<longrightarrow>
       invoke s = (Inr (), s') \<longrightarrow> eff s' = eff s + (if name = c \<and> en_messageID m = mid then 1 else 0))"

lemma Deliver_effect:
  assumes "counts_effect eff c mid d"
  shows "eff (snd (snd (Deliver table js d dv sub m attempt st))) + (if (c, mid) \<in> fst st then 1 else 0) =
    eff (snd st) + (if (c, mid) \<in> fst (snd (Deliver table js d dv sub m attempt st)) then 1 else 0)"
proof -
  obtain dec st' where D: "Deliver table js d dv sub m attempt st = (dec, st')"
    by (cases "Deliver table js d dv sub m attempt st")
  then show ?thesis
  proof (cases rule: Deliver_cases)
    case (ran def v invoke res)
    show ?thesis
    proof (cases res)
      case (Inl e)
      have "st' = st" by (rule within_tx_error [OF ran(6) [unfolded Inl]])
      then show ?thesis using D by simp
    next
      case (Inr u)
      obtain inbox s inbox' s' where st: "st = (inbox, s)" "st' = (inbox', s')" by (cases st; cases st')
      have "delivery_body dv (sb_name sub) (en_messageID m) invoke (inbox, s) = (Inr (), (inbox', s'))"
        by (rule within_tx_ok [OF ran(6) [unfolded Inr st]])
      note B = delivery_body_ok [OF this]
      have "eff s' = eff s + (if sb_name sub = c \<and> en_messageID m = mid then 1 else 0)"
        if "(sb_name sub, en_messageID m) \<notin> inbox"
        using assms ran(3-5) B that unfolding counts_effect_def by metis
      with B D st show ?thesis by (auto split: if_splits)
    qed
  qed (use D in simp)
qed




section \<open>The broker adapter\<close>

record consumer_caps =
  ca_DurableAck :: bool
  ca_DurableRetryAttempts :: bool
  ca_DelayedRetry :: bool
  ca_DeadLetter :: bool
  ca_PreservesMessageID :: bool
  ca_MaxEnvelopeBytes :: int

definition checkCaps :: "consumer_caps \<Rightarrow> int \<Rightarrow> (go_error, unit) result" where
  "checkCaps caps envelopeBytes =
    (if \<not> ca_DurableAck caps \<or> \<not> ca_DurableRetryAttempts caps \<or> \<not> ca_DelayedRetry caps \<or> \<not> ca_DeadLetter caps \<or>
        \<not> ca_PreservesMessageID caps
       then Inl (PlainError ''broker lacks capabilities'')
     else if ca_MaxEnvelopeBytes caps \<le> 0 then Inl (PlainError ''envelope limit not positive'')
     else if ca_MaxEnvelopeBytes caps < envelopeBytes then Inl (PlainError ''envelope limit too small'')
     else Inr ())"

fun compile_loop :: "subscription list \<Rightarrow> (string, subscription) gomap \<Rightarrow> (go_error, (string, subscription) gomap) result" where
  "compile_loop [] compiled = Inr compiled"
| "compile_loop (sub # rest) compiled =
    bindE (checkConsumerName (sb_name sub)) (\<lambda>_. bindE (checkText (sb_topic sub)) (\<lambda>_.
    bindE (checkText (sb_messageType sub)) (\<lambda>_. bindE (versions (sb_versions sub)) (\<lambda>_.
      if map_of compiled (sb_name sub) \<noteq> None then Inl (PlainError ''consumer name repeated'')
      else compile_loop rest (mput (sb_name sub) sub compiled)))))"

definition compileSubs :: "subscription list \<Rightarrow> (go_error, (string, subscription) gomap) result" where
  "compileSubs subs = (if subs = [] then Inl (PlainError ''subscriptions missing'') else compile_loop subs [])"

definition findSubscription :: "(string, subscription) gomap \<Rightarrow> subscription \<Rightarrow> (go_error, subscription) result" where
  "findSubscription compiled sub =
    (case map_of compiled (sb_name sub) of
       None \<Rightarrow> Inl (PlainError ''subscription not registered'')
     | Some registered \<Rightarrow>
         if sb_topic registered \<noteq> sb_topic sub \<or> sb_messageType registered \<noteq> sb_messageType sub \<or>
            sb_versions registered \<noteq> sb_versions sub
         then Inl (PlainError ''subscription mismatch'') else Inr registered)"

definition restoreDelivery ::
  "(nat \<Rightarrow> nat) \<Rightarrow> json_lib \<Rightarrow> int \<Rightarrow> msg_envelope \<Rightarrow> (go_error, msg_envelope) result" where
  "restoreDelivery table js maxEnvelope raw =
    bindE (Restore table (js_valid js) (en_messageID raw) (en_topic raw) (en_messageType raw) (en_version raw) (en_key raw)
        (en_payload raw) (en_headers raw)) (\<lambda>message.
      bindE (js_envelope js (message\<lparr>en_key := en_key raw\<rparr>)) (\<lambda>encoded.
        if maxEnvelope < int (length encoded) then Inl (PlainError ''envelope too large'') else Inr message))"

text \<open>The calls to the broker in their order, with the answers it gives and what it stores.\<close>

datatype broker_call = BrAdvance | BrRetry duration | BrDeadLetter nat go_error | BrAck

record broker_answers =
  ba_advance :: "(go_error, nat) result"
  ba_cancelled :: bool
  ba_retry :: "go_error option"
  ba_deadLetter :: "go_error option"

definition saveDeadLetter :: "broker_answers \<Rightarrow> nat \<Rightarrow> go_error \<Rightarrow> broker_call list" where
  "saveDeadLetter ba attempt cause =
    BrDeadLetter attempt cause # (if ba_deadLetter ba = None then [BrAck] else [])"

definition handleDelivery ::
  "(nat \<Rightarrow> nat) \<Rightarrow> json_lib \<Rightarrow> int \<Rightarrow> (string, subscription) gomap \<Rightarrow> 's deliverer \<Rightarrow> delivery_env \<Rightarrow> broker_answers \<Rightarrow>
   subscription \<Rightarrow> msg_envelope option \<Rightarrow> inbox_table \<times> 's \<Rightarrow> broker_call list \<times> (inbox_table \<times> 's)" where
  "handleDelivery table js maxEnvelope compiled d dv ba sub raw st =
    (case raw of
       None \<Rightarrow> ([], st)
     | Some raw \<Rightarrow>
         (case findSubscription compiled sub of
            Inl e \<Rightarrow> (saveDeadLetter ba 0 e, st)
          | Inr registered \<Rightarrow>
              (case restoreDelivery table js maxEnvelope raw of
                 Inl e \<Rightarrow> (saveDeadLetter ba 0 e, st)
               | Inr message \<Rightarrow>
                   (case ba_advance ba of
                      Inl e \<Rightarrow> ([BrAdvance], st)
                    | Inr attempt \<Rightarrow>
                        if attempt = 0 then ([BrAdvance], st)
                        else
                          let (dec, st') = Deliver table js d dv registered message attempt st
                          in if ba_cancelled ba then ([BrAdvance], st')
                             else (BrAdvance #
                               (case dec of
                                  DecAck \<Rightarrow> [BrAck]
                                | DecRetry delay e \<Rightarrow> BrRetry delay # (if ba_retry ba = None then [BrAck] else [])
                                | DecDeadLetter e \<Rightarrow> saveDeadLetter ba attempt e), st')))))"


lemma Deliver_Ack:
  assumes "Deliver table js d dv sub m attempt st = (DecAck, st')"
  shows "(sb_name sub, en_messageID m) \<in> fst st'"
  using assms
proof (cases rule: Deliver_cases)
  case (ran def v invoke res)
  then have "res = Inr ()" by (metis decide_Ack)
  obtain inbox s inbox' s' where st: "st = (inbox, s)" "st' = (inbox', s')" by (cases st; cases st')
  have "delivery_body dv (sb_name sub) (en_messageID m) invoke (inbox, s) = (Inr (), (inbox', s'))"
    by (rule within_tx_ok [OF ran(6) [unfolded \<open>res = Inr ()\<close> st]])
  from delivery_body_ok [OF this] st show ?thesis by simp
qed simp

lemma restoreDelivery_id: "restoreDelivery table js n raw = Inr m \<Longrightarrow> en_messageID m = en_messageID raw"
  by (auto simp: restoreDelivery_def Restore_def newEnvelope_def bindE_Inr_iff split: if_splits)

lemma saveDeadLetter_Ack: "BrAck \<in> set (saveDeadLetter ba n e) \<longleftrightarrow> ba_deadLetter ba = None"
  by (simp add: saveDeadLetter_def)

text \<open>What justifies acknowledging a delivery to the broker.\<close>

definition ack_justified ::
  "broker_answers \<Rightarrow> broker_call list \<Rightarrow> (string, subscription) gomap \<Rightarrow> subscription \<Rightarrow> msg_envelope \<Rightarrow> inbox_table \<Rightarrow> bool" where
  "ack_justified ba calls compiled sub raw inbox \<longleftrightarrow>
    (\<exists>registered. findSubscription compiled sub = Inr registered \<and> (sb_name registered, en_messageID raw) \<in> inbox) \<or>
    (\<exists>delay. BrRetry delay \<in> set calls) \<and> ba_retry ba = None \<or>
    (\<exists>n e. BrDeadLetter n e \<in> set calls) \<and> ba_deadLetter ba = None"



section \<open>The life of the adapter\<close>

text \<open>
  \<open>Prepare\<close> and \<open>Start\<close> change the flags in one critical section. \<open>Stop\<close> has two: the first
  stops accepting deliveries and remembers whether the adapter ran; the second, after the
  broker stopped and the deliveries in flight drained or the context ended, clears the
  flags. \<open>pending\<close> holds the calls of \<open>Stop\<close> that are between the two.
\<close>

record adapter =
  ad_prepared :: bool
  ad_running :: bool
  ad_accepting :: bool
  ad_inflight :: nat
  ad_pending :: "bool list"

definition new_adapter :: adapter where
  "new_adapter = \<lparr>ad_prepared = False, ad_running = False, ad_accepting = False, ad_inflight = 0,
     ad_pending = []\<rparr>"

inductive adapter_step :: "adapter \<Rightarrow> adapter \<Rightarrow> bool" where
  prepare: "\<not> ad_running a \<Longrightarrow> \<not> ad_prepared a \<Longrightarrow> adapter_step a (a\<lparr>ad_prepared := True\<rparr>)"
| start: "ad_prepared a \<Longrightarrow> \<not> ad_running a \<Longrightarrow>
    adapter_step a (a\<lparr>ad_running := True, ad_accepting := True\<rparr>)"
| receive: "ad_accepting a \<Longrightarrow> adapter_step a (a\<lparr>ad_inflight := ad_inflight a + 1\<rparr>)"
| finish: "0 < ad_inflight a \<Longrightarrow> adapter_step a (a\<lparr>ad_inflight := ad_inflight a - 1\<rparr>)"
| stop_begin: "ad_prepared a \<Longrightarrow> adapter_step a (a\<lparr>ad_accepting := False, ad_pending := ad_running a # ad_pending a\<rparr>)"
| stop_drained: "w \<in> set (ad_pending a) \<Longrightarrow> (w \<longrightarrow> ad_inflight a = 0) \<Longrightarrow>
    adapter_step a (a\<lparr>ad_running := False, ad_prepared := False, ad_pending := remove1 w (ad_pending a)\<rparr>)"
| stop_expired: "True \<in> set (ad_pending a) \<Longrightarrow>
    adapter_step a (a\<lparr>ad_running := False, ad_prepared := False, ad_pending := remove1 True (ad_pending a)\<rparr>)"

definition adapter_reachable :: "adapter \<Rightarrow> bool" where
  "adapter_reachable a \<longleftrightarrow> adapter_step\<^sup>*\<^sup>* new_adapter a"

text \<open>With \<open>Stop\<close> never overlapping another call of \<open>Stop\<close> or \<open>Start\<close>, as the lifecycle host calls
  them, the flags stay consistent.\<close>

inductive_cases adapter_stepE: "adapter_step a b"

definition calls_in_turn :: "adapter \<Rightarrow> adapter \<Rightarrow> bool" where
  "calls_in_turn a b \<longleftrightarrow> adapter_step a b \<and> (ad_pending a = [] \<or> (ad_running b \<longrightarrow> ad_running a) \<and> length (ad_pending b) \<le> 1)"

lemma turn_invariant:
  assumes "calls_in_turn\<^sup>*\<^sup>* new_adapter a"
  shows "(ad_accepting a \<longrightarrow> ad_running a \<and> ad_pending a = []) \<and> (ad_running a \<longrightarrow> ad_prepared a) \<and> length (ad_pending a) \<le> 1"
  using assms
proof (induction rule: rtranclp_induct)
  case base
  show ?case by (simp add: new_adapter_def)
next
  case (step b c)
  have "adapter_step b c" and turn: "ad_pending b = [] \<or> (ad_running c \<longrightarrow> ad_running b) \<and> length (ad_pending c) \<le> 1"
    using step(2) by (simp_all add: calls_in_turn_def)
  then show ?case
  proof (cases rule: adapter_step.cases)
    case start
    then show ?thesis using step.IH turn by auto
  qed (use step.IH turn in \<open>auto simp: length_remove1\<close>)
qed

text \<open>Overlapping calls break the adapter: when \<open>Start\<close> runs between the two critical sections of a
  \<open>Stop\<close> on a prepared adapter, the second section marks the adapter as neither running nor
  prepared while it goes on accepting deliveries; as long as nobody prepares it again, calls of
  \<open>Stop\<close> return at once and do not end this.\<close>

theorem stop_races_start:
  "\<exists>a. adapter_reachable a \<and> ad_accepting a \<and> \<not> ad_running a \<and> \<not> ad_prepared a \<and> ad_pending a = []"
proof -
  define a1 a2 a3 a4 where "a1 = new_adapter\<lparr>ad_prepared := True\<rparr>"
    and "a2 = a1\<lparr>ad_accepting := False, ad_pending := ad_running a1 # ad_pending a1\<rparr>"
    and "a3 = a2\<lparr>ad_running := True, ad_accepting := True\<rparr>"
    and "a4 = a3\<lparr>ad_running := False, ad_prepared := False, ad_pending := remove1 False (ad_pending a3)\<rparr>"
  note d = a1_def a2_def a3_def a4_def new_adapter_def
  have "adapter_step new_adapter a1" unfolding a1_def by (rule prepare) (simp_all add: new_adapter_def)
  moreover have "adapter_step a1 a2" unfolding a2_def by (rule stop_begin) (simp add: d)
  moreover have "adapter_step a2 a3" unfolding a3_def by (rule start) (simp_all add: d)
  moreover have "adapter_step a3 a4" unfolding a4_def by (rule stop_drained) (simp_all add: d)
  ultimately have "adapter_reachable a4" unfolding adapter_reachable_def by (meson converse_rtranclp_into_rtranclp rtranclp.rtrancl_refl)
  then show ?thesis by (intro exI [of _ a4]) (simp add: d)
qed

end
