(* ===== verification/Route_Table.thy ===== *)
theory Route_Table
  imports Go_Path
begin

text \<open>
  The static route table of \<open>cool-next/core/route/route.go\<close>: controllers and routes of the
  generated application are checked and normalised once, before anything is served.
\<close>

section \<open>Data\<close>

datatype bind_source = BindAuto | BindJSON | BindQuery | BindForm | BindPath | BindFile | BindOther string

datatype route_kind = KindCRUD | KindCustom | KindOther string

record callable_ref =
  cr_HasRequest :: bool
  cr_Method :: string
  cr_PackagePath :: string
  cr_RequestPackagePath :: string
  cr_RequestType :: string
  cr_ReturnsValue :: bool
  cr_Symbol :: string
  cr_Type :: string

record controller =
  ct_alias :: "string list"
  ct_description :: string
  ct_developmentOnly :: bool
  ct_factory :: callable_ref
  ct_ignoreGlobalPrefix :: bool
  ct_key :: string
  ct_middleware :: "string list"
  ct_module :: string
  ct_path :: string
  ct_sensitive :: bool
  ct_tagName :: string

record route =
  rt_bind :: bind_source
  rt_controller :: string
  rt_description :: string
  rt_developmentOnly :: bool
  rt_handler :: callable_ref
  rt_kind :: route_kind
  rt_method :: string
  rt_middleware :: "string list"
  rt_path :: string
  rt_summary :: string
  rt_tags :: "string list"
  rt_nonTransactional :: bool

record route_table =
  tb_controllers :: "controller list"
  tb_routes :: "route list"

section \<open>Checks\<close>

definition route_methods :: "string list" where
  "route_methods = [''CONNECT'', ''DELETE'', ''GET'', ''HEAD'', ''OPTIONS'', ''PATCH'', ''POST'', ''PUT'', ''TRACE'']"

definition normalizeMethod :: "unicode_lib \<Rightarrow> string \<Rightarrow> (go_error, string) result" where
  "normalizeMethod u v =
    (let m = to_upper (ul_upper u) (trim_space v) in if m \<in> set route_methods then Inr m else Inl (core ''method invalid''))"

definition normalizePath :: "string \<Rightarrow> (go_error, string) result" where
  "normalizePath v =
    (if v = [] \<or> trim_space v \<noteq> v \<or> \<not> has_prefix ''/'' v \<or> CHR ''?'' \<in> set v \<or> CHR ''#'' \<in> set v
       then Inl (core ''path invalid'')
     else if list_ex (\<lambda>r. is_control r \<or> is_space r) (runes v) then Inl (core ''path invalid'')
     else let normalized = path_clean v in
       if normalized \<noteq> v \<and> \<not> (has_suffix ''/'' v \<and> butlast v = normalized) then Inl (core ''path not normalised'')
       else Inr normalized)"

definition validBind :: "bind_source \<Rightarrow> bool" where
  "validBind b \<longleftrightarrow> b = BindJSON \<or> b = BindQuery \<or> b = BindForm \<or> b = BindPath \<or> b = BindFile"

definition bad_package :: "string \<Rightarrow> bool" where
  "bad_package p \<longleftrightarrow> p = [] \<or> trim_char CHR ''/'' p \<noteq> p \<or> (\<exists>a b. p = a @ ''//'' @ b)"

lemma bad_package_code [code]:
  "bad_package p \<longleftrightarrow> p = [] \<or> trim_char CHR ''/'' p \<noteq> p \<or> list_ex (\<lambda>i. take 2 (drop i p) = ''//'') [0..<length p]"
proof -
  have "(\<exists>a b. p = a @ ''//'' @ b) \<longleftrightarrow> (\<exists>i < length p. take 2 (drop i p) = ''//'')"
  proof
    assume "\<exists>a b. p = a @ ''//'' @ b"
    then obtain a b where "p = a @ ''//'' @ b" by blast
    then show "\<exists>i < length p. take 2 (drop i p) = ''//''" by (intro exI [of _ "length a"]) simp
  next
    assume "\<exists>i < length p. take 2 (drop i p) = ''//''"
    then obtain i where "take 2 (drop i p) = ''//''" by blast
    then have "p = take i p @ ''//'' @ drop 2 (drop i p)" by (metis append_take_drop_id)
    then show "\<exists>a b. p = a @ ''//'' @ b" by blast
  qed
  then show ?thesis by (auto simp: bad_package_def list_ex_iff)
qed

definition validateCallable :: "unicode_lib \<Rightarrow> callable_ref \<Rightarrow> bool \<Rightarrow> (go_error, unit) result" where
  "validateCallable u c requiresMethod =
    (if bad_package (cr_PackagePath c) then Inl (core ''package path invalid'')
     else if \<not> is_identifier u (cr_Symbol c) then Inl (core ''symbol invalid'')
     else if requiresMethod \<and> \<not> is_identifier u (cr_Method c) then Inl (core ''method name invalid'')
     else if trim_space (cr_Type c) = [] then Inl (core ''type empty'')
     else if cr_HasRequest c then
       (if bad_package (cr_RequestPackagePath c) \<or> \<not> is_identifier u (cr_RequestType c) then Inl (core ''request type invalid'')
        else Inr ())
     else if cr_RequestPackagePath c \<noteq> [] \<or> cr_RequestType c \<noteq> [] then Inl (core ''request type without request'')
     else Inr ())"

fun values_loop :: "(string \<Rightarrow> bool) \<Rightarrow> string list \<Rightarrow> string set \<Rightarrow> (go_error, unit) result" where
  "values_loop validate [] seen = Inr ()"
| "values_loop validate (v # vs) seen =
    (if \<not> validate v then Inl (core ''value invalid'')
     else if v \<in> seen then Inl (core ''value repeated'')
     else values_loop validate vs (insert v seen))"

definition validateValues :: "string list \<Rightarrow> (string \<Rightarrow> bool) \<Rightarrow> (go_error, string list) result" where
  "validateValues vs validate = bindE (values_loop validate vs {}) (\<lambda>_. Inr vs)"

definition validAlias :: "unicode_lib \<Rightarrow> string \<Rightarrow> bool" where
  "validAlias u v \<longleftrightarrow> trim_space v = v \<and> is_identifier u v"

definition validModule :: "unicode_lib \<Rightarrow> string \<Rightarrow> bool" where
  "validModule u v \<longleftrightarrow> v \<noteq> [] \<and> list_all (is_identifier u) (split_on CHR ''/'' v)"

definition validSymbolPath :: "unicode_lib \<Rightarrow> string \<Rightarrow> bool" where
  "validSymbolPath u v \<longleftrightarrow> v \<noteq> [] \<and> list_all (is_identifier u) (split_on CHR ''.'' v)"

definition validTag :: "unicode_lib \<Rightarrow> string \<Rightarrow> bool" where
  "validTag u v \<longleftrightarrow> trim_space v = v \<and> is_identifier u v"

definition validateText :: "string \<Rightarrow> bool \<Rightarrow> (go_error, unit) result" where
  "validateText v optional =
    (if v = [] \<and> optional then Inr ()
     else if trim_space v = [] then Inl (core ''text empty'')
     else if list_ex is_control (runes v) then Inl (core ''text has control characters'')
     else Inr ())"

section \<open>Controllers and routes\<close>

definition compileController :: "unicode_lib \<Rightarrow> controller \<Rightarrow> (go_error, controller) result" where
  "compileController u d =
    (if trim_space (ct_key d) = [] then Inl (core ''controller key empty'')
     else if \<not> validModule u (ct_module d) then Inl (core ''controller module invalid'')
     else
       bindE (normalizePath (ct_path d)) (\<lambda>fullPath.
       bindE (validateValues (ct_alias d) (validAlias u)) (\<lambda>aliases.
       bindE (validateValues (ct_middleware d) (validSymbolPath u)) (\<lambda>middleware.
       bindE (validateCallable u (ct_factory d) False) (\<lambda>_.
       bindE (validateText (ct_description d) True) (\<lambda>_.
       bindE (validateText (ct_tagName d) True) (\<lambda>_.
         Inr (d\<lparr>ct_alias := aliases, ct_middleware := middleware, ct_path := fullPath\<rparr>))))))))"

fun controllers_loop ::
  "unicode_lib \<Rightarrow> controller list \<Rightarrow> string set \<Rightarrow> string set \<Rightarrow> (go_error, controller list) result" where
  "controllers_loop u [] keys aliases = Inr []"
| "controllers_loop u (d # ds) keys aliases =
    bindE (compileController u d) (\<lambda>current.
      if ct_key current \<in> keys then Inl (core ''controller repeated'')
      else if set (ct_alias current) \<inter> aliases \<noteq> {} then Inl (core ''alias conflict'')
      else bindE (controllers_loop u ds (insert (ct_key current) keys) (set (ct_alias current) \<union> aliases)) (\<lambda>rest.
        Inr (current # rest)))"

definition compileRoute :: "unicode_lib \<Rightarrow> string set \<Rightarrow> route \<Rightarrow> (go_error, route) result" where
  "compileRoute u controllerKeys d =
    (if rt_controller d \<notin> controllerKeys then Inl (core ''controller missing'')
     else
       bindE (normalizeMethod u (rt_method d)) (\<lambda>meth.
       bindE (normalizePath (rt_path d)) (\<lambda>fullPath.
         if rt_kind d \<noteq> KindCRUD \<and> rt_kind d \<noteq> KindCustom then Inl (core ''route kind invalid'')
         else if rt_bind d = BindAuto \<or> \<not> validBind (rt_bind d) then Inl (core ''bind source not resolved'')
         else if rt_kind d = KindCRUD \<and> rt_nonTransactional d then Inl (core ''crud route without transaction'')
         else
           bindE (validateCallable u (rt_handler d) True) (\<lambda>_.
           bindE (validateValues (rt_middleware d) (validSymbolPath u)) (\<lambda>middleware.
           bindE (validateValues (rt_tags d) (validTag u)) (\<lambda>tags.
           bindE (validateText (rt_summary d) True) (\<lambda>_.
           bindE (validateText (rt_description d) True) (\<lambda>_.
             Inr (d\<lparr>rt_method := meth, rt_path := fullPath, rt_middleware := middleware, rt_tags := tags\<rparr>))))))))) "

definition route_key :: "route \<Rightarrow> string" where
  "route_key r = rt_method r @ CHR '' '' # rt_path r"

fun routes_loop :: "unicode_lib \<Rightarrow> string set \<Rightarrow> route list \<Rightarrow> string set \<Rightarrow> (go_error, route list) result" where
  "routes_loop u controllerKeys [] keys = Inr []"
| "routes_loop u controllerKeys (d # ds) keys =
    bindE (compileRoute u controllerKeys d) (\<lambda>current.
      if route_key current \<in> keys then Inl (core ''route conflict'')
      else bindE (routes_loop u controllerKeys ds (insert (route_key current) keys)) (\<lambda>rest. Inr (current # rest)))"

definition BuildTable :: "unicode_lib \<Rightarrow> controller list \<Rightarrow> route list \<Rightarrow> (go_error, route_table) result" where
  "BuildTable u controllers routes =
    bindE (controllers_loop u controllers {} {}) (\<lambda>cs.
    bindE (routes_loop u (ct_key ` set cs) routes {}) (\<lambda>rs.
      Inr \<lparr>tb_controllers = cs, tb_routes = rs\<rparr>))"

definition ValidRelativePath :: "string \<Rightarrow> bool" where
  "ValidRelativePath v \<longleftrightarrow> v = [] \<or>
    (\<not> (trim_space v \<noteq> v \<or> has_prefix ''/'' v \<or> has_suffix ''/'' v \<or> CHR ''?'' \<in> set v \<or> CHR ''#'' \<in> set v) \<and>
     list_all (\<lambda>s. s \<noteq> [] \<and> s \<noteq> ''.'' \<and> s \<noteq> ''..'') (split_on CHR ''/'' v))"

section \<open>A built table is unambiguous\<close>

lemma normalizePath_clean: "normalizePath v = Inr p \<Longrightarrow> has_prefix ''/'' p \<and> path_clean p = p"
  using path_clean_idem [of v] by (auto simp: normalizePath_def Let_def split: if_splits)

lemma values_loop_distinct: "values_loop validate vs seen = Inr () \<Longrightarrow> distinct vs \<and> set vs \<inter> seen = {} \<and> list_all validate vs"
  by (induction vs arbitrary: seen) (auto split: if_splits)

lemma validateValues_ok: "validateValues vs validate = Inr ws \<Longrightarrow> ws = vs \<and> distinct vs \<and> list_all validate vs"
  using values_loop_distinct [of validate vs "{}"] by (auto simp: validateValues_def bindE_Inr_iff)

definition controller_ok :: "unicode_lib \<Rightarrow> controller \<Rightarrow> bool" where
  "controller_ok u c \<longleftrightarrow> validModule u (ct_module c) \<and> has_prefix ''/'' (ct_path c) \<and> path_clean (ct_path c) = ct_path c \<and>
     distinct (ct_alias c) \<and> list_all (validAlias u) (ct_alias c) \<and> list_all (validSymbolPath u) (ct_middleware c)"

definition route_ok :: "unicode_lib \<Rightarrow> route \<Rightarrow> bool" where
  "route_ok u r \<longleftrightarrow> rt_method r \<in> set route_methods \<and> has_prefix ''/'' (rt_path r) \<and> path_clean (rt_path r) = rt_path r \<and>
     validBind (rt_bind r) \<and> (rt_kind r = KindCRUD \<or> rt_kind r = KindCustom) \<and> (rt_kind r = KindCRUD \<longrightarrow> \<not> rt_nonTransactional r) \<and>
     list_all (validSymbolPath u) (rt_middleware r) \<and> distinct (rt_tags r)"

lemma compileController_ok: "compileController u d = Inr c \<Longrightarrow> controller_ok u c \<and> ct_key c = ct_key d"
  by (auto simp: compileController_def bindE_Inr_iff controller_ok_def dest!: normalizePath_clean validateValues_ok split: if_splits)

lemma compileRoute_ok: "compileRoute u keys d = Inr r \<Longrightarrow> route_ok u r \<and> rt_controller r = rt_controller d \<and> rt_controller d \<in> keys"
  by (auto simp: compileRoute_def bindE_Inr_iff route_ok_def normalizeMethod_def Let_def
      dest!: normalizePath_clean validateValues_ok split: if_splits)

lemma controllers_loop_ok:
  "controllers_loop u ds keys aliases = Inr cs \<Longrightarrow>
    distinct (map ct_key cs) \<and> ct_key ` set cs \<inter> keys = {} \<and> (\<forall>c \<in> set cs. controller_ok u c \<and> set (ct_alias c) \<inter> aliases = {}) \<and>
    pairwise (\<lambda>c d. set (ct_alias c) \<inter> set (ct_alias d) = {}) (set cs)"
proof (induction ds arbitrary: keys aliases cs)
  case (Cons d ds)
  obtain c cs' where c: "compileController u d = Inr c" "ct_key c \<notin> keys" "set (ct_alias c) \<inter> aliases = {}"
    "controllers_loop u ds (insert (ct_key c) keys) (set (ct_alias c) \<union> aliases) = Inr cs'" "cs = c # cs'"
    using Cons.prems by (auto simp: bindE_Inr_iff split: if_splits)
  show ?case
    using Cons.IH [OF c(4)] compileController_ok [OF c(1)] c by (auto simp: pairwise_insert)
qed simp

lemma routes_loop_ok:
  "routes_loop u ck ds keys = Inr rs \<Longrightarrow>
    distinct (map route_key rs) \<and> route_key ` set rs \<inter> keys = {} \<and> (\<forall>r \<in> set rs. route_ok u r \<and> rt_controller r \<in> ck)"
proof (induction ds arbitrary: keys rs)
  case (Cons d ds)
  obtain r rs' where r: "compileRoute u ck d = Inr r" "route_key r \<notin> keys"
    "routes_loop u ck ds (insert (route_key r) keys) = Inr rs'" "rs = r # rs'"
    using Cons.prems by (auto simp: bindE_Inr_iff split: if_splits)
  show ?case using Cons.IH [OF r(3)] compileRoute_ok [OF r(1)] r by auto
qed simp

text \<open>A route table that \<open>BuildTable\<close> accepts is unambiguous: controllers have distinct keys and no
  alias in common; every route belongs to one of them; no two routes share method and path; every
  path is rooted and clean, every method a known one, every bind source resolved; and no
  generated CRUD route runs outside a transaction.\<close>

theorem built_table_sound:
  assumes "BuildTable u controllers routes = Inr t"
  shows "distinct (map ct_key (tb_controllers t)) \<and> (\<forall>c \<in> set (tb_controllers t). controller_ok u c) \<and>
    pairwise (\<lambda>c d. set (ct_alias c) \<inter> set (ct_alias d) = {}) (set (tb_controllers t)) \<and>
    (\<forall>r \<in> set (tb_routes t). route_ok u r \<and> rt_controller r \<in> ct_key ` set (tb_controllers t)) \<and>
    distinct (map (\<lambda>r. (rt_method r, rt_path r)) (tb_routes t))"
proof -
  have C: "controllers_loop u controllers {} {} = Inr (tb_controllers t)"
    and R: "routes_loop u (ct_key ` set (tb_controllers t)) routes {} = Inr (tb_routes t)"
    using assms by (auto simp: BuildTable_def bindE_Inr_iff)
  note R = routes_loop_ok [OF R]
  have "distinct (map (\<lambda>r. (rt_method r, rt_path r)) (tb_routes t))"
    using R by (auto simp: distinct_map inj_on_def route_key_def)
  with R controllers_loop_ok [OF C] show ?thesis by blast
qed


definition ascii_only :: unicode_lib where
  "ascii_only = \<lparr>ul_letter = (\<lambda>_. False), ul_digit = (\<lambda>_. False), ul_upper = (\<lambda>r. r)\<rparr>"

definition some_callable :: callable_ref where
  "some_callable = \<lparr>cr_HasRequest = False, cr_Method = ''Add'', cr_PackagePath = ''p/q'', cr_RequestPackagePath = [],
     cr_RequestType = [], cr_ReturnsValue = True, cr_Symbol = ''New'', cr_Type = ''T''\<rparr>"

definition some_controller :: "string \<Rightarrow> controller" where
  "some_controller p = \<lparr>ct_alias = [''u''], ct_description = [], ct_developmentOnly = False, ct_factory = some_callable,
     ct_ignoreGlobalPrefix = False, ct_key = ''k'', ct_middleware = [], ct_module = ''base'', ct_path = p, ct_sensitive = False,
     ct_tagName = []\<rparr>"

definition some_route :: "string \<Rightarrow> string \<Rightarrow> route" where
  "some_route m p = \<lparr>rt_bind = BindJSON, rt_controller = ''k'', rt_description = [], rt_developmentOnly = False,
     rt_handler = some_callable, rt_kind = KindCRUD, rt_method = m, rt_middleware = [], rt_path = p, rt_summary = [],
     rt_tags = [], rt_nonTransactional = False\<rparr>"

lemma some_identifiers:
  "is_identifier ascii_only ''Add''" "is_identifier ascii_only ''New''" "is_identifier ascii_only ''u''" "is_identifier ascii_only ''base''"
  by (simp_all add: is_identifier_def go_keywords_def rune_letter_def ascii_eval)

lemma some_paths: "normalizePath ''/a/u'' = Inr ''/a/u''" "normalizePath ''/a/u/'' = Inr ''/a/u''"
  by (simp_all add: normalizePath_def has_prefix_def has_suffix_def path_clean_def ascii_eval Let_def)

lemma some_callable_ok: "validateCallable ascii_only some_callable b = Inr ()"
  by (simp add: validateCallable_def some_callable_def some_identifiers bad_package_code trim_char_def upt_rec ascii_eval)

theorem built_table_sound_witness:
  "distinct (map ct_key [some_controller ''/a/u'']) \<and> rt_path (some_route ''POST'' ''/a/u'') = ''/a/u''"
proof -
  have "BuildTable ascii_only [some_controller ''/a/u/''] [some_route ''post'' ''/a/u''] =
      Inr \<lparr>tb_controllers = [some_controller ''/a/u''], tb_routes = [some_route ''POST'' ''/a/u'']\<rparr>"
    by (simp add: BuildTable_def compileController_def compileRoute_def some_controller_def some_route_def validModule_def
        validateValues_def validAlias_def some_identifiers some_paths some_callable_ok validateText_def normalizeMethod_def
        route_methods_def to_upper_def upper_ascii_def encode_rune_def ascii_eval char_eval validBind_def Let_def
        trim_space_ascii)
  from built_table_sound [OF this] show ?thesis by (simp add: some_route_def)
qed

end
