(* ===== verification/Module_Graph.thy ===== *)
theory Module_Graph
  imports Route_Table "HOL-Library.Product_Lexorder" "HOL-Library.Multiset"
begin

text \<open>
  The static module graph of \<open>cool-next/core/module\<close>: the definitions that the generator emits
  (modules, providers, components in construction order, dependencies, descriptors,
  lifecycles, transports, roles of reliable messaging) are checked by \<open>BuildGraph\<close> before the
  application is assembled.

  A key of the Go maps holds all fields of a component, so a component is its own key, and
  \<open>index_in\<close> is the lookup in \<open>componentIndexes\<close>.
\<close>

section \<open>Data\<close>

datatype provider_kind = PkConfig | PkSeed | PkComponent | PkDescriptor | PkBase | PkEnqueuer | PkConsumerDefinition | PkOther string

record component =
  cp_module :: string
  cp_package :: string
  cp_name :: string

record provider =
  pv_kind :: provider_kind
  pv_module :: string
  pv_package :: string
  pv_name :: string
  pv_type :: string

record module_definition =
  md_description :: string
  md_globalMiddlewares :: "string list"
  md_key :: string
  md_middlewares :: "string list"
  md_name :: string
  md_order :: int

record dependency =
  dp_consumer :: component
  dp_parameter :: int
  dp_provider :: provider

record descriptor =
  ds_module :: string
  ds_provider :: provider
  ds_table :: string

record lifecycle_definition =
  ld_component :: component
  ld_initializer :: bool
  ld_starter :: bool
  ld_stopper :: bool
  ld_supervisor :: bool

record lifecycle =
  lc_component :: component
  lc_initializer :: bool
  lc_provider :: provider
  lc_starter :: bool
  lc_stopper :: bool
  lc_supervisor :: bool

record outbox_definition =
  od_producers :: "component list"
  od_consumers :: "component list"
  od_publishers :: "component list"
  od_adapters :: "component list"
  od_workers :: "component list"
  od_runtimes :: "component list"

record outbox_graph =
  og_producers :: "component list"
  og_consumers :: "component list"
  og_publisher :: "component option"
  og_adapter :: "component option"
  og_worker :: "component option"
  og_runtime :: "component option"

record graph_input =
  gi_components :: "component list"
  gi_controllers :: "controller list"
  gi_dependencies :: "dependency list"
  gi_descriptors :: "descriptor list"
  gi_lifecycles :: "lifecycle_definition list"
  gi_modules :: "module_definition list"
  gi_outbox :: outbox_definition
  gi_providers :: "provider list"
  gi_routes :: "route list"
  gi_transports :: "component list"

record graph =
  gr_components :: "component list"
  gr_dependencies :: "dependency list"
  gr_descriptors :: "descriptor list"
  gr_lifecycles :: "lifecycle list"
  gr_modules :: "module_definition list"
  gr_outbox :: outbox_graph
  gr_providers :: "provider list"
  gr_routes :: route_table
  gr_transports :: "component list"
  gr_validated :: bool

definition provider_key :: "provider \<Rightarrow> provider_kind \<times> string \<times> string \<times> string" where
  "provider_key p = (pv_kind p, pv_module p, pv_package p, pv_name p)"

definition provider_component :: "provider \<Rightarrow> component" where
  "provider_component p = \<lparr>cp_module = pv_module p, cp_package = pv_package p, cp_name = pv_name p\<rparr>"

definition isComponentProvider :: "provider_kind \<Rightarrow> bool" where
  "isComponentProvider k \<longleftrightarrow> k = PkComponent \<or> k = PkConsumerDefinition"

fun index_from :: "nat \<Rightarrow> component list \<Rightarrow> component \<Rightarrow> nat option" where
  "index_from n [] c = None"
| "index_from n (x # xs) c = (if x = c then Some n else index_from (Suc n) xs c)"

definition index_in :: "component list \<Rightarrow> component \<Rightarrow> nat option" where
  "index_in xs c = index_from 0 xs c"

text \<open>Reading a missing key of a Go map of integers gives zero.\<close>

definition index_or_zero :: "component list \<Rightarrow> component \<Rightarrow> nat" where
  "index_or_zero xs c = (case index_in xs c of None \<Rightarrow> 0 | Some i \<Rightarrow> i)"

definition find_provider :: "provider list \<Rightarrow> provider_kind \<times> string \<times> string \<times> string \<Rightarrow> provider option" where
  "find_provider ps k = find (\<lambda>p. provider_key p = k) ps"

section \<open>Modules\<close>

definition checkDir :: "string \<Rightarrow> (go_error, unit) result" where
  "checkDir d =
    (if d = [] then Inl (PlainError ''directory empty'')
     else if has_prefix ''/'' d then Inl (PlainError ''directory absolute'')
     else eachE (\<lambda>s. if s = [] then Inl (PlainError ''segment empty'')
        else if s = ''.'' \<or> s = ''..'' then Inl (PlainError ''segment dotted'') else Inr ()) (split_on CHR ''/'' d))"

definition module_checkText :: "string \<Rightarrow> (go_error, unit) result" where
  "module_checkText v =
    (if trim_space v = [] then Inl (PlainError ''text empty'')
     else if list_ex is_control (runes v) then Inl (PlainError ''text has control characters'') else Inr ())"

definition checkRef :: "unicode_lib \<Rightarrow> string \<Rightarrow> (go_error, unit) result" where
  "checkRef u v =
    (if v = [] then Inl (PlainError ''reference empty'')
     else eachE (\<lambda>s. guardE (is_identifier u s) (PlainError ''reference is no selector'')) (split_on CHR ''.'' v))"

fun checkRefs :: "unicode_lib \<Rightarrow> string list \<Rightarrow> string set \<Rightarrow> (go_error, unit) result" where
  "checkRefs u [] seen = Inr ()"
| "checkRefs u (r # rs) seen =
    bindE (checkRef u r) (\<lambda>_.
      if r \<in> seen then Inl (PlainError ''reference repeated'') else checkRefs u rs (insert r seen))"

fun modules_loop :: "unicode_lib \<Rightarrow> module_definition list \<Rightarrow> string set \<Rightarrow> (go_error, string set) result" where
  "modules_loop u [] keys = Inr keys"
| "modules_loop u (d # ds) keys =
    bindE (checkDir (md_key d)) (\<lambda>_.
      if md_key d \<in> keys then Inl (core ''module repeated'')
      else bindE (module_checkText (md_name d)) (\<lambda>_. bindE (module_checkText (md_description d)) (\<lambda>_.
        bindE (checkRefs u (md_middlewares d) {}) (\<lambda>_. bindE (checkRefs u (md_globalMiddlewares d) {}) (\<lambda>_.
          modules_loop u ds (insert (md_key d) keys))))))"

definition compileModules :: "unicode_lib \<Rightarrow> module_definition list \<Rightarrow> (go_error, module_definition list \<times> string set) result" where
  "compileModules u ds = bindE (modules_loop u ds {}) (\<lambda>keys. Inr (ds, keys))"

section \<open>Providers and components\<close>

definition checkPkg :: "string \<Rightarrow> (go_error, unit) result" where
  "checkPkg p =
    (if trim_space p = [] \<or> trim_space p \<noteq> p then Inl (core ''package path blank'')
     else eachE (\<lambda>s. if s = [] \<or> s = ''.'' \<or> s = ''..'' then Inl (core ''package segment invalid'')
        else if list_ex (\<lambda>r. is_control r \<or> is_space r) (runes s) then Inl (core ''package has blanks'') else Inr ())
        (split_on CHR ''/'' p))"

definition checkType :: "string \<Rightarrow> (go_error, unit) result" where
  "checkType t =
    (if trim_space t = [] \<or> trim_space t \<noteq> t then Inl (core ''type blank'')
     else if list_ex is_control (runes t) then Inl (core ''type has control characters'') else Inr ())"

definition checkProvider :: "unicode_lib \<Rightarrow> string set \<Rightarrow> provider \<Rightarrow> (go_error, unit) result" where
  "checkProvider u moduleKeys p =
    (if (case pv_kind p of PkOther _ \<Rightarrow> True | _ \<Rightarrow> False) then Inl (core ''provider kind invalid'')
     else if pv_module p \<notin> moduleKeys then Inl (core ''provider module missing'')
     else bindE (checkPkg (pv_package p)) (\<lambda>_.
       if \<not> is_identifier u (pv_name p) then Inl (core ''provider name invalid'') else checkType (pv_type p)))"

fun providers_loop ::
  "unicode_lib \<Rightarrow> string set \<Rightarrow> provider list \<Rightarrow> (provider_kind \<times> string \<times> string \<times> string) set \<Rightarrow> component set \<Rightarrow> (go_error, unit) result" where
  "providers_loop u moduleKeys [] keys comps = Inr ()"
| "providers_loop u moduleKeys (p # ps) keys comps =
    bindE (checkProvider u moduleKeys p) (\<lambda>_.
      if provider_key p \<in> keys then Inl (core ''provider repeated'')
      else if isComponentProvider (pv_kind p) \<and> provider_component p \<in> comps then Inl (core ''component provider repeated'')
      else providers_loop u moduleKeys ps (insert (provider_key p) keys)
        (if isComponentProvider (pv_kind p) then insert (provider_component p) comps else comps))"

definition compileProviders :: "unicode_lib \<Rightarrow> provider list \<Rightarrow> string set \<Rightarrow> (go_error, provider list) result" where
  "compileProviders u ps moduleKeys = bindE (providers_loop u moduleKeys ps {} {}) (\<lambda>_. Inr ps)"

definition checkComponent :: "unicode_lib \<Rightarrow> string set \<Rightarrow> component \<Rightarrow> (go_error, unit) result" where
  "checkComponent u moduleKeys c =
    (if cp_module c \<notin> moduleKeys then Inl (core ''component module missing'')
     else bindE (checkPkg (cp_package c)) (\<lambda>_.
       guardE (is_identifier u (cp_name c)) (core ''component name invalid'')))"

definition component_providers :: "provider list \<Rightarrow> component list" where
  "component_providers ps = map provider_component (filter (\<lambda>p. isComponentProvider (pv_kind p)) ps)"

fun components_loop ::
  "unicode_lib \<Rightarrow> string set \<Rightarrow> component set \<Rightarrow> component list \<Rightarrow> component set \<Rightarrow> (go_error, unit) result" where
  "components_loop u moduleKeys provided [] seen = Inr ()"
| "components_loop u moduleKeys provided (c # cs) seen =
    bindE (checkComponent u moduleKeys c) (\<lambda>_.
      if c \<in> seen then Inl (core ''component repeated'')
      else if c \<notin> provided then Inl (core ''component without provider'')
      else components_loop u moduleKeys provided cs (insert c seen))"

definition compileComponents :: "unicode_lib \<Rightarrow> component list \<Rightarrow> provider list \<Rightarrow> string set \<Rightarrow> (go_error, component list) result" where
  "compileComponents u cs ps moduleKeys =
    bindE (components_loop u moduleKeys (set (component_providers ps)) cs {}) (\<lambda>_.
    bindE (eachE (\<lambda>c. guardE (index_in cs c \<noteq> None) (core ''component provider without component'')) (component_providers ps)) (\<lambda>_.
      Inr cs))"

section \<open>Descriptors\<close>

text \<open>The pattern \<open>^[a-z][a-z0-9_]*$\<close>.\<close>

definition table_pattern :: "string \<Rightarrow> bool" where
  "table_pattern t \<longleftrightarrow> (case t of [] \<Rightarrow> False
     | c # cs \<Rightarrow> in_range 97 122 (byte c) \<and> list_all (\<lambda>c. in_range 97 122 (byte c) \<or> in_range 48 57 (byte c) \<or> byte c = 95) cs)"

fun descriptors_loop ::
  "provider list \<Rightarrow> string set \<Rightarrow> descriptor list \<Rightarrow> (provider_kind \<times> string \<times> string \<times> string) set \<Rightarrow> string set \<Rightarrow>
   (go_error, (provider_kind \<times> string \<times> string \<times> string) set) result" where
  "descriptors_loop ps moduleKeys [] seenProviders seenTables = Inr seenProviders"
| "descriptors_loop ps moduleKeys (d # ds) seenProviders seenTables =
    (if ds_module d \<notin> moduleKeys then Inl (core ''descriptor module missing'')
     else if pv_kind (ds_provider d) \<noteq> PkDescriptor then Inl (core ''descriptor provider kind'')
     else if pv_module (ds_provider d) \<noteq> ds_module d then Inl (core ''descriptor module differs'')
     else if (case find_provider ps (provider_key (ds_provider d)) of None \<Rightarrow> True | Some p \<Rightarrow> pv_type p \<noteq> pv_type (ds_provider d))
       then Inl (core ''descriptor provider missing'')
     else if provider_key (ds_provider d) \<in> seenProviders then Inl (core ''descriptor provider repeated'')
     else if \<not> table_pattern (ds_table d) then Inl (core ''table name invalid'')
     else if ds_table d \<in> seenTables then Inl (core ''table name repeated'')
     else descriptors_loop ps moduleKeys ds (insert (provider_key (ds_provider d)) seenProviders) (insert (ds_table d) seenTables))"

definition compileDescriptors :: "descriptor list \<Rightarrow> provider list \<Rightarrow> string set \<Rightarrow> (go_error, descriptor list) result" where
  "compileDescriptors ds ps moduleKeys =
    bindE (descriptors_loop ps moduleKeys ds {} {}) (\<lambda>seen.
    bindE (eachE (\<lambda>p. guardE (pv_kind p = PkDescriptor \<longrightarrow> provider_key p \<in> seen) (core ''descriptor missing'')) ps) (\<lambda>_. Inr ds))"

section \<open>Dependencies\<close>

text \<open>\<open>used\<close> is \<open>parameterIndexes\<close>: the parameters of each component that have a dependency.\<close>

fun dependencies_loop ::
  "component list \<Rightarrow> provider list \<Rightarrow> dependency list \<Rightarrow> (component \<times> int) list \<Rightarrow> (go_error, (component \<times> int) list) result" where
  "dependencies_loop cs ps [] used = Inr used"
| "dependencies_loop cs ps (d # ds) used =
    (case index_in cs (dp_consumer d) of
       None \<Rightarrow> Inl (core ''consumer missing'')
     | Some consumerIndex \<Rightarrow>
         (case find_provider ps (provider_key (dp_provider d)) of
            None \<Rightarrow> Inl (core ''dependency provider missing'')
          | Some p \<Rightarrow>
              if pv_type p \<noteq> pv_type (dp_provider d) then Inl (core ''dependency provider missing'')
              else if dp_parameter d < 0 then Inl (core ''parameter index negative'')
              else if (dp_consumer d, dp_parameter d) \<in> set used then Inl (core ''parameter index repeated'')
              else if isComponentProvider (pv_kind p) \<and> consumerIndex \<le> index_or_zero cs (provider_component p)
                then Inl (core ''topology order invalid'')
              else dependencies_loop cs ps ds ((dp_consumer d, dp_parameter d) # used)))"

definition parameters_of :: "(component \<times> int) list \<Rightarrow> component \<Rightarrow> int list" where
  "parameters_of used c = map snd (filter (\<lambda>e. fst e = c) used)"

definition contiguous :: "int list \<Rightarrow> bool" where
  "contiguous is \<longleftrightarrow> list_all (\<lambda>i. int i \<in> set is) [0..<length is]"

definition compileDependencies :: "dependency list \<Rightarrow> component list \<Rightarrow> provider list \<Rightarrow> (go_error, dependency list) result" where
  "compileDependencies ds cs ps =
    bindE (dependencies_loop cs ps ds []) (\<lambda>used.
    bindE (eachE (\<lambda>c. guardE (contiguous (parameters_of used c)) (core ''parameters not contiguous'')) cs) (\<lambda>_.
      Inr (sort_key (\<lambda>d. (index_or_zero cs (dp_consumer d), dp_parameter d)) ds)))"

section \<open>Lifecycles and transports\<close>

definition lifecycle_provider :: "provider list \<Rightarrow> component \<Rightarrow> provider option" where
  "lifecycle_provider ps c =
    (case find_provider ps (PkComponent, cp_module c, cp_package c, cp_name c) of
       Some p \<Rightarrow> Some p
     | None \<Rightarrow> find_provider ps (PkConsumerDefinition, cp_module c, cp_package c, cp_name c))"

fun lifecycles_loop ::
  "component list \<Rightarrow> provider list \<Rightarrow> lifecycle_definition list \<Rightarrow> (component, lifecycle_definition) gomap \<Rightarrow>
   (go_error, (component, lifecycle_definition) gomap) result" where
  "lifecycles_loop cs ps [] byComponent = Inr byComponent"
| "lifecycles_loop cs ps (d # ds) byComponent =
    (if index_in cs (ld_component d) = None then Inl (core ''lifecycle component missing'')
     else if map_of byComponent (ld_component d) \<noteq> None then Inl (core ''lifecycle component repeated'')
     else case lifecycle_provider ps (ld_component d) of
         None \<Rightarrow> Inl (core ''lifecycle provider missing'')
       | Some p \<Rightarrow>
           if \<not> isComponentProvider (pv_kind p) then Inl (core ''lifecycle provider missing'')
           else lifecycles_loop cs ps ds (mput (ld_component d) d byComponent))"

definition lifecycle_of :: "provider list \<Rightarrow> (component, lifecycle_definition) gomap \<Rightarrow> component \<Rightarrow> (go_error, lifecycle) result" where
  "lifecycle_of ps byComponent c =
    (case map_of byComponent c of
       None \<Rightarrow> Inl (core ''component without lifecycle'')
     | Some d \<Rightarrow>
         (case lifecycle_provider ps c of
            None \<Rightarrow> Inl (core ''lifecycle provider missing'')
          | Some p \<Rightarrow> Inr \<lparr>lc_component = c, lc_initializer = ld_initializer d, lc_provider = p, lc_starter = ld_starter d,
              lc_stopper = ld_stopper d, lc_supervisor = ld_supervisor d\<rparr>))"

definition compileLifecycles :: "lifecycle_definition list \<Rightarrow> component list \<Rightarrow> provider list \<Rightarrow> (go_error, lifecycle list) result" where
  "compileLifecycles ds cs ps =
    bindE (lifecycles_loop cs ps ds []) (\<lambda>byComponent.
      if length ds \<noteq> length cs then Inl (core ''lifecycles must cover all components'')
      else mapE (lifecycle_of ps byComponent) cs)"

fun transports_loop :: "component list \<Rightarrow> component list \<Rightarrow> component set \<Rightarrow> (go_error, unit) result" where
  "transports_loop cs [] seen = Inr ()"
| "transports_loop cs (t # ts) seen =
    (if index_in cs t = None then Inl (core ''transport missing'')
     else if t \<in> seen then Inl (core ''transport repeated'')
     else transports_loop cs ts (insert t seen))"

definition compileTransports :: "component list \<Rightarrow> component list \<Rightarrow> (go_error, component list) result" where
  "compileTransports ts cs = bindE (transports_loop cs ts {}) (\<lambda>_. Inr (sort_key (index_or_zero cs) ts))"

section \<open>Roles of reliable messaging\<close>

fun role_loop :: "component list \<Rightarrow> component list \<Rightarrow> component set \<Rightarrow> (go_error, unit) result" where
  "role_loop cs [] seen = Inr ()"
| "role_loop cs (d # ds) seen =
    (if index_in cs d = None then Inl (core ''role component missing'')
     else if d \<in> seen then Inl (core ''role component repeated'')
     else role_loop cs ds (insert d seen))"

definition compileRole :: "component list \<Rightarrow> component list \<Rightarrow> nat \<Rightarrow> (go_error, component list) result" where
  "compileRole ds cs maximum =
    (if 0 < maximum \<and> maximum < length ds then Inl (core ''role must be unique'')
     else bindE (role_loop cs ds {}) (\<lambda>_. Inr ds))"

definition firstComponent :: "component list \<Rightarrow> component option" where
  "firstComponent cs = (case cs of [] \<Rightarrow> None | c # _ \<Rightarrow> Some c)"

definition countProviderKind :: "provider list \<Rightarrow> provider_kind \<Rightarrow> nat" where
  "countProviderKind ps k = length (filter (\<lambda>p. pv_kind p = k) ps)"

definition hasDependencyKind :: "dependency list \<Rightarrow> component \<Rightarrow> provider_kind \<Rightarrow> bool" where
  "hasDependencyKind ds c k \<longleftrightarrow> list_ex (\<lambda>d. dp_consumer d = c \<and> pv_kind (dp_provider d) = k) ds"

definition hasDependency :: "dependency list \<Rightarrow> component \<Rightarrow> component \<Rightarrow> bool" where
  "hasDependency ds c p \<longleftrightarrow>
    list_ex (\<lambda>d. dp_consumer d = c \<and> isComponentProvider (pv_kind (dp_provider d)) \<and> provider_component (dp_provider d) = p) ds"

definition hasProvider :: "provider list \<Rightarrow> component \<Rightarrow> provider_kind \<Rightarrow> bool" where
  "hasProvider ps c k \<longleftrightarrow> list_ex (\<lambda>p. pv_kind p = k \<and> provider_component p = c) ps"

definition hasLifecycle :: "lifecycle list \<Rightarrow> component \<Rightarrow> bool \<Rightarrow> bool \<Rightarrow> bool \<Rightarrow> bool" where
  "hasLifecycle ls c initializer starter stopper =
    (case find (\<lambda>l. lc_component l = c) ls of
       None \<Rightarrow> False
     | Some l \<Rightarrow> lc_initializer l = initializer \<and> lc_starter l = starter \<and> lc_stopper l = stopper \<and> lc_supervisor l)"

definition checkProducer ::
  "outbox_graph \<Rightarrow> provider list \<Rightarrow> dependency list \<Rightarrow> lifecycle list \<Rightarrow> (go_error, unit) result" where
  "checkProducer g ps ds ls =
    (if og_producers g = [] then
       (if og_worker g \<noteq> None then Inl (core ''worker without producer'') else Inr ())
     else case (og_publisher g, og_worker g) of
         (Some publisher, Some worker) \<Rightarrow>
           if countProviderKind ps PkEnqueuer \<noteq> 1 then Inl (core ''enqueuer not unique'')
           else bindE (eachE (\<lambda>p. guardE (hasDependencyKind ds p PkEnqueuer) (core ''producer without enqueuer'')) (og_producers g)) (\<lambda>_.
             if \<not> hasDependency ds worker publisher then Inl (core ''worker without publisher'')
             else if \<not> hasLifecycle ls worker False True True then Inl (core ''worker lifecycle'')
             else Inr ())
       | _ \<Rightarrow> Inl (core ''publisher and worker needed''))"

definition graph_checkConsumer ::
  "outbox_graph \<Rightarrow> provider list \<Rightarrow> dependency list \<Rightarrow> lifecycle list \<Rightarrow> (go_error, unit) result" where
  "graph_checkConsumer g ps ds ls =
    (if og_consumers g = [] then
       (if og_runtime g \<noteq> None then Inl (core ''runtime without consumer'') else Inr ())
     else case (og_adapter g, og_runtime g) of
         (Some adapter, Some runtime) \<Rightarrow>
           bindE (eachE (\<lambda>c.
             if \<not> hasProvider ps c PkConsumerDefinition then Inl (core ''consumer without provider'')
             else guardE (hasDependency ds runtime c) (core ''runtime without consumer'')) (og_consumers g)) (\<lambda>_.
             if \<not> hasDependency ds runtime adapter then Inl (core ''runtime without adapter'')
             else if \<not> hasLifecycle ls runtime True True True then Inl (core ''runtime lifecycle'')
             else Inr ())
       | _ \<Rightarrow> Inl (core ''adapter and runtime needed''))"

definition compileOutbox ::
  "outbox_definition \<Rightarrow> component list \<Rightarrow> provider list \<Rightarrow> dependency list \<Rightarrow> lifecycle list \<Rightarrow> (go_error, outbox_graph) result" where
  "compileOutbox od cs ps ds ls =
    bindE (compileRole (od_producers od) cs 0) (\<lambda>producers.
    bindE (compileRole (od_consumers od) cs 0) (\<lambda>consumers.
    bindE (compileRole (od_publishers od) cs 1) (\<lambda>publishers.
    bindE (compileRole (od_adapters od) cs 1) (\<lambda>adapters.
    bindE (compileRole (od_workers od) cs 1) (\<lambda>workers.
    bindE (compileRole (od_runtimes od) cs 1) (\<lambda>runtimes.
      let g = \<lparr>og_producers = producers, og_consumers = consumers, og_publisher = firstComponent publishers,
        og_adapter = firstComponent adapters, og_worker = firstComponent workers, og_runtime = firstComponent runtimes\<rparr>
      in bindE (checkProducer g ps ds ls) (\<lambda>_. bindE (graph_checkConsumer g ps ds ls) (\<lambda>_. Inr g))))))))"

section \<open>The graph\<close>

definition BuildGraph :: "unicode_lib \<Rightarrow> graph_input \<Rightarrow> (go_error, graph) result" where
  "BuildGraph u gi =
    bindE (compileModules u (gi_modules gi)) (\<lambda>(modules, moduleKeys).
    bindE (BuildTable u (gi_controllers gi) (gi_routes gi)) (\<lambda>routes.
    bindE (compileProviders u (gi_providers gi) moduleKeys) (\<lambda>ps.
    bindE (compileComponents u (gi_components gi) ps moduleKeys) (\<lambda>cs.
    bindE (compileDescriptors (gi_descriptors gi) ps moduleKeys) (\<lambda>descriptors.
    bindE (compileDependencies (gi_dependencies gi) cs ps) (\<lambda>ds.
    bindE (compileLifecycles (gi_lifecycles gi) cs ps) (\<lambda>ls.
    bindE (compileTransports (gi_transports gi) cs) (\<lambda>transports.
    bindE (compileOutbox (gi_outbox gi) cs ps ds ls) (\<lambda>outbox.
      Inr \<lparr>gr_components = cs, gr_dependencies = ds, gr_descriptors = descriptors, gr_lifecycles = ls, gr_modules = modules,
        gr_outbox = outbox, gr_providers = ps, gr_routes = routes, gr_transports = transports, gr_validated = True\<rparr>)))))))))"


section \<open>Construction order\<close>

lemma index_from_Some: "index_from n xs c = Some i \<Longrightarrow> n \<le> i \<and> i < n + length xs \<and> xs ! (i - n) = c"
proof (induction xs arbitrary: n)
  case (Cons x xs)
  show ?case
  proof (cases "x = c")
    case False
    with Cons.prems have "Suc n \<le> i \<and> i < Suc n + length xs \<and> xs ! (i - Suc n) = c"
      by (intro Cons.IH) simp
    then show ?thesis by (simp add: nth_Cons')
  qed (use Cons.prems in auto)
qed simp

lemma index_in_Some: "index_in xs c = Some i \<Longrightarrow> i < length xs \<and> xs ! i = c"
  using index_from_Some [of 0 xs c i] by (simp add: index_in_def)

lemma index_in_None: "index_in xs c = None \<longleftrightarrow> c \<notin> set xs"
proof -
  have "index_from n xs c = None \<longleftrightarrow> c \<notin> set xs" for n by (induction xs arbitrary: n) auto
  then show ?thesis by (simp add: index_in_def)
qed

lemma index_or_zero_mem: "c \<in> set xs \<Longrightarrow> index_in xs c = Some (index_or_zero xs c)"
  using index_in_None [of xs c] by (auto simp: index_or_zero_def split: option.splits)

lemma index_or_zero_nth: "c \<in> set xs \<Longrightarrow> index_or_zero xs c < length xs \<and> xs ! index_or_zero xs c = c"
  using index_or_zero_mem index_in_Some by blast

lemma provider_key_type: "provider_key p = provider_key q \<Longrightarrow> pv_type p = pv_type q \<Longrightarrow> p = q"
  by (simp add: provider_key_def)

lemma find_provider_Some: "find_provider ps k = Some p \<Longrightarrow> p \<in> set ps \<and> provider_key p = k"
  by (auto simp: find_provider_def find_Some_iff)

definition dependency_ok :: "component list \<Rightarrow> provider list \<Rightarrow> dependency \<Rightarrow> bool" where
  "dependency_ok cs ps d \<longleftrightarrow> dp_consumer d \<in> set cs \<and> dp_provider d \<in> set ps \<and> 0 \<le> dp_parameter d \<and>
     (isComponentProvider (pv_kind (dp_provider d)) \<longrightarrow>
        index_or_zero cs (provider_component (dp_provider d)) < index_or_zero cs (dp_consumer d))"

definition slot :: "dependency \<Rightarrow> component \<times> int" where
  "slot d = (dp_consumer d, dp_parameter d)"

lemma dependencies_loop_ok:
  "dependencies_loop cs ps ds used = Inr used' \<Longrightarrow>
    used' = rev (map slot ds) @ used \<and> distinct (map slot ds) \<and> set (map slot ds) \<inter> set used = {} \<and>
    (\<forall>d \<in> set ds. dependency_ok cs ps d)"
proof (induction ds arbitrary: used)
  case (Cons d ds)
  obtain i p where d: "index_in cs (dp_consumer d) = Some i" "find_provider ps (provider_key (dp_provider d)) = Some p"
    "pv_type p = pv_type (dp_provider d)" "0 \<le> dp_parameter d" "slot d \<notin> set used"
    "\<not> (isComponentProvider (pv_kind p) \<and> i \<le> index_or_zero cs (provider_component p))"
    "dependencies_loop cs ps ds (slot d # used) = Inr used'"
    using Cons.prems by (auto simp: slot_def split: option.splits if_splits)
  have "p = dp_provider d" using find_provider_Some [OF d(2)] d(3) provider_key_type by blast
  moreover have "dp_consumer d \<in> set cs" using d(1) index_in_None [of cs "dp_consumer d"] by auto
  moreover have "index_or_zero cs (dp_consumer d) = i" using d(1) by (simp add: index_or_zero_def)
  ultimately have "dependency_ok cs ps d" using d(4,6) find_provider_Some [OF d(2)] by (auto simp: dependency_ok_def)
  with Cons.IH [OF d(7)] d(5) show ?case by auto
qed simp

lemma components_loop_ok:
  "components_loop u mk provided cs seen = Inr () \<Longrightarrow> distinct cs \<and> set cs \<inter> seen = {} \<and> set cs \<subseteq> provided \<and>
    (\<forall>c \<in> set cs. cp_module c \<in> mk)"
  by (induction cs arbitrary: seen) (auto simp: bindE_Inr_iff checkComponent_def split: if_splits)

lemma compileComponents_ok:
  assumes "compileComponents u cs ps mk = Inr cs'"
  shows "cs' = cs \<and> distinct cs \<and> set cs = set (component_providers ps) \<and> (\<forall>c \<in> set cs. cp_module c \<in> mk)"
  using assms components_loop_ok [of u mk "set (component_providers ps)" cs "{}"] index_in_None
  by (auto simp: compileComponents_def bindE_Inr_iff eachE_Inr_iff guardE_def split: if_splits)

text \<open>What \<open>BuildGraph\<close> went through.\<close>

lemma BuildGraph_parts:
  assumes "BuildGraph u gi = Inr g"
  obtains mk where "compileModules u (gi_modules gi) = Inr (gr_modules g, mk)"
    "BuildTable u (gi_controllers gi) (gi_routes gi) = Inr (gr_routes g)"
    "compileProviders u (gi_providers gi) mk = Inr (gr_providers g)"
    "compileComponents u (gi_components gi) (gr_providers g) mk = Inr (gr_components g)"
    "compileDescriptors (gi_descriptors gi) (gr_providers g) mk = Inr (gr_descriptors g)"
    "compileDependencies (gi_dependencies gi) (gr_components g) (gr_providers g) = Inr (gr_dependencies g)"
    "compileLifecycles (gi_lifecycles gi) (gr_components g) (gr_providers g) = Inr (gr_lifecycles g)"
    "compileTransports (gi_transports gi) (gr_components g) = Inr (gr_transports g)"
    "compileOutbox (gi_outbox gi) (gr_components g) (gr_providers g) (gr_dependencies g) (gr_lifecycles g) = Inr (gr_outbox g)"
  using assms by (auto simp: BuildGraph_def bindE_Inr_iff)

lemma compileDependencies_ok:
  assumes "compileDependencies ds cs ps = Inr ds'"
  shows "mset ds' = mset ds \<and> distinct (map slot ds') \<and> (\<forall>d \<in> set ds'. dependency_ok cs ps d) \<and>
    sorted (map (\<lambda>d. (index_or_zero cs (dp_consumer d), dp_parameter d)) ds') \<and>
    (\<forall>c \<in> set cs. contiguous (map snd (filter (\<lambda>e. fst e = c) (rev (map slot ds)))))"
proof -
  obtain used where used: "dependencies_loop cs ps ds [] = Inr used"
    "\<forall>c \<in> set cs. contiguous (parameters_of used c)"
    "ds' = sort_key (\<lambda>d. (index_or_zero cs (dp_consumer d), dp_parameter d)) ds"
    using assms by (auto simp: compileDependencies_def bindE_Inr_iff eachE_Inr_iff)
  note D = dependencies_loop_ok [OF used(1)]
  have "mset (map slot ds') = mset (map slot ds)" by (simp add: used(3))
  then have "distinct (map slot ds')" using D by (metis mset_eq_imp_distinct_iff)
  then show ?thesis using D used by (simp add: parameters_of_def)
qed

definition depends_on :: "graph \<Rightarrow> (component \<times> component) set" where
  "depends_on g = {(provider_component (dp_provider d), dp_consumer d) | d.
     d \<in> set (gr_dependencies g) \<and> isComponentProvider (pv_kind (dp_provider d))}"

text \<open>C3: A graph that \<open>BuildGraph\<close> accepts can be constructed in its order: the components are distinct,
  every dependency is on a registered provider, and a component's dependency on another
  component points to one that comes earlier in the list, so dependencies have no cycle.\<close>

theorem graph_constructible:
  assumes "BuildGraph u gi = Inr g"
  shows "distinct (gr_components g) \<and> acyclic (depends_on g) \<and>
    (\<forall>d \<in> set (gr_dependencies g). dp_provider d \<in> set (gr_providers g) \<and> dp_consumer d \<in> set (gr_components g) \<and>
      (isComponentProvider (pv_kind (dp_provider d)) \<longrightarrow>
        (\<exists>i j. i < j \<and> j < length (gr_components g) \<and> gr_components g ! i = provider_component (dp_provider d) \<and>
           gr_components g ! j = dp_consumer d)))"
proof -
  let ?cs = "gr_components g" and ?ps = "gr_providers g"
  obtain mk where C: "compileComponents u (gi_components gi) ?ps mk = Inr ?cs"
    and D: "compileDependencies (gi_dependencies gi) ?cs ?ps = Inr (gr_dependencies g)"
    using BuildGraph_parts [OF assms] by metis
  note C = compileComponents_ok [OF C] and D = compileDependencies_ok [OF D]
  have comp: "provider_component p \<in> set ?cs" if "p \<in> set ?ps" "isComponentProvider (pv_kind p)" for p
    using C that by (auto simp: component_providers_def)
  have lt: "index_or_zero ?cs a < index_or_zero ?cs b" if "(a, b) \<in> depends_on g" for a b
    using that D by (auto simp: depends_on_def dependency_ok_def)
  have "depends_on g \<subseteq> measure (index_or_zero ?cs)" using lt by auto
  then have "acyclic (depends_on g)" by (meson acyclic_subset wf_acyclic wf_measure)
  moreover have "\<exists>i j. i < j \<and> j < length ?cs \<and> ?cs ! i = provider_component (dp_provider d) \<and> ?cs ! j = dp_consumer d"
    if "d \<in> set (gr_dependencies g)" "isComponentProvider (pv_kind (dp_provider d))" for d
  proof -
    have ok: "dependency_ok ?cs ?ps d" using D that(1) by blast
    show ?thesis
      using ok that(2) index_or_zero_nth [of "dp_consumer d" ?cs] index_or_zero_nth [OF comp, of "dp_provider d"]
      by (intro exI [of _ "index_or_zero ?cs (provider_component (dp_provider d))"] exI [of _ "index_or_zero ?cs (dp_consumer d)"])
        (auto simp: dependency_ok_def)
  qed
  ultimately show ?thesis using C D by (auto simp: dependency_ok_def)
qed


section \<open>Constructor arguments\<close>

lemma contiguous_set:
  assumes "contiguous is" "distinct is"
  shows "set is = int ` {0..<length is}"
proof (rule sym, rule card_subset_eq)
  show "int ` {0..<length is} \<subseteq> set is" using assms(1) by (auto simp: contiguous_def list_all_iff)
  show "card (int ` {0..<length is}) = card (set is)" using assms(2) by (simp add: card_image distinct_card)
qed simp

lemma arguments_complete:
  assumes "compileDependencies ds cs ps = Inr ds'" "c \<in> set cs"
  shows "map dp_parameter (filter (\<lambda>d. dp_consumer d = c) ds') = map int [0..<length (filter (\<lambda>d. dp_consumer d = c) ds')]"
proof -
  define L where "L = map dp_parameter (filter (\<lambda>d. dp_consumer d = c) ds')"
  define M where "M = map snd (filter (\<lambda>e. fst e = c) (rev (map slot ds)))"
  note D = compileDependencies_ok [OF assms(1)]
  have "mset L = mset M"
  proof -
    have "M = rev (map dp_parameter (filter (\<lambda>d. dp_consumer d = c) ds))"
      by (simp add: M_def rev_filter [symmetric] rev_map filter_map comp_def slot_def del: rev_filter)
    then have "mset M = image_mset dp_parameter (filter_mset (\<lambda>d. dp_consumer d = c) (mset ds))" by simp
    moreover have "mset L = image_mset dp_parameter (filter_mset (\<lambda>d. dp_consumer d = c) (mset ds'))" by (simp add: L_def)
    ultimately show ?thesis using D by simp
  qed
  then have same: "set L = set M" "length L = length M" "distinct L = distinct M"
    by (metis set_mset_mset, metis size_mset, metis mset_eq_imp_distinct_iff)
  have "distinct (map slot (filter (\<lambda>d. dp_consumer d = c) ds'))" using D by (simp add: distinct_map_filter)
  then have "distinct L" by (auto simp: L_def distinct_map inj_on_def slot_def)
  have "contiguous M" using D assms(2) by (simp add: M_def)
  then have "set L = int ` {0..<length L}" using contiguous_set [of M] same \<open>distinct L\<close> by simp
  moreover have "sorted L"
  proof -
    have "sorted (map (\<lambda>d. (index_or_zero cs (dp_consumer d), dp_parameter d)) (filter (\<lambda>d. dp_consumer d = c) ds'))"
      using D sorted_filter by blast
    then show ?thesis unfolding L_def sorted_map by (rule sorted_wrt_mono_rel [rotated]) auto
  qed
  moreover have "sorted (map int [0..<length L])" "distinct (map int [0..<length L])"
    by (simp_all add: sorted_map distinct_map sorted_wrt_iff_nth_less)
  ultimately have "L = map int [0..<length L]"
    using \<open>distinct L\<close> by (intro sorted_distinct_set_unique) auto
  then show ?thesis by (simp add: L_def)
qed

text \<open>In an accepted graph the dependencies of every component are its constructor's arguments,
  complete and in order: their parameter numbers are 0, 1, 2, and so on without gap or repetition.\<close>

theorem constructor_arguments_complete:
  assumes "BuildGraph u gi = Inr g" "c \<in> set (gr_components g)"
  shows "map dp_parameter (filter (\<lambda>d. dp_consumer d = c) (gr_dependencies g)) =
    map int [0..<length (filter (\<lambda>d. dp_consumer d = c) (gr_dependencies g))]"
proof -
  obtain mk where "compileDependencies (gi_dependencies gi) (gr_components g) (gr_providers g) = Inr (gr_dependencies g)"
    using BuildGraph_parts [OF assms(1)] by metis
  from arguments_complete [OF this assms(2)] show ?thesis .
qed

section \<open>Lifecycles, transports and messaging roles\<close>

lemma lifecycles_loop_ok:
  "lifecycles_loop cs ps ds by = Inr by' \<Longrightarrow> map_of by' c = Some d \<Longrightarrow> map_of by c = Some d \<or> d \<in> set ds \<and> ld_component d = c"
proof (induction ds arbitrary: "by")
  case (Cons a ds)
  then have "lifecycles_loop cs ps ds (mput (ld_component a) a by) = Inr by'" by (auto split: if_splits option.splits)
  from Cons.IH [OF this Cons.prems(2)] show ?case by (auto split: if_splits)
qed simp

lemma compileLifecycles_ok:
  assumes "compileLifecycles ds cs ps = Inr ls"
  shows "map lc_component ls = cs \<and> (\<forall>l \<in> set ls. \<exists>d \<in> set ds. ld_component d = lc_component l \<and>
    lc_initializer l = ld_initializer d \<and> lc_starter l = ld_starter d \<and> lc_stopper l = ld_stopper d \<and>
    lc_supervisor l = ld_supervisor d)"
proof -
  obtain byC where B: "lifecycles_loop cs ps ds [] = Inr byC" "list_all2 (\<lambda>c l. lifecycle_of ps byC c = Inr l) cs ls"
    using assms by (auto simp: compileLifecycles_def bindE_Inr_iff mapE_Inr_iff split: if_splits)
  have one: "lc_component l = c \<and> (\<exists>d \<in> set ds. ld_component d = lc_component l \<and>
    lc_initializer l = ld_initializer d \<and> lc_starter l = ld_starter d \<and> lc_stopper l = ld_stopper d \<and>
    lc_supervisor l = ld_supervisor d)" if l: "lifecycle_of ps byC c = Inr l" for c l
  proof -
    obtain d where d: "map_of byC c = Some d" "lc_component l = c" "lc_initializer l = ld_initializer d"
      "lc_starter l = ld_starter d" "lc_stopper l = ld_stopper d" "lc_supervisor l = ld_supervisor d"
      using l unfolding lifecycle_of_def by (cases "map_of byC c"; cases "lifecycle_provider ps c") auto
    with lifecycles_loop_ok [OF B(1) d(1)] show ?thesis by auto
  qed
  show ?thesis using B(2) one by (induction rule: list_all2_induct) auto
qed

lemma transports_loop_ok: "transports_loop cs ts seen = Inr () \<Longrightarrow> distinct ts \<and> set ts \<inter> seen = {} \<and> set ts \<subseteq> set cs"
  using index_in_None by (induction ts arbitrary: seen) (auto split: if_splits)

lemma compileTransports_ok:
  assumes "compileTransports ts cs = Inr ts'"
  shows "set ts' = set ts \<and> distinct ts' \<and> set ts' \<subseteq> set cs \<and> sorted (map (index_or_zero cs) ts')"
  using assms transports_loop_ok [of cs ts "{}"] by (auto simp: compileTransports_def bindE_Inr_iff)

text \<open>An accepted graph tells the application what to start and stop: it has exactly one lifecycle
  per component, in construction order and with the declared capabilities; its transports are
  the declared ones, each a component, once and in construction order.\<close>

theorem lifecycles_cover_components:
  assumes "BuildGraph u gi = Inr g"
  shows "map lc_component (gr_lifecycles g) = gr_components g \<and>
    (\<forall>l \<in> set (gr_lifecycles g). \<exists>d \<in> set (gi_lifecycles gi). ld_component d = lc_component l \<and>
      lc_initializer l = ld_initializer d \<and> lc_starter l = ld_starter d \<and> lc_stopper l = ld_stopper d \<and>
      lc_supervisor l = ld_supervisor d) \<and>
    set (gr_transports g) = set (gi_transports gi) \<and> distinct (gr_transports g) \<and>
    set (gr_transports g) \<subseteq> set (gr_components g) \<and> sorted (map (index_or_zero (gr_components g)) (gr_transports g))"
proof -
  obtain mk where L: "compileLifecycles (gi_lifecycles gi) (gr_components g) (gr_providers g) = Inr (gr_lifecycles g)"
    and T: "compileTransports (gi_transports gi) (gr_components g) = Inr (gr_transports g)"
    using BuildGraph_parts [OF assms] by metis
  show ?thesis using compileLifecycles_ok [OF L] compileTransports_ok [OF T] by blast
qed

lemma hasDependency_index:
  assumes "BuildGraph u gi = Inr g" "hasDependency (gr_dependencies g) c p"
  shows "(p, c) \<in> depends_on g"
  using assms(2) by (auto simp: hasDependency_def list_ex_iff depends_on_def)

lemma firstComponent_mem: "firstComponent cs = Some c \<Longrightarrow> c \<in> set cs"
  by (auto simp: firstComponent_def split: list.splits)

lemma compileOutbox_producers:
  assumes "compileOutbox od cs ps ds ls = Inr og" "og_producers og \<noteq> []"
  obtains publisher worker where "og_publisher og = Some publisher" "og_worker og = Some worker"
    "hasDependency ds worker publisher" "hasLifecycle ls worker False True True"
    "countProviderKind ps PkEnqueuer = 1" "\<forall>p \<in> set (og_producers og). hasDependencyKind ds p PkEnqueuer"
proof -
  have "checkProducer og ps ds ls = Inr ()" using assms(1) by (auto simp: compileOutbox_def bindE_Inr_iff Let_def)
  then show ?thesis using assms(2) that
    by (auto simp: checkProducer_def bindE_Inr_iff eachE_Inr_iff guardE_def split: if_splits option.splits)
qed

lemma compileOutbox_consumers:
  assumes "compileOutbox od cs ps ds ls = Inr og" "og_consumers og \<noteq> []"
  obtains adapter runtime where "og_adapter og = Some adapter" "og_runtime og = Some runtime"
    "hasDependency ds runtime adapter" "hasLifecycle ls runtime True True True"
    "\<forall>c \<in> set (og_consumers og). hasProvider ps c PkConsumerDefinition \<and> hasDependency ds runtime c"
proof -
  have "graph_checkConsumer og ps ds ls = Inr ()" using assms(1) by (auto simp: compileOutbox_def bindE_Inr_iff Let_def)
  then show ?thesis using assms(2) that
    by (auto simp: graph_checkConsumer_def bindE_Inr_iff eachE_Inr_iff guardE_def split: if_splits option.splits)
qed

text \<open>An accepted graph wires reliable messaging: with producers there are a publisher and a
  worker that is built after it and is started, stopped and supervised, and every producer
  takes the one enqueuer; with consumers there are an adapter and a runtime that is built after
  the adapter and after every consumer, and is initialised, started, stopped and supervised.\<close>

theorem messaging_is_wired:
  assumes "BuildGraph u gi = Inr g"
  shows "(og_producers (gr_outbox g) \<noteq> [] \<longrightarrow>
      (\<exists>publisher worker. og_publisher (gr_outbox g) = Some publisher \<and> og_worker (gr_outbox g) = Some worker \<and>
        (publisher, worker) \<in> depends_on g \<and> hasLifecycle (gr_lifecycles g) worker False True True \<and>
        countProviderKind (gr_providers g) PkEnqueuer = 1 \<and>
        (\<forall>p \<in> set (og_producers (gr_outbox g)). hasDependencyKind (gr_dependencies g) p PkEnqueuer))) \<and>
    (og_consumers (gr_outbox g) \<noteq> [] \<longrightarrow>
      (\<exists>adapter runtime. og_adapter (gr_outbox g) = Some adapter \<and> og_runtime (gr_outbox g) = Some runtime \<and>
        (adapter, runtime) \<in> depends_on g \<and> hasLifecycle (gr_lifecycles g) runtime True True True \<and>
        (\<forall>c \<in> set (og_consumers (gr_outbox g)). (c, runtime) \<in> depends_on g)))"
proof -
  obtain mk where O: "compileOutbox (gi_outbox gi) (gr_components g) (gr_providers g) (gr_dependencies g) (gr_lifecycles g) = Inr (gr_outbox g)"
    using BuildGraph_parts [OF assms] by metis
  have P: "\<exists>publisher worker. og_publisher (gr_outbox g) = Some publisher \<and> og_worker (gr_outbox g) = Some worker \<and>
        (publisher, worker) \<in> depends_on g \<and> hasLifecycle (gr_lifecycles g) worker False True True \<and>
        countProviderKind (gr_providers g) PkEnqueuer = 1 \<and>
        (\<forall>p \<in> set (og_producers (gr_outbox g)). hasDependencyKind (gr_dependencies g) p PkEnqueuer)"
    if "og_producers (gr_outbox g) \<noteq> []"
    using compileOutbox_producers [OF O that] hasDependency_index [OF assms] by metis
  have C: "\<exists>adapter runtime. og_adapter (gr_outbox g) = Some adapter \<and> og_runtime (gr_outbox g) = Some runtime \<and>
        (adapter, runtime) \<in> depends_on g \<and> hasLifecycle (gr_lifecycles g) runtime True True True \<and>
        (\<forall>c \<in> set (og_consumers (gr_outbox g)). (c, runtime) \<in> depends_on g)"
    if "og_consumers (gr_outbox g) \<noteq> []"
    using compileOutbox_consumers [OF O that] hasDependency_index [OF assms] by metis
  show ?thesis using P C by blast
qed


section \<open>An example\<close>

definition sample_component :: "string \<Rightarrow> component" where
  "sample_component n = \<lparr>cp_module = ''base'', cp_package = ''p'', cp_name = n\<rparr>"

definition sample_provider :: "provider_kind \<Rightarrow> string \<Rightarrow> provider" where
  "sample_provider k n = \<lparr>pv_kind = k, pv_module = ''base'', pv_package = ''p'', pv_name = n, pv_type = ''T''\<rparr>"

definition sample_lifecycle :: "string \<Rightarrow> bool \<Rightarrow> lifecycle_definition" where
  "sample_lifecycle n b = \<lparr>ld_component = sample_component n, ld_initializer = False, ld_starter = b, ld_stopper = b, ld_supervisor = b\<rparr>"

definition sample_input :: graph_input where
  "sample_input = \<lparr>gi_components = [sample_component ''Pub'', sample_component ''Prod'', sample_component ''Work''],
     gi_controllers = [],
     gi_dependencies = [\<lparr>dp_consumer = sample_component ''Work'', dp_parameter = 0, dp_provider = sample_provider PkComponent ''Pub''\<rparr>,
       \<lparr>dp_consumer = sample_component ''Prod'', dp_parameter = 0, dp_provider = sample_provider PkEnqueuer ''Enq''\<rparr>],
     gi_descriptors = [],
     gi_lifecycles = [sample_lifecycle ''Work'' True, sample_lifecycle ''Pub'' False, sample_lifecycle ''Prod'' False],
     gi_modules = [\<lparr>md_description = ''d'', md_globalMiddlewares = [], md_key = ''base'', md_middlewares = [], md_name = ''n'', md_order = 0\<rparr>],
     gi_outbox = \<lparr>od_producers = [sample_component ''Prod''], od_consumers = [], od_publishers = [sample_component ''Pub''],
       od_adapters = [], od_workers = [sample_component ''Work''], od_runtimes = []\<rparr>,
     gi_providers = [sample_provider PkComponent ''Pub'', sample_provider PkComponent ''Prod'', sample_provider PkComponent ''Work'',
       sample_provider PkEnqueuer ''Enq''],
     gi_routes = [], gi_transports = []\<rparr>"

definition sample_graph :: graph where
  "sample_graph = (case BuildGraph ascii_only sample_input of Inr g \<Rightarrow> g | Inl _ \<Rightarrow>
     \<lparr>gr_components = [], gr_dependencies = [], gr_descriptors = [], gr_lifecycles = [], gr_modules = [],
      gr_outbox = \<lparr>og_producers = [], og_consumers = [], og_publisher = None, og_adapter = None, og_worker = None, og_runtime = None\<rparr>,
      gr_providers = [], gr_routes = \<lparr>tb_controllers = [], tb_routes = []\<rparr>, gr_transports = [], gr_validated = False\<rparr>)"

lemma sample_checks:
  "checkPkg ''p'' = Inr ()" "checkType ''T'' = Inr ()" "checkDir ''base'' = Inr ()" "module_checkText ''n'' = Inr ()"
  "module_checkText ''d'' = Inr ()" "is_identifier ascii_only ''Pub''" "is_identifier ascii_only ''Prod''"
  "is_identifier ascii_only ''Work''" "is_identifier ascii_only ''Enq''"
  by (simp_all add: checkPkg_def checkType_def checkDir_def module_checkText_def is_identifier_def go_keywords_def
      rune_letter_def has_prefix_def ascii_eval)

lemma sample_compile:
  "compileModules ascii_only (gi_modules sample_input) = Inr (gi_modules sample_input, {''base''})"
  "compileProviders ascii_only (gi_providers sample_input) {''base''} = Inr (gi_providers sample_input)"
  "compileComponents ascii_only (gi_components sample_input) (gi_providers sample_input) {''base''} = Inr (gi_components sample_input)"
  "compileDescriptors (gi_descriptors sample_input) (gi_providers sample_input) {''base''} = Inr []"
  by (simp_all add: sample_input_def sample_provider_def sample_component_def compileModules_def compileProviders_def
      checkProvider_def sample_checks provider_key_def isComponentProvider_def provider_component_def compileComponents_def
      checkComponent_def component_providers_def index_in_def compileDescriptors_def guardE_def)

lemma sample_wiring:
  "\<exists>ds ls og. compileDependencies (gi_dependencies sample_input) (gi_components sample_input) (gi_providers sample_input) = Inr ds \<and>
     compileLifecycles (gi_lifecycles sample_input) (gi_components sample_input) (gi_providers sample_input) = Inr ls \<and>
     compileOutbox (gi_outbox sample_input) (gi_components sample_input) (gi_providers sample_input) ds ls = Inr og \<and>
     og_producers og \<noteq> []"
  by (simp add: sample_input_def sample_provider_def sample_component_def sample_lifecycle_def compileDependencies_def
      index_in_def index_or_zero_def find_provider_def provider_key_def isComponentProvider_def provider_component_def
      parameters_of_def contiguous_def upt_rec guardE_def compileLifecycles_def lifecycle_provider_def lifecycle_of_def
      compileOutbox_def compileRole_def firstComponent_def checkProducer_def graph_checkConsumer_def countProviderKind_def
      hasDependencyKind_def hasDependency_def hasLifecycle_def Let_def) force

lemma sample_graph_built: "BuildGraph ascii_only sample_input = Inr sample_graph" "og_producers (gr_outbox sample_graph) \<noteq> []"
  "gr_components sample_graph = [sample_component ''Pub'', sample_component ''Prod'', sample_component ''Work'']"
proof -
  obtain ds ls og where "compileDependencies (gi_dependencies sample_input) (gi_components sample_input) (gi_providers sample_input) = Inr ds"
     "compileLifecycles (gi_lifecycles sample_input) (gi_components sample_input) (gi_providers sample_input) = Inr ls"
     "compileOutbox (gi_outbox sample_input) (gi_components sample_input) (gi_providers sample_input) ds ls = Inr og" "og_producers og \<noteq> []"
    using sample_wiring by metis
  moreover have "compileTransports (gi_transports sample_input) (gi_components sample_input) = Inr []"
    by (simp add: compileTransports_def sample_input_def)
  moreover have "BuildTable ascii_only (gi_controllers sample_input) (gi_routes sample_input) = Inr \<lparr>tb_controllers = [], tb_routes = []\<rparr>"
    by (simp add: BuildTable_def sample_input_def)
  ultimately obtain g where g: "BuildGraph ascii_only sample_input = Inr g" "og_producers (gr_outbox g) \<noteq> []"
    "gr_components g = gi_components sample_input"
    using sample_compile by (simp add: BuildGraph_def)
  then have "sample_graph = g" by (simp add: sample_graph_def)
  with g show "BuildGraph ascii_only sample_input = Inr sample_graph" "og_producers (gr_outbox sample_graph) \<noteq> []"
    "gr_components sample_graph = [sample_component ''Pub'', sample_component ''Prod'', sample_component ''Work'']"
    by (simp_all add: sample_input_def)
qed

theorem graph_constructible_witness:
  "distinct (gr_components sample_graph) \<and> acyclic (depends_on sample_graph)"
  using graph_constructible [OF sample_graph_built(1)] by blast

theorem constructor_arguments_complete_witness:
  "map dp_parameter (filter (\<lambda>d. dp_consumer d = sample_component ''Work'') (gr_dependencies sample_graph)) =
    map int [0..<length (filter (\<lambda>d. dp_consumer d = sample_component ''Work'') (gr_dependencies sample_graph))]"
  by (rule constructor_arguments_complete [OF sample_graph_built(1)]) (simp add: sample_graph_built(3))

theorem lifecycles_cover_components_witness:
  "map lc_component (gr_lifecycles sample_graph) = gr_components sample_graph"
  using lifecycles_cover_components [OF sample_graph_built(1)] by blast

theorem messaging_is_wired_witness:
  "\<exists>publisher worker. og_publisher (gr_outbox sample_graph) = Some publisher \<and> og_worker (gr_outbox sample_graph) = Some worker \<and>
    (publisher, worker) \<in> depends_on sample_graph"
  using messaging_is_wired [OF sample_graph_built(1)] sample_graph_built(2) by blast

end
