(* ===== verification/App_Lifecycle.thy ===== *)
theory App_Lifecycle
  imports Module_Graph
begin

text \<open>
  The application host of \<open>cool-next/core/app\<close>: the generated assembly is checked against the
  static graph, components are initialised and started in construction order, and whatever
  happens afterwards, failures of the start included, everything is stopped in reverse order.

  Components and transports are named; what their hooks answer is the environment. Every call of a
  hook is recorded in the trace.
\<close>

section \<open>Data\<close>

record transport =
  tr_name :: string
  tr_enabled :: bool

record assembled =
  as_component :: component
  as_initializer :: bool
  as_starter :: bool
  as_stopper :: bool
  as_supervisor :: bool
  as_transport :: "transport option"

datatype app_event =
    EvInit component | EvStart component | EvStop component
  | EvPrepareT string | EvStartT string | EvStopT string

text \<open>\<open>late n\<close>: the deadline of the shutdown has passed when \<open>n\<close> stop calls have returned.\<close>

record app_env =
  ae_init :: "component \<Rightarrow> go_error option"
  ae_start :: "component \<Rightarrow> go_error option"
  ae_stop :: "component \<Rightarrow> go_error option"
  ae_no_channel :: "component \<Rightarrow> bool"
  te_prepare :: "string \<Rightarrow> go_error option"
  te_start :: "string \<Rightarrow> go_error option"
  te_stop :: "string \<Rightarrow> go_error option"
  te_no_channel :: "string \<Rightarrow> bool"
  ae_late :: "nat \<Rightarrow> bool"

record application =
  ap_ready :: bool
  ap_stopping :: bool
  ap_stopped :: bool
  ap_stopErr :: "go_error list"
  ap_stoppers :: "component list"
  ap_transports :: "string list"
  ap_trace :: "app_event list"

definition new_application :: application where
  "new_application = \<lparr>ap_ready = False, ap_stopping = False, ap_stopped = False, ap_stopErr = [], ap_stoppers = [],
     ap_transports = [], ap_trace = []\<rparr>"

definition log_event :: "app_event \<Rightarrow> application \<Rightarrow> application" where
  "log_event ev a = a\<lparr>ap_trace := ap_trace a @ [ev]\<rparr>"

definition addStopper :: "component \<Rightarrow> application \<Rightarrow> application" where
  "addStopper c a = a\<lparr>ap_stoppers := ap_stoppers a @ [c]\<rparr>"

section \<open>Checking the assembly\<close>

definition validateHooks :: "lifecycle \<Rightarrow> assembled \<Rightarrow> (go_error, unit) result" where
  "validateHooks l c =
    (if as_initializer c \<noteq> lc_initializer l then Inl (core ''initializer differs'')
     else if as_starter c \<noteq> lc_starter l then Inl (core ''starter differs'')
     else if as_stopper c \<noteq> lc_stopper l then Inl (core ''stopper differs'')
     else if as_supervisor c \<noteq> lc_supervisor l then Inl (core ''supervisor differs'')
     else Inr ())"

record scan =
  sc_components :: "assembled list"
  sc_transports :: "transport list"
  sc_prefixErr :: "go_error option"
  sc_err :: "go_error option"
  sc_transportIndex :: nat

definition first_error :: "go_error \<Rightarrow> go_error option \<Rightarrow> go_error option" where
  "first_error e old = (case old of None \<Rightarrow> Some e | Some e' \<Rightarrow> Some e')"

definition scan_fail :: "bool \<Rightarrow> go_error \<Rightarrow> go_error \<Rightarrow> scan \<Rightarrow> scan" where
  "scan_fail complete e prefixE s =
    s\<lparr>sc_err := (if complete then first_error e (sc_err s) else sc_err s), sc_prefixErr := first_error prefixE (sc_prefixErr s)\<rparr>"

text \<open>The loop over the assembled components; it breaks at the first that does not fit.\<close>

fun scan_loop :: "bool \<Rightarrow> component list \<Rightarrow> component list \<Rightarrow> lifecycle list \<Rightarrow> assembled list \<Rightarrow> scan \<Rightarrow> scan" where
  "scan_loop complete transportDefs (d # ds) (l # ls) (c # cs) s =
    (if as_component c \<noteq> d then scan_fail complete (core ''component order differs'') (core ''no prefix of the topology'') s
     else case validateHooks l c of
         Inl e \<Rightarrow> scan_fail complete e e s
       | Inr _ \<Rightarrow>
           let wants = (sc_transportIndex s < length transportDefs \<and> d = transportDefs ! sc_transportIndex s);
               s1 = s\<lparr>sc_components := sc_components s @ [c]\<rparr>
           in (case as_transport c of
                 None \<Rightarrow>
                   if wants then scan_fail complete (core ''transport differs'') (core ''transport differs'') s
                   else scan_loop complete transportDefs ds ls cs s1
               | Some t \<Rightarrow>
                   if \<not> wants then scan_fail complete (core ''transport differs'') (core ''transport differs'') s
                   else
                     let name = trim_space (tr_name t);
                         s2 = (if complete \<and> sc_err s = None then
                                 (if name = [] \<or> name \<noteq> tr_name t \<or> name \<in> tr_name ` set (sc_transports s)
                                  then s1\<lparr>sc_err := Some (core ''transport name invalid'')\<rparr>
                                  else s1\<lparr>sc_transports := sc_transports s @ [t]\<rparr>)
                               else s1)
                     in scan_loop complete transportDefs ds ls cs (s2\<lparr>sc_transportIndex := sc_transportIndex s + 1\<rparr>)))"
| "scan_loop complete transportDefs ds ls cs s = s"

definition scanAssembly :: "graph \<Rightarrow> assembled list option \<Rightarrow> bool \<Rightarrow> scan" where
  "scanAssembly g assembly complete =
    (let s0 = \<lparr>sc_components = [], sc_transports = [], sc_prefixErr = None, sc_err = None, sc_transportIndex = 0\<rparr> in
     case assembly of
       None \<Rightarrow> s0\<lparr>sc_prefixErr := Some (core ''assembly missing''),
         sc_err := (if complete then Some (core ''assembly missing'') else None)\<rparr>
     | Some cs \<Rightarrow>
         let defs = gr_components g;
             s1 = s0\<lparr>sc_err := (if complete \<and> length defs \<noteq> length cs then Some (core ''component count differs'') else None),
               sc_prefixErr := (if length defs < length cs then Some (core ''too many components'') else None)\<rparr>
         in if length (gr_lifecycles g) \<noteq> length defs then scan_fail complete (core ''lifecycle count'') (core ''lifecycle count'') s1
            else
              let s2 = scan_loop complete (gr_transports g) defs (gr_lifecycles g) cs s1
              in if complete \<and> sc_err s2 = None \<and> sc_transportIndex s2 \<noteq> length (gr_transports g)
                 then s2\<lparr>sc_err := Some (core ''transport missing'')\<rparr> else s2)"

definition enabledTransports :: "transport list \<Rightarrow> transport list" where
  "enabledTransports ts = filter tr_enabled ts"

section \<open>Stopping\<close>

text \<open>The calls of a shutdown in order; each is skipped once the deadline has passed.\<close>

fun stop_loop :: "app_env \<Rightarrow> (app_event \<times> go_error option) list \<Rightarrow> nat \<Rightarrow> application \<times> go_error list \<Rightarrow> nat \<times> application \<times> go_error list" where
  "stop_loop env [] n (a, errs) = (n, a, errs)"
| "stop_loop env ((ev, res) # rest) n (a, errs) =
    (let a' = log_event ev a; errs' = (case res of None \<Rightarrow> errs | Some e \<Rightarrow> errs @ [e])
     in if ae_late env (n + 1) then (n + 1, a', errs') else stop_loop env rest (n + 1) (a', errs'))"

definition app_Stop :: "app_env \<Rightarrow> application \<Rightarrow> go_error list \<times> application" where
  "app_Stop env a =
    (let a0 = a\<lparr>ap_ready := False, ap_stopping := True\<rparr> in
     if ap_stopped a then (ap_stopErr a, a0)
     else
       let (n, a1, errs) = stop_loop env (map (\<lambda>t. (EvStopT t, te_stop env t)) (rev (ap_transports a))) 0 (a0, []);
           (n, a2, errs) = (if ae_late env n then (n, a1, errs)
              else stop_loop env (map (\<lambda>c. (EvStop c, ae_stop env c)) (rev (ap_stoppers a))) n (a1, errs));
           errs = (if ae_late env n then errs @ [core ''shutdown deadline''] else errs)
       in (errs, a2\<lparr>ap_stopped := True, ap_stopErr := errs\<rparr>))"

definition rollback :: "app_env \<Rightarrow> go_error list \<Rightarrow> application \<Rightarrow> go_error list \<times> application" where
  "rollback env cause a = (let (errs, a') = app_Stop env a in (cause @ errs, a'))"

fun addRollback :: "assembled list \<Rightarrow> application \<Rightarrow> application" where
  "addRollback [] a = a"
| "addRollback (c # cs) a =
    (let a1 = (case as_transport c of None \<Rightarrow> a | Some t \<Rightarrow> a\<lparr>ap_transports := ap_transports a @ [tr_name t]\<rparr>);
         a2 = (if as_stopper c \<and> \<not> as_initializer c then addStopper (as_component c) a1 else a1)
     in addRollback cs a2)"

section \<open>Starting\<close>

fun init_loop :: "app_env \<Rightarrow> assembled list \<Rightarrow> application \<Rightarrow> go_error option \<times> application" where
  "init_loop env [] a = (None, a)"
| "init_loop env (c # cs) a =
    (let stopper = (\<lambda>a. if as_stopper c then addStopper (as_component c) a else a)
     in if \<not> as_initializer c then init_loop env cs (stopper a)
        else case ae_init env (as_component c) of
            Some e \<Rightarrow> (Some e, log_event (EvInit (as_component c)) a)
          | None \<Rightarrow> init_loop env cs (stopper (log_event (EvInit (as_component c)) a)))"

fun prepare_loop :: "app_env \<Rightarrow> string list \<Rightarrow> string list \<Rightarrow> application \<Rightarrow> go_error option \<times> application" where
  "prepare_loop env [] prepared a = (None, a)"
| "prepare_loop env (t # ts) prepared a =
    (case te_prepare env t of
       Some e \<Rightarrow> (Some e, (log_event (EvPrepareT t) a)\<lparr>ap_transports := prepared\<rparr>)
     | None \<Rightarrow> prepare_loop env ts (prepared @ [t]) (log_event (EvPrepareT t) a))"

fun start_loop :: "app_env \<Rightarrow> assembled list \<Rightarrow> application \<Rightarrow> go_error option \<times> application" where
  "start_loop env [] a = (None, a)"
| "start_loop env (c # cs) a =
    (if \<not> as_starter c then start_loop env cs a
     else case ae_start env (as_component c) of
         Some e \<Rightarrow> (Some e, log_event (EvStart (as_component c)) a)
       | None \<Rightarrow> start_loop env cs (log_event (EvStart (as_component c)) a))"

fun terminations :: "app_env \<Rightarrow> assembled list \<Rightarrow> (go_error, component list) result" where
  "terminations env [] = Inr []"
| "terminations env (c # cs) =
    (if \<not> as_supervisor c then terminations env cs
     else if ae_no_channel env (as_component c) then Inl (core ''component channel missing'')
     else bindE (terminations env cs) (\<lambda>rest. Inr (as_component c # rest)))"

fun start_transports :: "app_env \<Rightarrow> string list \<Rightarrow> application \<Rightarrow> go_error option \<times> application" where
  "start_transports env [] a = (None, a)"
| "start_transports env (t # ts) a =
    (let a' = log_event (EvStartT t) a in
     case te_start env t of
       Some e \<Rightarrow> (Some e, a')
     | None \<Rightarrow> if te_no_channel env t then (Some (core ''transport channel missing''), a') else start_transports env ts a')"

definition startAssembly :: "app_env \<Rightarrow> assembled list \<Rightarrow> transport list \<Rightarrow> application \<Rightarrow> go_error option \<times> application" where
  "startAssembly env cs ts a =
    (case init_loop env cs a of
       (Some e, a1) \<Rightarrow> (Some e, a1)
     | (None, a1) \<Rightarrow>
         (case prepare_loop env (map tr_name ts) [] (a1\<lparr>ap_transports := map tr_name ts\<rparr>) of
            (Some e, a2) \<Rightarrow> (Some e, a2)
          | (None, a2) \<Rightarrow>
              (case start_loop env cs a2 of
                 (Some e, a3) \<Rightarrow> (Some e, a3)
               | (None, a3) \<Rightarrow>
                   (case terminations env cs of
                      Inl e \<Rightarrow> (Some e, a3)
                    | Inr _ \<Rightarrow>
                        (case start_transports env (ap_transports a3) a3 of
                           (Some e, a4) \<Rightarrow> (Some e, a4)
                         | (None, a4) \<Rightarrow> (None, a4\<lparr>ap_ready := True\<rparr>))))))"

text \<open>The generated assembly function answers with an assembly, complete or cut short by an error.\<close>

definition StartDefinition ::
  "app_env \<Rightarrow> graph \<Rightarrow> bool \<Rightarrow> assembled list option \<Rightarrow> go_error option \<Rightarrow> (go_error list, application) result \<times> application" where
  "StartDefinition env g has_assemble assembly failure =
    (let a = new_application in
     if \<not> gr_validated g \<or> \<not> has_assemble then (Inl [core ''definition not validated''], a)
     else
       let v = scanAssembly g assembly (failure = None) in
       case failure of
         Some e \<Rightarrow>
           (let (errs, a') = rollback env (e # (case sc_prefixErr v of None \<Rightarrow> [] | Some p \<Rightarrow> [p])) (addRollback (sc_components v) a)
            in (Inl errs, a'))
       | None \<Rightarrow>
           if assembly = None then (let (errs, a') = rollback env [core ''assembly missing''] a in (Inl errs, a'))
           else (case sc_err v of
               Some e \<Rightarrow> (let (errs, a') = rollback env [e] (addRollback (sc_components v) a) in (Inl errs, a'))
             | None \<Rightarrow>
                 (case startAssembly env (sc_components v) (enabledTransports (sc_transports v)) a of
                    (Some e, a1) \<Rightarrow> (let (errs, a') = rollback env [e] a1 in (Inl errs, a'))
                  | (None, a1) \<Rightarrow> (Inr a1, a1))))"

text \<open>\<open>supervise\<close>: the end of a component or transport that nobody asked for stops the application.\<close>

definition supervise :: "app_env \<Rightarrow> go_error option \<Rightarrow> application \<Rightarrow> go_error list option \<times> application" where
  "supervise env ended a =
    (if ap_stopping a then (None, a)
     else
       let e = (case ended of None \<Rightarrow> core ''terminated unexpectedly'' | Some cause \<Rightarrow> wrap_core ''run failed'' cause);
           (errs, a') = app_Stop env (a\<lparr>ap_ready := False\<rparr>)
       in (Some (e # errs), a'))"

section \<open>Stopping in reverse order, once\<close>

definition stop_plan :: "application \<Rightarrow> app_event list" where
  "stop_plan a = map EvStopT (rev (ap_transports a)) @ map EvStop (rev (ap_stoppers a))"

definition never_late :: "app_env \<Rightarrow> bool" where
  "never_late env \<longleftrightarrow> (\<forall>n. \<not> ae_late env n)"

lemma log_event_simps [simp]:
  "ap_trace (log_event ev a) = ap_trace a @ [ev]" "ap_transports (log_event ev a) = ap_transports a"
  "ap_stoppers (log_event ev a) = ap_stoppers a" "ap_ready (log_event ev a) = ap_ready a"
  "ap_stopped (log_event ev a) = ap_stopped a" "ap_stopping (log_event ev a) = ap_stopping a"
  by (simp_all add: log_event_def)

lemma addStopper_simps [simp]:
  "ap_trace (addStopper c a) = ap_trace a" "ap_transports (addStopper c a) = ap_transports a"
  "ap_stoppers (addStopper c a) = ap_stoppers a @ [c]" "ap_ready (addStopper c a) = ap_ready a"
  "ap_stopped (addStopper c a) = ap_stopped a" "ap_stopping (addStopper c a) = ap_stopping a"
  by (simp_all add: addStopper_def)

lemma stop_loop_trace:
  assumes "stop_loop env xs n (a, errs) = (n', a', errs')"
  shows "\<exists>k \<le> length xs. a' = a\<lparr>ap_trace := ap_trace a @ map fst (take k xs)\<rparr> \<and> n' = n + k \<and>
    (\<not> ae_late env n' \<longrightarrow> k = length xs)"
  using assms
proof (induction xs arbitrary: n a errs)
  case Nil
  then show ?case by simp
next
  case (Cons x xs)
  obtain ev res where x: "x = (ev, res)" by (cases x)
  show ?case
  proof (cases "ae_late env (n + 1)")
    case True
    with Cons.prems x have "n' = n + 1" "a' = log_event ev a" by (simp_all add: Let_def)
    then show ?thesis using True by (intro exI [of _ 1]) (simp add: x log_event_def)
  next
    case False
    with Cons.prems x obtain errs1 where "stop_loop env xs (n + 1) (log_event ev a, errs1) = (n', a', errs')"
      by (auto simp: Let_def)
    from Cons.IH [OF this] obtain k where k: "k \<le> length xs"
      "a' = (log_event ev a)\<lparr>ap_trace := ap_trace (log_event ev a) @ map fst (take k xs)\<rparr>" "n' = n + 1 + k"
      "\<not> ae_late env n' \<longrightarrow> k = length xs" by blast
    then show ?thesis by (intro exI [of _ "Suc k"]) (simp add: x log_event_def)
  qed
qed

lemma app_Stop_trace:
  assumes "app_Stop env a = (errs, a')" "\<not> ap_stopped a"
  shows "\<exists>k \<le> length (stop_plan a). ap_trace a' = ap_trace a @ take k (stop_plan a) \<and>
    (never_late env \<longrightarrow> k = length (stop_plan a)) \<and> ap_stopped a' \<and> \<not> ap_ready a' \<and> ap_stopping a' \<and> ap_stopErr a' = errs"
proof -
  define a0 where "a0 = a\<lparr>ap_ready := False, ap_stopping := True\<rparr>"
  define xs ys where "xs = map (\<lambda>t. (EvStopT t, te_stop env t)) (rev (ap_transports a))"
    and "ys = map (\<lambda>c. (EvStop c, ae_stop env c)) (rev (ap_stoppers a))"
  obtain n a1 e1 where 1: "stop_loop env xs 0 (a0, []) = (n, a1, e1)" by (cases "stop_loop env xs 0 (a0, [])") auto
  obtain m a2 e2 where 2: "(if ae_late env n then (n, a1, e1) else stop_loop env ys n (a1, e1)) = (m, a2, e2)"
    by (cases "if ae_late env n then (n, a1, e1) else stop_loop env ys n (a1, e1)") auto
  obtain k where k: "k \<le> length xs" "a1 = a0\<lparr>ap_trace := ap_trace a0 @ map fst (take k xs)\<rparr>" "n = k"
    "\<not> ae_late env n \<longrightarrow> k = length xs" using stop_loop_trace [OF 1] by auto
  have stoppers: "ap_stoppers a1 = ap_stoppers a" by (simp add: k a0_def)
  have plan: "stop_plan a = map fst xs @ map fst ys" by (simp add: stop_plan_def xs_def ys_def comp_def)
  have out: "errs = (if ae_late env m then e2 @ [core ''shutdown deadline''] else e2)"
    "a' = a2\<lparr>ap_stopped := True, ap_stopErr := errs\<rparr>"
    using assms 1 2 stoppers by (auto simp: app_Stop_def a0_def xs_def ys_def Let_def split: if_splits)
  show ?thesis
  proof (cases "ae_late env n")
    case True
    then show ?thesis using 2 k out plan
      by (intro exI [of _ k]) (auto simp: a0_def never_late_def take_map)
  next
    case False
    then have kx: "k = length xs" and "stop_loop env ys n (a1, e1) = (m, a2, e2)" using k 2 by auto
    from stop_loop_trace [OF this(2)] obtain j where j: "j \<le> length ys"
      "a2 = a1\<lparr>ap_trace := ap_trace a1 @ map fst (take j ys)\<rparr>" "m = n + j" "\<not> ae_late env m \<longrightarrow> j = length ys" by blast
    then show ?thesis using k kx out plan
      by (intro exI [of _ "length xs + j"]) (auto simp: a0_def never_late_def take_map)
  qed
qed

text \<open>A shutdown stops the transports and then the components, each in the reverse of its starting
  order and each at most once; only the deadline of the shutdown can cut it short, and a further
  call of \<open>Stop\<close> calls nothing again and reports the same errors.\<close>

theorem shutdown_in_reverse_once:
  assumes "\<not> ap_stopped a" "app_Stop env a = (errs, a')"
  shows "(\<exists>k \<le> length (stop_plan a). ap_trace a' = ap_trace a @ take k (stop_plan a) \<and>
      (never_late env \<longrightarrow> k = length (stop_plan a))) \<and>
    \<not> ap_ready a' \<and> fst (app_Stop env' a') = errs \<and> ap_trace (snd (app_Stop env' a')) = ap_trace a'"
  using app_Stop_trace [OF assms(2,1)] by (auto simp: app_Stop_def Let_def)

definition calm :: app_env where
  "calm = \<lparr>ae_init = (\<lambda>_. None), ae_start = (\<lambda>_. None), ae_stop = (\<lambda>_. None), ae_no_channel = (\<lambda>_. False),
     te_prepare = (\<lambda>_. None), te_start = (\<lambda>_. None), te_stop = (\<lambda>_. None), te_no_channel = (\<lambda>_. False), ae_late = (\<lambda>_. False)\<rparr>"

definition two_started :: application where
  "two_started = new_application\<lparr>ap_stoppers := [sample_component ''A'', sample_component ''B''], ap_transports := [''http'']\<rparr>"

theorem shutdown_in_reverse_once_witness:
  "ap_trace (snd (app_Stop calm two_started)) = [EvStopT ''http'', EvStop (sample_component ''B''), EvStop (sample_component ''A'')]"
proof -
  obtain errs a' where S: "app_Stop calm two_started = (errs, a')" by (cases "app_Stop calm two_started")
  have "\<not> ap_stopped two_started" by (simp add: two_started_def new_application_def)
  from shutdown_in_reverse_once [OF this S] have "ap_trace a' = ap_trace two_started @ stop_plan two_started"
    by (auto simp: never_late_def calm_def)
  moreover have "ap_trace two_started @ stop_plan two_started =
      [EvStopT ''http'', EvStop (sample_component ''B''), EvStop (sample_component ''A'')]"
    by (simp add: two_started_def new_application_def stop_plan_def)
  ultimately show ?thesis by (simp add: S)
qed


section \<open>What a start leaves behind\<close>

text \<open>Whether initialising the component fails, and the components that are reached.\<close>

definition init_fails :: "app_env \<Rightarrow> assembled \<Rightarrow> bool" where
  "init_fails env c \<longleftrightarrow> as_initializer c \<and> ae_init env (as_component c) \<noteq> None"

definition reached :: "app_env \<Rightarrow> assembled list \<Rightarrow> assembled list" where
  "reached env cs = takeWhile (\<lambda>c. \<not> init_fails env c) cs"

lemma init_loop_result:
  assumes "init_loop env cs a = (r, a')"
  shows "(r = None \<longleftrightarrow> (\<forall>c \<in> set cs. \<not> init_fails env c)) \<and>
    ap_stoppers a' = ap_stoppers a @ map as_component (filter as_stopper (reached env cs)) \<and>
    (\<exists>tail. ap_trace a' = ap_trace a @ map (\<lambda>c. EvInit (as_component c)) (filter as_initializer (reached env cs)) @ tail \<and>
      (r = None \<longrightarrow> tail = []) \<and> (\<forall>ev \<in> set tail. \<exists>c \<in> set cs. init_fails env c \<and> ev = EvInit (as_component c))) \<and>
    ap_transports a' = ap_transports a \<and> ap_stopped a' = ap_stopped a \<and> ap_ready a' = ap_ready a \<and> ap_stopping a' = ap_stopping a"
  using assms
proof (induction cs arbitrary: a)
  case Nil
  then show ?case by (simp add: reached_def)
next
  case (Cons c cs)
  define up where "up = (\<lambda>a. if as_stopper c then addStopper (as_component c) a else a)"
  consider (plain) "\<not> as_initializer c" | (bad) e where "as_initializer c" "ae_init env (as_component c) = Some e"
    | (good) "as_initializer c" "ae_init env (as_component c) = None" by fastforce
  then show ?case
  proof cases
    case plain
    then have "init_loop env cs (up a) = (r, a')" using Cons.prems by (simp add: up_def)
    from Cons.IH [OF this] plain show ?thesis by (auto simp: reached_def init_fails_def up_def)
  next
    case bad
    then have "r = Some e" "a' = log_event (EvInit (as_component c)) a" using Cons.prems by simp_all
    with bad show ?thesis by (auto simp: reached_def init_fails_def)
  next
    case good
    then have "init_loop env cs (up (log_event (EvInit (as_component c)) a)) = (r, a')" using Cons.prems by (simp add: up_def)
    from Cons.IH [OF this] good show ?thesis by (auto simp: reached_def init_fails_def up_def)
  qed
qed

lemma prepare_loop_result:
  assumes "prepare_loop env ts prepared a = (r, a')"
  shows "(r = None \<longleftrightarrow> (\<forall>t \<in> set ts. te_prepare env t = None)) \<and>
    (r = None \<longrightarrow> ap_transports a' = ap_transports a) \<and>
    (r \<noteq> None \<longrightarrow> ap_transports a' = prepared @ takeWhile (\<lambda>t. te_prepare env t = None) ts) \<and>
    (\<exists>tail. ap_trace a' = ap_trace a @ map EvPrepareT (takeWhile (\<lambda>t. te_prepare env t = None) ts) @ tail \<and>
      (r = None \<longrightarrow> tail = []) \<and> (\<forall>ev \<in> set tail. \<exists>t \<in> set ts. te_prepare env t \<noteq> None \<and> ev = EvPrepareT t)) \<and>
    ap_stoppers a' = ap_stoppers a \<and> ap_stopped a' = ap_stopped a \<and> ap_ready a' = ap_ready a \<and> ap_stopping a' = ap_stopping a"
  using assms
proof (induction ts arbitrary: prepared a)
  case Nil
  then show ?case by simp
next
  case (Cons t ts)
  show ?case
  proof (cases "te_prepare env t")
    case None
    then have "prepare_loop env ts (prepared @ [t]) (log_event (EvPrepareT t) a) = (r, a')" using Cons.prems by simp
    from Cons.IH [OF this] None show ?thesis by auto
  next
    case (Some e)
    then have "r = Some e" "a' = (log_event (EvPrepareT t) a)\<lparr>ap_transports := prepared\<rparr>" using Cons.prems by simp_all
    with Some show ?thesis by auto
  qed
qed

lemma start_loop_result:
  assumes "start_loop env cs a = (r, a')"
  shows "(\<exists>up. ap_trace a' = ap_trace a @ map EvStart up \<and> set up \<subseteq> as_component ` set cs \<and>
      (r = None \<longrightarrow> up = map as_component (filter as_starter cs))) \<and>
    ap_transports a' = ap_transports a \<and> ap_stoppers a' = ap_stoppers a \<and> ap_stopped a' = ap_stopped a \<and>
    ap_ready a' = ap_ready a \<and> ap_stopping a' = ap_stopping a"
  using assms
proof (induction cs arbitrary: a)
  case (Cons c cs)
  consider (plain) "\<not> as_starter c" | (bad) e where "as_starter c" "ae_start env (as_component c) = Some e"
    | (good) "as_starter c" "ae_start env (as_component c) = None" by fastforce
  then show ?case
  proof cases
    case plain
    then have "start_loop env cs a = (r, a')" using Cons.prems by simp
    from Cons.IH [OF this] plain show ?thesis by auto
  next
    case bad
    then have "r = Some e" "a' = log_event (EvStart (as_component c)) a" using Cons.prems by simp_all
    with bad show ?thesis by (auto intro!: exI [of _ "[as_component c]"])
  next
    case good
    then have "start_loop env cs (log_event (EvStart (as_component c)) a) = (r, a')" using Cons.prems by simp
    from Cons.IH [OF this] obtain up where "ap_trace a' = ap_trace (log_event (EvStart (as_component c)) a) @ map EvStart up"
      "set up \<subseteq> as_component ` set cs" "r = None \<longrightarrow> up = map as_component (filter as_starter cs)"
      "ap_transports a' = ap_transports a \<and> ap_stoppers a' = ap_stoppers a \<and> ap_stopped a' = ap_stopped a \<and>
    ap_ready a' = ap_ready a \<and> ap_stopping a' = ap_stopping a" by auto
    with good show ?thesis by (auto intro!: exI [of _ "as_component c # up"])
  qed
qed simp

lemma start_transports_result:
  assumes "start_transports env ts a = (r, a')"
  shows "(\<exists>up. ap_trace a' = ap_trace a @ map EvStartT up \<and> set up \<subseteq> set ts \<and> (r = None \<longrightarrow> up = ts)) \<and>
    ap_transports a' = ap_transports a \<and> ap_stoppers a' = ap_stoppers a \<and> ap_stopped a' = ap_stopped a \<and>
    ap_ready a' = ap_ready a \<and> ap_stopping a' = ap_stopping a"
  using assms
proof (induction ts arbitrary: a)
  case (Cons t ts)
  show ?case
  proof (cases "te_start env t = None \<and> \<not> te_no_channel env t")
    case True
    then have "start_transports env ts (log_event (EvStartT t) a) = (r, a')" using Cons.prems by simp
    from Cons.IH [OF this] obtain up where "ap_trace a' = ap_trace (log_event (EvStartT t) a) @ map EvStartT up"
      "set up \<subseteq> set ts" "r = None \<longrightarrow> up = ts"
      "ap_transports a' = ap_transports a \<and> ap_stoppers a' = ap_stoppers a \<and> ap_stopped a' = ap_stopped a \<and>
    ap_ready a' = ap_ready a \<and> ap_stopping a' = ap_stopping a" by auto
    then show ?thesis by (auto intro!: exI [of _ "t # up"])
  next
    case False
    then have "r \<noteq> None" "a' = log_event (EvStartT t) a" using Cons.prems
      by (cases "te_start env t"; auto simp: Let_def split: if_splits)+
    then show ?thesis by (auto intro!: exI [of _ "[t]"])
  qed
qed simp


definition fresh_application :: "application \<Rightarrow> bool" where
  "fresh_application a \<longleftrightarrow> ap_trace a = [] \<and> ap_stoppers a = [] \<and> ap_transports a = [] \<and> \<not> ap_ready a \<and> \<not> ap_stopped a \<and> \<not> ap_stopping a"

fun is_stop :: "app_event \<Rightarrow> bool" where
  "is_stop (EvStop c) = True"
| "is_stop (EvStopT t) = True"
| "is_stop _ = False"

text \<open>Everything that runs is known to the shutdown.\<close>

definition covered :: "app_env \<Rightarrow> assembled list \<Rightarrow> application \<Rightarrow> bool" where
  "covered env cs a \<longleftrightarrow>
    (\<forall>c \<in> set cs. as_stopper c \<longrightarrow> (EvStart (as_component c) \<in> set (ap_trace a) \<or>
       EvInit (as_component c) \<in> set (ap_trace a) \<and> ae_init env (as_component c) = None) \<longrightarrow>
       as_component c \<in> set (ap_stoppers a)) \<and>
    (\<forall>t. EvStartT t \<in> set (ap_trace a) \<or> EvPrepareT t \<in> set (ap_trace a) \<and> te_prepare env t = None \<longrightarrow> t \<in> set (ap_transports a)) \<and>
    distinct (ap_stoppers a) \<and> set (ap_stoppers a) \<subseteq> as_component ` {c \<in> set cs. as_stopper c} \<and> \<not> ap_stopped a \<and>
    (\<forall>x. EvStop x \<notin> set (ap_trace a)) \<and> (\<forall>t. EvStopT t \<notin> set (ap_trace a))"

lemma reached_subset: "set (reached env cs) \<subseteq> set cs" "c \<in> set (reached env cs) \<Longrightarrow> \<not> init_fails env c"
  by (auto simp: reached_def dest: set_takeWhileD)

lemma reached_all: "\<forall>c \<in> set cs. \<not> init_fails env c \<Longrightarrow> reached env cs = cs"
  by (simp add: reached_def takeWhile_eq_all_conv)

lemma filter_reached_distinct:
  assumes "distinct (map as_component cs)"
  shows "distinct (map as_component (filter as_stopper (reached env cs)))"
proof -
  obtain zs where "cs = reached env cs @ zs" unfolding reached_def by (metis takeWhile_dropWhile_id)
  then have "distinct (map as_component (reached env cs))" using assms by (metis distinct_append map_append)
  then show ?thesis by (rule distinct_map_filter)
qed

lemma coveredI:
  assumes "\<And>c. \<lbrakk>c \<in> set cs; as_stopper c\<rbrakk> \<Longrightarrow> as_component c \<in> set (ap_stoppers a)"
    "\<And>t. EvStartT t \<in> set (ap_trace a) \<Longrightarrow> t \<in> set (ap_transports a)"
    "\<And>t. \<lbrakk>EvPrepareT t \<in> set (ap_trace a); te_prepare env t = None\<rbrakk> \<Longrightarrow> t \<in> set (ap_transports a)"
    "distinct (ap_stoppers a)" "set (ap_stoppers a) \<subseteq> as_component ` {c \<in> set cs. as_stopper c}" "\<not> ap_stopped a"
    "\<And>ev. ev \<in> set (ap_trace a) \<Longrightarrow> \<not> is_stop ev"
  shows "covered env cs a"
proof -
  have "\<forall>x. EvStop x \<notin> set (ap_trace a)" "\<forall>t. EvStopT t \<notin> set (ap_trace a)" using assms(7) by (auto dest: assms(7))
  then show ?thesis unfolding covered_def using assms(1-6) by simp
qed

lemma startAssembly_covers:
  assumes "startAssembly env cs ts a = (r, a')" "fresh_application a" "distinct (map as_component cs)"
  shows "covered env cs a'"
proof -
  obtain r1 a1 where 1: "init_loop env cs a = (r1, a1)" by (cases "init_loop env cs a")
  note I = init_loop_result [OF 1]
  obtain tail where T: "ap_trace a1 = map (\<lambda>c. EvInit (as_component c)) (filter as_initializer (reached env cs)) @ tail"
    "\<forall>ev \<in> set tail. \<exists>c \<in> set cs. init_fails env c \<and> ev = EvInit (as_component c)"
    using I assms(2) by (auto simp: fresh_application_def)
  have st: "ap_stoppers a1 = map as_component (filter as_stopper (reached env cs))"
    using I assms(2) by (auto simp: fresh_application_def)
  have flags: "\<not> ap_stopped a1" using I assms(2) by (auto simp: fresh_application_def)
  have inits: "as_component c \<in> set (ap_stoppers a1)"
    if c: "c \<in> set cs" "as_stopper c" "EvInit (as_component c) \<in> set (ap_trace a1)" "ae_init env (as_component c) = None" for c
  proof -
    have "EvInit (as_component c) \<notin> set tail" using T(2) c(4) by (auto simp: init_fails_def)
    then obtain c' where "c' \<in> set (reached env cs)" "as_component c' = as_component c" using T(1) c(3) by auto
    moreover from this have "c' = c"
      using assms(3) c(1) reached_subset(1) [of env cs] unfolding distinct_map inj_on_def by blast
    ultimately show ?thesis using c(2) st by auto
  qed
  have only: "\<forall>ev \<in> set (ap_trace a1). \<exists>x. ev = EvInit x" using T by auto
  have dist: "distinct (ap_stoppers a1)" "set (ap_stoppers a1) \<subseteq> as_component ` {c \<in> set cs. as_stopper c}"
    using filter_reached_distinct [OF assms(3)] reached_subset(1) [of env cs] by (auto simp: st)
  have c1: "covered env cs a1"
    using inits only dist flags unfolding covered_def by fastforce
  show ?thesis
  proof (cases r1)
    case (Some e)
    then show ?thesis using assms(1) 1 c1 by (simp add: startAssembly_def)
  next
    case None
    then have all: "reached env cs = cs" using I reached_all by blast
    then have full: "as_component c \<in> set (ap_stoppers a1)" if "c \<in> set cs" "as_stopper c" for c using that st by auto
    obtain r2 a2 where 2: "prepare_loop env (map tr_name ts) [] (a1\<lparr>ap_transports := map tr_name ts\<rparr>) = (r2, a2)"
      by (cases "prepare_loop env (map tr_name ts) [] (a1\<lparr>ap_transports := map tr_name ts\<rparr>)")
    note P = prepare_loop_result [OF 2]
    obtain tail2 where T2: "ap_trace a2 = ap_trace a1 @ map EvPrepareT (takeWhile (\<lambda>t. te_prepare env t = None) (map tr_name ts)) @ tail2"
      "\<forall>ev \<in> set tail2. \<exists>t. te_prepare env t \<noteq> None \<and> ev = EvPrepareT t" using P by fastforce
    have st2: "ap_stoppers a2 = ap_stoppers a1" "\<not> ap_stopped a2" using P flags by auto
    have tr2: "set (takeWhile (\<lambda>t. te_prepare env t = None) (map tr_name ts)) \<subseteq> set (ap_transports a2)"
      using P by (cases r2) (auto dest: set_takeWhileD)
    have only2: "\<forall>ev \<in> set (ap_trace a2). (\<exists>x. ev = EvInit x) \<or> (\<exists>t. ev = EvPrepareT t)" using T2 only by auto
    have prep2: "t \<in> set (ap_transports a2)" if "EvPrepareT t \<in> set (ap_trace a2)" "te_prepare env t = None" for t
      using that T2 tr2 only by auto
    have c2: "covered env cs a2"
      by (rule coveredI) (use full only2 prep2 dist st2 in auto)
    show ?thesis
    proof (cases r2)
      case (Some e)
      then show ?thesis using assms(1) 1 2 None c2 by (simp add: startAssembly_def)
    next
      case r2: None
      obtain r3 a3 where 3: "start_loop env cs a2 = (r3, a3)" by (cases "start_loop env cs a2")
      note S = start_loop_result [OF 3]
      obtain up where U: "ap_trace a3 = ap_trace a2 @ map EvStart up" using S by blast
      have st3: "ap_stoppers a3 = ap_stoppers a2" "ap_transports a3 = ap_transports a2" "\<not> ap_stopped a3" using S st2 by auto
      have c3: "covered env cs a3"
        by (rule coveredI) (use full only2 prep2 dist st2 st3 U in auto)
      obtain r4 a4 where 4: "start_transports env (ap_transports a3) a3 = (r4, a4)" by (cases "start_transports env (ap_transports a3) a3")
      note R = start_transports_result [OF 4]
      obtain up2 where U2: "ap_trace a4 = ap_trace a3 @ map EvStartT up2" "set up2 \<subseteq> set (ap_transports a3)" using R by blast
      have st4: "ap_stoppers a4 = ap_stoppers a3" "ap_transports a4 = ap_transports a3" "\<not> ap_stopped a4" using R st3 by auto
      have c4: "covered env cs a4"
        by (rule coveredI) (use full only2 prep2 dist st2 st3 st4 U U2 in auto)
      have ready: "covered env cs (a4\<lparr>ap_ready := True\<rparr>)" using c4 by (simp add: covered_def)
      consider "r3 \<noteq> None" "a' = a3" | "r3 = None" "a' = a3" | "a' = a4" | "a' = a4\<lparr>ap_ready := True\<rparr>"
        using assms(1) 1 2 3 4 None r2
        by (cases r3; cases "terminations env cs"; cases r4) (auto simp: startAssembly_def)
      then show ?thesis using c3 c4 ready by cases auto
    qed
  qed
qed


section \<open>A start that fails, and one that succeeds\<close>

text \<open>What needs stopping: a component that was started or initialised, a transport that was prepared
  or started.\<close>

definition runs_component :: "app_env \<Rightarrow> app_event list \<Rightarrow> component \<Rightarrow> bool" where
  "runs_component env tr c \<longleftrightarrow> EvStart c \<in> set tr \<or> EvInit c \<in> set tr \<and> ae_init env c = None"

definition runs_transport :: "app_env \<Rightarrow> app_event list \<Rightarrow> string \<Rightarrow> bool" where
  "runs_transport env tr t \<longleftrightarrow> EvStartT t \<in> set tr \<or> EvPrepareT t \<in> set tr \<and> te_prepare env t = None"

text \<open>The hooks of an assembled component are those the graph derived from its type.\<close>

definition hooks_fit :: "lifecycle \<Rightarrow> assembled \<Rightarrow> bool" where
  "hooks_fit l c \<longleftrightarrow> as_initializer c = lc_initializer l \<and> as_starter c = lc_starter l \<and> as_stopper c = lc_stopper l \<and>
    as_supervisor c = lc_supervisor l"

lemma validateHooks_Inr: "validateHooks l c = Inr u \<Longrightarrow> hooks_fit l c"
  by (auto simp: validateHooks_def hooks_fit_def split: if_splits)

lemma scan_fail_simps [simp]:
  "sc_components (scan_fail complete e p s) = sc_components s"
  "sc_err (scan_fail True e p s) \<noteq> None"
  by (auto simp: scan_fail_def first_error_def split: option.splits)

text \<open>One turn of the loop: it gives up, or takes the component and goes on.\<close>

lemma scan_step:
  assumes "r = scan_loop complete td (d # ds) (l # ls) (c # cs) s"
  shows "(\<exists>e p. r = scan_fail complete e p s) \<or>
    (\<exists>s'. r = scan_loop complete td ds ls cs s' \<and> as_component c = d \<and> hooks_fit l c \<and>
      sc_components s' = sc_components s @ [c] \<and> (sc_err s \<noteq> None \<longrightarrow> sc_err s' \<noteq> None) \<and>
      (complete \<and> sc_err s' = None \<longrightarrow> sc_transports s' = sc_transports s @ (case as_transport c of None \<Rightarrow> [] | Some t \<Rightarrow> [t]) \<and>
        (distinct (map tr_name (sc_transports s)) \<longrightarrow> distinct (map tr_name (sc_transports s')))))"
proof (cases "as_component c = d")
  case False
  then show ?thesis using assms by auto
next
  case same: True
  show ?thesis
  proof (cases "validateHooks l c")
    case (Inl e)
    then show ?thesis using assms same by auto
  next
    case (Inr u)
    note fit = validateHooks_Inr [OF Inr]
    define wants where "wants \<longleftrightarrow> sc_transportIndex s < length td \<and> d = td ! sc_transportIndex s"
    show ?thesis
    proof (cases "as_transport c")
      case None
      then show ?thesis using assms same Inr fit by (cases wants) (auto simp: Let_def wants_def [symmetric])
    next
      case (Some t)
      show ?thesis
      proof (cases wants)
        case False
        then show ?thesis using assms same Inr Some by (auto simp: Let_def wants_def [symmetric])
      next
        case True
        define ok where "ok \<longleftrightarrow> \<not> (trim_space (tr_name t) = [] \<or> trim_space (tr_name t) \<noteq> tr_name t \<or>
          trim_space (tr_name t) \<in> tr_name ` set (sc_transports s))"
        have "r = scan_loop complete td ds ls cs
            ((if complete \<and> sc_err s = None then
                (if \<not> ok then s\<lparr>sc_components := sc_components s @ [c], sc_err := Some (core ''transport name invalid'')\<rparr>
                 else s\<lparr>sc_components := sc_components s @ [c], sc_transports := sc_transports s @ [t]\<rparr>)
              else s\<lparr>sc_components := sc_components s @ [c]\<rparr>)\<lparr>sc_transportIndex := sc_transportIndex s + 1\<rparr>)"
          using assms same Inr Some True by (simp add: Let_def wants_def ok_def)
        moreover have "ok \<Longrightarrow> distinct (map tr_name (sc_transports s)) \<Longrightarrow> distinct (map tr_name (sc_transports s @ [t]))"
          by (auto simp: ok_def)
        ultimately show ?thesis using same fit Some
          by (intro disjI2) (cases "complete \<and> sc_err s = None"; cases ok; auto)
      qed
    qed
  qed
qed

declare scan_loop.simps(1) [simp del]

lemma scan_loop_prefix:
  "\<exists>k. sc_components (scan_loop complete td ds ls cs s) = sc_components s @ take k cs \<and> map as_component (take k cs) = take k ds"
proof (induction cs arbitrary: ds ls s)
  case Nil
  then show ?case by (intro exI [of _ 0]) simp
next
  case (Cons c cs)
  show ?case
  proof (cases "ds = [] \<or> ls = []")
    case True
    then show ?thesis by (intro exI [of _ 0]; cases ds; cases ls) simp_all
  next
    case False
    then obtain d ds' l ls' where *: "ds = d # ds'" "ls = l # ls'" by (meson neq_Nil_conv)
    from scan_step [OF refl, of complete td d ds' l ls' c cs s] show ?thesis
    proof (elim disjE exE conjE)
      fix e p assume "scan_loop complete td (d # ds') (l # ls') (c # cs) s = scan_fail complete e p s"
      then show ?thesis by (intro exI [of _ 0]) (simp add: *)
    next
      fix s' assume s': "scan_loop complete td (d # ds') (l # ls') (c # cs) s = scan_loop complete td ds' ls' cs s'"
        "as_component c = d" "sc_components s' = sc_components s @ [c]"
      from Cons.IH [of ds' ls' s'] obtain k where "sc_components (scan_loop complete td ds' ls' cs s') = sc_components s' @ take k cs"
        "map as_component (take k cs) = take k ds'" by blast
      with s' show ?thesis by (intro exI [of _ "Suc k"]) (simp add: *)
    qed
  qed
qed

lemma scan_loop_keeps_error: "sc_err s \<noteq> None \<Longrightarrow> sc_err (scan_loop complete td ds ls cs s) \<noteq> None"
proof (induction cs arbitrary: ds ls s)
  case Nil
  then show ?case by simp
next
  case (Cons c cs)
  show ?case
  proof (cases "ds = [] \<or> ls = []")
    case True
    then show ?thesis using Cons.prems by (cases ds; cases ls) simp_all
  next
    case False
    then obtain d ds' l ls' where *: "ds = d # ds'" "ls = l # ls'" by (meson neq_Nil_conv)
    from scan_step [OF refl, of complete td d ds' l ls' c cs s] show ?thesis
    proof (elim disjE exE conjE)
      fix e p assume "scan_loop complete td (d # ds') (l # ls') (c # cs) s = scan_fail complete e p s"
      then show ?thesis using Cons.prems by (auto simp: * scan_fail_def first_error_def split: option.splits)
    next
      fix s' assume "scan_loop complete td (d # ds') (l # ls') (c # cs) s = scan_loop complete td ds' ls' cs s'"
        "sc_err s \<noteq> None \<longrightarrow> sc_err s' \<noteq> None"
      then show ?thesis using Cons.IH [of s' ds' ls'] Cons.prems unfolding * by simp
    qed
  qed
qed

lemma scan_loop_complete:
  assumes "sc_err (scan_loop True td ds ls cs s) = None" "length ds = length cs" "length ls = length cs"
  shows "sc_err s = None \<and> sc_components (scan_loop True td ds ls cs s) = sc_components s @ cs \<and> map as_component cs = ds \<and>
    list_all2 hooks_fit ls cs \<and>
    sc_transports (scan_loop True td ds ls cs s) = sc_transports s @ List.map_filter as_transport cs \<and>
    (distinct (map tr_name (sc_transports s)) \<longrightarrow> distinct (map tr_name (sc_transports (scan_loop True td ds ls cs s))))"
  using assms
proof (induction cs arbitrary: ds ls s)
  case Nil
  then show ?case by (simp add: List.map_filter_def)
next
  case (Cons c cs)
  then obtain d ds' l ls' where *: "ds = d # ds'" "ls = l # ls'" by (metis length_Suc_conv)
  from scan_step [OF refl, of True td d ds' l ls' c cs s] show ?case
  proof (elim disjE exE)
    fix e p assume "scan_loop True td (d # ds') (l # ls') (c # cs) s = scan_fail True e p s"
    then have False using Cons.prems(1) unfolding * by simp
    then show ?thesis ..
  next
    fix s' assume s': "scan_loop True td (d # ds') (l # ls') (c # cs) s = scan_loop True td ds' ls' cs s' \<and>
      as_component c = d \<and> hooks_fit l c \<and> sc_components s' = sc_components s @ [c] \<and> (sc_err s \<noteq> None \<longrightarrow> sc_err s' \<noteq> None) \<and>
      (True \<and> sc_err s' = None \<longrightarrow> sc_transports s' = sc_transports s @ (case as_transport c of None \<Rightarrow> [] | Some t \<Rightarrow> [t]) \<and>
        (distinct (map tr_name (sc_transports s)) \<longrightarrow> distinct (map tr_name (sc_transports s'))))"
    have "sc_err (scan_loop True td ds' ls' cs s') = None" "length ds' = length cs" "length ls' = length cs"
      using Cons.prems s' unfolding * by simp_all
    note IH = Cons.IH [OF this]
    have "sc_transports (scan_loop True td ds' ls' cs s') = sc_transports s @ List.map_filter as_transport (c # cs)"
      using IH s' by (cases "as_transport c") (simp_all add: List.map_filter_simps)
    moreover have "distinct (map tr_name (sc_transports s)) \<longrightarrow>
        distinct (map tr_name (sc_transports (scan_loop True td ds' ls' cs s')))" using IH s' by blast
    moreover have "sc_err s = None" using IH s' by blast
    ultimately show ?thesis using IH s' unfolding * by (simp del: map_append distinct_append)
  qed
qed

lemma scanAssembly_ok:
  assumes "sc_err (scanAssembly g (Some cs) True) = None" and "s = scanAssembly g (Some cs) True"
  shows "sc_components s = cs \<and> map as_component cs = gr_components g \<and> list_all2 hooks_fit (gr_lifecycles g) cs \<and>
    sc_transports s = List.map_filter as_transport cs \<and> distinct (map tr_name (sc_transports s))"
proof -
  have len: "length (gr_lifecycles g) = length (gr_components g)"
    using assms(1) by (auto simp: scanAssembly_def Let_def scan_fail_def first_error_def split: if_splits option.splits)
  define s1 where "s1 = \<lparr>sc_components = [], sc_transports = [], sc_prefixErr = (if length (gr_components g) < length cs then Some (core ''too many components'') else None),
    sc_err = (if length (gr_components g) \<noteq> length cs then Some (core ''component count differs'') else None), sc_transportIndex = 0\<rparr>"
  define r where "r = scan_loop True (gr_transports g) (gr_components g) (gr_lifecycles g) cs s1"
  have s: "s = (if sc_err r = None \<and> sc_transportIndex r \<noteq> length (gr_transports g) then r\<lparr>sc_err := Some (core ''transport missing'')\<rparr> else r)"
    using len by (simp add: assms(2) scanAssembly_def Let_def r_def s1_def)
  then have ok: "sc_err r = None" "s = r" using assms by (auto split: if_splits)
  have size: "length (gr_components g) = length cs"
  proof (rule ccontr)
    assume "length (gr_components g) \<noteq> length cs"
    then have "sc_err s1 \<noteq> None" by (simp add: s1_def)
    then have "sc_err r \<noteq> None" unfolding r_def by (rule scan_loop_keeps_error)
    with ok show False by simp
  qed
  have "sc_err (scan_loop True (gr_transports g) (gr_components g) (gr_lifecycles g) cs s1) = None"
    using ok(1) by (simp add: r_def)
  from scan_loop_complete [OF this] size len
  have "sc_components r = cs \<and> map as_component cs = gr_components g \<and> list_all2 hooks_fit (gr_lifecycles g) cs \<and>
    sc_transports r = List.map_filter as_transport cs \<and> distinct (map tr_name (sc_transports r))"
    unfolding r_def [symmetric] by (auto simp: s1_def)
  then show ?thesis unfolding ok(2) .
qed

lemma addRollback_trace: "ap_trace (addRollback cs a) = ap_trace a \<and> ap_stopped (addRollback cs a) = ap_stopped a"
  by (induction cs arbitrary: a) (auto simp: Let_def split: option.splits)

lemma rollback_trace:
  assumes "rollback env cause a = (errs, a')" "\<not> ap_stopped a" "never_late env"
  shows "ap_trace a' = ap_trace a @ stop_plan a \<and> \<not> ap_ready a' \<and> ap_stopped a'"
proof -
  obtain es where S: "app_Stop env a = (es, a')" using assms(1) by (auto simp: rollback_def split: prod.splits)
  from app_Stop_trace [OF S assms(2)] assms(3) show ?thesis by auto
qed

lemma new_application_fresh: "fresh_application new_application" "ap_trace new_application = []" "\<not> ap_stopped new_application"
  by (simp_all add: fresh_application_def new_application_def)

lemma stop_plan_stops: "ev \<in> set (stop_plan a) \<Longrightarrow> is_stop ev"
  by (auto simp: stop_plan_def)

lemma count_stop_plan: "count_list (stop_plan a) (EvStop c) = count_list (ap_stoppers a) c"
proof -
  have "count_list (map EvStop xs) (EvStop c) = count_list xs c" for xs by (induction xs) auto
  moreover have "count_list (map EvStopT xs) (EvStop c) = 0" for xs by (induction xs) auto
  ultimately show ?thesis by (simp add: stop_plan_def rev_map [symmetric])
qed


lemma count_list_distinct: "distinct xs \<Longrightarrow> count_list xs x = (if x \<in> set xs then 1 else 0)"
  by (induction xs) auto

lemma covered_distinct: "covered env cs a \<Longrightarrow> distinct (ap_stoppers a)"
  by (simp add: covered_def)

lemma failed_rollback:
  assumes "rollback env cause a1 = (errs, a)" "never_late env" "\<not> ap_stopped a1"
  shows "ap_trace a = ap_trace a1 @ stop_plan a1 \<and> \<not> ap_ready a"
  using rollback_trace [OF assms(1,3,2)] by simp

text \<open>The ways in which a start can fail.\<close>

lemma failed_start_cases:
  assumes "StartDefinition env g h (Some cs) failure = (Inl errs, a)" "never_late env" "distinct (gr_components g)"
  shows "ap_trace a = [] \<and> \<not> ap_ready a \<or>
    (\<exists>a1. ap_trace a1 = [] \<and> ap_trace a = stop_plan a1 \<and> \<not> ap_ready a) \<or>
    (\<exists>a1. covered env cs a1 \<and> ap_trace a = ap_trace a1 @ stop_plan a1 \<and> \<not> ap_ready a)"
proof -
  define v where "v = scanAssembly g (Some cs) (failure = None)"
  note R = addRollback_trace [of "sc_components v" new_application]
  show ?thesis
  proof (cases "\<not> gr_validated g \<or> \<not> h")
    case True
    then show ?thesis using assms(1) by (auto simp: StartDefinition_def new_application_def)
  next
    case False
    show ?thesis
    proof (cases "failure \<noteq> None \<or> sc_err v \<noteq> None")
      case True
      define a1 where "a1 = addRollback (sc_components v) new_application"
      have "\<exists>cause. rollback env cause a1 = (errs, a)"
      proof (cases failure)
        case None
        then have "scanAssembly g (Some cs) True = v" by (simp add: v_def)
        moreover obtain e where "sc_err v = Some e" using None True by blast
        ultimately show ?thesis using None False assms(1)
          by (intro exI [of _ "[e]"]) (auto simp: StartDefinition_def Let_def a1_def [symmetric] split: prod.splits)
      next
        case (Some e)
        then have "scanAssembly g (Some cs) False = v" by (simp add: v_def)
        then show ?thesis using Some False assms(1)
          by (auto simp: StartDefinition_def Let_def a1_def [symmetric] split: prod.splits)
      qed
      then obtain cause where "rollback env cause a1 = (errs, a)" by blast
      from failed_rollback [OF this assms(2)] R show ?thesis
        by (intro disjI2 disjI1 exI [of _ a1]) (simp add: a1_def new_application_fresh)
    next
      case ok: False
      then have f: "failure = None" and e: "sc_err (scanAssembly g (Some cs) True) = None" by (auto simp: v_def)
      note S = scanAssembly_ok [OF e refl]
      obtain r a1 where A: "startAssembly env cs (enabledTransports (sc_transports v)) new_application = (r, a1)"
        by (cases "startAssembly env cs (enabledTransports (sc_transports v)) new_application")
      have comps: "sc_components v = cs" using S f by (simp add: v_def)
      have "covered env cs a1"
        by (rule startAssembly_covers [OF A new_application_fresh(1)]) (use S assms(3) in simp)
      moreover have "\<exists>cause. rollback env cause a1 = (errs, a)"
      proof -
        have "scanAssembly g (Some cs) True = v" using f by (simp add: v_def)
        then show ?thesis using assms(1) False ok f A comps by (cases r) (auto simp: StartDefinition_def Let_def split: prod.splits)
      qed
      ultimately show ?thesis using failed_rollback [OF _ assms(2)] unfolding covered_def by blast
    qed
  qed
qed



lemma startAssembly_ready:
  assumes "startAssembly env cs ts a = (None, a')" "fresh_application a"
  shows "ap_ready a' \<and> \<not> ap_stopped a' \<and> ap_stoppers a' = map as_component (filter as_stopper cs) \<and> ap_transports a' = map tr_name ts \<and>
    ap_trace a' = map (\<lambda>c. EvInit (as_component c)) (filter as_initializer cs) @ map EvPrepareT (map tr_name ts) @
      map EvStart (map as_component (filter as_starter cs)) @ map EvStartT (map tr_name ts)"
proof -
  obtain r1 a1 where 1: "init_loop env cs a = (r1, a1)" by (cases "init_loop env cs a")
  then have r1: "r1 = None" using assms(1) by (cases r1) (simp_all add: startAssembly_def)
  note I = init_loop_result [OF 1]
  have all: "reached env cs = cs" by (rule reached_all) (use I r1 in blast)
  let ?b = "a1\<lparr>ap_transports := map tr_name ts\<rparr>"
  obtain r2 a2 where 2: "prepare_loop env (map tr_name ts) [] ?b = (r2, a2)" by (cases "prepare_loop env (map tr_name ts) [] ?b")
  then have r2: "r2 = None" using assms(1) 1 r1 by (cases r2) (simp_all add: startAssembly_def)
  note P = prepare_loop_result [OF 2]
  obtain r3 a3 where 3: "start_loop env cs a2 = (r3, a3)" by (cases "start_loop env cs a2")
  then have r3: "r3 = None" using assms(1) 1 2 r1 r2 by (cases r3) (simp_all add: startAssembly_def)
  note S = start_loop_result [OF 3]
  obtain r4 a4 where 4: "start_transports env (ap_transports a3) a3 = (r4, a4)" by (cases "start_transports env (ap_transports a3) a3")
  then have r4: "r4 = None" "a' = a4\<lparr>ap_ready := True\<rparr>" using assms(1) 1 2 3 r1 r2 r3
    by (cases "terminations env cs"; cases r4; simp add: startAssembly_def)+
  note R = start_transports_result [OF 4]
  have prepared: "takeWhile (\<lambda>t. te_prepare env t = None) (map tr_name ts) = map tr_name ts"
    unfolding takeWhile_eq_all_conv using P r2 by blast
  have t1: "ap_trace a1 = map (\<lambda>c. EvInit (as_component c)) (filter as_initializer cs)" "ap_stoppers a1 = map as_component (filter as_stopper cs)"
    using I r1 all assms(2) by (auto simp: fresh_application_def)
  have t2: "ap_trace a2 = ap_trace a1 @ map EvPrepareT (map tr_name ts)" "ap_transports a2 = map tr_name ts" "ap_stoppers a2 = ap_stoppers a1"
    using P r2 prepared by auto
  have t3: "ap_trace a3 = ap_trace a2 @ map EvStart (map as_component (filter as_starter cs))" "ap_transports a3 = ap_transports a2"
    "ap_stoppers a3 = ap_stoppers a2" using S r3 by auto
  have t4: "ap_trace a4 = ap_trace a3 @ map EvStartT (map tr_name ts)" "ap_transports a4 = ap_transports a3" "ap_stoppers a4 = ap_stoppers a3"
    using R r4(1) t2 t3 by auto
  have "\<not> ap_stopped a'" using I P S R r4 assms(2) by (simp add: fresh_application_def)
  then show ?thesis using t1 t2 t3 t4 r4 by simp
qed

text \<open>A start that succeeds runs the whole graph in its construction order: the assembly is the graph's,
  component for component and hook for hook; all components are initialised before any transport is
  prepared, all transports prepared before any component starts, and all components started before
  any transport; the transports have distinct names, and the application is ready. What the shutdown
  will stop is exactly that, in reverse.\<close>

theorem successful_start_in_order:
  assumes "StartDefinition env g h (Some cs) failure = (Inr a, a')"
    and ts: "ts = map tr_name (filter tr_enabled (List.map_filter as_transport cs))"
  shows "a' = a \<and> ap_ready a \<and> map as_component cs = gr_components g \<and> list_all2 hooks_fit (gr_lifecycles g) cs \<and> distinct ts \<and>
    ap_trace a = map EvInit (map as_component (filter as_initializer cs)) @ map EvPrepareT ts @
      map EvStart (map as_component (filter as_starter cs)) @ map EvStartT ts \<and>
    stop_plan a = map EvStopT (rev ts) @ map EvStop (rev (map as_component (filter as_stopper cs)))"
proof -
  have v: "gr_validated g" "h" "failure = None" "sc_err (scanAssembly g (Some cs) True) = None"
    using assms(1) by (auto simp: StartDefinition_def Let_def split: if_splits option.splits prod.splits)
  note S = scanAssembly_ok [OF v(4) refl]
  have start: "startAssembly env cs (filter tr_enabled (List.map_filter as_transport cs)) new_application = (None, a)" "a' = a"
    using assms(1) v S by (auto simp: StartDefinition_def Let_def enabledTransports_def split: option.splits prod.splits)
  have "distinct (map tr_name (List.map_filter as_transport cs))" using S by metis
  then have "distinct ts" unfolding ts by (rule distinct_map_filter)
  with startAssembly_ready [OF start(1) new_application_fresh(1)] start(2) S show ?thesis
    by (simp add: ts stop_plan_def comp_def)
qed


text \<open>Two components, one with a transport; in the second environment the transport fails to start.\<close>

definition sample_hooks :: "string \<Rightarrow> lifecycle" where
  "sample_hooks n = \<lparr>lc_component = sample_component n, lc_initializer = True, lc_provider = sample_provider PkComponent n,
     lc_starter = True, lc_stopper = True, lc_supervisor = False\<rparr>"

definition sample_assembled :: "string \<Rightarrow> transport option \<Rightarrow> assembled" where
  "sample_assembled n t = \<lparr>as_component = sample_component n, as_initializer = True, as_starter = True, as_stopper = True,
     as_supervisor = False, as_transport = t\<rparr>"

definition small_graph :: graph where
  "small_graph = \<lparr>gr_components = [sample_component ''A'', sample_component ''B''], gr_dependencies = [], gr_descriptors = [],
     gr_lifecycles = [sample_hooks ''A'', sample_hooks ''B''], gr_modules = [],
     gr_outbox = \<lparr>og_producers = [], og_consumers = [], og_publisher = None, og_adapter = None, og_worker = None, og_runtime = None\<rparr>,
     gr_providers = [], gr_routes = \<lparr>tb_controllers = [], tb_routes = []\<rparr>, gr_transports = [sample_component ''B''], gr_validated = True\<rparr>"

definition small_assembly :: "assembled list" where
  "small_assembly = [sample_assembled ''A'' None, sample_assembled ''B'' (Some \<lparr>tr_name = ''http'', tr_enabled = True\<rparr>)]"

definition busy_port :: app_env where
  "busy_port = calm\<lparr>te_start := (\<lambda>_. Some (core ''address in use''))\<rparr>"

lemma trim_http: "trim_space ''http'' = ''http''"
  by code_simp

lemma small_scan:
  "scanAssembly small_graph (Some small_assembly) True = \<lparr>sc_components = small_assembly,
     sc_transports = [\<lparr>tr_name = ''http'', tr_enabled = True\<rparr>], sc_prefixErr = None, sc_err = None, sc_transportIndex = 1\<rparr>"
  by (simp add: scanAssembly_def small_graph_def small_assembly_def sample_assembled_def sample_hooks_def sample_component_def
      scan_loop.simps validateHooks_def Let_def trim_http)

lemma small_graph_validated: "gr_validated small_graph"
  by (simp add: small_graph_def)

lemma small_start:
  "StartDefinition env small_graph True (Some small_assembly) None =
    (case startAssembly env small_assembly [\<lparr>tr_name = ''http'', tr_enabled = True\<rparr>] new_application of
       (Some e, a1) \<Rightarrow> (let (errs, a') = rollback env [e] a1 in (Inl errs, a'))
     | (None, a1) \<Rightarrow> (Inr a1, a1))"
  by (simp add: StartDefinition_def small_graph_validated small_scan enabledTransports_def)

lemmas small_hooks = small_assembly_def sample_assembled_def startAssembly_def calm_def busy_port_def rollback_def app_Stop_def
  Let_def new_application_def log_event_def addStopper_def


theorem successful_start_in_order_witness:
  "\<exists>a. StartDefinition calm small_graph True (Some small_assembly) None = (Inr a, a) \<and>
    ap_trace a = [EvInit (sample_component ''A''), EvInit (sample_component ''B''), EvPrepareT ''http'',
      EvStart (sample_component ''A''), EvStart (sample_component ''B''), EvStartT ''http'']"
proof -
  obtain a a' where s: "StartDefinition calm small_graph True (Some small_assembly) None = (Inr a, a')"
    by (simp add: small_start) (simp add: small_hooks)
  from successful_start_in_order [OF s refl] s show ?thesis
    by (intro exI [of _ a]) (simp add: small_assembly_def sample_assembled_def List.map_filter_simps)
qed

end
