(* ===== verification/Base_Tree.thy ===== *)
theory Base_Tree
  imports Auth_Perm "HOL-Library.Product_Lexorder"
begin

text \<open>
  The trees of the base module (\<open>modules/base/service/department.go\<close>, \<open>menu.go\<close>): departments and
  menus are rows that name their parent, and nothing in the database keeps such rows from forming
  a cycle. This theory holds the algorithms on these rows and shows that they end and what they
  compute, cycles included.
\<close>

section \<open>Parents and children\<close>

text \<open>The edges of a parent function; a node has at most one parent.\<close>

definition parent_edges :: "('a \<Rightarrow> 'a option) \<Rightarrow> ('a \<times> 'a) set" where
  "parent_edges par = {(p, x). par x = Some p}"

lemma parent_edges_iff [simp]: "(p, x) \<in> parent_edges par \<longleftrightarrow> par x = Some p"
  by (simp add: parent_edges_def)

lemma trancl_parent_edges: "(a, x) \<in> (parent_edges par)\<^sup>+ \<longleftrightarrow> (\<exists>p. par x = Some p \<and> (a = p \<or> (a, p) \<in> (parent_edges par)\<^sup>+))"
proof
  assume "(a, x) \<in> (parent_edges par)\<^sup>+"
  then show "\<exists>p. par x = Some p \<and> (a = p \<or> (a, p) \<in> (parent_edges par)\<^sup>+)"
    by (cases rule: trancl.cases) auto
qed (auto intro: trancl.intros)

text \<open>\<open>for parentID != nil { ... }\<close>: walking up from a node until a selected node or one seen before.\<close>

function ancestor_selected :: "('a::finite \<Rightarrow> 'a option) \<Rightarrow> 'a set \<Rightarrow> 'a set \<Rightarrow> 'a option \<Rightarrow> bool" where
  "ancestor_selected par selected seen None = False"
| "ancestor_selected par selected seen (Some p) =
    (if p \<in> selected then True else if p \<in> seen then False
     else ancestor_selected par selected (insert p seen) (par p))"
  by pat_completeness auto
termination
proof (relation "measure (\<lambda>(par, selected, seen, p). card (- seen))")
  fix par :: "'a \<Rightarrow> 'a option" and selected seen :: "'a set" and p
  assume "p \<notin> seen"
  then have "card (- insert p seen) < card (- seen)" by (intro psubset_card_mono) auto
  then show "((par, selected, insert p seen, par p), par, selected, seen, Some p) \<in>
      measure (\<lambda>(par, selected, seen, p). card (- seen))" by simp
qed simp

text \<open>The walk finds a selected node exactly if an ancestor is selected: what it saw before and did
  not select is closed under going up, so it cannot lead to one.\<close>

lemma ancestor_selected_iff:
  assumes "\<And>y z. y \<in> seen - selected \<Longrightarrow> par y = Some z \<Longrightarrow> z \<in> seen - selected \<or> p = Some z"
  shows "ancestor_selected par selected seen p \<longleftrightarrow> (\<exists>x. p = Some x \<and> (\<exists>a \<in> selected. (a, x) \<in> (parent_edges par)\<^sup>*))"
  using assms
proof (induction par selected seen p rule: ancestor_selected.induct)
  case (1 par selected seen)
  show ?case by simp
next
  case (2 par selected seen p)
  consider (sel) "p \<in> selected" | (old) "p \<notin> selected" "p \<in> seen" | (new) "p \<notin> selected" "p \<notin> seen" by blast
  then show ?case
  proof cases
    case sel
    then show ?thesis by auto
  next
    case old
    have "x \<in> seen - selected" if "(x, p) \<in> (parent_edges par)\<^sup>*" for x
      using that
    proof (induction rule: converse_rtrancl_induct)
      case base
      then show ?case using old by simp
    next
      case (step y z)
      then show ?case using 2(2) old by (metis DiffI option.inject parent_edges_iff)
    qed
    then show ?thesis using old by auto
  next
    case new
    have "ancestor_selected par selected (insert p seen) (par p) \<longleftrightarrow>
        (\<exists>x. par p = Some x \<and> (\<exists>a \<in> selected. (a, x) \<in> (parent_edges par)\<^sup>*))"
      by (rule 2(1) [OF new]) (use 2(2) new in auto)
    moreover have "(a, p) \<in> (parent_edges par)\<^sup>* \<longleftrightarrow> (\<exists>x. par p = Some x \<and> (a, x) \<in> (parent_edges par)\<^sup>*)"
      if "a \<in> selected" for a
      using new that by (metis parent_edges_iff rtrancl.cases rtrancl.rtrancl_into_rtrancl)
    ultimately show ?thesis using new by auto
  qed
qed

lemma ancestor_selected_root:
  assumes "r \<in> selected"
  shows "ancestor_selected par selected {r} (par r) \<longleftrightarrow> (\<exists>a \<in> selected. (a, r) \<in> (parent_edges par)\<^sup>+)"
proof -
  have "ancestor_selected par selected {r} (par r) \<longleftrightarrow>
      (\<exists>x. par r = Some x \<and> (\<exists>a \<in> selected. (a, x) \<in> (parent_edges par)\<^sup>*))"
    by (rule ancestor_selected_iff) (use assms in auto)
  also have "\<dots> \<longleftrightarrow> (\<exists>a \<in> selected. (a, r) \<in> (parent_edges par)\<^sup>+)"
    by (meson parent_edges_iff rtrancl_into_trancl1 tranclD2)
  finally show ?thesis .
qed

section \<open>Collecting a tree\<close>

text \<open>\<open>for i := 0; i < len(ids); i++ { ids = append(ids, children[ids[i]]...) }\<close>. On a cycle this loop
  would never end.\<close>

partial_function (option) collect :: "('a \<Rightarrow> 'a list) \<Rightarrow> nat \<Rightarrow> 'a list \<Rightarrow> 'a list option" where
  "collect children i ids =
    (if i < length ids then collect children (Suc i) (ids @ children (ids ! i)) else Some ids)"

declare collect.simps [code]

definition child_edges :: "('a \<Rightarrow> 'a list) \<Rightarrow> ('a \<times> 'a) set" where
  "child_edges children = {(p, x). x \<in> set (children p)}"

lemma child_edges_iff [simp]: "(p, x) \<in> child_edges children \<longleftrightarrow> x \<in> set (children p)"
  by (simp add: child_edges_def)

definition collecting :: "('a \<Rightarrow> 'a list) \<Rightarrow> 'a \<Rightarrow> nat \<Rightarrow> 'a list \<Rightarrow> bool" where
  "collecting children root i ids \<longleftrightarrow>
    i \<le> length ids \<and> distinct ids \<and> ids = root # concat (map children (take i ids)) \<and>
    set ids \<subseteq> {x. (root, x) \<in> (child_edges children)\<^sup>*}"

lemma collecting_step:
  assumes inv: "collecting children root i ids" and i: "i < length ids"
    and kids: "\<And>p. distinct (children p)" "\<And>p q x. x \<in> set (children p) \<Longrightarrow> x \<in> set (children q) \<Longrightarrow> p = q"
    and acyclic: "(root, root) \<notin> (child_edges children)\<^sup>+"
  shows "collecting children root (Suc i) (ids @ children (ids ! i))"
proof -
  let ?x = "ids ! i"
  have x: "?x \<in> set ids" "?x \<notin> set (take i ids)"
    using inv i by (auto simp: collecting_def in_set_conv_nth nth_eq_iff_index_eq)
  have reach: "(root, ?x) \<in> (child_edges children)\<^sup>*" using inv x by (auto simp: collecting_def)
  have ids: "ids = root # concat (map children (take i ids))" using inv by (simp add: collecting_def)
  have "set (children ?x) \<inter> set ids = {}"
  proof (rule ccontr)
    assume "set (children ?x) \<inter> set ids \<noteq> {}"
    then obtain y where y: "y \<in> set (children ?x)" "y \<in> set ids" by blast
    then have "y = root \<or> (\<exists>p \<in> set (take i ids). y \<in> set (children p))" by (subst (asm) ids) auto
    then show False
    proof
      assume "y = root"
      with y reach have "(root, root) \<in> (child_edges children)\<^sup>+" by (metis child_edges_iff rtrancl_into_trancl1)
      with acyclic show False ..
    next
      assume "\<exists>p \<in> set (take i ids). y \<in> set (children p)"
      with y x kids(2) show False by metis
    qed
  qed
  moreover have "take (Suc i) (ids @ children ?x) = take i ids @ [?x]" using i by (simp add: take_Suc_conv_app_nth)
  moreover have "set (children ?x) \<subseteq> {x. (root, x) \<in> (child_edges children)\<^sup>*}"
    using reach by (auto intro: rtrancl_into_rtrancl)
  ultimately show ?thesis using inv i kids(1) ids unfolding collecting_def by auto
qed

text \<open>Below a node that is not its own descendant the loop ends, with all descendants, each once.\<close>

lemma collect_ends:
  fixes children :: "'a::finite \<Rightarrow> 'a list"
  assumes kids: "\<And>p. distinct (children p)" "\<And>p q x. x \<in> set (children p) \<Longrightarrow> x \<in> set (children q) \<Longrightarrow> p = q"
    and acyclic: "(root, root) \<notin> (child_edges children)\<^sup>+"
  shows "\<exists>out. collect children 0 [root] = Some out \<and> distinct out \<and> set out = {x. (root, x) \<in> (child_edges children)\<^sup>*}"
proof -
  have "\<exists>out. collect children i ids = Some out \<and> distinct out \<and> set out = {x. (root, x) \<in> (child_edges children)\<^sup>*}"
    if "collecting children root i ids" for i ids
    using that
  proof (induction "CARD('a) - i" arbitrary: i ids rule: less_induct)
    case less
    show ?case
    proof (cases "i < length ids")
      case True
      have "length ids \<le> CARD('a)" using less.prems by (metis collecting_def card_mono distinct_card finite subset_UNIV)
      then have "CARD('a) - Suc i < CARD('a) - i" using True by simp
      from less.hyps [OF this collecting_step [OF less.prems True kids acyclic]] True
      show ?thesis by (subst collect.simps) simp
    next
      case False
      then have all: "take i ids = ids" by simp
      have "ids = root # concat (map children ids)" using less.prems unfolding collecting_def all by blast
      then have members: "set ids = insert root (\<Union>p \<in> set ids. set (children p))"
        by (metis list.simps(15) set_concat list.set_map image_image)
      then have closed: "root \<in> set ids" "x \<in> set ids \<Longrightarrow> y \<in> set (children x) \<Longrightarrow> y \<in> set ids" for x y
        by blast+
      have "x \<in> set ids" if "(root, x) \<in> (child_edges children)\<^sup>*" for x
        using that by induction (auto intro: closed)
      then show ?thesis using False less.prems by (subst collect.simps) (auto simp: collecting_def)
    qed
  qed
  moreover have "collecting children root 0 [root]" by (simp add: collecting_def)
  ultimately show ?thesis by blast
qed

end
