(* ===== verification/Base_Data.thy ===== *)
theory Base_Data
  imports Base_Tree
begin

text \<open>
  The tables of the base module and the rows that its services read: users, roles, menus,
  departments and the relations between them (\<open>modules/base/entity\<close> and the row types of
  \<open>modules/base/service\<close>), and the way a service works on them.

  A service runs in one transaction of the framework and locks what it decides on, so its
  statements see one state of the tables. A statement is named by a label; the environment says
  which statements the driver fails. When an operation ends with an error the transaction is
  rolled back, but not what it did to sessions and caches, which are outside the database.
  Time stamps of rows are left out, and so are the seed keys of departments and menus, which the
  controllers hide: the basic service refuses a client that submits one.
\<close>

section \<open>Rows\<close>

record department =
  dm_id :: u64
  dm_name :: string
  dm_userID :: "u64 option"
  dm_parentID :: "u64 option"
  dm_orderNum :: int

record menu =
  mn_id :: u64
  mn_parentID :: "u64 option"
  mn_name :: string
  mn_router :: "string option"
  mn_perms :: "string option"
  mn_type :: int
  mn_icon :: "string option"
  mn_orderNum :: int
  mn_viewPath :: "string option"
  mn_keepAlive :: bool
  mn_isShow :: bool

record role =
  ro_id :: u64
  ro_userID :: string
  ro_name :: string
  ro_label :: "string option"
  ro_remark :: "string option"
  ro_relevance :: bool
  ro_menuIDs :: "u64 list"
  ro_departmentIDs :: "u64 list"

text \<open>The columns of a user that no rule of the module reads (name, nickname, image, telephone,
  electronic mail, remark, socket) are a map by column name.\<close>

record user =
  us_id :: u64
  us_departmentID :: "u64 option"
  us_userID :: "u64 option"
  us_username :: string
  us_password :: string
  us_passwordV :: int
  us_status :: int
  us_profile :: "(string, string) gomap"

record perm_cache =
  pc_IsAdmin :: bool
  pc_Perms :: "string set"

text \<open>The relation tables hold pairs: user and role, role and menu, role and department.\<close>

record base_state =
  bs_users :: "user list"
  bs_roles :: "role list"
  bs_menus :: "menu list"
  bs_departments :: "department list"
  bs_userRoles :: "(u64 \<times> u64) list"
  bs_roleMenus :: "(u64 \<times> u64) list"
  bs_roleDepartments :: "(u64 \<times> u64) list"
  bs_sessions :: sessions
  bs_cache :: "(string, gotime \<times> perm_cache) gomap"

text \<open>What an operation meets: failing statements, the clock, the state of its context, the
  identifiers that the database hands out, and the password library.\<close>

record base_env =
  be_fail :: "string \<Rightarrow> go_error option"
  be_now :: gotime
  be_ctx :: context_state
  be_newID :: "base_state \<Rightarrow> u64"
  be_Hash :: "string \<Rightarrow> (go_error, string) result"
  be_Verify :: "string \<Rightarrow> string \<Rightarrow> (go_error, bool) result"

section \<open>Actions\<close>

type_synonym 'a act = "base_state \<Rightarrow> (go_error, 'a) result \<times> base_state"

definition returnA :: "'a \<Rightarrow> 'a act" where
  "returnA x s = (Inr x, s)"

definition failA :: "go_error \<Rightarrow> 'a act" where
  "failA e s = (Inl e, s)"

definition bindA :: "'a act \<Rightarrow> ('a \<Rightarrow> 'b act) \<Rightarrow> 'b act" where
  "bindA m k s = (case m s of (Inl e, s') \<Rightarrow> (Inl e, s') | (Inr x, s') \<Rightarrow> k x s')"

definition checkA :: "(go_error, 'a) result \<Rightarrow> 'a act" where
  "checkA r s = (r, s)"

fun eachA :: "('a \<Rightarrow> unit act) \<Rightarrow> 'a list \<Rightarrow> unit act" where
  "eachA f [] = returnA ()"
| "eachA f (x # xs) = bindA (f x) (\<lambda>_. eachA f xs)"

text \<open>A query, and a statement that changes the tables.\<close>

definition readA :: "base_env \<Rightarrow> string \<Rightarrow> (base_state \<Rightarrow> 'a) \<Rightarrow> 'a act" where
  "readA env label f s = (case be_fail env label of Some e \<Rightarrow> (Inl (wrap_core label e), s) | None \<Rightarrow> (Inr (f s), s))"

definition writeA :: "base_env \<Rightarrow> string \<Rightarrow> (base_state \<Rightarrow> base_state) \<Rightarrow> unit act" where
  "writeA env label f s = (case be_fail env label of Some e \<Rightarrow> (Inl (wrap_core label e), s) | None \<Rightarrow> (Inr (), f s))"

text \<open>\<open>Runner().Within\<close>: an error rolls the tables back.\<close>

definition withinTx :: "'a act \<Rightarrow> 'a act" where
  "withinTx m s = (case m s of
     (Inl e, s') \<Rightarrow> (Inl e, s\<lparr>bs_sessions := bs_sessions s', bs_cache := bs_cache s'\<rparr>)
   | (Inr x, s') \<Rightarrow> (Inr x, s'))"

text \<open>An error that is wrapped on its way.\<close>

definition wrapA :: "string \<Rightarrow> 'a act \<Rightarrow> 'a act" where
  "wrapA label m s = (case m s of (Inl e, s') \<Rightarrow> (Inl (wrap_core label e), s') | (Inr x, s') \<Rightarrow> (Inr x, s'))"

lemma wrapA_Inr_iff [simp]: "wrapA label m s = (Inr x, s') \<longleftrightarrow> m s = (Inr x, s')"
  by (auto simp: wrapA_def split: prod.splits sum.splits)

lemma bindA_Inr_iff: "bindA m k s = (Inr y, s'') \<longleftrightarrow> (\<exists>x s'. m s = (Inr x, s') \<and> k x s' = (Inr y, s''))"
  by (auto simp: bindA_def split: prod.splits sum.splits)

lemma returnA_iff [simp]: "returnA x s = (r, s') \<longleftrightarrow> r = Inr x \<and> s' = s"
  by (auto simp: returnA_def)

lemma failA_iff [simp]: "failA e s = (r, s') \<longleftrightarrow> r = Inl e \<and> s' = s"
  by (auto simp: failA_def)

lemma checkA_iff [simp]: "checkA r s = (r', s') \<longleftrightarrow> r = r' \<and> s' = s"
  by (auto simp: checkA_def)

lemma readA_Inr_iff [simp]: "readA env label f s = (Inr x, s') \<longleftrightarrow> be_fail env label = None \<and> x = f s \<and> s' = s"
  by (auto simp: readA_def split: option.splits)

lemma writeA_Inr_iff [simp]: "writeA env label f s = (Inr u, s') \<longleftrightarrow> be_fail env label = None \<and> s' = f s"
  by (auto simp: writeA_def split: option.splits)

lemma withinTx_Inr_iff [simp]: "withinTx m s = (Inr x, s') \<longleftrightarrow> m s = (Inr x, s')"
  by (auto simp: withinTx_def split: prod.splits sum.splits)

text \<open>The tables, without what lives outside the database.\<close>

definition tables :: "base_state \<Rightarrow> base_state" where
  "tables s = s\<lparr>bs_sessions := [], bs_cache := []\<rparr>"

lemma withinTx_Inl: "withinTx m s = (Inl e, s') \<Longrightarrow> tables s' = tables s \<and> (\<exists>s''. m s = (Inl e, s'') \<and> bs_sessions s' = bs_sessions s'')"
  by (auto simp: withinTx_def tables_def split: prod.splits sum.splits)

section \<open>Locking\<close>

text \<open>\<open>LockRows\<close>: the rows of the table that exist are locked and their identifiers returned in
  order.\<close>

definition table_ids :: "string \<Rightarrow> base_state \<Rightarrow> u64 list" where
  "table_ids table s =
    (if table = ''base_sys_user'' then map us_id (bs_users s)
     else if table = ''base_sys_role'' then map ro_id (bs_roles s)
     else if table = ''base_sys_menu'' then map mn_id (bs_menus s)
     else if table = ''base_sys_department'' then map dm_id (bs_departments s)
     else [])"

definition LockRows :: "base_env \<Rightarrow> base_state \<Rightarrow> string \<Rightarrow> u64 list \<Rightarrow> (go_error, u64 list) result" where
  "LockRows env s table ids =
    (case be_fail env (''lock '' @ table) of
       Some e \<Rightarrow> Inl (wrap_core ''lock failed'' e)
     | None \<Rightarrow> Inr (NormalizeIDs (filter (\<lambda>i. i \<in> set (NormalizeIDs ids)) (table_ids table s))))"

definition lockA :: "base_env \<Rightarrow> string \<Rightarrow> u64 list \<Rightarrow> string \<Rightarrow> unit act" where
  "lockA env table ids message s = (LockTable (LockRows env s) table ids message, s)"

lemma lockA_Inr_iff: "lockA env table ids message s = (Inr u, s') \<longleftrightarrow>
    s' = s \<and> (set ids - {0} = {} \<or> be_fail env (''lock '' @ table) = None \<and> set ids - {0} \<subseteq> set (table_ids table s))"
proof -
  have empty: "NormalizeIDs ids = [] \<longleftrightarrow> set ids - {0} = {}" by (metis set_NormalizeIDs set_empty)
  have "NormalizeIDs ids = NormalizeIDs (filter (\<lambda>i. i \<in> set (NormalizeIDs ids)) (table_ids table s)) \<longleftrightarrow>
      set ids - {0} \<subseteq> set (table_ids table s)"
    unfolding NormalizeIDs_eq_iff by auto
  then show ?thesis
    by (auto simp: lockA_def LockTable_def LockRows_def Let_def empty split: option.splits)
qed

section \<open>The basic service\<close>

text \<open>
  \<open>gnservice.Base\<close>: an input is one object or an array. A field that was not submitted is \<open>None\<close>, a
  submitted null \<open>Some None\<close> where the column may be null. The primary key of a new row comes
  from the database, which refuses a zero or a used one.
\<close>

datatype 'a add_input = AddOne 'a | AddMany "'a list"
datatype 'a update_input = UpdateOne u64 'a | UpdateMany "(u64 \<times> 'a) list"

fun add_values :: "'a add_input \<Rightarrow> 'a list" where
  "add_values (AddOne x) = [x]"
| "add_values (AddMany xs) = xs"

fun update_items :: "'a update_input \<Rightarrow> (u64 \<times> 'a) list" where
  "update_items (UpdateOne i x) = [(i, x)]"
| "update_items (UpdateMany xs) = xs"

text \<open>The unique indexes of users and roles (\<open>UserSchema\<close>, \<open>RoleSchema\<close>); a label that is null
  conflicts with none.\<close>

definition unique_indexes :: "base_state \<Rightarrow> bool" where
  "unique_indexes s \<longleftrightarrow> distinct (map us_username (bs_users s)) \<and> distinct (map ro_name (bs_roles s)) \<and>
     distinct (List.map_filter ro_label (bs_roles s))"

text \<open>\<open>put i s\<close> is \<open>None\<close> if a column without a default was not submitted.\<close>

definition insertA :: "base_env \<Rightarrow> string \<Rightarrow> string \<Rightarrow> (u64 \<Rightarrow> base_state \<Rightarrow> base_state option) \<Rightarrow> u64 act" where
  "insertA env label table put =
    bindA (readA env label (\<lambda>s. be_newID env s)) (\<lambda>i s.
      if i = 0 \<or> i \<in> set (table_ids table s) then (Inl (core label), s)
      else (case put i s of
          None \<Rightarrow> (Inl (core label), s)
        | Some s' \<Rightarrow> if unique_indexes s' then (Inr i, s') else (Inl (core label), s)))"

fun base_Add_loop :: "base_env \<Rightarrow> string \<Rightarrow> ('a \<Rightarrow> u64 \<Rightarrow> base_state \<Rightarrow> base_state option) \<Rightarrow> 'a list \<Rightarrow> u64 list act" where
  "base_Add_loop env table put [] = returnA []"
| "base_Add_loop env table put (x # xs) =
    bindA (insertA env ''insert entity'' table (put x)) (\<lambda>i.
    bindA (base_Add_loop env table put xs) (\<lambda>is. returnA (i # is)))"

definition base_Add :: "base_env \<Rightarrow> string \<Rightarrow> ('a \<Rightarrow> u64 \<Rightarrow> base_state \<Rightarrow> base_state option) \<Rightarrow> 'a add_input \<Rightarrow> u64 list act" where
  "base_Add env table put inp =
    (if add_values inp = [] then failA (exc_Validate ''add input invalid'' None) else base_Add_loop env table put (add_values inp))"

definition storeA :: "base_env \<Rightarrow> string \<Rightarrow> (base_state \<Rightarrow> base_state) \<Rightarrow> unit act" where
  "storeA env label f s =
    (case be_fail env label of
       Some e \<Rightarrow> (Inl (wrap_core label e), s)
     | None \<Rightarrow> if unique_indexes (f s) then (Inr (), f s) else (Inl (core label), s))"

lemma storeA_Inr_iff [simp]: "storeA env label f s = (Inr u, s') \<longleftrightarrow>
    be_fail env label = None \<and> unique_indexes (f s) \<and> s' = f s"
  by (auto simp: storeA_def split: option.splits)

text \<open>\<open>count\<close> is the number of columns an item writes; none is an error.\<close>

definition base_Update ::
  "base_env \<Rightarrow> ('a \<Rightarrow> nat) \<Rightarrow> (u64 \<Rightarrow> 'a \<Rightarrow> base_state \<Rightarrow> base_state) \<Rightarrow> 'a update_input \<Rightarrow> unit act" where
  "base_Update env count put inp =
    (if update_items inp = [] then failA (exc_Validate ''update input invalid'' None)
     else eachA (\<lambda>(i, x). if count x = 0 then failA (exc_Validate ''update empty'' None)
       else storeA env ''update entity'' (put i x)) (update_items inp))"

definition base_Delete :: "base_env \<Rightarrow> (u64 list \<Rightarrow> base_state \<Rightarrow> base_state) \<Rightarrow> u64 list \<Rightarrow> unit act" where
  "base_Delete env remove ids =
    (if ids = [] then failA (exc_Validate ''delete ids empty'' None) else writeA env ''delete entity'' (remove ids))"

text \<open>\<open>NewDeleteInput\<close> keeps the first occurrence of each identifier.\<close>

definition NewDeleteInput :: "u64 list \<Rightarrow> (go_error, u64 list) result" where
  "NewDeleteInput ids = (if ids = [] then Inl (exc_Validate ''delete ids empty'' None) else Inr (rev (remdups (rev ids))))"

definition present :: "'a option \<Rightarrow> nat" where
  "present x = (if x = None then 0 else 1)"

definition submitted :: "'a option \<Rightarrow> 'a \<Rightarrow> 'a" where
  "submitted x old = (case x of None \<Rightarrow> old | Some v \<Rightarrow> v)"

lemma submitted_simps [simp]: "submitted None old = old" "submitted (Some v) old = v"
  by (simp_all add: submitted_def)

section \<open>Revoking sessions\<close>

definition revokeA :: "base_env \<Rightarrow> u64 list \<Rightarrow> unit act" where
  "revokeA env userIDs s =
    (case boundary_RevokeUsers (be_now env) (memory_store (be_ctx env)) AdminKind userIDs (bs_sessions s) of
       (r, st) \<Rightarrow> (r, s\<lparr>bs_sessions := st\<rparr>))"

definition lockAndRevokeA :: "base_env \<Rightarrow> u64 list \<Rightarrow> unit act" where
  "lockAndRevokeA env userIDs s =
    (case LockUsersAndRevoke (be_now env) (LockRows env s) (memory_store (be_ctx env)) ''base_sys_user'' userIDs AdminKind
        ''lock users failed'' (bs_sessions s) of
       (r, st) \<Rightarrow> (r, s\<lparr>bs_sessions := st\<rparr>))"

end
