(* ===== verification/Base_Permission.thy ===== *)
theory Base_Permission
  imports Base_Data
begin

text \<open>
  The permission service (\<open>modules/base/service/permission.go\<close>): which roles a user has, what they
  permit, how grants are replaced, that the last administrator is protected, and the decision on a
  request behind a cache.
\<close>

section \<open>Roles of users\<close>

definition adminRoleLabel :: string where "adminRoleLabel = ''admin''"
definition permCachePrefix :: string where "permCachePrefix = ''permission:''"
definition permCacheTTL :: duration where "permCacheTTL = secs 30"

record user_roles =
  ur_IDs :: "u64 list"
  ur_Names :: "string list"

text \<open>The join of the relation with the roles, ordered by user and role.\<close>

definition joined_roles :: "base_state \<Rightarrow> u64 \<Rightarrow> (u64 \<times> string) list" where
  "joined_roles s u =
    concat (map (\<lambda>i. map (\<lambda>r. (i, ro_name r)) (filter (\<lambda>r. ro_id r = i) (bs_roles s)))
      (sort (map snd (filter (\<lambda>(u', i). u' = u) (bs_userRoles s)))))"

definition perm_roles :: "base_env \<Rightarrow> u64 list \<Rightarrow> (u64, user_roles) gomap act" where
  "perm_roles env userIDs =
    (let ids = NormalizeIDs userIDs in
     if ids = [] then returnA []
     else readA env ''query user roles''
       (\<lambda>s. map (\<lambda>u. (u, \<lparr>ur_IDs = map fst (joined_roles s u), ur_Names = map snd (joined_roles s u)\<rparr>)) ids))"

definition RoleIDs :: "base_env \<Rightarrow> u64 \<Rightarrow> u64 list act" where
  "RoleIDs env userID =
    (if userID = 0 then failA (core ''role query invalid'')
     else bindA (perm_roles env [userID]) (\<lambda>roles.
       returnA (case map_of roles userID of None \<Rightarrow> [] | Some r \<Rightarrow> ur_IDs r)))"

definition roleSnap :: "base_env \<Rightarrow> u64 list \<Rightarrow> (u64, u64 list) gomap act" where
  "roleSnap env userIDs = bindA (perm_roles env userIDs) (\<lambda>roles. returnA (map (\<lambda>(u, r). (u, ur_IDs r)) roles))"

definition checkSnap :: "(u64, u64 list) gomap \<Rightarrow> (u64, u64 list) gomap \<Rightarrow> (go_error, unit) result" where
  "checkSnap before after =
    (if length before \<noteq> length after then Inl (comm ''user roles changed'')
     else eachE (\<lambda>(u, ids). guardE (NormalizeIDs ids = NormalizeIDs (case map_of after u of None \<Rightarrow> [] | Some ids' \<Rightarrow> ids'))
       (comm ''user roles changed'')) before)"

definition is_admin_role :: "role \<Rightarrow> bool" where
  "is_admin_role r \<longleftrightarrow> ro_label r = Some adminRoleLabel"

definition adminRoles :: "base_env \<Rightarrow> u64 list act" where
  "adminRoles env = readA env ''query admin roles'' (\<lambda>s. sort (map ro_id (filter is_admin_role (bs_roles s))))"

definition perm_IsAdmin :: "base_env \<Rightarrow> u64 list \<Rightarrow> bool act" where
  "perm_IsAdmin env roleIDs =
    (if roleIDs = [] then returnA False
     else readA env ''query role labels'' (\<lambda>s. list_ex (\<lambda>r. ro_id r \<in> set roleIDs \<and> is_admin_role r) (bs_roles s)))"

section \<open>Changing the roles of users\<close>

definition lockRoles :: "base_env \<Rightarrow> u64 list \<Rightarrow> unit act" where
  "lockRoles env ids = lockA env ''base_sys_role'' ids ''lock roles failed''"

definition lockUsers :: "base_env \<Rightarrow> u64 list \<Rightarrow> unit act" where
  "lockUsers env ids = lockA env ''base_sys_user'' ids ''lock users failed''"

definition prepRoles :: "base_env \<Rightarrow> u64 list \<Rightarrow> u64 list \<Rightarrow> (u64, u64 list) gomap act" where
  "prepRoles env userIDs nextRoleIDs =
    (let users = NormalizeIDs userIDs; nxt = NormalizeIDs nextRoleIDs in
     bindA (adminRoles env) (\<lambda>admins.
     bindA (lockRoles env admins) (\<lambda>_.
     bindA (roleSnap env users) (\<lambda>before.
     bindA (lockRoles env (filter (\<lambda>i. i \<notin> set admins) (NormalizeIDs (nxt @ concat (map snd before))))) (\<lambda>_.
     returnA before)))))"

definition setRoles :: "base_env \<Rightarrow> u64 \<Rightarrow> u64 list \<Rightarrow> unit act" where
  "setRoles env userID roleIDs =
    (if userID = 0 then failA (core ''role replacement invalid'')
     else bindA (writeA env ''delete user roles'' (\<lambda>s. s\<lparr>bs_userRoles := filter (\<lambda>(u, i). u \<noteq> userID) (bs_userRoles s)\<rparr>)) (\<lambda>_.
       let ids = NormalizeIDs roleIDs in
       if ids = [] then returnA ()
       else writeA env ''insert user roles'' (\<lambda>s. s\<lparr>bs_userRoles := bs_userRoles s @ map (\<lambda>i. (userID, i)) ids\<rparr>)))"

definition delRoles :: "base_env \<Rightarrow> u64 list \<Rightarrow> unit act" where
  "delRoles env userIDs =
    (let ids = NormalizeIDs userIDs in
     if ids = [] then returnA ()
     else writeA env ''delete user roles'' (\<lambda>s. s\<lparr>bs_userRoles := filter (\<lambda>(u, i). u \<notin> set ids) (bs_userRoles s)\<rparr>))"

section \<open>The last administrator\<close>

definition keepAdmin :: "base_env \<Rightarrow> u64 list \<Rightarrow> unit act" where
  "keepAdmin env userIDs =
    (let ids = NormalizeIDs userIDs in
     if ids = [] then returnA ()
     else
       bindA (readA env ''query admin status'' (\<lambda>s. map us_id (filter (\<lambda>u. us_id u \<in> set ids \<and> us_status u = 1) (bs_users s)))) (\<lambda>enabled.
       bindA (roleSnap env enabled) (\<lambda>roles.
       bindA (perm_IsAdmin env (concat (map snd roles))) (\<lambda>isAdmin.
       if \<not> isAdmin then returnA ()
       else
         bindA (adminRoles env) (\<lambda>admins.
         bindA (readA env ''query admin relations''
           (\<lambda>s. NormalizeIDs (map fst (filter (\<lambda>(u, i). i \<in> set admins \<and> u \<notin> set ids) (bs_userRoles s))))) (\<lambda>remainingIDs.
         if remainingIDs = [] then failA (comm ''last administrator'')
         else
           bindA (readA env ''query admins'' (\<lambda>s. list_ex (\<lambda>u. us_id u \<in> set remainingIDs \<and> us_status u = 1) (bs_users s))) (\<lambda>remaining.
           if remaining then returnA () else failA (comm ''last administrator'')))))))
    )"

definition checkAdmin :: "base_env \<Rightarrow> u64 \<Rightarrow> int \<Rightarrow> int \<Rightarrow> u64 list \<Rightarrow> u64 list \<Rightarrow> unit act" where
  "checkAdmin env userID currentStatus nextStatus currentRoleIDs nextRoleIDs =
    (if currentStatus \<noteq> 1 then returnA ()
     else
       bindA (perm_IsAdmin env currentRoleIDs) (\<lambda>wasAdmin.
       if \<not> wasAdmin then returnA ()
       else if nextStatus = 1 then
         bindA (perm_IsAdmin env nextRoleIDs) (\<lambda>staysAdmin. if staysAdmin then returnA () else keepAdmin env [userID])
       else keepAdmin env [userID]))"

text \<open>Revoking sessions, and forgetting cached permissions.\<close>

definition perm_revoke :: "base_env \<Rightarrow> u64 list \<Rightarrow> unit act" where
  "perm_revoke env userIDs =
    bindA (revokeA env userIDs) (\<lambda>_. writeA env ''clear permission cache'' (\<lambda>s. s\<lparr>bs_cache := []\<rparr>))"

section \<open>Deciding a request\<close>

text \<open>The permissions that a menu carries: a list separated by commas.\<close>

definition menu_permissions :: "menu \<Rightarrow> string list" where
  "menu_permissions m =
    (case mn_perms m of None \<Rightarrow> [] | Some p \<Rightarrow> filter (\<lambda>q. q \<noteq> []) (map trim_space (split_on CHR '','' p)))"

definition perm_permissions :: "base_env \<Rightarrow> u64 list \<Rightarrow> bool \<Rightarrow> string set act" where
  "perm_permissions env roleIDs isAdmin =
    (if roleIDs = [] then returnA {}
     else
       bindA (if isAdmin then returnA [] else
         readA env ''query role menus'' (\<lambda>s. map snd (filter (\<lambda>(i, m). i \<in> set roleIDs) (bs_roleMenus s)))) (\<lambda>menuIDs.
       if \<not> isAdmin \<and> menuIDs = [] then returnA {}
       else readA env ''query menu permissions''
         (\<lambda>s. set (concat (map menu_permissions (filter (\<lambda>m. isAdmin \<or> mn_id m \<in> set menuIDs) (bs_menus s)))))))"

definition loadPerm :: "base_env \<Rightarrow> u64 list \<Rightarrow> perm_cache act" where
  "loadPerm env roleIDs =
    bindA (perm_IsAdmin env roleIDs) (\<lambda>isAdmin.
    if isAdmin then returnA \<lparr>pc_IsAdmin = True, pc_Perms = {}\<rparr>
    else bindA (perm_permissions env roleIDs False) (\<lambda>ps. returnA \<lparr>pc_IsAdmin = False, pc_Perms = ps\<rparr>))"

definition permKey :: "auth_context option \<Rightarrow> u64 list \<Rightarrow> string" where
  "permKey ctx roleIDs =
    (let roleKey = join '','' (map (\<lambda>i. format_uint (unat i)) (NormalizeIDs roleIDs)) in
     case auth_Session ctx of
       Some state \<Rightarrow> if ss_ID state \<noteq> [] then permCachePrefix @ ''session:'' @ ss_ID state @ '':roles:'' @ roleKey
         else permCachePrefix @ ''roles:'' @ roleKey
     | None \<Rightarrow> permCachePrefix @ ''roles:'' @ roleKey)"

text \<open>\<open>GetOrSetFuncLock\<close>: a value that has not expired is returned, otherwise it is computed and kept.\<close>

definition permSnapshot :: "base_env \<Rightarrow> auth_context option \<Rightarrow> u64 list \<Rightarrow> perm_cache act" where
  "permSnapshot env ctx roleIDs s =
    (let key = permKey ctx roleIDs in
     case map_of (bs_cache s) key of
       Some (expires, entry) \<Rightarrow>
         if be_now env < expires then (Inr entry, s)
         else bindA (wrapA ''read permission cache'' (loadPerm env roleIDs)) (\<lambda>entry s. (Inr entry, s\<lparr>bs_cache := mput key (be_now env + permCacheTTL, entry) (bs_cache s)\<rparr>)) s
     | None \<Rightarrow> bindA (wrapA ''read permission cache'' (loadPerm env roleIDs)) (\<lambda>entry s. (Inr entry, s\<lparr>bs_cache := mput key (be_now env + permCacheTTL, entry) (bs_cache s)\<rparr>)) s)"

definition identity_roles :: "admin_identity \<Rightarrow> u64 list" where
  "identity_roles i = (case ai_roleIDs i of None \<Rightarrow> [] | Some ids \<Rightarrow> ids)"

definition authRoles :: "base_env \<Rightarrow> auth_context option \<Rightarrow> u64 \<Rightarrow> u64 list act" where
  "authRoles env ctx userID =
    (case auth_Session ctx of
       Some state \<Rightarrow>
         bindA (checkA (auth_Admin ctx)) (\<lambda>identity.
         if ss_Subject state \<noteq> AdminKind \<or> ai_UserID identity \<noteq> userID then failA (core ''identity mismatch'')
         else returnA (identity_roles identity))
     | None \<Rightarrow> RoleIDs env userID)"

definition perm_Authorize :: "base_env \<Rightarrow> auth_context option \<Rightarrow> authorization \<Rightarrow> bool act" where
  "perm_Authorize env ctx req =
    (if az_Subject req \<noteq> AdminKind then returnA False
     else if az_SubjectID req = 0 \<or> trim_space (az_Permission req) = [] then failA (core ''permission request invalid'')
     else
       bindA (authRoles env ctx (az_SubjectID req)) (\<lambda>roleIDs.
       if roleIDs = [] then returnA False
       else
         bindA (permSnapshot env ctx roleIDs) (\<lambda>entry.
         returnA (pc_IsAdmin entry \<or> trim_space (az_Permission req) \<in> pc_Perms entry))))"

text \<open>\<open>visibleMenus\<close> and \<open>PermissionMenu\<close>: the menus of a role, and all menus for an administrator, each
  once, in their order.\<close>

definition visibleMenus :: "base_env \<Rightarrow> u64 list \<Rightarrow> bool \<Rightarrow> menu list act" where
  "visibleMenus env roleIDs isAdmin =
    (if \<not> isAdmin \<and> roleIDs = [] then returnA []
     else readA env ''query menus''
       (\<lambda>s. sort_key (\<lambda>m. (mn_orderNum m, mn_id m))
          (filter (\<lambda>m. isAdmin \<or> (\<exists>(i, k) \<in> set (bs_roleMenus s). k = mn_id m \<and> i \<in> set roleIDs)) (bs_menus s))))"

definition PermissionMenu :: "base_env \<Rightarrow> auth_context option \<Rightarrow> (string set \<times> menu list) act" where
  "PermissionMenu env ctx =
    bindA (checkA (auth_Admin ctx)) (\<lambda>identity.
    bindA (perm_IsAdmin env (identity_roles identity)) (\<lambda>isAdmin.
    bindA (visibleMenus env (identity_roles identity) isAdmin) (\<lambda>rows.
    returnA (set (concat (map menu_permissions rows)), rows))))"

end
