(* ===== verification/Base_Department.thy ===== *)
theory Base_Department
  imports Base_Permission
begin

text \<open>
  The department tree and its users (\<open>modules/base/service/department.go\<close>).
\<close>

record department_input =
  di_name :: "string option"
  di_userId :: "u64 option option"
  di_parentId :: "u64 option option"
  di_orderNum :: "int option"

record dept_tree =
  dt_RootID :: u64
  dt_ParentID :: "u64 option"
  dt_IDs :: "u64 list"

record dept_order =
  do_ID :: u64
  do_ParentID :: "u64 option"
  do_OrderNum :: int

section \<open>Trees to delete\<close>

text \<open>\<open>parents[x]\<close> of the Go map filled from the rows; a missing key reads as nil.\<close>

definition row_parent :: "(u64 \<times> u64 option) list \<Rightarrow> u64 \<Rightarrow> u64 option" where
  "row_parent rows x = (case map_of (rev rows) x of None \<Rightarrow> None | Some p \<Rightarrow> p)"

definition dept_parent :: "department list \<Rightarrow> u64 \<Rightarrow> u64 option" where
  "dept_parent rows = row_parent (map (\<lambda>r. (dm_id r, dm_parentID r)) rows)"

definition dept_children :: "department list \<Rightarrow> u64 \<Rightarrow> u64 list" where
  "dept_children rows p = map dm_id (filter (\<lambda>r. dm_parentID r = Some p) rows)"

definition effective_roots :: "department list \<Rightarrow> u64 list \<Rightarrow> u64 list" where
  "effective_roots rows roots = filter (\<lambda>r. \<not> ancestor_selected (dept_parent rows) (set roots) {r} (dept_parent rows r)) roots"

text \<open>\<open>None\<close>: the collection of some tree does not end.\<close>

definition buildDeptTrees :: "department list \<Rightarrow> u64 list \<Rightarrow> dept_tree list option" where
  "buildDeptTrees rows roots =
    those (map (\<lambda>r. map_option (\<lambda>ids. \<lparr>dt_RootID = r, dt_ParentID = dept_parent rows r, dt_IDs = NormalizeIDs ids\<rparr>)
      (collect (dept_children rows) 0 [r])) (effective_roots rows roots))"

section \<open>Operations\<close>

definition new_department :: "u64 \<Rightarrow> department" where
  "new_department i = \<lparr>dm_id = i, dm_name = [], dm_userID = None, dm_parentID = None, dm_orderNum = 0\<rparr>"

definition department_write :: "department_input \<Rightarrow> department \<Rightarrow> department" where
  "department_write v d = d\<lparr>dm_name := submitted (di_name v) (dm_name d), dm_userID := submitted (di_userId v) (dm_userID d),
     dm_parentID := submitted (di_parentId v) (dm_parentID d), dm_orderNum := submitted (di_orderNum v) (dm_orderNum d)\<rparr>"

definition department_count :: "department_input \<Rightarrow> nat" where
  "department_count v = present (di_name v) + present (di_userId v) + present (di_parentId v) + present (di_orderNum v)"

definition put_department :: "department_input \<Rightarrow> u64 \<Rightarrow> base_state \<Rightarrow> base_state option" where
  "put_department v i s =
    (if di_name v = None then None
     else Some (s\<lparr>bs_departments := bs_departments s @ [department_write v (new_department i)]\<rparr>))"

definition update_department :: "u64 \<Rightarrow> department_input \<Rightarrow> base_state \<Rightarrow> base_state" where
  "update_department i v s = s\<lparr>bs_departments := map (\<lambda>d. if dm_id d = i then department_write v d else d) (bs_departments s)\<rparr>"

definition remove_departments :: "u64 list \<Rightarrow> base_state \<Rightarrow> base_state" where
  "remove_departments ids s = s\<lparr>bs_departments := filter (\<lambda>d. dm_id d \<notin> set ids) (bs_departments s)\<rparr>"

definition lockDepts :: "base_env \<Rightarrow> u64 list \<Rightarrow> unit act" where
  "lockDepts env ids = lockA env ''base_sys_department'' ids ''lock departments failed''"

definition submitted_parents :: "u64 option option list \<Rightarrow> u64 list" where
  "submitted_parents vs = List.map_filter (\<lambda>v. case v of None \<Rightarrow> None | Some p \<Rightarrow> p) vs"

definition department_Add :: "base_env \<Rightarrow> department_input add_input \<Rightarrow> u64 list act" where
  "department_Add env inp =
    bindA (lockDepts env (submitted_parents (map di_parentId (add_values inp)))) (\<lambda>_.
      base_Add env ''base_sys_department'' put_department inp)"

definition department_Update :: "base_env \<Rightarrow> department_input update_input \<Rightarrow> unit act" where
  "department_Update env inp =
    bindA (lockDepts env (map fst (update_items inp) @ submitted_parents (map (di_parentId \<circ> snd) (update_items inp)))) (\<lambda>_.
      base_Update env department_count update_department inp)"

definition department_Order :: "base_env \<Rightarrow> dept_order list \<Rightarrow> unit act" where
  "department_Order env req =
    (if req = [] then failA (exc_Validate ''order invalid'' None)
     else
       bindA (lockDepts env (map do_ID req @ submitted_parents (map (Some \<circ> do_ParentID) req))) (\<lambda>_.
         eachA (\<lambda>r. writeA env ''update order'' (\<lambda>s. s\<lparr>bs_departments := map (\<lambda>d. if dm_id d = do_ID r
           then d\<lparr>dm_parentID := do_ParentID r, dm_orderNum := do_OrderNum r\<rparr> else d) (bs_departments s)\<rparr>)) req))"

definition lockTrees :: "base_env \<Rightarrow> u64 list \<Rightarrow> dept_tree list option act" where
  "lockTrees env roots =
    bindA (readA env ''query departments'' bs_departments) (\<lambda>rows.
    bindA (lockDepts env (map dm_id rows)) (\<lambda>_.
    bindA (readA env ''query locked departments'' (\<lambda>s. sort_key dm_id (bs_departments s))) (\<lambda>locked.
    if \<not> set roots \<subseteq> set (map dm_id locked) then failA (exc_Validate ''department missing'' None)
    else returnA (buildDeptTrees locked roots))))"

definition dept_userIDs :: "base_env \<Rightarrow> u64 list \<Rightarrow> u64 list act" where
  "dept_userIDs env deptIDs =
    readA env ''query department users'' (\<lambda>s. NormalizeIDs (map us_id
      (filter (\<lambda>u. case us_departmentID u of None \<Rightarrow> False | Some d \<Rightarrow> d \<in> set deptIDs) (bs_users s))))"

definition dept_deptIDs :: "base_env \<Rightarrow> u64 list \<Rightarrow> u64 list act" where
  "dept_deptIDs env roleIDs =
    (if roleIDs = [] then returnA []
     else readA env ''query role departments'' (\<lambda>s. NormalizeIDs (map snd (filter (\<lambda>(r, d). r \<in> set roleIDs) (bs_roleDepartments s)))))"

definition remove_users :: "u64 list \<Rightarrow> base_state \<Rightarrow> base_state" where
  "remove_users ids s = s\<lparr>bs_users := filter (\<lambda>u. us_id u \<notin> set ids) (bs_users s)\<rparr>"

definition move_users :: "u64 list \<Rightarrow> u64 option \<Rightarrow> base_state \<Rightarrow> base_state" where
  "move_users deptIDs parent s = s\<lparr>bs_users := map (\<lambda>u. case us_departmentID u of None \<Rightarrow> u
     | Some d \<Rightarrow> if d \<in> set deptIDs then u\<lparr>us_departmentID := parent\<rparr> else u) (bs_users s)\<rparr>"

text \<open>Deleting with \<open>trees\<close>, the users deleted with them or moved to the parent of their tree.\<close>

definition delete_trees :: "base_env \<Rightarrow> bool \<Rightarrow> dept_tree list \<Rightarrow> unit act" where
  "delete_trees env deleteUser trees =
    (let allIDs = NormalizeIDs (concat (map dt_IDs trees)) in
     bindA (dept_userIDs env allIDs) (\<lambda>userIDs.
     bindA (if userIDs = [] then returnA () else
         bindA (lockUsers env userIDs) (\<lambda>_.
         bindA (if deleteUser then keepAdmin env userIDs else returnA ()) (\<lambda>_.
         perm_revoke env userIDs))) (\<lambda>_.
     bindA (if userIDs = [] then returnA ()
         else if deleteUser then
           bindA (delRoles env userIDs) (\<lambda>_. writeA env ''delete department users'' (remove_users userIDs))
         else eachA (\<lambda>t. writeA env ''move department users'' (move_users (dt_IDs t) (dt_ParentID t))) trees) (\<lambda>_.
     bindA (writeA env ''delete department roles''
         (\<lambda>s. s\<lparr>bs_roleDepartments := filter (\<lambda>(r, d). d \<notin> set allIDs) (bs_roleDepartments s)\<rparr>)) (\<lambda>_.
     bindA (checkA (NewDeleteInput allIDs)) (\<lambda>ids. base_Delete env remove_departments ids))))))"

text \<open>\<open>None\<close>: the call does not return.\<close>

definition department_Delete :: "base_env \<Rightarrow> u64 list \<Rightarrow> bool \<Rightarrow> base_state \<Rightarrow> ((go_error, unit) result \<times> base_state) option" where
  "department_Delete env reqIDs deleteUser s =
    (let ids = NormalizeIDs reqIDs in
     if ids = [] then Some (Inl (exc_Validate ''department ids empty'' None), s)
     else
       (case bindA (if deleteUser then bindA (adminRoles env) (lockRoles env) else returnA ()) (\<lambda>_. lockTrees env ids) s of
          (Inl e, s') \<Rightarrow> Some (withinTx (\<lambda>_. (Inl e, s')) s)
        | (Inr None, s') \<Rightarrow> None
        | (Inr (Some trees), s') \<Rightarrow> Some (withinTx (\<lambda>_. delete_trees env deleteUser trees s') s)))"

definition department_VisibleIDs :: "base_env \<Rightarrow> u64 \<Rightarrow> u64 list \<Rightarrow> u64 list act" where
  "department_VisibleIDs env userID roleIDs =
    bindA (perm_IsAdmin env roleIDs) (\<lambda>isAdmin.
    if isAdmin then returnA []
    else
      bindA (dept_deptIDs env roleIDs) (\<lambda>ids.
      readA env ''query visible departments''
        (\<lambda>s. NormalizeIDs (map dm_id (filter (\<lambda>d. dm_id d \<in> set ids \<or> dm_userID d = Some userID) (bs_departments s))))))"

definition department_List :: "base_env \<Rightarrow> auth_context option \<Rightarrow> department list act" where
  "department_List env ctx =
    bindA (checkA (auth_Admin ctx)) (\<lambda>identity.
    bindA (perm_IsAdmin env (identity_roles identity)) (\<lambda>isAdmin.
    bindA (if isAdmin then returnA [] else dept_deptIDs env (identity_roles identity)) (\<lambda>ids.
    readA env ''query departments''
      (\<lambda>s. sort_key (\<lambda>d. (dm_orderNum d, dm_id d))
        (filter (\<lambda>d. isAdmin \<or> dm_id d \<in> set ids \<or> dm_userID d = Some (ai_UserID identity)) (bs_departments s))))))"

section \<open>What deleting trees computes\<close>

lemma row_parent_iff:
  assumes "distinct (map fst rows)"
  shows "row_parent rows x = Some p \<longleftrightarrow> (x, Some p) \<in> set rows"
proof -
  have "distinct (map fst (rev rows))" using assms by (simp add: rev_map [symmetric])
  then have "map_of (rev rows) x = Some (Some p) \<longleftrightarrow> (x, Some p) \<in> set rows" by (simp add: map_of_eq_Some_iff)
  moreover have "row_parent rows x = Some p \<longleftrightarrow> map_of (rev rows) x = Some (Some p)"
    by (cases "map_of (rev rows) x") (simp_all add: row_parent_def)
  ultimately show ?thesis by simp
qed

lemma dept_children_iff: "x \<in> set (dept_children rows p) \<longleftrightarrow> (x, Some p) \<in> set (map (\<lambda>r. (dm_id r, dm_parentID r)) rows)"
  by (force simp: dept_children_def)

lemma dept_parent_iff:
  assumes "distinct (map dm_id rows)"
  shows "dept_parent rows x = Some p \<longleftrightarrow> x \<in> set (dept_children rows p)"
proof -
  have "distinct (map fst (map (\<lambda>r. (dm_id r, dm_parentID r)) rows))" using assms by (simp add: comp_def)
  then show ?thesis unfolding dept_parent_def dept_children_iff by (rule row_parent_iff)
qed

lemma dept_edges: "distinct (map dm_id rows) \<Longrightarrow> child_edges (dept_children rows) = parent_edges (dept_parent rows)"
  by (auto simp: dept_parent_iff)

text \<open>Below a department, itself included.\<close>

definition subtree :: "department list \<Rightarrow> u64 \<Rightarrow> u64 set" where
  "subtree rows r = {x. (r, x) \<in> (parent_edges (dept_parent rows))\<^sup>*}"

definition below_selected :: "department list \<Rightarrow> u64 list \<Rightarrow> u64 \<Rightarrow> bool" where
  "below_selected rows roots r \<longleftrightarrow> (\<exists>a \<in> set roots. (a, r) \<in> (parent_edges (dept_parent rows))\<^sup>+)"

lemma effective_roots_eq: "effective_roots rows roots = filter (\<lambda>r. \<not> below_selected rows roots r) roots"
  unfolding effective_roots_def below_selected_def by (rule filter_cong) (simp_all add: ancestor_selected_root)

lemma collect_dept:
  assumes d: "distinct (map dm_id rows)" and r: "r \<in> set (effective_roots rows roots)"
  shows "\<exists>out. collect (dept_children rows) 0 [r] = Some out \<and> distinct out \<and> set out = subtree rows r"
  unfolding subtree_def dept_edges [OF d, symmetric]
proof (rule collect_ends)
  show "distinct (dept_children rows p)" for p
    using d by (auto simp: dept_children_def intro: distinct_map_filter)
  show "p = q" if "x \<in> set (dept_children rows p)" "x \<in> set (dept_children rows q)" for p q x
    using that unfolding dept_parent_iff [OF d, symmetric] by simp
  show "(r, r) \<notin> (child_edges (dept_children rows))\<^sup>+"
    using r unfolding dept_edges [OF d] effective_roots_eq below_selected_def by auto
qed

lemma those_map_Some: "(\<And>x. x \<in> set xs \<Longrightarrow> f x = Some (g x)) \<Longrightarrow> those (map f xs) = Some (map g xs)"
  by (induction xs) auto

text \<open>C27: Deleting departments always gets its trees, whatever the rows say. The loop that collects a tree
  would run for ever on a cycle of parents, but it is only entered below selected departments
  that have no selected ancestor, and those lie on no cycle. The trees are those departments
  with everything below them.\<close>

theorem department_trees_terminate:
  assumes "distinct (map dm_id rows)"
  shows "\<exists>trees. buildDeptTrees rows roots = Some trees \<and>
    map dt_RootID trees = filter (\<lambda>r. \<not> below_selected rows roots r) roots \<and>
    (\<forall>t \<in> set trees. set (dt_IDs t) = subtree rows (dt_RootID t) - {0} \<and> sorted (dt_IDs t) \<and> distinct (dt_IDs t) \<and>
      dt_ParentID t = dept_parent rows (dt_RootID t))"
proof -
  let ?out = "\<lambda>r. the (collect (dept_children rows) 0 [r])"
  let ?t = "\<lambda>r. \<lparr>dt_RootID = r, dt_ParentID = dept_parent rows r, dt_IDs = NormalizeIDs (?out r)\<rparr>"
  have out: "\<exists>out. collect (dept_children rows) 0 [r] = Some out \<and> set out = subtree rows r"
    if "r \<in> set (effective_roots rows roots)" for r
    using collect_dept [OF assms that] by blast
  have trees: "buildDeptTrees rows roots = Some (map ?t (effective_roots rows roots))"
    unfolding buildDeptTrees_def by (rule those_map_Some) (use out in fastforce)
  have roots: "map dt_RootID (map ?t (effective_roots rows roots)) = filter (\<lambda>r. \<not> below_selected rows roots r) roots"
    by (simp add: effective_roots_eq comp_def)
  have "set (?out r) = subtree rows r" if "r \<in> set (effective_roots rows roots)" for r
    using out [OF that] by fastforce
  then have "\<forall>t \<in> set (map ?t (effective_roots rows roots)). set (dt_IDs t) = subtree rows (dt_RootID t) - {0} \<and>
      sorted (dt_IDs t) \<and> distinct (dt_IDs t) \<and> dt_ParentID t = dept_parent rows (dt_RootID t)"
    by (simp add: NormalizeIDs_sorted)
  with trees roots show ?thesis by blast
qed

definition some_departments :: "department list" where
  "some_departments = [(new_department 1)\<lparr>dm_parentID := Some 2\<rparr>, (new_department 2)\<lparr>dm_parentID := Some 1\<rparr>,
     new_department 3, (new_department 4)\<lparr>dm_parentID := Some 3\<rparr>]"

theorem department_trees_terminate_witness:
  "\<exists>trees. buildDeptTrees some_departments [1, 3] = Some trees"
proof -
  have "distinct (map dm_id some_departments)" by (simp add: some_departments_def new_department_def)
  from department_trees_terminate [OF this] show ?thesis by blast
qed

text \<open>Different trees share nothing.\<close>

lemma trees_disjoint:
  assumes "r1 \<in> set (effective_roots rows roots)" "r2 \<in> set (effective_roots rows roots)" "r1 \<noteq> r2"
  shows "subtree rows r1 \<inter> subtree rows r2 = {}"
proof (rule ccontr)
  let ?E = "parent_edges (dept_parent rows)"
  have single: "single_valued (?E\<inverse>)" by (auto simp: single_valued_def)
  assume "subtree rows r1 \<inter> subtree rows r2 \<noteq> {}"
  then obtain x where "(x, r1) \<in> (?E\<inverse>)\<^sup>*" "(x, r2) \<in> (?E\<inverse>)\<^sup>*" by (auto simp: subtree_def rtrancl_converse)
  with single have "(r1, r2) \<in> (?E\<inverse>)\<^sup>* \<or> (r2, r1) \<in> (?E\<inverse>)\<^sup>*" by (rule single_valued_confluent)
  then have "(r1, r2) \<in> ?E\<^sup>+ \<or> (r2, r1) \<in> ?E\<^sup>+" using assms(3) by (auto simp: rtrancl_converse rtrancl_eq_or_trancl)
  with assms(1,2) show False by (auto simp: effective_roots_eq below_selected_def)
qed

end
