(* ===== verification/Base_User.thy ===== *)
theory Base_User
  imports Base_Department
begin

text \<open>
  Users of the administration (\<open>modules/base/service/user.go\<close>): their roles, departments and
  passwords, and the sessions that a change revokes.
\<close>

section \<open>Input\<close>

text \<open>What a client submits for a user. \<open>ui_profile\<close> holds the submitted columns that no rule reads.
  \<open>ui_ignored\<close>: a column that only the server writes (a time stamp, the password version or the
  socket) was submitted, which the basic service skips.\<close>

record user_input =
  ui_departmentId :: "u64 option option"
  ui_userId :: "u64 option option"
  ui_username :: "string option"
  ui_password :: "string option"
  ui_status :: "int option"
  ui_profile :: "(string, string option) gomap"
  ui_roleIdList :: "u64 list option option"
  ui_ignored :: bool

record person_input =
  pi_profile :: "(string, string) gomap"
  pi_OldPassword :: "string option"
  pi_Password :: "string option"

fun write_profile :: "(string, string option) gomap \<Rightarrow> (string, string) gomap \<Rightarrow> (string, string) gomap" where
  "write_profile [] p = p"
| "write_profile ((c, None) # cs) p = write_profile cs (mdel c p)"
| "write_profile ((c, Some v) # cs) p = write_profile cs (mput c v p)"

text \<open>The version is the one that the server sets with a new password.\<close>

definition user_write :: "user_input \<times> int option \<Rightarrow> user \<Rightarrow> user" where
  "user_write w u = (case w of (v, version) \<Rightarrow>
    u\<lparr>us_departmentID := submitted (ui_departmentId v) (us_departmentID u), us_userID := submitted (ui_userId v) (us_userID u),
      us_username := submitted (ui_username v) (us_username u), us_password := submitted (ui_password v) (us_password u),
      us_passwordV := submitted version (us_passwordV u), us_status := submitted (ui_status v) (us_status u),
      us_profile := write_profile (ui_profile v) (us_profile u)\<rparr>)"

definition user_count :: "user_input \<times> int option \<Rightarrow> nat" where
  "user_count w = (case w of (v, version) \<Rightarrow>
    present (ui_departmentId v) + present (ui_userId v) + present (ui_username v) + present (ui_password v) +
    present (ui_status v) + present version + length (ui_profile v))"

definition new_user :: "u64 \<Rightarrow> user" where
  "new_user i = \<lparr>us_id = i, us_departmentID = None, us_userID = None, us_username = [], us_password = [],
     us_passwordV = 1, us_status = 1, us_profile = []\<rparr>"

definition put_user :: "user_input \<Rightarrow> u64 \<Rightarrow> base_state \<Rightarrow> base_state option" where
  "put_user v i s =
    (if ui_username v = None \<or> ui_password v = None then None
     else Some (s\<lparr>bs_users := bs_users s @ [user_write (v, None) (new_user i)]\<rparr>))"

definition update_user :: "u64 \<Rightarrow> user_input \<times> int option \<Rightarrow> base_state \<Rightarrow> base_state" where
  "update_user i w s = s\<lparr>bs_users := map (\<lambda>u. if us_id u = i then user_write w u else u) (bs_users s)\<rparr>"

definition roleIDs :: "user_input \<Rightarrow> u64 list \<times> bool" where
  "roleIDs v = (case ui_roleIdList v of
     None \<Rightarrow> ([], False) | Some None \<Rightarrow> ([], True) | Some (Some ids) \<Rightarrow> (NormalizeIDs ids, True))"

definition userDeptIDs :: "user_input \<Rightarrow> u64 list" where
  "userDeptIDs v = (case ui_departmentId v of
     None \<Rightarrow> [] | Some None \<Rightarrow> [] | Some (Some d) \<Rightarrow> if d = 0 then [] else [d])"

section \<open>Passwords\<close>

definition hashPassword :: "base_env \<Rightarrow> user_input \<Rightarrow> (go_error, user_input) result" where
  "hashPassword env v =
    (case ui_password v of
       None \<Rightarrow> Inl (exc_Validate ''password empty'' None)
     | Some p \<Rightarrow>
         if trim_space p = [] then Inl (exc_Validate ''password empty'' None)
         else (case be_Hash env p of Inl e \<Rightarrow> Inl e | Inr hash \<Rightarrow> Inr (v\<lparr>ui_password := Some hash\<rparr>)))"

text \<open>The version is an \<open>int32\<close>: it wraps around.\<close>

definition next_version :: "int \<Rightarrow> int" where
  "next_version v = signed_take_bit 31 (v + 1)"

definition updatePassword :: "base_env \<Rightarrow> user_input \<Rightarrow> int \<Rightarrow> (go_error, user_input \<times> int option) result" where
  "updatePassword env v version =
    (case ui_password v of
       None \<Rightarrow> Inr (v, None)
     | Some plain \<Rightarrow>
         if trim_space plain = [] then Inr (v\<lparr>ui_password := None\<rparr>, None)
         else (case be_Hash env plain of Inl e \<Rightarrow> Inl e
           | Inr hash \<Rightarrow> Inr (v\<lparr>ui_password := Some hash\<rparr>, Some (next_version version))))"

section \<open>Operations\<close>

definition userByID :: "base_env \<Rightarrow> u64 \<Rightarrow> user option act" where
  "userByID env userID = readA env ''query user'' (\<lambda>s. find (\<lambda>u. us_id u = userID) (bs_users s))"

definition user_Add :: "base_env \<Rightarrow> user_input add_input \<Rightarrow> u64 list act" where
  "user_Add env inp =
    (case inp of
       AddMany vs \<Rightarrow> failA (exc_Validate ''one user only'' None)
     | AddOne v \<Rightarrow>
         let roles = fst (roleIDs v); hasRoles = snd (roleIDs v) in
         if \<not> hasRoles \<or> roles = [] then failA (exc_Validate ''role required'' None)
         else
           bindA (checkA (hashPassword env v)) (\<lambda>v'.
           bindA (lockRoles env roles) (\<lambda>_.
           bindA (lockDepts env (userDeptIDs v)) (\<lambda>_.
           bindA (base_Add env ''base_sys_user'' put_user (AddOne v')) (\<lambda>ids.
           bindA (setRoles env (hd ids) roles) (\<lambda>_. returnA ids))))))"

text \<open>After the locks: the checks against the row, then the writes.\<close>

definition user_write_locked :: "base_env \<Rightarrow> u64 \<Rightarrow> user_input \<Rightarrow> u64 list \<Rightarrow> user \<Rightarrow> unit act" where
  "user_write_locked env i v oldRoles row =
    (let roles = fst (roleIDs v); hasRoles = snd (roleIDs v);
         authChanged = (ui_status v \<noteq> None \<or> hasRoles);
         newRoles = (if hasRoles then roles else oldRoles);
         nextStatus = submitted (ui_status v) (us_status row)
     in
       bindA (if authChanged then checkAdmin env i (us_status row) nextStatus oldRoles newRoles else returnA ()) (\<lambda>_.
       bindA (checkA (updatePassword env v (us_passwordV row))) (\<lambda>(v', version).
       bindA (if user_count (v', version) > 0 \<or> ui_ignored v'
         then base_Update env user_count update_user (UpdateOne i (v', version)) else returnA ()) (\<lambda>_.
       bindA (if hasRoles then setRoles env i roles else returnA ()) (\<lambda>_.
       if ui_password v' \<noteq> None \<or> ui_status v' \<noteq> None \<or> hasRoles then perm_revoke env [i] else returnA ())))))"

definition user_Update :: "base_env \<Rightarrow> user_input update_input \<Rightarrow> unit act" where
  "user_Update env inp =
    (case inp of
       UpdateMany items \<Rightarrow> failA (exc_Validate ''one user only'' None)
     | UpdateOne i v \<Rightarrow>
         let roles = fst (roleIDs v); authChanged = (ui_status v \<noteq> None \<or> snd (roleIDs v)) in
         bindA (if authChanged then prepRoles env [i] roles else returnA []) (\<lambda>before.
         bindA (lockDepts env (userDeptIDs v)) (\<lambda>_.
         bindA (lockUsers env [i]) (\<lambda>_.
         bindA (if authChanged then bindA (roleSnap env [i]) (\<lambda>after. checkA (checkSnap before after)) else returnA ()) (\<lambda>_.
         bindA (userByID env i) (\<lambda>row.
         (case row of None \<Rightarrow> returnA ()
          | Some r \<Rightarrow> user_write_locked env i v (case map_of before i of None \<Rightarrow> [] | Some ids \<Rightarrow> ids) r)))))))"

definition user_Delete :: "base_env \<Rightarrow> u64 list \<Rightarrow> unit act" where
  "user_Delete env inputIDs =
    (let ids = NormalizeIDs inputIDs in
     if ids = [] then failA (exc_Validate ''user ids empty'' None)
     else
       bindA (prepRoles env ids []) (\<lambda>before.
       bindA (lockUsers env ids) (\<lambda>_.
       bindA (roleSnap env ids) (\<lambda>after.
       bindA (checkA (checkSnap before after)) (\<lambda>_.
       bindA (keepAdmin env ids) (\<lambda>_.
       bindA (delRoles env ids) (\<lambda>_.
       bindA (base_Delete env remove_users inputIDs) (\<lambda>_.
       perm_revoke env ids))))))))"

definition user_Move :: "base_env \<Rightarrow> u64 \<Rightarrow> u64 list \<Rightarrow> unit act" where
  "user_Move env departmentID reqIDs =
    (let userIDs = NormalizeIDs reqIDs in
     if departmentID = 0 \<or> userIDs = [] then failA (exc_Validate ''move invalid'' None)
     else
       bindA (lockDepts env [departmentID]) (\<lambda>_.
       bindA (lockUsers env userIDs) (\<lambda>_.
       bindA (writeA env ''move users'' (\<lambda>s. s\<lparr>bs_users := map (\<lambda>u. if us_id u \<in> set userIDs
         then u\<lparr>us_departmentID := Some departmentID\<rparr> else u) (bs_users s)\<rparr>)) (\<lambda>_.
       perm_revoke env userIDs))))"

text \<open>The password of the person, once the old one is verified; the columns to write.\<close>

definition personPassword :: "base_env \<Rightarrow> person_input \<Rightarrow> user \<Rightarrow> (go_error, (string \<times> int) option) result" where
  "personPassword env req row =
    (case pi_Password req of
       None \<Rightarrow> Inr None
     | Some p \<Rightarrow>
         if trim_space p = [] then Inr None
         else (case pi_OldPassword req of
             None \<Rightarrow> Inl (comm ''old password empty'')
           | Some old \<Rightarrow>
               if trim_space old = [] then Inl (comm ''old password empty'')
               else (case be_Verify env old (us_password row) of
                   Inl e \<Rightarrow> Inl e
                 | Inr valid \<Rightarrow>
                     if \<not> valid then Inl (comm ''old password wrong'')
                     else (case be_Hash env p of Inl e \<Rightarrow> Inl e
                       | Inr hash \<Rightarrow> Inr (Some (hash, next_version (us_passwordV row)))))))"

definition write_person :: "u64 \<Rightarrow> person_input \<Rightarrow> (string \<times> int) option \<Rightarrow> base_state \<Rightarrow> base_state" where
  "write_person i req password s = s\<lparr>bs_users := map (\<lambda>u. if us_id u \<noteq> i then u
     else (case password of
         None \<Rightarrow> u\<lparr>us_profile := write_profile (map (\<lambda>(c, v). (c, Some v)) (pi_profile req)) (us_profile u)\<rparr>
       | Some (hash, version) \<Rightarrow>
           u\<lparr>us_profile := write_profile (map (\<lambda>(c, v). (c, Some v)) (pi_profile req)) (us_profile u),
             us_password := hash, us_passwordV := version\<rparr>)) (bs_users s)\<rparr>"

definition user_PersonUpdate :: "base_env \<Rightarrow> auth_context option \<Rightarrow> person_input \<Rightarrow> unit act" where
  "user_PersonUpdate env ctx req =
    bindA (checkA (auth_Admin ctx)) (\<lambda>identity.
    bindA (lockUsers env [ai_UserID identity]) (\<lambda>_.
    bindA (userByID env (ai_UserID identity)) (\<lambda>found.
    (case found of
       None \<Rightarrow> returnA ()
     | Some row \<Rightarrow>
         bindA (checkA (personPassword env req row)) (\<lambda>password.
         if pi_profile req = [] \<and> password = None then returnA ()
         else
           bindA (writeA env ''update person'' (write_person (ai_UserID identity) req password)) (\<lambda>_.
           if password \<noteq> None then perm_revoke env [ai_UserID identity] else returnA ()))))))"

section \<open>Reading\<close>

text \<open>The users that an administrator may page through, before the query's own conditions.\<close>

definition user_scope :: "base_env \<Rightarrow> auth_context option \<Rightarrow> user list act" where
  "user_scope env ctx =
    bindA (checkA (auth_Admin ctx)) (\<lambda>identity.
    bindA (perm_IsAdmin env (identity_roles identity)) (\<lambda>isAdmin.
    bindA (if isAdmin then returnA [] else dept_deptIDs env (identity_roles identity)) (\<lambda>deptIDs.
    readA env ''query users''
      (\<lambda>s. filter (\<lambda>u. us_username u \<noteq> ''admin'' \<and>
        (isAdmin \<or> us_userID u = Some (ai_UserID identity) \<or>
         (case us_departmentID u of None \<Rightarrow> False | Some d \<Rightarrow> d \<in> set deptIDs))) (bs_users s)))))"

definition user_pageRoles :: "base_env \<Rightarrow> user list \<Rightarrow> (user \<times> user_roles) list act" where
  "user_pageRoles env rows =
    bindA (perm_roles env (map us_id rows)) (\<lambda>roles.
      returnA (map (\<lambda>u. (u, case map_of roles (us_id u) of None \<Rightarrow> \<lparr>ur_IDs = [], ur_Names = []\<rparr> | Some r \<Rightarrow> r)) rows))"

end
