(* ===== verification/Base_Menu.thy ===== *)
theory Base_Menu
  imports Base_User
begin

text \<open>
  The menu tree (\<open>modules/base/service/menu.go\<close>): changing parents without cycles, deleting whole
  trees, exporting and importing them.
\<close>

section \<open>Input\<close>

record menu_input =
  mi_parentId :: "u64 option option"
  mi_name :: "string option"
  mi_router :: "string option option"
  mi_perms :: "string option option"
  mi_type :: "int option"
  mi_icon :: "string option option"
  mi_orderNum :: "int option"
  mi_viewPath :: "string option option"
  mi_keepAlive :: "bool option"
  mi_isShow :: "bool option"

definition menu_write :: "menu_input \<Rightarrow> menu \<Rightarrow> menu" where
  "menu_write v m = m\<lparr>mn_parentID := submitted (mi_parentId v) (mn_parentID m), mn_name := submitted (mi_name v) (mn_name m),
     mn_router := submitted (mi_router v) (mn_router m), mn_perms := submitted (mi_perms v) (mn_perms m),
     mn_type := submitted (mi_type v) (mn_type m), mn_icon := submitted (mi_icon v) (mn_icon m),
     mn_orderNum := submitted (mi_orderNum v) (mn_orderNum m), mn_viewPath := submitted (mi_viewPath v) (mn_viewPath m),
     mn_keepAlive := submitted (mi_keepAlive v) (mn_keepAlive m), mn_isShow := submitted (mi_isShow v) (mn_isShow m)\<rparr>"

definition menu_count :: "menu_input \<Rightarrow> nat" where
  "menu_count v = present (mi_parentId v) + present (mi_name v) + present (mi_router v) + present (mi_perms v) +
     present (mi_type v) + present (mi_icon v) + present (mi_orderNum v) + present (mi_viewPath v) +
     present (mi_keepAlive v) + present (mi_isShow v)"

definition new_menu :: "u64 \<Rightarrow> menu" where
  "new_menu i = \<lparr>mn_id = i, mn_parentID = None, mn_name = [], mn_router = None, mn_perms = None, mn_type = 0, mn_icon = None,
     mn_orderNum = 0, mn_viewPath = None, mn_keepAlive = True, mn_isShow = True\<rparr>"

definition put_menu :: "menu_input \<Rightarrow> u64 \<Rightarrow> base_state \<Rightarrow> base_state option" where
  "put_menu v i s =
    (if mi_name v = None then None else Some (s\<lparr>bs_menus := bs_menus s @ [menu_write v (new_menu i)]\<rparr>))"

definition update_menu :: "u64 \<Rightarrow> menu_input \<Rightarrow> base_state \<Rightarrow> base_state" where
  "update_menu i v s = s\<lparr>bs_menus := map (\<lambda>m. if mn_id m = i then menu_write v m else m) (bs_menus s)\<rparr>"

definition remove_menus :: "u64 list \<Rightarrow> base_state \<Rightarrow> base_state" where
  "remove_menus ids s = s\<lparr>bs_menus := filter (\<lambda>m. mn_id m \<notin> set ids) (bs_menus s)\<rparr>"

definition lockMenus :: "base_env \<Rightarrow> u64 list \<Rightarrow> unit act" where
  "lockMenus env ids = lockA env ''base_sys_menu'' ids ''lock menus failed''"

text \<open>The users whose roles carry one of the menus.\<close>

definition menu_userIDs :: "base_env \<Rightarrow> u64 list \<Rightarrow> u64 list act" where
  "menu_userIDs env menuIDs =
    (if menuIDs = [] then returnA []
     else readA env ''query menu users''
       (\<lambda>s. NormalizeIDs (map fst (filter (\<lambda>(u, r). list_ex (\<lambda>(r', m). r' = r \<and> m \<in> set menuIDs) (bs_roleMenus s)) (bs_userRoles s)))))"

section \<open>Parents without cycles\<close>

text \<open>\<open>parents[x]\<close>, where a missing menu, null and 0 are all the top level.\<close>

definition up :: "(u64, u64 option) gomap \<Rightarrow> u64 \<Rightarrow> u64 option" where
  "up parents x = (case map_of parents x of Some (Some p) \<Rightarrow> if p = 0 then None else Some p | _ \<Rightarrow> None)"

definition menu_parents :: "menu list \<Rightarrow> (u64, u64 option) gomap" where
  "menu_parents rows = map (\<lambda>m. (mn_id m, mn_parentID m)) rows"

text \<open>The first loop of \<open>checkParents\<close>. Go ranges over the changes in any order, here they come in the
  order of the list; this only decides which of several errors is reported.\<close>

fun change_parents :: "(u64, u64 option) gomap \<Rightarrow> (u64, u64 option) gomap \<Rightarrow> (go_error, (u64, u64 option) gomap) result" where
  "change_parents parents [] = Inr parents"
| "change_parents parents ((i, p) # changes) =
    (if map_of parents i = None then Inl (exc_Validate ''menu missing'' None)
     else if (case p of None \<Rightarrow> False | Some q \<Rightarrow> q \<noteq> 0 \<and> map_of parents q = None) then Inl (exc_Validate ''menu parent missing'' None)
     else change_parents (mput i p parents) changes)"

text \<open>Climbing from a menu: false if a menu is met again.\<close>

function climbs :: "('a::finite \<Rightarrow> 'a option) \<Rightarrow> 'a set \<Rightarrow> 'a \<Rightarrow> bool" where
  "climbs par seen x =
    (if x \<in> seen then False
     else (case par x of None \<Rightarrow> True | Some p \<Rightarrow> climbs par (insert x seen) p))"
  by pat_completeness auto
termination
proof (relation "measure (\<lambda>(par, seen, x). card (- seen))")
  fix par :: "'a \<Rightarrow> 'a option" and seen :: "'a set" and x p
  assume "x \<notin> seen"
  then have "card (- insert x seen) < card (- seen)" by (intro psubset_card_mono) auto
  then show "((par, insert x seen, p), par, seen, x) \<in> measure (\<lambda>(par, seen, x). card (- seen))" by simp
qed simp

definition checkParents :: "base_env \<Rightarrow> (u64, u64 option) gomap \<Rightarrow> unit act" where
  "checkParents env changes =
    (if changes = [] then returnA ()
     else
       bindA (readA env ''query menus'' (\<lambda>s. sort_key mn_id (bs_menus s))) (\<lambda>rows.
       bindA (checkA (change_parents (menu_parents rows) changes)) (\<lambda>parents.
       if list_all (\<lambda>(i, p). climbs (up parents) {} i) changes then returnA ()
       else failA (exc_Validate ''menu cycle'' None))))"

section \<open>Adding and updating\<close>

text \<open>The parents that are locked: neither null nor 0.\<close>

definition real_parents :: "menu_input list \<Rightarrow> u64 list" where
  "real_parents vs = filter (\<lambda>p. p \<noteq> 0) (submitted_parents (map mi_parentId vs))"

definition menu_Add :: "base_env \<Rightarrow> menu_input add_input \<Rightarrow> u64 list act" where
  "menu_Add env inp = withinTx (
    bindA (lockMenus env (real_parents (add_values inp))) (\<lambda>_.
      base_Add env ''base_sys_menu'' put_menu inp))"

fun parent_changes :: "(u64 \<times> menu_input) list \<Rightarrow> (u64, u64 option) gomap \<Rightarrow> (u64, u64 option) gomap" where
  "parent_changes [] parents = parents"
| "parent_changes ((i, v) # items) parents =
    parent_changes items (case mi_parentId v of None \<Rightarrow> parents | Some p \<Rightarrow> mput i p parents)"

definition menu_Update :: "base_env \<Rightarrow> menu_input update_input \<Rightarrow> unit act" where
  "menu_Update env inp =
    (let items = update_items inp; parents = parent_changes items [];
         locks = map fst items @ real_parents (map snd items)
     in withinTx (
       bindA (if parents = [] then returnA [] else readA env ''query menus'' (\<lambda>s. sort (map mn_id (bs_menus s)))) (\<lambda>all.
       bindA (lockMenus env (locks @ all)) (\<lambda>_.
       bindA (checkParents env parents) (\<lambda>_.
       bindA (menu_userIDs env (NormalizeIDs (map fst items))) (\<lambda>users.
       bindA (lockAndRevokeA env users) (\<lambda>_.
       base_Update env menu_count update_menu inp)))))))"

section \<open>Deleting trees\<close>

text \<open>The loop of \<open>lockTree\<close>: the children of one level that were not seen are locked, read again and
  become the next level.\<close>

definition level_candidates :: "menu list \<Rightarrow> u64 list \<Rightarrow> u64 list \<Rightarrow> u64 list" where
  "level_candidates rows seen level =
    NormalizeIDs (filter (\<lambda>i. i \<notin> set seen) (sort (map mn_id (filter (\<lambda>m. case mn_parentID m of None \<Rightarrow> False | Some p \<Rightarrow> p \<in> set level) rows))))"

definition next_level :: "menu list \<Rightarrow> u64 list \<Rightarrow> u64 list \<Rightarrow> u64 list" where
  "next_level rows candidates level =
    sort (map mn_id (filter (\<lambda>m. mn_id m \<in> set candidates \<and>
      (case mn_parentID m of None \<Rightarrow> False | Some p \<Rightarrow> p \<in> set level)) rows))"

lemma next_level_subset: "set (next_level rows candidates level) \<subseteq> set candidates"
  by (auto simp: next_level_def)

lemma level_candidates_new: "set (level_candidates rows seen level) \<inter> set seen = {}"
  by (auto simp: level_candidates_def)

function lockLevels :: "base_env \<Rightarrow> base_state \<Rightarrow> u64 list \<Rightarrow> u64 list \<Rightarrow> (go_error, u64 list) result" where
  "lockLevels env s seen level =
    (if level = [] then Inr seen
     else (case be_fail env ''query menu children'' of
         Some e \<Rightarrow> Inl (wrap_core ''query menu children'' e)
       | None \<Rightarrow>
         let candidates = level_candidates (bs_menus s) seen level in
         if candidates = [] then Inr seen
         else (case fst (lockMenus env candidates s) of
             Inl e \<Rightarrow> Inl e
           | Inr _ \<Rightarrow>
             (case be_fail env ''query locked menus'' of
                Some e \<Rightarrow> Inl (wrap_core ''query locked menus'' e)
              | None \<Rightarrow> lockLevels env s (seen @ next_level (bs_menus s) candidates level)
                  (next_level (bs_menus s) candidates level)))))"
  by pat_completeness auto
termination
proof (relation "measure (\<lambda>(env, s, seen, level). 2 * card (- set seen) + (if level = [] then 0 else 1))")
  fix env :: base_env and s :: base_state and seen level candidates
  assume "level \<noteq> []" and c: "candidates = level_candidates (bs_menus s) seen level"
  let ?next = "next_level (bs_menus s) candidates level"
  have new: "set ?next \<inter> set seen = {}"
    using next_level_subset level_candidates_new unfolding c by blast
  have "card (- (set seen \<union> set ?next)) < card (- set seen)" if ne: "?next \<noteq> []"
  proof (rule psubset_card_mono)
    obtain x where "x \<in> set ?next" using ne by (cases ?next) auto
    with new show "- (set seen \<union> set ?next) \<subset> - set seen" by blast
  qed simp
  with \<open>level \<noteq> []\<close> show "((env, s, seen @ ?next, ?next), env, s, seen, level) \<in>
      measure (\<lambda>(env, s, seen, level). 2 * card (- set seen) + (if level = [] then 0 else 1))"
    by (cases "?next = []") auto
qed simp

definition lockTree :: "base_env \<Rightarrow> u64 list \<Rightarrow> u64 list act" where
  "lockTree env ids =
    (let roots = NormalizeIDs ids in
     if roots = [] then failA (exc_Validate ''menu ids empty'' None)
     else
       bindA (lockMenus env roots) (\<lambda>_ s.
         (case lockLevels env s roots roots of Inl e \<Rightarrow> (Inl e, s) | Inr seen \<Rightarrow> (Inr (NormalizeIDs seen), s))))"

definition menu_Delete :: "base_env \<Rightarrow> u64 list \<Rightarrow> unit act" where
  "menu_Delete env inputIDs = withinTx (
    bindA (lockTree env inputIDs) (\<lambda>ids.
    bindA (menu_userIDs env ids) (\<lambda>users.
    bindA (lockAndRevokeA env users) (\<lambda>_.
    bindA (writeA env ''delete menu roles''
        (\<lambda>s. s\<lparr>bs_roleMenus := filter (\<lambda>(r, m). m \<notin> set ids) (bs_roleMenus s)\<rparr>)) (\<lambda>_.
    bindA (checkA (NewDeleteInput ids)) (\<lambda>unique.
    base_Delete env remove_menus unique))))))"

section \<open>Reading\<close>

definition menu_isAdmin :: "base_env \<Rightarrow> u64 list \<Rightarrow> bool act" where
  "menu_isAdmin env roles =
    readA env ''query admin roles'' (\<lambda>s. list_ex (\<lambda>r. ro_id r \<in> set roles \<and> is_admin_role r) (bs_roles s))"

definition menu_menuIDs :: "base_env \<Rightarrow> u64 list \<Rightarrow> u64 list act" where
  "menu_menuIDs env roles =
    (if roles = [] then returnA []
     else readA env ''query role menus'' (\<lambda>s. NormalizeIDs (map snd (filter (\<lambda>(r, m). r \<in> set roles) (bs_roleMenus s)))))"

text \<open>Each menu with the name of its parent, if that is in the list. Rows of one order come in an order
  of the database; here that of the table.\<close>

definition menuItems :: "menu list \<Rightarrow> (menu \<times> string option) list" where
  "menuItems rows = map (\<lambda>m. (m, case mn_parentID m of None \<Rightarrow> None
     | Some p \<Rightarrow> map_of (rev (map (\<lambda>r. (mn_id r, mn_name r)) rows)) p)) rows"

definition menu_List :: "base_env \<Rightarrow> auth_context option \<Rightarrow> (menu \<times> string option) list act" where
  "menu_List env ctx =
    bindA (checkA (auth_Admin ctx)) (\<lambda>identity.
    bindA (menu_isAdmin env (identity_roles identity)) (\<lambda>isAdmin.
    bindA (if isAdmin then returnA [] else menu_menuIDs env (identity_roles identity)) (\<lambda>ids.
    if \<not> isAdmin \<and> ids = [] then returnA []
    else readA env ''query menu list''
      (\<lambda>s. menuItems (sort_key mn_orderNum (filter (\<lambda>m. isAdmin \<or> mn_id m \<in> set ids) (bs_menus s)))))))"

section \<open>Export and import\<close>

text \<open>A menu without its identifiers, and a tree of them. An empty list of children stands for nil too.\<close>

record menu_node =
  nd_Name :: string
  nd_Router :: "string option"
  nd_Perms :: "string option"
  nd_Type :: int
  nd_Icon :: "string option"
  nd_OrderNum :: int
  nd_ViewPath :: "string option"
  nd_KeepAlive :: bool
  nd_IsShow :: bool

datatype menu_tree = MenuTree (mt_node: menu_node) (mt_ChildMenus: "menu_tree list")

definition treeNode :: "menu \<Rightarrow> menu_tree list \<Rightarrow> menu_tree" where
  "treeNode m children = MenuTree \<lparr>nd_Name = mn_name m, nd_Router = mn_router m, nd_Perms = mn_perms m, nd_Type = mn_type m,
     nd_Icon = mn_icon m, nd_OrderNum = mn_orderNum m, nd_ViewPath = mn_viewPath m, nd_KeepAlive = mn_keepAlive m,
     nd_IsShow = mn_isShow m\<rparr> children"

text \<open>\<open>walk\<close>: a menu that is its own ancestor is left without children.\<close>

function walk :: "menu list \<Rightarrow> u64 set \<Rightarrow> menu \<Rightarrow> menu_tree" where
  "walk rows ancestors m =
    (if mn_id m \<in> ancestors then treeNode m []
     else treeNode m (map (walk rows (insert (mn_id m) ancestors)) (filter (\<lambda>c. mn_parentID c = Some (mn_id m)) rows)))"
  by pat_completeness auto
termination
proof (relation "measure (\<lambda>(rows, ancestors, m). card (- ancestors))")
  fix rows :: "menu list" and ancestors :: "u64 set" and m c :: menu
  assume "mn_id m \<notin> ancestors"
  then have "card (- insert (mn_id m) ancestors) < card (- ancestors)" by (intro psubset_card_mono) auto
  then show "((rows, insert (mn_id m) ancestors, c), rows, ancestors, m) \<in> measure (\<lambda>(rows, ancestors, m). card (- ancestors))"
    by simp
qed simp

definition menuTree :: "menu list \<Rightarrow> menu_tree list" where
  "menuTree rows = map (walk rows {}) (filter (\<lambda>m. mn_parentID m = None) rows)"

definition menu_Export :: "base_env \<Rightarrow> u64 list \<Rightarrow> menu_tree list act" where
  "menu_Export env ids =
    (if ids = [] then returnA []
     else readA env ''query export''
       (\<lambda>s. menuTree (sort_key (\<lambda>m. (mn_orderNum m, mn_id m)) (filter (\<lambda>m. mn_id m \<in> set ids) (bs_menus s)))))"

definition node_menu :: "menu_node \<Rightarrow> u64 option \<Rightarrow> u64 \<Rightarrow> menu" where
  "node_menu n parent i = \<lparr>mn_id = i, mn_parentID = parent, mn_name = nd_Name n, mn_router = nd_Router n, mn_perms = nd_Perms n,
     mn_type = nd_Type n, mn_icon = nd_Icon n, mn_orderNum = nd_OrderNum n, mn_viewPath = nd_ViewPath n,
     mn_keepAlive = nd_KeepAlive n, mn_isShow = nd_IsShow n\<rparr>"

fun importTree :: "base_env \<Rightarrow> menu_tree list \<Rightarrow> u64 option \<Rightarrow> unit act" where
  "importTree env [] parent = returnA ()"
| "importTree env (MenuTree n children # rest) parent =
    bindA (insertA env ''import menu'' ''base_sys_menu'' (\<lambda>i s. Some (s\<lparr>bs_menus := bs_menus s @ [node_menu n parent i]\<rparr>))) (\<lambda>i.
    bindA (importTree env children (Some i)) (\<lambda>_.
    importTree env rest parent))"

definition menu_Import :: "base_env \<Rightarrow> menu_tree list \<Rightarrow> unit act" where
  "menu_Import env menus = importTree env menus None"

end
