(* ===== verification/Base_Role.thy ===== *)
theory Base_Role
  imports Base_Permission
begin

text \<open>
  Roles and their authoritative relations with menus and departments
  (\<open>modules/base/service/role.go\<close>).
\<close>

record role_input =
  ri_userId :: "string option"
  ri_name :: "string option"
  ri_label :: "string option option"
  ri_remark :: "string option option"
  ri_relevance :: "bool option"
  ri_menuIdList :: "u64 list option"
  ri_departmentIdList :: "u64 list option"

record role_permissions =
  rp_MenuIDList :: "u64 list"
  rp_DepartmentIDList :: "u64 list"

definition role_write :: "role_input \<Rightarrow> role \<Rightarrow> role" where
  "role_write v r = r\<lparr>ro_userID := submitted (ri_userId v) (ro_userID r), ro_name := submitted (ri_name v) (ro_name r),
     ro_label := submitted (ri_label v) (ro_label r), ro_remark := submitted (ri_remark v) (ro_remark r),
     ro_relevance := submitted (ri_relevance v) (ro_relevance r), ro_menuIDs := submitted (ri_menuIdList v) (ro_menuIDs r),
     ro_departmentIDs := submitted (ri_departmentIdList v) (ro_departmentIDs r)\<rparr>"

definition role_count :: "role_input \<Rightarrow> nat" where
  "role_count v = present (ri_userId v) + present (ri_name v) + present (ri_label v) + present (ri_remark v) +
     present (ri_relevance v) + present (ri_menuIdList v) + present (ri_departmentIdList v)"

definition new_role :: "u64 \<Rightarrow> role" where
  "new_role i = \<lparr>ro_id = i, ro_userID = [], ro_name = [], ro_label = None, ro_remark = None, ro_relevance = False,
     ro_menuIDs = [], ro_departmentIDs = []\<rparr>"

definition put_role :: "role_input \<Rightarrow> u64 \<Rightarrow> base_state \<Rightarrow> base_state option" where
  "put_role v i s =
    (if ri_userId v = None \<or> ri_name v = None then None
     else Some (s\<lparr>bs_roles := bs_roles s @ [role_write v (new_role i)]\<rparr>))"

definition update_role :: "u64 \<Rightarrow> role_input \<Rightarrow> base_state \<Rightarrow> base_state" where
  "update_role i v s = s\<lparr>bs_roles := map (\<lambda>r. if ro_id r = i then role_write v r else r) (bs_roles s)\<rparr>"

definition remove_roles :: "u64 list \<Rightarrow> base_state \<Rightarrow> base_state" where
  "remove_roles ids s = s\<lparr>bs_roles := filter (\<lambda>r. ro_id r \<notin> set ids) (bs_roles s)\<rparr>"

definition lockPerms :: "base_env \<Rightarrow> u64 list \<Rightarrow> u64 list \<Rightarrow> unit act" where
  "lockPerms env menuIDs deptIDs =
    bindA (lockA env ''base_sys_menu'' menuIDs ''lock menus failed'') (\<lambda>_.
      lockA env ''base_sys_department'' deptIDs ''lock departments failed'')"

definition setRolePerms :: "role_input \<Rightarrow> role_permissions \<Rightarrow> role_input" where
  "setRolePerms v p = v\<lparr>ri_menuIdList := Some (NormalizeIDs (rp_MenuIDList p)),
     ri_departmentIdList := Some (NormalizeIDs (rp_DepartmentIDList p))\<rparr>"

definition rolePerms :: "role_input \<Rightarrow> role_permissions option" where
  "rolePerms v =
    (if ri_menuIdList v = None \<and> ri_departmentIdList v = None then None
     else Some \<lparr>rp_MenuIDList = (case ri_menuIdList v of None \<Rightarrow> [] | Some ids \<Rightarrow> ids),
                rp_DepartmentIDList = (case ri_departmentIdList v of None \<Rightarrow> [] | Some ids \<Rightarrow> ids)\<rparr>)"

text \<open>\<open>replaceRoleRelation\<close> for the two relations.\<close>

definition replaceRoleMenus :: "base_env \<Rightarrow> u64 \<Rightarrow> u64 list \<Rightarrow> unit act" where
  "replaceRoleMenus env roleID ids =
    bindA (writeA env ''delete role menus'' (\<lambda>s. s\<lparr>bs_roleMenus := filter (\<lambda>(r, m). r \<noteq> roleID) (bs_roleMenus s)\<rparr>)) (\<lambda>_.
      if NormalizeIDs ids = [] then returnA ()
      else writeA env ''insert role menus'' (\<lambda>s. s\<lparr>bs_roleMenus := bs_roleMenus s @ map (\<lambda>m. (roleID, m)) (NormalizeIDs ids)\<rparr>))"

definition replaceRoleDepartments :: "base_env \<Rightarrow> u64 \<Rightarrow> u64 list \<Rightarrow> unit act" where
  "replaceRoleDepartments env roleID ids =
    bindA (writeA env ''delete role departments'' (\<lambda>s. s\<lparr>bs_roleDepartments := filter (\<lambda>(r, d). r \<noteq> roleID) (bs_roleDepartments s)\<rparr>)) (\<lambda>_.
      if NormalizeIDs ids = [] then returnA ()
      else writeA env ''insert role departments'' (\<lambda>s. s\<lparr>bs_roleDepartments := bs_roleDepartments s @ map (\<lambda>d. (roleID, d)) (NormalizeIDs ids)\<rparr>))"

definition replacePerms :: "base_env \<Rightarrow> u64 \<Rightarrow> role_permissions \<Rightarrow> unit act" where
  "replacePerms env roleID p =
    bindA (replaceRoleMenus env roleID (rp_MenuIDList p)) (\<lambda>_. replaceRoleDepartments env roleID (rp_DepartmentIDList p))"

definition roleMenuIDs :: "base_env \<Rightarrow> u64 \<Rightarrow> u64 list act" where
  "roleMenuIDs env roleID = readA env ''query role menus'' (\<lambda>s. sort (map snd (filter (\<lambda>(r, m). r = roleID) (bs_roleMenus s))))"

definition roleDepartmentIDs :: "base_env \<Rightarrow> u64 \<Rightarrow> u64 list act" where
  "roleDepartmentIDs env roleID =
    readA env ''query role departments'' (\<lambda>s. sort (map snd (filter (\<lambda>(r, d). r = roleID) (bs_roleDepartments s))))"

definition permIDs :: "base_env \<Rightarrow> u64 list \<Rightarrow> (u64 list \<times> u64 list) act" where
  "permIDs env roleIDs =
    (let ids = NormalizeIDs roleIDs in
     if ids = [] then returnA ([], [])
     else
       bindA (readA env ''query role menus'' (\<lambda>s. NormalizeIDs (map snd (filter (\<lambda>(r, m). r \<in> set ids) (bs_roleMenus s))))) (\<lambda>menuIDs.
       bindA (readA env ''query role departments'' (\<lambda>s. NormalizeIDs (map snd (filter (\<lambda>(r, d). r \<in> set ids) (bs_roleDepartments s))))) (\<lambda>deptIDs.
       returnA (menuIDs, deptIDs))))"

definition role_userIDs :: "base_env \<Rightarrow> u64 list \<Rightarrow> u64 list act" where
  "role_userIDs env roleIDs =
    (if roleIDs = [] then returnA []
     else readA env ''query role users'' (\<lambda>s. NormalizeIDs (map fst (filter (\<lambda>(u, r). r \<in> set roleIDs) (bs_userRoles s)))))"

definition roleByID :: "base_env \<Rightarrow> u64 \<Rightarrow> role option act" where
  "roleByID env roleID = readA env ''query role'' (\<lambda>s. find (\<lambda>r. ro_id r = roleID) (bs_roles s))"

definition rejectAdminRole :: "base_env \<Rightarrow> u64 list \<Rightarrow> unit act" where
  "rejectAdminRole env roleIDs =
    bindA (readA env ''query admin roles'' (\<lambda>s. list_ex (\<lambda>r. ro_id r \<in> set roleIDs \<and> is_admin_role r) (bs_roles s))) (\<lambda>found.
      if found then failA (comm ''admin role kept'') else returnA ())"

text \<open>A submitted label is held as a string, so the assertion to a pointer to a string never succeeds:
  for the administrator role every submitted label is refused, the unchanged one included.\<close>

definition checkAdminRole :: "role \<Rightarrow> role_input \<Rightarrow> (go_error, unit) result" where
  "checkAdminRole row v =
    (if \<not> is_admin_role row then Inr ()
     else if ri_name v \<noteq> None \<and> ri_name v \<noteq> Some (ro_name row) then Inl (comm ''admin role name kept'')
     else if ri_label v \<noteq> None then Inl (comm ''admin role label kept'')
     else Inr ())"

definition role_Add :: "base_env \<Rightarrow> role_input add_input \<Rightarrow> u64 list act" where
  "role_Add env inp =
    (case inp of
       AddMany vs \<Rightarrow> failA (exc_Validate ''one role only'' None)
     | AddOne v \<Rightarrow>
         let perms = (case rolePerms v of None \<Rightarrow> \<lparr>rp_MenuIDList = [], rp_DepartmentIDList = []\<rparr> | Some p \<Rightarrow> p);
             v' = setRolePerms v perms
         in withinTx (
           bindA (lockPerms env (rp_MenuIDList perms) (rp_DepartmentIDList perms)) (\<lambda>_.
           bindA (base_Add env ''base_sys_role'' put_role (AddOne v')) (\<lambda>ids.
           bindA (replacePerms env (hd ids) perms) (\<lambda>_. returnA ids)))))"

text \<open>The permissions after an update: a list that was not submitted stays as it is.\<close>

definition resolvePerms :: "base_env \<Rightarrow> u64 \<Rightarrow> role_input \<Rightarrow> role_permissions option \<Rightarrow> role_permissions option act" where
  "resolvePerms env roleID v perms =
    (case perms of
       None \<Rightarrow> returnA None
     | Some p \<Rightarrow>
         bindA (if ri_menuIdList v = None then roleMenuIDs env roleID else returnA (rp_MenuIDList p)) (\<lambda>menuIDs.
         bindA (if ri_departmentIdList v = None then roleDepartmentIDs env roleID else returnA (rp_DepartmentIDList p)) (\<lambda>deptIDs.
         bindA (lockPerms env menuIDs deptIDs) (\<lambda>_.
         returnA (Some \<lparr>rp_MenuIDList = menuIDs, rp_DepartmentIDList = deptIDs\<rparr>)))))"

text \<open>What was read before the locks must still hold.\<close>

definition keptPerms :: "base_env \<Rightarrow> u64 \<Rightarrow> role_input \<Rightarrow> role_permissions option \<Rightarrow> unit act" where
  "keptPerms env roleID v perms =
    (case perms of
       None \<Rightarrow> returnA ()
     | Some p \<Rightarrow>
         bindA (if ri_menuIdList v = None then
             bindA (roleMenuIDs env roleID) (\<lambda>current. checkA (ValidateSnapshot (rp_MenuIDList p) current ''role menus changed''))
           else returnA ()) (\<lambda>_.
         if ri_departmentIdList v = None then
           bindA (roleDepartmentIDs env roleID) (\<lambda>current. checkA (ValidateSnapshot (rp_DepartmentIDList p) current ''role departments changed''))
         else returnA ()))"

definition role_Update :: "base_env \<Rightarrow> role_input update_input \<Rightarrow> unit act" where
  "role_Update env inp =
    (case update_items inp of
       [(roleID, v)] \<Rightarrow> withinTx (
         bindA (resolvePerms env roleID v (rolePerms v)) (\<lambda>perms.
         let v' = (case perms of None \<Rightarrow> v | Some p \<Rightarrow> setRolePerms v p) in
         bindA (lockA env ''base_sys_role'' [roleID] ''lock roles failed'') (\<lambda>_.
         bindA (roleByID env roleID) (\<lambda>row.
         (case row of
           None \<Rightarrow> returnA ()
         | Some r \<Rightarrow>
             bindA (keptPerms env roleID v perms) (\<lambda>_.
             bindA (checkA (checkAdminRole r v')) (\<lambda>_.
             bindA (role_userIDs env [roleID]) (\<lambda>userIDs.
             bindA (lockAndRevokeA env userIDs) (\<lambda>_.
             bindA (base_Update env role_count update_role (UpdateOne roleID v')) (\<lambda>_.
             (case perms of None \<Rightarrow> returnA () | Some p \<Rightarrow> replacePerms env roleID p)))))))))))
     | _ \<Rightarrow> failA (exc_Validate ''one role only'' None))"

definition role_Delete :: "base_env \<Rightarrow> u64 list \<Rightarrow> unit act" where
  "role_Delete env inputIDs =
    (let roleIDs = NormalizeIDs inputIDs in
     withinTx (
       bindA (permIDs env roleIDs) (\<lambda>(menuIDs, deptIDs).
       bindA (lockPerms env menuIDs deptIDs) (\<lambda>_.
       bindA (lockA env ''base_sys_role'' roleIDs ''lock roles failed'') (\<lambda>_.
       bindA (permIDs env roleIDs) (\<lambda>(lockedMenu, lockedDept).
       bindA (checkA (ValidateSnapshot menuIDs lockedMenu ''role permissions changed'')) (\<lambda>_.
       bindA (checkA (ValidateSnapshot deptIDs lockedDept ''role permissions changed'')) (\<lambda>_.
       bindA (rejectAdminRole env roleIDs) (\<lambda>_.
       bindA (role_userIDs env roleIDs) (\<lambda>userIDs.
       bindA (lockAndRevokeA env userIDs) (\<lambda>_.
       bindA (writeA env ''delete role relations'' (\<lambda>s. s\<lparr>
           bs_userRoles := filter (\<lambda>(u, r). r \<notin> set roleIDs) (bs_userRoles s),
           bs_roleMenus := filter (\<lambda>(r, m). r \<notin> set roleIDs) (bs_roleMenus s),
           bs_roleDepartments := filter (\<lambda>(r, d). r \<notin> set roleIDs) (bs_roleDepartments s)\<rparr>)) (\<lambda>_.
       base_Delete env remove_roles inputIDs))))))))))))"

text \<open>The roles that an administrator sees in lists and pages.\<close>

definition visibleRoles :: "base_env \<Rightarrow> admin_identity \<Rightarrow> role list act" where
  "visibleRoles env identity =
    bindA (perm_IsAdmin env (identity_roles identity)) (\<lambda>isAdmin.
      readA env ''query roles'' (\<lambda>s. sort_key ro_id (filter (\<lambda>r. \<not> is_admin_role r \<and>
        (isAdmin \<or> ro_userID r = format_uint (unat (ai_UserID identity)) \<or> ro_id r \<in> set (identity_roles identity))) (bs_roles s))))"

definition role_List :: "base_env \<Rightarrow> auth_context option \<Rightarrow> role list act" where
  "role_List env ctx = bindA (checkA (auth_Admin ctx)) (\<lambda>identity. visibleRoles env identity)"

end
