(* ===== verification/Base_Frame.thy ===== *)
theory Base_Frame
  imports Base_Menu Base_Role
begin

text \<open>
  Reasoning about the actions of the base module: which of them only read, what an action that ends
  well leaves true, and what the invariants of the tables are.
\<close>

section \<open>Actions that change nothing\<close>

text \<open>An action that, if it ends well, leaves the state as it was.\<close>

definition keeps :: "'a act \<Rightarrow> bool" where
  "keeps m \<longleftrightarrow> (\<forall>s x s'. m s = (Inr x, s') \<longrightarrow> s' = s)"

named_theorems keeping

lemma keepsD: "keeps m \<Longrightarrow> m s = (Inr x, s') \<Longrightarrow> s' = s"
  by (auto simp: keeps_def)

lemma keeps_simple [keeping, simp]: "keeps (returnA x)" "keeps (failA e)" "keeps (checkA r)" "keeps (readA env label f)"
    "keeps (lockA env table ids message)"
  by (auto simp: keeps_def lockA_Inr_iff)

lemma keeps_bindA [keeping]: "keeps m \<Longrightarrow> (\<And>x. keeps (k x)) \<Longrightarrow> keeps (bindA m k)"
  by (fastforce simp: keeps_def bindA_Inr_iff)

lemma keeps_if [keeping]: "(b \<Longrightarrow> keeps m) \<Longrightarrow> (\<not> b \<Longrightarrow> keeps m') \<Longrightarrow> keeps (if b then m else m')"
  by simp

lemma keeps_case_option [keeping]: "keeps m \<Longrightarrow> (\<And>x. keeps (k x)) \<Longrightarrow> keeps (case y of None \<Rightarrow> m | Some x \<Rightarrow> k x)"
  by (cases y) simp_all

lemma keeps_case_prod [keeping]: "(\<And>x y. keeps (k x y)) \<Longrightarrow> keeps (case p of (x, y) \<Rightarrow> k x y)"
  by (cases p) simp

lemma keeps_Let [keeping]: "(\<And>x. keeps (k x)) \<Longrightarrow> keeps (let x = y in k x)"
  by simp

lemma bindA_keeps:
  "keeps m \<Longrightarrow> bindA m k s = (Inr y, s') \<longleftrightarrow> (\<exists>x. m s = (Inr x, s) \<and> k x s = (Inr y, s'))"
  by (auto simp: bindA_Inr_iff keeps_def)

lemma keeps_perm [simp]: "keeps (perm_roles env ids)" "keeps (RoleIDs env u)" "keeps (roleSnap env ids)" "keeps (adminRoles env)"
    "keeps (perm_IsAdmin env ids)" "keeps (lockRoles env ids)" "keeps (lockUsers env ids)" "keeps (prepRoles env us nxt)"
    "keeps (keepAdmin env ids)" "keeps (checkAdmin env u c n old new)"
  unfolding perm_roles_def RoleIDs_def roleSnap_def adminRoles_def perm_IsAdmin_def lockRoles_def lockUsers_def prepRoles_def
    keepAdmin_def checkAdmin_def
  by (intro keeping)+

lemma keeps_role [simp]: "keeps (lockPerms env ms ds)" "keeps (roleMenuIDs env i)" "keeps (roleDepartmentIDs env i)"
    "keeps (permIDs env ids)" "keeps (role_userIDs env ids)" "keeps (roleByID env i)" "keeps (rejectAdminRole env ids)"
    "keeps (resolvePerms env i v p)" "keeps (keptPerms env i v p)"
  unfolding lockPerms_def roleMenuIDs_def roleDepartmentIDs_def permIDs_def role_userIDs_def roleByID_def rejectAdminRole_def
    resolvePerms_def keptPerms_def
  by (intro keeping)+

lemma keeps_department [simp]: "keeps (lockDepts env ids)" "keeps (lockTrees env roots)" "keeps (dept_userIDs env ids)"
    "keeps (dept_deptIDs env ids)"
  unfolding lockDepts_def lockTrees_def dept_userIDs_def dept_deptIDs_def
  by (intro keeping)+

lemma keeps_user [simp]: "keeps (userByID env i)"
  unfolding userByID_def by (intro keeping)

lemma keeps_menu [simp]: "keeps (lockMenus env ids)" "keeps (menu_userIDs env ids)" "keeps (checkParents env changes)"
    "keeps (lockTree env ids)"
proof -
  show "keeps (lockMenus env ids)" "keeps (menu_userIDs env ids)" "keeps (checkParents env changes)"
    unfolding lockMenus_def menu_userIDs_def checkParents_def by (intro keeping)+
  moreover have "keeps (\<lambda>s. case lockLevels env s (NormalizeIDs ids) (NormalizeIDs ids) of
      Inl e \<Rightarrow> (Inl e, s) | Inr seen \<Rightarrow> (Inr (NormalizeIDs seen), s))"
    by (simp add: keeps_def split: sum.split)
  ultimately show "keeps (lockTree env ids)"
    unfolding lockTree_def Let_def by (intro keeps_if keeps_bindA) (simp_all only: keeps_simple lockMenus_def)
qed

section \<open>Actions that preserve a property\<close>

definition preserves :: "(base_state \<Rightarrow> bool) \<Rightarrow> 'a act \<Rightarrow> bool" where
  "preserves P m \<longleftrightarrow> (\<forall>s x s'. P s \<longrightarrow> m s = (Inr x, s') \<longrightarrow> P s')"

named_theorems preserving

lemma preservesD: "preserves P m \<Longrightarrow> P s \<Longrightarrow> m s = (Inr x, s') \<Longrightarrow> P s'"
  by (auto simp: preserves_def)

lemma preserves_keeps: "keeps m \<Longrightarrow> preserves P m"
  by (auto simp: keeps_def preserves_def)

lemma preserves_bindA [preserving]: "preserves P m \<Longrightarrow> (\<And>x. preserves P (k x)) \<Longrightarrow> preserves P (bindA m k)"
  unfolding preserves_def bindA_Inr_iff by blast

lemma preserves_if [preserving]: "(b \<Longrightarrow> preserves P m) \<Longrightarrow> (\<not> b \<Longrightarrow> preserves P m') \<Longrightarrow> preserves P (if b then m else m')"
  by simp

lemma preserves_case_option [preserving]:
  "(y = None \<Longrightarrow> preserves P m) \<Longrightarrow> (\<And>x. y = Some x \<Longrightarrow> preserves P (k x)) \<Longrightarrow>
   preserves P (case y of None \<Rightarrow> m | Some x \<Rightarrow> k x)"
  by (cases y) simp_all

lemma preserves_writeA [preserving]: "(\<And>s. P s \<Longrightarrow> P (f s)) \<Longrightarrow> preserves P (writeA env label f)"
  by (auto simp: preserves_def)

lemma preserves_storeA [preserving]: "(\<And>s. P s \<Longrightarrow> P (f s)) \<Longrightarrow> preserves P (storeA env label f)"
  by (auto simp: preserves_def)

lemma preserves_eachA [preserving]: "(\<And>x. x \<in> set xs \<Longrightarrow> preserves P (f x)) \<Longrightarrow> preserves P (eachA f xs)"
  by (induction xs) (auto intro: preserves_bindA preserves_keeps)

lemma preserves_insertA [preserving]:
  assumes "\<And>i s s'. P s \<Longrightarrow> i \<noteq> 0 \<Longrightarrow> i \<notin> set (table_ids table s) \<Longrightarrow> put i s = Some s' \<Longrightarrow> P s'"
  shows "preserves P (insertA env label table put)"
  using assms by (auto simp: preserves_def insertA_def bindA_Inr_iff split: if_splits option.splits)

lemma preserves_base_Add:
  assumes "\<And>v i s s'. v \<in> set (add_values inp) \<Longrightarrow> P s \<Longrightarrow> i \<noteq> 0 \<Longrightarrow> i \<notin> set (table_ids table s) \<Longrightarrow> put v i s = Some s' \<Longrightarrow> P s'"
  shows "preserves P (base_Add env table put inp)"
proof -
  have "preserves P (base_Add_loop env table put vs)" if "set vs \<subseteq> set (add_values inp)" for vs
    using that
  proof (induction vs)
    case (Cons v vs)
    have "preserves P (insertA env ''insert entity'' table (put v))"
      using assms Cons.prems by (intro preserves_insertA) auto
    with Cons show ?case by (auto intro!: preserves_bindA intro: preserves_keeps)
  qed (simp add: preserves_keeps)
  then show ?thesis by (auto simp: base_Add_def intro: preserves_keeps)
qed

lemma preserves_base_Update:
  assumes "\<And>i v s. (i, v) \<in> set (update_items inp) \<Longrightarrow> P s \<Longrightarrow> P (put i v s)"
  shows "preserves P (base_Update env count put inp)"
  using assms unfolding base_Update_def
  by (auto intro!: preserves_if preserves_eachA preserves_storeA intro: preserves_keeps)

lemma preserves_base_Delete:
  "(\<And>s. P s \<Longrightarrow> P (remove ids s)) \<Longrightarrow> preserves P (base_Delete env remove ids)"
  unfolding base_Delete_def by (auto intro!: preserves_if preserves_writeA intro: preserves_keeps)

lemma preserves_withinTx [preserving]: "preserves P m \<Longrightarrow> preserves P (withinTx m)"
  by (auto simp: preserves_def)

section \<open>Revoking\<close>

text \<open>No session of an administrator belongs to \<open>u\<close>.\<close>

definition signed_out :: "base_state \<Rightarrow> u64 \<Rightarrow> bool" where
  "signed_out s u \<longleftrightarrow> (\<forall>(sid, v) \<in> set (bs_sessions s). \<not> (ts_Subject v = AdminKind \<and> ts_UserID v = u))"

definition revokes :: "u64 set \<Rightarrow> base_state \<Rightarrow> base_state \<Rightarrow> bool" where
  "revokes U s s' \<longleftrightarrow> set (bs_sessions s') \<subseteq> set (bs_sessions s) \<and> (\<forall>u \<in> U - {0}. signed_out s' u) \<and>
     s' = s\<lparr>bs_sessions := bs_sessions s', bs_cache := bs_cache s'\<rparr>"

lemma store_RevokeUsers_out:
  assumes "store_RevokeUsers ctx now AdminKind ids st = (Inr x, st')"
  shows "set st' \<subseteq> set st" "u \<in> set ids \<Longrightarrow> (sid, v) \<in> set st' \<Longrightarrow> \<not> (ts_Subject v = AdminKind \<and> ts_UserID v = u)"
proof -
  have ok: "bindE (contextError ctx) (\<lambda>_. revokeUserSet AdminKind ids) = Inr (set ids)"
    using assms by (cases "contextError ctx") (auto simp: store_RevokeUsers_def revokeUserSet_def split: if_splits)
  have st': "st' = (if ids = [] then st else filter (\<lambda>(k, v). \<not> is_target AdminKind (set ids) v) (cleanupExpired now st))"
    using assms unfolding store_RevokeUsers_def ok by (auto split: if_splits)
  show "set st' \<subseteq> set st" unfolding st' by (auto simp: cleanupExpired_def)
  show "\<not> (ts_Subject v = AdminKind \<and> ts_UserID v = u)" if "u \<in> set ids" "(sid, v) \<in> set st'"
    using that unfolding st' by (auto simp: is_target_def split: if_splits)
qed

lemma revokeA_revokes: "revokeA env ids s = (Inr x, s') \<Longrightarrow> revokes (set ids) s s'"
proof -
  assume r: "revokeA env ids s = (Inr x, s')"
  show ?thesis
  proof (cases "NormalizeIDs ids = []")
    case True
    then have "set ids - {0} = {}" by (metis set_NormalizeIDs set_empty)
    then show ?thesis using r True by (auto simp: revokeA_def boundary_RevokeUsers_def revokes_def)
  next
    case False
    then obtain y st where st: "store_RevokeUsers (be_ctx env) (be_now env) AdminKind (NormalizeIDs ids) (bs_sessions s) = (Inr y, st)"
        and s': "s' = s\<lparr>bs_sessions := st\<rparr>"
      using r by (auto simp: revokeA_def boundary_RevokeUsers_def memory_store_def Let_def split: prod.splits sum.splits)
    show ?thesis using store_RevokeUsers_out [OF st] s' by (fastforce simp: revokes_def signed_out_def)
  qed
qed

lemma lockAndRevokeA_revokes: "lockAndRevokeA env ids s = (Inr x, s') \<Longrightarrow> revokes (set ids) s s'"
proof -
  assume r: "lockAndRevokeA env ids s = (Inr x, s')"
  show ?thesis
  proof (cases "NormalizeIDs ids = []")
    case True
    then have "set ids - {0} = {}" by (metis set_NormalizeIDs set_empty)
    then show ?thesis using r True by (auto simp: lockAndRevokeA_def LockUsersAndRevoke_def revokes_def)
  next
    case False
    then obtain y st where st: "store_RevokeUsers (be_ctx env) (be_now env) AdminKind (NormalizeIDs ids) (bs_sessions s) = (Inr y, st)"
        and s': "s' = s\<lparr>bs_sessions := st\<rparr>"
      using r by (auto simp: lockAndRevokeA_def LockUsersAndRevoke_def memory_store_def Let_def split: prod.splits sum.splits)
    show ?thesis using store_RevokeUsers_out [OF st] s' by (fastforce simp: revokes_def signed_out_def)
  qed
qed

lemma perm_revoke_revokes:
  assumes "perm_revoke env ids s = (Inr x, s')"
  shows "revokes (set ids) s s'"
proof -
  obtain y s1 where "revokeA env ids s = (Inr y, s1)" and s': "s' = s1\<lparr>bs_cache := []\<rparr>"
    using assms by (auto simp: perm_revoke_def bindA_Inr_iff)
  then have r: "revokes (set ids) s s1" by (simp add: revokeA_revokes)
  then obtain st c where "s1 = s\<lparr>bs_sessions := st, bs_cache := c\<rparr>" unfolding revokes_def by blast
  then have "s' = s\<lparr>bs_sessions := bs_sessions s', bs_cache := bs_cache s'\<rparr>" unfolding s' by simp
  with r show ?thesis by (simp add: revokes_def signed_out_def s')
qed

lemma preserves_revoke [preserving]:
  assumes "\<And>s st c. set st \<subseteq> set (bs_sessions s) \<Longrightarrow> P s \<Longrightarrow> P (s\<lparr>bs_sessions := st, bs_cache := c\<rparr>)"
  shows "preserves P (perm_revoke env ids)" "preserves P (revokeA env ids)" "preserves P (lockAndRevokeA env ids)"
  using assms perm_revoke_revokes revokeA_revokes lockAndRevokeA_revokes unfolding preserves_def revokes_def by metis+

end
