(* ===== verification/Base_Forest.thy ===== *)
theory Base_Forest
  imports Base_Frame
begin

text \<open>
  Menus form a forest: what changing parents checks, which menus deleting takes along, cycles
  included, and that importing an exported forest gives the same forest.
\<close>

section \<open>Climbing\<close>

declare climbs.simps [simp del]

lemma climbs_sound:
  "climbs par seen c \<Longrightarrow> (x, c) \<in> (parent_edges par)\<^sup>* \<Longrightarrow> (x, x) \<notin> (parent_edges par)\<^sup>+"
proof (induction par seen c arbitrary: x rule: climbs.induct)
  case (1 par seen c)
  let ?E = "parent_edges par"
  have c: "c \<notin> seen" using 1(2) by (auto simp: climbs.simps [of par seen])
  show ?case
  proof (cases "par c")
    case None
    then have "(a, c) \<notin> ?E\<^sup>+" for a by (simp add: trancl_parent_edges [of a c])
    then show ?thesis using 1(3) by (auto simp: rtrancl_eq_or_trancl)
  next
    case (Some p)
    then have p: "climbs par (insert c seen) p" using 1(2) c by (simp add: climbs.simps [of par seen])
    have up: "(a, c) \<in> ?E\<^sup>+ \<Longrightarrow> (a, p) \<in> ?E\<^sup>*" for a
      using Some by (auto simp: trancl_parent_edges [of a c] trancl_into_rtrancl)
    show ?thesis
    proof (cases "(x, c) \<in> ?E\<^sup>+")
      case True
      then show ?thesis using 1(1) [OF c Some p up] by blast
    next
      case False
      then have x: "x = c" using 1(3) by (auto simp: rtrancl_eq_or_trancl)
      with False show ?thesis by simp
    qed
  qed
qed

text \<open>A chain through a changed node contains that node; without one it is a chain of the old forest.\<close>

lemma trancl_changed:
  assumes "\<And>x. x \<notin> C \<Longrightarrow> par' x = par x" "(a, b) \<in> (parent_edges par')\<^sup>+"
  shows "(a, b) \<in> (parent_edges par)\<^sup>+ \<or> (\<exists>c \<in> C. (a, c) \<in> (parent_edges par')\<^sup>+ \<and> (c, b) \<in> (parent_edges par')\<^sup>*)"
  using assms(2)
proof (induction rule: trancl_induct)
  case (base b)
  show ?case
  proof (cases "b \<in> C")
    case True
    with base show ?thesis by blast
  next
    case False
    then have "(a, b) \<in> parent_edges par" using base assms(1) by simp
    then show ?thesis by blast
  qed
next
  case (step b c)
  show ?case
  proof (cases "c \<in> C")
    case True
    have "(a, c) \<in> (parent_edges par')\<^sup>+" using step by (meson trancl_into_trancl)
    with True show ?thesis by blast
  next
    case False
    then have "(b, c) \<in> parent_edges par" using step assms(1) by simp
    with step show ?thesis by (meson rtrancl_into_rtrancl trancl_into_trancl)
  qed
qed

lemma acyclic_changed:
  assumes "acyclic (parent_edges par)" "\<And>x. x \<notin> C \<Longrightarrow> par' x = par x" "\<And>c. c \<in> C \<Longrightarrow> climbs par' {} c"
  shows "acyclic (parent_edges par')"
  unfolding acyclic_def
proof (intro allI notI)
  fix x assume x: "(x, x) \<in> (parent_edges par')\<^sup>+"
  have "(x, x) \<notin> (parent_edges par)\<^sup>+" using assms(1) by (simp add: acyclic_def)
  with trancl_changed [of C, OF assms(2) x] obtain c
    where c: "c \<in> C" "(x, c) \<in> (parent_edges par')\<^sup>+" by blast
  from climbs_sound [OF assms(3) [OF c(1)] trancl_into_rtrancl [OF c(2)]] x show False by blast
qed

section \<open>Changing parents\<close>

definition forest_ok :: "menu list \<Rightarrow> bool" where
  "forest_ok rows \<longleftrightarrow> (\<forall>m \<in> set rows. \<forall>p. mn_parentID m = Some p \<longrightarrow> p = 0 \<or> p \<in> mn_id ` set rows) \<and>
     acyclic (parent_edges (up (menu_parents rows)))"

lemma up_cong: "map_of P x = map_of P' x \<Longrightarrow> up P x = up P' x"
  by (simp add: up_def)

lemma map_of_menu_parents_None: "map_of (menu_parents rows) x = None \<longleftrightarrow> x \<notin> mn_id ` set rows"
  by (simp add: menu_parents_def map_of_eq_None_iff image_image)

lemma map_of_menu_parents:
  "distinct (map mn_id rows) \<Longrightarrow> m \<in> set rows \<Longrightarrow> map_of (menu_parents rows) (mn_id m) = Some (mn_parentID m)"
  by (rule map_of_is_SomeI) (auto simp: menu_parents_def comp_def)

lemma map_of_menu_parents_sort:
  assumes "distinct (map mn_id rows)"
  shows "map_of (menu_parents (sort_key f rows)) = map_of (menu_parents rows)"
proof (rule ext)
  fix x
  have d: "distinct (map mn_id (sort_key f rows))" using assms by (simp add: distinct_map)
  show "map_of (menu_parents (sort_key f rows)) x = map_of (menu_parents rows) x"
  proof (cases "x \<in> mn_id ` set rows")
    case True
    then obtain m where "m \<in> set rows" "x = mn_id m" by blast
    with map_of_menu_parents [OF d, of m] map_of_menu_parents [OF assms, of m] show ?thesis by simp
  next
    case False
    then show ?thesis by (metis map_of_menu_parents_None set_sort)
  qed
qed

lemma change_parents_Inr:
  assumes "change_parents P cs = Inr P'" "distinct (map fst cs)"
  shows "map_of P' = map_of P ++ map_of cs \<and> (\<forall>(i, p) \<in> set cs. map_of P i \<noteq> None \<and>
    (\<forall>q. p = Some q \<longrightarrow> q = 0 \<or> map_of P q \<noteq> None))"
  using assms
proof (induction P cs rule: change_parents.induct)
  case (2 P i p cs)
  have cond: "map_of P i \<noteq> None" "\<not> (case p of None \<Rightarrow> False | Some q \<Rightarrow> q \<noteq> 0 \<and> map_of P q = None)"
    and rest: "change_parents (mput i p P) cs = Inr P'"
    using 2(2) by (simp_all split: if_splits)
  have here: "map_of P i \<noteq> None" "\<And>q. p = Some q \<Longrightarrow> q = 0 \<or> map_of P q \<noteq> None" using cond by auto
  have "distinct (map fst cs)" using 2(3) by simp
  from 2(1) [OF cond rest this]
  have tail: "map_of P' = map_of (mput i p P) ++ map_of cs" "\<And>j p'. (j, p') \<in> set cs \<Longrightarrow> map_of (mput i p P) j \<noteq> None"
      "\<And>j q. (j, Some q) \<in> set cs \<Longrightarrow> q = 0 \<or> map_of (mput i p P) q \<noteq> None"
    by blast+
  have known: "map_of (mput i p P) j \<noteq> None \<longleftrightarrow> map_of P j \<noteq> None" for j using here(1) by auto
  have "map_of cs i = None" using 2(3) by (simp add: map_of_eq_None_iff)
  then have "map_of P' = map_of P ++ map_of ((i, p) # cs)" unfolding tail(1)
    by (intro ext) (simp add: map_add_def split: option.split)
  moreover have "map_of P j \<noteq> None \<and> (\<forall>q. p' = Some q \<longrightarrow> q = 0 \<or> map_of P q \<noteq> None)"
    if "(j, p') \<in> set ((i, p) # cs)" for j p'
    using that here tail(2) [of j p'] tail(3) [of j] unfolding known by (cases "(j, p') = (i, p)") auto
  ultimately show ?case by blast
qed simp_all

text \<open>What an update of several menus does to their parents: the last item that submits one decides.\<close>

lemma parent_changes_append:
  "map_of (parent_changes items P) = map_of P ++ map_of (parent_changes items [])"
proof (induction items arbitrary: P)
  case (Cons item items)
  obtain i v where item: "item = (i, v)" by (cases item)
  show ?case
  proof (cases "mi_parentId v")
    case None
    show ?thesis by (simp only: item parent_changes.simps option.case None) (rule Cons)
  next
    case (Some p)
    have "map_of (parent_changes items (mput i p P)) = map_of (mput i p P) ++ map_of (parent_changes items [])"
      "map_of (parent_changes items (mput i p [])) = map_of (mput i p []) ++ map_of (parent_changes items [])"
      by (rule Cons)+
    moreover have "map_of (mput i p P) = map_of P ++ map_of (mput i p [])" by (simp add: map_add_def fun_eq_iff)
    ultimately show ?thesis using Some by (simp only: item parent_changes.simps option.case map_add_assoc)
  qed
qed simp

lemma parent_changes_distinct: "distinct (map fst P) \<Longrightarrow> distinct (map fst (parent_changes items P))"
proof (induction items P rule: parent_changes.induct)
  case (2 i v items P)
  have "distinct (map fst (mput i p P))" for p
    using 2(2) by (auto simp: mput_def mdel_def distinct_map_filter)
  with 2 show ?case by (auto split: option.splits)
qed simp

definition updated_rows :: "(u64 \<times> menu_input) list \<Rightarrow> menu list \<Rightarrow> menu list" where
  "updated_rows items rows = fold (\<lambda>(i, v). map (\<lambda>m. if mn_id m = i then menu_write v m else m)) items rows"

lemma menu_write_id [simp]: "mn_id (menu_write v m) = mn_id m" "mn_parentID (menu_write v m) = submitted (mi_parentId v) (mn_parentID m)"
  by (simp_all add: menu_write_def)

lemma updated_rows_simps [simp]:
  "updated_rows [] rows = rows"
  "updated_rows ((i, v) # items) rows = updated_rows items (map (\<lambda>m. if mn_id m = i then menu_write v m else m) rows)"
  by (simp_all add: updated_rows_def)

lemma updated_rows_ids: "map mn_id (updated_rows items rows) = map mn_id rows"
proof (induction items arbitrary: rows)
  case (Cons item items)
  have "map mn_id (map (\<lambda>m. if mn_id m = i then menu_write v m else m) rows) = map mn_id rows" for i v by simp
  with Cons show ?case by (cases item) (simp only: updated_rows_simps)
qed simp

lemma update_menus_fold: "fold (\<lambda>(i, v). update_menu i v) items s = s\<lparr>bs_menus := updated_rows items (bs_menus s)\<rparr>"
  by (induction items arbitrary: s) (auto simp: update_menu_def)

lemma menu_parents_write:
  "map_of (menu_parents (map (\<lambda>m. if mn_id m = i then menu_write v m else m) rows)) x =
    map_option (\<lambda>old. if x = i then submitted (mi_parentId v) old else old) (map_of (menu_parents rows) x)"
  by (induction rows) (auto simp: menu_parents_def)

lemma updated_rows_parents:
  "map_of (menu_parents (updated_rows items rows)) x =
    map_option (\<lambda>old. case map_of (parent_changes items []) x of None \<Rightarrow> old | Some p \<Rightarrow> p) (map_of (menu_parents rows) x)"
proof (induction items arbitrary: rows)
  case Nil
  then show ?case by (simp add: option.map_ident)
next
  case (Cons item items)
  obtain i v where item: "item = (i, v)" by (cases item)
  have "map_of (parent_changes (item # items) []) x =
      (map_of (case mi_parentId v of None \<Rightarrow> [] | Some p \<Rightarrow> mput i p []) ++ map_of (parent_changes items [])) x"
    by (simp add: item parent_changes_append [of items "case mi_parentId v of None \<Rightarrow> [] | Some p \<Rightarrow> mput i p []"])
  then show ?case using Cons
    by (cases "mi_parentId v"; cases "map_of (parent_changes items []) x"; cases "map_of (menu_parents rows) x")
      (simp_all add: item menu_parents_write map_add_def)
qed

text \<open>\<open>checkParents\<close> passing, the update leaves a forest.\<close>

lemma checkParents_forest:
  assumes ok: "distinct (map mn_id (bs_menus s))" "forest_ok (bs_menus s)"
    and check: "checkParents env (parent_changes items []) s = (Inr u, s')"
  shows "forest_ok (updated_rows items (bs_menus s))"
proof -
  let ?rows = "bs_menus s" and ?new = "updated_rows items (bs_menus s)" and ?cs = "parent_changes items []"
  have d: "distinct (map fst ?cs)" by (rule parent_changes_distinct) simp
  have change: "(map_of (menu_parents ?rows) i \<noteq> None \<and> (\<forall>q. p = Some q \<longrightarrow> q = 0 \<or> map_of (menu_parents ?rows) q \<noteq> None)) \<and>
      climbs (up (menu_parents ?new)) {} i" if "(i, p) \<in> set ?cs" for i p
  proof -
    have ne: "?cs \<noteq> []" using that by auto
    obtain P' where P': "change_parents (menu_parents (sort_key mn_id ?rows)) ?cs = Inr P'"
      and c: "list_all (\<lambda>(i, p). climbs (up P') {} i) ?cs"
    proof (cases "change_parents (menu_parents (sort_key mn_id ?rows)) ?cs")
      case (Inl e)
      then show ?thesis using check ne by (auto simp: checkParents_def bindA_Inr_iff)
    next
      case (Inr P')
      then have "list_all (\<lambda>(i, p). climbs (up P') {} i) ?cs"
        using check ne by (auto simp: checkParents_def bindA_Inr_iff split: if_splits)
      with Inr show ?thesis ..
    qed
    note P = change_parents_Inr [OF P' d, unfolded map_of_menu_parents_sort [OF ok(1)]]
    have "map_of (menu_parents ?rows) i \<noteq> None \<and> (\<forall>q. p = Some q \<longrightarrow> q = 0 \<or> map_of (menu_parents ?rows) q \<noteq> None)"
      using P that by blast
    moreover have "map_of P' x = map_of (menu_parents ?new) x" for x
    proof -
      have "map_of ?cs x = None" if "map_of (menu_parents ?rows) x = None"
        using P that by (metis (mono_tags, lifting) case_prodD map_of_SomeD not_None_eq)
      then show ?thesis using P by (cases "map_of ?cs x"; cases "map_of (menu_parents ?rows) x") (auto simp: updated_rows_parents map_add_def)
    qed
    then have "up P' = up (menu_parents ?new)" by (intro ext up_cong)
    with c that have "climbs (up (menu_parents ?new)) {} i" by (auto simp: list_all_iff)
    ultimately show ?thesis by blast
  qed
  have ids: "mn_id ` set ?new = mn_id ` set ?rows" by (metis updated_rows_ids list.set_map)
  have "p = 0 \<or> p \<in> mn_id ` set ?new" if m: "m \<in> set ?new" "mn_parentID m = Some p" for m p
  proof -
    have "distinct (map mn_id ?new)" using ok(1) by (simp add: updated_rows_ids)
    from map_of_menu_parents [OF this m(1)] m(2) have new: "map_of (menu_parents ?new) (mn_id m) = Some (Some p)" by simp
    show ?thesis
    proof (cases "map_of ?cs (mn_id m)")
      case None
      with new have "map_of (menu_parents ?rows) (mn_id m) = Some (Some p)" by (auto simp: updated_rows_parents)
      then have "(mn_id m, Some p) \<in> set (menu_parents ?rows)" by (rule map_of_SomeD)
      then obtain m' where "m' \<in> set ?rows" "mn_parentID m' = Some p" by (auto simp: menu_parents_def)
      then show ?thesis using ok(2) unfolding ids forest_ok_def by blast
    next
      case (Some p')
      with new have "(mn_id m, Some p) \<in> set ?cs" by (auto simp: updated_rows_parents dest: map_of_SomeD)
      then show ?thesis using change unfolding ids map_of_menu_parents_None by blast
    qed
  qed
  moreover have "acyclic (parent_edges (up (menu_parents ?new)))"
  proof (rule acyclic_changed [of "up (menu_parents ?rows)" "fst ` set ?cs"])
    show "acyclic (parent_edges (up (menu_parents ?rows)))" using ok(2) by (simp add: forest_ok_def)
    show "up (menu_parents ?new) x = up (menu_parents ?rows) x" if "x \<notin> fst ` set ?cs" for x
    proof (rule up_cong)
      have "map_of ?cs x = None" using that by (simp add: map_of_eq_None_iff)
      then show "map_of (menu_parents ?new) x = map_of (menu_parents ?rows) x"
        by (simp add: updated_rows_parents option.map_ident)
    qed
    show "climbs (up (menu_parents ?new)) {} c" if "c \<in> fst ` set ?cs" for c using change that by auto
  qed
  ultimately show ?thesis by (auto simp: forest_ok_def)
qed

section \<open>Deleting trees\<close>

text \<open>A menu and the menus whose parent it is.\<close>

definition menu_edges :: "menu list \<Rightarrow> (u64 \<times> u64) set" where
  "menu_edges rows = {(p, mn_id m) | p m. m \<in> set rows \<and> mn_parentID m = Some p}"

lemma menu_edges_simps:
  "menu_edges [] = {}"
  "menu_edges (m # rows) = (case mn_parentID m of None \<Rightarrow> {} | Some p \<Rightarrow> {(p, mn_id m)}) \<union> menu_edges rows"
  by (auto simp: menu_edges_def split: option.splits)

declare lockLevels.simps [simp del]

lemma level_candidates_set: "0 \<notin> mn_id ` set rows \<Longrightarrow>
    set (level_candidates rows seen level) = {x. \<exists>p \<in> set level. (p, x) \<in> menu_edges rows} - set seen"
  by (fastforce simp: level_candidates_def menu_edges_def split: option.splits)

lemma next_level_set:
  assumes "set candidates \<subseteq> {x. \<exists>p \<in> set level. (p, x) \<in> menu_edges rows}" "distinct (map mn_id rows)"
  shows "set (next_level rows candidates level) = set candidates"
proof -
  have "x \<in> set (next_level rows candidates level)" if x: "x \<in> set candidates" for x
  proof -
    obtain p m where "p \<in> set level" "m \<in> set rows" "mn_parentID m = Some p" "x = mn_id m"
      using assms(1) x by (auto simp: menu_edges_def)
    then show ?thesis using x by (auto simp: next_level_def)
  qed
  then show ?thesis using next_level_subset by blast
qed

lemma lockLevels_closes:
  assumes rows: "distinct (map mn_id (bs_menus s))" "0 \<notin> mn_id ` set (bs_menus s)"
  shows "lockLevels env s seen level = Inr out \<Longrightarrow> set level \<subseteq> set seen \<Longrightarrow>
    (\<forall>p \<in> set seen - set level. \<forall>x. (p, x) \<in> menu_edges (bs_menus s) \<longrightarrow> x \<in> set seen) \<Longrightarrow>
    set out = {x. \<exists>r \<in> set seen. (r, x) \<in> (menu_edges (bs_menus s))\<^sup>*}"
  using rows
proof (induction env s seen level rule: lockLevels.induct)
  case (1 env s seen level)
  let ?E = "menu_edges (bs_menus s)" and ?cands = "level_candidates (bs_menus s) seen level"
  have closed: "set seen = {x. \<exists>r \<in> set seen. (r, x) \<in> ?E\<^sup>*}" if "set ?cands = {}"
  proof -
    have step: "x \<in> set seen" if "p \<in> set seen" "(p, x) \<in> ?E" for p x
    proof (cases "p \<in> set level")
      case True
      then have "x \<in> {x. \<exists>p \<in> set level. (p, x) \<in> ?E}" using that(2) by blast
      moreover have "{x. \<exists>p \<in> set level. (p, x) \<in> ?E} - set seen = {}"
        using \<open>set ?cands = {}\<close> unfolding level_candidates_set [OF 1(6)] .
      ultimately show ?thesis by blast
    next
      case False
      with that 1(4) show ?thesis by (meson DiffI)
    qed
    have "x \<in> set seen" if "(r, x) \<in> ?E\<^sup>*" "r \<in> set seen" for r x
      using that by (induction rule: rtrancl_induct) (auto intro: step)
    then show ?thesis by blast
  qed
  have run: "lockLevels env s seen level =
      (if level = [] then Inr seen
       else (case be_fail env ''query menu children'' of
           Some e \<Rightarrow> Inl (wrap_core ''query menu children'' e)
         | None \<Rightarrow> if ?cands = [] then Inr seen
             else (case fst (lockMenus env ?cands s) of
                 Inl e \<Rightarrow> Inl e
               | Inr _ \<Rightarrow> (case be_fail env ''query locked menus'' of
                   Some e \<Rightarrow> Inl (wrap_core ''query locked menus'' e)
                 | None \<Rightarrow> lockLevels env s (seen @ next_level (bs_menus s) ?cands level) (next_level (bs_menus s) ?cands level)))))"
    by (rule lockLevels.simps [unfolded Let_def])
  note ran = trans [OF 1(2) [symmetric] run]
  consider (stop) "level = [] \<or> ?cands = []" "out = seen"
    | (more) "level \<noteq> []" "?cands \<noteq> []" "lockLevels env s (seen @ next_level (bs_menus s) ?cands level) (next_level (bs_menus s) ?cands level) = Inr out"
      "be_fail env ''query menu children'' = None" "be_fail env ''query locked menus'' = None" "\<exists>u. fst (lockMenus env ?cands s) = Inr u"
  proof (cases "level = []")
    case True
    then have "out = seen" using ran by simp
    then show ?thesis using True by (intro stop) simp_all
  next
    case level: False
    then have q: "be_fail env ''query menu children'' = None" using ran by (cases "be_fail env ''query menu children''") simp_all
    show ?thesis
    proof (cases "?cands = []")
      case True
      then have "out = seen" using ran level q by simp
      then show ?thesis using True by (intro stop) simp_all
    next
      case cands: False
      obtain u where u: "fst (lockMenus env ?cands s) = Inr u"
        using ran level q cands by (cases "fst (lockMenus env ?cands s)") simp_all
      then have l: "be_fail env ''query locked menus'' = None"
        using ran level q cands by (cases "be_fail env ''query locked menus''") simp_all
      show ?thesis
      proof (rule more)
        show "lockLevels env s (seen @ next_level (bs_menus s) ?cands level) (next_level (bs_menus s) ?cands level) = Inr out"
          using ran level q cands u l by simp
      qed (use level q cands u l in simp_all)
    qed
  qed
  then show ?case
  proof cases
    case stop
    have "set ?cands = {}" using stop(1) level_candidates_set [OF 1(6), of seen level] by auto
    with closed stop(2) show ?thesis by blast
  next
    case more
    let ?next = "next_level (bs_menus s) ?cands level"
    have nl: "set ?next = set ?cands" using level_candidates_set [OF 1(6), of seen level] 1(5) by (intro next_level_set) auto
    obtain u where u: "fst (lockMenus env ?cands s) = Inr u" using more(6) by blast
    note cset = level_candidates_set [OF 1(6), of seen level]
    have "set out = {x. \<exists>r \<in> set (seen @ ?next). (r, x) \<in> ?E\<^sup>*}"
    proof (rule 1(1) [OF more(1,4) refl more(2) u more(5,3)])
      show "set ?next \<subseteq> set (seen @ ?next)" by simp
      show "\<forall>p \<in> set (seen @ ?next) - set ?next. \<forall>x. (p, x) \<in> ?E \<longrightarrow> x \<in> set (seen @ ?next)"
      proof (intro ballI allI impI)
        fix p x assume p: "p \<in> set (seen @ ?next) - set ?next" and x: "(p, x) \<in> ?E"
        show "x \<in> set (seen @ ?next)"
        proof (cases "p \<in> set level")
          case True
          with x have "x \<in> set seen \<or> x \<in> set ?cands" unfolding cset by blast
          then show ?thesis using nl by auto
        next
          case False
          with p x 1(4) show ?thesis by auto
        qed
      qed
    qed (rule 1(5), rule 1(6))
    also have "\<dots> = {x. \<exists>r \<in> set seen. (r, x) \<in> ?E\<^sup>*}"
    proof -
      have "\<exists>r \<in> set seen. (r, x) \<in> ?E\<^sup>*" if c: "c \<in> set ?next" "(c, x) \<in> ?E\<^sup>*" for c x
      proof -
        obtain p where "p \<in> set seen" "(p, c) \<in> ?E"
          using c(1) 1(3) unfolding nl cset by blast
        with c(2) show ?thesis by (meson converse_rtrancl_into_rtrancl)
      qed
      then show ?thesis by auto
    qed
    finally show ?thesis .
  qed
qed

text \<open>The locks of the children always succeed: they were read as existing rows.\<close>

lemma lockMenus_present: "be_fail env ''lock base_sys_menu'' = None \<Longrightarrow> set ids \<subseteq> mn_id ` set (bs_menus s) \<Longrightarrow>
    lockMenus env ids s = (Inr (), s)"
proof -
  assume "be_fail env ''lock base_sys_menu'' = None" "set ids \<subseteq> mn_id ` set (bs_menus s)"
  then have "lockA env ''base_sys_menu'' ids ''lock menus failed'' s = (Inr (), s)"
    by (auto simp: lockA_Inr_iff table_ids_def)
  then show ?thesis by (simp add: lockMenus_def)
qed

lemma level_candidates_rows: "set (level_candidates rows seen level) \<subseteq> mn_id ` set rows"
  by (auto simp: level_candidates_def)

lemma lockLevels_ends:
  assumes "be_fail env = (\<lambda>_. None)"
  shows "\<exists>out. lockLevels env s seen level = Inr out"
  using assms
proof (induction env s seen level rule: lockLevels.induct)
  case (1 env s seen level)
  let ?cands = "level_candidates (bs_menus s) seen level"
  show ?case
  proof (cases "level = [] \<or> ?cands = []")
    case True
    then show ?thesis using 1(2) by (subst lockLevels.simps) (auto simp: Let_def)
  next
    case False
    have u: "lockMenus env ?cands s = (Inr (), s)" using 1(2) by (intro lockMenus_present level_candidates_rows) simp
    then have "\<exists>out. lockLevels env s (seen @ next_level (bs_menus s) ?cands level) (next_level (bs_menus s) ?cands level) = Inr out"
      using False 1 by auto
    then show ?thesis using False u 1(2) by (subst lockLevels.simps) (simp add: Let_def)
  qed
qed

text \<open>C26: Deleting menus takes exactly the selected menus with everything below them, each once and also
  when the rows form cycles: the walk by levels ends, and unless a statement fails it returns the
  menus that a chain of parents leads from to a selected one.\<close>

theorem deleted_menus_are_the_trees:
  assumes "be_fail env = (\<lambda>_. None)" "distinct (map mn_id (bs_menus s))" "0 \<notin> mn_id ` set (bs_menus s)"
    and "set ids - {0} \<noteq> {}" "set ids - {0} \<subseteq> mn_id ` set (bs_menus s)"
  shows "\<exists>out. lockTree env ids s = (Inr out, s) \<and> sorted out \<and> distinct out \<and>
    set out = {x. \<exists>r \<in> set ids - {0}. (r, x) \<in> (menu_edges (bs_menus s))\<^sup>*}"
proof -
  let ?roots = "NormalizeIDs ids"
  have ne: "?roots \<noteq> []" using assms(4) by (metis set_NormalizeIDs set_empty)
  obtain out where out: "lockLevels env s ?roots ?roots = Inr out" using lockLevels_ends [OF assms(1)] by blast
  have tree: "set out = {x. \<exists>r \<in> set ids - {0}. (r, x) \<in> (menu_edges (bs_menus s))\<^sup>*}"
    using lockLevels_closes [OF assms(2,3) out] by simp
  have "0 \<notin> set out"
  proof
    assume "0 \<in> set out"
    then obtain r where r: "r \<noteq> 0" "(r, 0) \<in> (menu_edges (bs_menus s))\<^sup>*" unfolding tree by blast
    then obtain p where "(p, 0) \<in> menu_edges (bs_menus s)" by (meson rtranclE)
    with assms(3) show False by (auto simp: menu_edges_def)
  qed
  then have "set (NormalizeIDs out) = set out" by simp
  moreover have "lockMenus env ?roots s = (Inr (), s)" using assms(1,5) by (intro lockMenus_present) simp_all
  then have "lockTree env ids s = (Inr (NormalizeIDs out), s)" using ne out by (simp add: lockTree_def Let_def bindA_def)
  ultimately show ?thesis using tree NormalizeIDs_sorted by metis
qed

definition plain_env :: base_env where
  "plain_env = \<lparr>be_fail = (\<lambda>_. None), be_now = 10, be_ctx = ContextOk, be_newID = (\<lambda>s. 9),
     be_Hash = (\<lambda>p. Inr (''#'' @ p)), be_Verify = (\<lambda>p h. Inr (h = ''#'' @ p))\<rparr>"

definition empty_base :: base_state where
  "empty_base = \<lparr>bs_users = [], bs_roles = [], bs_menus = [], bs_departments = [], bs_userRoles = [], bs_roleMenus = [],
     bs_roleDepartments = [], bs_sessions = [], bs_cache = []\<rparr>"

text \<open>Menus 1 and 2 are each other's parent, 3 is below 2.\<close>

definition cyclic_menus :: base_state where
  "cyclic_menus = empty_base\<lparr>bs_menus := [(new_menu 1)\<lparr>mn_parentID := Some 2\<rparr>, (new_menu 2)\<lparr>mn_parentID := Some 1\<rparr>,
     (new_menu 3)\<lparr>mn_parentID := Some 2\<rparr>]\<rparr>"

theorem deleted_menus_are_the_trees_witness:
  "\<exists>out. lockTree plain_env [1] cyclic_menus = (Inr out, cyclic_menus) \<and> 3 \<in> set out"
proof -
  have menus: "bs_menus cyclic_menus = [(new_menu 1)\<lparr>mn_parentID := Some 2\<rparr>, (new_menu 2)\<lparr>mn_parentID := Some 1\<rparr>,
      (new_menu 3)\<lparr>mn_parentID := Some 2\<rparr>]" by (simp add: cyclic_menus_def empty_base_def)
  have "be_fail plain_env = (\<lambda>_. None)" by (simp add: plain_env_def)
  moreover have "distinct (map mn_id (bs_menus cyclic_menus))" "0 \<notin> mn_id ` set (bs_menus cyclic_menus)"
    "set [1] - {0} \<noteq> ({} :: u64 set)" "set [1] - {0} \<subseteq> mn_id ` set (bs_menus cyclic_menus)"
    by (simp_all add: menus new_menu_def)
  ultimately obtain out where out: "lockTree plain_env [1] cyclic_menus = (Inr out, cyclic_menus)"
    "set out = {x. \<exists>r \<in> set [1] - {0}. (r, x) \<in> (menu_edges (bs_menus cyclic_menus))\<^sup>*}"
    using deleted_menus_are_the_trees [of plain_env cyclic_menus "[1]"] by blast
  have "(1, 2) \<in> menu_edges (bs_menus cyclic_menus)" "(2, 3) \<in> menu_edges (bs_menus cyclic_menus)"
    by (simp_all add: menus menu_edges_simps new_menu_def)
  then have "(1, 3) \<in> (menu_edges (bs_menus cyclic_menus))\<^sup>*" by (meson rtrancl.simps)
  then have "3 \<in> set out" unfolding out(2) by simp
  with out(1) show ?thesis by blast
qed

end
