(* ===== verification/Base_Integrity.thy ===== *)
theory Base_Integrity
  imports Base_Forest
begin

text \<open>
  The operations of the base module together, and what none of them destroys: the keys and relations
  of the tables, the forest of menus, and an administrator who can sign in.
\<close>

section \<open>Operations\<close>

text \<open>Each runs in one transaction, which the dispatcher of CRUD actions (\<open>crud/dispatcher.go\<close>) or the
  pipeline of a route (\<open>core/gnctrl/pipeline.go\<close>) opens.\<close>

datatype base_op =
    UserAdd "user_input add_input" | UserUpdate "user_input update_input" | UserDelete "u64 list"
  | UserMove u64 "u64 list" | PersonUpdate "auth_context option" person_input
  | RoleAdd "role_input add_input" | RoleUpdate "role_input update_input" | RoleDelete "u64 list"
  | DepartmentAdd "department_input add_input" | DepartmentUpdate "department_input update_input"
  | DepartmentOrder "dept_order list" | DepartmentDelete "u64 list" bool
  | MenuAdd "menu_input add_input" | MenuUpdate "menu_input update_input" | MenuDelete "u64 list"
  | MenuImport "menu_tree list"

definition ignoreA :: "'a act \<Rightarrow> unit act" where
  "ignoreA m = bindA m (\<lambda>_. returnA ())"

text \<open>A call that does not return never commits.\<close>

definition returning :: "(base_state \<Rightarrow> ((go_error, unit) result \<times> base_state) option) \<Rightarrow> unit act" where
  "returning m s = (case m s of None \<Rightarrow> (Inl (PlainError ''does not return''), s) | Some r \<Rightarrow> r)"

fun base_call :: "base_env \<Rightarrow> base_op \<Rightarrow> unit act" where
  "base_call env (UserAdd inp) = ignoreA (user_Add env inp)"
| "base_call env (UserUpdate inp) = user_Update env inp"
| "base_call env (UserDelete ids) = user_Delete env ids"
| "base_call env (UserMove d ids) = user_Move env d ids"
| "base_call env (PersonUpdate ctx req) = user_PersonUpdate env ctx req"
| "base_call env (RoleAdd inp) = ignoreA (role_Add env inp)"
| "base_call env (RoleUpdate inp) = role_Update env inp"
| "base_call env (RoleDelete ids) = role_Delete env ids"
| "base_call env (DepartmentAdd inp) = ignoreA (department_Add env inp)"
| "base_call env (DepartmentUpdate inp) = department_Update env inp"
| "base_call env (DepartmentOrder req) = department_Order env req"
| "base_call env (DepartmentDelete ids deleteUser) = returning (department_Delete env ids deleteUser)"
| "base_call env (MenuAdd inp) = ignoreA (menu_Add env inp)"
| "base_call env (MenuUpdate inp) = menu_Update env inp"
| "base_call env (MenuDelete ids) = menu_Delete env ids"
| "base_call env (MenuImport menus) = menu_Import env menus"

definition base_step :: "base_env \<Rightarrow> base_op \<Rightarrow> unit act" where
  "base_step env c = withinTx (base_call env c)"

fun base_run :: "(base_env \<times> base_op) list \<Rightarrow> base_state \<Rightarrow> base_state" where
  "base_run [] s = s"
| "base_run ((env, c) # cs) s = base_run cs (snd (base_step env c s))"

lemma ignoreA_Inr_iff [simp]: "ignoreA m s = (Inr u, s') \<longleftrightarrow> (\<exists>x. m s = (Inr x, s'))"
  by (simp add: ignoreA_def bindA_Inr_iff)

lemma returning_Inr_iff [simp]: "returning m s = (Inr u, s') \<longleftrightarrow> m s = Some (Inr u, s')"
  by (auto simp: returning_def split: option.splits)

lemma preserves_ignoreA: "preserves P m \<Longrightarrow> preserves P (ignoreA m)"
  by (auto simp: preserves_def)

section \<open>What locks and queries tell\<close>

abbreviation user_ids :: "base_state \<Rightarrow> u64 set" where "user_ids s \<equiv> us_id ` set (bs_users s)"
abbreviation role_ids :: "base_state \<Rightarrow> u64 set" where "role_ids s \<equiv> ro_id ` set (bs_roles s)"
abbreviation menu_ids :: "base_state \<Rightarrow> u64 set" where "menu_ids s \<equiv> mn_id ` set (bs_menus s)"
abbreviation dept_ids :: "base_state \<Rightarrow> u64 set" where "dept_ids s \<equiv> dm_id ` set (bs_departments s)"

lemma table_ids_simps [simp]:
  "table_ids ''base_sys_user'' s = map us_id (bs_users s)" "table_ids ''base_sys_role'' s = map ro_id (bs_roles s)"
  "table_ids ''base_sys_menu'' s = map mn_id (bs_menus s)" "table_ids ''base_sys_department'' s = map dm_id (bs_departments s)"
  by (simp_all add: table_ids_def)

lemma locked:
  "lockUsers env ids s = (Inr u, s') \<Longrightarrow> set ids - {0} \<subseteq> user_ids s"
  "lockRoles env ids s = (Inr u, s') \<Longrightarrow> set ids - {0} \<subseteq> role_ids s"
  "lockMenus env ids s = (Inr u, s') \<Longrightarrow> set ids - {0} \<subseteq> menu_ids s"
  "lockDepts env ids s = (Inr u, s') \<Longrightarrow> set ids - {0} \<subseteq> dept_ids s"
  by (auto simp: lockUsers_def lockRoles_def lockMenus_def lockDepts_def lockA_Inr_iff)

lemma lockPerms_Inr: "lockPerms env ms ds s = (Inr u, s') \<Longrightarrow> set ms - {0} \<subseteq> menu_ids s \<and> set ds - {0} \<subseteq> dept_ids s"
  by (auto simp: lockPerms_def bindA_keeps lockA_Inr_iff)

lemma perm_IsAdmin_Inr: "perm_IsAdmin env ids s = (Inr b, s') \<Longrightarrow>
    b \<longleftrightarrow> (\<exists>r \<in> set (bs_roles s). ro_id r \<in> set ids \<and> is_admin_role r)"
  by (auto simp: perm_IsAdmin_def list_ex_iff split: if_splits)

lemma joined_roles_set: "set (map fst (joined_roles s u)) = {r. (u, r) \<in> set (bs_userRoles s) \<and> r \<in> role_ids s}"
  by (force simp: joined_roles_def)

lemma roleSnap_Inr: "roleSnap env us s = (Inr m, s') \<Longrightarrow> m = map (\<lambda>u. (u, map fst (joined_roles s u))) (NormalizeIDs us)"
  by (auto simp: roleSnap_def perm_roles_def bindA_Inr_iff Let_def split: if_splits)

lemma adminRoles_Inr: "adminRoles env s = (Inr ids, s') \<Longrightarrow> set ids = ro_id ` {r \<in> set (bs_roles s). is_admin_role r}"
  by (auto simp: adminRoles_def)

lemma prepRoles_Inr:
  assumes "prepRoles env us nxt s = (Inr m, s')"
  shows "m = map (\<lambda>u. (u, map fst (joined_roles s u))) (NormalizeIDs us)" "set nxt - {0} \<subseteq> role_ids s"
proof -
  obtain admins u before v where a: "adminRoles env s = (Inr admins, s)" "roleSnap env (NormalizeIDs us) s = (Inr before, s)"
    "lockRoles env (filter (\<lambda>i. i \<notin> set admins) (NormalizeIDs (NormalizeIDs nxt @ concat (map snd before)))) s = (Inr v, s)"
    "m = before"
    using assms by (auto simp: prepRoles_def Let_def bindA_keeps)
  show "m = map (\<lambda>u. (u, map fst (joined_roles s u))) (NormalizeIDs us)" using roleSnap_Inr [OF a(2)] a(4) by simp
  have "set admins \<subseteq> role_ids s" using adminRoles_Inr [OF a(1)] by auto
  then show "set nxt - {0} \<subseteq> role_ids s" using locked(2) [OF a(3)] by auto
qed

lemma userByID_Inr: "userByID env i s = (Inr r, s') \<Longrightarrow> r = find (\<lambda>u. us_id u = i) (bs_users s)"
  by (simp add: userByID_def)

lemma find_id:
  "find (\<lambda>x. f x = i) xs = Some x \<Longrightarrow> x \<in> set xs \<and> f x = i"
  by (auto simp: find_Some_iff)

section \<open>Consistent tables\<close>

definition keys_ok :: "base_state \<Rightarrow> bool" where
  "keys_ok s \<longleftrightarrow> distinct (map us_id (bs_users s)) \<and> distinct (map ro_id (bs_roles s)) \<and> distinct (map mn_id (bs_menus s)) \<and>
     distinct (map dm_id (bs_departments s)) \<and> 0 \<notin> user_ids s \<and> 0 \<notin> role_ids s \<and> 0 \<notin> menu_ids s \<and> 0 \<notin> dept_ids s"

definition relations_ok :: "base_state \<Rightarrow> bool" where
  "relations_ok s \<longleftrightarrow> set (bs_userRoles s) \<subseteq> user_ids s \<times> role_ids s \<and> set (bs_roleMenus s) \<subseteq> role_ids s \<times> menu_ids s \<and>
     set (bs_roleDepartments s) \<subseteq> role_ids s \<times> dept_ids s"

definition base_ok :: "base_state \<Rightarrow> bool" where
  "base_ok s \<longleftrightarrow> keys_ok s \<and> relations_ok s \<and> forest_ok (bs_menus s)"

text \<open>Rewriting rows without touching their keys.\<close>

lemma map_keys: "(\<And>x. k (f x) = k x) \<Longrightarrow> map k (map f xs) = map k xs"
  by simp

lemma image_keys: "(\<And>x. k (f x) = k x) \<Longrightarrow> k ` set (map f xs) = k ` set xs"
  by (simp add: image_image)

lemma user_write_id [simp]: "us_id (user_write w u) = us_id u"
  by (simp add: user_write_def split: prod.split)

lemma role_write_id [simp]: "ro_id (role_write v r) = ro_id r"
  by (simp add: role_write_def)

lemma department_write_id [simp]: "dm_id (department_write v d) = dm_id d"
  by (simp add: department_write_def)

lemma new_ids [simp]: "us_id (new_user i) = i" "ro_id (new_role i) = i" "dm_id (new_department i) = i" "mn_id (new_menu i) = i"
    "mn_id (node_menu n p i) = i" "mn_parentID (node_menu n p i) = p" "mn_parentID (new_menu i) = None"
  by (simp_all add: new_user_def new_role_def new_department_def new_menu_def node_menu_def)

text \<open>Users may be rewritten if their keys stay.\<close>

lemma base_ok_users:
  assumes "base_ok s" "map us_id us = map us_id (bs_users s)"
  shows "base_ok (s\<lparr>bs_users := us\<rparr>)"
proof -
  have "us_id ` set us = us_id ` set (bs_users s)" using assms(2) by (metis list.set_map)
  then show ?thesis using assms by (simp add: base_ok_def keys_ok_def relations_ok_def)
qed

lemma base_ok_roles:
  assumes "base_ok s" "map ro_id rs = map ro_id (bs_roles s)"
  shows "base_ok (s\<lparr>bs_roles := rs\<rparr>)"
proof -
  have "ro_id ` set rs = ro_id ` set (bs_roles s)" using assms(2) by (metis list.set_map)
  then show ?thesis using assms by (simp add: base_ok_def keys_ok_def relations_ok_def)
qed

lemma base_ok_departments:
  assumes "base_ok s" "map dm_id ds = map dm_id (bs_departments s)"
  shows "base_ok (s\<lparr>bs_departments := ds\<rparr>)"
proof -
  have "dm_id ` set ds = dm_id ` set (bs_departments s)" using assms(2) by (metis list.set_map)
  then show ?thesis using assms by (simp add: base_ok_def keys_ok_def relations_ok_def)
qed

lemma base_ok_menus:
  assumes "base_ok s" "map mn_id ms = map mn_id (bs_menus s)" "forest_ok ms"
  shows "base_ok (s\<lparr>bs_menus := ms\<rparr>)"
proof -
  have "mn_id ` set ms = mn_id ` set (bs_menus s)" using assms(2) by (metis list.set_map)
  then show ?thesis using assms by (simp add: base_ok_def keys_ok_def relations_ok_def)
qed

lemma base_ok_outside [simp]: "base_ok (s\<lparr>bs_sessions := st\<rparr>) = base_ok s" "base_ok (s\<lparr>bs_cache := c\<rparr>) = base_ok s"
    "base_ok (s\<lparr>bs_sessions := st, bs_cache := c\<rparr>) = base_ok s"
  by (simp_all add: base_ok_def keys_ok_def relations_ok_def)

section \<open>Users keep the tables consistent\<close>

lemma setRoles_writes:
  assumes "setRoles env i ids s = (Inr u, s')"
  shows "s' = s\<lparr>bs_userRoles := filter (\<lambda>(x, r). x \<noteq> i) (bs_userRoles s) @ map (\<lambda>r. (i, r)) (NormalizeIDs ids)\<rparr> \<and> i \<noteq> 0"
  using assms by (auto simp: setRoles_def Let_def bindA_Inr_iff split: if_splits)

lemma setRoles_ok:
  assumes "setRoles env i ids s = (Inr u, s')" "base_ok s" "i \<in> user_ids s" "set ids - {0} \<subseteq> role_ids s"
  shows "base_ok s'"
  using setRoles_writes [OF assms(1)] assms(2-4) by (auto simp: base_ok_def keys_ok_def relations_ok_def)

lemma delRoles_writes:
  assumes "delRoles env ids s = (Inr u, s')"
  shows "s' = s\<lparr>bs_userRoles := filter (\<lambda>(x, r). x \<notin> set ids - {0}) (bs_userRoles s)\<rparr>"
proof -
  have "filter (\<lambda>(x, r). x \<notin> set ids - {0}) (bs_userRoles s) = bs_userRoles s" if "NormalizeIDs ids = []"
    using that by (metis (mono_tags, lifting) case_prod_beta' empty_iff filter_True set_NormalizeIDs set_empty)
  then show ?thesis using assms by (auto simp: delRoles_def Let_def split: if_splits)
qed

lemma roleIDs_ids: "roleIDs v = (ids, b) \<Longrightarrow> NormalizeIDs ids = ids"
  by (auto simp: roleIDs_def split: option.splits)

lemma put_user_ok:
  "put_user v i s = Some s' \<Longrightarrow> base_ok s \<Longrightarrow> i \<noteq> 0 \<Longrightarrow> i \<notin> user_ids s \<Longrightarrow> base_ok s'"
  by (auto simp: put_user_def base_ok_def keys_ok_def relations_ok_def split: if_splits)

lemma base_Add_one:
  assumes "base_Add env table put (AddOne v) s = (Inr ids, s')"
  shows "\<exists>i. ids = [i] \<and> i \<noteq> 0 \<and> i \<notin> set (table_ids table s) \<and> put v i s = Some s' \<and> unique_indexes s'"
  using assms by (auto simp: base_Add_def bindA_Inr_iff insertA_def split: if_splits option.splits)

lemma base_Update_one:
  assumes "base_Update env count put (UpdateOne i v) s = (Inr u, s')"
  shows "s' = put i v s"
  using assms by (auto simp: base_Update_def bindA_Inr_iff split: if_splits)

lemma user_Add_effect:
  assumes "user_Add env inp s = (Inr ids, s')"
  obtains v v' i s1 u where "inp = AddOne v" "i \<noteq> 0" "i \<notin> user_ids s" "put_user v' i s = Some s1" "set (fst (roleIDs v)) \<subseteq> role_ids s"
    "setRoles env i (fst (roleIDs v)) s1 = (Inr u, s')" "ids = [i]"
proof -
  obtain v where inp: "inp = AddOne v" using assms by (cases inp) (auto simp: user_Add_def)
  obtain v' u where a: "hashPassword env v = Inr v'" "lockRoles env (fst (roleIDs v)) s = (Inr u, s)"
    and b: "bindA (base_Add env ''base_sys_user'' put_user (AddOne v')) (\<lambda>ids.
           bindA (setRoles env (hd ids) (fst (roleIDs v))) (\<lambda>_. returnA ids)) s = (Inr ids, s')"
    using assms by (auto simp: user_Add_def inp Let_def bindA_keeps split: if_splits)
  obtain s1 x where c: "base_Add env ''base_sys_user'' put_user (AddOne v') s = (Inr ids, s1)"
    "setRoles env (hd ids) (fst (roleIDs v)) s1 = (Inr x, s')"
    using b by (auto simp: bindA_Inr_iff)
  obtain i where i: "ids = [i]" "i \<noteq> 0" "i \<notin> user_ids s" "put_user v' i s = Some s1" using base_Add_one [OF c(1)] by auto
  have "NormalizeIDs (fst (roleIDs v)) = fst (roleIDs v)" using roleIDs_ids [of v] by (cases "roleIDs v") auto
  then have "0 \<notin> set (fst (roleIDs v))" by (metis Diff_iff insertI1 set_NormalizeIDs)
  then have "set (fst (roleIDs v)) \<subseteq> role_ids s" using locked(2) [OF a(2)] by blast
  with that inp i c(2) show thesis by simp
qed

lemma put_user_writes:
  "put_user v i s = Some s' \<Longrightarrow> s' = s\<lparr>bs_users := bs_users s @ [user_write (v, None) (new_user i)]\<rparr>"
  by (auto simp: put_user_def split: if_splits)

lemma user_Add_ok: "user_Add env inp s = (Inr ids, s') \<Longrightarrow> base_ok s \<Longrightarrow> base_ok s'"
proof (erule user_Add_effect)
  fix v v' i s1 u
  assume ok: "base_ok s" and p: "i \<noteq> 0" "i \<notin> user_ids s" "put_user v' i s = Some s1" "set (fst (roleIDs v)) \<subseteq> role_ids s"
    and r: "setRoles env i (fst (roleIDs v)) s1 = (Inr u, s')"
  have "i \<in> user_ids s1" "bs_roles s1 = bs_roles s" using put_user_writes [OF p(3)] by simp_all
  then show "base_ok s'" using p(4) put_user_ok [OF p(3) ok p(1,2)] by (intro setRoles_ok [OF r]) auto
qed

text \<open>The row of a user after an update, and the state with it.\<close>

lemma updatePassword_status: "updatePassword env v n = Inr (v', version) \<Longrightarrow> ui_status v' = ui_status v"
  by (auto simp: updatePassword_def split: option.splits if_splits sum.splits)

lemma update_user_writes: "update_user i w s = s\<lparr>bs_users := map (\<lambda>u. if us_id u = i then user_write w u else u) (bs_users s)\<rparr>"
  by (simp add: update_user_def)

lemma NormalizeIDs_one [simp]: "i \<noteq> 0 \<Longrightarrow> NormalizeIDs [i] = [i]"
  by (rule NormalizeIDs_fixed) auto

text \<open>An update of a user that ends well found no such user, or passed the checks, wrote the row and the
  roles, and revoked the sessions if what the user may do can have changed.\<close>

lemma user_write_locked_effect:
  assumes "user_write_locked env i v old row s = (Inr u, s')"
  obtains v' version s1 s2 where
    "ui_status v \<noteq> None \<or> snd (roleIDs v) \<Longrightarrow>
       \<exists>u. checkAdmin env i (us_status row) (submitted (ui_status v) (us_status row)) old (if snd (roleIDs v) then fst (roleIDs v) else old) s = (Inr u, s)"
    "ui_status v' = ui_status v"
    "s1 = update_user i (v', version) s \<or> s1 = s \<and> ui_status v = None"
    "if snd (roleIDs v) then \<exists>u. setRoles env i (fst (roleIDs v)) s1 = (Inr u, s2) else s2 = s1"
    "revokes (if ui_status v \<noteq> None \<or> snd (roleIDs v) then {i} else {}) s2 s'"
proof -
  let ?changed = "ui_status v \<noteq> None \<or> snd (roleIDs v)"
  let ?check = "checkAdmin env i (us_status row) (submitted (ui_status v) (us_status row)) old (if snd (roleIDs v) then fst (roleIDs v) else old)"
  have k: "keeps (if ?changed then ?check else returnA ())" by simp
  obtain x w s1 s2 where check: "(if ?changed then ?check else returnA ()) s = (Inr x, s)"
    and w: "updatePassword env v (us_passwordV row) = Inr w"
    and s1: "(if user_count w > 0 \<or> ui_ignored (fst w) then base_Update env user_count update_user (UpdateOne i w) else returnA ()) s = (Inr (), s1)"
    and s2: "(if snd (roleIDs v) then setRoles env i (fst (roleIDs v)) else returnA ()) s1 = (Inr (), s2)"
    and s': "(if ui_password (fst w) \<noteq> None \<or> ui_status (fst w) \<noteq> None \<or> snd (roleIDs v) then perm_revoke env [i] else returnA ()) s2 = (Inr u, s')"
    using assms unfolding user_write_locked_def Let_def bindA_keeps [OF k] by (auto simp: bindA_Inr_iff split: prod.splits)
  obtain v' version where w': "w = (v', version)" by (cases w)
  have status: "ui_status v' = ui_status v" using updatePassword_status w w' by blast
  show thesis
  proof (rule that [of v' s1 version s2])
    show "\<exists>u. ?check s = (Inr u, s)" if "?changed" using check that by auto
    show "s1 = update_user i (v', version) s \<or> s1 = s \<and> ui_status v = None"
      using s1 status by (auto simp: w' user_count_def present_def dest: base_Update_one split: if_splits)
    show "if snd (roleIDs v) then \<exists>u. setRoles env i (fst (roleIDs v)) s1 = (Inr u, s2) else s2 = s1"
      using s2 by auto
    show "revokes (if ?changed then {i} else {}) s2 s'"
    proof (cases "ui_password (fst w) \<noteq> None \<or> ?changed")
      case True
      then have "perm_revoke env [i] s2 = (Inr u, s')" using s' status w' by (auto split: if_splits)
      then have "revokes {i} s2 s'" using perm_revoke_revokes by fastforce
      then show ?thesis unfolding revokes_def by auto
    next
      case False
      then have "s' = s2" using s' status w' by (auto split: if_splits)
      then show ?thesis using False by (simp add: revokes_def)
    qed
  qed (rule status)
qed

lemma user_Update_effect:
  assumes "user_Update env inp s = (Inr u, s')" "0 \<notin> user_ids s"
  shows "s' = s \<or> (\<exists>i v row. inp = UpdateOne i v \<and> find (\<lambda>u. us_id u = i) (bs_users s) = Some row \<and> i \<noteq> 0 \<and>
    set (fst (roleIDs v)) \<subseteq> role_ids s \<and>
    user_write_locked env i v (if ui_status v \<noteq> None \<or> snd (roleIDs v) then map fst (joined_roles s i) else []) row s = (Inr u, s'))"
proof -
  obtain i v where inp: "inp = UpdateOne i v" using assms(1) by (cases inp) (auto simp: user_Update_def)
  let ?changed = "ui_status v \<noteq> None \<or> snd (roleIDs v)"
  let ?prep = "if ?changed then prepRoles env [i] (fst (roleIDs v)) else returnA []"
  let ?recheck = "\<lambda>before. if ?changed then bindA (roleSnap env [i]) (\<lambda>after. checkA (checkSnap before after)) else returnA ()"
  have k: "keeps ?prep" "\<And>before. keeps (?recheck before)"
    by simp (intro keeping, simp_all)
  obtain before found where before: "?prep s = (Inr before, s)" and found: "userByID env i s = (Inr found, s)"
    and case_rest: "(case found of None \<Rightarrow> returnA ()
      | Some r \<Rightarrow> user_write_locked env i v (case map_of before i of None \<Rightarrow> [] | Some ids \<Rightarrow> ids) r) s = (Inr u, s')"
    using assms(1) unfolding user_Update_def inp Let_def update_input.case bindA_keeps [OF k(1)] bindA_keeps [OF k(2)]
      bindA_keeps [OF keeps_department(1)] bindA_keeps [OF keeps_perm(7)] bindA_keeps [OF keeps_user] by blast
  note rest = case_rest [unfolded userByID_Inr [OF found]]
  show ?thesis
  proof (cases "find (\<lambda>u. us_id u = i) (bs_users s)")
    case None
    then show ?thesis using rest by simp
  next
    case (Some row)
    then have "i \<in> user_ids s" using find_id [of us_id] by fastforce
    then have i: "i \<noteq> 0" using assms(2) by metis
    have "(case map_of before i of None \<Rightarrow> [] | Some ids \<Rightarrow> ids) = (if ?changed then map fst (joined_roles s i) else [])"
      using before i by (auto dest: prepRoles_Inr(1) split: if_splits)
    moreover have "set (fst (roleIDs v)) \<subseteq> role_ids s"
    proof (cases "snd (roleIDs v)")
      case True
      have "NormalizeIDs (fst (roleIDs v)) = fst (roleIDs v)" using roleIDs_ids [of v] by (cases "roleIDs v") auto
      then have "0 \<notin> set (fst (roleIDs v))" by (metis Diff_iff insertI1 set_NormalizeIDs)
      moreover have "set (fst (roleIDs v)) - {0} \<subseteq> role_ids s" using before True by (auto dest: prepRoles_Inr(2))
      ultimately show ?thesis by blast
    next
      case False
      then show ?thesis by (auto simp: roleIDs_def split: option.splits)
    qed
    ultimately show ?thesis using rest Some inp i by auto
  qed
qed

lemma revokes_ok: "revokes U s s' \<Longrightarrow> base_ok s' = base_ok s"
  unfolding revokes_def by (metis base_ok_outside(3))

lemma update_user_ok [simp]: "base_ok s \<Longrightarrow> base_ok (update_user i w s)"
  unfolding update_user_writes by (rule base_ok_users) simp_all

lemma update_user_ids [simp]: "user_ids (update_user i w s) = user_ids s" "bs_roles (update_user i w s) = bs_roles s"
    "bs_userRoles (update_user i w s) = bs_userRoles s" "bs_roleMenus (update_user i w s) = bs_roleMenus s"
    "bs_menus (update_user i w s) = bs_menus s" "bs_sessions (update_user i w s) = bs_sessions s"
proof -
  have "map us_id (bs_users (update_user i w s)) = map us_id (bs_users s)" by (simp add: update_user_writes)
  then show "user_ids (update_user i w s) = user_ids s" by (metis list.set_map)
qed (simp_all add: update_user_writes)

lemma find_in_ids: "find (\<lambda>u. us_id u = i) us = Some row \<Longrightarrow> row \<in> set us \<and> us_id row = i \<and> i \<in> us_id ` set us"
  using find_id [of us_id i us row] by auto

lemma user_Update_ok:
  assumes "user_Update env inp s = (Inr u, s')" "base_ok s"
  shows "base_ok s'"
proof -
  have "0 \<notin> user_ids s" using assms(2) by (simp add: base_ok_def keys_ok_def)
  from user_Update_effect [OF assms(1) this] show ?thesis
  proof (elim disjE exE conjE)
    fix i v row
    assume row: "find (\<lambda>u. us_id u = i) (bs_users s) = Some row" and roles: "set (fst (roleIDs v)) \<subseteq> role_ids s"
      and w: "user_write_locked env i v (if ui_status v \<noteq> None \<or> snd (roleIDs v) then map fst (joined_roles s i) else []) row s = (Inr u, s')"
    show ?thesis
    proof (rule user_write_locked_effect [OF w])
      fix v' version s1 s2
      assume s1: "s1 = update_user i (v', version) s \<or> s1 = s \<and> ui_status v = None"
        and s2: "if snd (roleIDs v) then \<exists>u. setRoles env i (fst (roleIDs v)) s1 = (Inr u, s2) else s2 = s1"
        and s': "revokes (if ui_status v \<noteq> None \<or> snd (roleIDs v) then {i} else {}) s2 s'"
      have ok1: "base_ok s1" "i \<in> user_ids s1" "set (fst (roleIDs v)) - {0} \<subseteq> role_ids s1"
        using s1 assms(2) roles find_in_ids [OF row] by auto
      then have "base_ok s2" using s2 by (auto split: if_splits intro: setRoles_ok)
      then show ?thesis using revokes_ok [OF s'] by simp
    qed
  qed (use assms(2) in simp)
qed

lemma base_Delete_writes: "base_Delete env remove ids s = (Inr u, s') \<Longrightarrow> s' = remove ids s"
  by (auto simp: base_Delete_def split: if_splits)

lemma user_Delete_effect:
  assumes "user_Delete env ids s = (Inr u, s')"
  obtains v s1 where "set ids - {0} \<subseteq> user_ids s" "keepAdmin env (NormalizeIDs ids) s = (Inr v, s)"
    "s1 = s\<lparr>bs_userRoles := filter (\<lambda>(x, r). x \<notin> set ids - {0}) (bs_userRoles s), bs_users := filter (\<lambda>u. us_id u \<notin> set ids) (bs_users s)\<rparr>"
    "revokes (set ids) s1 s'"
proof -
  let ?ids = "NormalizeIDs ids"
  have ne: "?ids \<noteq> []" using assms by (auto simp: user_Delete_def Let_def split: if_splits)
  have u: "user_Delete env ids = bindA (prepRoles env ?ids []) (\<lambda>before. bindA (lockUsers env ?ids) (\<lambda>_.
      bindA (roleSnap env ?ids) (\<lambda>after. bindA (checkA (checkSnap before after)) (\<lambda>_. bindA (keepAdmin env ?ids) (\<lambda>_.
      bindA (delRoles env ?ids) (\<lambda>_. bindA (base_Delete env remove_users ids) (\<lambda>_. perm_revoke env ?ids)))))))"
    using ne by (simp add: user_Delete_def Let_def)
  obtain x v where a: "lockUsers env ?ids s = (Inr x, s)" "keepAdmin env ?ids s = (Inr v, s)"
    and b: "bindA (delRoles env ?ids) (\<lambda>_. bindA (base_Delete env remove_users ids) (\<lambda>_. perm_revoke env ?ids)) s = (Inr u, s')"
    using assms unfolding u bindA_keeps [OF keeps_perm(8)] bindA_keeps [OF keeps_perm(7)] bindA_keeps [OF keeps_perm(3)]
      bindA_keeps [OF keeps_perm(9)] bindA_keeps [OF keeps_simple(3)] by blast
  obtain s1 s2 y z where c: "delRoles env ?ids s = (Inr y, s1)" "base_Delete env remove_users ids s1 = (Inr z, s2)" "perm_revoke env ?ids s2 = (Inr u, s')"
    using b by (auto simp: bindA_Inr_iff)
  have "s2 = s\<lparr>bs_userRoles := filter (\<lambda>(x, r). x \<notin> set ids - {0}) (bs_userRoles s), bs_users := filter (\<lambda>u. us_id u \<notin> set ids) (bs_users s)\<rparr>"
    using delRoles_writes [OF c(1)] base_Delete_writes [OF c(2)] by (simp add: remove_users_def)
  moreover have "revokes (set ids) s2 s'" using perm_revoke_revokes [OF c(3)] by (simp add: revokes_def)
  moreover have "set ids - {0} \<subseteq> user_ids s" using locked(1) [OF a(1)] by simp
  ultimately show thesis using that a(2) by blast
qed

lemma user_Delete_ok:
  assumes "user_Delete env ids s = (Inr u, s')" "base_ok s"
  shows "base_ok s'"
proof (rule user_Delete_effect [OF assms(1)])
  fix s1
  assume s1: "s1 = s\<lparr>bs_userRoles := filter (\<lambda>(x, r). x \<notin> set ids - {0}) (bs_userRoles s), bs_users := filter (\<lambda>u. us_id u \<notin> set ids) (bs_users s)\<rparr>"
    and r: "revokes (set ids) s1 s'"
  have "0 \<notin> fst ` set (bs_userRoles s)" using assms(2) by (force simp: base_ok_def keys_ok_def relations_ok_def)
  then have "base_ok s1" using assms(2) unfolding s1
    by (auto simp: base_ok_def keys_ok_def relations_ok_def distinct_map_filter) (use s1 in \<open>force+\<close>)?
  then show "base_ok s'" using revokes_ok [OF r] by simp
qed

lemma user_Move_effect:
  assumes "user_Move env d ids s = (Inr u, s')"
  shows "revokes (set ids) (s\<lparr>bs_users := map (\<lambda>u. if us_id u \<in> set ids - {0} then u\<lparr>us_departmentID := Some d\<rparr> else u) (bs_users s)\<rparr>) s'"
proof -
  let ?ids = "NormalizeIDs ids"
  have "bindA (lockDepts env [d]) (\<lambda>_. bindA (lockUsers env ?ids) (\<lambda>_.
      bindA (writeA env ''move users'' (\<lambda>s. s\<lparr>bs_users := map (\<lambda>u. if us_id u \<in> set ?ids then u\<lparr>us_departmentID := Some d\<rparr> else u) (bs_users s)\<rparr>))
        (\<lambda>_. perm_revoke env ?ids))) s = (Inr u, s')"
    using assms by (simp only: user_Move_def Let_def split: if_splits) simp
  then have "perm_revoke env ?ids (s\<lparr>bs_users := map (\<lambda>u. if us_id u \<in> set ?ids then u\<lparr>us_departmentID := Some d\<rparr> else u) (bs_users s)\<rparr>) = (Inr u, s')"
    unfolding bindA_keeps [OF keeps_department(1)] bindA_keeps [OF keeps_perm(7)]
    unfolding bindA_Inr_iff writeA_Inr_iff by blast
  from perm_revoke_revokes [OF this] show ?thesis by (simp add: revokes_def)
qed

lemma user_Move_ok: "user_Move env d ids s = (Inr u, s') \<Longrightarrow> base_ok s \<Longrightarrow> base_ok s'"
  unfolding revokes_ok [OF user_Move_effect] by (rule base_ok_users) simp_all

lemma user_PersonUpdate_effect:
  assumes "user_PersonUpdate env ctx req s = (Inr u, s')"
  shows "s' = s \<or> (\<exists>i pw U. revokes U (write_person i req pw s) s')"
proof -
  obtain identity :: admin_identity and found where
    rest: "(case found of
       None \<Rightarrow> returnA ()
     | Some row \<Rightarrow>
         bindA (checkA (personPassword env req row)) (\<lambda>password.
         if pi_profile req = [] \<and> password = None then returnA ()
         else
           bindA (writeA env ''update person'' (write_person (ai_UserID identity) req password)) (\<lambda>_.
           if password \<noteq> None then perm_revoke env [ai_UserID identity] else returnA ()))) s = (Inr u, s')"
    using assms unfolding user_PersonUpdate_def bindA_keeps [OF keeps_simple(3)] bindA_keeps [OF keeps_perm(7)] bindA_keeps [OF keeps_user]
    by blast
  show ?thesis
  proof (cases found)
    case (Some row)
    obtain pw where "(if pi_profile req = [] \<and> pw = None then returnA ()
         else
           bindA (writeA env ''update person'' (write_person (ai_UserID identity) req pw)) (\<lambda>_.
           if pw \<noteq> None then perm_revoke env [ai_UserID identity] else returnA ())) s = (Inr u, s')"
      using rest unfolding Some option.case bindA_keeps [OF keeps_simple(3)] by blast
    then consider "s' = s" | "s' = write_person (ai_UserID identity) req pw s"
      | "perm_revoke env [ai_UserID identity] (write_person (ai_UserID identity) req pw s) = (Inr u, s')"
      by (auto simp: bindA_Inr_iff split: if_splits)
    then show ?thesis
    proof cases
      case 2
      then have "revokes {} (write_person (ai_UserID identity) req pw s) s'" by (simp add: revokes_def)
      then show ?thesis by blast
    next
      case 3
      then show ?thesis using perm_revoke_revokes by blast
    qed simp
  qed (use rest in simp)
qed

lemma write_person_ok: "base_ok s \<Longrightarrow> base_ok (write_person i req pw s)"
  unfolding write_person_def by (rule base_ok_users) (simp_all split: option.split)

lemma user_PersonUpdate_ok: "user_PersonUpdate env ctx req s = (Inr u, s') \<Longrightarrow> base_ok s \<Longrightarrow> base_ok s'"
  using user_PersonUpdate_effect [of env ctx req s u s'] revokes_ok write_person_ok by blast

section \<open>Roles keep the tables consistent\<close>

lemma put_role_writes: "put_role v i s = Some s' \<Longrightarrow> s' = s\<lparr>bs_roles := bs_roles s @ [role_write v (new_role i)]\<rparr>"
  by (auto simp: put_role_def split: if_splits)

lemma replacePerms_writes:
  assumes "replacePerms env i p s = (Inr u, s')"
  shows "s' = s\<lparr>bs_roleMenus := filter (\<lambda>(r, m). r \<noteq> i) (bs_roleMenus s) @ map (\<lambda>m. (i, m)) (NormalizeIDs (rp_MenuIDList p)),
    bs_roleDepartments := filter (\<lambda>(r, d). r \<noteq> i) (bs_roleDepartments s) @ map (\<lambda>d. (i, d)) (NormalizeIDs (rp_DepartmentIDList p))\<rparr>"
proof -
  obtain x s1 where s1: "replaceRoleMenus env i (rp_MenuIDList p) s = (Inr x, s1)"
    and s2: "replaceRoleDepartments env i (rp_DepartmentIDList p) s1 = (Inr u, s')"
    using assms by (auto simp: replacePerms_def bindA_Inr_iff)
  have "s1 = s\<lparr>bs_roleMenus := filter (\<lambda>(r, m). r \<noteq> i) (bs_roleMenus s) @ map (\<lambda>m. (i, m)) (NormalizeIDs (rp_MenuIDList p))\<rparr>"
    using s1 by (auto simp: replaceRoleMenus_def bindA_Inr_iff split: if_splits)
  then show ?thesis using s2 by (auto simp: replaceRoleDepartments_def bindA_Inr_iff split: if_splits)
qed

lemma replacePerms_ok:
  assumes "replacePerms env i p s = (Inr u, s')" "base_ok s" "i \<in> role_ids s" "set (rp_MenuIDList p) - {0} \<subseteq> menu_ids s"
    "set (rp_DepartmentIDList p) - {0} \<subseteq> dept_ids s"
  shows "base_ok s'"
  using replacePerms_writes [OF assms(1)] assms(2-5) by (auto simp: base_ok_def keys_ok_def relations_ok_def)

lemma role_Add_effect:
  assumes "role_Add env inp s = (Inr ids, s')"
  obtains v p i s1 u where "i \<noteq> 0" "i \<notin> role_ids s" "s1 = s\<lparr>bs_roles := bs_roles s @ [role_write v (new_role i)]\<rparr>"
    "set (rp_MenuIDList p) - {0} \<subseteq> menu_ids s" "set (rp_DepartmentIDList p) - {0} \<subseteq> dept_ids s"
    "replacePerms env i p s1 = (Inr u, s')" "unique_indexes s1"
proof -
  obtain v where inp: "inp = AddOne v" using assms by (cases inp) (auto simp: role_Add_def)
  define p where "p = (case rolePerms v of None \<Rightarrow> \<lparr>rp_MenuIDList = [], rp_DepartmentIDList = []\<rparr> | Some p \<Rightarrow> p)"
  have "bindA (lockPerms env (rp_MenuIDList p) (rp_DepartmentIDList p)) (\<lambda>_.
           bindA (base_Add env ''base_sys_role'' put_role (AddOne (setRolePerms v p))) (\<lambda>ids.
           bindA (replacePerms env (hd ids) p) (\<lambda>_. returnA ids))) s = (Inr ids, s')"
    using assms by (simp add: role_Add_def inp Let_def p_def)
  then obtain x s1 y where a: "lockPerms env (rp_MenuIDList p) (rp_DepartmentIDList p) s = (Inr x, s)"
    "base_Add env ''base_sys_role'' put_role (AddOne (setRolePerms v p)) s = (Inr ids, s1)" "replacePerms env (hd ids) p s1 = (Inr y, s')"
    unfolding bindA_keeps [OF keeps_role(1)] by (auto simp: bindA_Inr_iff)
  obtain i where i: "ids = [i]" "i \<noteq> 0" "i \<notin> role_ids s" "put_role (setRolePerms v p) i s = Some s1" "unique_indexes s1"
    using base_Add_one [OF a(2)] by auto
  from put_role_writes [OF i(4)] lockPerms_Inr [OF a(1)] a(3) i show thesis by (intro that) auto
qed

lemma role_Add_ok: "role_Add env inp s = (Inr ids, s') \<Longrightarrow> base_ok s \<Longrightarrow> base_ok s'"
proof (erule role_Add_effect)
  fix v p i s1 u
  assume ok: "base_ok s" and i: "i \<noteq> 0" "i \<notin> role_ids s" and s1: "s1 = s\<lparr>bs_roles := bs_roles s @ [role_write v (new_role i)]\<rparr>"
    and p: "set (rp_MenuIDList p) - {0} \<subseteq> menu_ids s" "set (rp_DepartmentIDList p) - {0} \<subseteq> dept_ids s"
    and r: "replacePerms env i p s1 = (Inr u, s')"
  have "base_ok s1" using ok i unfolding s1 by (auto simp: base_ok_def keys_ok_def relations_ok_def)
  then show "base_ok s'" using p by (intro replacePerms_ok [OF r]) (simp_all add: s1)
qed

lemma resolvePerms_Inr:
  assumes "resolvePerms env i v perms s = (Inr (Some p), s')"
  shows "set (rp_MenuIDList p) - {0} \<subseteq> menu_ids s \<and> set (rp_DepartmentIDList p) - {0} \<subseteq> dept_ids s"
proof (cases perms)
  case (Some q)
  let ?m = "if ri_menuIdList v = None then roleMenuIDs env i else returnA (rp_MenuIDList q)"
  let ?d = "if ri_departmentIdList v = None then roleDepartmentIDs env i else returnA (rp_DepartmentIDList q)"
  have k: "keeps ?m" "keeps ?d" by simp_all
  obtain ms ds u where "lockPerms env ms ds s = (Inr u, s)" "p = \<lparr>rp_MenuIDList = ms, rp_DepartmentIDList = ds\<rparr>"
    using assms unfolding resolvePerms_def Some option.case bindA_keeps [OF k(1)] bindA_keeps [OF k(2)] bindA_keeps [OF keeps_role(1)]
    by auto
  then show ?thesis using lockPerms_Inr by fastforce
qed (use assms in \<open>simp add: resolvePerms_def\<close>)

definition role_holders :: "base_state \<Rightarrow> u64 set \<Rightarrow> u64 set" where
  "role_holders s R = {u. \<exists>r \<in> R. (u, r) \<in> set (bs_userRoles s)}"

lemma role_holders_image: "fst ` {x \<in> set (bs_userRoles s). snd x \<in> R} = role_holders s R"
  by (force simp: role_holders_def)

lemma role_userIDs_Inr: "role_userIDs env rs s = (Inr us, s') \<Longrightarrow> set us = role_holders s (set rs) - {0}"
  using role_holders_image [of s "set rs"]
  by (cases "rs = []") (auto simp: role_userIDs_def case_prod_beta role_holders_def)

lemma role_Update_effect:
  assumes "role_Update env inp s = (Inr u, s')"
  obtains "s' = s" | i v r s1 perms where "r \<in> set (bs_roles s)" "ro_id r = i" "checkAdminRole r v = Inr ()"
    "revokes (role_holders s {i}) s s1" "unique_indexes (update_role i v s1)"
    "case perms of None \<Rightarrow> s' = update_role i v s1
     | Some p \<Rightarrow> set (rp_MenuIDList p) - {0} \<subseteq> menu_ids s \<and> set (rp_DepartmentIDList p) - {0} \<subseteq> dept_ids s \<and>
         (\<exists>u. replacePerms env i p (update_role i v s1) = (Inr u, s'))"
proof -
  obtain i v where items: "update_items inp = [(i, v)]"
    using assms by (auto simp: role_Update_def split: list.splits)
  define w where "w perms = (case perms of None \<Rightarrow> v | Some p \<Rightarrow> setRolePerms v p)" for perms
  let ?writes = "\<lambda>perms userIDs. bindA (lockAndRevokeA env userIDs) (\<lambda>_. bindA (base_Update env role_count update_role (UpdateOne i (w perms))) (\<lambda>_.
      (case perms of None \<Rightarrow> returnA () | Some p \<Rightarrow> replacePerms env i p)))"
  let ?checked = "\<lambda>perms r. bindA (keptPerms env i v perms) (\<lambda>_. bindA (checkA (checkAdminRole r (w perms))) (\<lambda>_.
      bindA (role_userIDs env [i]) (\<lambda>userIDs. ?writes perms userIDs)))"
  obtain perms row where resolved: "resolvePerms env i v (rolePerms v) s = (Inr perms, s)" and row: "roleByID env i s = (Inr row, s)"
    and found: "(case row of None \<Rightarrow> returnA () | Some r \<Rightarrow> ?checked perms r) s = (Inr u, s')"
    using assms unfolding role_Update_def items Let_def list.case prod.case withinTx_Inr_iff w_def bindA_keeps [OF keeps_role(8)]
      bindA_keeps [OF keeps_simple(5)] bindA_keeps [OF keeps_role(6)] by blast
  show thesis
  proof (cases row)
    case None
    then show thesis using found that(1) by simp
  next
    case (Some r)
    have r: "r \<in> set (bs_roles s)" "ro_id r = i" using row Some find_id [of ro_id i "bs_roles s" r] by (auto simp: roleByID_def)
    obtain us where c: "checkAdminRole r (w perms) = Inr ()" "role_userIDs env [i] s = (Inr us, s)" "?writes perms us s = (Inr u, s')"
      using found unfolding Some option.case bindA_keeps [OF keeps_role(9)] bindA_keeps [OF keeps_simple(3)] bindA_keeps [OF keeps_role(5)]
      by auto
    obtain x s1 where s1: "lockAndRevokeA env us s = (Inr x, s1)"
      and rest: "bindA (base_Update env role_count update_role (UpdateOne i (w perms))) (\<lambda>_.
        (case perms of None \<Rightarrow> returnA () | Some p \<Rightarrow> replacePerms env i p)) s1 = (Inr u, s')"
      using c(3) unfolding bindA_Inr_iff [of "lockAndRevokeA env us"] by blast
    obtain y s2 where s2: "base_Update env role_count update_role (UpdateOne i (w perms)) s1 = (Inr y, s2)"
      and s': "(case perms of None \<Rightarrow> returnA () | Some p \<Rightarrow> replacePerms env i p) s2 = (Inr u, s')"
      using rest unfolding bindA_Inr_iff by blast
    have s2': "s2 = update_role i (w perms) s1" "unique_indexes s2"
      using s2 by (auto simp: base_Update_def bindA_Inr_iff split: if_splits)
    show thesis
    proof (rule that(2) [OF r c(1)])
      show "revokes (role_holders s {i}) s s1"
        using lockAndRevokeA_revokes [OF s1] role_userIDs_Inr [OF c(2)] by (simp add: revokes_def)
      show "unique_indexes (update_role i (w perms) s1)" using s2' by simp
      show "case perms of None \<Rightarrow> s' = update_role i (w perms) s1
        | Some p \<Rightarrow> set (rp_MenuIDList p) - {0} \<subseteq> menu_ids s \<and> set (rp_DepartmentIDList p) - {0} \<subseteq> dept_ids s \<and>
            (\<exists>u. replacePerms env i p (update_role i (w perms) s1) = (Inr u, s'))"
        using s' s2' resolved by (cases perms) (auto dest: resolvePerms_Inr)
    qed
  qed
qed

lemma update_role_frame [simp]: "map ro_id (bs_roles (update_role i v s)) = map ro_id (bs_roles s)"
    "role_ids (update_role i v s) = role_ids s"
    "bs_users (update_role i v s) = bs_users s" "bs_menus (update_role i v s) = bs_menus s"
    "bs_departments (update_role i v s) = bs_departments s" "bs_userRoles (update_role i v s) = bs_userRoles s"
    "bs_roleMenus (update_role i v s) = bs_roleMenus s" "bs_roleDepartments (update_role i v s) = bs_roleDepartments s"
    "bs_sessions (update_role i v s) = bs_sessions s"
proof -
  show "map ro_id (bs_roles (update_role i v s)) = map ro_id (bs_roles s)" by (simp add: update_role_def)
  then show "role_ids (update_role i v s) = role_ids s" by (metis list.set_map)
qed (simp_all add: update_role_def)

lemma revokes_frame: "revokes U s s' \<Longrightarrow> bs_users s' = bs_users s \<and> bs_roles s' = bs_roles s \<and> bs_menus s' = bs_menus s \<and>
    bs_departments s' = bs_departments s \<and> bs_userRoles s' = bs_userRoles s \<and> bs_roleMenus s' = bs_roleMenus s \<and>
    bs_roleDepartments s' = bs_roleDepartments s"
  unfolding revokes_def by (elim conjE) (erule ssubst, simp)

lemma update_role_ok [simp]: "base_ok s \<Longrightarrow> base_ok (update_role i v s)"
  unfolding update_role_def by (rule base_ok_roles) simp_all

lemma role_Update_ok:
  assumes "role_Update env inp s = (Inr u, s')" "base_ok s"
  shows "base_ok s'"
proof (rule role_Update_effect [OF assms(1)])
  fix i v r s1 perms
  assume r: "r \<in> set (bs_roles s)" "ro_id r = i" and s1: "revokes (role_holders s {i}) s s1"
    and s': "case perms of None \<Rightarrow> s' = update_role i v s1
     | Some p \<Rightarrow> set (rp_MenuIDList p) - {0} \<subseteq> menu_ids s \<and> set (rp_DepartmentIDList p) - {0} \<subseteq> dept_ids s \<and>
         (\<exists>u. replacePerms env i p (update_role i v s1) = (Inr u, s'))"
  have ok: "base_ok (update_role i v s1)" using revokes_ok [OF s1] assms(2) by simp
  show ?thesis
  proof (cases perms)
    case (Some p)
    then obtain u where "replacePerms env i p (update_role i v s1) = (Inr u, s')" using s' by auto
    from replacePerms_ok [OF this ok] r s' revokes_frame [OF s1] show ?thesis by (auto simp: Some)
  qed (use s' ok in simp)
qed (use assms(2) in simp)

lemma role_Delete_effect:
  assumes "role_Delete env ids s = (Inr u, s')"
  obtains s1 where "\<forall>r \<in> set (bs_roles s). ro_id r \<in> set ids - {0} \<longrightarrow> \<not> is_admin_role r"
    "revokes (role_holders s (set ids - {0})) s s1"
    "s' = s1\<lparr>bs_userRoles := filter (\<lambda>(u, r). r \<notin> set ids - {0}) (bs_userRoles s),
       bs_roleMenus := filter (\<lambda>(r, m). r \<notin> set ids - {0}) (bs_roleMenus s),
       bs_roleDepartments := filter (\<lambda>(r, d). r \<notin> set ids - {0}) (bs_roleDepartments s),
       bs_roles := filter (\<lambda>r. ro_id r \<notin> set ids) (bs_roles s)\<rparr>"
proof -
  let ?ids = "NormalizeIDs ids"
  let ?writes = "\<lambda>us. bindA (lockAndRevokeA env us) (\<lambda>_.
       bindA (writeA env ''delete role relations'' (\<lambda>s. s\<lparr>
           bs_userRoles := filter (\<lambda>(u, r). r \<notin> set ?ids) (bs_userRoles s),
           bs_roleMenus := filter (\<lambda>(r, m). r \<notin> set ?ids) (bs_roleMenus s),
           bs_roleDepartments := filter (\<lambda>(r, d). r \<notin> set ?ids) (bs_roleDepartments s)\<rparr>)) (\<lambda>_. base_Delete env remove_roles ids))"
  let ?rest = "bindA (rejectAdminRole env ?ids) (\<lambda>_. bindA (role_userIDs env ?ids) ?writes)"
  have "?rest s = (Inr u, s')"
    using assms unfolding role_Delete_def Let_def withinTx_Inr_iff bindA_keeps [OF keeps_role(4)] case_prod_beta
      bindA_keeps [OF keeps_role(1)] bindA_keeps [OF keeps_simple(5)] bindA_keeps [OF keeps_simple(3)] by blast
  then obtain x us where a: "rejectAdminRole env ?ids s = (Inr x, s)" "role_userIDs env ?ids s = (Inr us, s)" "?writes us s = (Inr u, s')"
    unfolding bindA_keeps [OF keeps_role(7)] bindA_keeps [OF keeps_role(5)] by blast
  obtain y s1 where s1: "lockAndRevokeA env us s = (Inr y, s1)" and s': "s' = remove_roles ids (s1\<lparr>
           bs_userRoles := filter (\<lambda>(u, r). r \<notin> set ?ids) (bs_userRoles s1),
           bs_roleMenus := filter (\<lambda>(r, m). r \<notin> set ?ids) (bs_roleMenus s1),
           bs_roleDepartments := filter (\<lambda>(r, d). r \<notin> set ?ids) (bs_roleDepartments s1)\<rparr>)"
    using a(3) unfolding bindA_Inr_iff writeA_Inr_iff using base_Delete_writes by blast
  have rev: "revokes (role_holders s (set ids - {0})) s s1"
    using lockAndRevokeA_revokes [OF s1] role_userIDs_Inr [OF a(2)] by (simp add: revokes_def)
  have "\<forall>r \<in> set (bs_roles s). ro_id r \<in> set ids - {0} \<longrightarrow> \<not> is_admin_role r"
    using a(1) by (auto simp: rejectAdminRole_def bindA_Inr_iff list_ex_iff split: if_splits)
  with rev show thesis
  proof (intro that)
    show "s' = s1\<lparr>bs_userRoles := filter (\<lambda>(u, r). r \<notin> set ids - {0}) (bs_userRoles s),
       bs_roleMenus := filter (\<lambda>(r, m). r \<notin> set ids - {0}) (bs_roleMenus s),
       bs_roleDepartments := filter (\<lambda>(r, d). r \<notin> set ids - {0}) (bs_roleDepartments s),
       bs_roles := filter (\<lambda>r. ro_id r \<notin> set ids) (bs_roles s)\<rparr>"
      using revokes_frame [OF rev] by (simp add: s' remove_roles_def)
  qed
qed

lemma role_Delete_ok:
  assumes "role_Delete env ids s = (Inr u, s')" "base_ok s"
  shows "base_ok s'"
proof (rule role_Delete_effect [OF assms(1)])
  fix s1
  assume s1: "revokes (role_holders s (set ids - {0})) s s1"
    and s': "s' = s1\<lparr>bs_userRoles := filter (\<lambda>(u, r). r \<notin> set ids - {0}) (bs_userRoles s),
       bs_roleMenus := filter (\<lambda>(r, m). r \<notin> set ids - {0}) (bs_roleMenus s),
       bs_roleDepartments := filter (\<lambda>(r, d). r \<notin> set ids - {0}) (bs_roleDepartments s),
       bs_roles := filter (\<lambda>r. ro_id r \<notin> set ids) (bs_roles s)\<rparr>"
  note f = revokes_frame [OF s1]
  have keys: "keys_ok s'" "forest_ok (bs_menus s')" using assms(2) f unfolding s' by (auto simp: base_ok_def keys_ok_def distinct_map_filter)
  have "r \<in> ro_id ` set (filter (\<lambda>r. ro_id r \<notin> set ids) (bs_roles s))" if "r \<in> role_ids s" "r \<notin> set ids - {0}" for r
    using that assms(2) by (auto simp: base_ok_def keys_ok_def)
  then have "relations_ok s'" using assms(2) f unfolding s' base_ok_def relations_ok_def by auto
  with keys show ?thesis by (simp add: base_ok_def)
qed

section \<open>Departments keep the tables consistent\<close>

lemma put_department_ok:
  "put_department v i s = Some s' \<Longrightarrow> base_ok s \<Longrightarrow> i \<noteq> 0 \<Longrightarrow> i \<notin> dept_ids s \<Longrightarrow> base_ok s'"
  by (auto simp: put_department_def base_ok_def keys_ok_def relations_ok_def split: if_splits)

lemma department_Add_ok: "preserves base_ok (department_Add env inp)"
  unfolding department_Add_def
proof (rule preserves_bindA)
  show "preserves base_ok (base_Add env ''base_sys_department'' put_department inp)" for x :: unit
    by (rule preserves_base_Add) (auto intro: put_department_ok)
qed (simp add: preserves_keeps)

lemma department_Update_ok: "preserves base_ok (department_Update env inp)"
  unfolding department_Update_def
proof (rule preserves_bindA)
  show "preserves base_ok (base_Update env department_count update_department inp)" for x :: unit
    unfolding update_department_def by (intro preserves_base_Update base_ok_departments) simp_all
qed (simp add: preserves_keeps)

lemma department_Order_ok: "preserves base_ok (department_Order env req)"
proof -
  have "preserves base_ok (eachA (\<lambda>r. writeA env ''update order'' (\<lambda>s. s\<lparr>bs_departments := map (\<lambda>d. if dm_id d = do_ID r
           then d\<lparr>dm_parentID := do_ParentID r, dm_orderNum := do_OrderNum r\<rparr> else d) (bs_departments s)\<rparr>)) req)"
    by (intro preserves_eachA preserves_writeA base_ok_departments) simp_all
  then show ?thesis unfolding department_Order_def by (auto intro!: preserves_if preserves_bindA simp: preserves_keeps)
qed

lemma moves_writes:
  "eachA (\<lambda>t. writeA env label (move_users (dt_IDs t) (dt_ParentID t))) ts s = (Inr u, s') \<Longrightarrow>
    \<exists>us. s' = s\<lparr>bs_users := us\<rparr> \<and> map (\<lambda>u. (us_id u, us_status u)) us = map (\<lambda>u. (us_id u, us_status u)) (bs_users s)"
proof (induction ts arbitrary: s)
  case Nil
  then have "s' = s\<lparr>bs_users := bs_users s\<rparr>" by simp
  then show ?case by blast
next
  case (Cons t ts)
  let ?s1 = "move_users (dt_IDs t) (dt_ParentID t) s"
  have "eachA (\<lambda>t. writeA env label (move_users (dt_IDs t) (dt_ParentID t))) ts ?s1 = (Inr u, s')"
    using Cons.prems by (auto simp: bindA_Inr_iff)
  from Cons.IH [OF this] obtain us where us: "s' = ?s1\<lparr>bs_users := us\<rparr>"
    "map (\<lambda>u. (us_id u, us_status u)) us = map (\<lambda>u. (us_id u, us_status u)) (bs_users ?s1)" by blast
  moreover have "map (\<lambda>u. (us_id u, us_status u)) (bs_users ?s1) = map (\<lambda>u. (us_id u, us_status u)) (bs_users s)"
    by (auto simp: move_users_def split: option.split)
  ultimately show ?case by (auto simp: move_users_def)
qed

definition members :: "base_state \<Rightarrow> u64 set \<Rightarrow> u64 set" where
  "members s D = us_id ` {u \<in> set (bs_users s). \<exists>d \<in> D. us_departmentID u = Some d} - {0}"

lemma dept_userIDs_Inr: "dept_userIDs env ds s = (Inr us, s') \<Longrightarrow> set us = members s (set ds)"
  by (auto simp: dept_userIDs_def members_def split: option.splits)

definition without_trees :: "bool \<Rightarrow> u64 set \<Rightarrow> u64 set \<Rightarrow> user list \<Rightarrow> base_state \<Rightarrow> base_state" where
  "without_trees deleteUser U A us s = s\<lparr>bs_users := us,
     bs_userRoles := filter (\<lambda>(u, r). \<not> (deleteUser \<and> u \<in> U)) (bs_userRoles s),
     bs_roleDepartments := filter (\<lambda>(r, d). d \<notin> A) (bs_roleDepartments s),
     bs_departments := filter (\<lambda>d. dm_id d \<notin> A) (bs_departments s)\<rparr>"

definition remaining_users :: "bool \<Rightarrow> u64 set \<Rightarrow> user list \<Rightarrow> user list" where
  "remaining_users deleteUser U us = filter (\<lambda>u. \<not> (deleteUser \<and> us_id u \<in> U)) us"

lemma remaining_users_empty [simp]: "remaining_users du {} us = us" "remaining_users False U us = us"
  by (simp_all add: remaining_users_def)

lemma delete_trees_effect:
  assumes "delete_trees env du trees s = (Inr u, s')"
  obtains s1 us A ids where "revokes (members s A) s s1" "set ids = members s A" "du \<Longrightarrow> \<exists>v. keepAdmin env ids s = (Inr v, s)"
    "s' = without_trees du (members s A) A us s1"
    "map (\<lambda>u. (us_id u, us_status u)) us = map (\<lambda>u. (us_id u, us_status u)) (remaining_users du (members s A) (bs_users s))"
proof -
  define A where "A = NormalizeIDs (concat (map dt_IDs trees))"
  let ?U = "members s (set A)"
  let ?guard = "\<lambda>userIDs. if userIDs = [] then returnA () else bindA (lockUsers env userIDs) (\<lambda>_.
         bindA (if du then keepAdmin env userIDs else returnA ()) (\<lambda>_. perm_revoke env userIDs))"
  let ?users = "\<lambda>userIDs. if userIDs = [] then returnA ()
         else if du then bindA (delRoles env userIDs) (\<lambda>_. writeA env ''delete department users'' (remove_users userIDs))
         else eachA (\<lambda>t. writeA env ''move department users'' (move_users (dt_IDs t) (dt_ParentID t))) trees"
  let ?depts = "bindA (writeA env ''delete department roles''
         (\<lambda>s. s\<lparr>bs_roleDepartments := filter (\<lambda>(r, d). d \<notin> set A) (bs_roleDepartments s)\<rparr>)) (\<lambda>_.
     bindA (checkA (NewDeleteInput A)) (\<lambda>ids. base_Delete env remove_departments ids))"
  obtain ids where ids: "dept_userIDs env A s = (Inr ids, s)"
    and rest: "bindA (?guard ids) (\<lambda>_. bindA (?users ids) (\<lambda>_. ?depts)) s = (Inr u, s')"
    using assms unfolding delete_trees_def Let_def A_def [symmetric] bindA_keeps [OF keeps_department(3)] by blast
  obtain s1 s2 x y where s1: "?guard ids s = (Inr x, s1)" and s2: "?users ids s1 = (Inr y, s2)" and s': "?depts s2 = (Inr u, s')"
    using rest unfolding bindA_Inr_iff [of "?guard ids"] bindA_Inr_iff [of "?users ids"] by blast
  have U: "set ids = ?U" using dept_userIDs_Inr [OF ids] by simp
  have k: "keeps (if du then keepAdmin env ids else returnA ())" by simp
  have guard: "revokes ?U s s1 \<and> (du \<longrightarrow> (\<exists>v. keepAdmin env ids s = (Inr v, s)))"
  proof (cases "ids = []")
    case True
    then show ?thesis using s1 U by (auto simp: revokes_def keepAdmin_def)
  next
    case False
    then have "bindA (lockUsers env ids) (\<lambda>_. bindA (if du then keepAdmin env ids else returnA ()) (\<lambda>_. perm_revoke env ids)) s = (Inr x, s1)"
      using s1 by simp
    then obtain v where v: "(if du then keepAdmin env ids else returnA ()) s = (Inr v, s)" "perm_revoke env ids s = (Inr x, s1)"
      unfolding bindA_keeps [OF keeps_perm(7)] bindA_keeps [OF k] by blast
    have "revokes ?U s s1" using perm_revoke_revokes [OF v(2)] U by simp
    then show ?thesis using v(1) by (cases du) auto
  qed
  note f = revokes_frame [OF conjunct1 [OF guard]]
  obtain us where us: "s2 = s1\<lparr>bs_users := us, bs_userRoles := filter (\<lambda>(u, r). \<not> (du \<and> u \<in> ?U)) (bs_userRoles s)\<rparr>"
    "map (\<lambda>u. (us_id u, us_status u)) us = map (\<lambda>u. (us_id u, us_status u)) (remaining_users du ?U (bs_users s))"
  proof (cases "ids = []")
    case True
    then have "?U = {}" "s2 = s1" using U s2 by auto
    then show thesis using that [of "bs_users s1"] f by simp
  next
    case ne: False
    show thesis
    proof (cases du)
      case True
      have "0 \<notin> ?U" by (simp add: members_def)
      obtain z s3 where "delRoles env ids s1 = (Inr z, s3)" and s2': "s2 = remove_users ids s3"
        using s2 ne True by (auto simp: bindA_Inr_iff)
      from delRoles_writes [OF this(1)] have "s3 = s1\<lparr>bs_userRoles := filter (\<lambda>(x, r). x \<notin> ?U) (bs_userRoles s)\<rparr>"
        using f \<open>0 \<notin> ?U\<close> by (simp add: U)
      then show thesis using that [of "remaining_users True ?U (bs_users s)"] f True s2'
        by (simp add: remove_users_def U remaining_users_def)
    next
      case False
      then have "eachA (\<lambda>t. writeA env ''move department users'' (move_users (dt_IDs t) (dt_ParentID t))) trees s1 = (Inr y, s2)"
        using s2 ne by simp
      from moves_writes [OF this]
      obtain us where "s2 = s1\<lparr>bs_users := us\<rparr>" "map (\<lambda>u. (us_id u, us_status u)) us = map (\<lambda>u. (us_id u, us_status u)) (bs_users s1)"
        by blast
      then show thesis using that [of us] f False by simp
    qed
  qed
  obtain ids' where "NewDeleteInput A = Inr ids'" and s'': "s' = remove_departments ids' (s2\<lparr>bs_roleDepartments := filter (\<lambda>(r, d). d \<notin> set A) (bs_roleDepartments s2)\<rparr>)"
    using s' base_Delete_writes by (auto simp: bindA_Inr_iff)
  then have "set ids' = set A" by (auto simp: NewDeleteInput_def split: if_splits)
  then have "s' = without_trees du ?U (set A) us s1" using f by (simp add: s'' us(1) without_trees_def remove_departments_def)
  with guard U us(2) show thesis by (intro that [of "set A" s1 ids us]) auto
qed

lemma department_Delete_effect:
  assumes "department_Delete env ids du s = Some (Inr u, s')"
  obtains trees where "delete_trees env du trees s = (Inr u, s')"
proof -
  let ?guard = "bindA (if du then bindA (adminRoles env) (lockRoles env) else returnA ()) (\<lambda>_. lockTrees env (NormalizeIDs ids))"
  have k: "keeps ?guard" by (auto intro!: keeps_bindA)
  have ne: "NormalizeIDs ids \<noteq> []" using assms by (auto simp: department_Delete_def Let_def)
  show thesis
  proof (cases "?guard s")
    case (Pair r s1)
    show thesis
    proof (cases r)
      case (Inl e)
      then show thesis using assms ne Pair by (auto simp: department_Delete_def Let_def withinTx_def)
    next
      case (Inr t)
      then have "s1 = s" using keepsD [OF k] Pair by blast
      then show thesis using assms ne Pair Inr that by (cases t) (auto simp: department_Delete_def Let_def)
    qed
  qed
qed

lemma department_Delete_ok:
  assumes "department_Delete env ids du s = Some (Inr u, s')" "base_ok s"
  shows "base_ok s'"
proof -
  obtain trees where "delete_trees env du trees s = (Inr u, s')" using department_Delete_effect [OF assms(1)] .
  then show ?thesis
  proof (rule delete_trees_effect)
    fix s1 us A ids
    assume r: "revokes (members s A) s s1" and s': "s' = without_trees du (members s A) A us s1"
      and us: "map (\<lambda>u. (us_id u, us_status u)) us = map (\<lambda>u. (us_id u, us_status u)) (remaining_users du (members s A) (bs_users s))"
    note f = revokes_frame [OF r]
    have "map fst (map (\<lambda>u. (us_id u, us_status u)) us) = map fst (map (\<lambda>u. (us_id u, us_status u)) (remaining_users du (members s A) (bs_users s)))"
      using us by simp
    then have ids: "map us_id us = map us_id (remaining_users du (members s A) (bs_users s))" by (simp add: comp_def)
    then have ids': "us_id ` set us = us_id ` set (remaining_users du (members s A) (bs_users s))" by (metis list.set_map)
    have "keys_ok s'" "forest_ok (bs_menus s')"
      using assms(2) f unfolding s' without_trees_def base_ok_def keys_ok_def
      by (auto simp: ids ids' distinct_map_filter remaining_users_def)
    moreover have "relations_ok s'"
      using assms(2) f unfolding s' without_trees_def base_ok_def relations_ok_def
      by (auto simp: ids' remaining_users_def)
    ultimately show ?thesis by (simp add: base_ok_def)
  qed
qed

section \<open>Menus keep the tables consistent\<close>

lemma up_row: "distinct (map mn_id rows) \<Longrightarrow> up (menu_parents rows) x = Some p \<longleftrightarrow>
    p \<noteq> 0 \<and> (\<exists>m \<in> set rows. mn_id m = x \<and> mn_parentID m = Some p)"
proof -
  assume d: "distinct (map mn_id rows)"
  have "map_of (menu_parents rows) x = Some (Some p) \<longleftrightarrow> (\<exists>m \<in> set rows. mn_id m = x \<and> mn_parentID m = Some p)"
    using map_of_menu_parents [OF d] by (force simp: menu_parents_def dest: map_of_SomeD)
  moreover have "up (menu_parents rows) x = Some p \<longleftrightarrow> p \<noteq> 0 \<and> map_of (menu_parents rows) x = Some (Some p)"
    by (auto simp: up_def split: option.splits if_splits)
  ultimately show ?thesis by simp
qed

text \<open>A new menu is nobody's parent.\<close>

lemma forest_ok_add:
  assumes ok: "forest_ok rows" "distinct (map mn_id rows)" and new: "mn_id m \<notin> mn_id ` set rows"
    and parent: "\<And>p. mn_parentID m = Some p \<Longrightarrow> p = 0 \<or> p \<in> mn_id ` set rows"
  shows "forest_ok (rows @ [m])"
proof -
  let ?E = "parent_edges (up (menu_parents (rows @ [m])))"
  have d: "distinct (map mn_id (rows @ [m]))" using ok(2) new by simp
  have leaf: "(mn_id m, x) \<notin> ?E" for x
  proof
    assume "(mn_id m, x) \<in> ?E"
    then obtain k where "k \<in> set (rows @ [m])" "mn_parentID k = Some (mn_id m)" "mn_id m \<noteq> 0" by (auto simp: up_row [OF d])
    then show False using ok(1) parent new by (auto simp: forest_ok_def)
  qed
  have "acyclic ?E"
    unfolding acyclic_def
  proof (intro allI notI)
    fix x assume x: "(x, x) \<in> ?E\<^sup>+"
    have same: "up (menu_parents (rows @ [m])) y = up (menu_parents rows) y" if "y \<notin> {mn_id m}" for y
      using that by (intro up_cong) (simp add: menu_parents_def map_add_def split: option.split)
    have "(x, x) \<notin> (parent_edges (up (menu_parents rows)))\<^sup>+" using ok(1) by (auto simp: forest_ok_def acyclic_def)
    with trancl_changed [of "{mn_id m}", OF same x] have "(x, mn_id m) \<in> ?E\<^sup>+" "(mn_id m, x) \<in> ?E\<^sup>*" by auto
    then have "(mn_id m, mn_id m) \<in> ?E\<^sup>+" by (rule rtrancl_trancl_trancl [rotated])
    then show False using leaf by (meson tranclD)
  qed
  then show ?thesis using ok(1) parent by (auto simp: forest_ok_def)
qed

lemma base_ok_add_menu:
  assumes "base_ok s" "mn_id m \<noteq> 0" "mn_id m \<notin> menu_ids s" "\<And>p. mn_parentID m = Some p \<Longrightarrow> p = 0 \<or> p \<in> menu_ids s"
  shows "base_ok (s\<lparr>bs_menus := bs_menus s @ [m]\<rparr>)"
proof -
  have "forest_ok (bs_menus s @ [m])" using assms by (intro forest_ok_add) (auto simp: base_ok_def keys_ok_def)
  then show ?thesis using assms by (auto simp: base_ok_def keys_ok_def relations_ok_def)
qed

lemma real_parents_mem: "v \<in> set vs \<Longrightarrow> mi_parentId v = Some (Some p) \<Longrightarrow> p \<noteq> 0 \<Longrightarrow> p \<in> set (real_parents vs)"
proof (induction vs)
  case (Cons w vs)
  have "real_parents (w # vs) = (case mi_parentId w of Some (Some p) \<Rightarrow> if p \<noteq> 0 then [p] else [] | _ \<Rightarrow> []) @ real_parents vs"
    by (auto simp: real_parents_def submitted_parents_def split: option.splits)
  with Cons show ?case by auto
qed simp

lemma menu_Add_ok:
  assumes "menu_Add env inp s = (Inr ids, s')" "base_ok s"
  shows "base_ok s'"
proof -
  define P where "P t \<longleftrightarrow> base_ok t \<and> menu_ids s \<subseteq> menu_ids t" for t
  obtain u where u: "lockMenus env (real_parents (add_values inp)) s = (Inr u, s)"
    and add: "base_Add env ''base_sys_menu'' put_menu inp s = (Inr ids, s')"
    using assms(1) unfolding menu_Add_def withinTx_Inr_iff bindA_keeps [OF keeps_menu(1)] by blast
  have "preserves P (base_Add env ''base_sys_menu'' put_menu inp)"
  proof (rule preserves_base_Add)
    fix v i t t'
    assume v: "v \<in> set (add_values inp)" and P: "P t" and i: "i \<noteq> 0" "i \<notin> set (table_ids ''base_sys_menu'' t)"
      and t': "put_menu v i t = Some t'"
    have "p = 0 \<or> p \<in> menu_ids t" if "mn_parentID (menu_write v (new_menu i)) = Some p" for p
    proof -
      have "mi_parentId v = Some (Some p)" using that by (cases "mi_parentId v") simp_all
      then show ?thesis using real_parents_mem [OF v] locked(3) [OF u] P by (auto simp: P_def)
    qed
    then have "base_ok (t\<lparr>bs_menus := bs_menus t @ [menu_write v (new_menu i)]\<rparr>)"
      using P i by (intro base_ok_add_menu) (simp_all add: P_def)
    then show "P t'" using P t' by (auto simp: P_def put_menu_def split: if_splits)
  qed
  moreover have "P s" by (simp add: P_def assms(2))
  ultimately have "P s'" using add by (auto simp: preserves_def)
  then show ?thesis by (simp add: P_def)
qed

lemma base_Update_fold:
  assumes "base_Update env count put inp s = (Inr u, s')"
  shows "s' = fold (\<lambda>(i, v). put i v) (update_items inp) s"
proof -
  have "eachA (\<lambda>(i, x). if count x = 0 then failA e else storeA env l (put i x)) xs s = (Inr u, s') \<Longrightarrow>
      s' = fold (\<lambda>(i, v). put i v) xs s" for e l xs s
    by (induction xs arbitrary: s) (auto simp: bindA_Inr_iff split: if_splits)
  then show ?thesis using assms by (auto simp: base_Update_def split: if_splits)
qed

text \<open>The users who hold a role with one of the menus.\<close>

definition menu_holders :: "base_state \<Rightarrow> u64 set \<Rightarrow> u64 set" where
  "menu_holders s M = role_holders s {r. \<exists>m \<in> M. (r, m) \<in> set (bs_roleMenus s)}"

lemma menu_userIDs_Inr:
  assumes "menu_userIDs env ms s = (Inr us, s')"
  shows "set us = menu_holders s (set ms) - {0}"
proof -
  have "set us = fst ` {x \<in> set (bs_userRoles s). snd x \<in> {r. \<exists>m \<in> set ms. (r, m) \<in> set (bs_roleMenus s)}} - {0}"
    using assms by (cases "ms = []") (auto simp: menu_userIDs_def list_ex_iff case_prod_beta image_iff Bex_def)
  then show ?thesis unfolding role_holders_image menu_holders_def .
qed

lemma menu_Update_effect:
  assumes "menu_Update env inp s = (Inr u, s')"
  obtains s1 where "revokes (menu_holders s (fst ` set (update_items inp) - {0})) s s1"
    "s' = s1\<lparr>bs_menus := updated_rows (update_items inp) (bs_menus s)\<rparr>"
    "\<exists>u. checkParents env (parent_changes (update_items inp) []) s = (Inr u, s)"
proof -
  let ?items = "update_items inp"
  let ?all = "if parent_changes ?items [] = [] then returnA [] else readA env ''query menus'' (\<lambda>s. sort (map mn_id (bs_menus s)))"
  have k: "keeps ?all" by simp
  obtain x us where c: "checkParents env (parent_changes ?items []) s = (Inr x, s)"
    and us: "menu_userIDs env (NormalizeIDs (map fst ?items)) s = (Inr us, s)"
    and rest: "bindA (lockAndRevokeA env us) (\<lambda>_. base_Update env menu_count update_menu inp) s = (Inr u, s')"
    using assms unfolding menu_Update_def Let_def withinTx_Inr_iff bindA_keeps [OF k] bindA_keeps [OF keeps_menu(1)]
      bindA_keeps [OF keeps_menu(2)] bindA_keeps [OF keeps_menu(3)] by blast
  obtain y s1 where s1: "lockAndRevokeA env us s = (Inr y, s1)" and upd: "base_Update env menu_count update_menu inp s1 = (Inr u, s')"
    using rest unfolding bindA_Inr_iff by blast
  have r: "revokes (menu_holders s (fst ` set ?items - {0})) s s1"
    using lockAndRevokeA_revokes [OF s1] menu_userIDs_Inr [OF us] by (simp add: revokes_def)
  moreover have "s' = s1\<lparr>bs_menus := updated_rows ?items (bs_menus s)\<rparr>"
    using base_Update_fold [OF upd] revokes_frame [OF r] by (simp add: update_menus_fold)
  ultimately show thesis using that c by blast
qed

lemma menu_Update_ok:
  assumes "menu_Update env inp s = (Inr u, s')" "base_ok s"
  shows "base_ok s'"
proof (rule menu_Update_effect [OF assms(1)])
  fix s1
  let ?new = "updated_rows (update_items inp) (bs_menus s)"
  assume r: "revokes (menu_holders s (fst ` set (update_items inp) - {0})) s s1" and s': "s' = s1\<lparr>bs_menus := ?new\<rparr>"
    and c: "\<exists>u. checkParents env (parent_changes (update_items inp) []) s = (Inr u, s)"
  obtain x where x: "checkParents env (parent_changes (update_items inp) []) s = (Inr x, s)" using c by blast
  have "forest_ok ?new" by (rule checkParents_forest [OF _ _ x]) (use assms(2) in \<open>simp_all add: base_ok_def keys_ok_def\<close>)
  moreover have "map mn_id ?new = map mn_id (bs_menus s1)" using revokes_frame [OF r] by (simp add: updated_rows_ids)
  ultimately show ?thesis unfolding s' using assms(2) revokes_ok [OF r] by (intro base_ok_menus) simp_all
qed

lemma menu_Delete_effect:
  assumes "menu_Delete env ids s = (Inr u, s')" "base_ok s"
  obtains s1 M where "M = {x. \<exists>r \<in> set ids - {0}. (r, x) \<in> (menu_edges (bs_menus s))\<^sup>*}" "revokes (menu_holders s M) s s1"
    "s' = s1\<lparr>bs_roleMenus := filter (\<lambda>(r, m). m \<notin> M) (bs_roleMenus s), bs_menus := filter (\<lambda>m. mn_id m \<notin> M) (bs_menus s)\<rparr>"
proof -
  let ?M = "{x. \<exists>r \<in> set ids - {0}. (r, x) \<in> (menu_edges (bs_menus s))\<^sup>*}"
  obtain out us where out: "lockTree env ids s = (Inr out, s)" and us: "menu_userIDs env out s = (Inr us, s)"
    and rest: "bindA (lockAndRevokeA env us) (\<lambda>_. bindA (writeA env ''delete menu roles''
        (\<lambda>s. s\<lparr>bs_roleMenus := filter (\<lambda>(r, m). m \<notin> set out) (bs_roleMenus s)\<rparr>)) (\<lambda>_.
        bindA (checkA (NewDeleteInput out)) (\<lambda>unique. base_Delete env remove_menus unique))) s = (Inr u, s')"
    using assms(1) unfolding menu_Delete_def withinTx_Inr_iff bindA_keeps [OF keeps_menu(4)] bindA_keeps [OF keeps_menu(2)] by blast
  have ids0: "distinct (map mn_id (bs_menus s))" "0 \<notin> menu_ids s" using assms(2) by (simp_all add: base_ok_def keys_ok_def)
  obtain seen where seen: "lockLevels env s (NormalizeIDs ids) (NormalizeIDs ids) = Inr seen" "out = NormalizeIDs seen"
    using out by (auto simp: lockTree_def Let_def bindA_def split: if_splits prod.splits sum.splits)
  have "set seen = ?M" using lockLevels_closes [OF ids0 seen(1)] by simp
  moreover have "0 \<notin> ?M"
  proof
    assume "0 \<in> ?M"
    then obtain p where "(p, 0) \<in> menu_edges (bs_menus s)" by (auto elim: rtranclE)
    with ids0(2) show False by (auto simp: menu_edges_def)
  qed
  ultimately have M: "set out = ?M" using seen(2) by simp
  obtain y s1 where s1: "lockAndRevokeA env us s = (Inr y, s1)"
    and rest': "bindA (writeA env ''delete menu roles''
        (\<lambda>s. s\<lparr>bs_roleMenus := filter (\<lambda>(r, m). m \<notin> set out) (bs_roleMenus s)\<rparr>)) (\<lambda>_.
        bindA (checkA (NewDeleteInput out)) (\<lambda>unique. base_Delete env remove_menus unique)) s1 = (Inr u, s')"
    using rest unfolding bindA_Inr_iff [of "lockAndRevokeA env us"] by blast
  have "0 \<notin> menu_holders s ?M" using assms(2) by (auto simp: menu_holders_def role_holders_def base_ok_def keys_ok_def relations_ok_def)
  then have r: "revokes (menu_holders s ?M) s s1"
    using lockAndRevokeA_revokes [OF s1] menu_userIDs_Inr [OF us] by (simp add: M)
  obtain unique where "NewDeleteInput out = Inr unique" and s': "s' = remove_menus unique (s1\<lparr>bs_roleMenus := filter (\<lambda>(r, m). m \<notin> set out) (bs_roleMenus s1)\<rparr>)"
    using rest' base_Delete_writes by (auto simp: bindA_Inr_iff)
  then have "set unique = ?M" using M by (auto simp: NewDeleteInput_def split: if_splits)
  then have "s' = s1\<lparr>bs_roleMenus := filter (\<lambda>(r, m). m \<notin> ?M) (bs_roleMenus s), bs_menus := filter (\<lambda>m. mn_id m \<notin> ?M) (bs_menus s)\<rparr>"
    using revokes_frame [OF r] by (simp only: s' M remove_menus_def) simp
  with r show thesis by (intro that [OF refl])
qed

lemma menu_Delete_ok:
  assumes "menu_Delete env ids s = (Inr u, s')" "base_ok s"
  shows "base_ok s'"
proof (rule menu_Delete_effect [OF assms])
  fix s1 M
  assume M: "M = {x. \<exists>r \<in> set ids - {0}. (r, x) \<in> (menu_edges (bs_menus s))\<^sup>*}" and r: "revokes (menu_holders s M) s s1"
    and s': "s' = s1\<lparr>bs_roleMenus := filter (\<lambda>(r, m). m \<notin> M) (bs_roleMenus s), bs_menus := filter (\<lambda>m. mn_id m \<notin> M) (bs_menus s)\<rparr>"
  let ?rest = "filter (\<lambda>m. mn_id m \<notin> M) (bs_menus s)"
  note f = revokes_frame [OF r]
  have d: "distinct (map mn_id (bs_menus s))" and ok: "forest_ok (bs_menus s)" using assms(2) by (simp_all add: base_ok_def keys_ok_def)
  have "p = 0 \<or> p \<in> mn_id ` set ?rest" if m: "m \<in> set ?rest" "mn_parentID m = Some p" for m p
  proof -
    have "p \<notin> M"
    proof
      assume "p \<in> M"
      moreover have "(p, mn_id m) \<in> menu_edges (bs_menus s)" using m by (auto simp: menu_edges_def)
      ultimately have "mn_id m \<in> M" unfolding M by (auto intro: rtrancl_into_rtrancl)
      with m show False by simp
    qed
    then show ?thesis using ok m by (auto simp: forest_ok_def)
  qed
  moreover have "acyclic (parent_edges (up (menu_parents ?rest)))"
  proof (rule acyclic_subset)
    show "acyclic (parent_edges (up (menu_parents (bs_menus s))))" using ok by (simp add: forest_ok_def)
    show "parent_edges (up (menu_parents ?rest)) \<subseteq> parent_edges (up (menu_parents (bs_menus s)))"
      using d by (auto simp: up_row distinct_map_filter)
  qed
  ultimately have "forest_ok ?rest" unfolding forest_ok_def by blast
  then show ?thesis using assms(2) f unfolding s' by (auto simp: base_ok_def keys_ok_def relations_ok_def distinct_map_filter)
qed

lemma importTree_effect:
  "importTree env ts parent s = (Inr u, s') \<Longrightarrow> base_ok s \<Longrightarrow> (\<And>p. parent = Some p \<Longrightarrow> p \<in> menu_ids s) \<Longrightarrow>
    base_ok s' \<and> (\<exists>new. s' = s\<lparr>bs_menus := bs_menus s @ new\<rparr>)"
proof (induction env ts parent arbitrary: s u s' rule: importTree.induct)
  case (1 env parent)
  then have "s' = s\<lparr>bs_menus := bs_menus s @ []\<rparr>" by simp
  with 1 show ?case by (metis importTree.simps(1) returnA_iff)
next
  case (2 env n children rest parent)
  obtain i s1 s2 x where i: "i \<noteq> 0" "i \<notin> menu_ids s" "s1 = s\<lparr>bs_menus := bs_menus s @ [node_menu n parent i]\<rparr>"
    and c: "importTree env children (Some i) s1 = (Inr x, s2)" and r: "importTree env rest parent s2 = (Inr u, s')"
    using 2(3) by (auto simp: bindA_Inr_iff insertA_def split: if_splits)
  have ok1: "base_ok s1" unfolding i(3) using i 2(4,5) by (intro base_ok_add_menu) auto
  have "p \<in> menu_ids s1" if "Some i = Some p" for p using that by (simp add: i(3))
  with 2(1) [OF c ok1] obtain new2 where s2: "base_ok s2" "s2 = s1\<lparr>bs_menus := bs_menus s1 @ new2\<rparr>" by blast
  have "p \<in> menu_ids s2" if "parent = Some p" for p using 2(5) [OF that] by (auto simp: s2(2) i(3))
  with 2(2) [OF r s2(1)] obtain new3 where "base_ok s'" "s' = s2\<lparr>bs_menus := bs_menus s2 @ new3\<rparr>" by blast
  then show ?case by (auto simp: s2(2) i(3))
qed

lemma menu_Import_ok: "menu_Import env ts s = (Inr u, s') \<Longrightarrow> base_ok s \<Longrightarrow> base_ok s'"
  using importTree_effect [of env ts None s u s'] by (simp add: menu_Import_def)

section \<open>The tables stay consistent\<close>

lemma base_call_ok: "base_call env c s = (Inr u, s') \<Longrightarrow> base_ok s \<Longrightarrow> base_ok s'"
  by (cases c) (auto dest: user_Add_ok user_Update_ok user_Delete_ok user_Move_ok user_PersonUpdate_ok role_Add_ok role_Update_ok
      role_Delete_ok department_Delete_ok menu_Add_ok menu_Update_ok menu_Delete_ok menu_Import_ok
      preservesD [OF department_Add_ok] preservesD [OF department_Update_ok] preservesD [OF department_Order_ok])

lemma base_ok_tables: "tables s' = tables s \<Longrightarrow> base_ok s' = base_ok s"
  by (metis base_ok_outside(3) tables_def)

text \<open>A step commits or leaves the tables.\<close>

lemma base_step_cases:
  assumes "base_step env c s = (r, s')"
  obtains (commit) u where "base_call env c s = (Inr u, s')" "r = Inr u" | (rollback) e s'' where "base_call env c s = (Inl e, s'')" "r = Inl e"
    "tables s' = tables s" "bs_sessions s' = bs_sessions s''"
proof (cases r)
  case (Inl e)
  then show ?thesis using assms withinTx_Inl [of "base_call env c" s e s'] that(2) by (auto simp: base_step_def)
next
  case (Inr u)
  then show ?thesis using assms that(1) by (simp add: base_step_def)
qed

lemma base_step_ok: "base_step env c s = (r, s') \<Longrightarrow> base_ok s \<Longrightarrow> base_ok s'"
  by (erule base_step_cases) (auto dest: base_call_ok base_ok_tables)

lemma base_run_ok: "base_ok s \<Longrightarrow> base_ok (base_run cs s)"
proof (induction cs s rule: base_run.induct)
  case (2 env c cs s)
  then show ?case using base_step_ok [of env c s] by (cases "base_step env c s") auto
qed simp



end
