(* ===== verification/Base_Authority.thy ===== *)
theory Base_Authority
  imports Base_Integrity
begin

text \<open>
  The last administrator: \<open>keepAdmin\<close> and \<open>checkAdmin\<close> of \<open>modules/base/service/permission.go\<close> and the
  rules on administrator roles of \<open>role.go\<close> together keep one who can sign in.
\<close>

section \<open>Administrators\<close>

definition enabled :: "base_state \<Rightarrow> u64 \<Rightarrow> bool" where
  "enabled s u \<longleftrightarrow> (\<exists>x \<in> set (bs_users s). us_id x = u \<and> us_status x = 1)"

definition roles_of :: "base_state \<Rightarrow> u64 \<Rightarrow> u64 set" where
  "roles_of s u = {r. (u, r) \<in> set (bs_userRoles s)}"

definition admin_roles :: "base_state \<Rightarrow> u64 set" where
  "admin_roles s = ro_id ` {r \<in> set (bs_roles s). is_admin_role r}"

text \<open>An enabled user with an administrator role.\<close>

definition active_admin :: "base_state \<Rightarrow> u64 \<Rightarrow> bool" where
  "active_admin s u \<longleftrightarrow> enabled s u \<and> roles_of s u \<inter> admin_roles s \<noteq> {}"

lemma active_admin_nonzero: "base_ok s \<Longrightarrow> active_admin s u \<Longrightarrow> u \<noteq> 0"
  by (auto simp: active_admin_def enabled_def base_ok_def keys_ok_def)

lemma IsAdmin_iff: "perm_IsAdmin env ids s = (Inr b, s') \<Longrightarrow> b \<longleftrightarrow> set ids \<inter> admin_roles s \<noteq> {}"
  by (drule perm_IsAdmin_Inr) (auto simp: admin_roles_def)

lemma joined_roles_of: "base_ok s \<Longrightarrow> set (map fst (joined_roles s u)) = roles_of s u"
  unfolding joined_roles_set by (auto simp: roles_of_def base_ok_def relations_ok_def)

lemma keepAdmin_guards:
  assumes "keepAdmin env ids s = (Inr v, s')" "base_ok s" "active_admin s a"
  shows "\<exists>b. b \<notin> set ids \<and> active_admin s b"
proof (cases "a \<in> set ids")
  case True
  let ?ids = "NormalizeIDs ids"
  have a0: "a \<noteq> 0" using active_admin_nonzero assms(2,3) by blast
  with True have a: "a \<in> set ?ids" by simp
  then have ne: "?ids \<noteq> []" by (metis empty_iff empty_set)
  let ?enabled = "map us_id (filter (\<lambda>u. us_id u \<in> set ?ids \<and> us_status u = 1) (bs_users s))"
  obtain roles isAdmin where snap: "roleSnap env ?enabled s = (Inr roles, s)" and adm: "perm_IsAdmin env (concat (map snd roles)) s = (Inr isAdmin, s)"
    and rest: "(if \<not> isAdmin then returnA ()
       else
         bindA (adminRoles env) (\<lambda>admins.
         bindA (readA env ''query admin relations''
           (\<lambda>s. NormalizeIDs (map fst (filter (\<lambda>(u, i). i \<in> set admins \<and> u \<notin> set ?ids) (bs_userRoles s))))) (\<lambda>remainingIDs.
         if remainingIDs = [] then failA (comm ''last administrator'')
         else
           bindA (readA env ''query admins'' (\<lambda>s. list_ex (\<lambda>u. us_id u \<in> set remainingIDs \<and> us_status u = 1) (bs_users s))) (\<lambda>remaining.
           if remaining then returnA () else failA (comm ''last administrator''))))) s = (Inr v, s')"
    using assms(1) ne unfolding keepAdmin_def Let_def if_not_P [OF ne] bindA_keeps [OF keeps_simple(4)] readA_Inr_iff
      bindA_keeps [OF keeps_perm(3)] bindA_keeps [OF keeps_perm(5)] by blast
  have "a \<in> set ?enabled" using assms(3) a by (auto simp: active_admin_def enabled_def)
  then have "a \<in> set (NormalizeIDs ?enabled)" using a0 by simp
  then have "roles_of s a \<subseteq> set (concat (map snd roles))"
    unfolding roleSnap_Inr [OF snap] using joined_roles_of [OF assms(2), of a] by (force simp: image_iff)
  then have isadm: "\<not> \<not> isAdmin" using assms(3) unfolding IsAdmin_iff [OF adm] active_admin_def by blast
  obtain admins where admins: "adminRoles env s = (Inr admins, s)"
    and rem: "list_ex (\<lambda>u. us_id u \<in> set (NormalizeIDs (map fst (filter (\<lambda>(u, i). i \<in> set admins \<and> u \<notin> set ?ids) (bs_userRoles s)))) \<and> us_status u = 1) (bs_users s)"
    using rest unfolding if_not_P [OF isadm] bindA_keeps [OF keeps_perm(4)] bindA_keeps [OF keeps_simple(4)]
    by (auto simp: bindA_Inr_iff split: if_splits)
  obtain u r where u: "u \<in> set (bs_users s)" "us_status u = 1" "(us_id u, r) \<in> set (bs_userRoles s)" "r \<in> set admins"
    "us_id u \<notin> set ?ids" "us_id u \<noteq> 0"
    using rem by (auto simp: list_ex_iff)
  then have "active_admin s (us_id u)"
    using adminRoles_Inr [OF admins] by (auto simp: active_admin_def enabled_def roles_of_def admin_roles_def)
  moreover have "us_id u \<notin> set ids" using u(5,6) by simp
  ultimately show ?thesis by blast
qed (use assms(3) in blast)

lemma checkAdmin_guards:
  assumes "checkAdmin env i current nxt old new s = (Inr v, s')" "base_ok s" "active_admin s a"
    and "enabled s i \<Longrightarrow> current = 1" "set old = roles_of s i"
  shows "(\<exists>b. b \<noteq> i \<and> active_admin s b) \<or> nxt = 1 \<and> set new \<inter> admin_roles s \<noteq> {}"
proof (cases "a = i")
  case True
  then have "current = 1" using assms(3,4) by (auto simp: active_admin_def)
  then obtain was where was: "perm_IsAdmin env old s = (Inr was, s)" and rest: "(if \<not> was then returnA ()
       else if nxt = 1 then
         bindA (perm_IsAdmin env new) (\<lambda>staysAdmin. if staysAdmin then returnA () else keepAdmin env [i])
       else keepAdmin env [i]) s = (Inr v, s')"
    using assms(1) by (auto simp: checkAdmin_def bindA_keeps)
  have "was" using assms(3,5) True unfolding IsAdmin_iff [OF was] by (auto simp: active_admin_def)
  then consider "keepAdmin env [i] s = (Inr v, s')" | "nxt = 1" "perm_IsAdmin env new s = (Inr True, s)"
    using rest by (auto simp: bindA_keeps split: if_splits)
  then show ?thesis
  proof cases
    case 1
    from keepAdmin_guards [OF 1 assms(2,3)] show ?thesis by auto
  next
    case 2
    then show ?thesis using IsAdmin_iff [OF 2(2)] by simp
  qed
qed (use assms(3) in blast)

text \<open>What carries an active administrator over.\<close>

lemma active_admin_over:
  assumes "active_admin s a" "enabled s a \<Longrightarrow> enabled s' a"
    "\<And>r. r \<in> roles_of s a \<Longrightarrow> r \<in> admin_roles s \<Longrightarrow> r \<in> roles_of s' a \<and> r \<in> admin_roles s'"
  shows "active_admin s' a"
  using assms by (auto simp: active_admin_def)

lemma enabled_cong:
  fixes us us' :: "user list"
  shows "map (\<lambda>u. (us_id u, us_status u)) us = map (\<lambda>u. (us_id u, us_status u)) us' \<Longrightarrow>
    (\<exists>x \<in> set us. us_id x = u \<and> us_status x = 1) = (\<exists>x \<in> set us'. us_id x = u \<and> us_status x = 1)"
proof -
  assume "map (\<lambda>u. (us_id u, us_status u)) us = map (\<lambda>u. (us_id u, us_status u)) us'"
  then have "(\<lambda>u. (us_id u, us_status u)) ` set us = (\<lambda>u. (us_id u, us_status u)) ` set us'"
    by (simp only: set_map [symmetric])
  moreover have "(\<exists>x \<in> set vs. us_id x = u \<and> us_status x = 1) \<longleftrightarrow> (u, 1) \<in> (\<lambda>u. (us_id u, us_status u)) ` set vs" for vs :: "user list"
    unfolding image_iff by (metis Pair_inject)
  ultimately show ?thesis by simp
qed

lemma same_admins:
  assumes "map (\<lambda>u. (us_id u, us_status u)) (bs_users s') = map (\<lambda>u. (us_id u, us_status u)) (bs_users s)"
    "bs_userRoles s' = bs_userRoles s" "bs_roles s' = bs_roles s"
  shows "active_admin s' a = active_admin s a"
  using enabled_cong [OF assms(1), of a] assms(2,3) by (simp add: active_admin_def enabled_def roles_of_def admin_roles_def)

lemma revokes_admins: "revokes U s s' \<Longrightarrow> active_admin s' a = active_admin s a"
  using revokes_frame [of U s s'] by (intro same_admins) simp_all

lemma user_Add_admin: "user_Add env inp s = (Inr ids, s') \<Longrightarrow> active_admin s a \<Longrightarrow> base_ok s \<Longrightarrow> active_admin s' a"
proof (erule user_Add_effect)
  fix v v' i s1 u
  assume a: "active_admin s a" "base_ok s" and i: "i \<notin> user_ids s" and p: "put_user v' i s = Some s1"
    and r: "setRoles env i (fst (roleIDs v)) s1 = (Inr u, s')"
  have "a \<noteq> i" using a(1) i by (auto simp: active_admin_def enabled_def)
  then show "active_admin s' a" using a(1) put_user_writes [OF p] setRoles_writes [OF r]
    by (auto simp: active_admin_def enabled_def roles_of_def admin_roles_def)
qed

lemma enabled_row:
  assumes "base_ok s" "find (\<lambda>u. us_id u = i) (bs_users s) = Some row"
  shows "enabled s i \<longleftrightarrow> us_status row = 1"
proof -
  have "row \<in> set (bs_users s)" "us_id row = i" using find_in_ids [OF assms(2)] by simp_all
  moreover have "x = row" if "x \<in> set (bs_users s)" "us_id x = i" for x
  proof -
    have "inj_on us_id (set (bs_users s))" using assms(1) by (simp add: base_ok_def keys_ok_def distinct_map)
    then show ?thesis using that calculation by (metis inj_onD)
  qed
  ultimately show ?thesis unfolding enabled_def by blast
qed

lemma user_Update_admin:
  assumes "user_Update env inp s = (Inr u, s')" "active_admin s a" "base_ok s"
  shows "\<exists>b. active_admin s' b"
proof -
  have "0 \<notin> user_ids s" using assms(3) by (simp add: base_ok_def keys_ok_def)
  from user_Update_effect [OF assms(1) this] show ?thesis
  proof (elim disjE exE conjE)
    fix i v row
    let ?changed = "ui_status v \<noteq> None \<or> snd (roleIDs v)"
    let ?old = "if ?changed then map fst (joined_roles s i) else []"
    assume row: "find (\<lambda>u. us_id u = i) (bs_users s) = Some row" and i0: "i \<noteq> 0"
      and w: "user_write_locked env i v ?old row s = (Inr u, s')"
    show ?thesis
    proof (rule user_write_locked_effect [OF w])
      fix v' version s1 s2
      assume check: "?changed \<Longrightarrow>
           \<exists>u. checkAdmin env i (us_status row) (submitted (ui_status v) (us_status row)) ?old (if snd (roleIDs v) then fst (roleIDs v) else ?old) s = (Inr u, s)"
        and status: "ui_status v' = ui_status v"
        and s1: "s1 = update_user i (v', version) s \<or> s1 = s \<and> ui_status v = None"
        and s2: "if snd (roleIDs v) then \<exists>u. setRoles env i (fst (roleIDs v)) s1 = (Inr u, s2) else s2 = s1"
        and s': "revokes (if ?changed then {i} else {}) s2 s'"
      have other: "active_admin s2 b" if "active_admin s b" "b \<noteq> i" for b
        using that s1 s2 by (intro active_admin_over [OF that(1)])
          (auto simp: enabled_def roles_of_def admin_roles_def update_user_writes split: if_splits dest!: setRoles_writes)
      have row': "row \<in> set (bs_users s)" "us_id row = i" using find_in_ids [OF row] by simp_all
      have self: "enabled s2 i" if "submitted (ui_status v) (us_status row) = 1"
      proof -
        have "us_status (user_write (v', version) row) = 1" using that status by (simp add: user_write_def)
        moreover have "user_write (v', version) row \<in> set (bs_users (update_user i (v', version) s))"
          using row' by (auto simp: update_user_writes)
        ultimately have "enabled (update_user i (v', version) s) i" unfolding enabled_def
          by (intro bexI [of _ "user_write (v', version) row"]) (simp_all add: row')
        moreover have "enabled s i" if "ui_status v = None"
          using that row' \<open>submitted (ui_status v) (us_status row) = 1\<close> by (auto simp: enabled_def)
        ultimately have "enabled s1 i" using s1 by auto
        then show ?thesis using s2 by (auto simp: enabled_def split: if_splits dest!: setRoles_writes)
      qed
      have "\<exists>b. active_admin s2 b"
      proof (cases ?changed)
        case True
        from check [OF True] obtain x where x: "checkAdmin env i (us_status row) (submitted (ui_status v) (us_status row)) (map fst (joined_roles s i))
            (if snd (roleIDs v) then fst (roleIDs v) else map fst (joined_roles s i)) s = (Inr x, s)"
          unfolding if_P [OF True] by blast
        have old: "enabled s i \<Longrightarrow> us_status row = 1" using enabled_row [OF assms(3) row] by simp
        from checkAdmin_guards [OF x assms(3,2) old joined_roles_of [OF assms(3)]] show ?thesis
        proof
          assume "\<exists>b. b \<noteq> i \<and> active_admin s b"
          then show ?thesis using other by blast
        next
          assume stays: "submitted (ui_status v) (us_status row) = 1 \<and>
            set (if snd (roleIDs v) then fst (roleIDs v) else map fst (joined_roles s i)) \<inter> admin_roles s \<noteq> {}"
          have adm: "admin_roles s2 = admin_roles s" using s1 s2 by (auto simp: admin_roles_def split: if_splits dest!: setRoles_writes)
          have "0 \<notin> admin_roles s" using assms(3) by (auto simp: admin_roles_def base_ok_def keys_ok_def)
          then have "roles_of s2 i \<inter> admin_roles s2 \<noteq> {}"
          proof (cases "snd (roleIDs v)")
            case True
            then obtain r where r: "r \<in> set (fst (roleIDs v))" "r \<in> admin_roles s" using stays by auto
            with \<open>0 \<notin> admin_roles s\<close> have "r \<in> set (NormalizeIDs (fst (roleIDs v)))" by auto
            then have "(i, r) \<in> set (bs_userRoles s2)" using s2 True by (auto dest!: setRoles_writes)
            then show ?thesis using r unfolding adm by (auto simp: roles_of_def)
          next
            case False
            then have "roles_of s2 i = roles_of s i" using s1 s2 by (auto simp: roles_of_def)
            then show ?thesis using stays False joined_roles_of [OF assms(3), of i] unfolding adm by simp
          qed
          then show ?thesis using self stays by (auto simp: active_admin_def)
        qed
      next
        case False
        then have "s2 = s1" using s2 by simp
        show ?thesis
        proof (cases "a = i")
          case True
          then have "enabled s2 i" using self assms(2) False enabled_row [OF assms(3) row] by (simp add: active_admin_def)
          then have "active_admin s2 i" using assms(2) True s1 \<open>s2 = s1\<close> by (auto simp: active_admin_def roles_of_def admin_roles_def)
          then show ?thesis by blast
        next
          case False
          then show ?thesis using other assms(2) by blast
        qed
      qed
      then show ?thesis using revokes_admins [OF s'] by simp
    qed
  qed (use assms(2) in blast)
qed

lemma user_Delete_admin:
  assumes "user_Delete env ids s = (Inr u, s')" "active_admin s a" "base_ok s"
  shows "\<exists>b. active_admin s' b"
proof (rule user_Delete_effect [OF assms(1)])
  fix v s1
  assume k: "keepAdmin env (NormalizeIDs ids) s = (Inr v, s)"
    and s1: "s1 = s\<lparr>bs_userRoles := filter (\<lambda>(x, r). x \<notin> set ids - {0}) (bs_userRoles s), bs_users := filter (\<lambda>u. us_id u \<notin> set ids) (bs_users s)\<rparr>"
    and r: "revokes (set ids) s1 s'"
  obtain b where b: "b \<notin> set (NormalizeIDs ids)" "active_admin s b" using keepAdmin_guards [OF k assms(3,2)] by blast
  then have "b \<notin> set ids" using active_admin_nonzero [OF assms(3) b(2)] by simp
  then have "active_admin s1 b" using b(2) unfolding s1 by (auto simp: active_admin_def enabled_def roles_of_def admin_roles_def)
  then show ?thesis using revokes_admins [OF r] by blast
qed

lemma user_Move_admin: "user_Move env d ids s = (Inr u, s') \<Longrightarrow> active_admin s' a = active_admin s a"
  unfolding revokes_admins [OF user_Move_effect] by (rule same_admins) simp_all

lemma user_PersonUpdate_admin: "user_PersonUpdate env ctx req s = (Inr u, s') \<Longrightarrow> active_admin s' a = active_admin s a"
proof -
  assume "user_PersonUpdate env ctx req s = (Inr u, s')"
  from user_PersonUpdate_effect [OF this] show ?thesis
  proof (elim disjE exE)
    fix i pw U assume "revokes U (write_person i req pw s) s'"
    moreover have "active_admin (write_person i req pw s) a = active_admin s a"
      by (rule same_admins) (auto simp: write_person_def split: option.split)
    ultimately show ?thesis using revokes_admins by blast
  qed simp
qed

lemma role_Add_admin: "role_Add env inp s = (Inr ids, s') \<Longrightarrow> active_admin s a \<Longrightarrow> active_admin s' a"
  by (erule role_Add_effect) (auto simp: active_admin_def enabled_def roles_of_def admin_roles_def dest!: replacePerms_writes)

lemma same_key: "distinct (map k xs) \<Longrightarrow> x \<in> set xs \<Longrightarrow> y \<in> set xs \<Longrightarrow> k x = k y \<Longrightarrow> x = y"
  by (auto simp: distinct_map inj_on_def)

lemma role_Update_admin:
  assumes "role_Update env inp s = (Inr u, s')" "active_admin s a" "base_ok s"
  shows "active_admin s' a"
proof (rule role_Update_effect [OF assms(1)])
  fix i v r s1 perms
  assume r: "r \<in> set (bs_roles s)" "ro_id r = i" and c: "checkAdminRole r v = Inr ()" and s1: "revokes (role_holders s {i}) s s1"
    and s': "case perms of None \<Rightarrow> s' = update_role i v s1
     | Some p \<Rightarrow> set (rp_MenuIDList p) - {0} \<subseteq> menu_ids s \<and> set (rp_DepartmentIDList p) - {0} \<subseteq> dept_ids s \<and>
         (\<exists>u. replacePerms env i p (update_role i v s1) = (Inr u, s'))"
  have adm: "admin_roles s \<subseteq> admin_roles (update_role i v s)"
  proof
    fix k assume "k \<in> admin_roles s"
    then obtain x where x: "x \<in> set (bs_roles s)" "ro_id x = k" "is_admin_role x" by (auto simp: admin_roles_def)
    let ?x = "if ro_id x = i then role_write v x else x"
    have "is_admin_role ?x"
    proof (cases "ro_id x = i")
      case True
      then have "x = r" using same_key [of ro_id "bs_roles s" x r] r x(1) assms(3) by (simp add: base_ok_def keys_ok_def)
      then have "ri_label v = None" using c x(3) by (auto simp: checkAdminRole_def split: if_splits)
      then show ?thesis using x(3) by (simp add: is_admin_role_def role_write_def)
    qed (use x(3) in simp)
    moreover have "?x \<in> set (bs_roles (update_role i v s))" using x(1) by (auto simp: update_role_def)
    ultimately show "k \<in> admin_roles (update_role i v s)" unfolding admin_roles_def
      by (intro image_eqI [of _ _ ?x]) (simp_all add: x(2))
  qed
  have "active_admin (update_role i v s1) a"
    using active_admin_over [of s1 a "update_role i v s1"] revokes_admins [OF s1, of a] assms(2) adm revokes_frame [OF s1]
    by (auto simp: enabled_def roles_of_def admin_roles_def update_role_def)
  moreover have "active_admin s' a = active_admin (update_role i v s1) a"
    using s' by (intro same_admins) (auto split: option.splits dest!: replacePerms_writes)
  ultimately show ?thesis by simp
qed (use assms(2) in simp)

lemma role_Delete_admin:
  assumes "role_Delete env ids s = (Inr u, s')" "active_admin s a" "base_ok s"
  shows "active_admin s' a"
proof (rule role_Delete_effect [OF assms(1)])
  fix s1
  assume keep: "\<forall>r \<in> set (bs_roles s). ro_id r \<in> set ids - {0} \<longrightarrow> \<not> is_admin_role r"
    and r: "revokes (role_holders s (set ids - {0})) s s1"
    and s': "s' = s1\<lparr>bs_userRoles := filter (\<lambda>(u, r). r \<notin> set ids - {0}) (bs_userRoles s),
       bs_roleMenus := filter (\<lambda>(r, m). r \<notin> set ids - {0}) (bs_roleMenus s),
       bs_roleDepartments := filter (\<lambda>(r, d). r \<notin> set ids - {0}) (bs_roleDepartments s),
       bs_roles := filter (\<lambda>r. ro_id r \<notin> set ids) (bs_roles s)\<rparr>"
  have zero: "0 \<notin> role_ids s" using assms(3) by (simp add: base_ok_def keys_ok_def)
  have kept: "k \<notin> set ids" if k: "k \<in> admin_roles s" for k
  proof -
    obtain x where "x \<in> set (bs_roles s)" "ro_id x = k" "is_admin_role x" using k by (auto simp: admin_roles_def)
    moreover from this zero have "k \<noteq> 0" by (metis imageI)
    ultimately show ?thesis using keep by blast
  qed
  show ?thesis
  proof (rule active_admin_over [OF assms(2)])
    show "enabled s a \<Longrightarrow> enabled s' a" using revokes_frame [OF r] by (simp add: s' enabled_def)
    show "k \<in> roles_of s' a \<and> k \<in> admin_roles s'" if "k \<in> roles_of s a" "k \<in> admin_roles s" for k
      using that kept [OF that(2)] by (auto simp: s' roles_of_def admin_roles_def)
  qed
qed

lemma department_Delete_admin:
  assumes "department_Delete env ids du s = Some (Inr u, s')" "active_admin s a" "base_ok s"
  shows "\<exists>b. active_admin s' b"
proof -
  obtain trees where "delete_trees env du trees s = (Inr u, s')" using department_Delete_effect [OF assms(1)] .
  then show ?thesis
  proof (rule delete_trees_effect)
    fix s1 us A ids
    let ?U = "members s A"
    assume r: "revokes ?U s s1" and s': "s' = without_trees du ?U A us s1" and U: "set ids = ?U"
      and k: "du \<Longrightarrow> \<exists>v. keepAdmin env ids s = (Inr v, s)"
      and us: "map (\<lambda>u. (us_id u, us_status u)) us = map (\<lambda>u. (us_id u, us_status u)) (remaining_users du ?U (bs_users s))"
    note f = revokes_frame [OF r]
    have over: "active_admin s' b" if b: "active_admin s b" "du \<Longrightarrow> b \<notin> ?U" for b
    proof (rule active_admin_over [OF b(1)])
      show "enabled s' b" if "enabled s b"
        using that b(2) enabled_cong [OF us, of b] by (auto simp: enabled_def s' without_trees_def remaining_users_def)
      show "k \<in> roles_of s' b \<and> k \<in> admin_roles s'" if "k \<in> roles_of s b" "k \<in> admin_roles s" for k
        using that b(2) f by (auto simp: s' without_trees_def roles_of_def admin_roles_def)
    qed
    show ?thesis
    proof (cases du)
      case True
      then obtain v where "keepAdmin env ids s = (Inr v, s)" using k by blast
      from keepAdmin_guards [OF this assms(3,2)] obtain b where "b \<notin> ?U" "active_admin s b" unfolding U by blast
      then show ?thesis using over by blast
    next
      case False
      then show ?thesis using over assms(2) by blast
    qed
  qed
qed

text \<open>Operations on departments other than deleting, and on menus, do not touch users and roles.\<close>

definition access_part :: "base_state \<Rightarrow> user list \<times> role list \<times> (u64 \<times> u64) list" where
  "access_part s = (bs_users s, bs_roles s, bs_userRoles s)"

lemma access_part_admin: "access_part s' = access_part s \<Longrightarrow> active_admin s' a = active_admin s a"
  by (intro same_admins) (simp_all add: access_part_def)

lemma department_access:
  "preserves (\<lambda>t. access_part t = x) (department_Add env inp1)" "preserves (\<lambda>t. access_part t = x) (department_Update env inp2)"
  "preserves (\<lambda>t. access_part t = x) (department_Order env req)"
proof -
  have "preserves (\<lambda>t. access_part t = x) (base_Add env ''base_sys_department'' put_department inp1)"
    by (rule preserves_base_Add) (auto simp: access_part_def put_department_def split: if_splits)
  then show "preserves (\<lambda>t. access_part t = x) (department_Add env inp1)"
    unfolding department_Add_def by (rule preserves_bindA [rotated]) (simp add: preserves_keeps)
  have "preserves (\<lambda>t. access_part t = x) (base_Update env department_count update_department inp2)"
    by (rule preserves_base_Update) (simp add: access_part_def update_department_def)
  then show "preserves (\<lambda>t. access_part t = x) (department_Update env inp2)"
    unfolding department_Update_def by (rule preserves_bindA [rotated]) (simp add: preserves_keeps)
  have "preserves (\<lambda>t. access_part t = x) (eachA (\<lambda>r. writeA env ''update order'' (\<lambda>s. s\<lparr>bs_departments := map (\<lambda>d. if dm_id d = do_ID r
           then d\<lparr>dm_parentID := do_ParentID r, dm_orderNum := do_OrderNum r\<rparr> else d) (bs_departments s)\<rparr>)) req)"
    by (intro preserves_eachA preserves_writeA) (simp add: access_part_def)
  then show "preserves (\<lambda>t. access_part t = x) (department_Order env req)"
    unfolding department_Order_def by (auto intro!: preserves_if preserves_bindA simp: preserves_keeps)
qed

lemma menu_Add_access: "preserves (\<lambda>t. access_part t = x) (menu_Add env inp)"
proof -
  have "preserves (\<lambda>t. access_part t = x) (base_Add env ''base_sys_menu'' put_menu inp)"
    by (rule preserves_base_Add) (auto simp: access_part_def put_menu_def split: if_splits)
  then show ?thesis unfolding menu_Add_def
    by (intro preserves_withinTx) (rule preserves_bindA [rotated], simp_all add: preserves_keeps)
qed

lemma access_kept:
  assumes "\<And>x. preserves (\<lambda>t. access_part t = x) m" "m s = (Inr r, s')"
  shows "access_part s' = access_part s"
  using preservesD [OF assms(1) [of "access_part s"] refl assms(2)] .

lemma base_call_admin:
  assumes "base_call env c s = (Inr u, s')" "active_admin s a" "base_ok s"
  shows "\<exists>b. active_admin s' b"
proof (cases c)
  case (DepartmentAdd inp)
  then obtain r where "department_Add env inp s = (Inr r, s')" using assms(1) by auto
  from access_part_admin [OF access_kept [OF department_access(1) this]] show ?thesis using assms(2) by blast
next
  case (DepartmentUpdate inp)
  then obtain r where "department_Update env inp s = (Inr r, s')" using assms(1) by auto
  from access_part_admin [OF access_kept [OF department_access(2) this]] show ?thesis using assms(2) by blast
next
  case (DepartmentOrder req)
  then obtain r where "department_Order env req s = (Inr r, s')" using assms(1) by auto
  from access_part_admin [OF access_kept [OF department_access(3) this]] show ?thesis using assms(2) by blast
next
  case (MenuAdd inp)
  then obtain r where "menu_Add env inp s = (Inr r, s')" using assms(1) by auto
  from access_part_admin [OF access_kept [OF menu_Add_access this]] show ?thesis using assms(2) by blast
next
  case (MenuUpdate inp)
  then have "menu_Update env inp s = (Inr u, s')" using assms(1) by simp
  then show ?thesis
  proof (rule menu_Update_effect)
    fix s1 assume "revokes (menu_holders s (fst ` set (update_items inp) - {0})) s s1"
      "s' = s1\<lparr>bs_menus := updated_rows (update_items inp) (bs_menus s)\<rparr>"
    then have "access_part s' = access_part s" by (auto simp: access_part_def dest!: revokes_frame)
    then show ?thesis using assms(2) access_part_admin by blast
  qed
next
  case (MenuDelete ids)
  then have "menu_Delete env ids s = (Inr u, s')" using assms(1) by simp
  then show ?thesis
  proof (rule menu_Delete_effect [OF _ assms(3)])
    fix s1 M assume "revokes (menu_holders s M) s s1"
      "s' = s1\<lparr>bs_roleMenus := filter (\<lambda>(r, m). m \<notin> M) (bs_roleMenus s), bs_menus := filter (\<lambda>m. mn_id m \<notin> M) (bs_menus s)\<rparr>"
    then have "access_part s' = access_part s" by (auto simp: access_part_def dest!: revokes_frame)
    then show ?thesis using assms(2) access_part_admin by blast
  qed
next
  case (MenuImport ts)
  then have "importTree env ts None s = (Inr u, s')" using assms(1) by (simp add: menu_Import_def)
  from importTree_effect [OF this assms(3)] have "access_part s' = access_part s" by (auto simp: access_part_def)
  then show ?thesis using assms(2) access_part_admin by blast
next
  case (UserAdd inp)
  then obtain ids where "user_Add env inp s = (Inr ids, s')" using assms(1) by auto
  then show ?thesis using user_Add_admin assms(2,3) by blast
next
  case (UserUpdate inp)
  then show ?thesis using user_Update_admin assms by (metis base_call.simps(2))
next
  case (UserDelete ids)
  then show ?thesis using user_Delete_admin assms by (metis base_call.simps(3))
next
  case (UserMove d ids)
  then show ?thesis using user_Move_admin assms by (metis base_call.simps(4))
next
  case (PersonUpdate ctx req)
  then show ?thesis using user_PersonUpdate_admin assms by (metis base_call.simps(5))
next
  case (RoleAdd inp)
  then obtain ids where "role_Add env inp s = (Inr ids, s')" using assms(1) by auto
  then show ?thesis using role_Add_admin assms(2) by blast
next
  case (RoleUpdate inp)
  then show ?thesis using role_Update_admin assms by (metis base_call.simps(7))
next
  case (RoleDelete ids)
  then show ?thesis using role_Delete_admin assms by (metis base_call.simps(8))
next
  case (DepartmentDelete ids du)
  then have "department_Delete env ids du s = Some (Inr u, s')" using assms(1) by simp
  then show ?thesis using department_Delete_admin assms(2,3) by blast
qed

lemma tables_admin: "tables s' = tables s \<Longrightarrow> active_admin s' a = active_admin s a"
proof -
  assume t: "tables s' = tables s"
  have "bs_users s' = bs_users s" "bs_userRoles s' = bs_userRoles s" "bs_roles s' = bs_roles s"
    using arg_cong [OF t, of bs_users] arg_cong [OF t, of bs_userRoles] arg_cong [OF t, of bs_roles] by (simp_all add: tables_def)
  then show ?thesis by (intro same_admins) simp_all
qed

text \<open>C8: There is always an administrator left: from tables with an enabled user who has an administrator
  role, no sequence of operations on users, roles, departments and menus, whatever fails in between,
  leads to tables without one.\<close>

theorem last_administrator_kept:
  assumes "base_ok s" "active_admin s a"
  shows "\<exists>b. active_admin (base_run cs s) b"
  using assms
proof (induction cs s arbitrary: a rule: base_run.induct)
  case (2 env c cs s)
  obtain r s' where step: "base_step env c s = (r, s')" by (cases "base_step env c s")
  have "\<exists>b. active_admin s' b"
    using step
  proof (cases rule: base_step_cases)
    case (commit u)
    then show ?thesis using base_call_admin 2(2,3) by blast
  next
    case (rollback e s'')
    then show ?thesis using tables_admin 2(3) by blast
  qed
  moreover have "base_ok s'" using base_step_ok [OF step 2(2)] .
  ultimately show ?case using 2(1) by (auto simp: step)
qed auto

definition admin_base :: base_state where
  "admin_base = empty_base\<lparr>bs_users := [(new_user 1)\<lparr>us_username := ''root''\<rparr>], bs_roles := [(new_role 2)\<lparr>ro_label := Some ''admin''\<rparr>],
     bs_userRoles := [(1, 2)]\<rparr>"

lemma admin_base_ok: "base_ok admin_base" "active_admin admin_base 1"
proof -
  show "base_ok admin_base"
    by (simp add: admin_base_def empty_base_def base_ok_def keys_ok_def relations_ok_def forest_ok_def menu_parents_def up_def
      parent_edges_def acyclic_def new_user_def new_role_def)
  have "\<exists>r \<in> set (bs_roles admin_base). ro_id r = 2 \<and> is_admin_role r"
    by (simp add: admin_base_def new_role_def is_admin_role_def adminRoleLabel_def)
  then have "2 \<in> admin_roles admin_base" by (auto simp: admin_roles_def)
  moreover have "2 \<in> roles_of admin_base 1" "enabled admin_base 1"
    by (simp_all add: admin_base_def empty_base_def roles_of_def enabled_def new_user_def)
  ultimately show "active_admin admin_base 1" by (auto simp: active_admin_def)
qed

theorem last_administrator_kept_witness:
  "\<exists>b. active_admin (base_run [(plain_env, UserDelete [1]), (plain_env, RoleDelete [2])] admin_base) b"
  by (rule last_administrator_kept [OF admin_base_ok])

end
