(* ===== verification/Base_Grants.thy ===== *)
theory Base_Grants
  imports Base_Authority
begin

text \<open>
  Sessions and grants: an operation that changes what a user may do ends the sessions of that user,
  so no session keeps rights that the tables no longer give; and the decision on a request is the
  one that the tables give.
\<close>

section \<open>What a user may do\<close>

definition menu_perms :: "base_state \<Rightarrow> u64 \<Rightarrow> string set" where
  "menu_perms s i = {p. \<exists>m \<in> set (bs_menus s). mn_id m = i \<and> p \<in> set (menu_permissions m)}"

definition perms_of :: "base_state \<Rightarrow> u64 set \<Rightarrow> string set" where
  "perms_of s R = {p. \<exists>r \<in> R. \<exists>i. (r, i) \<in> set (bs_roleMenus s) \<and> p \<in> menu_perms s i}"

text \<open>Whether the user may sign in, the roles, whether they make an administrator, and the permissions
  otherwise.\<close>

definition authority :: "base_state \<Rightarrow> u64 \<Rightarrow> bool \<times> u64 set \<times> bool \<times> string set" where
  "authority s u = (let R = roles_of s u; admin = (R \<inter> admin_roles s \<noteq> {}) in
     (enabled s u, R, admin, if admin then {} else perms_of s R))"

lemma authority_eqI:
  assumes "enabled s' u = enabled s u" "roles_of s' u = roles_of s u"
    "roles_of s u \<inter> admin_roles s' = roles_of s u \<inter> admin_roles s"
    "\<And>r i. r \<in> roles_of s u \<Longrightarrow> (r, i) \<in> set (bs_roleMenus s') \<longleftrightarrow> (r, i) \<in> set (bs_roleMenus s)"
    "\<And>r i. r \<in> roles_of s u \<Longrightarrow> (r, i) \<in> set (bs_roleMenus s) \<Longrightarrow> menu_perms s' i = menu_perms s i"
  shows "authority s' u = authority s u"
proof -
  have "perms_of s' (roles_of s u) = perms_of s (roles_of s u)"
    unfolding perms_of_def using assms(4,5) by blast
  then show ?thesis using assms(1-3) by (simp add: authority_def Let_def)
qed

text \<open>The change from \<open>s\<close> to \<open>s'\<close> leaves what a user may do or signs the user out.\<close>

definition grants_kept :: "base_state \<Rightarrow> base_state \<Rightarrow> bool" where
  "grants_kept s s' \<longleftrightarrow> set (bs_sessions s') \<subseteq> set (bs_sessions s) \<and>
     (\<forall>u \<in> user_ids s. authority s' u = authority s u \<or> signed_out s' u)"

lemma revokes_authority: "revokes U s s' \<Longrightarrow> authority s' u = authority s u"
  using revokes_frame [of U s s'] by (intro authority_eqI) (simp_all add: enabled_def roles_of_def admin_roles_def menu_perms_def)

lemma revokes_out: "revokes U s s' \<Longrightarrow> u \<in> U \<Longrightarrow> u \<noteq> 0 \<Longrightarrow> signed_out s' u"
  by (auto simp: revokes_def)

lemma revokes_sessions: "revokes U s s' \<Longrightarrow> set (bs_sessions s') \<subseteq> set (bs_sessions s)"
  by (simp add: revokes_def)

text \<open>What \<open>s1\<close> changes only matters to users that the revocation signs out.\<close>

lemma grants_keptI:
  assumes "revokes U s1 s'" "bs_sessions s1 = bs_sessions s" "0 \<notin> user_ids s"
    "\<And>u. u \<in> user_ids s \<Longrightarrow> u \<notin> U \<Longrightarrow> authority s1 u = authority s u"
  shows "grants_kept s s'"
  unfolding grants_kept_def
proof (intro conjI ballI)
  show "set (bs_sessions s') \<subseteq> set (bs_sessions s)" using revokes_sessions [OF assms(1)] assms(2) by simp
  show "authority s' u = authority s u \<or> signed_out s' u" if u: "u \<in> user_ids s" for u
  proof (cases "u \<in> U")
    case True
    moreover have "u \<noteq> 0" using u assms(3) by metis
    ultimately show ?thesis using revokes_out [OF assms(1)] by blast
  next
    case False
    then show ?thesis using revokes_authority [OF assms(1)] assms(4) [OF u] by simp
  qed
qed

lemma grants_keptI':
  assumes "revokes U s s1" "bs_sessions s' = bs_sessions s1" "0 \<notin> user_ids s"
    "\<And>u. u \<in> user_ids s \<Longrightarrow> u \<notin> U \<Longrightarrow> authority s' u = authority s1 u"
  shows "grants_kept s s'"
  unfolding grants_kept_def
proof (intro conjI ballI)
  show "set (bs_sessions s') \<subseteq> set (bs_sessions s)" using revokes_sessions [OF assms(1)] assms(2) by simp
  show "authority s' u = authority s u \<or> signed_out s' u" if u: "u \<in> user_ids s" for u
  proof (cases "u \<in> U")
    case True
    moreover have "u \<noteq> 0" using u assms(3) by metis
    ultimately have "signed_out s1 u" using revokes_out [OF assms(1)] by blast
    then show ?thesis using assms(2) by (simp add: signed_out_def)
  next
    case False
    then show ?thesis using revokes_authority [OF assms(1)] assms(4) [OF u] by simp
  qed
qed

lemma revokes_none: "revokes {} s s"
  by (simp add: revokes_def)

lemma base_ok_zero: "base_ok s \<Longrightarrow> 0 \<notin> user_ids s"
  by (simp add: base_ok_def keys_ok_def)

section \<open>Users\<close>

lemma user_Add_grants: "user_Add env inp s = (Inr ids, s') \<Longrightarrow> base_ok s \<Longrightarrow> grants_kept s s'"
proof (erule user_Add_effect)
  fix v v' i s1 x
  assume ok: "base_ok s" and i: "i \<notin> user_ids s" and p: "put_user v' i s = Some s1"
    and r: "setRoles env i (fst (roleIDs v)) s1 = (Inr x, s')"
  have "bs_sessions s' = bs_sessions s" using put_user_writes [OF p] setRoles_writes [OF r] by simp
  then show "grants_kept s s'"
  proof (rule grants_keptI' [OF revokes_none _ base_ok_zero [OF ok]])
    fix u assume u: "u \<in> user_ids s"
    then have "u \<noteq> i" using i by blast
    then show "authority s' u = authority s u" using put_user_writes [OF p] setRoles_writes [OF r]
      by (intro authority_eqI) (auto simp: enabled_def roles_of_def admin_roles_def menu_perms_def)
  qed
qed

lemma user_Update_grants:
  assumes "user_Update env inp s = (Inr x, s')" "base_ok s"
  shows "grants_kept s s'"
  using user_Update_effect [OF assms(1) base_ok_zero [OF assms(2)]]
proof (elim disjE exE conjE)
  fix i v row
  let ?changed = "ui_status v \<noteq> None \<or> snd (roleIDs v)"
  assume row: "find (\<lambda>u. us_id u = i) (bs_users s) = Some row"
    and w: "user_write_locked env i v (if ?changed then map fst (joined_roles s i) else []) row s = (Inr x, s')"
  show ?thesis
  proof (rule user_write_locked_effect [OF w])
    fix v' version s1 s2
    assume status: "ui_status v' = ui_status v"
      and s1: "s1 = update_user i (v', version) s \<or> s1 = s \<and> ui_status v = None"
      and s2: "if snd (roleIDs v) then \<exists>u. setRoles env i (fst (roleIDs v)) s1 = (Inr u, s2) else s2 = s1"
      and s': "revokes (if ?changed then {i} else {}) s2 s'"
    show ?thesis
    proof (rule grants_keptI [OF s'])
      show "bs_sessions s2 = bs_sessions s" using s1 s2 by (auto split: if_splits dest!: setRoles_writes)
      show "0 \<notin> user_ids s" by (rule base_ok_zero) fact
      fix u assume u: "u \<in> user_ids s" "u \<notin> (if ?changed then {i} else {})"
      show "authority s2 u = authority s u"
      proof (cases "u = i")
        case True
        then have c: "ui_status v = None" "\<not> snd (roleIDs v)" using u(2) by (auto split: if_splits)
        have "map (\<lambda>u. (us_id u, us_status u)) (bs_users s1) = map (\<lambda>u. (us_id u, us_status u)) (bs_users s)"
          using s1 c status by (auto simp: update_user_writes user_write_def)
        from enabled_cong [OF this, of u] show ?thesis using s1 s2 c
          by (intro authority_eqI) (auto simp: enabled_def roles_of_def admin_roles_def menu_perms_def)
      next
        case False
        have "enabled s2 u = enabled s u" using s1 s2 False by (auto simp: enabled_def update_user_writes split: if_splits dest!: setRoles_writes)
        moreover have "roles_of s2 u = roles_of s u" using s1 s2 False by (auto simp: roles_of_def split: if_splits dest!: setRoles_writes)
        moreover have "bs_roles s2 = bs_roles s" "bs_roleMenus s2 = bs_roleMenus s" "bs_menus s2 = bs_menus s"
          using s1 s2 by (auto split: if_splits dest!: setRoles_writes)
        ultimately show ?thesis by (intro authority_eqI) (simp_all add: admin_roles_def menu_perms_def)
      qed
    qed
  qed
qed (simp add: grants_kept_def)

lemma user_Delete_grants:
  assumes "user_Delete env ids s = (Inr x, s')" "base_ok s"
  shows "grants_kept s s'"
proof (rule user_Delete_effect [OF assms(1)])
  fix v s1
  assume s1: "s1 = s\<lparr>bs_userRoles := filter (\<lambda>(x, r). x \<notin> set ids - {0}) (bs_userRoles s), bs_users := filter (\<lambda>u. us_id u \<notin> set ids) (bs_users s)\<rparr>"
    and r: "revokes (set ids) s1 s'"
  show ?thesis
  proof (rule grants_keptI [OF r _ base_ok_zero [OF assms(2)]])
    fix u assume "u \<in> user_ids s" "u \<notin> set ids"
    then show "authority s1 u = authority s u"
      by (intro authority_eqI) (auto simp: s1 enabled_def roles_of_def admin_roles_def menu_perms_def)
  qed (simp add: s1)
qed

lemma same_authority:
  assumes "map (\<lambda>u. (us_id u, us_status u)) (bs_users s') = map (\<lambda>u. (us_id u, us_status u)) (bs_users s)"
    "bs_userRoles s' = bs_userRoles s" "bs_roles s' = bs_roles s" "bs_roleMenus s' = bs_roleMenus s" "bs_menus s' = bs_menus s"
  shows "authority s' u = authority s u"
  using enabled_cong [OF assms(1), of u] assms(2-)
  by (intro authority_eqI) (simp_all add: enabled_def roles_of_def admin_roles_def menu_perms_def)

lemma user_Move_grants: "user_Move env d ids s = (Inr x, s') \<Longrightarrow> base_ok s \<Longrightarrow> grants_kept s s'"
  by (rule grants_keptI [OF user_Move_effect]) (auto simp: base_ok_zero intro!: same_authority)

lemma user_PersonUpdate_grants:
  assumes "user_PersonUpdate env ctx req s = (Inr x, s')" "base_ok s"
  shows "grants_kept s s'"
  using user_PersonUpdate_effect [OF assms(1)]
proof (elim disjE exE)
  fix i pw U assume r: "revokes U (write_person i req pw s) s'"
  show ?thesis
    by (rule grants_keptI [OF r _ base_ok_zero [OF assms(2)]])
      (auto simp: write_person_def intro!: same_authority split: option.split)
qed (simp add: grants_kept_def)

section \<open>Roles\<close>

lemma roles_of_known: "base_ok s \<Longrightarrow> roles_of s u \<subseteq> role_ids s"
  by (auto simp: base_ok_def relations_ok_def roles_of_def)

lemma role_Add_grants: "role_Add env inp s = (Inr ids, s') \<Longrightarrow> base_ok s \<Longrightarrow> grants_kept s s'"
proof (erule role_Add_effect)
  fix v p i s1 x
  assume ok: "base_ok s" and i: "i \<notin> role_ids s" and s1: "s1 = s\<lparr>bs_roles := bs_roles s @ [role_write v (new_role i)]\<rparr>"
    and r: "replacePerms env i p s1 = (Inr x, s')"
  note w = replacePerms_writes [OF r]
  show "grants_kept s s'"
  proof (rule grants_keptI' [OF revokes_none _ base_ok_zero [OF ok]])
    fix u
    have "i \<notin> roles_of s u" using i roles_of_known [OF ok, of u] by blast
    then show "authority s' u = authority s u" unfolding w s1
      by (intro authority_eqI) (auto simp: enabled_def roles_of_def admin_roles_def menu_perms_def)
  qed (simp add: w s1)
qed

lemma update_role_others:
  "{r \<in> set (bs_roles (update_role i v s)). ro_id r \<noteq> i} = {r \<in> set (bs_roles s). ro_id r \<noteq> i}"
  by (auto simp: update_role_def)

lemma admin_roles_other: "k \<noteq> i \<Longrightarrow> k \<in> admin_roles (update_role i v s) \<longleftrightarrow> k \<in> admin_roles s"
  using update_role_others [of i v s] by (auto simp: admin_roles_def image_iff set_eq_iff)

lemma role_Update_grants:
  assumes "role_Update env inp s = (Inr x, s')" "base_ok s"
  shows "grants_kept s s'"
proof (rule role_Update_effect [OF assms(1)])
  fix i v r s1 perms
  assume s1: "revokes (role_holders s {i}) s s1"
    and s': "case perms of None \<Rightarrow> s' = update_role i v s1
     | Some p \<Rightarrow> set (rp_MenuIDList p) - {0} \<subseteq> menu_ids s \<and> set (rp_DepartmentIDList p) - {0} \<subseteq> dept_ids s \<and>
         (\<exists>u. replacePerms env i p (update_role i v s1) = (Inr u, s'))"
  show ?thesis
  proof (rule grants_keptI' [OF s1 _ base_ok_zero [OF assms(2)]])
    show "bs_sessions s' = bs_sessions s1" using s' by (auto split: option.splits dest!: replacePerms_writes)
    fix u assume "u \<notin> role_holders s {i}"
    then have other: "k \<noteq> i" if "k \<in> roles_of s1 u" for k
      using that revokes_frame [OF s1] by (auto simp: role_holders_def roles_of_def)
    have same: "bs_users s' = bs_users s1" "bs_userRoles s' = bs_userRoles s1" "bs_menus s' = bs_menus s1"
      "bs_roles s' = bs_roles (update_role i v s1)"
      "\<And>r m. r \<noteq> i \<Longrightarrow> (r, m) \<in> set (bs_roleMenus s') \<longleftrightarrow> (r, m) \<in> set (bs_roleMenus s1)"
      using s' by (auto split: option.splits dest!: replacePerms_writes)
    have adm: "admin_roles s' = admin_roles (update_role i v s1)" by (simp add: admin_roles_def same(4))
    show "authority s' u = authority s1 u"
    proof (rule authority_eqI)
      show "roles_of s1 u \<inter> admin_roles s' = roles_of s1 u \<inter> admin_roles s1"
        using other admin_roles_other [of _ i v s1] unfolding adm by blast
      show "(k, m) \<in> set (bs_roleMenus s') \<longleftrightarrow> (k, m) \<in> set (bs_roleMenus s1)" if "k \<in> roles_of s1 u" for k m
        by (rule same(5) [OF other [OF that]])
    qed (simp_all add: same enabled_def roles_of_def menu_perms_def)
  qed
qed (simp add: grants_kept_def)

lemma role_Delete_grants:
  assumes "role_Delete env ids s = (Inr x, s')" "base_ok s"
  shows "grants_kept s s'"
proof (rule role_Delete_effect [OF assms(1)])
  fix s1
  assume r: "revokes (role_holders s (set ids - {0})) s s1"
    and s': "s' = s1\<lparr>bs_userRoles := filter (\<lambda>(u, r). r \<notin> set ids - {0}) (bs_userRoles s),
       bs_roleMenus := filter (\<lambda>(r, m). r \<notin> set ids - {0}) (bs_roleMenus s),
       bs_roleDepartments := filter (\<lambda>(r, d). r \<notin> set ids - {0}) (bs_roleDepartments s),
       bs_roles := filter (\<lambda>r. ro_id r \<notin> set ids) (bs_roles s)\<rparr>"
  note f = revokes_frame [OF r]
  show ?thesis
  proof (rule grants_keptI' [OF r _ base_ok_zero [OF assms(2)]])
    show "bs_sessions s' = bs_sessions s1" by (simp add: s')
    fix u assume "u \<notin> role_holders s (set ids - {0})"
    then have none: "k \<notin> set ids" if "k \<in> roles_of s u" for k
      using that roles_of_known [OF assms(2), of u] assms(2) by (auto simp: role_holders_def roles_of_def base_ok_def keys_ok_def)
    have "roles_of s1 u = roles_of s u" using f by (simp add: roles_of_def)
    moreover have "roles_of s' u = roles_of s u" using none by (auto simp: s' roles_of_def)
    moreover have "roles_of s u \<inter> admin_roles s' = roles_of s u \<inter> admin_roles s1"
      using f none by (auto simp: s' admin_roles_def)
    moreover have "(k, i) \<in> set (bs_roleMenus s') \<longleftrightarrow> (k, i) \<in> set (bs_roleMenus s1)" if "k \<in> roles_of s u" for k i
      using f none [OF that] by (simp add: s')
    ultimately show "authority s' u = authority s1 u"
      by (intro authority_eqI) (simp_all add: s' enabled_def menu_perms_def)
  qed
qed

section \<open>Departments and menus\<close>

lemma department_Delete_grants:
  assumes "department_Delete env ids du s = Some (Inr x, s')" "base_ok s"
  shows "grants_kept s s'"
proof -
  obtain trees where "delete_trees env du trees s = (Inr x, s')" using department_Delete_effect [OF assms(1)] .
  then show ?thesis
  proof (rule delete_trees_effect)
    fix s1 us A
    let ?U = "members s A"
    assume r: "revokes ?U s s1" and s': "s' = without_trees du ?U A us s1"
      and us: "map (\<lambda>u. (us_id u, us_status u)) us = map (\<lambda>u. (us_id u, us_status u)) (remaining_users du ?U (bs_users s))"
    note f = revokes_frame [OF r]
    show ?thesis
    proof (rule grants_keptI' [OF r _ base_ok_zero [OF assms(2)]])
      show "bs_sessions s' = bs_sessions s1" by (simp add: s' without_trees_def)
      fix u assume u: "u \<notin> ?U"
      have "enabled s' u = enabled s1 u"
        using u f enabled_cong [OF us, of u] by (auto simp: enabled_def s' without_trees_def remaining_users_def)
      then show "authority s' u = authority s1 u" using u f
        by (intro authority_eqI) (auto simp: s' without_trees_def roles_of_def admin_roles_def menu_perms_def)
    qed
  qed
qed

lemma updated_rows_other: "i \<notin> fst ` set items \<Longrightarrow>
    {m \<in> set (updated_rows items rows). mn_id m = i} = {m \<in> set rows. mn_id m = i}"
proof (induction items arbitrary: rows)
  case (Cons item items)
  obtain j v where item: "item = (j, v)" by (cases item)
  have "{m \<in> set (updated_rows (item # items) rows). mn_id m = i} =
      {m \<in> set (map (\<lambda>m. if mn_id m = j then menu_write v m else m) rows). mn_id m = i}"
    using Cons by (simp only: item updated_rows_simps) simp
  also have "\<dots> = {m \<in> set rows. mn_id m = i}" using Cons.prems by (auto simp: item)
  finally show ?case .
qed simp

lemma not_menu_holder: "u \<notin> menu_holders s M \<Longrightarrow> r \<in> roles_of s u \<Longrightarrow> (r, i) \<in> set (bs_roleMenus s) \<Longrightarrow> i \<notin> M"
  by (auto simp: menu_holders_def role_holders_def roles_of_def)

lemma menu_Update_grants:
  assumes "menu_Update env inp s = (Inr x, s')" "base_ok s"
  shows "grants_kept s s'"
proof (rule menu_Update_effect [OF assms(1)])
  fix s1
  let ?I = "fst ` set (update_items inp)"
  assume r: "revokes (menu_holders s (?I - {0})) s s1" and s': "s' = s1\<lparr>bs_menus := updated_rows (update_items inp) (bs_menus s)\<rparr>"
  note f = revokes_frame [OF r]
  show ?thesis
  proof (rule grants_keptI' [OF r _ base_ok_zero [OF assms(2)]])
    show "bs_sessions s' = bs_sessions s1" by (simp add: s')
    fix u assume u: "u \<notin> menu_holders s (?I - {0})"
    show "authority s' u = authority s1 u"
    proof (rule authority_eqI)
      fix k i assume k: "k \<in> roles_of s1 u" "(k, i) \<in> set (bs_roleMenus s1)"
      have "i \<noteq> 0" using k(2) f assms(2) by (auto simp: base_ok_def relations_ok_def keys_ok_def)
      moreover have "i \<notin> ?I - {0}" using not_menu_holder [OF u, of k i] k f by (simp add: roles_of_def)
      ultimately have "i \<notin> ?I" by blast
      from updated_rows_other [OF this, of "bs_menus s"] show "menu_perms s' i = menu_perms s1 i"
        using f by (auto simp: menu_perms_def s' set_eq_iff)
    qed (simp_all add: s' enabled_def roles_of_def admin_roles_def)
  qed
qed

lemma menu_Delete_grants:
  assumes "menu_Delete env ids s = (Inr x, s')" "base_ok s"
  shows "grants_kept s s'"
proof (rule menu_Delete_effect [OF assms])
  fix s1 M
  assume r: "revokes (menu_holders s M) s s1"
    and s': "s' = s1\<lparr>bs_roleMenus := filter (\<lambda>(r, m). m \<notin> M) (bs_roleMenus s), bs_menus := filter (\<lambda>m. mn_id m \<notin> M) (bs_menus s)\<rparr>"
  note f = revokes_frame [OF r]
  show ?thesis
  proof (rule grants_keptI' [OF r _ base_ok_zero [OF assms(2)]])
    show "bs_sessions s' = bs_sessions s1" by (simp add: s')
    fix u assume u: "u \<notin> menu_holders s M"
    have out: "i \<notin> M" if "k \<in> roles_of s1 u" "(k, i) \<in> set (bs_roleMenus s1)" for k i
      using not_menu_holder [OF u, of k i] that f by (simp add: roles_of_def)
    then show "authority s' u = authority s1 u" using f
      by (intro authority_eqI) (auto simp: s' enabled_def roles_of_def admin_roles_def menu_perms_def)
  qed
qed

text \<open>New menus are in no role.\<close>

lemma new_menus_authority:
  assumes "base_ok s" "s' = s\<lparr>bs_menus := bs_menus s @ new\<rparr>" "base_ok s'"
  shows "grants_kept s s'"
proof (rule grants_keptI' [OF revokes_none _ base_ok_zero [OF assms(1)]])
  fix u
  have "i \<notin> mn_id ` set new" if "i \<in> menu_ids s" for i
    using that assms(2,3) by (auto simp: base_ok_def keys_ok_def)
  then have "menu_perms s' i = menu_perms s i" if "i \<in> menu_ids s" for i
    using that assms(2) by (auto simp: menu_perms_def)
  moreover have "i \<in> menu_ids s" if "(r, i) \<in> set (bs_roleMenus s)" for r i
    using that assms(1) by (auto simp: base_ok_def relations_ok_def)
  ultimately show "authority s' u = authority s u"
    using assms(2) by (intro authority_eqI) (simp_all add: enabled_def roles_of_def admin_roles_def)
qed (use assms(2) in simp)

text \<open>Everything that what a user may do depends on.\<close>

definition grant_part :: "base_state \<Rightarrow> user list \<times> role list \<times> menu list \<times> (u64 \<times> u64) list \<times> (u64 \<times> u64) list \<times> sessions" where
  "grant_part s = (bs_users s, bs_roles s, bs_menus s, bs_userRoles s, bs_roleMenus s, bs_sessions s)"

lemma grant_part_kept: "grant_part s' = grant_part s \<Longrightarrow> grants_kept s s'"
  by (auto simp: grant_part_def grants_kept_def intro!: same_authority)

lemma department_grants:
  "preserves (\<lambda>t. grant_part t = x) (department_Add env inp1)" "preserves (\<lambda>t. grant_part t = x) (department_Update env inp2)"
  "preserves (\<lambda>t. grant_part t = x) (department_Order env req)"
proof -
  have "preserves (\<lambda>t. grant_part t = x) (base_Add env ''base_sys_department'' put_department inp1)"
    by (rule preserves_base_Add) (auto simp: grant_part_def put_department_def split: if_splits)
  then show "preserves (\<lambda>t. grant_part t = x) (department_Add env inp1)"
    unfolding department_Add_def by (rule preserves_bindA [rotated]) (simp add: preserves_keeps)
  have "preserves (\<lambda>t. grant_part t = x) (base_Update env department_count update_department inp2)"
    by (rule preserves_base_Update) (simp add: grant_part_def update_department_def)
  then show "preserves (\<lambda>t. grant_part t = x) (department_Update env inp2)"
    unfolding department_Update_def by (rule preserves_bindA [rotated]) (simp add: preserves_keeps)
  have "preserves (\<lambda>t. grant_part t = x) (eachA (\<lambda>r. writeA env ''update order'' (\<lambda>s. s\<lparr>bs_departments := map (\<lambda>d. if dm_id d = do_ID r
           then d\<lparr>dm_parentID := do_ParentID r, dm_orderNum := do_OrderNum r\<rparr> else d) (bs_departments s)\<rparr>)) req)"
    by (intro preserves_eachA preserves_writeA) (simp add: grant_part_def)
  then show "preserves (\<lambda>t. grant_part t = x) (department_Order env req)"
    unfolding department_Order_def by (auto intro!: preserves_if preserves_bindA simp: preserves_keeps)
qed

lemma grant_part_keeps:
  assumes "\<And>x. preserves (\<lambda>t. grant_part t = x) m" "m s = (Inr r, s')"
  shows "grants_kept s s'"
  using preservesD [OF assms(1) [of "grant_part s"] refl assms(2)] by (rule grant_part_kept)

lemma menu_Add_appends:
  assumes "menu_Add env inp s = (Inr ids, s')"
  shows "\<exists>new. s' = s\<lparr>bs_menus := bs_menus s @ new\<rparr>"
proof -
  let ?P = "\<lambda>t. \<exists>new. t = s\<lparr>bs_menus := bs_menus s @ new\<rparr>"
  have "preserves ?P (base_Add env ''base_sys_menu'' put_menu inp)"
    by (rule preserves_base_Add) (auto simp: put_menu_def split: if_splits)
  then have "preserves ?P (menu_Add env inp)" unfolding menu_Add_def
    by (intro preserves_withinTx) (rule preserves_bindA [rotated], simp_all add: preserves_keeps)
  moreover have "?P s" by (rule exI [of _ "[]"]) simp
  ultimately show ?thesis using assms by (rule preservesD)
qed

lemma base_call_grants:
  assumes "base_call env c s = (Inr x, s')" "base_ok s"
  shows "grants_kept s s'"
proof (cases c)
  case (UserAdd inp)
  then obtain ids where "user_Add env inp s = (Inr ids, s')" using assms(1) by auto
  then show ?thesis using user_Add_grants assms(2) by blast
next
  case (UserUpdate inp)
  then show ?thesis using user_Update_grants assms by (metis base_call.simps(2))
next
  case (UserDelete ids)
  then show ?thesis using user_Delete_grants assms by (metis base_call.simps(3))
next
  case (UserMove d ids)
  then show ?thesis using user_Move_grants assms by (metis base_call.simps(4))
next
  case (PersonUpdate ctx req)
  then show ?thesis using user_PersonUpdate_grants assms by (metis base_call.simps(5))
next
  case (RoleAdd inp)
  then obtain ids where "role_Add env inp s = (Inr ids, s')" using assms(1) by auto
  then show ?thesis using role_Add_grants assms(2) by blast
next
  case (RoleUpdate inp)
  then show ?thesis using role_Update_grants assms by (metis base_call.simps(7))
next
  case (RoleDelete ids)
  then show ?thesis using role_Delete_grants assms by (metis base_call.simps(8))
next
  case (DepartmentAdd inp)
  then obtain r where "department_Add env inp s = (Inr r, s')" using assms(1) by auto
  then show ?thesis by (rule grant_part_keeps [OF department_grants(1)])
next
  case (DepartmentUpdate inp)
  then have "department_Update env inp s = (Inr x, s')" using assms(1) by simp
  then show ?thesis by (rule grant_part_keeps [OF department_grants(2)])
next
  case (DepartmentOrder req)
  then have "department_Order env req s = (Inr x, s')" using assms(1) by simp
  then show ?thesis by (rule grant_part_keeps [OF department_grants(3)])
next
  case (DepartmentDelete ids du)
  then have "department_Delete env ids du s = Some (Inr x, s')" using assms(1) by simp
  then show ?thesis using department_Delete_grants assms(2) by blast
next
  case (MenuAdd inp)
  then obtain r where r: "menu_Add env inp s = (Inr r, s')" using assms(1) by auto
  show ?thesis using menu_Add_appends [OF r] new_menus_authority [OF assms(2)] menu_Add_ok [OF r assms(2)] by blast
next
  case (MenuUpdate inp)
  then show ?thesis using menu_Update_grants assms by (metis base_call.simps(14))
next
  case (MenuDelete ids)
  then show ?thesis using menu_Delete_grants assms by (metis base_call.simps(15))
next
  case (MenuImport ts)
  then have "importTree env ts None s = (Inr x, s')" using assms(1) by (simp add: menu_Import_def)
  from importTree_effect [OF this assms(2)] new_menus_authority [OF assms(2)] show ?thesis by blast
qed

text \<open>C9: A session never keeps rights that its user has lost. When an operation on users, roles,
  departments or menus ends, well or not, every user's right to sign in, roles, administrator
  status and permissions are what they were before, or no session of that user is left; an
  operation that fails leaves them as they were.\<close>

theorem grants_change_revokes:
  assumes "base_ok s" "base_step env c s = (r, s')" "u \<in> user_ids s" "authority s' u \<noteq> authority s u"
  shows "(\<exists>x. r = Inr x) \<and> set (bs_sessions s') \<subseteq> set (bs_sessions s) \<and>
    (\<forall>(sid, v) \<in> set (bs_sessions s'). \<not> (ts_Subject v = AdminKind \<and> ts_UserID v = u))"
  using assms(2)
proof (cases rule: base_step_cases)
  case (commit x)
  have "grants_kept s s'" by (rule base_call_grants [OF commit(1) assms(1)])
  with commit(2) assms(3,4) show ?thesis unfolding grants_kept_def signed_out_def by blast
next
  case (rollback e s'')
  have t: "tables s' = tables s" by (rule rollback(3))
  have "bs_users s' = bs_users s" "bs_roles s' = bs_roles s" "bs_menus s' = bs_menus s" "bs_userRoles s' = bs_userRoles s"
    "bs_roleMenus s' = bs_roleMenus s"
    using arg_cong [OF t, of bs_users] arg_cong [OF t, of bs_roles] arg_cong [OF t, of bs_menus] arg_cong [OF t, of bs_userRoles]
      arg_cong [OF t, of bs_roleMenus] by (simp_all add: tables_def)
  then have "authority s' u = authority s u" by (intro same_authority) simp_all
  with assms(4) show ?thesis by simp
qed

definition granted_base :: base_state where
  "granted_base = empty_base\<lparr>bs_users := [new_user 1], bs_roles := [new_role 3], bs_userRoles := [(1, 3)],
     bs_sessions := [(''sid'', \<lparr>ts_SessionID = ''sid'', ts_Subject = AdminKind, ts_UserID = 1, ts_Username = ''u'', ts_RoleIDs = Some [3],
       ts_PasswordV = 1, sn_AccessJTI = ''a'', sn_RefreshJTI = ''r'', sn_ExpiresAt = 100\<rparr>)]\<rparr>"

lemma granted_base_step:
  "bs_userRoles (snd (base_step plain_env (RoleDelete [3]) granted_base)) = []"
  by code_simp

theorem grants_change_revokes_witness:
  "\<exists>s'. base_step plain_env (RoleDelete [3]) granted_base = (Inr (), s') \<and> bs_sessions granted_base \<noteq> [] \<and>
     list_all (\<lambda>(sid, v). \<not> (ts_Subject v = AdminKind \<and> ts_UserID v = 1)) (bs_sessions s')"
proof -
  have ok: "base_ok granted_base"
    by (simp add: granted_base_def empty_base_def base_ok_def keys_ok_def relations_ok_def forest_ok_def menu_parents_def up_def
      parent_edges_def acyclic_def new_user_def new_role_def)
  obtain r s' where step: "base_step plain_env (RoleDelete [3]) granted_base = (r, s')" by fastforce
  have "roles_of s' 1 = {}" using granted_base_step by (simp add: step roles_of_def)
  moreover have "roles_of granted_base 1 = {3}" by (simp add: granted_base_def roles_of_def)
  ultimately have "authority s' 1 \<noteq> authority granted_base 1" by (auto simp: authority_def Let_def)
  from grants_change_revokes [OF ok step _ this]
  have "(\<exists>x. r = Inr x) \<and> (\<forall>(sid, v) \<in> set (bs_sessions s'). \<not> (ts_Subject v = AdminKind \<and> ts_UserID v = 1))"
    by (simp add: granted_base_def new_user_def)
  then show ?thesis using step by (auto simp: list_all_iff granted_base_def)
qed

section \<open>Deciding a request\<close>

lemma list_ex_admin: "list_ex (\<lambda>r. ro_id r \<in> R \<and> is_admin_role r) (bs_roles s) \<longleftrightarrow> R \<inter> admin_roles s \<noteq> {}"
  by (auto simp: list_ex_iff admin_roles_def)

lemma loadPerm_exact:
  assumes "be_fail env = (\<lambda>_. None)"
  shows "loadPerm env ids s = (Inr \<lparr>pc_IsAdmin = (set ids \<inter> admin_roles s \<noteq> {}),
    pc_Perms = (if set ids \<inter> admin_roles s \<noteq> {} then {} else perms_of s (set ids))\<rparr>, s)"
proof (cases "ids = []")
  case True
  then show ?thesis by (simp add: loadPerm_def bindA_def perm_IsAdmin_def perm_permissions_def returnA_def perms_of_def)
next
  case False
  then have adm: "perm_IsAdmin env ids s = (Inr (set ids \<inter> admin_roles s \<noteq> {}), s)"
    using assms by (simp add: perm_IsAdmin_def readA_def list_ex_admin)
  let ?menus = "map snd (filter (\<lambda>(i, m). i \<in> set ids) (bs_roleMenus s))"
  have "perm_permissions env ids False s = (Inr (perms_of s (set ids)), s)"
  proof (cases "?menus = []")
    case True
    then have "perms_of s (set ids) = {}" by (auto simp: perms_of_def filter_empty_conv)
    then show ?thesis using False True assms by (simp add: perm_permissions_def bindA_def readA_def returnA_def)
  next
    case menus: False
    have "set (concat (map menu_permissions (filter (\<lambda>m. mn_id m \<in> set ?menus) (bs_menus s)))) = perms_of s (set ids)"
      by (force simp: perms_of_def menu_perms_def)
    then show ?thesis using False menus assms by (simp add: perm_permissions_def bindA_def readA_def)
  qed
  then show ?thesis using adm by (simp add: loadPerm_def bindA_def returnA_def)
qed


definition sample_session :: "auth_context option" where
  "sample_session = Some \<lparr>cx_identity = Some \<lparr>vi_subject = AdminKind, vi_admin = newAdminIdentity 1 ''u'' 1 (Some [3]), vi_app = 0\<rparr>,
     cx_session = Some \<lparr>ss_ID = ''sid'', ss_Subject = AdminKind, ss_AccessJTI = ''a'', ss_ExpiresAt = 100\<rparr>\<rparr>"

definition menu_base :: base_state where
  "menu_base = empty_base\<lparr>bs_users := [new_user 1], bs_roles := [new_role 3], bs_userRoles := [(1, 3)], bs_roleMenus := [(3, 7)],
     bs_menus := [(new_menu 7)\<lparr>mn_perms := Some ''a:b,c:d''\<rparr>]\<rparr>"


end
