(* ===== verification/Base_Login.thy ===== *)
theory Base_Login
  imports Base_Menu Risk_Service
begin

text \<open>
  Signing in to the administration (\<open>modules/base/service/login.go\<close>, \<open>captcha.go\<close>): risk control,
  captcha and password before a transaction creates the session; refreshing and signing out.

  The password library, the token codec and what other requests do to the tables between the
  reading of the candidate and the lock of its row are in the environment, and so are the clocks of
  the calls of risk control, counted from 0: whether to allow the login, the captcha, and the
  recorded or cleared failure.
\<close>

section \<open>Environment and state\<close>

record ('r, 'p) login_env =
  le_base :: base_env
  le_auth :: auth_env
  le_digest :: "string \<Rightarrow> string"
  le_table :: "nat \<Rightarrow> nat"
  le_exec :: "nat \<Rightarrow> 'r execution"
  le_Verify :: "string \<Rightarrow> string \<Rightarrow> (go_error, bool \<times> bool) result"
  le_between :: "base_state \<Rightarrow> base_state"

record ('r, 'p) login_state =
  ls_base :: base_state
  ls_risk :: "('r, 'p) risk_service option"

datatype login_error = RiskFault risk_error | Fault go_error

record login_request =
  lq_Username :: string
  lq_Password :: string
  lq_CaptchaID :: string
  lq_VerifyCode :: string

record token_result =
  tr_Token :: string
  tr_Expire :: int
  tr_RefreshToken :: string
  tr_RefreshExpire :: int

definition login_credentialErr :: go_error where
  "login_credentialErr = comm ''account or password wrong''"

definition loginExpiredError :: go_error where
  "loginExpiredError = exc_Comm ''login expired'' (Some 401)"

definition errRolesMissing :: go_error where
  "errRolesMissing = PlainError ''user without roles''"

section \<open>Results\<close>

definition tokenTTL :: "gotime \<Rightarrow> gotime \<Rightarrow> int" where
  "tokenTTL now expiresAt =
    (if expiresAt - now \<le> 0 then 0 else go_div (expiresAt - now + secs 1 - 1) (secs 1))"

definition tokenResult :: "gotime \<Rightarrow> token_pair \<Rightarrow> token_result" where
  "tokenResult now pair = \<lparr>tr_Token = tp_AccessToken pair, tr_Expire = tokenTTL now (tp_AccessExpiresAt pair),
     tr_RefreshToken = tp_RefreshToken pair, tr_RefreshExpire = tokenTTL now (tp_ExpiresAt pair)\<rparr>"

section \<open>Rows and principals\<close>

definition userByUsername :: "base_env \<Rightarrow> string \<Rightarrow> user option act" where
  "userByUsername env name = readA env ''query login user'' (\<lambda>s. find (\<lambda>u. us_username u = name) (bs_users s))"

text \<open>On SQLite the row is first written unchanged, elsewhere the query locks it.\<close>

definition lockedUser :: "base_env \<Rightarrow> u64 \<Rightarrow> user option act" where
  "lockedUser env i = readA env ''read login user'' (\<lambda>s. find (\<lambda>u. us_id u = i) (bs_users s))"

definition adminPrincipal :: "base_env \<Rightarrow> user \<Rightarrow> principal act" where
  "adminPrincipal env u =
    bindA (RoleIDs env (us_id u)) (\<lambda>ids.
      if ids = [] then failA errRolesMissing
      else returnA \<lparr>pr_Subject = AdminKind, pr_UserID = us_id u, pr_Username = us_username u,
        pr_RoleIDs = Some ids, pr_PasswordV = us_passwordV u\<rparr>)"

text \<open>An error that means that the user has no roles is replaced.\<close>

definition rolesA :: "go_error \<Rightarrow> 'a act \<Rightarrow> 'a act" where
  "rolesA e m s = (case m s of (Inl e', s') \<Rightarrow> (Inl (if error_is errRolesMissing e' then e else e'), s') | (Inr x, s') \<Rightarrow> (Inr x, s'))"

lemma rolesA_Inr_iff [simp]: "rolesA e m s = (Inr x, s') \<longleftrightarrow> m s = (Inr x, s')"
  by (auto simp: rolesA_def split: prod.splits sum.splits)

definition updatePasswordHash :: "base_env \<Rightarrow> u64 \<Rightarrow> string \<Rightarrow> unit act" where
  "updatePasswordHash env i hash = writeA env ''update password hash''
    (\<lambda>s. s\<lparr>bs_users := map (\<lambda>u. if us_id u = i then u\<lparr>us_password := hash\<rparr> else u) (bs_users s)\<rparr>)"

definition createA :: "base_env \<Rightarrow> auth_env \<Rightarrow> principal \<Rightarrow> token_pair act" where
  "createA env aenv p s =
    (case auth_Create aenv (memory_store (be_ctx env)) p (bs_sessions s) of (r, st) \<Rightarrow> (r, s\<lparr>bs_sessions := st\<rparr>))"

section \<open>Signing in\<close>

text \<open>The transaction: the row must still be what the password was checked against.\<close>

definition login_tx :: "base_env \<Rightarrow> auth_env \<Rightarrow> user \<Rightarrow> string option \<Rightarrow> token_pair act" where
  "login_tx env aenv candidate rehashed = withinTx (
    bindA (lockedUser env (us_id candidate)) (\<lambda>found.
    (case found of
       None \<Rightarrow> failA login_credentialErr
     | Some current \<Rightarrow>
         if us_username current \<noteq> us_username candidate \<or> us_status current \<noteq> 1 \<or>
            us_password current \<noteq> us_password candidate \<or> us_passwordV current \<noteq> us_passwordV candidate
         then failA login_credentialErr
         else
           bindA (rolesA (comm ''user without roles'') (adminPrincipal env current)) (\<lambda>p.
           bindA (case rehashed of None \<Rightarrow> returnA ()
             | Some hash \<Rightarrow> if hash = [] then returnA () else updatePasswordHash env (us_id current) hash) (\<lambda>_.
           createA env aenv p)))))"

text \<open>\<open>CaptchaService.Verify\<close>\<close>

definition captcha_Verify ::
  "('r, 'p) login_env \<Rightarrow> string \<Rightarrow> string \<Rightarrow> ('r, 'p) risk_service option \<Rightarrow>
   (risk_error, bool) result \<times> ('r, 'p) risk_service option" where
  "captcha_Verify env captchaID verifyCode sv =
    (if captchaID = [] \<or> verifyCode = [] then (Inr False, sv)
     else service_ConsumeCaptcha (le_table env) (le_exec env 1) captchaID verifyCode sv)"

definition riskE :: "(risk_error, 'a) result \<Rightarrow> (login_error, 'a) result" where
  "riskE r = (case r of Inl e \<Rightarrow> Inl (RiskFault e) | Inr x \<Rightarrow> Inr x)"

definition faultE :: "(go_error, 'a) result \<Rightarrow> (login_error, 'a) result" where
  "faultE r = (case r of Inl e \<Rightarrow> Inl (Fault e) | Inr x \<Rightarrow> Inr x)"

text \<open>A wrong account or password is recorded; if that is refused, its error is the answer.\<close>

definition refuse_login ::
  "('r, 'p) login_env \<Rightarrow> login_request \<Rightarrow> ('r, 'p) login_state \<Rightarrow> (login_error, 'a) result \<times> ('r, 'p) login_state" where
  "refuse_login env req st =
    (case service_RecordLoginFailure (le_digest env) (le_table env) (le_exec env 2) (lq_Username req) (ls_risk st) of
       (Inl e, sv) \<Rightarrow> (Inl (RiskFault e), st\<lparr>ls_risk := sv\<rparr>)
     | (Inr _, sv) \<Rightarrow> (Inl (Fault login_credentialErr), st\<lparr>ls_risk := sv\<rparr>))"

text \<open>Once the password is right.\<close>

definition finish_login ::
  "('r, 'p) login_env \<Rightarrow> login_request \<Rightarrow> user \<Rightarrow> bool \<Rightarrow> ('r, 'p) login_state \<Rightarrow>
   (login_error, token_result) result \<times> ('r, 'p) login_state" where
  "finish_login env req candidate needsRehash st =
    (case service_ClearLoginFailure (le_digest env) (le_table env) (le_exec env 2) (lq_Username req) (ls_risk st) of
       (Inl e, sv) \<Rightarrow> (Inl (RiskFault e), st\<lparr>ls_risk := sv\<rparr>)
     | (Inr _, sv) \<Rightarrow>
         (case (if needsRehash then bindE (be_Hash (le_base env) (lq_Password req)) (\<lambda>h. Inr (Some h)) else Inr None) of
            Inl e \<Rightarrow> (Inl (Fault e), st\<lparr>ls_risk := sv\<rparr>)
          | Inr rehashed \<Rightarrow>
              (case login_tx (le_base env) (le_auth env) candidate rehashed (le_between env (ls_base st)) of
                 (r, b) \<Rightarrow> (bindE (faultE r) (\<lambda>pair. Inr (tokenResult (be_now (le_base env)) pair)),
                   st\<lparr>ls_base := b, ls_risk := sv\<rparr>))))"

text \<open>The account and its password.\<close>

definition check_account ::
  "('r, 'p) login_env \<Rightarrow> login_request \<Rightarrow> ('r, 'p) login_state \<Rightarrow> (login_error, token_result) result \<times> ('r, 'p) login_state" where
  "check_account env req st =
    (case fst (userByUsername (le_base env) (lq_Username req) (ls_base st)) of
       Inl e \<Rightarrow> (Inl (Fault e), st)
     | Inr None \<Rightarrow> refuse_login env req st
     | Inr (Some candidate) \<Rightarrow>
         if us_status candidate \<noteq> 1 then refuse_login env req st
         else (case le_Verify env (lq_Password req) (us_password candidate) of
             Inl e \<Rightarrow> (Inl (Fault e), st)
           | Inr (valid, needsRehash) \<Rightarrow>
               if \<not> valid then refuse_login env req st else finish_login env req candidate needsRehash st))"

definition Login ::
  "('r, 'p) login_env \<Rightarrow> string \<Rightarrow> login_request \<Rightarrow> ('r, 'p) login_state \<Rightarrow>
   (login_error, token_result) result \<times> ('r, 'p) login_state" where
  "Login env clientIP req st =
    (case service_AllowLogin (le_digest env) (le_table env) (le_exec env 0) clientIP (lq_Username req) (ls_risk st) of
       (Inl e, sv) \<Rightarrow> (Inl (RiskFault e), st\<lparr>ls_risk := sv\<rparr>)
     | (Inr _, sv) \<Rightarrow>
         (case captcha_Verify env (lq_CaptchaID req) (lq_VerifyCode req) sv of
            (Inl e, sv') \<Rightarrow> (Inl (RiskFault e), st\<lparr>ls_risk := sv'\<rparr>)
          | (Inr verified, sv') \<Rightarrow>
              if \<not> verified then (Inl (Fault (comm ''captcha wrong'')), st\<lparr>ls_risk := sv'\<rparr>)
              else check_account env req (st\<lparr>ls_risk := sv'\<rparr>)))"

section \<open>Refreshing and signing out\<close>

text \<open>The resolver of a refresh: the identity is built again from the tables.\<close>

definition refresh_resolve :: "base_env \<Rightarrow> base_state \<Rightarrow> principal \<Rightarrow> (go_error, principal) result" where
  "refresh_resolve env s current =
    (if pr_Subject current \<noteq> AdminKind \<or> pr_UserID current = 0 then Inl loginExpiredError
     else fst (bindA (lockedUser env (pr_UserID current)) (\<lambda>found.
       (case found of
          None \<Rightarrow> failA loginExpiredError
        | Some u \<Rightarrow>
            if us_status u \<noteq> 1 then failA loginExpiredError
            else rolesA loginExpiredError (adminPrincipal env u))) s))"

definition Refresh :: "base_env \<Rightarrow> auth_env \<Rightarrow> string \<Rightarrow> token_result act" where
  "Refresh env aenv token = withinTx (\<lambda>s.
    (case auth_RefreshWith aenv (memory_store (be_ctx env)) (Some (refresh_resolve env s)) token (bs_sessions s) of
       (r, st) \<Rightarrow> (bindE r (\<lambda>pair. Inr (tokenResult (be_now env) pair)), s\<lparr>bs_sessions := st\<rparr>)))"

definition Logout :: "base_env \<Rightarrow> auth_context option \<Rightarrow> unit act" where
  "Logout env ctx =
    bindA (checkA (auth_Admin ctx)) (\<lambda>_.
    (case auth_Session ctx of
       None \<Rightarrow> failA loginExpiredError
     | Some session \<Rightarrow>
         if ss_Subject session \<noteq> AdminKind \<or> ss_ID session = [] then failA loginExpiredError
         else (\<lambda>s. case store_Revoke (be_ctx env) (ss_ID session) (bs_sessions s) of
             (Inl e, st) \<Rightarrow> (Inl (wrap_core ''revoke session failed'' e), s\<lparr>bs_sessions := st\<rparr>)
           | (Inr _, st) \<Rightarrow> (Inr (), s\<lparr>bs_sessions := st\<rparr>))))"

section \<open>Captchas\<close>

definition isCaptchaColor :: "string \<Rightarrow> bool" where
  "isCaptchaColor color \<longleftrightarrow> (length color = 4 \<or> length color = 7) \<and> hd color = CHR ''#'' \<and>
     list_all (\<lambda>c. let k = (of_char c :: nat) in 48 \<le> k \<and> k \<le> 57 \<or> 97 \<le> k \<and> k \<le> 102 \<or> 65 \<le> k \<and> k \<le> 70) (tl color)"

definition normalizeOptions :: "int \<Rightarrow> int \<Rightarrow> string \<Rightarrow> int \<times> int \<times> string" where
  "normalizeOptions width height color =
    (if width < 30 \<or> 1000 < width then 150 else width,
     if height < 20 \<or> 500 < height then 50 else height,
     if isCaptchaColor color then color else ''#fff'')"

end
