(* ===== verification/Base_Signin.thy ===== *)
theory Base_Signin
  imports Base_Grants Base_Login Risk_Properties
begin

text \<open>
  What signing in and refreshing guarantee: a session comes into being only past risk control,
  captcha and password, for the row as it is when it is locked and with the roles of the tables;
  a refused login leaves no trace in the tables.
\<close>

section \<open>Creating a session\<close>

lemma auth_Create_Inr:
  assumes "auth_Create aenv (memory_store ctx) p st = (Inr pair, st')"
  shows "\<exists>sid v. st' = mput sid v (cleanupExpired (ae_write aenv) st) \<and> ts_SessionID v = sid \<and> ts_Subject v = pr_Subject p \<and>
    ts_UserID v = pr_UserID p \<and> ts_RoleIDs v = copy_ids (copy_ids (pr_RoleIDs p)) \<and> ts_PasswordV v = pr_PasswordV p"
proof -
  obtain sid where sid: "ae_newID aenv = Inr sid" and save: "op_Save (memory_store ctx) (ae_check aenv) (ae_write aenv)
      (snapshotFromPair (tokenSubject sid p) pair) st = (Inr (), st')"
    using assms by (auto simp: auth_Create_def split: sum.splits prod.splits)
  let ?v = "snapshotFromPair (tokenSubject sid p) pair"
  have "st' = mput (ts_SessionID ?v) (cloneSnapshot ?v) (cleanupExpired (ae_write aenv) st)"
    using save by (auto simp: memory_store_def store_Save_def split: sum.splits)
  moreover have "ts_SessionID ?v = sid" by (simp add: snapshotFromPair_def tokenSubject_def token_subject.defs)
  ultimately show ?thesis
    by (intro exI [of _ sid] exI [of _ "cloneSnapshot ?v"])
      (simp add: snapshotFromPair_def tokenSubject_def cloneSnapshot_def token_subject.defs)
qed

lemma auth_Create_Inl: "auth_Create aenv (memory_store ctx) p st = (Inl e, st') \<Longrightarrow> st' = st"
  by (auto simp: auth_Create_def memory_store_def store_Save_def split: sum.splits prod.splits)

lemma lockedUser_Inr: "lockedUser env i s = (Inr r, s') \<Longrightarrow> r = find (\<lambda>u. us_id u = i) (bs_users s) \<and> s' = s"
  by (simp add: lockedUser_def)

lemma adminPrincipal_Inr:
  assumes "adminPrincipal env u s = (Inr p, s')"
  shows "s' = s \<and> pr_Subject p = AdminKind \<and> pr_UserID p = us_id u \<and> pr_Username p = us_username u \<and> pr_PasswordV p = us_passwordV u \<and>
    pr_RoleIDs p = Some (map fst (joined_roles s (us_id u))) \<and> joined_roles s (us_id u) \<noteq> []"
proof -
  obtain ids where ids: "RoleIDs env (us_id u) s = (Inr ids, s)" and p: "ids \<noteq> []" "s' = s"
    "p = \<lparr>pr_Subject = AdminKind, pr_UserID = us_id u, pr_Username = us_username u, pr_RoleIDs = Some ids, pr_PasswordV = us_passwordV u\<rparr>"
    using assms unfolding adminPrincipal_def bindA_keeps [OF keeps_perm(2)] by (auto split: if_splits)
  have "ids = map fst (joined_roles s (us_id u))"
    using ids by (auto simp: RoleIDs_def perm_roles_def bindA_Inr_iff Let_def split: if_splits)
  with p show ?thesis by auto
qed

section \<open>The transaction of a login\<close>

text \<open>The session \<open>v\<close> is that of an enabled user, with the roles of the tables.\<close>

definition session_of :: "base_state \<Rightarrow> user \<Rightarrow> snapshot \<Rightarrow> bool" where
  "session_of s u v \<longleftrightarrow> ts_Subject v = AdminKind \<and> ts_UserID v = us_id u \<and> ts_PasswordV v = us_passwordV u \<and>
     ts_RoleIDs v = copy_ids (Some (map fst (joined_roles s (us_id u)))) \<and> joined_roles s (us_id u) \<noteq> []"

lemma login_tx_Inr:
  assumes "login_tx env aenv candidate rehashed s = (Inr pair, s')"
  shows "\<exists>u \<in> set (bs_users s). us_id u = us_id candidate \<and> us_username u = us_username candidate \<and> us_status u = 1 \<and>
    us_password u = us_password candidate \<and> us_passwordV u = us_passwordV candidate \<and>
    (\<exists>sid v. bs_sessions s' = mput sid v (cleanupExpired (ae_write aenv) (bs_sessions s)) \<and> session_of s u v)"
proof -
  have kl: "keeps (lockedUser env i)" for i by (simp add: lockedUser_def)
  obtain found where found: "lockedUser env (us_id candidate) s = (Inr found, s)"
    and rest: "(case found of
       None \<Rightarrow> failA login_credentialErr
     | Some current \<Rightarrow>
         if us_username current \<noteq> us_username candidate \<or> us_status current \<noteq> 1 \<or>
            us_password current \<noteq> us_password candidate \<or> us_passwordV current \<noteq> us_passwordV candidate
         then failA login_credentialErr
         else
           bindA (rolesA (comm ''user without roles'') (adminPrincipal env current)) (\<lambda>p.
           bindA (case rehashed of None \<Rightarrow> returnA ()
             | Some hash \<Rightarrow> if hash = [] then returnA () else updatePasswordHash env (us_id current) hash) (\<lambda>_.
           createA env aenv p))) s = (Inr pair, s')"
    using assms unfolding login_tx_def withinTx_Inr_iff bindA_keeps [OF kl] by blast
  obtain u where u: "found = Some u" using rest by (cases found) auto
  have same: "us_username u = us_username candidate" "us_status u = 1" "us_password u = us_password candidate"
    "us_passwordV u = us_passwordV candidate"
    using rest by (auto simp: u split: if_splits)
  have "bindA (rolesA (comm ''user without roles'') (adminPrincipal env u)) (\<lambda>p.
           bindA (case rehashed of None \<Rightarrow> returnA ()
             | Some hash \<Rightarrow> if hash = [] then returnA () else updatePasswordHash env (us_id u) hash) (\<lambda>_.
           createA env aenv p)) s = (Inr pair, s')"
    using rest same by (simp add: u)
  then obtain p s1 x s2 where p: "adminPrincipal env u s = (Inr p, s1)"
    and x: "(case rehashed of None \<Rightarrow> returnA ()
             | Some hash \<Rightarrow> if hash = [] then returnA () else updatePasswordHash env (us_id u) hash) s1 = (Inr x, s2)"
    and c: "createA env aenv p s2 = (Inr pair, s')"
    by (auto simp: bindA_Inr_iff)
  note P = adminPrincipal_Inr [OF p]
  have s2: "bs_sessions s2 = bs_sessions s"
    using x P by (auto simp: updatePasswordHash_def split: option.splits if_splits)
  obtain st where st: "auth_Create aenv (memory_store (be_ctx env)) p (bs_sessions s2) = (Inr pair, st)" "s' = s2\<lparr>bs_sessions := st\<rparr>"
    using c by (auto simp: createA_def split: prod.splits)
  obtain sid v where v: "st = mput sid v (cleanupExpired (ae_write aenv) (bs_sessions s))" "ts_Subject v = pr_Subject p" "ts_UserID v = pr_UserID p"
    "ts_RoleIDs v = copy_ids (copy_ids (pr_RoleIDs p))" "ts_PasswordV v = pr_PasswordV p"
    using auth_Create_Inr [OF st(1)] s2 by auto
  have "copy_ids (copy_ids x) = copy_ids x" for x by (simp add: copy_ids_def split: option.split list.split)
  then have "session_of s u v" using v P by (simp add: session_of_def)
  moreover have "u \<in> set (bs_users s)" "us_id u = us_id candidate"
    using lockedUser_Inr [OF found] u find_id [of us_id "us_id candidate" "bs_users s" u] by auto
  moreover have "bs_sessions s' = mput sid v (cleanupExpired (ae_write aenv) (bs_sessions s))" using st(2) v(1) by simp
  ultimately show ?thesis using same by blast
qed

text \<open>Actions that leave the sessions alone, and actions that do so when they fail.\<close>

definition sessionless :: "'a act \<Rightarrow> bool" where
  "sessionless m \<longleftrightarrow> (\<forall>s r s'. m s = (r, s') \<longrightarrow> bs_sessions s' = bs_sessions s)"

definition silent :: "'a act \<Rightarrow> bool" where
  "silent m \<longleftrightarrow> (\<forall>s e s'. m s = (Inl e, s') \<longrightarrow> bs_sessions s' = bs_sessions s)"

lemma sessionless_simple [simp]: "sessionless (returnA x)" "sessionless (failA e)" "sessionless (readA env label f)"
  by (auto simp: sessionless_def readA_def split: option.splits)

lemma sessionless_bindA: "sessionless m \<Longrightarrow> (\<And>x. sessionless (k x)) \<Longrightarrow> sessionless (bindA m k)"
  unfolding sessionless_def bindA_def by (auto split: prod.splits sum.splits)

lemma silent_sessionless: "sessionless m \<Longrightarrow> silent m"
  by (auto simp: sessionless_def silent_def)

lemma silent_bindA: "sessionless m \<Longrightarrow> (\<And>x. silent (k x)) \<Longrightarrow> silent (bindA m k)"
  unfolding sessionless_def silent_def bindA_def by (auto split: prod.splits sum.splits)

lemma withinTx_silent:
  assumes "silent m" and "withinTx m s = (Inl e, s')"
  shows "tables s' = tables s \<and> bs_sessions s' = bs_sessions s"
  using assms(1) withinTx_Inl [OF assms(2)] unfolding silent_def by metis

lemma sessionless_RoleIDs: "sessionless (RoleIDs env u)"
  unfolding RoleIDs_def perm_roles_def by (auto simp: Let_def intro!: sessionless_bindA)

lemma sessionless_rolesA: "sessionless m \<Longrightarrow> sessionless (rolesA e m)"
  unfolding sessionless_def rolesA_def by (auto split: prod.splits sum.splits)

lemma login_tx_Inl:
  assumes "login_tx env aenv candidate rehashed s = (Inl e, s')"
  shows "tables s' = tables s \<and> bs_sessions s' = bs_sessions s"
proof -
  have principal: "sessionless (adminPrincipal env u)" for u
    unfolding adminPrincipal_def by (intro sessionless_bindA sessionless_RoleIDs) simp
  have hash: "sessionless (case rehashed of None \<Rightarrow> returnA () | Some h \<Rightarrow> if h = [] then returnA () else updatePasswordHash env i h)" for i
    by (auto simp: updatePasswordHash_def sessionless_def writeA_def split: option.splits)
  have create: "silent (createA env aenv p)" for p
    by (auto simp: silent_def createA_def dest: auth_Create_Inl split: prod.splits)
  have refused: "silent (failA login_credentialErr :: token_pair act)" by (rule silent_sessionless) simp
  let ?tx = "bindA (lockedUser env (us_id candidate)) (\<lambda>found.
    (case found of
       None \<Rightarrow> failA login_credentialErr
     | Some current \<Rightarrow>
         if us_username current \<noteq> us_username candidate \<or> us_status current \<noteq> 1 \<or>
            us_password current \<noteq> us_password candidate \<or> us_passwordV current \<noteq> us_passwordV candidate
         then failA login_credentialErr
         else
           bindA (rolesA (comm ''user without roles'') (adminPrincipal env current)) (\<lambda>p.
           bindA (case rehashed of None \<Rightarrow> returnA ()
             | Some hash \<Rightarrow> if hash = [] then returnA () else updatePasswordHash env (us_id current) hash) (\<lambda>_.
           createA env aenv p))))"
  have "silent ?tx"
  proof (rule silent_bindA)
    show "sessionless (lockedUser env (us_id candidate))" by (simp add: lockedUser_def)
    fix found
    show "silent (case found of
       None \<Rightarrow> failA login_credentialErr
     | Some current \<Rightarrow>
         if us_username current \<noteq> us_username candidate \<or> us_status current \<noteq> 1 \<or>
            us_password current \<noteq> us_password candidate \<or> us_passwordV current \<noteq> us_passwordV candidate
         then failA login_credentialErr
         else
           bindA (rolesA (comm ''user without roles'') (adminPrincipal env current)) (\<lambda>p.
           bindA (case rehashed of None \<Rightarrow> returnA ()
             | Some hash \<Rightarrow> if hash = [] then returnA () else updatePasswordHash env (us_id current) hash) (\<lambda>_.
           createA env aenv p)))"
    proof (cases found)
      case (Some u)
      have "silent (bindA (rolesA (comm ''user without roles'') (adminPrincipal env u)) (\<lambda>p.
           bindA (case rehashed of None \<Rightarrow> returnA ()
             | Some hash \<Rightarrow> if hash = [] then returnA () else updatePasswordHash env (us_id u) hash) (\<lambda>_.
           createA env aenv p)))"
        by (intro silent_bindA sessionless_rolesA principal hash create)
      then show ?thesis using refused by (simp add: Some)
    qed (simp add: refused)
  qed
  then show ?thesis
    by (rule withinTx_silent) (use assms login_tx_def in simp)
qed

section \<open>Logins\<close>

lemma refuse_login_cases: "refuse_login env req st = (res, st') \<Longrightarrow> ls_base st' = ls_base st \<and> (\<exists>e. res = Inl e)"
  by (auto simp: refuse_login_def split: prod.splits sum.splits)

text \<open>The check of an account refuses, or finishes for an enabled user whose password was verified.\<close>

lemma check_account_cases:
  assumes "check_account env req st = (res, st')"
  obtains e where "res = Inl e" "ls_base st' = ls_base st"
    | cand n where "cand \<in> set (bs_users (ls_base st))" "us_username cand = lq_Username req" "us_status cand = 1"
        "le_Verify env (lq_Password req) (us_password cand) = Inr (True, n)" "finish_login env req cand n st = (res, st')"
proof (cases "be_fail (le_base env) ''query login user''")
  case (Some e)
  then show ?thesis using assms that(1) by (auto simp: check_account_def userByUsername_def readA_def)
next
  case None
  then have look: "fst (userByUsername (le_base env) (lq_Username req) (ls_base st)) =
      Inr (find (\<lambda>u. us_username u = lq_Username req) (bs_users (ls_base st)))"
    by (simp add: userByUsername_def readA_def)
  show ?thesis
  proof (cases "find (\<lambda>u. us_username u = lq_Username req) (bs_users (ls_base st))")
    case None
    then have "refuse_login env req st = (res, st')" using assms look by (simp add: check_account_def)
    then show ?thesis using refuse_login_cases that(1) by blast
  next
    case (Some cand)
    have cand: "cand \<in> set (bs_users (ls_base st))" "us_username cand = lq_Username req"
      using find_id [of us_username] Some by fastforce+
    show ?thesis
    proof (cases "us_status cand = 1 \<and> (\<exists>n. le_Verify env (lq_Password req) (us_password cand) = Inr (True, n))")
      case False
      then have "ls_base st' = ls_base st \<and> (\<exists>e. res = Inl e)"
        using assms look Some refuse_login_cases [of env req st res st'] by (auto simp: check_account_def split: if_splits sum.splits prod.splits)
      then show ?thesis using that(1) by blast
    next
      case True
      then obtain n where n: "us_status cand = 1" "le_Verify env (lq_Password req) (us_password cand) = Inr (True, n)" by blast
      then have "finish_login env req cand n st = (res, st')" using assms look Some by (simp add: check_account_def)
      then show ?thesis using that(2) cand n by blast
    qed
  qed
qed

lemma finish_login_Inl:
  assumes "finish_login env req cand n st = (Inl e, st')"
  shows "ls_base st' = ls_base st \<or>
    tables (ls_base st') = tables (le_between env (ls_base st)) \<and> bs_sessions (ls_base st') = bs_sessions (le_between env (ls_base st))"
  using assms by (auto simp: finish_login_def faultE_def dest: login_tx_Inl split: prod.splits sum.splits if_splits)

lemma finish_login_Inr:
  assumes "finish_login env req cand n st = (Inr tok, st')"
  shows "\<exists>u sid v. u \<in> set (bs_users (le_between env (ls_base st))) \<and> us_id u = us_id cand \<and> us_username u = us_username cand \<and>
    us_status u = 1 \<and> us_password u = us_password cand \<and> us_passwordV u = us_passwordV cand \<and>
    bs_sessions (ls_base st') = mput sid v (cleanupExpired (ae_write (le_auth env)) (bs_sessions (le_between env (ls_base st)))) \<and>
    session_of (le_between env (ls_base st)) u v"
proof -
  obtain rehashed pair b where tx: "login_tx (le_base env) (le_auth env) cand rehashed (le_between env (ls_base st)) = (Inr pair, b)"
      and b: "ls_base st' = b"
    using assms by (auto simp: finish_login_def faultE_def split: prod.splits sum.splits if_splits)
  show ?thesis using login_tx_Inr [OF tx] unfolding b by blast
qed


text \<open>A signing-in that goes through: user 1 of a base with one role, with memory risk control.\<close>

definition signin_base :: base_state where
  "signin_base = admin_base\<lparr>bs_users := [(new_user 1)\<lparr>us_username := ''root'', us_password := ''#pw'', us_status := 1, us_passwordV := 1\<rparr>]\<rparr>"

definition signin_auth :: auth_env where
  "signin_auth = \<lparr>ae_Parse = (\<lambda>token refresh. Inl unauthErr),
     ae_IssuePair = (\<lambda>s. Inr \<lparr>tp_AccessToken = ''A'', tp_RefreshToken = ''R'', tp_AccessJTI = ''a'',
       tp_RefreshJTI = ''r'', tp_AccessExpiresAt = 50, tp_ExpiresAt = 120\<rparr>), ae_newID = Inr ''s'',
     ae_get = 10, ae_now = 10, ae_check = 10, ae_write = 10\<rparr>"

definition signin_env :: "(unit, unit) login_env" where
  "signin_env = \<lparr>le_base = plain_env, le_auth = signin_auth, le_digest = (\<lambda>x. x), le_table = (\<lambda>x. x),
     le_exec = (\<lambda>i. \<lparr>ex_begin = 20, ex_failed = 20, ex_memory = 20 + int i, ex_redis = (\<lambda>c r. (Inl RiskTransport, r)), ex_done = False\<rparr>),
     le_Verify = (\<lambda>p h. Inr (h = ''#'' @ p, False)), le_between = (\<lambda>s. s)\<rparr>"

definition signin_state :: "(unit, unit) login_state" where
  "signin_state = \<lparr>ls_base = signin_base,
     ls_risk = Some \<lparr>sv_backend = SharedMemory, sv_fallback = snd (saveCaptcha 10 ''c'' ''x'' ''ans'' (newMemoryBackend sample_config)),
       sv_isRedis = False, sv_hasClock = True, sv_trustedProxies = [], sv_degradedUntil = 0, sv_isProbing = False\<rparr>\<rparr>"

definition signin_request :: login_request where
  "signin_request = \<lparr>lq_Username = ''root'', lq_Password = ''pw'', lq_CaptchaID = ''x'', lq_VerifyCode = ''ans''\<rparr>"

definition signin_user :: user where
  "signin_user = (new_user 1)\<lparr>us_username := ''root'', us_password := ''#pw'', us_status := 1, us_passwordV := 1\<rparr>"

lemma signin_folds: "normAccount (\<lambda>x. x) ''root'' = ''root''" "to_lower (\<lambda>x. x) ''ans'' = ''ans''"
  by code_simp+

lemma signin_barriers:
  "\<exists>sv sv' sv''. service_AllowLogin (le_digest signin_env) (le_table signin_env) (le_exec signin_env 0) ''1.1.1.1'' ''root'' (ls_risk signin_state) =
      (Inr (), Some sv) \<and>
    captcha_Verify signin_env ''x'' ''ans'' (Some sv) = (Inr True, Some sv') \<and>
   service_ClearLoginFailure (le_digest signin_env) (le_table signin_env) (le_exec signin_env 2) ''root'' (Some sv') = (Inr (), Some sv'')"
  by (simp add: service_AllowLogin_def validateIdentity_def signin_state_def signin_env_def signin_folds on_service_def execute_def
        run_backend_def run_fallback_def saveCaptcha_fresh ascii_eval allowLogin_def clientLocked_def cleanClientLocked_def increaseRiskWindow_def
        zero_client_def zero_window_def Let_def limited_def captcha_Verify_def service_ConsumeCaptcha_def consumeCaptcha_def service_ClearLoginFailure_def clearLoginFailure_def
        split: prod.splits)

lemma signin_identifiers: "validIdentifier ''s''" "validIdentifier ''a''" "validIdentifier ''r''"
  by (simp_all add: validIdentifier_def ascii_eval valid_utf8.simps rune_error_def)

lemma signin_principal: "adminPrincipal plain_env signin_user signin_base =
  (Inr \<lparr>pr_Subject = AdminKind, pr_UserID = 1, pr_Username = ''root'', pr_RoleIDs = Some [2], pr_PasswordV = 1\<rparr>, signin_base)"
  by code_simp

lemma signin_found: "find (\<lambda>u. us_id u = us_id signin_user) (bs_users signin_base) = Some signin_user"
   "find (\<lambda>u. us_username u = ''root'') (bs_users signin_base) = Some signin_user" "us_status signin_user = 1"
   "us_password signin_user = ''#pw''"
  by code_simp+

lemma signin_creates:
  "\<exists>pair s. createA plain_env signin_auth
    \<lparr>pr_Subject = AdminKind, pr_UserID = 1, pr_Username = ''root'', pr_RoleIDs = Some [2], pr_PasswordV = 1\<rparr> signin_base = (Inr pair, s)"
  by (simp add: createA_def auth_Create_def signin_auth_def plain_env_def memory_store_def store_Save_def contextError_def validateSnapshot_def
      snapshotFromPair_def tokenSubject_def token_subject.defs signin_identifiers validatePrincipal_def
      snapshot_principal_def ascii_eval copy_ids_def)
lemma signin_tx: "\<exists>pair s. login_tx plain_env signin_auth signin_user None signin_base = (Inr pair, s)"
proof -
  have found: "lockedUser plain_env (us_id signin_user) signin_base = (Inr (Some signin_user), signin_base)"
    by (simp add: lockedUser_def readA_def plain_env_def signin_found)
  obtain pair s where "createA plain_env signin_auth
    \<lparr>pr_Subject = AdminKind, pr_UserID = 1, pr_Username = ''root'', pr_RoleIDs = Some [2], pr_PasswordV = 1\<rparr>
      signin_base = (Inr pair, s)" using signin_creates by blast
  then show ?thesis
    unfolding login_tx_def withinTx_Inr_iff
    by (intro exI [of _ pair] exI [of _ s])
      (simp add: bindA_def found signin_found signin_principal rolesA_def returnA_def)
qed

lemma signin_goes_through: "\<exists>tok st. Login signin_env ''1.1.1.1'' signin_request signin_state = (Inr tok, st)"
proof -
  obtain sv sv' sv'' where b: "service_AllowLogin (le_digest signin_env) (le_table signin_env) (le_exec signin_env 0) ''1.1.1.1'' ''root''
      (ls_risk signin_state) = (Inr (), Some sv)" "captcha_Verify signin_env ''x'' ''ans'' (Some sv) = (Inr True, Some sv')"
    "service_ClearLoginFailure (le_digest signin_env) (le_table signin_env) (le_exec signin_env 2) ''root'' (Some sv') = (Inr (), Some sv'')"
    using signin_barriers by blast
  have e: "le_base signin_env = plain_env" "le_auth signin_env = signin_auth" "le_between signin_env s = s"
    "ls_base signin_state = signin_base" "le_Verify signin_env ''pw'' ''#pw'' = Inr (True, False)" for s
    by (simp_all add: signin_env_def signin_state_def)
  have q: "lq_Username signin_request = ''root''" "lq_Password signin_request = ''pw''" "lq_CaptchaID signin_request = ''x''"
    "lq_VerifyCode signin_request = ''ans''" by (simp_all add: signin_request_def)
  have look: "userByUsername plain_env ''root'' signin_base = (Inr (Some signin_user), signin_base)"
    by (simp add: userByUsername_def readA_def plain_env_def signin_found)
  obtain pair s where "login_tx plain_env signin_auth signin_user None signin_base = (Inr pair, s)" using signin_tx by blast
  then show ?thesis
    by (simp add: Login_def b check_account_def e q look signin_found finish_login_def faultE_def)
qed



text \<open>C28: Refreshing builds the identity again: a refresh succeeds only for an administrator's session
  whose user still is there and enabled and still has a role, it leaves the tables alone, and the
  rotated session carries the user's roles and password version as the tables have them at that
  moment, not those of the old session.\<close>

theorem refresh_rebuilds_identity:
  assumes "Refresh env aenv token s = (Inr tok, s')"
  shows "tables s' = tables s \<and> (\<exists>cl u v st. ae_Parse aenv token True = Inr cl \<and> ts_Subject cl = AdminKind \<and>
    u \<in> set (bs_users s) \<and> us_id u = ts_UserID cl \<and> us_status u = 1 \<and>
    bs_sessions s' = mput (ts_SessionID cl) v st \<and> session_of s u v)"
proof -
  obtain pair st where refresh: "auth_RefreshWith aenv (memory_store (be_ctx env)) (Some (refresh_resolve env s)) token (bs_sessions s) = (Inr pair, st)"
    and s': "s' = s\<lparr>bs_sessions := st\<rparr>"
    using assms unfolding Refresh_def withinTx_Inr_iff by (auto simp: bindE_Inr_iff split: prod.splits)
  obtain cl current st1 where verified: "auth_verify aenv (memory_store (be_ctx env)) token True (bs_sessions s) = (Inr (cl, current), st1)"
    and rotated: "auth_rotate aenv (memory_store (be_ctx env)) (refresh_resolve env s) cl current st1 = (Inr pair, st)"
    using refresh by (auto simp: auth_RefreshWith_def split: prod.splits sum.splits)
  have cl: "ae_Parse aenv token True = Inr cl" "checkClaims cl current = Inr ()"
    using verified by (auto simp: auth_verify_def apfst_def map_prod_def split: prod.splits sum.splits option.splits if_splits)
  have same: "ts_SessionID cl = ts_SessionID current" "ts_Subject cl = ts_Subject current" "ts_UserID cl = ts_UserID current"
    using cl(2) by (auto simp: checkClaims_def split: if_splits)
  obtain p where p: "refresh_resolve env s (toPrincipal current) = Inr p"
    "pr_Subject p = ts_Subject current" "pr_UserID p = ts_UserID current"
    and st: "store_RotateRefresh (be_ctx env) (ae_check aenv) (ae_write aenv) (ts_SessionID current) (cm_JTI cl)
        (snapshotFromPair (tokenSubject (ts_SessionID current) p) pair) st1 = (Inr (), st)"
    using rotated by (auto simp: auth_rotate_def memory_store_def bindE_Inr_iff apfst_def map_prod_def split: prod.splits sum.splits if_splits)
  obtain u where subject: "ts_Subject current = AdminKind" and u: "find (\<lambda>u. us_id u = ts_UserID current) (bs_users s) = Some u" "us_status u = 1"
    and built: "fst (adminPrincipal env u s) = Inr p"
    using p(1) by (auto simp: refresh_resolve_def toPrincipal_def bindA_def lockedUser_def readA_def rolesA_def failA_def
        split: if_splits option.splits prod.splits sum.splits)
  note P = adminPrincipal_Inr [OF prod.collapse [symmetric, THEN trans, OF arg_cong2 [of _ _ _ _ Pair, OF built refl]]]
  let ?v = "cloneSnapshot (snapshotFromPair (tokenSubject (ts_SessionID current) p) pair)"
  have v: "st = mput (ts_SessionID current) ?v (cleanupExpired (ae_write aenv) st1)"
    using st by (auto simp: store_RotateRefresh_def Let_def split: sum.splits if_splits option.splits)
  have "copy_ids (copy_ids x) = copy_ids x" for x by (simp add: copy_ids_def split: option.split list.split)
  then have "session_of s u ?v"
    using P by (simp add: session_of_def cloneSnapshot_def snapshotFromPair_def tokenSubject_def token_subject.defs)
  moreover have "u \<in> set (bs_users s)" "us_id u = ts_UserID cl"
    using find_id [of us_id "ts_UserID current" "bs_users s" u] u(1) same(3) by auto
  ultimately show ?thesis
    using v cl(1) same subject u(2) s' by (intro conjI exI [of _ cl] exI [of _ u] exI [of _ ?v] exI [of _ "cleanupExpired (ae_write aenv) st1"])
      (simp_all add: tables_def)
qed

text \<open>A refresh that goes through: the session was made before the user got the role 2.\<close>

definition refresh_snapshot :: snapshot where
  "refresh_snapshot = \<lparr>ts_SessionID = ''s'', ts_Subject = AdminKind, ts_UserID = 1, ts_Username = ''root'', ts_RoleIDs = Some [7],
     ts_PasswordV = 1, sn_AccessJTI = ''a0'', sn_RefreshJTI = ''r0'', sn_ExpiresAt = 100\<rparr>"

definition refresh_base :: base_state where
  "refresh_base = signin_base\<lparr>bs_sessions := [(''s'', refresh_snapshot)]\<rparr>"

definition refresh_auth :: auth_env where
  "refresh_auth = signin_auth\<lparr>ae_Parse := (\<lambda>token refresh. Inr \<lparr>ts_SessionID = ''s'', ts_Subject = AdminKind, ts_UserID = 1,
     ts_Username = ''root'', ts_RoleIDs = Some [7], ts_PasswordV = 1, cm_JTI = ''r0'', cm_IsRefresh = True,
     cm_IssuedAt = 1, cm_NotBefore = 1, cm_ExpiresAt = 100\<rparr>)\<rparr>"

lemma refresh_identifiers: "validIdentifier ''r0''" "validIdentifier ''a0''"
  by (simp_all add: validIdentifier_def ascii_eval valid_utf8.simps rune_error_def)

lemma refresh_resolves: "refresh_resolve plain_env refresh_base (toPrincipal refresh_snapshot) =
  Inr \<lparr>pr_Subject = AdminKind, pr_UserID = 1, pr_Username = ''root'', pr_RoleIDs = Some [2], pr_PasswordV = 1\<rparr>"
  by code_simp

lemma refresh_goes_through: "\<exists>tok s. Refresh plain_env refresh_auth ''t'' refresh_base = (Inr tok, s)"
proof -
  have f: "ts_SessionID refresh_snapshot = ''s''" "ts_Subject refresh_snapshot = AdminKind" "ts_UserID refresh_snapshot = 1"
    "ts_PasswordV refresh_snapshot = 1" "sn_RefreshJTI refresh_snapshot = ''r0''" "sn_ExpiresAt refresh_snapshot = 100"
    by (simp_all add: refresh_snapshot_def)
  have plain_ctx: "be_ctx plain_env = ContextOk" by (simp add: plain_env_def)
  have get: "store_Get ContextOk 10 ''s'' [(''s'', refresh_snapshot)] = (Inr (Some refresh_snapshot), [(''s'', refresh_snapshot)])"
    by (simp add: store_Get_def contextError_def cleanupExpired_def refresh_snapshot_def signin_identifiers cloneSnapshot_def copy_ids_def)
  have "\<exists>pair st. auth_RefreshWith refresh_auth (memory_store (be_ctx plain_env)) (Some (refresh_resolve plain_env refresh_base)) ''t''
      [(''s'', refresh_snapshot)] = (Inr pair, st)"
    by (simp add: auth_RefreshWith_def auth_verify_def auth_rotate_def memory_store_def refresh_auth_def signin_auth_def
        get plain_ctx checkClaims_def f refresh_resolves
        store_RotateRefresh_def contextError_def cleanupExpired_def validateSnapshot_def snapshot_principal_def
        snapshotFromPair_def tokenSubject_def token_subject.defs validatePrincipal_def ascii_eval copy_ids_def
        signin_identifiers refresh_identifiers)
  moreover have "bs_sessions refresh_base = [(''s'', refresh_snapshot)]" by (simp add: refresh_base_def)
  ultimately show ?thesis
    by (auto simp: Refresh_def withinTx_Inr_iff)
qed

theorem refresh_rebuilds_identity_witness:
  "\<exists>tok s u v st. Refresh plain_env refresh_auth ''t'' refresh_base = (Inr tok, s) \<and>
     bs_sessions s = mput ''s'' v st \<and> session_of refresh_base u v"
proof -
  obtain tok s where ran: "Refresh plain_env refresh_auth ''t'' refresh_base = (Inr tok, s)"
    using refresh_goes_through by blast
  have sid: "ae_Parse refresh_auth ''t'' True = Inr cl \<Longrightarrow> ts_SessionID cl = ''s''" for cl
    by (auto simp: refresh_auth_def)
  show ?thesis using refresh_rebuilds_identity [OF ran] ran sid by metis
qed

text \<open>The same login on a backend that counted three failures of the account.\<close>

definition locked_state :: "(unit, unit) login_state" where
  "locked_state = \<lparr>ls_base = signin_base,
     ls_risk = Some \<lparr>sv_backend = SharedMemory, sv_fallback = risk_run (failures_at [10, 12, 14] ''root'') (newMemoryBackend sample_config),
       sv_isRedis = False, sv_hasClock = True, sv_trustedProxies = [], sv_degradedUntil = 0, sv_isProbing = False\<rparr>\<rparr>"

lemma root_locked: "case map_of (rb_accounts (risk_run (failures_at [10, 12, 14] ''root'') (newMemoryBackend sample_config))) ''root'' of
    Some ac \<Rightarrow> 20 < ac_lockUntil ac | None \<Rightarrow> False"
  by code_simp


end
