(* ===== verification/Go_Reflect.thy ===== *)
theory Go_Reflect
  imports Go_Exception
begin

text \<open>
  Go types and values as far as the program looks at them by reflection (package \<open>reflect\<close>): the
  kinds, identity and assignability of types, integers within the range of their type, floating
  point numbers with their rounding. An \<open>any\<close> is an optional value, \<open>None\<close> its nil. Interface types
  do not occur as types of columns, so assignability to them is left out.
\<close>

section \<open>Types\<close>

datatype basic_kind =
    KBool
  | KInt | KInt8 | KInt16 | KInt32 | KInt64
  | KUint | KUint8 | KUint16 | KUint32 | KUint64 | KUintptr
  | KFloat32 | KFloat64
  | KString

text \<open>A defined type has a package path, a name and an underlying type. Struct types and those of
  functions, channels and interfaces are told apart by numbers.\<close>

datatype gotype =
    GoBasic basic_kind
  | GoStruct nat
  | GoPointer gotype
  | GoSlice gotype
  | GoArray nat gotype
  | GoMap gotype gotype
  | GoOther nat
  | GoNamed string string gotype

fun underlying :: "gotype \<Rightarrow> gotype" where
  "underlying (GoNamed pkg name t) = underlying t"
| "underlying t = t"

definition has_name :: "gotype \<Rightarrow> bool" where
  "has_name t = (case t of GoBasic _ \<Rightarrow> True | GoNamed _ _ _ \<Rightarrow> True | _ \<Rightarrow> False)"

text \<open>\<open>Type.AssignableTo\<close>\<close>

definition assignable :: "gotype \<Rightarrow> gotype \<Rightarrow> bool" where
  "assignable s t \<longleftrightarrow> s = t \<or> \<not> (has_name s \<and> has_name t) \<and> underlying s = underlying t"

definition is_struct :: "gotype \<Rightarrow> bool" where
  "is_struct t = (case underlying t of GoStruct _ \<Rightarrow> True | _ \<Rightarrow> False)"

text \<open>A struct type with a name and a package.\<close>

definition named_struct :: "gotype \<Rightarrow> bool" where
  "named_struct t \<longleftrightarrow> is_struct t \<and> (case t of GoNamed pkg name _ \<Rightarrow> name \<noteq> [] \<and> pkg \<noteq> [] | _ \<Rightarrow> False)"

text \<open>The range of the integer kinds on a 64-bit platform, signed and unsigned.\<close>

fun int_range :: "basic_kind \<Rightarrow> (int \<times> int) option" where
  "int_range KInt = Some (- (2 ^ 63), 2 ^ 63 - 1)"
| "int_range KInt8 = Some (- (2 ^ 7), 2 ^ 7 - 1)"
| "int_range KInt16 = Some (- (2 ^ 15), 2 ^ 15 - 1)"
| "int_range KInt32 = Some (- (2 ^ 31), 2 ^ 31 - 1)"
| "int_range KInt64 = Some (- (2 ^ 63), 2 ^ 63 - 1)"
| "int_range _ = None"

fun uint_range :: "basic_kind \<Rightarrow> (int \<times> int) option" where
  "uint_range KUint = Some (0, 2 ^ 64 - 1)"
| "uint_range KUint8 = Some (0, 2 ^ 8 - 1)"
| "uint_range KUint16 = Some (0, 2 ^ 16 - 1)"
| "uint_range KUint32 = Some (0, 2 ^ 32 - 1)"
| "uint_range KUint64 = Some (0, 2 ^ 64 - 1)"
| "uint_range KUintptr = Some (0, 2 ^ 64 - 1)"
| "uint_range _ = None"

definition within :: "(int \<times> int) option \<Rightarrow> int \<Rightarrow> bool" where
  "within r n = (case r of None \<Rightarrow> False | Some (lo, hi) \<Rightarrow> lo \<le> n \<and> n \<le> hi)"

fun is_float :: "basic_kind \<Rightarrow> bool" where
  "is_float KFloat32 = True"
| "is_float KFloat64 = True"
| "is_float _ = False"

section \<open>Floating point numbers\<close>

text \<open>\<open>Finite m e\<close> is the number m * 2^e.\<close>

datatype goflt = NotANumber | Infinite bool | Finite int int

fun bitlen :: "nat \<Rightarrow> nat" where
  "bitlen n = (if n = 0 then 0 else Suc (bitlen (n div 2)))"

declare bitlen.simps [simp del]

text \<open>Rounding to nearest, ties to even.\<close>

definition round_shift :: "nat \<Rightarrow> nat \<Rightarrow> nat" where
  "round_shift k m =
    (let q = m div 2 ^ k; r = m mod 2 ^ k; half = 2 ^ (k - 1)
     in if k = 0 then m else if r < half \<or> r = half \<and> even q then q else q + 1)"

definition round_float :: "int \<Rightarrow> int \<Rightarrow> int \<Rightarrow> int \<Rightarrow> goflt" where
  "round_float p emin m e =
    (let s = max (int (bitlen (nat \<bar>m\<bar>)) - p) (emin - e)
     in if s \<le> 0 then Finite m e else Finite (sgn m * int (round_shift (nat s) (nat \<bar>m\<bar>))) (e + s))"

definition to_float64 :: "int \<Rightarrow> goflt" where
  "to_float64 n = round_float 53 (-1074) n 0"

fun to_float32 :: "goflt \<Rightarrow> goflt" where
  "to_float32 (Finite m e) = round_float 24 (-149) m e"
| "to_float32 x = x"

text \<open>The whole number that a finite number is, if it is one.\<close>

fun whole :: "goflt \<Rightarrow> int option" where
  "whole (Finite m e) =
    (if 0 \<le> e then Some (m * 2 ^ nat e)
     else if m mod 2 ^ nat (- e) = 0 then Some (m div 2 ^ nat (- e)) else None)"
| "whole _ = None"

text \<open>\<open>Value.OverflowFloat\<close>: above the largest finite number of the kind.\<close>

fun overflow_float :: "basic_kind \<Rightarrow> goflt \<Rightarrow> bool" where
  "overflow_float KFloat32 (Finite m e) =
    (let limit = (2 ^ 24 - 1) * 2 ^ 104
     in if 0 \<le> e then limit < \<bar>m\<bar> * 2 ^ nat e else limit * 2 ^ nat (- e) < \<bar>m\<bar>)"
| "overflow_float _ _ = False"

section \<open>Values\<close>

text \<open>\<open>VList\<close> is an array or a slice that is not nil, \<open>VNil\<close> a nil of another type than interfaces;
  the content of structs, pointers, maps and functions is not looked at.\<close>

datatype goval =
    VBool gotype bool
  | VInt gotype int
  | VFloat gotype goflt
  | VString gotype string
  | VList gotype "goval option list"
  | VNil gotype
  | VOpaque gotype nat

fun type_of :: "goval \<Rightarrow> gotype" where
  "type_of (VBool t _) = t"
| "type_of (VInt t _) = t"
| "type_of (VFloat t _) = t"
| "type_of (VString t _) = t"
| "type_of (VList t _) = t"
| "type_of (VNil t) = t"
| "type_of (VOpaque t _) = t"

text \<open>Values that the runtime can have: of the right kind, integers in range.\<close>

fun val_ok :: "goval \<Rightarrow> bool" where
  "val_ok (VBool t _) \<longleftrightarrow> underlying t = GoBasic KBool"
| "val_ok (VInt t n) \<longleftrightarrow> (case underlying t of GoBasic k \<Rightarrow> within (int_range k) n \<or> within (uint_range k) n | _ \<Rightarrow> False)"
| "val_ok (VFloat t x) \<longleftrightarrow> (case underlying t of GoBasic k \<Rightarrow> is_float k | _ \<Rightarrow> False)"
| "val_ok (VString t _) \<longleftrightarrow> underlying t = GoBasic KString"
| "val_ok (VList t xs) \<longleftrightarrow> (case underlying t of GoSlice _ \<Rightarrow> True | GoArray n _ \<Rightarrow> length xs = n | _ \<Rightarrow> False) \<and>
     list_all (\<lambda>x. case x of None \<Rightarrow> True | Some v \<Rightarrow> val_ok v) xs"
| "val_ok (VNil t) \<longleftrightarrow> (case underlying t of GoPointer _ \<Rightarrow> True | GoSlice _ \<Rightarrow> True | GoMap _ _ \<Rightarrow> True | GoOther _ \<Rightarrow> True | _ \<Rightarrow> False)"
| "val_ok (VOpaque t _) \<longleftrightarrow> (case underlying t of GoBasic _ \<Rightarrow> False | GoSlice _ \<Rightarrow> False | GoArray _ _ \<Rightarrow> False | _ \<Rightarrow> True)"

text \<open>The empty interface and the nils.\<close>

definition isNilValue :: "goval option \<Rightarrow> bool" where
  "isNilValue x = (case x of None \<Rightarrow> True | Some (VNil _) \<Rightarrow> True | _ \<Rightarrow> False)"

text \<open>The type assertions \<open>x.(string)\<close>, \<open>x.([]string)\<close>.\<close>

definition as_string :: "goval option \<Rightarrow> string option" where
  "as_string x = (case x of Some (VString t s) \<Rightarrow> (if t = GoBasic KString then Some s else None) | _ \<Rightarrow> None)"

definition go_string :: "string \<Rightarrow> goval" where
  "go_string s = VString (GoBasic KString) s"

definition string_slice :: gotype where
  "string_slice = GoSlice (GoBasic KString)"

definition as_strings :: "goval option \<Rightarrow> string list option" where
  "as_strings x =
    (case x of
       Some (VList t xs) \<Rightarrow> (if t = string_slice then those (map as_string xs) else None)
     | Some (VNil t) \<Rightarrow> (if t = string_slice then Some [] else None)
     | _ \<Rightarrow> None)"

section \<open>Facts\<close>

lemma as_string_go_string [simp]: "as_string (Some (go_string s)) = Some s"
  by (simp add: as_string_def go_string_def)

lemma as_string_Some_iff: "as_string x = Some s \<longleftrightarrow> x = Some (go_string s)"
  by (auto simp: as_string_def go_string_def split: option.splits goval.splits)

lemma type_of_go_string [simp]: "type_of (go_string s) = GoBasic KString"
  by (simp add: go_string_def)

lemma isNilValue_simps [simp]: "isNilValue None" "isNilValue (Some (VNil t))" "\<not> isNilValue (Some (go_string s))"
  by (simp_all add: isNilValue_def go_string_def)

lemma within_Some: "within r n \<longleftrightarrow> (\<exists>lo hi. r = Some (lo, hi) \<and> lo \<le> n \<and> n \<le> hi)"
  by (auto simp: within_def split: option.splits)

lemma assignable_refl [simp]: "assignable t t"
  by (simp add: assignable_def)

text \<open>A value of a type with a name goes only into that type, among types with names.\<close>

lemma assignable_named: "has_name s \<Longrightarrow> has_name t \<Longrightarrow> assignable s t \<longleftrightarrow> s = t"
  by (simp add: assignable_def)

text \<open>Integers up to 53 bits survive the conversion to a float and back.\<close>

lemma bitlen_le: "n < 2 ^ k \<Longrightarrow> bitlen n \<le> k"
proof (induction k arbitrary: n)
  case 0
  then show ?case by (simp add: bitlen.simps)
next
  case (Suc k)
  then have "n div 2 < 2 ^ k" by (simp add: less_mult_imp_div_less mult.commute)
  from Suc.IH [OF this] show ?case by (subst bitlen.simps) simp
qed

lemma whole_to_float64:
  assumes "\<bar>n\<bar> < 2 ^ 53"
  shows "whole (to_float64 n) = Some n"
proof -
  have "nat \<bar>n\<bar> < 2 ^ 53" using assms by (subst nat_less_iff) auto
  then have "bitlen (nat \<bar>n\<bar>) \<le> 53" by (rule bitlen_le)
  then show ?thesis by (simp add: to_float64_def round_float_def)
qed

end
