(* ===== verification/Entity_Descriptor.thy ===== *)
theory Entity_Descriptor
  imports Go_Reflect
begin

text \<open>
  Entity descriptors (\<open>cool-next/core/gnentity\<close>): from the fields of a struct with their tags to the
  metadata of a table, and the values that are written to it (\<open>DOValue\<close>).

  A struct field is a record; its tag is the list of its keys and values, as \<open>StructTag.Lookup\<close> finds
  them. Trimming and splitting are those of \<open>Go_Strings\<close>; the numbers of tags are 64 bits wide.
\<close>

section \<open>Names\<close>

definition is_lower :: "char \<Rightarrow> bool" where
  "is_lower c \<longleftrightarrow> in_range 97 122 (byte c)"

definition is_upper :: "char \<Rightarrow> bool" where
  "is_upper c \<longleftrightarrow> in_range 65 90 (byte c)"

text \<open>\<open>^[a-z][A-Za-z0-9]*$\<close> and \<open>^[a-z][a-z0-9_]*$\<close>\<close>

definition lowerCamelPattern :: "string \<Rightarrow> bool" where
  "lowerCamelPattern s = (case s of [] \<Rightarrow> False
     | c # cs \<Rightarrow> is_lower c \<and> list_all (\<lambda>d. is_lower d \<or> is_upper d \<or> is_digit d) cs)"

definition tableNamePattern :: "string \<Rightarrow> bool" where
  "tableNamePattern s = (case s of [] \<Rightarrow> False
     | c # cs \<Rightarrow> is_lower c \<and> list_all (\<lambda>d. is_lower d \<or> is_digit d \<or> d = CHR ''_'') cs)"

section \<open>Data\<close>

datatype logical_type =
    LogicalBool | LogicalInt | LogicalUint | LogicalFloat | LogicalString | LogicalBytes | LogicalJSON | LogicalTime

text \<open>A number or text that is absent is \<open>None\<close>.\<close>

record constraints =
  ct_Size :: "nat option"
  ct_Default :: "string option"
  ct_Precision :: "nat option"
  ct_Scale :: "nat option"

record entity_field =
  ef_Name :: string
  ef_JSONName :: string
  ef_Column :: string
  ef_Description :: string
  ef_LogicalType :: logical_type
  ef_GoType :: gotype
  ef_Nullable :: bool
  ef_Primary :: bool
  ef_AutoIncrement :: bool
  ef_SystemMaintained :: bool
  ef_Persistent :: bool
  ef_Constraints :: constraints

record entity_index =
  ix_Name :: string
  ix_Fields :: "string list"
  ix_Unique :: bool

record metadata =
  md_Table :: string
  md_Description :: string
  md_EntityType :: gotype
  md_Primary :: entity_field
  md_Fields :: "entity_field list"
  md_PersistentFields :: "entity_field list"
  md_byName :: "(string, entity_field) gomap"
  md_byJSON :: "(string, entity_field) gomap"
  md_byColumn :: "(string, entity_field) gomap"
  md_Indexes :: "entity_index list"

definition md_Field :: "metadata \<Rightarrow> string \<Rightarrow> entity_field option" where
  "md_Field d name = map_of (md_byName d) name"

record struct_field =
  sf_Name :: string
  sf_Type :: gotype
  sf_Anonymous :: bool
  sf_Exported :: bool
  sf_Tag :: "(string \<times> string) list"

definition tag_lookup :: "struct_field \<Rightarrow> string \<Rightarrow> string option" where
  "tag_lookup f key = map_of (sf_Tag f) key"

definition tag_get :: "struct_field \<Rightarrow> string \<Rightarrow> string" where
  "tag_get f key = (case tag_lookup f key of None \<Rightarrow> [] | Some v \<Rightarrow> v)"

definition uint64_type :: gotype where
  "uint64_type = GoBasic KUint64"

text \<open>The struct types of libraries that the code names.\<close>

definition time_type :: gotype where
  "time_type = GoNamed ''time'' ''Time'' (GoStruct 1)"

definition gtime_type :: gotype where
  "gtime_type = GoNamed ''github.com/gogf/gf/v2/os/gtime'' ''Time'' (GoStruct 2)"

definition meta_type :: gotype where
  "meta_type = GoNamed ''github.com/gogf/gf/v2/util/gmeta'' ''Meta'' (GoStruct 3)"

definition base_type :: gotype where
  "base_type = GoNamed ''github.com/toothdy/cool-admin-go-next/cool-next/core/gnentity'' ''Base'' (GoStruct 4)"

section \<open>Fields\<close>

text \<open>\<open>strings.Cut\<close>: before, after, found.\<close>

definition cut :: "char \<Rightarrow> string \<Rightarrow> string \<times> string \<times> bool" where
  "cut c s = (if c \<in> set s then (takeWhile (\<lambda>x. x \<noteq> c) s, tl (dropWhile (\<lambda>x. x \<noteq> c) s), True) else (s, [], False))"

definition is_byte_slice :: "gotype \<Rightarrow> bool" where
  "is_byte_slice t = (case underlying t of GoSlice u \<Rightarrow> underlying u = GoBasic KUint8 | _ \<Rightarrow> False)"

text \<open>\<open>uintptr\<close> is no scalar.\<close>

definition isScalarKind :: "gotype \<Rightarrow> bool" where
  "isScalarKind t = (case underlying t of GoBasic k \<Rightarrow> k \<noteq> KUintptr | _ \<Rightarrow> False)"

fun scalar_logical :: "basic_kind \<Rightarrow> logical_type option" where
  "scalar_logical KBool = Some LogicalBool"
| "scalar_logical KString = Some LogicalString"
| "scalar_logical KFloat32 = Some LogicalFloat"
| "scalar_logical KFloat64 = Some LogicalFloat"
| "scalar_logical KUintptr = None"
| "scalar_logical k = Some (if int_range k \<noteq> None then LogicalInt else LogicalUint)"

definition inferLogicalType :: "gotype \<Rightarrow> bool \<Rightarrow> bool \<Rightarrow> (go_error, logical_type \<times> bool) result" where
  "inferLogicalType fieldType isJSON isTransient =
    (let (t, isNullable) = (case underlying fieldType of GoPointer u \<Rightarrow> (u, True) | _ \<Rightarrow> (fieldType, False))
     in if isNullable \<and> (case underlying t of GoPointer _ \<Rightarrow> True | _ \<Rightarrow> False) then Inl (core ''double pointer'')
        else if t = time_type \<or> t = gtime_type then Inr (LogicalTime, isNullable)
        else if is_byte_slice t then
          (if isJSON then Inl (core ''bytes as json'') else Inr (LogicalBytes, isNullable))
        else if isJSON then
          (case underlying t of
             GoSlice _ \<Rightarrow> Inr (LogicalJSON, isNullable)
           | GoMap k _ \<Rightarrow> (if underlying k = GoBasic KString then Inr (LogicalJSON, isNullable) else Inl (core ''json type''))
           | _ \<Rightarrow> Inl (core ''json type''))
        else if isTransient \<and> (case underlying t of GoSlice u \<Rightarrow> isScalarKind u | _ \<Rightarrow> False) then Inr (LogicalJSON, isNullable)
        else (case underlying t of
             GoBasic k \<Rightarrow> (case scalar_logical k of Some l \<Rightarrow> Inr (l, isNullable) | None \<Rightarrow> Inl (core ''field type''))
           | _ \<Rightarrow> Inl (core ''field type'')))"

record cool_markers =
  cm_isJSON :: bool
  cm_isTransient :: bool

text \<open>The loop over the items; \<open>seen\<close> are the keys before.\<close>

fun markers_loop :: "string list \<Rightarrow> string list \<Rightarrow> cool_markers \<Rightarrow> (go_error, cool_markers) result" where
  "markers_loop seen [] markers = Inr markers"
| "markers_loop seen (item # items) markers =
    (case cut CHR ''='' item of (key, value, found) \<Rightarrow>
       if key = [] \<or> key \<in> set seen then Inl (core ''constraint invalid'')
       else if key = ''transient'' then
         (if found then Inl (core ''transient with value'')
          else markers_loop (key # seen) items (markers\<lparr>cm_isTransient := True\<rparr>))
       else if \<not> found \<or> value = [] then Inl (core ''constraint invalid'')
       else markers_loop (key # seen) items
         (if key = ''json'' \<and> value = ''true'' then markers\<lparr>cm_isJSON := True\<rparr> else markers))"

definition parseCoolMarkers :: "struct_field \<Rightarrow> (go_error, cool_markers) result" where
  "parseCoolMarkers f =
    (case tag_lookup f ''cool'' of
       None \<Rightarrow> Inr \<lparr>cm_isJSON = False, cm_isTransient = False\<rparr>
     | Some raw \<Rightarrow>
         if raw = [] then Inl (core ''cool tag empty'')
         else markers_loop [] (split_on CHR '','' raw) \<lparr>cm_isJSON = False, cm_isTransient = False\<rparr>)"

definition parsePositive :: "string \<Rightarrow> nat option" where
  "parsePositive value = (case parse_uint value of None \<Rightarrow> None | Some n \<Rightarrow> if n = 0 then None else Some n)"

text \<open>One constraint.\<close>

definition set_constraint :: "logical_type \<Rightarrow> string \<Rightarrow> string \<Rightarrow> constraints \<Rightarrow> (go_error, constraints) result" where
  "set_constraint logicalType key value c =
    (if key = ''size'' then
       (case parsePositive value of
          None \<Rightarrow> Inl (core ''size invalid'')
        | Some n \<Rightarrow> if logicalType \<noteq> LogicalString \<and> logicalType \<noteq> LogicalBytes then Inl (core ''size invalid'')
            else Inr (c\<lparr>ct_Size := Some n\<rparr>))
     else if key = ''default'' then
       (if logicalType = LogicalJSON then Inl (core ''default invalid'') else Inr (c\<lparr>ct_Default := Some value\<rparr>))
     else if key = ''json'' then
       (if logicalType \<noteq> LogicalJSON \<or> value \<noteq> ''true'' then Inl (core ''json invalid'') else Inr c)
     else if key = ''precision'' then
       (case parsePositive value of
          None \<Rightarrow> Inl (core ''precision invalid'')
        | Some n \<Rightarrow> if logicalType \<noteq> LogicalFloat then Inl (core ''precision invalid'') else Inr (c\<lparr>ct_Precision := Some n\<rparr>))
     else if key = ''scale'' then
       (case parse_uint value of
          None \<Rightarrow> Inl (core ''scale invalid'')
        | Some n \<Rightarrow> if logicalType \<noteq> LogicalFloat then Inl (core ''scale invalid'') else Inr (c\<lparr>ct_Scale := Some n\<rparr>))
     else Inl (core ''constraint unknown''))"

fun constraints_loop :: "logical_type \<Rightarrow> string list \<Rightarrow> string list \<Rightarrow> constraints \<Rightarrow> (go_error, constraints) result" where
  "constraints_loop logicalType seen [] c = Inr c"
| "constraints_loop logicalType seen (item # items) c =
    (case cut CHR ''='' item of (key, value, found) \<Rightarrow>
       if key = [] then Inl (core ''constraint invalid'')
       else if key \<in> set seen then Inl (core ''constraint duplicate'')
       else if key = ''transient'' then
         (if found then Inl (core ''transient with value'') else constraints_loop logicalType (key # seen) items c)
       else if \<not> found \<or> value = [] then Inl (core ''constraint invalid'')
       else bindE (set_constraint logicalType key value c) (constraints_loop logicalType (key # seen) items))"

definition no_constraints :: constraints where
  "no_constraints = \<lparr>ct_Size = None, ct_Default = None, ct_Precision = None, ct_Scale = None\<rparr>"

definition parseConstraints :: "struct_field \<Rightarrow> logical_type \<Rightarrow> (go_error, constraints) result" where
  "parseConstraints f logicalType =
    (case tag_lookup f ''cool'' of
       None \<Rightarrow> Inr no_constraints
     | Some raw \<Rightarrow>
         if raw = [] then Inl (core ''cool tag empty'')
         else bindE (constraints_loop logicalType [] (split_on CHR '','' raw) no_constraints) (\<lambda>c.
           case ct_Scale c of
             None \<Rightarrow> Inr c
           | Some s \<Rightarrow>
               (case ct_Precision c of
                  None \<Rightarrow> Inl (core ''scale without precision'')
                | Some p \<Rightarrow> if p < s then Inl (core ''scale without precision'') else Inr c)))"

definition parse_column :: "struct_field \<Rightarrow> cool_markers \<Rightarrow> (go_error, string) result" where
  "parse_column f markers =
    (case tag_lookup f ''orm'' of
       None \<Rightarrow> (if cm_isTransient markers then Inr [] else Inl (core ''orm tag missing''))
     | Some column \<Rightarrow>
         if cm_isTransient markers then Inl (core ''transient with orm'')
         else if column = [] \<or> CHR '','' \<in> set column \<or> \<not> lowerCamelPattern column then Inl (core ''column invalid'')
         else Inr column)"

definition parseBusinessField :: "struct_field \<Rightarrow> (go_error, entity_field) result" where
  "parseBusinessField f =
    (case tag_lookup f ''json'' of
       None \<Rightarrow> Inl (core ''json tag missing'')
     | Some jsonName \<Rightarrow>
         if jsonName = [] \<or> jsonName = ''-'' \<or> CHR '','' \<in> set jsonName \<or> \<not> lowerCamelPattern jsonName
         then Inl (core ''json tag invalid'')
         else
           (let description = trim_space (tag_get f ''description'')
            in if description = [] then Inl (core ''description empty'')
               else bindE (parseCoolMarkers f) (\<lambda>markers.
                    bindE (parse_column f markers) (\<lambda>column.
                    bindE (case inferLogicalType (sf_Type f) (cm_isJSON markers) (cm_isTransient markers) of
                        Inl e \<Rightarrow> Inl (core (if cm_isJSON markers then ''json kinds'' else ''field type''))
                      | Inr r \<Rightarrow> Inr r) (\<lambda>(logicalType, isNullable).
                    bindE (parseConstraints f logicalType) (\<lambda>c.
                    Inr \<lparr>ef_Name = jsonName, ef_JSONName = jsonName, ef_Column = column, ef_Description = description,
                      ef_LogicalType = logicalType, ef_GoType = sf_Type f, ef_Nullable = isNullable, ef_Primary = False,
                      ef_AutoIncrement = False, ef_SystemMaintained = False, ef_Persistent = (\<not> cm_isTransient markers),
                      ef_Constraints = c\<rparr>))))))"

section \<open>The table\<close>

fun directives_loop :: "string list \<Rightarrow> string \<Rightarrow> (go_error, string) result" where
  "directives_loop [] table = Inr table"
| "directives_loop (d # ds) table =
    (case cut CHR '':'' d of (key, value, found) \<Rightarrow>
       if \<not> found \<or> key \<noteq> ''table'' \<or> value = [] then Inl (core ''orm directive invalid'')
       else if table \<noteq> [] then Inl (core ''table twice'')
       else directives_loop ds value)"

definition parseMeta :: "struct_field \<Rightarrow> (go_error, string \<times> string) result" where
  "parseMeta f =
    (case tag_lookup f ''orm'' of
       None \<Rightarrow> Inl (core ''table directive missing'')
     | Some orm \<Rightarrow>
         if orm = [] then Inl (core ''table directive missing'')
         else bindE (directives_loop (split_on CHR '','' orm) []) (\<lambda>table.
           if \<not> tableNamePattern table then Inl (core ''table name invalid'')
           else (let description = trim_space (tag_get f ''description'')
             in if description = [] then Inl (core ''table description empty'') else Inr (table, description))))"

definition base_field :: "string \<Rightarrow> string \<Rightarrow> logical_type \<Rightarrow> gotype \<Rightarrow> bool \<Rightarrow> entity_field" where
  "base_field name description logicalType t primary =
    \<lparr>ef_Name = name, ef_JSONName = name, ef_Column = name, ef_Description = description, ef_LogicalType = logicalType,
      ef_GoType = t, ef_Nullable = False, ef_Primary = primary, ef_AutoIncrement = primary,
      ef_SystemMaintained = (\<not> primary), ef_Persistent = True, ef_Constraints = no_constraints\<rparr>"

definition baseFields :: "entity_field list" where
  "baseFields =
    [base_field ''id'' ''ID'' LogicalUint uint64_type True,
     base_field ''createTime'' ''create time'' LogicalTime (GoPointer gtime_type) False,
     base_field ''updateTime'' ''update time'' LogicalTime (GoPointer gtime_type) False]"

section \<open>Indexes\<close>

definition IndexOf :: "string \<Rightarrow> string list \<Rightarrow> entity_index" where
  "IndexOf name fs = \<lparr>ix_Name = name, ix_Fields = fs, ix_Unique = False\<rparr>"

definition UniqueIndexOf :: "string \<Rightarrow> string list \<Rightarrow> entity_index" where
  "UniqueIndexOf name fs = (IndexOf name fs)\<lparr>ix_Unique := True\<rparr>"

fun index_fields :: "(string, entity_field) gomap \<Rightarrow> string list \<Rightarrow> string list \<Rightarrow> (go_error, unit) result" where
  "index_fields known seen [] = Inr ()"
| "index_fields known seen (f # fs) =
    (if f = [] then Inl (core ''index field empty'')
     else if f \<in> set seen then Inl (core ''index field duplicate'')
     else if map_of known f = None then Inl (core ''index field unknown'')
     else index_fields known (f # seen) fs)"

fun indexes_loop :: "(string, entity_field) gomap \<Rightarrow> entity_index list \<Rightarrow> entity_index list \<Rightarrow> (go_error, entity_index list) result" where
  "indexes_loop known built [] = Inr built"
| "indexes_loop known built (ix # ixs) =
    (if \<not> tableNamePattern (ix_Name ix) then Inl (core ''index name invalid'')
     else if ix_Name ix \<in> set (map ix_Name built) then Inl (core ''index name duplicate'')
     else if ix_Fields ix = [] then Inl (core ''index without fields'')
     else bindE (index_fields known [] (ix_Fields ix)) (\<lambda>_. indexes_loop known (built @ [ix]) ixs))"

definition compileIndexes :: "string \<Rightarrow> entity_index list \<Rightarrow> (string, entity_field) gomap \<Rightarrow> (go_error, entity_index list) result" where
  "compileIndexes table schema known =
    indexes_loop known [IndexOf (''idx_'' @ table @ ''_create_time'') [''createTime''],
      IndexOf (''idx_'' @ table @ ''_update_time'') [''updateTime'']] schema"

section \<open>Compilation\<close>

text \<open>What the first loop gathers: the table and its description, whether \<open>Base\<close> is embedded, and the
  fields of the business.\<close>

fun struct_loop ::
  "struct_field list \<Rightarrow> (string \<times> string) option \<Rightarrow> bool \<Rightarrow> struct_field list \<Rightarrow>
   (go_error, (string \<times> string) option \<times> bool \<times> struct_field list) result" where
  "struct_loop [] meta hasBase business = Inr (meta, hasBase, business)"
| "struct_loop (f # fs) meta hasBase business =
    (if sf_Anonymous f then
       (if sf_Type f = meta_type then
          (if meta \<noteq> None then Inl (core ''meta twice'')
           else bindE (parseMeta f) (\<lambda>m. struct_loop fs (Some m) hasBase business))
        else if sf_Type f = base_type then
          (if hasBase then Inl (core ''base twice'') else struct_loop fs meta True business)
        else Inl (core ''anonymous field''))
     else if \<not> sf_Exported f then Inl (core ''field not exported'')
     else struct_loop fs meta hasBase (business @ [f]))"

definition add_field :: "entity_field \<Rightarrow> metadata \<Rightarrow> (go_error, metadata) result" where
  "add_field f d =
    (if map_of (md_byJSON d) (ef_JSONName f) \<noteq> None then Inl (core ''json name duplicate'')
     else if map_of (md_byName d) (ef_Name f) \<noteq> None then Inl (core ''field name duplicate'')
     else if ef_Persistent f \<and> map_of (md_byColumn d) (ef_Column f) \<noteq> None then Inl (core ''column duplicate'')
     else Inr (let d' = d\<lparr>md_Fields := md_Fields d @ [f], md_byName := mput (ef_Name f) f (md_byName d),
               md_byJSON := mput (ef_JSONName f) f (md_byJSON d)\<rparr>
       in if ef_Persistent f then d'\<lparr>md_PersistentFields := md_PersistentFields d @ [f], md_byColumn := mput (ef_Column f) f (md_byColumn d)\<rparr>
          else d'))"

fun fields_loop :: "struct_field list \<Rightarrow> metadata \<Rightarrow> (go_error, metadata) result" where
  "fields_loop [] d = Inr d"
| "fields_loop (f # fs) d = bindE (parseBusinessField f) (\<lambda>e. bindE (add_field e d) (fields_loop fs))"

definition base_descriptor :: "gotype \<Rightarrow> string \<Rightarrow> string \<Rightarrow> metadata" where
  "base_descriptor t table description =
    \<lparr>md_Table = table, md_Description = description, md_EntityType = t, md_Primary = hd baseFields, md_Fields = baseFields,
      md_PersistentFields = baseFields, md_byName = map (\<lambda>f. (ef_Name f, f)) baseFields,
      md_byJSON = map (\<lambda>f. (ef_JSONName f, f)) baseFields, md_byColumn = map (\<lambda>f. (ef_Column f, f)) baseFields, md_Indexes = []\<rparr>"

text \<open>\<open>Compile\<close> for the entity type, its struct fields and the type of its key.\<close>

definition Compile :: "gotype \<Rightarrow> struct_field list \<Rightarrow> gotype \<Rightarrow> entity_index list \<Rightarrow> (go_error, metadata) result" where
  "Compile entityType structFields idType schema =
    (if \<not> is_struct entityType then Inl (core ''entity not a struct'')
     else if idType \<noteq> uint64_type then Inl (core ''id type'')
     else bindE (struct_loop structFields None False []) (\<lambda>(meta, hasBase, business).
       case meta of
         None \<Rightarrow> Inl (core ''meta missing'')
       | Some (table, description) \<Rightarrow>
           if \<not> hasBase then Inl (core ''base missing'')
           else bindE (fields_loop business (base_descriptor entityType table description)) (\<lambda>d.
             bindE (compileIndexes table schema (map (\<lambda>f. (ef_Name f, f)) (md_PersistentFields d))) (\<lambda>ixs.
             Inr (d\<lparr>md_Indexes := ixs\<rparr>)))))"

section \<open>Values to write\<close>

text \<open>A field of a \<open>DOValue\<close> is unset, null or has a value; \<open>dv_states\<close> holds those that are set.\<close>

datatype do_state = DoNull | DoValue goval

record do_value =
  dv_shape :: metadata
  dv_states :: "(string, do_state) gomap"

definition NewDO :: "metadata \<Rightarrow> do_value" where
  "NewDO d = \<lparr>dv_shape = d, dv_states = []\<rparr>"

definition do_field :: "do_value \<Rightarrow> string \<Rightarrow> entity_field option" where
  "do_field v name = find (\<lambda>f. ef_Name f = name) (md_PersistentFields (dv_shape v))"

definition value_type :: "gotype \<Rightarrow> gotype" where
  "value_type t = (case underlying t of GoPointer u \<Rightarrow> u | _ \<Rightarrow> t)"

definition do_Has :: "do_value \<Rightarrow> string \<Rightarrow> bool" where
  "do_Has v name \<longleftrightarrow> do_field v name \<noteq> None \<and> map_of (dv_states v) name \<noteq> None"

definition do_IsNull :: "do_value \<Rightarrow> string \<Rightarrow> bool" where
  "do_IsNull v name \<longleftrightarrow> do_field v name \<noteq> None \<and> map_of (dv_states v) name = Some DoNull"

text \<open>Nil maps, pointers and slices.\<close>

definition isTypedNil :: "goval \<Rightarrow> bool" where
  "isTypedNil x = (case x of VNil t \<Rightarrow> (case underlying t of GoOther _ \<Rightarrow> False | _ \<Rightarrow> True) | _ \<Rightarrow> False)"

definition setNull :: "entity_field \<Rightarrow> do_value \<Rightarrow> (go_error, do_value) result" where
  "setNull f v = (if \<not> ef_Nullable f then Inl (core ''null not allowed'')
     else Inr (v\<lparr>dv_states := mput (ef_Name f) DoNull (dv_states v)\<rparr>))"

definition SetColumn :: "string \<Rightarrow> goval option \<Rightarrow> do_value \<Rightarrow> (go_error, do_value) result" where
  "SetColumn name x v =
    (case do_field v name of
       None \<Rightarrow> Inl (core ''field missing'')
     | Some f \<Rightarrow>
         (case x of
            None \<Rightarrow> setNull f v
          | Some y \<Rightarrow>
              if isTypedNil y then
                (if type_of y \<noteq> ef_GoType f \<and> type_of y \<noteq> value_type (ef_GoType f) then Inl (core ''field type'') else setNull f v)
              else if type_of y \<noteq> value_type (ef_GoType f) then Inl (core ''field type'')
              else Inr (v\<lparr>dv_states := mput name (DoValue y) (dv_states v)\<rparr>)))"


section \<open>What compilation guarantees\<close>

definition logical_fits :: "logical_type \<Rightarrow> gotype \<Rightarrow> bool" where
  "logical_fits l t =
    (case l of
       LogicalTime \<Rightarrow> t = time_type \<or> t = gtime_type
     | LogicalBytes \<Rightarrow> is_byte_slice t
     | LogicalJSON \<Rightarrow> (case underlying t of GoSlice _ \<Rightarrow> True | GoMap k _ \<Rightarrow> underlying k = GoBasic KString | _ \<Rightarrow> False)
     | LogicalBool \<Rightarrow> underlying t = GoBasic KBool
     | LogicalString \<Rightarrow> underlying t = GoBasic KString
     | LogicalFloat \<Rightarrow> (case underlying t of GoBasic k \<Rightarrow> is_float k | _ \<Rightarrow> False)
     | LogicalInt \<Rightarrow> (case underlying t of GoBasic k \<Rightarrow> int_range k \<noteq> None | _ \<Rightarrow> False)
     | LogicalUint \<Rightarrow> (case underlying t of GoBasic k \<Rightarrow> uint_range k \<noteq> None | _ \<Rightarrow> False))"

definition field_ok :: "entity_field \<Rightarrow> bool" where
  "field_ok f \<longleftrightarrow> lowerCamelPattern (ef_Name f) \<and> ef_JSONName f = ef_Name f \<and>
     (ef_Persistent f \<longrightarrow> lowerCamelPattern (ef_Column f)) \<and> logical_fits (ef_LogicalType f) (value_type (ef_GoType f))"

text \<open>Keys are unique, the maps and the list of persistent fields are those of the field list.\<close>

definition fields_ok :: "metadata \<Rightarrow> bool" where
  "fields_ok d \<longleftrightarrow> list_all field_ok (md_Fields d) \<and> distinct (map ef_Name (md_Fields d)) \<and>
     md_PersistentFields d = filter ef_Persistent (md_Fields d) \<and> distinct (map ef_Column (md_PersistentFields d)) \<and>
     map_of (md_byName d) = map_of (map (\<lambda>f. (ef_Name f, f)) (md_Fields d)) \<and>
     map_of (md_byJSON d) = map_of (map (\<lambda>f. (ef_Name f, f)) (md_Fields d)) \<and>
     map_of (md_byColumn d) = map_of (map (\<lambda>f. (ef_Column f, f)) (md_PersistentFields d)) \<and>
     take 3 (md_Fields d) = baseFields \<and> md_Primary d = hd baseFields"

definition descriptor_ok :: "metadata \<Rightarrow> bool" where
  "descriptor_ok d \<longleftrightarrow> fields_ok d \<and> tableNamePattern (md_Table d) \<and> named_struct (md_EntityType d) \<and>
     distinct (map ix_Name (md_Indexes d)) \<and>
     (\<forall>ix \<in> set (md_Indexes d). ix_Fields ix \<noteq> [] \<and> distinct (ix_Fields ix) \<and>
        set (ix_Fields ix) \<subseteq> ef_Name ` set (md_PersistentFields d))"

lemma scalar_logical_fits: "underlying t = GoBasic k \<Longrightarrow> scalar_logical k = Some l \<Longrightarrow> logical_fits l t"
  by (cases k) (auto simp: logical_fits_def)

lemma inferLogicalType_fits:
  assumes "inferLogicalType t json transient = Inr (l, nullable)"
  shows "logical_fits l (value_type t) \<and> (nullable \<longleftrightarrow> (\<exists>u. underlying t = GoPointer u))"
proof -
  let ?n = "\<exists>u. underlying t = GoPointer u"
  have split: "(case underlying t of GoPointer u \<Rightarrow> (u, True) | _ \<Rightarrow> (t, False)) = (value_type t, ?n)"
    by (auto simp: value_type_def split: gotype.splits)
  have "nullable = ?n"
    using assms unfolding inferLogicalType_def split by (auto simp: Let_def split: if_splits gotype.splits option.splits)
  moreover have "logical_fits l (value_type t)"
  proof -
    consider "l = LogicalTime" "value_type t = time_type \<or> value_type t = gtime_type" | "l = LogicalBytes" "is_byte_slice (value_type t)"
      | "l = LogicalJSON" "case underlying (value_type t) of GoSlice _ \<Rightarrow> True | GoMap k _ \<Rightarrow> underlying k = GoBasic KString | _ \<Rightarrow> False"
      | k where "underlying (value_type t) = GoBasic k" "scalar_logical k = Some l"
      using assms unfolding inferLogicalType_def split by (auto simp: Let_def split: if_splits gotype.splits option.splits)
    then show ?thesis
    proof cases
      case 4
      then show ?thesis by (rule scalar_logical_fits)
    qed (auto simp: logical_fits_def)
  qed
  ultimately show ?thesis by blast
qed

lemma parseBusinessField_ok:
  assumes "parseBusinessField f = Inr e"
  shows "field_ok e \<and> \<not> ef_Primary e \<and> \<not> ef_SystemMaintained e \<and> ef_GoType e = sf_Type f \<and> ef_Name e = ef_JSONName e \<and>
    (ef_Nullable e \<longleftrightarrow> (\<exists>u. underlying (sf_Type f) = GoPointer u))"
proof -
  obtain name markers column l n c where parts: "lowerCamelPattern name" "parse_column f markers = Inr column"
      "inferLogicalType (sf_Type f) (cm_isJSON markers) (cm_isTransient markers) = Inr (l, n)"
    and e: "e = \<lparr>ef_Name = name, ef_JSONName = name, ef_Column = column, ef_Description = trim_space (tag_get f ''description''),
        ef_LogicalType = l, ef_GoType = sf_Type f, ef_Nullable = n, ef_Primary = False,
        ef_AutoIncrement = False, ef_SystemMaintained = False, ef_Persistent = (\<not> cm_isTransient markers), ef_Constraints = c\<rparr>"
    using assms by (auto simp: parseBusinessField_def Let_def bindE_Inr_iff split: option.splits if_splits sum.splits)
  have "\<not> cm_isTransient markers \<Longrightarrow> lowerCamelPattern column"
    using parts(2) by (auto simp: parse_column_def split: option.splits if_splits)
  then show ?thesis
    using inferLogicalType_fits [OF parts(3)] parts(1) by (auto simp: e field_ok_def)
qed

lemma map_of_append_new: "map_of (xs @ [(k, v)]) = (if map_of xs k = None then (map_of xs)(k \<mapsto> v) else map_of xs)"
  by (auto simp: map_add_def fun_eq_iff split: option.splits)

lemma add_field_ok:
  assumes "fields_ok d" "field_ok f" "add_field f d = Inr d'"
  shows "fields_ok d'"
proof -
  have names: "map_of (map (\<lambda>f. (ef_Name f, f)) (md_Fields d)) (ef_Name f) = None"
    and cols: "ef_Persistent f \<Longrightarrow> map_of (map (\<lambda>f. (ef_Column f, f)) (md_PersistentFields d)) (ef_Column f) = None"
    using assms by (auto simp: add_field_def fields_ok_def split: if_splits)
  have "ef_Name f \<notin> ef_Name ` set (md_Fields d)"
    using names by (auto simp: map_of_eq_None_iff image_image)
  moreover have "ef_Persistent f \<Longrightarrow> ef_Column f \<notin> ef_Column ` set (md_PersistentFields d)"
    using cols by (auto simp: map_of_eq_None_iff image_image)
  moreover have "take 3 (md_Fields d @ [f]) = baseFields"
  proof -
    have b: "take 3 (md_Fields d) = baseFields" using assms(1) by (simp add: fields_ok_def)
    from arg_cong [OF b, of length] have "3 \<le> length (md_Fields d)" by (simp add: baseFields_def)
    with b show ?thesis by simp
  qed
  ultimately have "list_all field_ok (md_Fields d @ [f])" "distinct (map ef_Name (md_Fields d @ [f]))" "take 3 (md_Fields d @ [f]) = baseFields"
      "ef_Persistent f \<Longrightarrow> distinct (map ef_Column (md_PersistentFields d @ [f]))"
    using assms(1,2) by (auto simp: fields_ok_def)
  moreover have "ef_JSONName f = ef_Name f" using assms(2) by (simp add: field_ok_def)
  moreover have pers: "md_PersistentFields d = filter ef_Persistent (md_Fields d)" and maps:
      "map_of (md_byName d) = map_of (map (\<lambda>f. (ef_Name f, f)) (md_Fields d))" "map_of (md_byJSON d) = map_of (map (\<lambda>f. (ef_Name f, f)) (md_Fields d))"
      "map_of (md_byColumn d) = map_of (map (\<lambda>f. (ef_Column f, f)) (md_PersistentFields d))" "md_Primary d = hd baseFields"
      "distinct (map ef_Column (md_PersistentFields d))"
    using assms(1) unfolding fields_ok_def by blast+
  moreover have "map_of (map (\<lambda>f. (ef_Name f, f)) (md_Fields d @ [f])) = (map_of (map (\<lambda>f. (ef_Name f, f)) (md_Fields d)))(ef_Name f \<mapsto> f)"
    using names by (simp add: map_of_append_new del: map_of_append)
  moreover have "map_of (map (\<lambda>f. (ef_Column f, f)) (md_PersistentFields d @ [f])) =
      (map_of (map (\<lambda>f. (ef_Column f, f)) (md_PersistentFields d)))(ef_Column f \<mapsto> f)" if "ef_Persistent f"
    using cols [OF that] by (simp add: map_of_append_new del: map_of_append)
  moreover have "d' = d\<lparr>md_Fields := md_Fields d @ [f], md_byName := mput (ef_Name f) f (md_byName d), md_byJSON := mput (ef_Name f) f (md_byJSON d),
      md_PersistentFields := md_PersistentFields d @ [f], md_byColumn := mput (ef_Column f) f (md_byColumn d)\<rparr>" if "ef_Persistent f"
    using assms(2,3) that by (auto simp: add_field_def field_ok_def split: if_splits)
  moreover have "d' = d\<lparr>md_Fields := md_Fields d @ [f], md_byName := mput (ef_Name f) f (md_byName d), md_byJSON := mput (ef_Name f) f (md_byJSON d)\<rparr>"
    if "\<not> ef_Persistent f"
    using assms(2,3) that by (auto simp: add_field_def field_ok_def split: if_splits)
  ultimately show ?thesis
    by (cases d; cases "ef_Persistent f") (simp_all only: fields_ok_def metadata.simps map_of_mput filter.simps filter_append if_True if_False append_Nil2 simp_thms)
qed

lemma fields_loop_ok: "fields_loop fs d = Inr d' \<Longrightarrow> fields_ok d \<Longrightarrow> fields_ok d'"
  by (induction fs d rule: fields_loop.induct) (auto simp: bindE_Inr_iff dest: parseBusinessField_ok add_field_ok)

lemma add_field_frame: "add_field f d = Inr d' \<Longrightarrow> md_Table d' = md_Table d \<and> md_EntityType d' = md_EntityType d"
  by (auto simp: add_field_def Let_def split: if_splits)

lemma fields_loop_frame: "fields_loop fs d = Inr d' \<Longrightarrow> md_Table d' = md_Table d \<and> md_EntityType d' = md_EntityType d"
  by (induction fs d rule: fields_loop.induct) (auto simp: bindE_Inr_iff dest: add_field_frame)

lemma lower_names: "lowerCamelPattern ''id''" "lowerCamelPattern ''createTime''" "lowerCamelPattern ''updateTime''"
  by code_simp+

lemma baseFields_ok: "list_all field_ok baseFields" "distinct (map ef_Name baseFields)" "distinct (map ef_Column baseFields)"
  by code_simp+

lemma base_descriptor_ok: "fields_ok (base_descriptor t table description)"
proof -
  have "filter ef_Persistent baseFields = baseFields" by (simp add: baseFields_def base_field_def)
  moreover have "map (\<lambda>f. (ef_JSONName f, f)) baseFields = map (\<lambda>f. (ef_Name f, f)) baseFields"
    by (simp add: baseFields_def base_field_def)
  moreover have "take 3 baseFields = baseFields" by (simp add: baseFields_def)
  ultimately show ?thesis
    using baseFields_ok by (simp only: fields_ok_def base_descriptor_def metadata.simps simp_thms)
qed

definition index_ok :: "metadata \<Rightarrow> entity_index \<Rightarrow> bool" where
  "index_ok d ix \<longleftrightarrow> ix_Fields ix \<noteq> [] \<and> distinct (ix_Fields ix) \<and> set (ix_Fields ix) \<subseteq> ef_Name ` set (md_PersistentFields d)"

lemma index_fields_ok:
  "index_fields known seen fs = Inr u \<Longrightarrow> distinct fs \<and> set fs \<inter> set seen = {} \<and> set fs \<subseteq> fst ` set known"
  by (induction known seen fs rule: index_fields.induct) (auto simp: map_of_eq_None_iff split: if_splits)

lemma indexes_loop_ok:
  assumes "indexes_loop (map (\<lambda>f. (ef_Name f, f)) (md_PersistentFields d)) built ixs = Inr out"
    and "distinct (map ix_Name built)" "\<forall>ix \<in> set built. index_ok d ix"
  shows "distinct (map ix_Name out) \<and> (\<forall>ix \<in> set out. index_ok d ix)"
  using assms
proof (induction ixs arbitrary: built)
  case (Cons ix ixs)
  have "index_ok d ix"
    using Cons.prems(1) index_fields_ok [of "map (\<lambda>f. (ef_Name f, f)) (md_PersistentFields d)" "[]" "ix_Fields ix"]
    by (auto simp: index_ok_def bindE_Inr_iff image_image split: if_splits)
  then show ?case
    using Cons.prems by (intro Cons.IH [of "built @ [ix]"]) (auto simp: bindE_Inr_iff split: if_splits)
qed simp

lemma Compile_ok:
  assumes "Compile t fs idType schema = Inr d" "named_struct t"
  shows "descriptor_ok d \<and> md_EntityType d = t"
proof -
  obtain m hasBase business where loop0: "struct_loop fs None False [] = Inr (m, hasBase, business)"
    and rest: "(case m of None \<Rightarrow> Inl (core ''meta missing'')
       | Some (table, description) \<Rightarrow>
           if \<not> hasBase then Inl (core ''base missing'')
           else bindE (fields_loop business (base_descriptor t table description)) (\<lambda>d.
             bindE (compileIndexes table schema (map (\<lambda>f. (ef_Name f, f)) (md_PersistentFields d))) (\<lambda>ixs.
             Inr (d\<lparr>md_Indexes := ixs\<rparr>)))) = Inr d"
    using assms(1) by (cases "struct_loop fs None False []") (auto simp: Compile_def split: if_splits)
  obtain table description where m: "m = Some (table, description)" using rest by (cases m) auto
  obtain d1 ixs where loop: "struct_loop fs None False [] = Inr (Some (table, description), hasBase, business)"
    and fields: "fields_loop business (base_descriptor t table description) = Inr d1"
    and ixs: "compileIndexes table schema (map (\<lambda>f. (ef_Name f, f)) (md_PersistentFields d1)) = Inr ixs" and d: "d = d1\<lparr>md_Indexes := ixs\<rparr>"
    using rest loop0 by (auto simp: m bindE_Inr_iff split: if_splits)
  have meta: "struct_loop fs m b bs = Inr (Some (table, description), b', bs') \<Longrightarrow>
      m = None \<or> tableNamePattern (fst (the m)) \<Longrightarrow> tableNamePattern table" for m b bs b' bs'
    by (induction fs m b bs rule: struct_loop.induct) (auto simp: bindE_Inr_iff parseMeta_def Let_def split: if_splits option.splits)
  have f: "fields_ok d1" using fields_loop_ok [OF fields base_descriptor_ok] .
  have "index_ok d1 (IndexOf (''idx_'' @ table @ ''_create_time'') [''createTime''])" "index_ok d1 (IndexOf (''idx_'' @ table @ ''_update_time'') [''updateTime''])"
  proof -
    have "set (take 3 (md_Fields d1)) \<subseteq> set (md_Fields d1)" by (rule set_take_subset)
    moreover have "list_all ef_Persistent baseFields" by (simp add: baseFields_def base_field_def)
    ultimately have "set baseFields \<subseteq> set (md_PersistentFields d1)"
      using f by (auto simp: fields_ok_def list_all_iff)
    from image_mono [OF this, of ef_Name] have "{''createTime'', ''updateTime''} \<subseteq> ef_Name ` set (md_PersistentFields d1)"
      by (simp add: baseFields_def base_field_def)
    then show "index_ok d1 (IndexOf (''idx_'' @ table @ ''_create_time'') [''createTime''])" "index_ok d1 (IndexOf (''idx_'' @ table @ ''_update_time'') [''updateTime''])"
      by (simp_all add: index_ok_def IndexOf_def)
  qed
  then have "distinct (map ix_Name ixs) \<and> (\<forall>ix \<in> set ixs. index_ok d1 ix)"
    using ixs by (intro indexes_loop_ok) (auto simp: compileIndexes_def IndexOf_def)
  then show ?thesis
    using f meta [OF loop] assms(2) fields_loop_frame [OF fields]
    by (auto simp: d descriptor_ok_def fields_ok_def index_ok_def base_descriptor_def)
qed

lemma md_Field_iff:
  assumes "descriptor_ok d"
  shows "md_Field d name = Some f \<longleftrightarrow> f \<in> set (md_Fields d) \<and> ef_Name f = name"
proof -
  have d: "distinct (map fst (map (\<lambda>f. (ef_Name f, f)) (md_Fields d)))" "map_of (md_byName d) = map_of (map (\<lambda>f. (ef_Name f, f)) (md_Fields d))"
    using assms by (auto simp: descriptor_ok_def fields_ok_def comp_def)
  show ?thesis unfolding md_Field_def d(2) by (subst map_of_eq_Some_iff [OF d(1)]) auto
qed

lemma md_byJSON_iff:
  assumes "descriptor_ok d"
  shows "map_of (md_byJSON d) name = md_Field d name"
  using assms by (simp add: md_Field_def descriptor_ok_def fields_ok_def)

lemma field_ok_member: "descriptor_ok d \<Longrightarrow> f \<in> set (md_Fields d) \<Longrightarrow> field_ok f"
  by (simp add: descriptor_ok_def fields_ok_def list_all_iff)

lemma persistent_member: "descriptor_ok d \<Longrightarrow> f \<in> set (md_PersistentFields d) \<longleftrightarrow> f \<in> set (md_Fields d) \<and> ef_Persistent f"
  by (auto simp: descriptor_ok_def fields_ok_def)

lemma primary_member: "descriptor_ok d \<Longrightarrow> md_Primary d \<in> set (md_Fields d) \<and> ef_Persistent (md_Primary d)"
  using set_take_subset [of 3 "md_Fields d"] by (auto simp: descriptor_ok_def fields_ok_def baseFields_def base_field_def)

lemma do_field_eq: "descriptor_ok d \<Longrightarrow> dv_shape v = d \<Longrightarrow>
    do_field v name = Some f \<longleftrightarrow> f \<in> set (md_PersistentFields d) \<and> ef_Name f = name"
proof -
  assume d: "descriptor_ok d" "dv_shape v = d"
  have "distinct (map ef_Name (md_PersistentFields d))"
    using d(1) by (auto simp: descriptor_ok_def fields_ok_def distinct_map inj_on_def)
  then show ?thesis
    unfolding do_field_def d(2) by (induction "md_PersistentFields d" arbitrary: d) (auto simp: find_Some_iff distinct_conv_nth in_set_conv_nth)
qed


end
