(* ===== verification/Crud_Ast.thy ===== *)
theory Crud_Ast
  imports Entity_Descriptor
begin

text \<open>
  The query language of \<open>cool-next/crud\<close> (\<open>ast.go\<close>, \<open>query.go\<close>, \<open>request.go\<close>, \<open>config.go\<close>): columns,
  conditions, selections, joins and orders with their constructors, the builder that extenders
  append to, and the submitted request.

  A constructor that panics gives the error it panics with. Copies of slices are left out, since
  values are immutable here. Conditions and selections can be made only by the constructors of
  the package; a nil one is \<open>None\<close>.
\<close>

section \<open>Columns\<close>

record column_ref =
  cr_name :: string
  cr_entityType :: "gotype option"
  cr_alias :: string

definition no_column :: column_ref where
  "no_column = \<lparr>cr_name = [], cr_entityType = None, cr_alias = []\<rparr>"

definition checkName :: "string \<Rightarrow> (go_error, unit) result" where
  "checkName name = guardE (lowerCamelPattern name) (core ''name invalid'')"

definition checkEntityType :: "gotype option \<Rightarrow> (go_error, unit) result" where
  "checkEntityType t = (case t of None \<Rightarrow> Inl (core ''entity type'') | Some u \<Rightarrow> guardE (named_struct u) (core ''entity type''))"

definition checkColumn :: "column_ref \<Rightarrow> (go_error, unit) result" where
  "checkColumn c =
    (if \<not> lowerCamelPattern (cr_name c) then Inl (core ''column reference invalid'')
     else bindE (if cr_entityType c \<noteq> None then checkEntityType (cr_entityType c) else Inr ()) (\<lambda>_.
       if cr_alias c \<noteq> [] then checkName (cr_alias c) else Inr ()))"

definition NewColumnRef :: "string \<Rightarrow> (go_error, column_ref) result" where
  "NewColumnRef name = bindE (checkName name) (\<lambda>_. Inr \<lparr>cr_name = name, cr_entityType = None, cr_alias = []\<rparr>)"

definition NewColumnRefOf :: "gotype \<Rightarrow> string \<Rightarrow> (go_error, column_ref) result" where
  "NewColumnRefOf t name = bindE (NewColumnRef name) (\<lambda>c. bindE (checkEntityType (Some t)) (\<lambda>_. Inr (c\<lparr>cr_entityType := Some t\<rparr>)))"

definition column_Of :: "column_ref \<Rightarrow> string \<Rightarrow> (go_error, column_ref) result" where
  "column_Of c alias = bindE (checkColumn c) (\<lambda>_. bindE (checkName alias) (\<lambda>_. Inr (c\<lparr>cr_alias := alias\<rparr>)))"

section \<open>Conditions\<close>

datatype cond_operator =
    OpEQ | OpNE | OpGT | OpGTE | OpLT | OpLTE | OpIn | OpLike | OpRaw | OpOn | OpKeyword

record condition_node =
  cn_operator :: cond_operator
  cn_column :: column_ref
  cn_right :: column_ref
  cn_value :: "goval option"
  cn_expression :: string
  cn_arguments :: "goval option list"

definition new_condition :: "cond_operator \<Rightarrow> column_ref \<Rightarrow> goval option \<Rightarrow> condition_node" where
  "new_condition operator c v = \<lparr>cn_operator = operator, cn_column = c, cn_right = no_column, cn_value = v,
     cn_expression = [], cn_arguments = []\<rparr>"

definition crud_compare :: "cond_operator \<Rightarrow> column_ref \<Rightarrow> goval option \<Rightarrow> (go_error, condition_node) result" where
  "crud_compare operator c v = bindE (checkColumn c) (\<lambda>_.
     if operator \<in> {OpEQ, OpNE, OpGT, OpGTE, OpLT, OpLTE} then Inr (new_condition operator c v)
     else Inl (core ''comparison operator''))"

definition EqValue :: "column_ref \<Rightarrow> goval option \<Rightarrow> (go_error, condition_node) result" where
  "EqValue = crud_compare OpEQ"

definition NeValue :: "column_ref \<Rightarrow> goval option \<Rightarrow> (go_error, condition_node) result" where
  "NeValue = crud_compare OpNE"

text \<open>The elements of a slice or an array; a nil slice has none.\<close>

definition elements :: "goval option \<Rightarrow> goval option list option" where
  "elements x =
    (case x of
       Some (VList t xs) \<Rightarrow> Some xs
     | Some (VNil t) \<Rightarrow> (case underlying t of GoSlice _ \<Rightarrow> Some [] | _ \<Rightarrow> None)
     | _ \<Rightarrow> None)"

definition crud_In :: "column_ref \<Rightarrow> goval option \<Rightarrow> (go_error, condition_node) result" where
  "crud_In c v = bindE (checkColumn c) (\<lambda>_.
     if elements v = None \<or> elements v = Some [] then Inl (core ''in values'') else Inr (new_condition OpIn c v))"

definition LikeValue :: "column_ref \<Rightarrow> string \<Rightarrow> (go_error, condition_node) result" where
  "LikeValue c v = bindE (checkColumn c) (\<lambda>_. Inr (new_condition OpLike c (Some (go_string v))))"

definition RawWhere :: "string \<Rightarrow> goval option list \<Rightarrow> (go_error, condition_node) result" where
  "RawWhere expression arguments =
    (if trim_space expression = [] then Inl (core ''raw expression empty'')
     else Inr ((new_condition OpRaw no_column None)\<lparr>cn_expression := expression, cn_arguments := arguments\<rparr>))"

definition On :: "column_ref \<Rightarrow> column_ref \<Rightarrow> (go_error, condition_node) result" where
  "On l r = bindE (checkColumn l) (\<lambda>_. bindE (checkColumn r) (\<lambda>_. Inr ((new_condition OpOn l None)\<lparr>cn_right := r\<rparr>)))"

definition requireConditions :: "condition_node option list \<Rightarrow> (go_error, condition_node list) result" where
  "requireConditions cs = (case those cs of None \<Rightarrow> Inl (core ''condition nil'') | Some ds \<Rightarrow> Inr ds)"

definition Where :: "condition_node option list \<Rightarrow> (go_error, condition_node list) result" where
  "Where cs = (if cs = [] then Inl (core ''where empty'') else requireConditions cs)"

section \<open>Selections, joins and orders\<close>

datatype select_field = AllSelect string | AliasedSelect column_ref string

definition crud_All :: "string \<Rightarrow> (go_error, select_field) result" where
  "crud_All alias = bindE (checkName alias) (\<lambda>_. Inr (AllSelect alias))"

definition crud_As :: "column_ref \<Rightarrow> string \<Rightarrow> (go_error, select_field) result" where
  "crud_As c alias = bindE (checkColumn c) (\<lambda>_. bindE (checkName alias) (\<lambda>_. Inr (AliasedSelect c alias)))"

definition JoinLeft :: string where "JoinLeft = ''left''"
definition JoinInner :: string where "JoinInner = ''inner''"
definition Ascending :: string where "Ascending = ''asc''"
definition Descending :: string where "Descending = ''desc''"

text \<open>Of the entity of a join only the type matters; a nil entity has none.\<close>

record join_op =
  jo_Entity :: "gotype option"
  jo_Alias :: string
  jo_Condition :: "condition_node option"
  jo_Type :: string

definition checkJoin :: "join_op \<Rightarrow> (go_error, unit) result" where
  "checkJoin j =
    (if jo_Type j \<noteq> JoinLeft \<and> jo_Type j \<noteq> JoinInner then Inl (core ''join type'')
     else bindE (checkEntityType (jo_Entity j)) (\<lambda>_. bindE (checkName (jo_Alias j)) (\<lambda>_.
       (case jo_Condition j of
          None \<Rightarrow> Inl (core ''join condition'')
        | Some c \<Rightarrow> guardE (cn_operator c = OpOn) (core ''join condition'')))))"

definition newJoin :: "string \<Rightarrow> gotype option \<Rightarrow> string \<Rightarrow> condition_node option \<Rightarrow> (go_error, join_op) result" where
  "newJoin ty entity alias c =
    (let j = \<lparr>jo_Entity = entity, jo_Alias = alias, jo_Condition = c, jo_Type = ty\<rparr> in bindE (checkJoin j) (\<lambda>_. Inr j))"

definition LeftJoin :: "gotype option \<Rightarrow> string \<Rightarrow> condition_node option \<Rightarrow> (go_error, join_op) result" where
  "LeftJoin = newJoin JoinLeft"

definition InnerJoin :: "gotype option \<Rightarrow> string \<Rightarrow> condition_node option \<Rightarrow> (go_error, join_op) result" where
  "InnerJoin = newJoin JoinInner"

record order_op =
  oo_Column :: column_ref
  oo_Direction :: string

definition checkOrder :: "order_op \<Rightarrow> (go_error, unit) result" where
  "checkOrder o1 = bindE (checkColumn (oo_Column o1)) (\<lambda>_.
     guardE (oo_Direction o1 = Ascending \<or> oo_Direction o1 = Descending) (core ''order direction''))"

definition newOrder :: "column_ref \<Rightarrow> string \<Rightarrow> (go_error, order_op) result" where
  "newOrder c d = (let o1 = \<lparr>oo_Column = c, oo_Direction = d\<rparr> in bindE (checkOrder o1) (\<lambda>_. Inr o1))"

definition Asc :: "column_ref \<Rightarrow> (go_error, order_op) result" where "Asc c = newOrder c Ascending"
definition Desc :: "column_ref \<Rightarrow> (go_error, order_op) result" where "Desc c = newOrder c Descending"

section \<open>Requests\<close>

record request_value =
  rv_isNull :: bool
  rv_isSubmitted :: bool
  rv_name :: string
  rv_value :: "goval option"

type_synonym query_request = "(string, goval option) gomap"

definition RequestField :: "string \<Rightarrow> goval option \<Rightarrow> request_value" where
  "RequestField name v = \<lparr>rv_isNull = False, rv_isSubmitted = True, rv_name = name, rv_value = v\<rparr>"

definition RequestNull :: "string \<Rightarrow> request_value" where
  "RequestNull name = \<lparr>rv_isNull = True, rv_isSubmitted = True, rv_name = name, rv_value = None\<rparr>"

fun request_loop :: "query_request \<Rightarrow> request_value list \<Rightarrow> (go_error, query_request) result" where
  "request_loop req [] = Inr req"
| "request_loop req (item # items) =
    (if \<not> rv_isSubmitted item then Inl (exc_Validate ''request field invalid'' None)
     else if \<not> lowerCamelPattern (rv_name item) then Inl (exc_Validate ''request field name'' None)
     else if \<not> rv_isNull item \<and> rv_value item = None then Inl (exc_Validate ''request nil'' None)
     else if map_of req (rv_name item) \<noteq> None then Inl (exc_Validate ''request field duplicate'' None)
     else request_loop (mput (rv_name item) (if rv_isNull item then None else rv_value item) req) items)"

definition NewQueryRequest :: "request_value list \<Rightarrow> (go_error, query_request) result" where
  "NewQueryRequest = request_loop []"

text \<open>\<open>Value\<close>: \<open>None\<close> if not submitted, \<open>Some None\<close> for null.\<close>

definition request_Value :: "query_request option \<Rightarrow> string \<Rightarrow> goval option option" where
  "request_Value req name = (case req of None \<Rightarrow> None | Some m \<Rightarrow> map_of m name)"

definition request_Has :: "query_request option \<Rightarrow> string \<Rightarrow> bool" where
  "request_Has req name \<longleftrightarrow> request_Value req name \<noteq> None"

definition request_String :: "query_request option \<Rightarrow> string \<Rightarrow> string option" where
  "request_String req name = (case request_Value req name of Some x \<Rightarrow> as_string x | None \<Rightarrow> None)"

definition request_Strings :: "query_request option \<Rightarrow> string \<Rightarrow> string list option" where
  "request_Strings req name = (case request_Value req name of Some x \<Rightarrow> as_strings x | None \<Rightarrow> None)"

section \<open>Query declarations\<close>

record field_match =
  fm_Column :: column_ref
  fm_RequestParam :: string

definition newFieldMatch :: "column_ref \<Rightarrow> string \<Rightarrow> (go_error, field_match) result" where
  "newFieldMatch c param = bindE (checkColumn c) (\<lambda>_.
     if \<not> lowerCamelPattern param then Inl (core ''request param'') else Inr \<lparr>fm_Column = c, fm_RequestParam = param\<rparr>)"

definition crud_Eq :: "column_ref \<Rightarrow> (go_error, field_match) result" where
  "crud_Eq c = newFieldMatch c (cr_name c)"

definition crud_Like :: "column_ref \<Rightarrow> (go_error, field_match) result" where
  "crud_Like c = newFieldMatch c (cr_name c)"

record query_builder =
  qb_where :: "condition_node list"
  qb_selects :: "select_field list"
  qb_joins :: "join_op list"
  qb_groupBy :: "column_ref list"
  qb_having :: "condition_node list"
  qb_orderBy :: "order_op list"

definition empty_builder :: query_builder where
  "empty_builder = \<lparr>qb_where = [], qb_selects = [], qb_joins = [], qb_groupBy = [], qb_having = [], qb_orderBy = []\<rparr>"

definition builder_Where :: "condition_node option list \<Rightarrow> query_builder \<Rightarrow> (go_error, query_builder) result" where
  "builder_Where cs b = bindE (requireConditions cs) (\<lambda>ds. Inr (b\<lparr>qb_where := qb_where b @ ds\<rparr>))"

definition builder_WhereGT :: "column_ref \<Rightarrow> goval option \<Rightarrow> query_builder \<Rightarrow> (go_error, query_builder) result" where
  "builder_WhereGT c v b = bindE (crud_compare OpGT c v) (\<lambda>d. builder_Where [Some d] b)"

definition builder_WhereGTE :: "column_ref \<Rightarrow> goval option \<Rightarrow> query_builder \<Rightarrow> (go_error, query_builder) result" where
  "builder_WhereGTE c v b = bindE (crud_compare OpGTE c v) (\<lambda>d. builder_Where [Some d] b)"

definition builder_WhereLT :: "column_ref \<Rightarrow> goval option \<Rightarrow> query_builder \<Rightarrow> (go_error, query_builder) result" where
  "builder_WhereLT c v b = bindE (crud_compare OpLT c v) (\<lambda>d. builder_Where [Some d] b)"

definition builder_WhereLTE :: "column_ref \<Rightarrow> goval option \<Rightarrow> query_builder \<Rightarrow> (go_error, query_builder) result" where
  "builder_WhereLTE c v b = bindE (crud_compare OpLTE c v) (\<lambda>d. builder_Where [Some d] b)"

definition builder_AddSelect :: "select_field option list \<Rightarrow> query_builder \<Rightarrow> (go_error, query_builder) result" where
  "builder_AddSelect fs b = (case those fs of None \<Rightarrow> Inl (core ''select nil'') | Some gs \<Rightarrow> Inr (b\<lparr>qb_selects := qb_selects b @ gs\<rparr>))"

definition builder_AddJoin :: "join_op list \<Rightarrow> query_builder \<Rightarrow> (go_error, query_builder) result" where
  "builder_AddJoin js b = bindE (eachE checkJoin js) (\<lambda>_. Inr (b\<lparr>qb_joins := qb_joins b @ js\<rparr>))"

definition builder_AddGroupBy :: "column_ref list \<Rightarrow> query_builder \<Rightarrow> (go_error, query_builder) result" where
  "builder_AddGroupBy cs b = bindE (eachE checkColumn cs) (\<lambda>_. Inr (b\<lparr>qb_groupBy := qb_groupBy b @ cs\<rparr>))"

definition builder_AddHaving :: "condition_node option list \<Rightarrow> query_builder \<Rightarrow> (go_error, query_builder) result" where
  "builder_AddHaving cs b = bindE (requireConditions cs) (\<lambda>ds. Inr (b\<lparr>qb_having := qb_having b @ ds\<rparr>))"

definition builder_AddOrderBy :: "order_op list \<Rightarrow> query_builder \<Rightarrow> (go_error, query_builder) result" where
  "builder_AddOrderBy os b = bindE (eachE checkOrder os) (\<lambda>_. Inr (b\<lparr>qb_orderBy := qb_orderBy b @ os\<rparr>))"

datatype query_shape = ShapeNone | ShapeStatic | ShapeDynamic

text \<open>An extender appends to the builder or fails.\<close>

record query_op =
  qo_KeyWordLikeFields :: "column_ref list"
  qo_Where :: "condition_node list option"
  qo_Select :: "select_field option list"
  qo_FieldLike :: "field_match list"
  qo_FieldEq :: "field_match list"
  qo_AddOrderBy :: "order_op list"
  qo_Join :: "join_op list"
  qo_Extend :: "(query_request option \<Rightarrow> query_builder \<Rightarrow> (go_error, query_builder) result) option"
  qo_shape :: query_shape

definition StaticShape :: "query_op \<Rightarrow> query_op" where
  "StaticShape q = q\<lparr>qo_shape := ShapeStatic\<rparr>"

definition DynamicShape :: "query_op \<Rightarrow> query_op" where
  "DynamicShape q = q\<lparr>qo_shape := ShapeDynamic\<rparr>"

section \<open>Limits\<close>

definition maxBodyLimit :: int where "maxBodyLimit = 8 * 1024 * 1024"
definition maxMultipartBytes :: int where "maxMultipartBytes = 101 * 1024 * 1024"
definition maxBatchLimit :: int where "maxBatchLimit = 1000"
definition maxPageLimit :: int where "maxPageLimit = 10000"
definition maxListLimit :: int where "maxListLimit = 1000"
definition maxExportLimit :: int where "maxExportLimit = 10000"

record crud_config =
  cf_SoftDelete :: bool
  cf_BodyLimit :: int
  cf_MultipartBodyLimit :: int
  cf_BatchLimit :: int
  cf_PageSize :: int
  cf_PageLimit :: int
  cf_ListLimit :: int
  cf_ExportLimit :: int

definition crud_DefaultConfig :: crud_config where
  "crud_DefaultConfig = \<lparr>cf_SoftDelete = True, cf_BodyLimit = maxBodyLimit, cf_MultipartBodyLimit = maxMultipartBytes,
     cf_BatchLimit = maxBatchLimit, cf_PageSize = 15, cf_PageLimit = maxPageLimit, cf_ListLimit = maxListLimit,
     cf_ExportLimit = maxExportLimit\<rparr>"

definition crud_Validate :: "crud_config \<Rightarrow> (go_error, unit) result" where
  "crud_Validate c =
    (if cf_BodyLimit c \<le> 0 \<or> maxBodyLimit < cf_BodyLimit c then Inl (core ''body limit'')
     else if cf_MultipartBodyLimit c \<le> 0 \<or> maxMultipartBytes < cf_MultipartBodyLimit c then Inl (core ''multipart limit'')
     else if cf_BatchLimit c \<le> 0 \<or> maxBatchLimit < cf_BatchLimit c then Inl (core ''batch limit'')
     else if cf_PageSize c \<le> 0 \<or> cf_PageLimit c < cf_PageSize c then Inl (core ''page size'')
     else if cf_PageLimit c \<le> 0 \<or> maxPageLimit < cf_PageLimit c then Inl (core ''page limit'')
     else if cf_ListLimit c \<le> 0 \<or> maxListLimit < cf_ListLimit c then Inl (core ''list limit'')
     else if cf_ExportLimit c \<le> 0 \<or> maxExportLimit < cf_ExportLimit c then Inl (core ''export limit'')
     else Inr ())"

end
