(* ===== verification/Crud_Plan.thy ===== *)
theory Crud_Plan
  imports Crud_Ast
begin

text \<open>
  The compiler of query plans (\<open>cool-next/crud/plan.go\<close>): a declared query, what its extender appends
  and the submitted request become a plan of resolved columns and typed values, within bounds on
  joins, nodes and bindings.

  The registry of descriptors is the parameter \<open>resolver\<close>, from entity types to metadata. The
  compiler's state is threaded through its steps; after an error it is not used again, so that
  what the code undoes on errors is left out. Values are immutable and copies left out.
\<close>

fun foldE :: "('a \<Rightarrow> 's \<Rightarrow> ('e, 's) result) \<Rightarrow> 'a list \<Rightarrow> 's \<Rightarrow> ('e, 's) result" where
  "foldE f [] s = Inr s"
| "foldE f (x # xs) s = bindE (f x s) (foldE f xs)"

section \<open>Plans\<close>

record plan_entity =
  pe_table :: string
  pe_alias :: string
  pe_entityType :: gotype

record resolved_entity =
  re_entity :: plan_entity
  re_metadata :: metadata

record plan_column =
  pl_table :: string
  pl_alias :: string
  pl_column :: string
  pl_name :: string
  pl_jsonName :: string
  pl_goType :: gotype
  pl_logicalType :: logical_type
  pl_nullable :: bool

record plan_join =
  pj_type :: string
  pj_table :: string
  pj_alias :: string
  pj_left :: plan_column
  pj_right :: plan_column

record plan_select =
  ps_column :: plan_column
  ps_alias :: string

record plan_condition =
  pn_operator :: cond_operator
  pn_column :: "plan_column option"
  pn_columns :: "plan_column list"
  pn_value :: "goval option"
  pn_expression :: string
  pn_arguments :: "goval option list"

record plan_order =
  po_column :: plan_column
  po_direction :: string

record query_plan =
  qp_root :: plan_entity
  qp_joins :: "plan_join list"
  qp_selects :: "plan_select list"
  qp_where :: "plan_condition list"
  qp_groupBy :: "plan_column list"
  qp_having :: "plan_condition list"
  qp_orderBy :: "plan_order list"

record plan_compiler =
  pc_aliases :: "(string, resolved_entity) gomap"
  pc_plan :: query_plan
  pc_nodeCount :: int
  pc_bindingCount :: int

definition maxQueryPlanJoins :: nat where "maxQueryPlanJoins = 8"
definition maxQueryPlanNodes :: int where "maxQueryPlanNodes = 128"
definition maxPlanBindings :: int where "maxPlanBindings = 1000"
definition rootQueryAlias :: string where "rootQueryAlias = ''a''"

definition new_plan_condition :: "cond_operator \<Rightarrow> plan_column \<Rightarrow> goval option \<Rightarrow> plan_condition" where
  "new_plan_condition operator c v = \<lparr>pn_operator = operator, pn_column = Some c, pn_columns = [], pn_value = v,
     pn_expression = [], pn_arguments = []\<rparr>"

section \<open>Values\<close>

definition requestInt64 :: "goval \<Rightarrow> int option" where
  "requestInt64 x =
    (case x of
       VInt t n \<Rightarrow> (if n \<le> 2 ^ 63 - 1 then Some n else None)
     | VFloat t f \<Rightarrow> (case whole f of None \<Rightarrow> None | Some n \<Rightarrow> if n < - (2 ^ 63) \<or> 2 ^ 63 \<le> n then None else Some n)
     | _ \<Rightarrow> None)"

definition requestUint64 :: "goval \<Rightarrow> int option" where
  "requestUint64 x =
    (case x of
       VInt t n \<Rightarrow> (if n < 0 then None else Some n)
     | VFloat t f \<Rightarrow> (case whole f of None \<Rightarrow> None | Some n \<Rightarrow> if n < 0 \<or> 2 ^ 64 \<le> n then None else Some n)
     | _ \<Rightarrow> None)"

definition requestFloat64 :: "goval \<Rightarrow> goflt option" where
  "requestFloat64 x =
    (case x of
       VInt t n \<Rightarrow> Some (to_float64 n)
     | VFloat t (Finite m e) \<Rightarrow> Some (Finite m e)
     | _ \<Rightarrow> None)"

text \<open>A value for a column: as it is if its type fits, otherwise a number converted without overflow.\<close>

definition planValue :: "goval option \<Rightarrow> gotype \<Rightarrow> goval option" where
  "planValue x target =
    (case x of
       None \<Rightarrow> None
     | Some v \<Rightarrow>
         if isNilValue x then None
         else let t = value_type target in
           if assignable (type_of v) t then Some v
           else (case underlying t of
               GoBasic k \<Rightarrow>
                 if int_range k \<noteq> None then
                   (case requestInt64 v of None \<Rightarrow> None | Some n \<Rightarrow> if within (int_range k) n then Some (VInt t n) else None)
                 else if uint_range k \<noteq> None then
                   (case requestUint64 v of None \<Rightarrow> None | Some n \<Rightarrow> if within (uint_range k) n then Some (VInt t n) else None)
                 else if is_float k then
                   (case requestFloat64 v of None \<Rightarrow> None | Some f \<Rightarrow>
                      if overflow_float k f then None else Some (VFloat t (if k = KFloat32 then to_float32 f else f)))
                 else None
             | _ \<Rightarrow> None))"

text \<open>The type \<open>[]any\<close>.\<close>

definition any_slice :: gotype where
  "any_slice = GoSlice (GoOther 0)"

definition planValues :: "goval option \<Rightarrow> gotype \<Rightarrow> goval list option" where
  "planValues x target =
    (case elements x of
       None \<Rightarrow> None
     | Some xs \<Rightarrow> if xs = [] then None else those (map (\<lambda>y. planValue y target) xs))"

definition validPlanValue :: "goval option \<Rightarrow> gotype \<Rightarrow> bool" where
  "validPlanValue x target =
    (case x of None \<Rightarrow> False | Some v \<Rightarrow> \<not> isNilValue x \<and> assignable (type_of v) (value_type target))"

definition supportsOrdering :: "logical_type \<Rightarrow> bool" where
  "supportsOrdering l \<longleftrightarrow> l \<in> {LogicalInt, LogicalUint, LogicalFloat, LogicalString, LogicalTime}"

section \<open>Resolution\<close>

definition makePlanColumn :: "resolved_entity \<Rightarrow> entity_field \<Rightarrow> plan_column" where
  "makePlanColumn r f = \<lparr>pl_table = pe_table (re_entity r), pl_alias = pe_alias (re_entity r), pl_column = ef_Column f,
     pl_name = ef_Name f, pl_jsonName = ef_JSONName f, pl_goType = ef_GoType f, pl_logicalType = ef_LogicalType f,
     pl_nullable = ef_Nullable f\<rparr>"

definition resolveEntity :: "(gotype \<Rightarrow> metadata option) \<Rightarrow> gotype option \<Rightarrow> string \<Rightarrow> (go_error, resolved_entity) result" where
  "resolveEntity resolver entity alias =
    (case entity of
       None \<Rightarrow> Inl (core ''entity type invalid'')
     | Some t \<Rightarrow>
         if \<not> named_struct t then Inl (core ''entity type invalid'')
         else (case resolver t of
             None \<Rightarrow> Inl (core ''descriptor missing'')
           | Some d \<Rightarrow> Inr \<lparr>re_entity = \<lparr>pe_table = md_Table d, pe_alias = alias, pe_entityType = t\<rparr>, re_metadata = d\<rparr>))"

definition resolveColumn :: "plan_compiler \<Rightarrow> column_ref \<Rightarrow> (go_error, plan_column) result" where
  "resolveColumn pc ref =
    (case map_of (pc_aliases pc) (if cr_alias ref = [] then rootQueryAlias else cr_alias ref) of
       None \<Rightarrow> Inl (core ''alias missing'')
     | Some r \<Rightarrow>
         if cr_entityType ref \<noteq> None \<and> cr_entityType ref \<noteq> Some (pe_entityType (re_entity r)) then Inl (core ''entity of column'')
         else (case md_Field (re_metadata r) (cr_name ref) of
             None \<Rightarrow> Inl (core ''field missing'')
           | Some f \<Rightarrow> if \<not> ef_Persistent f then Inl (core ''field not persistent'') else Inr (makePlanColumn r f)))"

definition addNodes :: "nat \<Rightarrow> plan_compiler \<Rightarrow> (go_error, plan_compiler) result" where
  "addNodes count pc =
    (if maxQueryPlanNodes - int count < pc_nodeCount pc then Inl (core ''too many nodes'')
     else Inr (pc\<lparr>pc_nodeCount := pc_nodeCount pc + int count\<rparr>))"

definition addBindings :: "nat \<Rightarrow> bool \<Rightarrow> plan_compiler \<Rightarrow> (go_error, plan_compiler) result" where
  "addBindings count fromRequest pc =
    (if pc_bindingCount pc \<le> maxPlanBindings - int count then Inr (pc\<lparr>pc_bindingCount := pc_bindingCount pc + int count\<rparr>)
     else if fromRequest then Inl (exc_Validate ''too many bindings'' None) else Inl (core ''too many bindings''))"

definition newPlanCompiler :: "(gotype \<Rightarrow> metadata option) \<Rightarrow> gotype option \<Rightarrow> (go_error, plan_compiler) result" where
  "newPlanCompiler resolver entity =
    (if entity = None then Inl (core ''root entity nil'')
     else bindE (resolveEntity resolver entity rootQueryAlias) (\<lambda>root.
       Inr \<lparr>pc_aliases = [(rootQueryAlias, root)],
         pc_plan = \<lparr>qp_root = re_entity root, qp_joins = [], qp_selects = [], qp_where = [], qp_groupBy = [], qp_having = [], qp_orderBy = []\<rparr>,
         pc_nodeCount = 0, pc_bindingCount = 0\<rparr>))"

section \<open>Joins\<close>

definition compileJoin :: "(gotype \<Rightarrow> metadata option) \<Rightarrow> join_op \<Rightarrow> plan_compiler \<Rightarrow> (go_error, plan_compiler) result" where
  "compileJoin resolver j pc =
    (if \<not> lowerCamelPattern (jo_Alias j) then Inl (core ''join alias'')
     else if jo_Type j \<noteq> JoinLeft \<and> jo_Type j \<noteq> JoinInner then Inl (core ''join type'')
     else if jo_Alias j = rootQueryAlias then Inl (core ''join alias reserved'')
     else if map_of (pc_aliases pc) (jo_Alias j) \<noteq> None then Inl (core ''join alias duplicate'')
     else bindE (resolveEntity resolver (jo_Entity j) (jo_Alias j)) (\<lambda>current.
       (case jo_Condition j of
          None \<Rightarrow> Inl (core ''join condition'')
        | Some c \<Rightarrow>
            if cn_operator c \<noteq> OpOn then Inl (core ''join condition'')
            else (let pc' = pc\<lparr>pc_aliases := mput (jo_Alias j) current (pc_aliases pc)\<rparr>
              in bindE (resolveColumn pc' (cn_column c)) (\<lambda>l. bindE (resolveColumn pc' (cn_right c)) (\<lambda>r.
                if (pl_alias l = jo_Alias j) = (pl_alias r = jo_Alias j) then Inl (core ''join unreachable'')
                else if value_type (pl_goType l) \<noteq> value_type (pl_goType r) then Inl (core ''join types'')
                else Inr (pc'\<lparr>pc_plan := (pc_plan pc')\<lparr>qp_joins := qp_joins (pc_plan pc') @
                  [\<lparr>pj_type = jo_Type j, pj_table = pe_table (re_entity current), pj_alias = jo_Alias j, pj_left = l, pj_right = r\<rparr>]\<rparr>\<rparr>)))))))"

section \<open>Selections\<close>

text \<open>The position of each declared output alias, -1 if it occurs twice.\<close>

fun static_indexes :: "int \<Rightarrow> select_field option list \<Rightarrow> (string, int) gomap \<Rightarrow> (string, int) gomap" where
  "static_indexes i [] m = m"
| "static_indexes i (Some (AliasedSelect c alias) # fs) m =
    static_indexes (i + 1) fs (mput alias (if map_of m alias \<noteq> None then -1 else i) m)"
| "static_indexes i (_ # fs) m = static_indexes (i + 1) fs m"

fun replace_selects ::
  "(string, int) gomap \<Rightarrow> string list \<Rightarrow> select_field list \<Rightarrow> select_field option list \<Rightarrow> (go_error, select_field option list) result" where
  "replace_selects m replaced [] static = Inr static"
| "replace_selects m replaced (AllSelect alias # fs) static = Inl (core ''static shape expanded'')"
| "replace_selects m replaced (AliasedSelect c alias # fs) static =
    (case map_of m alias of
       None \<Rightarrow> Inl (core ''static alias undeclared'')
     | Some i \<Rightarrow>
         if i < 0 then Inl (core ''static alias duplicate'')
         else if alias \<in> set replaced then Inl (core ''static alias twice'')
         else replace_selects m (alias # replaced) fs (static[nat i := Some (AliasedSelect c alias)]))"

definition mergeStaticSelects :: "select_field option list \<Rightarrow> select_field list \<Rightarrow> (go_error, select_field option list) result" where
  "mergeStaticSelects static dynamic =
    (if dynamic = [] then Inr static else replace_selects (static_indexes 0 static []) [] dynamic static)"

definition mergeSelects :: "query_op \<Rightarrow> select_field list \<Rightarrow> (go_error, select_field option list) result" where
  "mergeSelects q dynamic =
    (case qo_shape q of
       ShapeStatic \<Rightarrow> mergeStaticSelects (qo_Select q) dynamic
     | ShapeDynamic \<Rightarrow>
         (if dynamic \<noteq> [] then Inl (core ''dynamic shape appended'')
          else if qo_Select q = [] \<or> qo_Select q = [Some (AllSelect rootQueryAlias)] then Inr (qo_Select q)
          else Inl (core ''dynamic shape changed''))
     | ShapeNone \<Rightarrow> Inr (qo_Select q @ map Some dynamic))"

text \<open>The output names so far are those of the plan's selections.\<close>

definition appendSelect :: "plan_column \<Rightarrow> string \<Rightarrow> plan_compiler \<Rightarrow> (go_error, plan_compiler) result" where
  "appendSelect c alias pc =
    (if alias \<in> ps_alias ` set (qp_selects (pc_plan pc)) then Inl (core ''output duplicate'')
     else bindE (addNodes 1 pc) (\<lambda>pc'. Inr (pc'\<lparr>pc_plan := (pc_plan pc')\<lparr>qp_selects := qp_selects (pc_plan pc') @ [\<lparr>ps_column = c, ps_alias = alias\<rparr>]\<rparr>\<rparr>)))"

definition compileSelect :: "select_field option \<Rightarrow> plan_compiler \<Rightarrow> (go_error, plan_compiler) result" where
  "compileSelect f pc =
    (case f of
       None \<Rightarrow> Inl (core ''select invalid'')
     | Some (AllSelect alias) \<Rightarrow>
         (case map_of (pc_aliases pc) alias of
            None \<Rightarrow> Inl (core ''alias missing'')
          | Some r \<Rightarrow> foldE (\<lambda>e. appendSelect (makePlanColumn r e) (ef_JSONName e)) (md_PersistentFields (re_metadata r)) pc)
     | Some (AliasedSelect c alias) \<Rightarrow> bindE (resolveColumn pc c) (\<lambda>col. appendSelect col alias pc))"

definition compileSelects :: "select_field option list \<Rightarrow> plan_compiler \<Rightarrow> (go_error, plan_compiler) result" where
  "compileSelects = foldE compileSelect"

section \<open>Conditions\<close>

definition compileCondition :: "condition_node \<Rightarrow> plan_compiler \<Rightarrow> (go_error, plan_condition \<times> plan_compiler) result" where
  "compileCondition n pc =
    (if cn_operator n = OpRaw then
       bindE (addNodes 1 pc) (\<lambda>pc. bindE (addBindings (length (cn_arguments n)) False pc) (\<lambda>pc.
         Inr (\<lparr>pn_operator = OpRaw, pn_column = None, pn_columns = [], pn_value = None,
           pn_expression = cn_expression n, pn_arguments = cn_arguments n\<rparr>, pc)))
     else if cn_operator n = OpOn \<or> cn_operator n = OpKeyword then Inl (core ''operator invalid'')
     else bindE (resolveColumn pc (cn_column n)) (\<lambda>c. bindE (addNodes 1 pc) (\<lambda>pc.
       let result = (\<lambda>v pc. (new_plan_condition (cn_operator n) c v, pc)) in
       (case cn_operator n of
          OpIn \<Rightarrow>
            (case planValues (cn_value n) (pl_goType c) of
               None \<Rightarrow> Inl (core ''in values invalid'')
             | Some vs \<Rightarrow> bindE (addBindings (length vs) False pc) (\<lambda>pc. Inr (result (Some (VList any_slice (map Some vs))) pc)))
        | OpLike \<Rightarrow>
            (if pl_logicalType c \<noteq> LogicalString then Inl (core ''like column'')
             else (case as_string (cn_value n) of
                 None \<Rightarrow> Inl (core ''like value'')
               | Some s \<Rightarrow> bindE (addBindings 1 False pc) (\<lambda>pc. Inr (result (Some (go_string s)) pc))))
        | operator \<Rightarrow>
            if operator = OpEQ \<or> operator = OpNE then
              (if isNilValue (cn_value n) then
                 (if \<not> pl_nullable c then Inl (core ''column not nullable'') else Inr (result None pc))
               else if \<not> validPlanValue (cn_value n) (pl_goType c) then Inl (core ''value type'')
               else bindE (addBindings 1 False pc) (\<lambda>pc. Inr (result (cn_value n) pc)))
            else if \<not> supportsOrdering (pl_logicalType c) then Inl (core ''column without order'')
            else if isNilValue (cn_value n) \<or> \<not> validPlanValue (cn_value n) (pl_goType c) then Inl (core ''value type'')
            else bindE (addBindings 1 False pc) (\<lambda>pc. Inr (result (cn_value n) pc))))))"

definition add_where :: "plan_condition \<Rightarrow> plan_compiler \<Rightarrow> plan_compiler" where
  "add_where c pc = pc\<lparr>pc_plan := (pc_plan pc)\<lparr>qp_where := qp_where (pc_plan pc) @ [c]\<rparr>\<rparr>"

definition add_having :: "plan_condition \<Rightarrow> plan_compiler \<Rightarrow> plan_compiler" where
  "add_having c pc = pc\<lparr>pc_plan := (pc_plan pc)\<lparr>qp_having := qp_having (pc_plan pc) @ [c]\<rparr>\<rparr>"

definition compileConditions ::
  "(plan_condition \<Rightarrow> plan_compiler \<Rightarrow> plan_compiler) \<Rightarrow> condition_node list \<Rightarrow> plan_compiler \<Rightarrow> (go_error, plan_compiler) result" where
  "compileConditions add ns = foldE (\<lambda>n pc. bindE (compileCondition n pc) (\<lambda>(c, pc). Inr (add c pc))) ns"

definition compileWhere :: "condition_node list option \<Rightarrow> plan_compiler \<Rightarrow> (go_error, plan_compiler) result" where
  "compileWhere provider pc = (case provider of None \<Rightarrow> Inr pc | Some ns \<Rightarrow> compileConditions add_where ns pc)"

definition like_pattern :: "string \<Rightarrow> string" where
  "like_pattern s = ''%'' @ s @ ''%''"

definition string_column :: "plan_compiler \<Rightarrow> column_ref \<Rightarrow> (go_error, plan_column) result" where
  "string_column pc ref = bindE (resolveColumn pc ref) (\<lambda>c.
     if pl_logicalType c \<noteq> LogicalString then Inl (core ''column not a string'') else Inr c)"

definition compileKeyword :: "column_ref list \<Rightarrow> query_request option \<Rightarrow> plan_compiler \<Rightarrow> (go_error, plan_compiler) result" where
  "compileKeyword refs req pc =
    bindE (mapE (string_column pc) refs) (\<lambda>columns.
    (case request_Value req ''keyWord'' of
       None \<Rightarrow> Inr pc
     | Some x \<Rightarrow>
         (case as_string x of
            None \<Rightarrow> Inl (exc_Validate ''keyword type'' None)
          | Some keyword \<Rightarrow>
              if keyword = [] \<or> columns = [] then Inr pc
              else bindE (addNodes (length columns) pc) (\<lambda>pc. bindE (addBindings (length columns) True pc) (\<lambda>pc.
                Inr (add_where \<lparr>pn_operator = OpKeyword, pn_column = None, pn_columns = columns, pn_value = None, pn_expression = [],
                  pn_arguments = map (\<lambda>_. Some (go_string (like_pattern keyword))) columns\<rparr> pc))))))"

definition compileFieldLike :: "query_request option \<Rightarrow> field_match \<Rightarrow> plan_compiler \<Rightarrow> (go_error, plan_compiler) result" where
  "compileFieldLike req m pc =
    (if \<not> lowerCamelPattern (fm_RequestParam m) then Inl (core ''request param'')
     else bindE (string_column pc (fm_Column m)) (\<lambda>c.
       (case request_Value req (fm_RequestParam m) of
          None \<Rightarrow> Inr pc
        | Some x \<Rightarrow>
            (case as_string x of
               None \<Rightarrow> Inl (exc_Validate ''param type'' None)
             | Some s \<Rightarrow> bindE (addNodes 1 pc) (\<lambda>pc. bindE (addBindings 1 True pc) (\<lambda>pc.
                 Inr (add_where (new_plan_condition OpLike c (Some (go_string (like_pattern s)))) pc)))))))"

definition compileFieldEq :: "query_request option \<Rightarrow> field_match \<Rightarrow> plan_compiler \<Rightarrow> (go_error, plan_compiler) result" where
  "compileFieldEq req m pc =
    (if \<not> lowerCamelPattern (fm_RequestParam m) then Inl (core ''request param'')
     else bindE (resolveColumn pc (fm_Column m)) (\<lambda>c.
       let finish = (\<lambda>operator v pc. bindE (addNodes 1 pc) (\<lambda>pc. Inr (add_where (new_plan_condition operator c v) pc)))
       in (case request_Value req (fm_RequestParam m) of
          None \<Rightarrow> Inr pc
        | Some None \<Rightarrow> (if \<not> pl_nullable c then Inl (exc_Validate ''param null'' None) else finish OpEQ None pc)
        | Some (Some v) \<Rightarrow>
            (case elements (Some v) of
               Some xs \<Rightarrow>
                 (if xs = [] then Inr pc
                  else (case planValues (Some v) (pl_goType c) of
                      None \<Rightarrow> Inl (exc_Validate ''param values'' None)
                    | Some vs \<Rightarrow> bindE (addBindings (length vs) True pc) (finish OpIn (Some (VList any_slice (map Some vs))))))
             | None \<Rightarrow>
                 (case planValue (Some v) (pl_goType c) of
                    None \<Rightarrow> Inl (exc_Validate ''param type'' None)
                  | Some w \<Rightarrow> bindE (addBindings 1 True pc) (finish OpEQ (Some w)))))))"

definition compileGroup :: "column_ref \<Rightarrow> plan_compiler \<Rightarrow> (go_error, plan_compiler) result" where
  "compileGroup ref pc = bindE (resolveColumn pc ref) (\<lambda>c. bindE (addNodes 1 pc) (\<lambda>pc.
     Inr (pc\<lparr>pc_plan := (pc_plan pc)\<lparr>qp_groupBy := qp_groupBy (pc_plan pc) @ [c]\<rparr>\<rparr>)))"

definition compileOrder :: "order_op \<Rightarrow> plan_compiler \<Rightarrow> (go_error, plan_compiler) result" where
  "compileOrder o1 pc =
    (if oo_Direction o1 \<noteq> Ascending \<and> oo_Direction o1 \<noteq> Descending then Inl (core ''order direction'')
     else bindE (resolveColumn pc (oo_Column o1)) (\<lambda>c. bindE (addNodes 1 pc) (\<lambda>pc.
       Inr (pc\<lparr>pc_plan := (pc_plan pc)\<lparr>qp_orderBy := qp_orderBy (pc_plan pc) @ [\<lparr>po_column = c, po_direction = oo_Direction o1\<rparr>]\<rparr>\<rparr>))))"

section \<open>The compiler\<close>

definition run_extender :: "query_op \<Rightarrow> query_request option \<Rightarrow> (go_error, query_builder) result" where
  "run_extender q req =
    (case qo_Extend q of
       None \<Rightarrow> Inr empty_builder
     | Some ext \<Rightarrow>
         (case ext req empty_builder of
            Inr b \<Rightarrow> Inr b
          | Inl (PlainError e) \<Rightarrow> Inl (wrap_core ''extender failed'' (PlainError e))
          | Inl e \<Rightarrow> Inl e))"

definition default_selects :: "select_field option list \<Rightarrow> select_field option list" where
  "default_selects fs = (if fs = [] then [Some (AllSelect rootQueryAlias)] else fs)"

definition compileQueryPlan ::
  "(gotype \<Rightarrow> metadata option) \<Rightarrow> gotype option \<Rightarrow> query_op \<Rightarrow> query_request option \<Rightarrow> (go_error, plan_compiler) result" where
  "compileQueryPlan resolver entity q req =
    bindE (newPlanCompiler resolver entity) (\<lambda>pc.
    bindE (run_extender q req) (\<lambda>b.
    if maxQueryPlanJoins < length (qo_Join q @ qb_joins b) then Inl (core ''too many joins'')
    else
    bindE (foldE (compileJoin resolver) (qo_Join q @ qb_joins b) pc) (\<lambda>pc.
    bindE (mergeSelects q (qb_selects b)) (\<lambda>selects.
    bindE (compileSelects (default_selects selects) pc) (\<lambda>pc.
    bindE (compileWhere (qo_Where q) pc) (\<lambda>pc.
    bindE (compileKeyword (qo_KeyWordLikeFields q) req pc) (\<lambda>pc.
    bindE (foldE (compileFieldLike req) (qo_FieldLike q) pc) (\<lambda>pc.
    bindE (foldE (compileFieldEq req) (qo_FieldEq q) pc) (\<lambda>pc.
    bindE (compileConditions add_where (qb_where b) pc) (\<lambda>pc.
    bindE (foldE compileGroup (qb_groupBy b) pc) (\<lambda>pc.
    bindE (compileConditions add_having (qb_having b) pc) (\<lambda>pc.
    foldE compileOrder (qo_AddOrderBy q @ qb_orderBy b) pc))))))))))))"

end
