(* ===== verification/Crud_Action.thy ===== *)
theory Crud_Action
  imports Crud_Plan
begin

text \<open>
  Action plans (\<open>cool-next/crud/action_plan.go\<close>): the policy on hidden, readonly and sortable fields of
  a controller and what it does to the query plan of an action; the projection of declared
  queries (\<open>projection.go\<close>); the statement that a plan becomes (\<open>apply.go\<close>); and the dispatch of an
  action to its adapter (\<open>dispatcher.go\<close>).

  The query model of the ORM is a parameter as far as it quotes words (\<open>quote\<close>); what the code asks
  of it is the record \<open>applied_query\<close>. The transaction runner is a parameter of \<open>Dispatch\<close>.
\<close>

section \<open>Actions\<close>

definition ActionAdd :: string where "ActionAdd = ''add''"
definition ActionDelete :: string where "ActionDelete = ''delete''"
definition ActionUpdate :: string where "ActionUpdate = ''update''"
definition ActionInfo :: string where "ActionInfo = ''info''"
definition ActionList :: string where "ActionList = ''list''"
definition ActionPage :: string where "ActionPage = ''page''"

lemmas action_defs = ActionAdd_def ActionDelete_def ActionUpdate_def ActionInfo_def ActionList_def ActionPage_def

definition isAction :: "string \<Rightarrow> bool" where
  "isAction a \<longleftrightarrow> a \<in> {ActionAdd, ActionDelete, ActionUpdate, ActionInfo, ActionList, ActionPage}"

definition isQueryAction :: "string \<Rightarrow> bool" where
  "isQueryAction a \<longleftrightarrow> a \<in> {ActionInfo, ActionList, ActionPage}"

section \<open>Field policies\<close>

record field_policy_input =
  fi_HiddenFields :: "column_ref list"
  fi_ReadonlyFields :: "column_ref list"
  fi_InfoIgnoreProperty :: "column_ref list"
  fi_SortFields :: "column_ref list"
  fi_DefaultSort :: column_ref
  fi_DefaultOrder :: string

record field_policy =
  fp_hidden :: "string list"
  fp_infoIgnored :: "string list"
  fp_readonly :: "string list"
  fp_sortable :: "(string, plan_column) gomap"
  fp_defaultSort :: "plan_order option"

record plan_input =
  pi_Action :: string
  pi_Entity :: "gotype option"
  pi_Query :: query_op
  pi_Fields :: field_policy_input

record action_plan =
  ap_action :: string
  ap_fields :: field_policy
  ap_query :: "query_plan option"

definition empty_policy :: field_policy where
  "empty_policy = \<lparr>fp_hidden = [], fp_infoIgnored = [], fp_readonly = [], fp_sortable = [], fp_defaultSort = None\<rparr>"

definition IsHidden :: "field_policy \<Rightarrow> string \<Rightarrow> bool" where
  "IsHidden p name \<longleftrightarrow> name \<in> set (fp_hidden p)"

definition IsReadonly :: "field_policy \<Rightarrow> string \<Rightarrow> bool" where
  "IsReadonly p name \<longleftrightarrow> name \<in> set (fp_readonly p)"

definition IsInfoIgnored :: "field_policy \<Rightarrow> string \<Rightarrow> bool" where
  "IsInfoIgnored p name \<longleftrightarrow> name \<in> set (fp_infoIgnored p)"

definition hasColumnRef :: "column_ref \<Rightarrow> bool" where
  "hasColumnRef c \<longleftrightarrow> cr_name c \<noteq> [] \<or> cr_entityType c \<noteq> None \<or> cr_alias c \<noteq> []"

definition emptyPolicy :: "field_policy_input \<Rightarrow> bool" where
  "emptyPolicy i \<longleftrightarrow> fi_HiddenFields i = [] \<and> fi_ReadonlyFields i = [] \<and> fi_InfoIgnoreProperty i = [] \<and> fi_SortFields i = [] \<and>
     \<not> hasColumnRef (fi_DefaultSort i) \<and> fi_DefaultOrder i = []"

definition resolvePolicyField :: "metadata \<Rightarrow> gotype \<Rightarrow> column_ref \<Rightarrow> (go_error, entity_field) result" where
  "resolvePolicyField d t ref =
    (if \<not> hasColumnRef ref \<or> (cr_alias ref \<noteq> [] \<and> cr_alias ref \<noteq> rootQueryAlias) then Inl (core ''policy reference'')
     else if cr_entityType ref \<noteq> None \<and> cr_entityType ref \<noteq> Some t then Inl (core ''policy entity'')
     else (case md_Field d (cr_name ref) of
         None \<Rightarrow> Inl (core ''policy field'')
       | Some f \<Rightarrow> if \<not> ef_Persistent f then Inl (core ''policy field not persistent'') else Inr f))"

definition add_policy_field :: "metadata \<Rightarrow> gotype \<Rightarrow> column_ref \<Rightarrow> string list \<Rightarrow> (go_error, string list) result" where
  "add_policy_field d t ref target = bindE (resolvePolicyField d t ref) (\<lambda>f.
     if ef_Name f \<in> set target then Inl (core ''policy duplicate'') else Inr (ef_Name f # target))"

definition compileFieldSet :: "metadata \<Rightarrow> gotype \<Rightarrow> column_ref list \<Rightarrow> (go_error, string list) result" where
  "compileFieldSet d t refs = foldE (add_policy_field d t) refs []"

definition policy_root :: "metadata \<Rightarrow> gotype \<Rightarrow> resolved_entity" where
  "policy_root d t = \<lparr>re_entity = \<lparr>pe_table = md_Table d, pe_alias = rootQueryAlias, pe_entityType = t\<rparr>, re_metadata = d\<rparr>"

definition add_sort_field ::
  "metadata \<Rightarrow> gotype \<Rightarrow> column_ref \<Rightarrow> (string, plan_column) gomap \<Rightarrow> (go_error, (string, plan_column) gomap) result" where
  "add_sort_field d t ref m = bindE (resolvePolicyField d t ref) (\<lambda>f.
     if map_of m (ef_JSONName f) \<noteq> None then Inl (core ''sort duplicate'')
     else Inr (mput (ef_JSONName f) (makePlanColumn (policy_root d t) f) m))"

definition auto_sort_fields :: "metadata \<Rightarrow> gotype \<Rightarrow> field_policy \<Rightarrow> (string, plan_column) gomap \<Rightarrow> (string, plan_column) gomap" where
  "auto_sort_fields d t p m =
    foldl (\<lambda>m f. mput (ef_JSONName f) (makePlanColumn (policy_root d t) f) m) m
      (filter (\<lambda>f. \<not> IsHidden p (ef_Name f)) (md_PersistentFields d))"

definition defaultSort ::
  "metadata \<Rightarrow> gotype \<Rightarrow> field_policy_input \<Rightarrow> (string, plan_column) gomap \<Rightarrow> bool \<Rightarrow> (go_error, plan_order option) result" where
  "defaultSort d t i sortable auto =
    (if \<not> hasColumnRef (fi_DefaultSort i) then
       (if fi_DefaultOrder i \<noteq> [] then Inl (core ''default order without sort'')
        else Inr (if auto then Some \<lparr>po_column = makePlanColumn (policy_root d t) (md_Primary d), po_direction = Descending\<rparr> else None))
     else if fi_DefaultOrder i \<noteq> Ascending \<and> fi_DefaultOrder i \<noteq> Descending then Inl (core ''default order'')
     else bindE (resolvePolicyField d t (fi_DefaultSort i)) (\<lambda>f.
       case map_of sortable (ef_JSONName f) of
         None \<Rightarrow> Inl (core ''default sort not sortable'')
       | Some c \<Rightarrow> Inr (Some \<lparr>po_column = c, po_direction = fi_DefaultOrder i\<rparr>)))"

definition compileSortFields :: "metadata \<Rightarrow> gotype \<Rightarrow> field_policy_input \<Rightarrow> field_policy \<Rightarrow> bool \<Rightarrow> (go_error, field_policy) result" where
  "compileSortFields d t i p auto =
    bindE (foldE (add_sort_field d t) (fi_SortFields i) []) (\<lambda>m.
    let sortable = (if auto then auto_sort_fields d t p m else m) in
    bindE (defaultSort d t i sortable auto) (\<lambda>s.
    Inr (p\<lparr>fp_sortable := sortable, fp_defaultSort := s\<rparr>)))"

definition compileFieldPolicy ::
  "(gotype \<Rightarrow> metadata option) \<Rightarrow> gotype option \<Rightarrow> field_policy_input \<Rightarrow> bool \<Rightarrow> (go_error, field_policy) result" where
  "compileFieldPolicy resolver entity i auto =
    (if emptyPolicy i \<and> \<not> auto then Inr empty_policy
     else (case entity of
         None \<Rightarrow> Inl (core ''policy entity nil'')
       | Some t \<Rightarrow>
           if \<not> named_struct t then Inl (core ''policy entity type'')
           else (case resolver t of
               None \<Rightarrow> Inl (core ''policy descriptor'')
             | Some d \<Rightarrow>
                 bindE (compileFieldSet d t (fi_HiddenFields i)) (\<lambda>hidden.
                 bindE (compileFieldSet d t (fi_ReadonlyFields i)) (\<lambda>readonly.
                 bindE (compileFieldSet d t (fi_InfoIgnoreProperty i)) (\<lambda>ignored.
                 compileSortFields d t i \<lparr>fp_hidden = hidden, fp_infoIgnored = ignored, fp_readonly = readonly,
                   fp_sortable = [], fp_defaultSort = None\<rparr> auto))))))"

section \<open>The policy on a plan\<close>

text \<open>\<open>None\<close> if the parameter was not submitted.\<close>

definition requestStrings :: "query_request option \<Rightarrow> string \<Rightarrow> (go_error, string list option) result" where
  "requestStrings req name =
    (case request_Value req name of
       None \<Rightarrow> Inr None
     | Some x \<Rightarrow> (case as_strings x of None \<Rightarrow> Inl (exc_Validate ''not a list of strings'' None) | Some ss \<Rightarrow> Inr (Some ss)))"

definition request_order :: "field_policy \<Rightarrow> string \<times> string \<Rightarrow> query_plan \<Rightarrow> (go_error, query_plan) result" where
  "request_order p nd q =
    (case map_of (fp_sortable p) (fst nd) of
       None \<Rightarrow> Inl (exc_Validate ''not sortable'' None)
     | Some c \<Rightarrow>
         if snd nd \<noteq> Ascending \<and> snd nd \<noteq> Descending then Inl (exc_Validate ''sort direction'' None)
         else Inr (q\<lparr>qp_orderBy := qp_orderBy q @ [\<lparr>po_column = c, po_direction = snd nd\<rparr>]\<rparr>))"

definition applyOrder :: "query_plan \<Rightarrow> field_policy \<Rightarrow> query_request option \<Rightarrow> (go_error, query_plan) result" where
  "applyOrder q p req =
    bindE (requestStrings req ''order'') (\<lambda>orderFields. bindE (requestStrings req ''sort'') (\<lambda>directions.
    (case (orderFields, directions) of
       (None, None) \<Rightarrow>
         Inr (case fp_defaultSort p of None \<Rightarrow> q | Some s \<Rightarrow> q\<lparr>qp_orderBy := qp_orderBy q @ [s]\<rparr>)
     | (Some ns, Some ds) \<Rightarrow>
         if length ns \<noteq> length ds then Inl (exc_Validate ''order and sort'' None)
         else if ns = [] \<or> maxQueryPlanNodes - int (length ns) < int (length (qp_orderBy q)) then Inl (exc_Validate ''order count'' None)
         else foldE (request_order p) (zip ns ds) q
     | _ \<Rightarrow> Inl (exc_Validate ''order and sort'' None))))"

definition visible_select :: "string \<Rightarrow> field_policy \<Rightarrow> plan_select \<Rightarrow> bool" where
  "visible_select action p s \<longleftrightarrow>
    \<not> (pl_alias (ps_column s) = rootQueryAlias \<and> (IsHidden p (pl_name (ps_column s)) \<or>
       action = ActionInfo \<and> IsInfoIgnored p (pl_name (ps_column s))))"

definition applyFieldPolicy :: "string \<Rightarrow> query_plan \<Rightarrow> field_policy \<Rightarrow> query_request option \<Rightarrow> (go_error, query_plan) result" where
  "applyFieldPolicy action q p req =
    (let selects = filter (visible_select action p) (qp_selects q); q' = q\<lparr>qp_selects := selects\<rparr>
     in if selects = [] then Inl (core ''no field left'')
        else if action \<noteq> ActionList \<and> action \<noteq> ActionPage then Inr q'
        else applyOrder q' p req)"

definition CompilePlan :: "(gotype \<Rightarrow> metadata option) \<Rightarrow> plan_input \<Rightarrow> query_request option \<Rightarrow> (go_error, action_plan) result" where
  "CompilePlan resolver i req =
    (if \<not> isAction (pi_Action i) then Inl (core ''action invalid'')
     else let auto = ((pi_Action i = ActionList \<or> pi_Action i = ActionPage) \<and> fi_SortFields (pi_Fields i) = []) in
       bindE (compileFieldPolicy resolver (pi_Entity i) (pi_Fields i) auto) (\<lambda>p.
       if \<not> isQueryAction (pi_Action i) then Inr \<lparr>ap_action = pi_Action i, ap_fields = p, ap_query = None\<rparr>
       else bindE (compileQueryPlan resolver (pi_Entity i) (pi_Query i) req) (\<lambda>pc.
         bindE (applyFieldPolicy (pi_Action i) (pc_plan pc) p req) (\<lambda>q.
         Inr \<lparr>ap_action = pi_Action i, ap_fields = p, ap_query = Some q\<rparr>))))"

section \<open>Projection\<close>

record query_column =
  qc_Descriptor :: metadata
  qc_Field :: "entity_field option"
  qc_Source :: string

record query_match =
  qm_Column :: query_column
  qm_RequestParam :: string

record query_select =
  qs_Column :: query_column
  qs_Name :: string

record query_projection =
  qj_KeyWordLikeFields :: "query_column list"
  qj_FieldEq :: "query_match list"
  qj_FieldLike :: "query_match list"
  qj_Select :: "query_select list"

text \<open>The alias of a resolved column is known to the compiler.\<close>

definition projectColumn :: "plan_compiler \<Rightarrow> plan_column \<Rightarrow> query_column" where
  "projectColumn pc c =
    (let d = re_metadata (the (map_of (pc_aliases pc) (pl_alias c)))
     in \<lparr>qc_Descriptor = d, qc_Field = md_Field d (pl_name c), qc_Source = pl_alias c @ ''.'' @ pl_jsonName c\<rparr>)"

definition projectMatch :: "plan_compiler \<Rightarrow> bool \<Rightarrow> field_match \<Rightarrow> (go_error, query_match) result" where
  "projectMatch pc isLike m =
    (if \<not> lowerCamelPattern (fm_RequestParam m) then Inl (core ''request param'')
     else bindE (resolveColumn pc (fm_Column m)) (\<lambda>c.
       if isLike \<and> pl_logicalType c \<noteq> LogicalString then Inl (core ''column not a string'')
       else Inr \<lparr>qm_Column = projectColumn pc c, qm_RequestParam = fm_RequestParam m\<rparr>))"

definition ProjectColumns ::
  "(gotype \<Rightarrow> metadata option) \<Rightarrow> gotype option \<Rightarrow> column_ref list \<Rightarrow> (go_error, query_column list) result" where
  "ProjectColumns resolver entity refs =
    bindE (newPlanCompiler resolver entity) (\<lambda>pc.
    mapE (\<lambda>ref. bindE (resolveColumn pc ref) (\<lambda>c.
      if pl_alias c \<noteq> rootQueryAlias then Inl (core ''policy not on root'') else Inr (projectColumn pc c))) refs)"

definition ProjectQuery ::
  "(gotype \<Rightarrow> metadata option) \<Rightarrow> gotype option \<Rightarrow> query_op \<Rightarrow> (go_error, query_projection) result" where
  "ProjectQuery resolver entity q =
    bindE (newPlanCompiler resolver entity) (\<lambda>pc.
    if maxQueryPlanJoins < length (qo_Join q) then Inl (core ''too many joins'')
    else
    bindE (foldE (compileJoin resolver) (qo_Join q) pc) (\<lambda>pc.
    bindE (compileSelects (qo_Select q) pc) (\<lambda>pc.
    bindE (mapE (\<lambda>ref. bindE (string_column pc ref) (\<lambda>c. Inr (projectColumn pc c))) (qo_KeyWordLikeFields q)) (\<lambda>keywords.
    bindE (mapE (projectMatch pc False) (qo_FieldEq q)) (\<lambda>eqs.
    bindE (mapE (projectMatch pc True) (qo_FieldLike q)) (\<lambda>likes.
    Inr \<lparr>qj_KeyWordLikeFields = keywords, qj_FieldEq = eqs, qj_FieldLike = likes,
      qj_Select = map (\<lambda>s. \<lparr>qs_Column = projectColumn pc (ps_column s), qs_Name = ps_alias s\<rparr>) (qp_selects (pc_plan pc))\<rparr>))))))"

section \<open>Applying a plan\<close>

definition isValidColumn :: "plan_column \<Rightarrow> bool" where
  "isValidColumn c \<longleftrightarrow> tableNamePattern (pl_table c) \<and> lowerCamelPattern (pl_alias c) \<and> lowerCamelPattern (pl_column c)"

text \<open>The zero column of a condition without one is not valid.\<close>

definition valid_column :: "plan_column option \<Rightarrow> bool" where
  "valid_column c = (case c of None \<Rightarrow> False | Some c \<Rightarrow> isValidColumn c)"

definition checkCondition :: "plan_condition \<Rightarrow> (go_error, unit) result" where
  "checkCondition n =
    (case pn_operator n of
       OpEQ \<Rightarrow> guardE (valid_column (pn_column n)) (core ''condition column'')
     | OpNE \<Rightarrow> guardE (valid_column (pn_column n)) (core ''condition column'')
     | OpIn \<Rightarrow>
         guardE (valid_column (pn_column n) \<and>
           (case pn_value n of
              Some (VList t xs) \<Rightarrow> t = any_slice \<and> xs \<noteq> [] \<and> None \<notin> set xs
            | _ \<Rightarrow> False)) (core ''condition values'')
     | OpLike \<Rightarrow> guardE (valid_column (pn_column n) \<and> as_string (pn_value n) \<noteq> None) (core ''condition like'')
     | OpKeyword \<Rightarrow>
         (if pn_columns n = [] \<or> length (pn_columns n) \<noteq> length (pn_arguments n) then Inl (core ''condition keyword'')
          else eachE (\<lambda>(c, a). if \<not> isValidColumn c then Inl (core ''condition column'')
            else guardE (as_string a \<noteq> None) (core ''condition keyword'')) (zip (pn_columns n) (pn_arguments n)))
     | OpRaw \<Rightarrow> guardE (trim_space (pn_expression n) \<noteq> []) (core ''condition raw'')
     | OpOn \<Rightarrow> Inl (core ''condition operator'')
     | _ \<Rightarrow> guardE (valid_column (pn_column n) \<and> pn_value n \<noteq> None) (core ''condition value''))"

definition checkPlan :: "query_plan \<Rightarrow> (go_error, unit) result" where
  "checkPlan q =
    (if \<not> tableNamePattern (pe_table (qp_root q)) \<or> pe_alias (qp_root q) \<noteq> rootQueryAlias then Inl (core ''plan root'')
     else if qp_selects q = [] then Inl (core ''plan selects'')
     else bindE (eachE (\<lambda>j.
         if \<not> tableNamePattern (pj_table j) \<or> \<not> lowerCamelPattern (pj_alias j) then Inl (core ''plan join'')
         else if pj_type j \<noteq> JoinLeft \<and> pj_type j \<noteq> JoinInner then Inl (core ''plan join type'')
         else guardE (isValidColumn (pj_left j) \<and> isValidColumn (pj_right j)) (core ''plan join columns'')) (qp_joins q)) (\<lambda>_.
       bindE (eachE (\<lambda>s. guardE (isValidColumn (ps_column s) \<and> lowerCamelPattern (ps_alias s)) (core ''plan select'')) (qp_selects q)) (\<lambda>_.
       bindE (eachE checkCondition (qp_where q)) (\<lambda>_.
       bindE (eachE (\<lambda>c. guardE (isValidColumn c) (core ''plan group'')) (qp_groupBy q)) (\<lambda>_.
       bindE (eachE checkCondition (qp_having q)) (\<lambda>_.
       eachE (\<lambda>s. guardE (isValidColumn (po_column s) \<and> (po_direction s = Ascending \<or> po_direction s = Descending)) (core ''plan order'')) (qp_orderBy q)))))))"

definition quoteColumn :: "(string \<Rightarrow> string) \<Rightarrow> plan_column \<Rightarrow> string" where
  "quoteColumn quote c = quote (pl_alias c) @ ''.'' @ quote (pl_column c)"

text \<open>The SQL text of a condition and its arguments; a slice is one argument of \<open>IN (?)\<close>.\<close>

definition formatCondition :: "(string \<Rightarrow> string) \<Rightarrow> plan_condition \<Rightarrow> string \<times> goval option list" where
  "formatCondition quote n =
    (let column = (case pn_column n of None \<Rightarrow> quote [] @ ''.'' @ quote [] | Some c \<Rightarrow> quoteColumn quote c)
     in case pn_operator n of
       OpEQ \<Rightarrow> (if pn_value n = None then (column @ '' IS NULL'', []) else (column @ '' = ?'', [pn_value n]))
     | OpNE \<Rightarrow> (if pn_value n = None then (column @ '' IS NOT NULL'', []) else (column @ '' <> ?'', [pn_value n]))
     | OpGT \<Rightarrow> (column @ '' > ?'', [pn_value n])
     | OpGTE \<Rightarrow> (column @ '' >= ?'', [pn_value n])
     | OpLT \<Rightarrow> (column @ '' < ?'', [pn_value n])
     | OpLTE \<Rightarrow> (column @ '' <= ?'', [pn_value n])
     | OpIn \<Rightarrow> (column @ '' IN (?)'', [pn_value n])
     | OpLike \<Rightarrow> (column @ '' LIKE ?'', [pn_value n])
     | OpKeyword \<Rightarrow> (''('' @ join '' OR '' (map (\<lambda>c. quoteColumn quote c @ '' LIKE ?'') (pn_columns n)) @ '')'', pn_arguments n)
     | OpRaw \<Rightarrow> (pn_expression n, pn_arguments n)
     | OpOn \<Rightarrow> ([], []))"

record applied_query =
  aq_alias :: string
  aq_joins :: "(string \<times> string \<times> string \<times> string) list"
  aq_where :: "(string \<times> goval option list) list"
  aq_fields :: string
  aq_group :: "string list"
  aq_having :: "(string \<times> goval option list) option"
  aq_order :: "(string \<times> string) list"

definition applyQueryPlan :: "(string \<Rightarrow> string) \<Rightarrow> query_plan \<Rightarrow> (go_error, applied_query) result" where
  "applyQueryPlan quote q =
    bindE (checkPlan q) (\<lambda>_.
    Inr \<lparr>aq_alias = quote (pe_alias (qp_root q)),
      aq_joins = map (\<lambda>j. (pj_type j, pj_table j, pj_alias j, quoteColumn quote (pj_left j) @ '' = '' @ quoteColumn quote (pj_right j))) (qp_joins q),
      aq_where = map (formatCondition quote) (qp_where q),
      aq_fields = join '', '' (map (\<lambda>s. quoteColumn quote (ps_column s) @ '' AS '' @ quote (ps_alias s)) (qp_selects q)),
      aq_group = map (quoteColumn quote) (qp_groupBy q),
      aq_having = (if qp_having q = [] then None
        else Some (join '' AND '' (map (\<lambda>n. ''('' @ fst (formatCondition quote n) @ '')'') (qp_having q)),
          concat (map (\<lambda>n. snd (formatCondition quote n)) (qp_having q)))),
      aq_order = map (\<lambda>s. (quoteColumn quote (po_column s), po_direction s)) (qp_orderBy q)\<rparr>)"

definition ApplyQuery :: "(string \<Rightarrow> string) \<Rightarrow> action_plan option \<Rightarrow> (go_error, applied_query) result" where
  "ApplyQuery quote plan =
    (case plan of None \<Rightarrow> Inl (core ''no query plan'')
     | Some p \<Rightarrow> (case ap_query p of None \<Rightarrow> Inl (core ''no query plan'') | Some q \<Rightarrow> applyQueryPlan quote q))"

section \<open>Dispatch\<close>

definition ActionModeBase :: string where "ActionModeBase = ''base''"
definition ActionModeDelegate :: string where "ActionModeDelegate = ''delegate''"
definition ActionModeOverride :: string where "ActionModeOverride = ''override''"

definition isActionMode :: "string \<Rightarrow> bool" where
  "isActionMode m \<longleftrightarrow> m \<in> {ActionModeBase, ActionModeOverride, ActionModeDelegate}"

definition checkDispatch :: "string \<Rightarrow> string \<Rightarrow> action_plan option \<Rightarrow> (go_error, action_plan) result" where
  "checkDispatch action mode plan =
    (if \<not> isActionMode mode then Inl (core ''mode invalid'')
     else (case plan of
         None \<Rightarrow> Inl (core ''plan missing'')
       | Some p \<Rightarrow> if ap_action p \<noteq> action then Inl (core ''plan of another action'') else Inr p))"

text \<open>What an adapter finds in its context.\<close>

record dispatch_scope =
  dc_action :: string
  dc_mode :: string
  dc_plan :: action_plan

definition Dispatch ::
  "(('s \<Rightarrow> (go_error, 'a) result \<times> 's) \<Rightarrow> 's \<Rightarrow> (go_error, 'a) result \<times> 's) \<Rightarrow> string \<Rightarrow> string \<Rightarrow> action_plan option \<Rightarrow>
   (dispatch_scope \<Rightarrow> 's \<Rightarrow> (go_error, 'a) result \<times> 's) \<Rightarrow> 's \<Rightarrow> (go_error, 'a) result \<times> 's" where
  "Dispatch runner action mode plan adapter s =
    (if \<not> isAction action then (Inl (core ''action invalid''), s)
     else (case checkDispatch action mode plan of
         Inl e \<Rightarrow> (Inl e, s)
       | Inr p \<Rightarrow> runner (adapter \<lparr>dc_action = action, dc_mode = mode, dc_plan = p\<rparr>) s))"

end
