(* ===== verification/Crud_Properties.thy ===== *)
theory Crud_Properties
  imports Crud_Action
begin

text \<open>
  What a compiled query plan guarantees: every column is a persistent field of a declared entity,
  every value has the type of its column, output names are unique, and the plan stays within its
  bounds, so that the check before its execution cannot fail; what hidden fields and the whitelist
  of sort fields mean for it; and the statement it becomes.
\<close>

section \<open>Well-typed plans\<close>

text \<open>A value that fits a column of a type.\<close>

definition fits :: "goval \<Rightarrow> gotype \<Rightarrow> bool" where
  "fits v t \<longleftrightarrow> assignable (type_of v) (value_type t) \<and> val_ok v \<and> \<not> isNilValue (Some v)"

definition aliases_ok :: "(string, resolved_entity) gomap \<Rightarrow> bool" where
  "aliases_ok als \<longleftrightarrow> (\<forall>a r. map_of als a = Some r \<longrightarrow> lowerCamelPattern a \<and> descriptor_ok (re_metadata r) \<and>
     pe_alias (re_entity r) = a \<and> pe_table (re_entity r) = md_Table (re_metadata r))"

definition column_ok :: "(string, resolved_entity) gomap \<Rightarrow> plan_column \<Rightarrow> bool" where
  "column_ok als c \<longleftrightarrow> (\<exists>r f. map_of als (pl_alias c) = Some r \<and> f \<in> set (md_PersistentFields (re_metadata r)) \<and> c = makePlanColumn r f)"

definition condition_typed :: "(string, resolved_entity) gomap \<Rightarrow> plan_condition \<Rightarrow> bool" where
  "condition_typed als n \<longleftrightarrow>
    (case pn_operator n of
       OpRaw \<Rightarrow> trim_space (pn_expression n) \<noteq> []
     | OpOn \<Rightarrow> False
     | OpKeyword \<Rightarrow> pn_columns n \<noteq> [] \<and> (\<forall>c \<in> set (pn_columns n). column_ok als c \<and> pl_logicalType c = LogicalString) \<and>
         (\<exists>s. pn_arguments n = map (\<lambda>_. Some (go_string s)) (pn_columns n))
     | operator \<Rightarrow> (\<exists>c. pn_column n = Some c \<and> column_ok als c \<and>
         (if operator = OpIn then \<exists>vs. vs \<noteq> [] \<and> pn_value n = Some (VList any_slice (map Some vs)) \<and> (\<forall>v \<in> set vs. fits v (pl_goType c))
          else if operator = OpLike then pl_logicalType c = LogicalString \<and> (\<exists>s. pn_value n = Some (go_string s))
          else if operator = OpEQ \<or> operator = OpNE then
            (case pn_value n of None \<Rightarrow> pl_nullable c | Some v \<Rightarrow> fits v (pl_goType c))
          else supportsOrdering (pl_logicalType c) \<and> (\<exists>v. pn_value n = Some v \<and> fits v (pl_goType c)))))"

definition plan_typed :: "(string, resolved_entity) gomap \<Rightarrow> query_plan \<Rightarrow> bool" where
  "plan_typed als q \<longleftrightarrow>
     (\<exists>r. map_of als rootQueryAlias = Some r \<and> re_entity r = qp_root q) \<and>
     (\<forall>j \<in> set (qp_joins q). column_ok als (pj_left j) \<and> column_ok als (pj_right j) \<and>
        value_type (pl_goType (pj_left j)) = value_type (pl_goType (pj_right j)) \<and> (pj_type j = JoinLeft \<or> pj_type j = JoinInner) \<and>
        (\<exists>r. map_of als (pj_alias j) = Some r \<and> pe_table (re_entity r) = pj_table j)) \<and>
     (\<forall>s \<in> set (qp_selects q). column_ok als (ps_column s) \<and> lowerCamelPattern (ps_alias s)) \<and> distinct (map ps_alias (qp_selects q)) \<and>
     (\<forall>n \<in> set (qp_where q). condition_typed als n) \<and> (\<forall>c \<in> set (qp_groupBy q). column_ok als c) \<and>
     (\<forall>n \<in> set (qp_having q). condition_typed als n) \<and>
     (\<forall>s \<in> set (qp_orderBy q). column_ok als (po_column s) \<and> (po_direction s = Ascending \<or> po_direction s = Descending))"

text \<open>Nodes and bindings of a plan.\<close>

definition condition_nodes :: "plan_condition \<Rightarrow> nat" where
  "condition_nodes n = (if pn_operator n = OpKeyword then length (pn_columns n) else 1)"

definition condition_bindings :: "plan_condition \<Rightarrow> nat" where
  "condition_bindings n =
    (case pn_operator n of
       OpRaw \<Rightarrow> length (pn_arguments n)
     | OpKeyword \<Rightarrow> length (pn_columns n)
     | _ \<Rightarrow> (case pn_value n of None \<Rightarrow> 0 | Some (VList t xs) \<Rightarrow> if pn_operator n = OpIn then length xs else 1 | Some _ \<Rightarrow> 1))"

definition plan_nodes :: "query_plan \<Rightarrow> nat" where
  "plan_nodes q = length (qp_selects q) + sum_list (map condition_nodes (qp_where q)) + length (qp_groupBy q) +
     sum_list (map condition_nodes (qp_having q)) + length (qp_orderBy q)"

definition plan_bindings :: "query_plan \<Rightarrow> nat" where
  "plan_bindings q = sum_list (map condition_bindings (qp_where q)) + sum_list (map condition_bindings (qp_having q))"

section \<open>Declared queries\<close>

text \<open>What the constructors guarantee: \<open>RawWhere\<close> refuses a blank expression, \<open>All\<close> and \<open>As\<close> a bad
  alias; and values are values of Go.\<close>

definition condition_declared :: "condition_node \<Rightarrow> bool" where
  "condition_declared n \<longleftrightarrow> (cn_operator n = OpRaw \<longrightarrow> trim_space (cn_expression n) \<noteq> []) \<and>
     (\<forall>v. cn_value n = Some v \<longrightarrow> val_ok v)"

definition select_declared :: "select_field \<Rightarrow> bool" where
  "select_declared f = (case f of AllSelect a \<Rightarrow> lowerCamelPattern a | AliasedSelect c a \<Rightarrow> lowerCamelPattern a)"

definition builder_declared :: "query_builder \<Rightarrow> bool" where
  "builder_declared b \<longleftrightarrow> list_all condition_declared (qb_where b) \<and> list_all condition_declared (qb_having b) \<and>
     list_all select_declared (qb_selects b)"

definition query_declared :: "query_op \<Rightarrow> bool" where
  "query_declared q \<longleftrightarrow> (\<forall>ns. qo_Where q = Some ns \<longrightarrow> list_all condition_declared ns) \<and>
     (\<forall>f. Some f \<in> set (qo_Select q) \<longrightarrow> select_declared f) \<and>
     (\<forall>ext req b. qo_Extend q = Some ext \<longrightarrow> ext req empty_builder = Inr b \<longrightarrow> builder_declared b)"

definition request_declared :: "query_request option \<Rightarrow> bool" where
  "request_declared req \<longleftrightarrow> (\<forall>name v. request_Value req name = Some (Some v) \<longrightarrow> val_ok v)"

definition resolver_ok :: "(gotype \<Rightarrow> metadata option) \<Rightarrow> bool" where
  "resolver_ok resolver \<longleftrightarrow> (\<forall>t d. resolver t = Some d \<longrightarrow> descriptor_ok d)"

lemma condition_constructors:
  "(\<And>v. x = Some v \<Longrightarrow> val_ok v) \<Longrightarrow> crud_compare operator c x = Inr n \<Longrightarrow> condition_declared n"
  "(\<And>v. x = Some v \<Longrightarrow> val_ok v) \<Longrightarrow> crud_In c x = Inr n \<Longrightarrow> condition_declared n"
  "LikeValue c s = Inr n \<Longrightarrow> condition_declared n"
  "RawWhere e as = Inr n \<Longrightarrow> condition_declared n"
  by (auto simp: crud_compare_def crud_In_def LikeValue_def RawWhere_def bindE_Inr_iff condition_declared_def
      new_condition_def go_string_def split: if_splits)

lemma select_constructors: "crud_All a = Inr f \<Longrightarrow> select_declared f" "crud_As c a = Inr f \<Longrightarrow> select_declared f"
  by (auto simp: crud_All_def crud_As_def checkName_def bindE_Inr_iff select_declared_def)

lemma those_Some: "those xs = Some ys \<longleftrightarrow> xs = map Some ys"
  by (induction xs arbitrary: ys) (auto split: option.splits)

lemma builder_declared_empty: "builder_declared empty_builder"
  by (simp add: builder_declared_def empty_builder_def)

text \<open>Every operation of the builder keeps it declared.\<close>

lemma builder_operations:
  assumes "builder_declared b"
  shows "builder_Where cs b = Inr b' \<Longrightarrow> \<forall>n. Some n \<in> set cs \<longrightarrow> condition_declared n \<Longrightarrow> builder_declared b'"
    and "builder_AddHaving cs b = Inr b' \<Longrightarrow> \<forall>n. Some n \<in> set cs \<longrightarrow> condition_declared n \<Longrightarrow> builder_declared b'"
    and "builder_AddSelect fs b = Inr b' \<Longrightarrow> \<forall>f. Some f \<in> set fs \<longrightarrow> select_declared f \<Longrightarrow> builder_declared b'"
    and "builder_AddJoin js b = Inr b' \<Longrightarrow> builder_declared b'"
    and "builder_AddGroupBy gs b = Inr b' \<Longrightarrow> builder_declared b'"
    and "builder_AddOrderBy os b = Inr b' \<Longrightarrow> builder_declared b'"
  using assms
  by (auto simp: builder_Where_def builder_AddHaving_def builder_AddSelect_def builder_AddJoin_def builder_AddGroupBy_def
      builder_AddOrderBy_def requireConditions_def bindE_Inr_iff builder_declared_def those_Some list_all_iff split: option.splits)

section \<open>Conversion of values\<close>

lemma planValue_converted:
  assumes "planValue (Some w) t = Some v" "\<not> assignable (type_of w) (value_type t)"
  obtains k n where "underlying (value_type t) = GoBasic k" "v = VInt (value_type t) n" "within (int_range k) n" "requestInt64 w = Some n"
    | k n where "underlying (value_type t) = GoBasic k" "v = VInt (value_type t) n" "within (uint_range k) n" "requestUint64 w = Some n"
    | k f where "underlying (value_type t) = GoBasic k" "v = VFloat (value_type t) f" "is_float k"
proof -
  have "\<exists>k. underlying (value_type t) = GoBasic k"
    using assms by (auto simp: planValue_def Let_def split: if_splits gotype.splits)
  then obtain k where k: "underlying (value_type t) = GoBasic k" by blast
  consider "int_range k \<noteq> None" | "int_range k = None" "uint_range k \<noteq> None" | "int_range k = None" "uint_range k = None"
    by blast
  then show thesis
  proof cases
    case 1
    then show ?thesis
      using assms k that(1) by (auto simp: planValue_def Let_def split: if_splits option.splits)
  next
    case 2
    then show ?thesis
      using assms k that(2) by (auto simp: planValue_def Let_def split: if_splits option.splits)
  next
    case 3
    then show ?thesis
      using assms k that(3) by (auto simp: planValue_def Let_def split: if_splits option.splits)
  qed
qed

lemma planValue_fits:
  assumes "planValue x t = Some v" "\<And>w. x = Some w \<Longrightarrow> val_ok w"
  shows "fits v t"
proof -
  obtain w where w: "x = Some w" "\<not> isNilValue (Some w)" "val_ok w"
    using assms by (cases x) (auto simp: planValue_def split: if_splits)
  show ?thesis
  proof (cases "assignable (type_of w) (value_type t)")
    case True
    then show ?thesis using assms(1) w by (simp add: planValue_def fits_def)
  next
    case False
    show ?thesis
      using assms(1) w by (cases rule: planValue_converted [OF _ False]) (auto simp: fits_def isNilValue_def)
  qed
qed

lemma elements_val_ok: "elements x = Some xs \<Longrightarrow> (\<And>w. x = Some w \<Longrightarrow> val_ok w) \<Longrightarrow> Some w \<in> set xs \<Longrightarrow> val_ok w"
  by (auto simp: elements_def list_all_iff split: option.splits goval.splits gotype.splits)

lemma planValues_fits:
  assumes "planValues x t = Some vs" "\<And>w. x = Some w \<Longrightarrow> val_ok w"
  shows "vs \<noteq> [] \<and> (\<forall>v \<in> set vs. fits v t)"
proof -
  obtain xs where xs: "elements x = Some xs" "xs \<noteq> []" "map (\<lambda>y. planValue y t) xs = map Some vs"
    using assms(1) by (auto simp: planValues_def those_Some split: option.splits if_splits)
  have "fits v t" if v: "v \<in> set vs" for v
  proof -
    have "Some v \<in> set (map Some vs)" using v by simp
    then obtain y where y: "y \<in> set xs" "planValue y t = Some v"
      unfolding xs(3) [symmetric] by (auto simp: eq_commute)
    then show ?thesis
      using elements_val_ok [OF xs(1) assms(2)] by (intro planValue_fits [of y]) auto
  qed
  moreover have "vs \<noteq> []" using xs(2,3) by (cases vs) auto
  ultimately show ?thesis by blast
qed

lemma validPlanValue_fits: "validPlanValue x t \<Longrightarrow> (\<And>w. x = Some w \<Longrightarrow> val_ok w) \<Longrightarrow> \<exists>v. x = Some v \<and> fits v t"
  by (auto simp: validPlanValue_def fits_def split: option.splits)

section \<open>The compiler keeps its plan typed\<close>

definition compiler_ok :: "plan_compiler \<Rightarrow> bool" where
  "compiler_ok pc \<longleftrightarrow> aliases_ok (pc_aliases pc) \<and> plan_typed (pc_aliases pc) (pc_plan pc) \<and>
     pc_nodeCount pc = int (plan_nodes (pc_plan pc)) \<and> pc_nodeCount pc \<le> maxQueryPlanNodes \<and>
     pc_bindingCount pc = int (plan_bindings (pc_plan pc)) \<and> pc_bindingCount pc \<le> maxPlanBindings"

lemma foldE_keeps:
  assumes "foldE f xs s = Inr s'" "P s" "\<And>x s s'. x \<in> set xs \<Longrightarrow> P s \<Longrightarrow> f x s = Inr s' \<Longrightarrow> P s'"
  shows "P s'"
  using assms by (induction xs arbitrary: s) (auto simp: bindE_Inr_iff)

lemma resolveEntity_ok:
  assumes "resolver_ok resolver" "resolveEntity resolver e a = Inr r"
  shows "descriptor_ok (re_metadata r) \<and> pe_alias (re_entity r) = a \<and> pe_table (re_entity r) = md_Table (re_metadata r)"
  using assms by (auto simp: resolveEntity_def resolver_ok_def split: option.splits if_splits)

lemma root_alias_lower: "lowerCamelPattern rootQueryAlias"
  by code_simp

lemma newPlanCompiler_ok:
  assumes "resolver_ok resolver" "newPlanCompiler resolver e = Inr pc"
  shows "compiler_ok pc"
  using assms(2) resolveEntity_ok [OF assms(1)] root_alias_lower
  by (auto simp: newPlanCompiler_def bindE_Inr_iff compiler_ok_def aliases_ok_def plan_typed_def plan_nodes_def plan_bindings_def
      maxQueryPlanNodes_def maxPlanBindings_def split: if_splits)

lemma resolveColumn_ok:
  assumes "aliases_ok (pc_aliases pc)" "resolveColumn pc ref = Inr c"
  shows "column_ok (pc_aliases pc) c"
proof -
  let ?a = "if cr_alias ref = [] then rootQueryAlias else cr_alias ref"
  obtain r f where r: "map_of (pc_aliases pc) ?a = Some r" "md_Field (re_metadata r) (cr_name ref) = Some f" "ef_Persistent f"
      "c = makePlanColumn r f"
    using assms(2) unfolding resolveColumn_def by (auto split: option.splits if_splits)
  have ok: "descriptor_ok (re_metadata r)" "pe_alias (re_entity r) = ?a" using assms(1) r(1) unfolding aliases_ok_def by blast+
  have "f \<in> set (md_PersistentFields (re_metadata r))"
    using r(2,3) by (simp add: md_Field_iff [OF ok(1)] persistent_member [OF ok(1)])
  then show ?thesis using r(1,4) ok(2) by (auto simp: column_ok_def makePlanColumn_def)
qed

lemma column_valid:
  assumes "aliases_ok als" "column_ok als c"
  shows "isValidColumn c"
proof -
  obtain r f where r: "map_of als (pl_alias c) = Some r" "f \<in> set (md_PersistentFields (re_metadata r))" "c = makePlanColumn r f"
    using assms(2) by (auto simp: column_ok_def)
  have ok: "lowerCamelPattern (pl_alias c)" "descriptor_ok (re_metadata r)" "pe_table (re_entity r) = md_Table (re_metadata r)"
    using assms(1) r(1) by (auto simp: aliases_ok_def)
  have "lowerCamelPattern (ef_Column f)"
    using persistent_member [OF ok(2)] field_ok_member [OF ok(2)] r(2) by (auto simp: field_ok_def)
  then show ?thesis using ok by (simp add: isValidColumn_def r(3) makePlanColumn_def descriptor_ok_def)
qed

lemma addNodes_Inr_iff: "addNodes k pc = Inr pc' \<longleftrightarrow>
    pc_nodeCount pc + int k \<le> maxQueryPlanNodes \<and> pc' = pc\<lparr>pc_nodeCount := pc_nodeCount pc + int k\<rparr>"
  by (auto simp: addNodes_def)

lemma addBindings_Inr_iff: "addBindings k req pc = Inr pc' \<longleftrightarrow>
    pc_bindingCount pc + int k \<le> maxPlanBindings \<and> pc' = pc\<lparr>pc_bindingCount := pc_bindingCount pc + int k\<rparr>"
  by (auto simp: addBindings_def)

lemma resolveColumn_counts [simp]:
  "resolveColumn (pc\<lparr>pc_nodeCount := x\<rparr>) ref = resolveColumn pc ref" "resolveColumn (pc\<lparr>pc_bindingCount := x\<rparr>) ref = resolveColumn pc ref"
  by (simp_all add: resolveColumn_def)

subsection \<open>More aliases\<close>

lemma column_ok_mono: "column_ok als c \<Longrightarrow> map_of als \<subseteq>\<^sub>m map_of als' \<Longrightarrow> column_ok als' c"
  unfolding column_ok_def map_le_def by (metis domI)

lemma condition_typed_mono: "condition_typed als n \<Longrightarrow> map_of als \<subseteq>\<^sub>m map_of als' \<Longrightarrow> condition_typed als' n"
  using column_ok_mono [of als _ als'] unfolding condition_typed_def by (cases "pn_operator n") auto

lemma plan_typed_mono:
  assumes "plan_typed als q" "map_of als \<subseteq>\<^sub>m map_of als'"
  shows "plan_typed als' q"
proof -
  have "map_of als a = Some r \<Longrightarrow> map_of als' a = Some r" for a r
    using assms(2) by (metis domI map_le_def)
  then show ?thesis
    using assms column_ok_mono [OF _ assms(2)] condition_typed_mono [OF _ assms(2)] unfolding plan_typed_def by blast
qed

lemma compileJoin_ok:
  assumes "resolver_ok resolver" "compiler_ok pc" "compileJoin resolver j pc = Inr pc'"
  shows "compiler_ok pc'"
proof -
  have al: "lowerCamelPattern (jo_Alias j)" "map_of (pc_aliases pc) (jo_Alias j) = None" "jo_Type j = JoinLeft \<or> jo_Type j = JoinInner"
    using assms(3) unfolding compileJoin_def by (auto split: if_splits)
  have neq: "jo_Alias j \<noteq> rootQueryAlias"
    using assms(3) unfolding compileJoin_def by (auto split: if_splits)
  obtain current where current: "resolveEntity resolver (jo_Entity j) (jo_Alias j) = Inr current"
    using assms(3) al neq unfolding compileJoin_def by (cases "resolveEntity resolver (jo_Entity j) (jo_Alias j)") auto
  obtain c where c: "jo_Condition j = Some c" "cn_operator c = OpOn"
    using assms(3) al neq current unfolding compileJoin_def by (auto split: option.splits if_splits)
  let ?pc = "pc\<lparr>pc_aliases := mput (jo_Alias j) current (pc_aliases pc)\<rparr>"
  obtain l r where l: "resolveColumn ?pc (cn_column c) = Inr l" and r: "resolveColumn ?pc (cn_right c) = Inr r"
    using assms(3) al neq current c unfolding compileJoin_def Let_def
    by (cases "resolveColumn ?pc (cn_column c)"; cases "resolveColumn ?pc (cn_right c)") auto
  have "compileJoin resolver j pc =
      (if (pl_alias l = jo_Alias j) = (pl_alias r = jo_Alias j) then Inl (core ''join unreachable'')
       else if value_type (pl_goType l) \<noteq> value_type (pl_goType r) then Inl (core ''join types'')
       else Inr (?pc\<lparr>pc_plan := (pc_plan ?pc)\<lparr>qp_joins := qp_joins (pc_plan ?pc) @
         [\<lparr>pj_type = jo_Type j, pj_table = pe_table (re_entity current), pj_alias = jo_Alias j, pj_left = l, pj_right = r\<rparr>]\<rparr>\<rparr>))"
    using al(3) by (elim disjE) (simp_all add: compileJoin_def al(1,2) neq current c l r Let_def)
  then have ty: "value_type (pl_goType l) = value_type (pl_goType r)"
    and pc': "pc' = pc\<lparr>pc_aliases := mput (jo_Alias j) current (pc_aliases pc), pc_plan := (pc_plan pc)\<lparr>qp_joins := qp_joins (pc_plan pc) @
         [\<lparr>pj_type = jo_Type j, pj_table = pe_table (re_entity current), pj_alias = jo_Alias j, pj_left = l, pj_right = r\<rparr>]\<rparr>\<rparr>"
    using assms(3) by (simp_all split: if_splits)
  let ?als = "mput (jo_Alias j) current (pc_aliases pc)"
  have als: "aliases_ok ?als"
    using assms(2) resolveEntity_ok [OF assms(1) current] al(1) by (auto simp: compiler_ok_def aliases_ok_def)
  have "map_of (pc_aliases pc) \<subseteq>\<^sub>m map_of ?als" using al(2) by (auto simp: map_le_def)
  then have q: "plan_typed ?als (pc_plan pc)" using assms(2) plan_typed_mono unfolding compiler_ok_def by blast
  have "column_ok ?als l" "column_ok ?als r"
    using resolveColumn_ok [OF _ l] resolveColumn_ok [OF _ r] als by simp_all
  then show ?thesis
    using assms(2) als q al(3) ty by (auto simp: compiler_ok_def pc' plan_typed_def plan_nodes_def plan_bindings_def)
qed

subsection \<open>Selections\<close>

lemma appendSelect_ok:
  assumes "compiler_ok pc" "column_ok (pc_aliases pc) c" "lowerCamelPattern a" "appendSelect c a pc = Inr pc'"
  shows "compiler_ok pc' \<and> pc_aliases pc' = pc_aliases pc"
  using assms
  by (auto simp: appendSelect_def bindE_Inr_iff addNodes_Inr_iff compiler_ok_def plan_typed_def plan_nodes_def plan_bindings_def
      split: if_splits)

lemma compileSelect_ok:
  assumes "compiler_ok pc" "\<And>g. f = Some g \<Longrightarrow> select_declared g" "compileSelect f pc = Inr pc'"
  shows "compiler_ok pc'"
proof (cases f)
  case (Some g)
  show ?thesis
  proof (cases g)
    case (AllSelect a)
    then obtain r where r: "map_of (pc_aliases pc) a = Some r"
      and fold: "foldE (\<lambda>e. appendSelect (makePlanColumn r e) (ef_JSONName e)) (md_PersistentFields (re_metadata r)) pc = Inr pc'"
      using assms(3) Some by (auto simp: compileSelect_def split: option.splits)
    have ok: "descriptor_ok (re_metadata r)" "pe_alias (re_entity r) = a"
      using assms(1) r by (auto simp: compiler_ok_def aliases_ok_def)
    have "compiler_ok pc' \<and> pc_aliases pc' = pc_aliases pc"
      using fold
    proof (rule foldE_keeps [where P = "\<lambda>p. compiler_ok p \<and> pc_aliases p = pc_aliases pc"])
      fix e p p'
      assume e: "e \<in> set (md_PersistentFields (re_metadata r))" and p: "compiler_ok p \<and> pc_aliases p = pc_aliases pc"
        and s: "appendSelect (makePlanColumn r e) (ef_JSONName e) p = Inr p'"
      have "column_ok (pc_aliases p) (makePlanColumn r e)"
        using e p r ok(2) by (auto simp: column_ok_def makePlanColumn_def)
      moreover have "lowerCamelPattern (ef_JSONName e)"
        using field_ok_member [OF ok(1)] persistent_member [OF ok(1)] e by (auto simp: field_ok_def)
      ultimately show "compiler_ok p' \<and> pc_aliases p' = pc_aliases pc"
        using appendSelect_ok [OF _ _ _ s] p by simp
    qed (use assms(1) in simp)
    then show ?thesis by blast
  next
    case (AliasedSelect c a)
    obtain col where col: "resolveColumn pc c = Inr col" "appendSelect col a pc = Inr pc'"
      using assms(3) Some AliasedSelect by (auto simp: compileSelect_def bindE_Inr_iff)
    have "column_ok (pc_aliases pc) col" using assms(1) resolveColumn_ok [OF _ col(1)] by (simp add: compiler_ok_def)
    moreover have "lowerCamelPattern a" using assms(2) Some AliasedSelect by (auto simp: select_declared_def)
    ultimately show ?thesis using appendSelect_ok [OF assms(1) _ _ col(2)] by blast
  qed
qed (use assms(3) in \<open>simp add: compileSelect_def\<close>)

section \<open>Conditions\<close>

text \<open>A condition whose nodes and bindings have been counted, to be added to the plan.\<close>

definition counted :: "plan_compiler \<Rightarrow> plan_condition \<Rightarrow> plan_compiler \<Rightarrow> bool" where
  "counted pc n pc' \<longleftrightarrow> condition_typed (pc_aliases pc) n \<and>
     pc' = pc\<lparr>pc_nodeCount := pc_nodeCount pc + int (condition_nodes n), pc_bindingCount := pc_bindingCount pc + int (condition_bindings n)\<rparr> \<and>
     pc_nodeCount pc' \<le> maxQueryPlanNodes \<and> pc_bindingCount pc' \<le> maxPlanBindings"

lemma counted_add:
  assumes "compiler_ok pc" "counted pc n pc'"
  shows "compiler_ok (add_where n pc') \<and> pc_aliases (add_where n pc') = pc_aliases pc"
    and "compiler_ok (add_having n pc') \<and> pc_aliases (add_having n pc') = pc_aliases pc"
  using assms
  by (auto simp: compiler_ok_def counted_def add_where_def add_having_def plan_typed_def plan_nodes_def plan_bindings_def)

lemma counted_binding:
  assumes "addNodes (condition_nodes n) pc = Inr p" "addBindings (condition_bindings n) b p = Inr pc'"
    "condition_typed (pc_aliases pc) n"
  shows "counted pc n pc'"
  using assms by (auto simp: counted_def addNodes_Inr_iff addBindings_Inr_iff)

lemma counted_unbound:
  assumes "compiler_ok pc" "addNodes (condition_nodes n) pc = Inr pc'" "condition_bindings n = 0" "condition_typed (pc_aliases pc) n"
  shows "counted pc n pc'"
  using assms by (auto simp: counted_def addNodes_Inr_iff compiler_ok_def)

lemma new_condition_counts:
  "operator \<noteq> OpKeyword \<Longrightarrow> condition_nodes (new_plan_condition operator c x) = 1"
  "operator \<notin> {OpKeyword, OpRaw, OpIn} \<Longrightarrow> condition_bindings (new_plan_condition operator c (Some v)) = 1"
  "operator \<notin> {OpKeyword, OpRaw} \<Longrightarrow> condition_bindings (new_plan_condition operator c None) = 0"
  "condition_bindings (new_plan_condition OpIn c (Some (VList t xs))) = length xs"
  by (cases operator; auto simp: condition_nodes_def condition_bindings_def new_plan_condition_def split: goval.splits)+

lemma new_condition_typed:
  assumes "column_ok als c"
  shows "vs \<noteq> [] \<Longrightarrow> \<forall>v \<in> set vs. fits v (pl_goType c) \<Longrightarrow> condition_typed als (new_plan_condition OpIn c (Some (VList any_slice (map Some vs))))"
    and "pl_logicalType c = LogicalString \<Longrightarrow> condition_typed als (new_plan_condition OpLike c (Some (go_string s)))"
    and "operator = OpEQ \<or> operator = OpNE \<Longrightarrow> fits v (pl_goType c) \<Longrightarrow> condition_typed als (new_plan_condition operator c (Some v))"
    and "operator = OpEQ \<or> operator = OpNE \<Longrightarrow> pl_nullable c \<Longrightarrow> condition_typed als (new_plan_condition operator c None)"
    and "operator \<in> {OpGT, OpGTE, OpLT, OpLTE} \<Longrightarrow> supportsOrdering (pl_logicalType c) \<Longrightarrow> fits v (pl_goType c) \<Longrightarrow>
      condition_typed als (new_plan_condition operator c (Some v))"
  using assms by (auto simp: condition_typed_def new_plan_condition_def)

lemma compileCondition_ok:
  assumes "compiler_ok pc" "condition_declared n" "compileCondition n pc = Inr (c, pc')"
  shows "counted pc c pc'"
proof (cases "cn_operator n = OpRaw")
  case True
  let ?c = "\<lparr>pn_operator = OpRaw, pn_column = None, pn_columns = [], pn_value = None, pn_expression = cn_expression n, pn_arguments = cn_arguments n\<rparr>"
  have n: "condition_nodes ?c = 1" "condition_bindings ?c = length (cn_arguments n)"
    by (simp_all add: condition_nodes_def condition_bindings_def)
  obtain p where "addNodes 1 pc = Inr p" "addBindings (length (cn_arguments n)) False p = Inr pc'" "c = ?c"
    using assms(3) True by (auto simp: compileCondition_def bindE_Inr_iff)
  moreover have "condition_typed (pc_aliases pc) ?c"
    using assms(2) True by (simp add: condition_typed_def condition_declared_def)
  ultimately show ?thesis using counted_binding [of ?c pc] n by simp
next
  case raw: False
  then have op: "cn_operator n \<noteq> OpOn" "cn_operator n \<noteq> OpKeyword"
    using assms(3) by (auto simp: compileCondition_def split: if_splits)
  obtain col where col: "resolveColumn pc (cn_column n) = Inr col"
    using assms(3) raw op by (cases "resolveColumn pc (cn_column n)") (auto simp: compileCondition_def)
  obtain p where p: "addNodes 1 pc = Inr p"
    using assms(3) raw op col by (cases "addNodes 1 pc") (auto simp: compileCondition_def)
  have ok: "column_ok (pc_aliases pc) col" using assms(1) col resolveColumn_ok by (simp add: compiler_ok_def)
  have val: "cn_value n = Some v \<Longrightarrow> val_ok v" for v using assms(2) by (simp add: condition_declared_def)
  have bound: "counted pc (new_plan_condition (cn_operator n) col (Some v)) pc'"
    if "cn_operator n \<noteq> OpIn" "addBindings 1 False p = Inr pc'" "condition_typed (pc_aliases pc) (new_plan_condition (cn_operator n) col (Some v))" for v
    using counted_binding [of "new_plan_condition (cn_operator n) col (Some v)" pc p False pc'] p that raw op
    by (simp add: new_condition_counts)
  note body = assms(3) [unfolded compileCondition_def, simplified raw op col p if_False simp_thms bindE_simps Let_def]
  consider "cn_operator n = OpIn" | "cn_operator n = OpLike" | "cn_operator n = OpEQ \<or> cn_operator n = OpNE"
    | "cn_operator n \<in> {OpGT, OpGTE, OpLT, OpLTE}"
    using raw op by (cases "cn_operator n") auto
  then show ?thesis
  proof cases
    case 1
    then obtain vs where vs: "planValues (cn_value n) (pl_goType col) = Some vs" "addBindings (length vs) False p = Inr pc'"
      "c = new_plan_condition OpIn col (Some (VList any_slice (map Some vs)))"
      using body by (auto simp: bindE_Inr_iff split: option.splits)
    then show ?thesis
      using counted_binding [of c pc p False pc'] p new_condition_typed(1) [OF ok] planValues_fits [OF vs(1) val]
      by (simp add: new_condition_counts)
  next
    case 2
    then obtain s where s: "pl_logicalType col = LogicalString" "addBindings 1 False p = Inr pc'" "c = new_plan_condition OpLike col (Some (go_string s))"
      using body by (auto simp: bindE_Inr_iff split: option.splits if_splits)
    then show ?thesis using bound [of "go_string s"] new_condition_typed(2) [OF ok] 2 by simp
  next
    case 3
    show ?thesis
    proof (cases "isNilValue (cn_value n)")
      case True
      then have "pl_nullable col \<and> c = new_plan_condition (cn_operator n) col None \<and> pc' = p"
        using body 3 by (elim disjE) (auto split: if_splits)
      then show ?thesis
        using counted_unbound [OF assms(1), of c pc'] p new_condition_typed(4) [OF ok 3] 3
        by (elim disjE) (simp_all add: new_condition_counts)
    next
      case False
      then have v: "validPlanValue (cn_value n) (pl_goType col) \<and> c = new_plan_condition (cn_operator n) col (cn_value n) \<and> addBindings 1 False p = Inr pc'"
        using body 3 by (elim disjE) (auto simp: bindE_Inr_iff split: if_splits)
      then obtain w where "cn_value n = Some w" "fits w (pl_goType col)" using validPlanValue_fits [OF _ val] by blast
      then show ?thesis using v bound [of w] new_condition_typed(3) [OF ok 3] 3 by auto
    qed
  next
    case 4
    then have v: "supportsOrdering (pl_logicalType col) \<and> validPlanValue (cn_value n) (pl_goType col) \<and>
        c = new_plan_condition (cn_operator n) col (cn_value n) \<and> addBindings 1 False p = Inr pc'"
      using body by (auto simp: bindE_Inr_iff split: if_splits)
    then obtain w where "cn_value n = Some w" "fits w (pl_goType col)" using validPlanValue_fits [OF _ val] by blast
    then show ?thesis using v bound [of w] new_condition_typed(5) [OF ok 4] 4 by auto
  qed
qed

section \<open>The steps of the compiler\<close>

text \<open>A later compiler keeps the joins and the selections.\<close>

definition advances :: "plan_compiler \<Rightarrow> plan_compiler \<Rightarrow> bool" where
  "advances pc pc' \<longleftrightarrow> compiler_ok pc' \<and> pc_aliases pc' = pc_aliases pc \<and> qp_joins (pc_plan pc') = qp_joins (pc_plan pc) \<and>
     length (qp_selects (pc_plan pc)) \<le> length (qp_selects (pc_plan pc'))"

lemma advances_refl: "compiler_ok pc \<Longrightarrow> advances pc pc"
  by (simp add: advances_def)

lemma advances_trans: "advances a b \<Longrightarrow> advances b c \<Longrightarrow> advances a c"
  by (auto simp: advances_def)

lemma foldE_advances:
  assumes "foldE f xs s = Inr s'" "compiler_ok s" "\<And>x p p'. x \<in> set xs \<Longrightarrow> compiler_ok p \<Longrightarrow> f x p = Inr p' \<Longrightarrow> advances p p'"
  shows "advances s s'"
  by (rule foldE_keeps [where P = "advances s", OF assms(1) advances_refl [OF assms(2)]])
    (meson advances_def advances_trans assms(3))

lemma counted_advances:
  assumes "compiler_ok pc" "counted pc n pc'"
  shows "advances pc (add_where n pc')" "advances pc (add_having n pc')"
  using counted_add [OF assms] assms(2) by (auto simp: advances_def counted_def add_where_def add_having_def)

lemma compileSelect_grows:
  "compileSelect f pc = Inr pc' \<Longrightarrow> pc_aliases pc' = pc_aliases pc \<and> qp_joins (pc_plan pc') = qp_joins (pc_plan pc) \<and>
     length (qp_selects (pc_plan pc)) \<le> length (qp_selects (pc_plan pc'))"
proof -
  assume c: "compileSelect f pc = Inr pc'"
  let ?P = "\<lambda>p. pc_aliases p = pc_aliases pc \<and> qp_joins (pc_plan p) = qp_joins (pc_plan pc) \<and> length (qp_selects (pc_plan pc)) \<le> length (qp_selects (pc_plan p))"
  have s: "?P p \<Longrightarrow> appendSelect col a p = Inr p' \<Longrightarrow> ?P p'" for col a p p'
    by (auto simp: appendSelect_def bindE_Inr_iff addNodes_Inr_iff split: if_splits)
  have fold: "foldE (\<lambda>e. appendSelect (makePlanColumn r e) (ef_JSONName e)) es pc = Inr pc' \<Longrightarrow> ?P pc'" for r es
    by (rule foldE_keeps [where P = ?P], assumption, simp, rule s)
  show ?thesis
  proof (cases f)
    case None
    then show ?thesis using c by (simp add: compileSelect_def)
  next
    case (Some g)
    show ?thesis
    proof (cases g)
      case (AllSelect a)
      then obtain r where "foldE (\<lambda>e. appendSelect (makePlanColumn r e) (ef_JSONName e)) (md_PersistentFields (re_metadata r)) pc = Inr pc'"
        using c Some by (auto simp: compileSelect_def split: option.splits)
      then show ?thesis by (rule fold)
    next
      case (AliasedSelect col a)
      then obtain pcol where "appendSelect pcol a pc = Inr pc'"
        using c Some by (auto simp: compileSelect_def bindE_Inr_iff)
      then show ?thesis by (rule s [rotated]) simp_all
    qed
  qed
qed

lemma appendSelect_nonempty: "appendSelect c a p = Inr p' \<Longrightarrow> qp_selects (pc_plan p') \<noteq> []"
  by (auto simp: appendSelect_def bindE_Inr_iff addNodes_Inr_iff split: if_splits)

lemma compileSelect_nonempty:
  assumes "compiler_ok pc" "compileSelect f pc = Inr pc'"
  shows "qp_selects (pc_plan pc') \<noteq> []"
proof (cases f)
  case None
  then show ?thesis using assms(2) by (simp add: compileSelect_def)
next
  case (Some g)
  show ?thesis
  proof (cases g)
    case (AllSelect a)
    then obtain r where r: "map_of (pc_aliases pc) a = Some r"
      and fold: "foldE (\<lambda>e. appendSelect (makePlanColumn r e) (ef_JSONName e)) (md_PersistentFields (re_metadata r)) pc = Inr pc'"
      using assms(2) Some by (auto simp: compileSelect_def split: option.splits)
    have "descriptor_ok (re_metadata r)" using assms(1) r by (auto simp: compiler_ok_def aliases_ok_def)
    then have "md_PersistentFields (re_metadata r) \<noteq> []" using primary_member persistent_member by fastforce
    then obtain e es where e: "md_PersistentFields (re_metadata r) = e # es" by (cases "md_PersistentFields (re_metadata r)") auto
    obtain p where p: "appendSelect (makePlanColumn r e) (ef_JSONName e) pc = Inr p"
      "foldE (\<lambda>e. appendSelect (makePlanColumn r e) (ef_JSONName e)) es p = Inr pc'"
      using fold by (auto simp: e bindE_Inr_iff)
    show ?thesis
      by (rule foldE_keeps [where P = "\<lambda>p. qp_selects (pc_plan p) \<noteq> []", OF p(2)]) (use appendSelect_nonempty p(1) in blast)+
  next
    case (AliasedSelect c a)
    then show ?thesis using assms(2) Some appendSelect_nonempty by (auto simp: compileSelect_def bindE_Inr_iff)
  qed
qed

lemma compileSelects_ok:
  assumes "compiler_ok pc" "\<And>g. Some g \<in> set fs \<Longrightarrow> select_declared g" "fs \<noteq> []" "compileSelects fs pc = Inr pc'"
  shows "advances pc pc' \<and> qp_selects (pc_plan pc') \<noteq> []"
proof -
  have step: "advances p p'" if "f \<in> set fs" "compiler_ok p" "compileSelect f p = Inr p'" for f p p'
    using compileSelect_ok [OF that(2) _ that(3)] compileSelect_grows [OF that(3)] assms(2) that(1) by (auto simp: advances_def)
  obtain f gs where fs: "fs = f # gs" using assms(3) by (cases fs) auto
  obtain p where p: "compileSelect f pc = Inr p" "foldE compileSelect gs p = Inr pc'"
    using assms(4) by (auto simp: compileSelects_def fs bindE_Inr_iff)
  have a: "advances pc p" using step [of f pc p] p(1) assms(1) fs by simp
  then have "compiler_ok p" by (simp add: advances_def)
  from foldE_advances [OF p(2) this] have b: "advances p pc'" using step fs by auto
  have "length (qp_selects (pc_plan p)) > 0" using compileSelect_nonempty [OF assms(1) p(1)] by simp
  then have "qp_selects (pc_plan pc') \<noteq> []" using b by (auto simp: advances_def)
  then show ?thesis using advances_trans [OF a b] by blast
qed

lemma compileConditions_ok:
  assumes "compiler_ok pc" "list_all condition_declared ns" "compileConditions add ns pc = Inr pc'" "add = add_where \<or> add = add_having"
  shows "advances pc pc'"
  using assms(3) unfolding compileConditions_def
proof (rule foldE_advances [OF _ assms(1)])
  fix n p p'
  assume n: "n \<in> set ns" "compiler_ok p" "bindE (compileCondition n p) (\<lambda>(c, pc). Inr (add c pc)) = Inr p'"
  then obtain c p1 where c: "compileCondition n p = Inr (c, p1)" "p' = add c p1" by (auto simp: bindE_Inr_iff)
  have "condition_declared n" using assms(2) n(1) by (simp add: list_all_iff)
  then show "advances p p'"
    using counted_advances [OF n(2) compileCondition_ok [OF n(2) _ c(1)]] c(2) assms(4) by blast
qed

lemma string_column_ok:
  assumes "compiler_ok pc" "string_column pc ref = Inr c"
  shows "column_ok (pc_aliases pc) c \<and> pl_logicalType c = LogicalString"
  using assms resolveColumn_ok by (auto simp: string_column_def bindE_Inr_iff compiler_ok_def split: if_splits)

lemma compileKeyword_ok:
  assumes "compiler_ok pc" "compileKeyword refs req pc = Inr pc'"
  shows "advances pc pc'"
proof -
  obtain cs where cs: "mapE (string_column pc) refs = Inr cs" using assms(2) by (auto simp: compileKeyword_def bindE_Inr_iff)
  have ok: "column_ok (pc_aliases pc) c \<and> pl_logicalType c = LogicalString" if "c \<in> set cs" for c
    using cs that string_column_ok [OF assms(1)] unfolding mapE_Inr_iff by (auto simp: list_all2_conv_all_nth in_set_conv_nth)
  show ?thesis
  proof (cases "pc' = pc")
    case True
    then show ?thesis using advances_refl assms(1) by simp
  next
    case False
    then obtain x k where x: "request_Value req ''keyWord'' = Some x" "as_string x = Some k" "k \<noteq> []" "cs \<noteq> []"
      using assms(2) by (auto simp: compileKeyword_def cs split: option.splits if_splits)
    let ?c = "\<lparr>pn_operator = OpKeyword, pn_column = None, pn_columns = cs, pn_value = None, pn_expression = [],
        pn_arguments = map (\<lambda>_. Some (go_string (like_pattern k))) cs\<rparr>"
    obtain p1 p2 where p: "addNodes (length cs) pc = Inr p1" "addBindings (length cs) True p1 = Inr p2" "pc' = add_where ?c p2"
      using assms(2) x by (auto simp: compileKeyword_def cs bindE_Inr_iff)
    have n: "condition_nodes ?c = length cs" "condition_bindings ?c = length cs"
      by (simp_all add: condition_nodes_def condition_bindings_def)
    have "condition_typed (pc_aliases pc) ?c" using ok x(4) by (auto simp: condition_typed_def)
    then have "counted pc ?c p2" using counted_binding [of ?c pc p1 True p2] p(1,2) n by simp
    then show ?thesis using counted_advances(1) [OF assms(1)] p(3) by blast
  qed
qed

lemma compileFieldLike_ok:
  assumes "compiler_ok pc" "compileFieldLike req m pc = Inr pc'"
  shows "advances pc pc'"
proof -
  obtain c where c: "string_column pc (fm_Column m) = Inr c"
    using assms(2) by (auto simp: compileFieldLike_def bindE_Inr_iff split: if_splits)
  show ?thesis
  proof (cases "request_Value req (fm_RequestParam m)")
    case None
    then show ?thesis using assms advances_refl c by (auto simp: compileFieldLike_def split: if_splits)
  next
    case (Some x)
    then obtain s p1 p2 where p: "addNodes 1 pc = Inr p1" "addBindings 1 True p1 = Inr p2"
      "pc' = add_where (new_plan_condition OpLike c (Some (go_string (like_pattern s)))) p2"
      using assms(2) c by (auto simp: compileFieldLike_def bindE_Inr_iff split: if_splits option.splits)
    have "counted pc (new_plan_condition OpLike c (Some (go_string (like_pattern s)))) p2"
      using counted_binding [of "new_plan_condition OpLike c (Some (go_string (like_pattern s)))" pc p1 True p2] p(1,2)
        new_condition_typed(2) string_column_ok [OF assms(1) c] by (simp add: new_condition_counts)
    then show ?thesis using counted_advances(1) [OF assms(1)] p(3) by blast
  qed
qed

lemma counted_bound_first:
  assumes "addBindings (condition_bindings n) b pc = Inr p" "addNodes (condition_nodes n) p = Inr pc'" "condition_typed (pc_aliases pc) n"
  shows "counted pc n pc'"
  using assms by (auto simp: counted_def addNodes_Inr_iff addBindings_Inr_iff)

lemma compileFieldEq_ok:
  assumes "compiler_ok pc" "request_declared req" "compileFieldEq req m pc = Inr pc'"
  shows "advances pc pc'"
proof -
  let ?v = "request_Value req (fm_RequestParam m)"
  obtain c where c: "resolveColumn pc (fm_Column m) = Inr c"
    using assms(3) by (auto simp: compileFieldEq_def bindE_Inr_iff split: if_splits)
  have ok: "column_ok (pc_aliases pc) c" using resolveColumn_ok [OF _ c] assms(1) by (simp add: compiler_ok_def)
  consider "?v = None" | "?v = Some None" | v where "?v = Some (Some v)" by (cases ?v) auto
  then show ?thesis
  proof cases
    case 1
    then show ?thesis using assms(1,3) advances_refl c by (auto simp: compileFieldEq_def split: if_splits)
  next
    case 2
    then obtain p where p: "pl_nullable c" "addNodes 1 pc = Inr p" "pc' = add_where (new_plan_condition OpEQ c None) p"
      using assms(3) c by (auto simp: compileFieldEq_def Let_def bindE_Inr_iff split: if_splits)
    have "counted pc (new_plan_condition OpEQ c None) p"
      using counted_unbound [OF assms(1), of "new_plan_condition OpEQ c None" p] p(1,2) new_condition_typed(4) [OF ok]
      by (simp add: new_condition_counts)
    then show ?thesis using counted_advances(1) [OF assms(1)] p(3) by blast
  next
    case (3 v)
    have val: "w = v \<Longrightarrow> val_ok w" for w using assms(2) 3 by (auto simp: request_declared_def)
    show ?thesis
    proof (cases "elements (Some v)")
      case None
      then obtain w p1 p2 where w: "planValue (Some v) (pl_goType c) = Some w" and p: "addBindings 1 True pc = Inr p1" "addNodes 1 p1 = Inr p2"
        "pc' = add_where (new_plan_condition OpEQ c (Some w)) p2"
        using assms(3) c 3 by (auto simp: compileFieldEq_def Let_def bindE_Inr_iff split: if_splits option.splits)
      have "counted pc (new_plan_condition OpEQ c (Some w)) p2"
        using counted_bound_first [of "new_plan_condition OpEQ c (Some w)" True pc p1 p2] p(1,2) new_condition_typed(3) [OF ok]
          planValue_fits [OF w] val by (simp add: new_condition_counts)
      then show ?thesis using counted_advances(1) [OF assms(1)] p(3) by blast
    next
      case (Some xs)
      show ?thesis
      proof (cases "xs = []")
        case True
        then show ?thesis using assms(1,3) advances_refl c 3 Some by (auto simp: compileFieldEq_def split: if_splits)
      next
        case False
        let ?c = "\<lambda>vs. new_plan_condition OpIn c (Some (VList any_slice (map Some vs)))"
        obtain vs p1 p2 where w: "planValues (Some v) (pl_goType c) = Some vs" and p: "addBindings (length vs) True pc = Inr p1"
          "addNodes 1 p1 = Inr p2" "pc' = add_where (?c vs) p2"
          using assms(3) c 3 Some False by (auto simp: compileFieldEq_def Let_def bindE_Inr_iff split: if_splits option.splits)
        have "counted pc (?c vs) p2"
          using counted_bound_first [of "?c vs" True pc p1 p2] p(1,2) new_condition_typed(1) [OF ok] planValues_fits [OF w] val
          by (simp add: new_condition_counts)
        then show ?thesis using counted_advances(1) [OF assms(1)] p(3) by blast
      qed
    qed
  qed
qed

lemma compileGroup_ok: "compiler_ok pc \<Longrightarrow> compileGroup ref pc = Inr pc' \<Longrightarrow> advances pc pc'"
  using resolveColumn_ok [of pc ref]
  by (auto simp: compileGroup_def bindE_Inr_iff addNodes_Inr_iff advances_def compiler_ok_def plan_typed_def plan_nodes_def plan_bindings_def)

lemma compileOrder_ok: "compiler_ok pc \<Longrightarrow> compileOrder s pc = Inr pc' \<Longrightarrow> advances pc pc'"
  using resolveColumn_ok [of pc "oo_Column s"]
  by (auto simp: compileOrder_def bindE_Inr_iff addNodes_Inr_iff advances_def compiler_ok_def plan_typed_def plan_nodes_def plan_bindings_def
      split: if_splits)

section \<open>The plan as a whole\<close>

lemma replace_selects_declared:
  "replace_selects m rs fs static = Inr static' \<Longrightarrow> list_all select_declared fs \<Longrightarrow> \<forall>g. Some g \<in> set static \<longrightarrow> select_declared g \<Longrightarrow>
     Some g \<in> set static' \<Longrightarrow> select_declared g"
proof (induction m rs fs static rule: replace_selects.induct)
  case (3 m rs c a fs static)
  then obtain i where i: "replace_selects m (a # rs) fs (static[nat i := Some (AliasedSelect c a)]) = Inr static'"
      "map_of m a = Some i" "\<not> i < 0" "a \<notin> set rs"
    by (auto split: option.splits if_splits)
  have "\<forall>g. Some g \<in> set (static[nat i := Some (AliasedSelect c a)]) \<longrightarrow> select_declared g"
    using 3(3,4) set_update_subset_insert [of static "nat i" "Some (AliasedSelect c a)"] by (auto simp: subset_iff)
  then show ?case using 3(1) [OF i(2-4) i(1)] 3(3,5) by simp
qed auto

lemma mergeSelects_declared:
  assumes "query_declared q" "list_all select_declared fs" "mergeSelects q fs = Inr gs" "Some g \<in> set gs"
  shows "select_declared g"
  using assms replace_selects_declared [of _ "[]" fs "qo_Select q" gs g]
  by (auto simp: mergeSelects_def mergeStaticSelects_def query_declared_def list_all_iff split: query_shape.splits if_splits)

lemma root_alias_declared: "select_declared (AllSelect rootQueryAlias)"
  by (simp add: select_declared_def root_alias_lower)

lemma default_selects_declared: "(\<And>g. Some g \<in> set fs \<Longrightarrow> select_declared g) \<Longrightarrow> Some g \<in> set (default_selects fs) \<Longrightarrow> select_declared g"
  using root_alias_declared by (auto simp: default_selects_def split: if_splits)

lemma compileJoin_length: "compileJoin resolver j pc = Inr pc' \<Longrightarrow> length (qp_joins (pc_plan pc')) = Suc (length (qp_joins (pc_plan pc)))"
  by (auto simp: compileJoin_def bindE_Inr_iff Let_def split: if_splits option.splits)

lemma compileJoin_root: "compileJoin resolver j pc = Inr pc' \<Longrightarrow> map_of (pc_aliases pc') rootQueryAlias = map_of (pc_aliases pc) rootQueryAlias"
  by (auto simp: compileJoin_def bindE_Inr_iff Let_def split: if_splits option.splits)

text \<open>Every alias stands for an entity of the registry.\<close>

definition registered :: "(gotype \<Rightarrow> metadata option) \<Rightarrow> (string, resolved_entity) gomap \<Rightarrow> bool" where
  "registered resolver als \<longleftrightarrow> (\<forall>a r. map_of als a = Some r \<longrightarrow> resolver (pe_entityType (re_entity r)) = Some (re_metadata r))"

lemma resolveEntity_registered: "resolveEntity resolver e a = Inr r \<Longrightarrow> resolver (pe_entityType (re_entity r)) = Some (re_metadata r)"
  by (auto simp: resolveEntity_def split: option.splits if_splits)

lemma compileJoin_aliases:
  assumes "compileJoin resolver j pc = Inr pc'"
  obtains r where "resolveEntity resolver (jo_Entity j) (jo_Alias j) = Inr r" "pc_aliases pc' = mput (jo_Alias j) r (pc_aliases pc)"
  using assms unfolding compileJoin_def by (auto simp: bindE_Inr_iff Let_def split: if_splits option.splits)

lemma compileJoin_registered:
  assumes "compileJoin resolver j pc = Inr pc'" "registered resolver (pc_aliases pc)"
  shows "registered resolver (pc_aliases pc')"
proof -
  obtain r where r: "resolveEntity resolver (jo_Entity j) (jo_Alias j) = Inr r" "pc_aliases pc' = mput (jo_Alias j) r (pc_aliases pc)"
    using compileJoin_aliases [OF assms(1)] by blast
  then show ?thesis using assms(2) resolveEntity_registered [OF r(1)] by (auto simp: registered_def)
qed

lemma compileJoins_ok:
  "foldE (compileJoin resolver) js pc = Inr pc' \<Longrightarrow> resolver_ok resolver \<Longrightarrow> compiler_ok pc \<Longrightarrow>
     compiler_ok pc' \<and> length (qp_joins (pc_plan pc')) = length (qp_joins (pc_plan pc)) + length js \<and>
     map_of (pc_aliases pc') rootQueryAlias = map_of (pc_aliases pc) rootQueryAlias \<and>
     (registered resolver (pc_aliases pc) \<longrightarrow> registered resolver (pc_aliases pc'))"
proof (induction js arbitrary: pc)
  case (Cons j js)
  then obtain p where p: "compileJoin resolver j pc = Inr p" "foldE (compileJoin resolver) js p = Inr pc'"
    by (auto simp: bindE_Inr_iff)
  then show ?case using Cons compileJoin_ok [OF Cons.prems(2,3) p(1)] compileJoin_length [OF p(1)] compileJoin_root [OF p(1)] compileJoin_registered [OF p(1)] by simp
qed simp

lemma run_extender_declared: "query_declared q \<Longrightarrow> run_extender q req = Inr b \<Longrightarrow> builder_declared b"
  by (auto simp: run_extender_def query_declared_def builder_declared_empty split: option.splits sum.splits go_error.splits)

lemma bindE_InrE: "bindE r f = Inr b \<Longrightarrow> (\<And>a. r = Inr a \<Longrightarrow> f a = Inr b \<Longrightarrow> thesis) \<Longrightarrow> thesis"
  by (auto simp: bindE_Inr_iff)

lemma if_InrE: "(if c then Inl e else x) = Inr b \<Longrightarrow> (\<not> c \<Longrightarrow> x = Inr b \<Longrightarrow> thesis) \<Longrightarrow> thesis"
  by (auto split: if_splits)

lemma compileQueryPlan_ok:
  assumes "resolver_ok resolver" "query_declared q" "request_declared req" "compileQueryPlan resolver entity q req = Inr pc"
  shows "compiler_ok pc \<and> length (qp_joins (pc_plan pc)) \<le> maxQueryPlanJoins \<and> qp_selects (pc_plan pc) \<noteq> [] \<and>
    registered resolver (pc_aliases pc) \<and> (\<exists>t d. entity = Some t \<and> resolver t = Some d \<and> map_of (pc_aliases pc) rootQueryAlias = Some (policy_root d t))"
proof -
  obtain p0 b p1 ss p2 p3 p4 p5 p6 p7 p8 p9 where s0: "newPlanCompiler resolver entity = Inr p0" and b: "run_extender q req = Inr b"
    and js: "length (qo_Join q @ qb_joins b) \<le> maxQueryPlanJoins" "foldE (compileJoin resolver) (qo_Join q @ qb_joins b) p0 = Inr p1"
    and ss: "mergeSelects q (qb_selects b) = Inr ss" "compileSelects (default_selects ss) p1 = Inr p2"
    and s3: "compileWhere (qo_Where q) p2 = Inr p3" and s4: "compileKeyword (qo_KeyWordLikeFields q) req p3 = Inr p4"
    and s5: "foldE (compileFieldLike req) (qo_FieldLike q) p4 = Inr p5" and s6: "foldE (compileFieldEq req) (qo_FieldEq q) p5 = Inr p6"
    and s7: "compileConditions add_where (qb_where b) p6 = Inr p7" and s8: "foldE compileGroup (qb_groupBy b) p7 = Inr p8"
    and s9: "compileConditions add_having (qb_having b) p8 = Inr p9" and s10: "foldE compileOrder (qo_AddOrderBy q @ qb_orderBy b) p9 = Inr pc"
    using assms(4) unfolding compileQueryPlan_def by (elim bindE_InrE if_InrE) (rule that; simp)
  have bd: "list_all condition_declared (qb_where b)" "list_all condition_declared (qb_having b)" "list_all select_declared (qb_selects b)"
    using run_extender_declared [OF assms(2) b] by (auto simp: builder_declared_def)
  have ok0: "compiler_ok p0" and j0: "qp_joins (pc_plan p0) = []"
    using newPlanCompiler_ok [OF assms(1) s0] s0 by (auto simp: newPlanCompiler_def bindE_Inr_iff split: if_splits)
  obtain t d where td: "entity = Some t" "resolver t = Some d" "map_of (pc_aliases p0) rootQueryAlias = Some (policy_root d t)"
    using s0 by (auto simp: newPlanCompiler_def resolveEntity_def bindE_Inr_iff policy_root_def split: if_splits option.splits)
  have reg: "registered resolver (pc_aliases p0)"
    using s0 resolveEntity_registered by (auto simp: newPlanCompiler_def bindE_Inr_iff registered_def split: if_splits)
  have p1: "compiler_ok p1 \<and> length (qp_joins (pc_plan p1)) \<le> maxQueryPlanJoins \<and>
      map_of (pc_aliases p1) rootQueryAlias = Some (policy_root d t) \<and> registered resolver (pc_aliases p1)"
    using compileJoins_ok [OF js(2) assms(1) ok0] js(1) j0 td(3) reg by simp
  have "default_selects ss \<noteq> []" by (simp add: default_selects_def)
  then have a2: "advances p1 p2 \<and> qp_selects (pc_plan p2) \<noteq> []"
    using compileSelects_ok [OF _ _ _ ss(2)] default_selects_declared mergeSelects_declared [OF assms(2) bd(3) ss(1)] p1 by blast
  then have ok2: "compiler_ok p2" by (simp add: advances_def)
  have a3: "advances p2 p3"
    using s3 ok2 advances_refl compileConditions_ok [OF ok2] assms(2) by (auto simp: compileWhere_def query_declared_def split: option.splits)
  then have a4: "advances p3 p4" using compileKeyword_ok [OF _ s4] by (simp add: advances_def)
  then have a5: "advances p4 p5" using foldE_advances [OF s5] compileFieldLike_ok by (simp add: advances_def)
  then have a6: "advances p5 p6" using foldE_advances [OF s6] compileFieldEq_ok [OF _ assms(3)] by (simp add: advances_def)
  then have a7: "advances p6 p7" using compileConditions_ok [OF _ bd(1) s7] by (simp add: advances_def)
  then have a8: "advances p7 p8" using foldE_advances [OF s8] compileGroup_ok by (simp add: advances_def)
  then have a9: "advances p8 p9" using compileConditions_ok [OF _ bd(2) s9] by (simp add: advances_def)
  then have a10: "advances p9 pc" using foldE_advances [OF s10] compileOrder_ok by (simp add: advances_def)
  have "advances p2 pc"
    using a10 a9 a8 a7 a6 a5 a4 a3 by (auto simp: advances_def)
  then show ?thesis using p1 a2 td(1,2) by (auto simp: advances_def)
qed

lemma checkCondition_typed:
  assumes "aliases_ok als" "condition_typed als n"
  shows "checkCondition n = Inr ()"
  using assms(2) column_valid [OF assms(1)]
  by (cases "pn_operator n") (auto simp: condition_typed_def checkCondition_def valid_column_def guardE_def eachE_Inr_iff set_zip
      split: option.splits)

lemma aliases_ok_member:
  "aliases_ok als \<Longrightarrow> map_of als a = Some r \<Longrightarrow> lowerCamelPattern a \<and> pe_alias (re_entity r) = a \<and> tableNamePattern (pe_table (re_entity r))"
  by (simp add: aliases_ok_def descriptor_ok_def)

lemma checkPlan_typed:
  assumes "aliases_ok als" "plan_typed als q" "qp_selects q \<noteq> []"
  shows "checkPlan q = Inr ()"
proof -
  obtain r where r: "map_of als rootQueryAlias = Some r" "re_entity r = qp_root q" using assms(2) by (auto simp: plan_typed_def)
  then have root: "tableNamePattern (pe_table (qp_root q))" "pe_alias (qp_root q) = rootQueryAlias"
    using aliases_ok_member [OF assms(1)] by metis+
  have join: "tableNamePattern (pj_table j) \<and> lowerCamelPattern (pj_alias j)" if m: "j \<in> set (qp_joins q)" for j
  proof -
    obtain s where "map_of als (pj_alias j) = Some s" "pe_table (re_entity s) = pj_table j" using m assms(2) unfolding plan_typed_def by blast
    then show ?thesis using aliases_ok_member [OF assms(1)] by metis
  qed
  show ?thesis
    using assms root join column_valid [OF assms(1)] checkCondition_typed [OF assms(1)]
    unfolding checkPlan_def plan_typed_def by (auto simp: eachE_Inr_iff guardE_def bindE_Inr_iff)
qed

end
