(* ===== verification/Crud_Policy.thy ===== *)
theory Crud_Policy
  imports Crud_Properties
begin

text \<open>
  What the policy of a controller on hidden and sortable fields means for the query plans of its
  actions, and the properties of these plans.
\<close>

section \<open>The policy on fields\<close>

lemma resolvePolicyField_ok:
  assumes "descriptor_ok d" "resolvePolicyField d t ref = Inr f"
  shows "f \<in> set (md_PersistentFields d) \<and> ef_Name f = cr_name ref"
  using assms(2) md_Field_iff [OF assms(1)] persistent_member [OF assms(1)]
  by (auto simp: resolvePolicyField_def split: if_splits option.splits)

lemma compileFieldSet_names:
  assumes "descriptor_ok d" "compileFieldSet d t refs = Inr names"
  shows "set names = cr_name ` set refs"
proof -
  have "foldE (add_policy_field d t) refs acc = Inr names \<Longrightarrow> set names = set acc \<union> cr_name ` set refs" for acc
    by (induction refs arbitrary: acc)
      (auto simp: bindE_Inr_iff add_policy_field_def dest!: resolvePolicyField_ok [OF assms(1)] split: if_splits)
  then show ?thesis using assms(2) by (simp add: compileFieldSet_def)
qed

text \<open>Sortable columns are columns of the root whose names are allowed.\<close>

definition sortable_ok :: "metadata \<Rightarrow> gotype \<Rightarrow> (string \<Rightarrow> bool) \<Rightarrow> (string, plan_column) gomap \<Rightarrow> bool" where
  "sortable_ok d t allowed m \<longleftrightarrow> (\<forall>k c. map_of m k = Some c \<longrightarrow>
     (\<exists>f \<in> set (md_PersistentFields d). c = makePlanColumn (policy_root d t) f \<and> allowed (ef_Name f)))"

lemma sortable_ok_mput: "sortable_ok d t allowed m \<Longrightarrow> f \<in> set (md_PersistentFields d) \<Longrightarrow> allowed (ef_Name f) \<Longrightarrow>
    sortable_ok d t allowed (mput k (makePlanColumn (policy_root d t) f) m)"
  by (auto simp: sortable_ok_def)

lemma add_sort_fields_ok:
  assumes "descriptor_ok d"
  shows "foldE (add_sort_field d t) refs m = Inr m' \<Longrightarrow> sortable_ok d t allowed m \<Longrightarrow> \<forall>r \<in> set refs. allowed (cr_name r) \<Longrightarrow>
    sortable_ok d t allowed m'"
proof (induction refs arbitrary: m)
  case (Cons r refs)
  then obtain m1 where m1: "add_sort_field d t r m = Inr m1" "foldE (add_sort_field d t) refs m1 = Inr m'"
    by (auto simp: bindE_Inr_iff)
  then obtain f where f: "resolvePolicyField d t r = Inr f"
    "foldE (add_sort_field d t) refs (mput (ef_JSONName f) (makePlanColumn (policy_root d t) f) m) = Inr m'"
    by (auto simp: bindE_Inr_iff add_sort_field_def split: if_splits)
  have "sortable_ok d t allowed (mput (ef_JSONName f) (makePlanColumn (policy_root d t) f) m)"
    using Cons.prems(2,3) resolvePolicyField_ok [OF assms f(1)] by (simp add: sortable_ok_mput)
  then show ?case using Cons.IH [OF f(2)] Cons.prems(3) by simp
qed simp

lemma auto_sort_fields_ok:
  assumes "sortable_ok d t (\<lambda>n. \<not> IsHidden p n) m"
  shows "sortable_ok d t (\<lambda>n. \<not> IsHidden p n) (auto_sort_fields d t p m)"
proof -
  have "sortable_ok d t allowed m \<Longrightarrow> \<forall>f \<in> set fs. f \<in> set (md_PersistentFields d) \<and> allowed (ef_Name f) \<Longrightarrow>
      sortable_ok d t allowed (foldl (\<lambda>m f. mput (ef_JSONName f) (makePlanColumn (policy_root d t) f) m) m fs)" for fs m allowed
    by (induction fs arbitrary: m) (simp_all add: sortable_ok_mput)
  then show ?thesis using assms by (auto simp: auto_sort_fields_def)
qed

text \<open>What an order from outside the query may sort by: the fields of the whitelist or, without one,
  every field that is not hidden and the primary key.\<close>

definition sort_allowed :: "field_policy_input \<Rightarrow> string \<Rightarrow> bool" where
  "sort_allowed i name \<longleftrightarrow>
    (if fi_SortFields i = [] then name \<notin> cr_name ` set (fi_HiddenFields i) \<or> name = ''id'' else name \<in> cr_name ` set (fi_SortFields i))"

definition order_allowed :: "metadata \<Rightarrow> gotype \<Rightarrow> field_policy_input \<Rightarrow> plan_order \<Rightarrow> bool" where
  "order_allowed d t i s \<longleftrightarrow> (po_direction s = Ascending \<or> po_direction s = Descending) \<and>
     (\<exists>f \<in> set (md_PersistentFields d). po_column s = makePlanColumn (policy_root d t) f \<and> sort_allowed i (ef_Name f))"

lemma sortable_ok_mono: "sortable_ok d t P m \<Longrightarrow> (\<And>n. P n \<Longrightarrow> Q n) \<Longrightarrow> sortable_ok d t Q m"
  by (fastforce simp: sortable_ok_def)

lemma defaultSort_ok:
  assumes "descriptor_ok d" "defaultSort d t i m auto = Inr (Some s)" "sortable_ok d t (sort_allowed i) m" "auto \<Longrightarrow> fi_SortFields i = []"
  shows "order_allowed d t i s"
proof (cases "hasColumnRef (fi_DefaultSort i)")
  case True
  then obtain f c where f: "resolvePolicyField d t (fi_DefaultSort i) = Inr f" "map_of m (ef_JSONName f) = Some c"
      "s = \<lparr>po_column = c, po_direction = fi_DefaultOrder i\<rparr>" "fi_DefaultOrder i = Ascending \<or> fi_DefaultOrder i = Descending"
    using assms(2) by (auto simp: defaultSort_def bindE_Inr_iff split: if_splits option.splits)
  then show ?thesis using assms(3) by (auto simp: sortable_ok_def order_allowed_def)
next
  case False
  then have s: "auto" "s = \<lparr>po_column = makePlanColumn (policy_root d t) (md_Primary d), po_direction = Descending\<rparr>"
    using assms(2) by (auto simp: defaultSort_def split: if_splits)
  have "ef_Name (md_Primary d) = ''id''" using assms(1) by (simp add: descriptor_ok_def fields_ok_def baseFields_def base_field_def)
  moreover have "md_Primary d \<in> set (md_PersistentFields d)"
    using primary_member [OF assms(1)] persistent_member [OF assms(1)] by blast
  ultimately show ?thesis using s assms(4) by (auto simp: order_allowed_def sort_allowed_def)
qed

lemma compileFieldPolicy_ok:
  assumes "resolver_ok resolver" "compileFieldPolicy resolver entity i auto = Inr p" "auto \<Longrightarrow> fi_SortFields i = []"
  shows "set (fp_hidden p) = cr_name ` set (fi_HiddenFields i) \<and> set (fp_infoIgnored p) = cr_name ` set (fi_InfoIgnoreProperty i) \<and>
    (fp_sortable p = [] \<and> fp_defaultSort p = None \<or>
     (\<exists>t d. entity = Some t \<and> resolver t = Some d \<and> descriptor_ok d \<and> sortable_ok d t (sort_allowed i) (fp_sortable p) \<and>
       (\<forall>s. fp_defaultSort p = Some s \<longrightarrow> order_allowed d t i s)))"
proof (cases "emptyPolicy i \<and> \<not> auto")
  case True
  then show ?thesis using assms(2) by (auto simp: compileFieldPolicy_def emptyPolicy_def empty_policy_def)
next
  case False
  obtain t d where td: "entity = Some t" "named_struct t" "resolver t = Some d"
    using assms(2) False unfolding compileFieldPolicy_def by (auto split: if_splits option.splits)
  obtain hidden readonly ignored where h: "compileFieldSet d t (fi_HiddenFields i) = Inr hidden" "compileFieldSet d t (fi_ReadonlyFields i) = Inr readonly"
      "compileFieldSet d t (fi_InfoIgnoreProperty i) = Inr ignored"
      "compileSortFields d t i \<lparr>fp_hidden = hidden, fp_infoIgnored = ignored, fp_readonly = readonly, fp_sortable = [], fp_defaultSort = None\<rparr> auto = Inr p"
    using assms(2) False td by (auto simp: compileFieldPolicy_def bindE_Inr_iff)
  let ?p = "\<lparr>fp_hidden = hidden, fp_infoIgnored = ignored, fp_readonly = readonly, fp_sortable = [], fp_defaultSort = None\<rparr>"
  have d: "descriptor_ok d" using assms(1) td(3) by (auto simp: resolver_ok_def)
  have names: "set hidden = cr_name ` set (fi_HiddenFields i)" "set ignored = cr_name ` set (fi_InfoIgnoreProperty i)"
    using compileFieldSet_names [OF d] h(1,3) by blast+
  obtain m s where m: "foldE (add_sort_field d t) (fi_SortFields i) [] = Inr m"
    and s: "defaultSort d t i (if auto then auto_sort_fields d t ?p m else m) auto = Inr s"
    and p: "p = ?p\<lparr>fp_sortable := (if auto then auto_sort_fields d t ?p m else m), fp_defaultSort := s\<rparr>"
    using h(4) by (auto simp: compileSortFields_def bindE_Inr_iff Let_def)
  have ok: "sortable_ok d t (sort_allowed i) (if auto then auto_sort_fields d t ?p m else m)"
  proof (cases auto)
    case True
    then have "m = []" using m assms(3) by simp
    then have "sortable_ok d t (\<lambda>n. \<not> IsHidden ?p n) (auto_sort_fields d t ?p m)"
      by (intro auto_sort_fields_ok) (simp add: sortable_ok_def)
    then show ?thesis using True assms(3) names by (auto simp: sort_allowed_def IsHidden_def elim!: sortable_ok_mono)
  next
    case False
    have "sortable_ok d t (sort_allowed i) m"
    proof (cases "fi_SortFields i = []")
      case True
      then show ?thesis using m by (simp add: sortable_ok_def)
    next
      case ne: False
      show ?thesis by (rule add_sort_fields_ok [OF d m]) (use ne in \<open>auto simp: sortable_ok_def sort_allowed_def\<close>)
    qed
    then show ?thesis using False by simp
  qed
  have "\<forall>x. s = Some x \<longrightarrow> order_allowed d t i x" using defaultSort_ok [OF d _ ok assms(3)] s by blast
  then show ?thesis using td d ok names by (simp add: p)
qed

lemma request_orders_ok:
  assumes "sortable_ok d t (sort_allowed i) (fp_sortable p)"
  shows "foldE (request_order p) nds q = Inr q' \<Longrightarrow>
    \<exists>extra. q' = q\<lparr>qp_orderBy := qp_orderBy q @ extra\<rparr> \<and> length extra = length nds \<and> list_all (order_allowed d t i) extra"
proof (induction nds arbitrary: q)
  case Nil
  then show ?case by (intro exI [of _ "[]"]) simp
next
  case (Cons nd nds)
  then obtain q1 where q1: "request_order p nd q = Inr q1" "foldE (request_order p) nds q1 = Inr q'"
    by (auto simp: bindE_Inr_iff)
  then obtain c where c: "map_of (fp_sortable p) (fst nd) = Some c" "snd nd = Ascending \<or> snd nd = Descending"
      "foldE (request_order p) nds (q\<lparr>qp_orderBy := qp_orderBy q @ [\<lparr>po_column = c, po_direction = snd nd\<rparr>]\<rparr>) = Inr q'"
    unfolding request_order_def by (auto split: option.splits if_splits)
  obtain extra where e: "q' = q\<lparr>qp_orderBy := (qp_orderBy q @ [\<lparr>po_column = c, po_direction = snd nd\<rparr>]) @ extra\<rparr>"
      "length extra = length nds" "list_all (order_allowed d t i) extra"
    using Cons.IH [OF c(3)] by auto
  have "order_allowed d t i \<lparr>po_column = c, po_direction = snd nd\<rparr>"
    using assms c(1,2) by (auto simp: sortable_ok_def order_allowed_def)
  then show ?case using e by (intro exI [of _ "\<lparr>po_column = c, po_direction = snd nd\<rparr> # extra"]) simp
qed

lemma applyOrder_ok:
  assumes "fp_sortable p = [] \<and> fp_defaultSort p = None \<or>
      sortable_ok d t (sort_allowed i) (fp_sortable p) \<and> (\<forall>s. fp_defaultSort p = Some s \<longrightarrow> order_allowed d t i s)"
    "applyOrder q p req = Inr q'"
  shows "\<exists>extra. q' = q\<lparr>qp_orderBy := qp_orderBy q @ extra\<rparr> \<and> list_all (order_allowed d t i) extra"
proof -
  obtain ns ds where nd: "requestStrings req ''order'' = Inr ns" "requestStrings req ''sort'' = Inr ds"
    using assms(2) by (auto simp: applyOrder_def bindE_Inr_iff)
  have ok: "sortable_ok d t (sort_allowed i) (fp_sortable p)" using assms(1) by (auto simp: sortable_ok_def)
  consider "ns = None" "ds = None" | xs ys where "ns = Some xs" "ds = Some ys" "foldE (request_order p) (zip xs ys) q = Inr q'"
    using assms(2) nd by (auto simp: applyOrder_def split: option.splits if_splits)
  then show ?thesis
  proof cases
    case 1
    show ?thesis
    proof (cases "fp_defaultSort p")
      case None
      then show ?thesis using assms(2) 1 nd by (intro exI [of _ "[]"]) (simp add: applyOrder_def)
    next
      case (Some s)
      then have "order_allowed d t i s" using assms(1) by auto
      then show ?thesis using assms(2) 1 nd Some by (intro exI [of _ "[s]"]) (simp add: applyOrder_def)
    qed
  next
    case 2
    show ?thesis using request_orders_ok [OF ok 2(3)] by blast
  qed
qed

text \<open>The query of an action: that of the compiler without the selections that the policy hides, with
  further orders that it allows.\<close>

lemma CompilePlan_query:
  assumes "resolver_ok resolver" "query_declared (pi_Query i)" "request_declared req"
    "CompilePlan resolver i req = Inr ap" "ap_query ap = Some q"
  obtains pc p t d extra where "compileQueryPlan resolver (pi_Entity i) (pi_Query i) req = Inr pc"
    "set (fp_hidden p) = cr_name ` set (fi_HiddenFields (pi_Fields i))"
    "set (fp_infoIgnored p) = cr_name ` set (fi_InfoIgnoreProperty (pi_Fields i))"
    "q = (pc_plan pc)\<lparr>qp_selects := filter (visible_select (pi_Action i) p) (qp_selects (pc_plan pc)),
       qp_orderBy := qp_orderBy (pc_plan pc) @ extra\<rparr>"
    "qp_selects q \<noteq> []" "list_all (order_allowed d t (pi_Fields i)) extra"
    "pi_Entity i = Some t" "resolver t = Some d" "map_of (pc_aliases pc) rootQueryAlias = Some (policy_root d t)" "compiler_ok pc"
    "registered resolver (pc_aliases pc)"
proof -
  let ?auto = "(pi_Action i = ActionList \<or> pi_Action i = ActionPage) \<and> fi_SortFields (pi_Fields i) = []"
  obtain p pc where p: "compileFieldPolicy resolver (pi_Entity i) (pi_Fields i) ?auto = Inr p"
    and pc: "compileQueryPlan resolver (pi_Entity i) (pi_Query i) req = Inr pc"
    and a: "applyFieldPolicy (pi_Action i) (pc_plan pc) p req = Inr q"
    using assms(4,5) unfolding CompilePlan_def Let_def by (auto simp: bindE_Inr_iff split: if_splits)
  obtain t d where td: "pi_Entity i = Some t" "resolver t = Some d" "map_of (pc_aliases pc) rootQueryAlias = Some (policy_root d t)"
    and ok: "compiler_ok pc" "registered resolver (pc_aliases pc)"
    using compileQueryPlan_ok [OF assms(1-3) pc] by blast
  have pol: "set (fp_hidden p) = cr_name ` set (fi_HiddenFields (pi_Fields i))"
    "set (fp_infoIgnored p) = cr_name ` set (fi_InfoIgnoreProperty (pi_Fields i))"
    "fp_sortable p = [] \<and> fp_defaultSort p = None \<or> sortable_ok d t (sort_allowed (pi_Fields i)) (fp_sortable p) \<and>
       (\<forall>s. fp_defaultSort p = Some s \<longrightarrow> order_allowed d t (pi_Fields i) s)"
    using compileFieldPolicy_ok [OF assms(1) p] td(1,2) by auto
  let ?q = "(pc_plan pc)\<lparr>qp_selects := filter (visible_select (pi_Action i) p) (qp_selects (pc_plan pc))\<rparr>"
  have ne: "qp_selects ?q \<noteq> []" using a unfolding applyFieldPolicy_def Let_def by (auto split: if_splits)
  have "\<exists>extra. q = ?q\<lparr>qp_orderBy := qp_orderBy ?q @ extra\<rparr> \<and> list_all (order_allowed d t (pi_Fields i)) extra"
  proof (cases "pi_Action i \<noteq> ActionList \<and> pi_Action i \<noteq> ActionPage")
    case True
    then have "q = ?q" using a ne by (simp add: applyFieldPolicy_def Let_def)
    then show ?thesis by (intro exI [of _ "[]"]) simp
  next
    case False
    then have "applyOrder ?q p req = Inr q" using a ne by (auto simp: applyFieldPolicy_def Let_def split: if_splits)
    then show ?thesis by (rule applyOrder_ok [OF pol(3)])
  qed
  then obtain extra where e: "q = ?q\<lparr>qp_orderBy := qp_orderBy ?q @ extra\<rparr>" "list_all (order_allowed d t (pi_Fields i)) extra"
    by blast
  show thesis
    by (rule that [OF pc pol(1,2) _ _ e(2) td ok]) (use e(1) ne in simp_all)
qed

lemma order_allowed_column:
  assumes "order_allowed d t i s" "map_of als rootQueryAlias = Some (policy_root d t)"
  shows "column_ok als (po_column s) \<and> (po_direction s = Ascending \<or> po_direction s = Descending)"
  using assms by (auto simp: order_allowed_def column_ok_def makePlanColumn_def policy_root_def)

lemma plan_typed_restrict:
  assumes "plan_typed als q" "\<And>s. s \<in> set extra \<Longrightarrow> column_ok als (po_column s) \<and> (po_direction s = Ascending \<or> po_direction s = Descending)"
  shows "plan_typed als (q\<lparr>qp_selects := filter P (qp_selects q), qp_orderBy := qp_orderBy q @ extra\<rparr>)"
  using assms distinct_map_filter [of ps_alias "qp_selects q" P] unfolding plan_typed_def by auto

section \<open>An example\<close>

definition sample_field :: "string \<Rightarrow> gotype \<Rightarrow> struct_field" where
  "sample_field name t = \<lparr>sf_Name = name, sf_Type = t, sf_Anonymous = False, sf_Exported = True,
     sf_Tag = [(''json'', name), (''orm'', name), (''description'', name)]\<rparr>"

definition sample_entity :: gotype where
  "sample_entity = GoNamed ''app'' ''User'' (GoStruct 10)"

definition sample_struct :: "struct_field list" where
  "sample_struct =
    [\<lparr>sf_Name = ''Meta'', sf_Type = meta_type, sf_Anonymous = True, sf_Exported = True,
       sf_Tag = [(''orm'', ''table:app_user''), (''description'', ''users'')]\<rparr>,
     \<lparr>sf_Name = ''Base'', sf_Type = base_type, sf_Anonymous = True, sf_Exported = True, sf_Tag = []\<rparr>,
     sample_field ''name'' (GoBasic KString), sample_field ''password'' (GoBasic KString)]"

definition sample_string :: "string \<Rightarrow> entity_field" where
  "sample_string n = \<lparr>ef_Name = n, ef_JSONName = n, ef_Column = n, ef_Description = n, ef_LogicalType = LogicalString,
     ef_GoType = GoBasic KString, ef_Nullable = False, ef_Primary = False, ef_AutoIncrement = False, ef_SystemMaintained = False,
     ef_Persistent = True, ef_Constraints = no_constraints\<rparr>"

definition sample_metadata :: metadata where
  "sample_metadata =
    (let m = map (\<lambda>f. (ef_Name f, f)) ([sample_string ''password'', sample_string ''name''] @ baseFields);
       fs = baseFields @ [sample_string ''name'', sample_string ''password'']
     in \<lparr>md_Table = ''app_user'', md_Description = ''users'', md_EntityType = sample_entity, md_Primary = hd baseFields, md_Fields = fs,
       md_PersistentFields = fs, md_byName = m, md_byJSON = m, md_byColumn = m,
       md_Indexes = [IndexOf ''idx_app_user_create_time'' [''createTime''], IndexOf ''idx_app_user_update_time'' [''updateTime'']]\<rparr>)"

text \<open>For evaluation: what follows a step is looked at only after the step.\<close>

declare bindE_def [code_unfold]

lemma sample_metadata_compiled: "Compile sample_entity sample_struct uint64_type [] = Inr sample_metadata"
  by code_simp

definition sample_resolver :: "gotype \<Rightarrow> metadata option" where
  "sample_resolver t = (if t = sample_entity then Some sample_metadata else None)"

definition sample_column :: "string \<Rightarrow> column_ref" where
  "sample_column name = \<lparr>cr_name = name, cr_entityType = None, cr_alias = []\<rparr>"

definition sample_query :: query_op where
  "sample_query = \<lparr>qo_KeyWordLikeFields = [sample_column ''name''], qo_Where = None, qo_Select = [], qo_FieldLike = [],
     qo_FieldEq = [\<lparr>fm_Column = sample_column ''id'', fm_RequestParam = ''id''\<rparr>], qo_AddOrderBy = [], qo_Join = [], qo_Extend = None,
     qo_shape = ShapeNone\<rparr>"

definition sample_input :: plan_input where
  "sample_input = \<lparr>pi_Action = ActionPage, pi_Entity = Some sample_entity, pi_Query = sample_query,
     pi_Fields = \<lparr>fi_HiddenFields = [sample_column ''password''], fi_ReadonlyFields = [], fi_InfoIgnoreProperty = [], fi_SortFields = [],
       fi_DefaultSort = no_column, fi_DefaultOrder = []\<rparr>\<rparr>"

text \<open>The key is a number of JSON.\<close>

definition sample_request :: query_request where
  "sample_request = [(''id'', Some (VFloat (GoBasic KFloat64) (Finite 30 0))), (''keyWord'', Some (go_string ''al'')),
     (''order'', Some (VList string_slice [Some (go_string ''name'')])), (''sort'', Some (VList string_slice [Some (go_string ''asc'')]))]"

definition sample_plan :: "action_plan option" where
  "sample_plan = (case CompilePlan sample_resolver sample_input (Some sample_request) of Inl e \<Rightarrow> None | Inr p \<Rightarrow> Some p)"

lemma sample_resolver_ok: "resolver_ok sample_resolver"
proof -
  have n: "named_struct sample_entity" by code_simp
  show ?thesis
    using Compile_ok [OF sample_metadata_compiled n] by (simp add: resolver_ok_def sample_resolver_def)
qed

lemma sample_declared: "query_declared sample_query" "request_declared (Some sample_request)"
  by (auto simp: query_declared_def sample_query_def request_declared_def request_Value_def sample_request_def go_string_def string_slice_def
      split: if_splits)

lemma sample_compiles: "CompilePlan sample_resolver sample_input (Some sample_request) = Inr (the sample_plan) \<and>
    ap_query (the sample_plan) = Some (the (ap_query (the sample_plan)))"
proof -
  have "case CompilePlan sample_resolver sample_input (Some sample_request) of Inl e \<Rightarrow> False | Inr p \<Rightarrow> ap_query p \<noteq> None"
    by code_simp
  then show ?thesis by (cases "CompilePlan sample_resolver sample_input (Some sample_request)") (auto simp: sample_plan_def)
qed

section \<open>Properties\<close>

lemma sample_input_query [simp]: "pi_Query sample_input = sample_query" "pi_Entity sample_input = Some sample_entity"
  by (simp_all add: sample_input_def)

lemma sample_input_declared: "query_declared (pi_Query sample_input)"
  by (simp add: sample_declared)

text \<open>C11: The query of a compiled action plan is well typed.\<close>

theorem action_plan_well_typed:
  assumes "resolver_ok resolver" "query_declared (pi_Query i)" "request_declared req"
    "CompilePlan resolver i req = Inr ap" "ap_query ap = Some q"
  shows "(\<exists>als. aliases_ok als \<and> registered resolver als \<and> plan_typed als q) \<and> (\<exists>sql. ApplyQuery quote (Some ap) = Inr sql)"
proof (rule CompilePlan_query [OF assms])
  fix pc p t d extra
  assume pc: "q = (pc_plan pc)\<lparr>qp_selects := filter (visible_select (pi_Action i) p) (qp_selects (pc_plan pc)),
       qp_orderBy := qp_orderBy (pc_plan pc) @ extra\<rparr>" "qp_selects q \<noteq> []" "list_all (order_allowed d t (pi_Fields i)) extra"
      "map_of (pc_aliases pc) rootQueryAlias = Some (policy_root d t)" "compiler_ok pc" "registered resolver (pc_aliases pc)"
  have als: "aliases_ok (pc_aliases pc)" and q: "plan_typed (pc_aliases pc) (pc_plan pc)" using pc(5) by (auto simp: compiler_ok_def)
  have typed: "plan_typed (pc_aliases pc) q"
    unfolding pc(1) by (rule plan_typed_restrict [OF q order_allowed_column [where i = "pi_Fields i", OF _ pc(4)]]) (use pc(3) in \<open>simp add: list_all_iff\<close>)
  then have "checkPlan q = Inr ()" using checkPlan_typed [OF als] pc(2) by blast
  then have "\<exists>sql. ApplyQuery quote (Some ap) = Inr sql" using assms(5) by (simp add: ApplyQuery_def applyQueryPlan_def)
  then show ?thesis using als typed pc(6) by blast
qed

theorem action_plan_well_typed_witness:
  "(\<exists>als. aliases_ok als \<and> registered sample_resolver als \<and> plan_typed als (the (ap_query (the sample_plan)))) \<and>
   (\<exists>sql. ApplyQuery (\<lambda>w. w) (Some (the sample_plan)) = Inr sql)"
  by (rule action_plan_well_typed [OF sample_resolver_ok sample_input_declared sample_declared(2)
      sample_compiles [THEN conjunct1] sample_compiles [THEN conjunct2]])





text \<open>C13: Requests sort by allowed fields only.\<close>

theorem request_orders_allowed:
  assumes "resolver_ok resolver" "query_declared (pi_Query i)" "request_declared req"
    "CompilePlan resolver i req = Inr ap" "ap_query ap = Some q"
  shows "\<exists>pc t d extra. compileQueryPlan resolver (pi_Entity i) (pi_Query i) req = Inr pc \<and> pi_Entity i = Some t \<and> resolver t = Some d \<and>
    qp_orderBy q = qp_orderBy (pc_plan pc) @ extra \<and> list_all (order_allowed d t (pi_Fields i)) extra"
proof (rule CompilePlan_query [OF assms])
  fix pc p t d extra
  assume p: "compileQueryPlan resolver (pi_Entity i) (pi_Query i) req = Inr pc"
    "q = (pc_plan pc)\<lparr>qp_selects := filter (visible_select (pi_Action i) p) (qp_selects (pc_plan pc)), qp_orderBy := qp_orderBy (pc_plan pc) @ extra\<rparr>"
    "list_all (order_allowed d t (pi_Fields i)) extra" "pi_Entity i = Some t" "resolver t = Some d"
  show ?thesis by (intro exI conjI) (use p in simp_all)
qed

theorem request_orders_allowed_witness:
  "\<exists>pc t d extra. compileQueryPlan sample_resolver (Some sample_entity) sample_query (Some sample_request) = Inr pc \<and>
    Some sample_entity = Some t \<and> sample_resolver t = Some d \<and>
    qp_orderBy (the (ap_query (the sample_plan))) = qp_orderBy (pc_plan pc) @ extra \<and>
    list_all (order_allowed d t (pi_Fields sample_input)) extra"
  using request_orders_allowed [OF sample_resolver_ok sample_input_declared sample_declared(2) sample_compiles [THEN conjunct1]
      sample_compiles [THEN conjunct2]] by simp

definition request_whole :: "goval \<Rightarrow> int option" where
  "request_whole v = (case v of VInt t n \<Rightarrow> Some n | VFloat t f \<Rightarrow> whole f | _ \<Rightarrow> None)"

lemma int_range_bounds: "within (int_range k) n \<Longrightarrow> - (2 ^ 63) \<le> n \<and> n < 2 ^ 63" "within (uint_range k) n \<Longrightarrow> 0 \<le> n \<and> n < 2 ^ 64"
  by (cases k; simp add: within_def)+

lemma planValue_number:
  assumes "underlying (value_type t) = GoBasic k" "\<not> assignable (type_of v) (value_type t)" "request_whole v \<noteq> None"
  shows "int_range k \<noteq> None \<Longrightarrow> planValue (Some v) t =
      (case requestInt64 v of None \<Rightarrow> None | Some n \<Rightarrow> if within (int_range k) n then Some (VInt (value_type t) n) else None)"
    and "int_range k = None \<Longrightarrow> uint_range k \<noteq> None \<Longrightarrow> planValue (Some v) t =
      (case requestUint64 v of None \<Rightarrow> None | Some n \<Rightarrow> if within (uint_range k) n then Some (VInt (value_type t) n) else None)"
  using assms by (auto simp: planValue_def isNilValue_def Let_def request_whole_def split: goval.splits)

lemma planValue_no_number:
  assumes "underlying (value_type t) = GoBasic k" "int_range k \<noteq> None \<or> uint_range k \<noteq> None"
    "\<not> assignable (type_of v) (value_type t)" "request_whole v = None"
  shows "planValue (Some v) t = None"
  using assms by (cases v) (auto simp: planValue_def Let_def request_whole_def requestInt64_def requestUint64_def)

lemma request_int: "request_whole v = Some n \<Longrightarrow> within (int_range k) n \<Longrightarrow> requestInt64 v = Some n"
  "request_whole v = Some n \<Longrightarrow> requestInt64 v = None \<or> requestInt64 v = Some n"
  using int_range_bounds(1) [of k n] by (cases v; auto simp: request_whole_def requestInt64_def)+

lemma request_uint: "request_whole v = Some n \<Longrightarrow> within (uint_range k) n \<Longrightarrow> requestUint64 v = Some n"
  "request_whole v = Some n \<Longrightarrow> requestUint64 v = None \<or> requestUint64 v = Some n"
  using int_range_bounds(2) [of k n] by (cases v; auto simp: request_whole_def requestUint64_def)+

text \<open>A number of a request is converted exactly or refused.\<close>

theorem request_numbers_exact:
  assumes "underlying (value_type t) = GoBasic k" "int_range k \<noteq> None \<or> uint_range k \<noteq> None" "\<not> assignable (type_of v) (value_type t)"
  shows "planValue (Some v) t =
    (case request_whole v of
       None \<Rightarrow> None
     | Some n \<Rightarrow> if within (int_range k) n \<or> within (uint_range k) n then Some (VInt (value_type t) n) else None)"
proof (cases "request_whole v")
  case None
  then show ?thesis using planValue_no_number assms by simp
next
  case (Some n)
  have no: "\<not> within None n" by (simp add: within_def)
  show ?thesis
  proof (cases "int_range k = None")
    case True
    then show ?thesis
      using planValue_number(2) [OF assms(1,3)] assms(2) Some no request_uint(1) [OF Some, of k] request_uint(2) [OF Some]
      by (cases "within (uint_range k) n") auto
  next
    case False
    then have "uint_range k = None" by (cases k) simp_all
    then show ?thesis
      using planValue_number(1) [OF assms(1,3)] False Some no request_int(1) [OF Some, of k] request_int(2) [OF Some]
      by (cases "within (int_range k) n") auto
  qed
qed

theorem request_numbers_exact_witness:
  "planValue (Some (VFloat (GoBasic KFloat64) (Finite 300 0))) (GoBasic KInt8) = None \<and>
   planValue (Some (VFloat (GoBasic KFloat64) (Finite 30 0))) (GoBasic KInt8) = Some (VInt (GoBasic KInt8) 30)"
  using request_numbers_exact [of "GoBasic KInt8" KInt8 "VFloat (GoBasic KFloat64) (Finite 300 0)"]
    request_numbers_exact [of "GoBasic KInt8" KInt8 "VFloat (GoBasic KFloat64) (Finite 30 0)"]
  by (simp add: value_type_def assignable_def request_whole_def within_def)

end
