(* ===== verification/Generic_Service.thy ===== *)
theory Generic_Service
  imports Crud_Action
begin

text \<open>
  The generic service (\<open>core/gnservice\<close>): the fields submitted for an entity
  (\<open>Mutable\<close> of \<open>input.go\<close>), the inputs made of them, the values written under the policy of the
  action and the queries it runs (\<open>base.go\<close>), and a mutation with its hooks (\<open>mutation.go\<close>).

  A nil pointer to a \<open>Mutable\<close> is \<open>None\<close>, the zero value has no descriptor. Identifiers are 64-bit
  words: \<open>Compile\<close> accepts no other type of key. A service is initialised by its constructor.
  The database is a parameter of the operations: what an insertion, an update and the archiving
  deletion answer, over a state of its own. A hook changes the mutables of its mutation in place;
  here it returns the mutation, which is what the write then uses.
\<close>

section \<open>Submitted fields\<close>

datatype field_source = FieldClient | FieldServer

record mutable_value =
  mv_source :: field_source
  mv_isNull :: bool
  mv_data :: "goval option"

record mutable_fields =
  mu_descriptor :: "metadata option"
  mu_values :: "(string, mutable_value) gomap"

record field_value =
  fv_isNull :: bool
  fv_isSubmitted :: bool
  fv_name :: string
  fv_data :: "goval option"

definition field_Value :: "string \<Rightarrow> goval option \<Rightarrow> field_value" where
  "field_Value name v = \<lparr>fv_isNull = False, fv_isSubmitted = True, fv_name = name, fv_data = v\<rparr>"

definition field_Null :: "string \<Rightarrow> field_value" where
  "field_Null name = \<lparr>fv_isNull = True, fv_isSubmitted = True, fv_name = name, fv_data = None\<rparr>"

definition validate :: "string \<Rightarrow> go_error" where
  "validate message = exc_Validate message None"

text \<open>The type parameter for entities is \<open>t\<close>.\<close>

definition validateDescriptor :: "gotype \<Rightarrow> metadata option \<Rightarrow> (go_error, metadata) result" where
  "validateDescriptor t descriptor =
    (case descriptor of
       None \<Rightarrow> Inl (validate ''descriptor nil'')
     | Some d \<Rightarrow>
         if md_EntityType d \<noteq> t then Inl (validate ''descriptor type'')
         else if \<not> ef_Primary (md_Primary d) \<or> ef_GoType (md_Primary d) \<noteq> uint64_type then Inl (validate ''descriptor key'')
         else Inr d)"

definition mutable_set ::
  "entity_field \<Rightarrow> bool \<Rightarrow> goval option \<Rightarrow> field_source \<Rightarrow> mutable_fields \<Rightarrow> (go_error, mutable_fields) result" where
  "mutable_set f isNull data source m =
    (if isNull then
       (if \<not> ef_Nullable f then Inl (validate ''null not allowed'')
        else Inr (m\<lparr>mu_values := mput (ef_Name f) \<lparr>mv_source = source, mv_isNull = True, mv_data = None\<rparr> (mu_values m)\<rparr>))
     else (case data of
         None \<Rightarrow> Inl (validate ''nil without null'')
       | Some v \<Rightarrow>
           if isNilValue (Some v) then Inl (validate ''nil without null'')
           else if type_of v \<noteq> value_type (ef_GoType f) then Inl (validate ''field type'')
           else Inr (m\<lparr>mu_values := mput (ef_Name f) \<lparr>mv_source = source, mv_isNull = False, mv_data = Some v\<rparr> (mu_values m)\<rparr>)))"

fun new_mutable_loop :: "metadata \<Rightarrow> field_value list \<Rightarrow> mutable_fields \<Rightarrow> (go_error, mutable_fields) result" where
  "new_mutable_loop d [] m = Inr m"
| "new_mutable_loop d (item # items) m =
    (if \<not> fv_isSubmitted item then Inl (validate ''field value invalid'')
     else (case map_of (md_byJSON d) (fv_name item) of
         None \<Rightarrow> Inl (validate ''field missing'')
       | Some f \<Rightarrow>
           if map_of (mu_values m) (ef_Name f) \<noteq> None then Inl (validate ''field duplicate'')
           else bindE (mutable_set f (fv_isNull item) (fv_data item) FieldClient m) (new_mutable_loop d items)))"

definition NewMutable :: "gotype \<Rightarrow> metadata option \<Rightarrow> field_value list \<Rightarrow> (go_error, mutable_fields) result" where
  "NewMutable t descriptor fs = bindE (validateDescriptor t descriptor) (\<lambda>d.
     new_mutable_loop d fs \<lparr>mu_descriptor = Some d, mu_values = []\<rparr>)"

definition mutable_get :: "mutable_fields option \<Rightarrow> string \<Rightarrow> mutable_value option" where
  "mutable_get m name =
    (case m of
       None \<Rightarrow> None
     | Some v \<Rightarrow>
         (case mu_descriptor v of
            None \<Rightarrow> None
          | Some d \<Rightarrow> (case map_of (md_byJSON d) name of None \<Rightarrow> None | Some f \<Rightarrow> map_of (mu_values v) (ef_Name f))))"

definition mutable_Has :: "mutable_fields option \<Rightarrow> string \<Rightarrow> bool" where
  "mutable_Has m name \<longleftrightarrow> mutable_get m name \<noteq> None"

definition mutable_IsNull :: "mutable_fields option \<Rightarrow> string \<Rightarrow> bool" where
  "mutable_IsNull m name \<longleftrightarrow> (case mutable_get m name of None \<Rightarrow> False | Some item \<Rightarrow> mv_isNull item)"

definition mutable_Get :: "mutable_fields option \<Rightarrow> string \<Rightarrow> goval option \<times> bool" where
  "mutable_Get m name =
    (case mutable_get m name of
       None \<Rightarrow> (None, False)
     | Some item \<Rightarrow> if mv_isNull item then (None, True) else (mv_data item, True))"

text \<open>The field for a name, for those who change the mutable.\<close>

definition mutable_field :: "string \<Rightarrow> mutable_fields \<Rightarrow> (go_error, entity_field) result" where
  "mutable_field name m =
    (case mu_descriptor m of
       None \<Rightarrow> Inl (validate ''mutable invalid'')
     | Some d \<Rightarrow> (case map_of (md_byJSON d) name of None \<Rightarrow> Inl (validate ''field missing'') | Some f \<Rightarrow> Inr f))"

definition mutable_Set :: "string \<Rightarrow> goval option \<Rightarrow> mutable_fields \<Rightarrow> (go_error, mutable_fields) result" where
  "mutable_Set name data m = bindE (mutable_field name m) (\<lambda>f. mutable_set f False data FieldServer m)"

definition mutable_SetNull :: "string \<Rightarrow> mutable_fields \<Rightarrow> (go_error, mutable_fields) result" where
  "mutable_SetNull name m = bindE (mutable_field name m) (\<lambda>f. mutable_set f True None FieldServer m)"

definition mutable_Unset :: "string \<Rightarrow> mutable_fields \<Rightarrow> (go_error, mutable_fields) result" where
  "mutable_Unset name m = bindE (mutable_field name m) (\<lambda>f. Inr (m\<lparr>mu_values := mdel (ef_Name f) (mu_values m)\<rparr>))"

definition validateMutable :: "metadata \<Rightarrow> mutable_fields option \<Rightarrow> (go_error, mutable_fields) result" where
  "validateMutable d value =
    (case value of
       None \<Rightarrow> Inl (validate ''mutable of another entity'')
     | Some m \<Rightarrow>
         (case mu_descriptor m of
            None \<Rightarrow> Inl (validate ''mutable of another entity'')
          | Some e \<Rightarrow>
              if md_EntityType e \<noteq> md_EntityType d \<or> md_Table e \<noteq> md_Table d then Inl (validate ''mutable of another entity'')
              else Inr m))"

section \<open>Inputs\<close>

record gs_add =
  ga_isMany :: bool
  ga_one :: "mutable_fields option"
  ga_many :: "mutable_fields option list"

record gs_item =
  gi_id :: u64
  gi_mutable :: "mutable_fields option"

record gs_update =
  gu_isMany :: bool
  gu_one :: gs_item
  gu_many :: "gs_item list"

record gs_result =
  gr_isMany :: bool
  gr_one :: u64
  gr_many :: "u64 list"

definition no_item :: gs_item where
  "no_item = \<lparr>gi_id = 0, gi_mutable = None\<rparr>"

definition NewAddObject :: "gotype \<Rightarrow> metadata option \<Rightarrow> mutable_fields option \<Rightarrow> (go_error, gs_add) result" where
  "NewAddObject t descriptor value = bindE (validateDescriptor t descriptor) (\<lambda>d. bindE (validateMutable d value) (\<lambda>_.
     Inr \<lparr>ga_isMany = False, ga_one = value, ga_many = []\<rparr>))"

definition NewAddArray :: "gotype \<Rightarrow> metadata option \<Rightarrow> mutable_fields option list \<Rightarrow> (go_error, gs_add) result" where
  "NewAddArray t descriptor values = bindE (validateDescriptor t descriptor) (\<lambda>d.
     if values = [] then Inl (validate ''add array empty'')
     else bindE (eachE (\<lambda>value. bindE (validateMutable d value) (\<lambda>_. Inr ())) values) (\<lambda>_.
       Inr \<lparr>ga_isMany = True, ga_one = None, ga_many = values\<rparr>))"

definition NewUpdateItem :: "gotype \<Rightarrow> metadata option \<Rightarrow> u64 \<Rightarrow> mutable_fields option \<Rightarrow> (go_error, gs_item) result" where
  "NewUpdateItem t descriptor key value = bindE (validateDescriptor t descriptor) (\<lambda>d. bindE (validateMutable d value) (\<lambda>_.
     Inr \<lparr>gi_id = key, gi_mutable = value\<rparr>))"

definition validateUpdateItem :: "metadata \<Rightarrow> gs_item \<Rightarrow> (go_error, unit) result" where
  "validateUpdateItem d item = bindE (validateMutable d (gi_mutable item)) (\<lambda>_. Inr ())"

definition NewUpdateObject :: "gotype \<Rightarrow> metadata option \<Rightarrow> gs_item \<Rightarrow> (go_error, gs_update) result" where
  "NewUpdateObject t descriptor item = bindE (validateDescriptor t descriptor) (\<lambda>d. bindE (validateUpdateItem d item) (\<lambda>_.
     Inr \<lparr>gu_isMany = False, gu_one = item, gu_many = []\<rparr>))"

definition NewUpdateArray :: "gotype \<Rightarrow> metadata option \<Rightarrow> gs_item list \<Rightarrow> (go_error, gs_update) result" where
  "NewUpdateArray t descriptor items = bindE (validateDescriptor t descriptor) (\<lambda>d.
     if items = [] then Inl (validate ''update array empty'')
     else bindE (eachE (validateUpdateItem d) items) (\<lambda>_. Inr \<lparr>gu_isMany = True, gu_one = no_item, gu_many = items\<rparr>))"

definition has_descriptor :: "mutable_fields option \<Rightarrow> bool" where
  "has_descriptor value \<longleftrightarrow> (case value of None \<Rightarrow> False | Some m \<Rightarrow> mu_descriptor m \<noteq> None)"

definition validateAddInput :: "gs_add \<Rightarrow> (go_error, unit) result" where
  "validateAddInput input =
    (if ga_isMany input then
       guardE (ga_one input = None \<and> ga_many input \<noteq> [] \<and> list_all has_descriptor (ga_many input)) (validate ''add input'')
     else guardE (has_descriptor (ga_one input) \<and> ga_many input = []) (validate ''add input''))"

definition validateUpdateInput :: "gs_update \<Rightarrow> (go_error, unit) result" where
  "validateUpdateInput input =
    (if gu_isMany input then
       guardE (gi_mutable (gu_one input) = None \<and> gu_many input \<noteq> [] \<and> list_all (\<lambda>i. has_descriptor (gi_mutable i)) (gu_many input))
         (validate ''update input'')
     else guardE (has_descriptor (gi_mutable (gu_one input)) \<and> gu_many input = []) (validate ''update input''))"

section \<open>The values written\<close>

text \<open>One field: refused, left out or written.\<close>

definition write_field :: "field_policy \<Rightarrow> entity_field \<Rightarrow> mutable_value \<Rightarrow> do_value \<times> nat \<Rightarrow> (go_error, do_value \<times> nat) result" where
  "write_field p f item vn =
    (if IsHidden p (ef_Name f) \<and> mv_source item = FieldClient then Inl (validate ''hidden field'')
     else if ef_Primary f \<or> ef_SystemMaintained f then
       (if mv_source item = FieldClient then Inr vn else Inl (validate ''system field''))
     else if IsReadonly p (ef_Name f) \<and> mv_source item = FieldClient then Inr vn
     else (case SetColumn (ef_Name f) (if mv_isNull item then None else mv_data item) (fst vn) of
         Inl e \<Rightarrow> Inl (wrap_core ''column refused'' e)
       | Inr v \<Rightarrow> Inr (v, snd vn + 1)))"

fun mutable_loop ::
  "field_policy \<Rightarrow> (string, mutable_value) gomap \<Rightarrow> entity_field list \<Rightarrow> do_value \<times> nat \<Rightarrow> (go_error, do_value \<times> nat) result" where
  "mutable_loop p values [] vn = Inr vn"
| "mutable_loop p values (f # fs) vn =
    (case map_of values (ef_Name f) of
       None \<Rightarrow> mutable_loop p values fs vn
     | Some item \<Rightarrow> bindE (write_field p f item vn) (mutable_loop p values fs))"

definition mutableData :: "metadata \<Rightarrow> mutable_fields option \<Rightarrow> field_policy \<Rightarrow> (go_error, do_value \<times> nat) result" where
  "mutableData d value p = bindE (validateMutable d value) (\<lambda>m. mutable_loop p (mu_values m) (md_PersistentFields d) (NewDO d, 0))"

section \<open>Operations\<close>

text \<open>The context: the group of the current transaction and whether it is still valid, and the plan of
  the current operation.\<close>

record service_context =
  sx_transaction :: "(string \<times> bool) option"
  sx_plan :: "action_plan option"

definition service_Tx :: "string \<Rightarrow> service_context \<Rightarrow> (go_error, unit) result" where
  "service_Tx dbGroup cx =
    (case sx_transaction cx of
       None \<Rightarrow> Inl (core ''no transaction'')
     | Some (g, valid) \<Rightarrow>
         if g \<noteq> dbGroup then Inl (core ''transaction of another group'')
         else if \<not> valid then Inl (core ''transaction invalid'') else Inr ())"

definition writeModel :: "string \<Rightarrow> string \<Rightarrow> service_context \<Rightarrow> (go_error, field_policy) result" where
  "writeModel dbGroup action cx = bindE (service_Tx dbGroup cx) (\<lambda>_.
     (case sx_plan cx of
        None \<Rightarrow> Inl (core ''no plan'')
      | Some plan \<Rightarrow> if ap_action plan \<noteq> action then Inl (core ''plan of another action'') else Inr (ap_fields plan)))"

definition convertInsertedID :: "int \<Rightarrow> (go_error, u64) result" where
  "convertInsertedID n = (if n < 0 then Inl (core ''inserted id'') else Inr (word_of_int n))"

fun add_loop ::
  "(do_value \<Rightarrow> 's \<Rightarrow> (go_error, int) result \<times> 's) \<Rightarrow> metadata \<Rightarrow> field_policy \<Rightarrow> mutable_fields option list \<Rightarrow> 's \<Rightarrow>
   (go_error, u64 list) result \<times> 's" where
  "add_loop insertRow d p [] s = (Inr [], s)"
| "add_loop insertRow d p (value # values) s =
    (case mutableData d value p of
       Inl e \<Rightarrow> (Inl e, s)
     | Inr (v, n) \<Rightarrow>
         (case insertRow v s of
            (Inl e, s1) \<Rightarrow> (Inl (wrap_core ''insert failed'' e), s1)
          | (Inr i, s1) \<Rightarrow>
              (case convertInsertedID i of
                 Inl e \<Rightarrow> (Inl e, s1)
               | Inr w \<Rightarrow>
                   (case add_loop insertRow d p values s1 of
                      (Inl e, s2) \<Rightarrow> (Inl e, s2)
                    | (Inr ids, s2) \<Rightarrow> (Inr (w # ids), s2)))))"

definition service_Add ::
  "(do_value \<Rightarrow> 's \<Rightarrow> (go_error, int) result \<times> 's) \<Rightarrow> string \<Rightarrow> metadata \<Rightarrow> service_context \<Rightarrow> gs_add \<Rightarrow> 's \<Rightarrow>
   (go_error, gs_result) result \<times> 's" where
  "service_Add insertRow dbGroup d cx input s =
    (case bindE (validateAddInput input) (\<lambda>_. writeModel dbGroup ActionAdd cx) of
       Inl e \<Rightarrow> (Inl e, s)
     | Inr p \<Rightarrow>
         (case add_loop insertRow d p (if ga_isMany input then ga_many input else [ga_one input]) s of
            (Inl e, s1) \<Rightarrow> (Inl e, s1)
          | (Inr ids, s1) \<Rightarrow>
              (Inr (if ga_isMany input then \<lparr>gr_isMany = True, gr_one = 0, gr_many = ids\<rparr>
                 else \<lparr>gr_isMany = False, gr_one = hd ids, gr_many = []\<rparr>), s1)))"

fun update_loop ::
  "(u64 \<Rightarrow> do_value \<Rightarrow> 's \<Rightarrow> (go_error, unit) result \<times> 's) \<Rightarrow> metadata \<Rightarrow> field_policy \<Rightarrow> gs_item list \<Rightarrow> 's \<Rightarrow>
   (go_error, unit) result \<times> 's" where
  "update_loop change d p [] s = (Inr (), s)"
| "update_loop change d p (item # items) s =
    (case bindE (validateUpdateItem d item) (\<lambda>_. mutableData d (gi_mutable item) p) of
       Inl e \<Rightarrow> (Inl e, s)
     | Inr (v, n) \<Rightarrow>
         if n = 0 then (Inl (validate ''nothing to update''), s)
         else (case change (gi_id item) v s of
             (Inl e, s1) \<Rightarrow> (Inl (wrap_core ''update failed'' e), s1)
           | (Inr _, s1) \<Rightarrow> update_loop change d p items s1))"

definition service_Update ::
  "(u64 \<Rightarrow> do_value \<Rightarrow> 's \<Rightarrow> (go_error, unit) result \<times> 's) \<Rightarrow> string \<Rightarrow> metadata \<Rightarrow> service_context \<Rightarrow> gs_update \<Rightarrow> 's \<Rightarrow>
   (go_error, unit) result \<times> 's" where
  "service_Update change dbGroup d cx input s =
    (case bindE (validateUpdateInput input) (\<lambda>_. writeModel dbGroup ActionUpdate cx) of
       Inl e \<Rightarrow> (Inl e, s)
     | Inr p \<Rightarrow> update_loop change d p (if gu_isMany input then gu_many input else [gu_one input]) s)"

definition service_Delete ::
  "(u64 list \<Rightarrow> 's \<Rightarrow> (go_error, unit) result \<times> 's) \<Rightarrow> string \<Rightarrow> service_context \<Rightarrow> u64 list \<Rightarrow> 's \<Rightarrow> (go_error, unit) result \<times> 's" where
  "service_Delete archive dbGroup cx ids s =
    (if ids = [] then (Inl (validate ''delete empty''), s)
     else (case writeModel dbGroup ActionDelete cx of
         Inl e \<Rightarrow> (Inl e, s)
       | Inr _ \<Rightarrow> (case archive ids s of (Inl e, s1) \<Rightarrow> (Inl (wrap_core ''delete failed'' e), s1) | (Inr u, s1) \<Rightarrow> (Inr (), s1))))"

section \<open>Reads\<close>

record service_query =
  sq_request :: "query_request option"
  sq_page :: int
  sq_size :: int
  sq_listLimit :: int

record pagination =
  pg_page :: int
  pg_size :: int
  pg_total :: int

type_synonym service_record = "(string, goval option) gomap"

definition NewQuery :: "query_request option \<Rightarrow> int \<Rightarrow> int \<Rightarrow> (go_error, service_query) result" where
  "NewQuery request page count =
    (if page \<le> 0 \<or> count \<le> 0 then Inl (validate ''page'')
     else Inr \<lparr>sq_request = request, sq_page = page, sq_size = count, sq_listLimit = 0\<rparr>)"

definition NewListQuery :: "query_request option \<Rightarrow> int \<Rightarrow> (go_error, service_query) result" where
  "NewListQuery request limit =
    (if limit \<le> 0 then Inl (validate ''list limit'')
     else Inr \<lparr>sq_request = request, sq_page = 1, sq_size = 1, sq_listLimit = limit\<rparr>)"

definition validateReadQuery :: "service_query \<Rightarrow> (go_error, unit) result" where
  "validateReadQuery query = guardE (0 < sq_page query \<and> 0 < sq_size query) (validate ''page'')"

definition service_Model :: "string \<Rightarrow> service_context \<Rightarrow> (go_error, unit) result" where
  "service_Model dbGroup cx = (if sx_transaction cx = None then Inr () else service_Tx dbGroup cx)"

definition queryModel :: "(string \<Rightarrow> string) \<Rightarrow> string \<Rightarrow> string \<Rightarrow> service_context \<Rightarrow> (go_error, applied_query) result" where
  "queryModel quote dbGroup action cx = bindE (service_Model dbGroup cx) (\<lambda>_.
     (case sx_plan cx of
        None \<Rightarrow> Inl (core ''no plan'')
      | Some plan \<Rightarrow>
          if ap_action plan \<noteq> action then Inl (core ''plan of another action'')
          else (case ApplyQuery quote (Some plan) of Inl e \<Rightarrow> Inl (wrap_core ''plan not applied'' e) | Inr q \<Rightarrow> Inr q)))"

text \<open>The conversion of a column to the type of its field belongs to a library.\<close>

definition dbValue :: "(goval \<Rightarrow> gotype \<Rightarrow> goval option option) \<Rightarrow> goval option \<Rightarrow> gotype \<Rightarrow> goval option" where
  "dbValue scan value target =
    (case value of None \<Rightarrow> None | Some v \<Rightarrow> (case scan v (value_type target) of None \<Rightarrow> Some v | Some w \<Rightarrow> w))"

definition to_record :: "(goval \<Rightarrow> gotype \<Rightarrow> goval option option) \<Rightarrow> metadata \<Rightarrow> service_record \<Rightarrow> service_record" where
  "to_record scan d row =
    map (\<lambda>(name, v). (name, case map_of (md_byJSON d) name of None \<Rightarrow> v | Some f \<Rightarrow> dbValue scan v (ef_GoType f))) row"

definition key_condition :: "(string \<Rightarrow> string) \<Rightarrow> metadata \<Rightarrow> u64 \<Rightarrow> string \<times> goval option list" where
  "key_condition quote d key = (quote ''a'' @ ''.'' @ quote (ef_Column (md_Primary d)) @ '' = ?'', [Some (VInt uint64_type (uint key))])"

text \<open>A record without values if there is none.\<close>

definition service_Info ::
  "(applied_query \<Rightarrow> string \<times> goval option list \<Rightarrow> (go_error, service_record option) result) \<Rightarrow> (goval \<Rightarrow> gotype \<Rightarrow> goval option option) \<Rightarrow>
   (string \<Rightarrow> string) \<Rightarrow> string \<Rightarrow> metadata \<Rightarrow> service_context \<Rightarrow> u64 \<Rightarrow> (go_error, service_record) result" where
  "service_Info fetchOne scan quote dbGroup d cx key = bindE (queryModel quote dbGroup ActionInfo cx) (\<lambda>q.
     (case fetchOne q (key_condition quote d key) of
        Inl e \<Rightarrow> Inl (wrap_core ''info failed'' e)
      | Inr None \<Rightarrow> Inr []
      | Inr (Some row) \<Rightarrow> Inr (to_record scan d row)))"

definition service_List ::
  "(applied_query \<Rightarrow> int option \<Rightarrow> (go_error, service_record list) result) \<Rightarrow> (goval \<Rightarrow> gotype \<Rightarrow> goval option option) \<Rightarrow>
   (string \<Rightarrow> string) \<Rightarrow> string \<Rightarrow> metadata \<Rightarrow> service_context \<Rightarrow> service_query \<Rightarrow> (go_error, service_record list) result" where
  "service_List rows scan quote dbGroup d cx query = bindE (validateReadQuery query) (\<lambda>_. bindE (queryModel quote dbGroup ActionList cx) (\<lambda>q.
     (case rows q (if 0 < sq_listLimit query then Some (sq_listLimit query) else None) of
        Inl e \<Rightarrow> Inl (wrap_core ''list failed'' e)
      | Inr rs \<Rightarrow> Inr (map (to_record scan d) rs))))"

definition service_Page ::
  "(applied_query \<Rightarrow> int \<Rightarrow> int \<Rightarrow> (go_error, service_record list \<times> int) result) \<Rightarrow> (goval \<Rightarrow> gotype \<Rightarrow> goval option option) \<Rightarrow>
   (string \<Rightarrow> string) \<Rightarrow> string \<Rightarrow> metadata \<Rightarrow> service_context \<Rightarrow> service_query \<Rightarrow> (go_error, service_record list \<times> pagination) result" where
  "service_Page page scan quote dbGroup d cx query = bindE (queryModel quote dbGroup ActionPage cx) (\<lambda>q. bindE (validateReadQuery query) (\<lambda>_.
     (case page q (sq_page query) (sq_size query) of
        Inl e \<Rightarrow> Inl (wrap_core ''page failed'' e)
      | Inr (rs, number) \<Rightarrow>
          Inr (map (to_record scan d) rs, \<lparr>pg_page = sq_page query, pg_size = sq_size query, pg_total = number\<rparr>))))"

section \<open>Mutations\<close>

record mutation =
  mt_action :: string
  mt_addInput :: gs_add
  mt_deleteIDs :: "u64 list"
  mt_updateInput :: gs_update
  mt_resultIDs :: "u64 list"

definition no_add :: gs_add where
  "no_add = \<lparr>ga_isMany = False, ga_one = None, ga_many = []\<rparr>"

definition no_update :: gs_update where
  "no_update = \<lparr>gu_isMany = False, gu_one = no_item, gu_many = []\<rparr>"

definition NewAddMutation :: "gs_add \<Rightarrow> (go_error, mutation) result" where
  "NewAddMutation input = bindE (validateAddInput input) (\<lambda>_.
     Inr \<lparr>mt_action = ActionAdd, mt_addInput = input, mt_deleteIDs = [], mt_updateInput = no_update, mt_resultIDs = []\<rparr>)"

definition NewDeleteMutation :: "u64 list \<Rightarrow> (go_error, mutation) result" where
  "NewDeleteMutation ids = (if ids = [] then Inl (validate ''delete mutation'')
     else Inr \<lparr>mt_action = ActionDelete, mt_addInput = no_add, mt_deleteIDs = ids, mt_updateInput = no_update, mt_resultIDs = []\<rparr>)"

definition NewUpdateMutation :: "gs_update \<Rightarrow> (go_error, mutation) result" where
  "NewUpdateMutation input = bindE (validateUpdateInput input) (\<lambda>_.
     Inr \<lparr>mt_action = ActionUpdate, mt_addInput = no_add, mt_deleteIDs = [], mt_updateInput = input, mt_resultIDs = []\<rparr>)"

definition validateMutation :: "mutation option \<Rightarrow> (go_error, mutation) result" where
  "validateMutation mutation =
    (case mutation of
       None \<Rightarrow> Inl (validate ''mutation nil'')
     | Some m \<Rightarrow>
         if mt_action m = ActionAdd then bindE (validateAddInput (mt_addInput m)) (\<lambda>_. Inr m)
         else if mt_action m = ActionDelete then (if mt_deleteIDs m = [] then Inl (validate ''delete mutation'') else Inr m)
         else if mt_action m = ActionUpdate then bindE (validateUpdateInput (mt_updateInput m)) (\<lambda>_. Inr m)
         else Inl (validate ''mutation action''))"

definition setAddResult :: "gs_result \<Rightarrow> mutation \<Rightarrow> (go_error, mutation) result" where
  "setAddResult result m =
    (if gr_isMany result \<noteq> ga_isMany (mt_addInput m) then Inl (core ''result shape'')
     else if gr_isMany result then
       (if length (gr_many result) \<noteq> length (ga_many (mt_addInput m)) then Inl (core ''result count'')
        else Inr (m\<lparr>mt_resultIDs := gr_many result\<rparr>))
     else Inr (m\<lparr>mt_resultIDs := [gr_one result]\<rparr>))"

text \<open>The context of a mutation: the current transaction with its group, the scopes of the dispatcher
  and of the operation.\<close>

record mutation_context =
  mx_transaction :: "(bool \<times> string) option"
  mx_dispatch :: "dispatch_scope option"
  mx_plan :: "action_plan option"

definition checkMutation :: "mutation_context \<Rightarrow> mutation option \<Rightarrow> (go_error, mutation) result" where
  "checkMutation cx mutation =
    bindE (validateMutation mutation) (\<lambda>m.
    if (case mx_transaction cx of None \<Rightarrow> True | Some (valid, dbGroup) \<Rightarrow> \<not> valid \<or> dbGroup = []) then Inl (core ''mutation without transaction'')
    else (case mx_dispatch cx of
        None \<Rightarrow> Inl (core ''mutation without dispatcher'')
      | Some scope \<Rightarrow>
          if dc_action scope \<noteq> mt_action m then Inl (core ''dispatched action'')
          else if \<not> isActionMode (dc_mode scope) then Inl (core ''dispatch mode'')
          else (case mx_plan cx of
              None \<Rightarrow> Inl (core ''no plan'')
            | Some plan \<Rightarrow> if ap_action plan \<noteq> mt_action m then Inl (core ''plan of another action'') else Inr m)))"

definition ExecuteMutation ::
  "mutation_context \<Rightarrow> mutation option \<Rightarrow>
   (mutation \<Rightarrow> 's \<Rightarrow> (go_error, mutation) result \<times> 's) option \<Rightarrow> (mutation \<Rightarrow> 's \<Rightarrow> (go_error, unit) result \<times> 's) option \<Rightarrow>
   (mutation \<Rightarrow> 's \<Rightarrow> (go_error, gs_result) result \<times> 's) option \<Rightarrow> 's \<Rightarrow> (go_error, gs_result) result \<times> 's" where
  "ExecuteMutation cx mutation before after modify s =
    (case checkMutation cx mutation of
       Inl e \<Rightarrow> (Inl e, s)
     | Inr m0 \<Rightarrow>
         (case modify of
            None \<Rightarrow> (Inl (core ''no write''), s)
          | Some write \<Rightarrow>
              (case (case before of None \<Rightarrow> (Inr m0, s) | Some hook \<Rightarrow> hook m0 s) of
                 (Inl e, s1) \<Rightarrow> (Inl e, s1)
               | (Inr m1, s1) \<Rightarrow>
                   (case write m1 s1 of
                      (Inl e, s2) \<Rightarrow> (Inl e, s2)
                    | (Inr result, s2) \<Rightarrow>
                        (case (if mt_action m1 = ActionAdd then setAddResult result m1 else Inr m1) of
                           Inl e \<Rightarrow> (Inl e, s2)
                         | Inr m2 \<Rightarrow>
                             (case after of
                                None \<Rightarrow> (Inr result, s2)
                              | Some hook \<Rightarrow>
                                  (case hook m2 s2 of (Inl e, s3) \<Rightarrow> (Inl e, s3) | (Inr u, s3) \<Rightarrow> (Inr result, s3))))))))"

end
