(* ===== verification/Service_Properties.thy ===== *)
theory Service_Properties
  imports Generic_Service Crud_Policy
begin

text \<open>
  What the generic service writes: for fields submitted by a client and changed by the code of the
  business in any way, exactly which fields reach the database under the policy of the action, and
  when the write is refused.
\<close>

section \<open>Submitted fields fit their entity\<close>

definition item_ok :: "entity_field \<Rightarrow> mutable_value \<Rightarrow> bool" where
  "item_ok f item \<longleftrightarrow>
    (if mv_isNull item then ef_Nullable f
     else case mv_data item of None \<Rightarrow> False | Some v \<Rightarrow> \<not> isNilValue (Some v) \<and> type_of v = value_type (ef_GoType f))"

definition mutable_ok :: "metadata \<Rightarrow> mutable_fields \<Rightarrow> bool" where
  "mutable_ok d m \<longleftrightarrow> mu_descriptor m = Some d \<and>
     (\<forall>k item. map_of (mu_values m) k = Some item \<longrightarrow> (\<exists>f \<in> set (md_Fields d). ef_Name f = k \<and> item_ok f item))"

text \<open>What the business may do to submitted fields; a failed change leaves them as they are.\<close>

datatype mutable_edit = EditSet string "goval option" | EditNull string | EditUnset string

fun mutable_change :: "mutable_edit \<Rightarrow> mutable_fields \<Rightarrow> (go_error, mutable_fields) result" where
  "mutable_change (EditSet name v) m = mutable_Set name v m"
| "mutable_change (EditNull name) m = mutable_SetNull name m"
| "mutable_change (EditUnset name) m = mutable_Unset name m"

definition mutable_edited :: "mutable_fields \<Rightarrow> mutable_edit \<Rightarrow> mutable_fields" where
  "mutable_edited m edit = (case mutable_change edit m of Inl e \<Rightarrow> m | Inr m' \<Rightarrow> m')"

lemma json_field: "descriptor_ok d \<Longrightarrow> map_of (md_byJSON d) name = Some f \<Longrightarrow> f \<in> set (md_Fields d) \<and> ef_Name f = name"
  by (simp add: md_byJSON_iff md_Field_iff)

lemma mutable_set_ok:
  assumes "mutable_ok d m" "f \<in> set (md_Fields d)" "mutable_set f isNull data source m = Inr m'"
  shows "mutable_ok d m'"
proof -
  obtain item where item: "item_ok f item" "m' = m\<lparr>mu_values := mput (ef_Name f) item (mu_values m)\<rparr>"
  proof (cases isNull)
    case True
    then show ?thesis
      using assms(3) by (intro that [of "\<lparr>mv_source = source, mv_isNull = True, mv_data = None\<rparr>"])
        (auto simp: mutable_set_def item_ok_def split: if_splits)
  next
    case False
    then obtain v where "data = Some v" "\<not> isNilValue (Some v)" "type_of v = value_type (ef_GoType f)"
      using assms(3) by (auto simp: mutable_set_def split: if_splits option.splits)
    then show ?thesis
      using assms(3) False by (intro that [of "\<lparr>mv_source = source, mv_isNull = False, mv_data = Some v\<rparr>"])
        (auto simp: mutable_set_def item_ok_def)
  qed
  then show ?thesis using assms(1,2) by (auto simp: mutable_ok_def)
qed

lemma new_mutable_loop_ok:
  "new_mutable_loop d fs m = Inr m' \<Longrightarrow> descriptor_ok d \<Longrightarrow> mutable_ok d m \<Longrightarrow> mutable_ok d m'"
proof (induction d fs m rule: new_mutable_loop.induct)
  case (2 d item items m)
  then obtain f m1 where f: "fv_isSubmitted item" "map_of (md_byJSON d) (fv_name item) = Some f" "map_of (mu_values m) (ef_Name f) = None"
      "mutable_set f (fv_isNull item) (fv_data item) FieldClient m = Inr m1" "new_mutable_loop d items m1 = Inr m'"
    by (auto simp: bindE_Inr_iff split: if_splits option.splits)
  then show ?case using 2 mutable_set_ok [OF _ _ f(4)] json_field by blast
qed simp

lemma NewMutable_ok:
  assumes "descriptor_ok d" "NewMutable t (Some d) fs = Inr m"
  shows "mutable_ok d m"
proof -
  have "new_mutable_loop d fs \<lparr>mu_descriptor = Some d, mu_values = []\<rparr> = Inr m"
    using assms(2) by (auto simp: NewMutable_def validateDescriptor_def bindE_Inr_iff split: if_splits)
  then show ?thesis by (rule new_mutable_loop_ok [OF _ assms(1)]) (simp add: mutable_ok_def)
qed

lemma mutable_change_ok:
  assumes "descriptor_ok d" "mutable_ok d m" "mutable_change edit m = Inr m'"
  shows "mutable_ok d m'"
proof -
  have d: "mu_descriptor m = Some d" using assms(2) by (simp add: mutable_ok_def)
  have field: "mutable_field name m = Inr f \<Longrightarrow> f \<in> set (md_Fields d)" for name f
    using json_field [OF assms(1)] by (auto simp: mutable_field_def d split: option.splits)
  show ?thesis
  proof (cases edit)
    case (EditSet name v)
    then obtain f where "mutable_field name m = Inr f" "mutable_set f False v FieldServer m = Inr m'"
      using assms(3) by (auto simp: mutable_Set_def bindE_Inr_iff)
    then show ?thesis using mutable_set_ok assms(2) field by blast
  next
    case (EditNull name)
    then obtain f where "mutable_field name m = Inr f" "mutable_set f True None FieldServer m = Inr m'"
      using assms(3) by (auto simp: mutable_SetNull_def bindE_Inr_iff)
    then show ?thesis using mutable_set_ok assms(2) field by blast
  next
    case (EditUnset name)
    then show ?thesis using assms(2,3) by (auto simp: mutable_Unset_def mutable_ok_def bindE_Inr_iff split: if_splits)
  qed
qed

lemma mutable_edits_ok: "descriptor_ok d \<Longrightarrow> mutable_ok d m \<Longrightarrow> mutable_ok d (foldl mutable_edited m edits)"
proof (induction edits arbitrary: m)
  case (Cons edit edits)
  have "mutable_ok d (mutable_edited m edit)"
    using Cons.prems mutable_change_ok by (auto simp: mutable_edited_def split: sum.splits)
  then show ?case using Cons by simp
qed simp

section \<open>Which of them are written\<close>

text \<open>Nobody writes the key and the fields of the system, a client no hidden and no readonly field.\<close>

definition written :: "field_policy \<Rightarrow> entity_field \<Rightarrow> mutable_value \<Rightarrow> bool" where
  "written p f item \<longleftrightarrow> \<not> ef_Primary f \<and> \<not> ef_SystemMaintained f \<and>
     (mv_source item = FieldClient \<longrightarrow> \<not> IsHidden p (ef_Name f) \<and> \<not> IsReadonly p (ef_Name f))"

text \<open>A client that submits a hidden field, and code that sets the key or a field of the system.\<close>

definition refused :: "field_policy \<Rightarrow> mutable_fields \<Rightarrow> entity_field \<Rightarrow> bool" where
  "refused p m f \<longleftrightarrow>
    (case map_of (mu_values m) (ef_Name f) of
       None \<Rightarrow> False
     | Some item \<Rightarrow>
         if mv_source item = FieldClient then IsHidden p (ef_Name f) else ef_Primary f \<or> ef_SystemMaintained f)"

definition item_state :: "mutable_value \<Rightarrow> do_state" where
  "item_state item = (if mv_isNull item then DoNull else DoValue (the (mv_data item)))"

definition written_state :: "field_policy \<Rightarrow> mutable_fields \<Rightarrow> entity_field list \<Rightarrow> string \<Rightarrow> do_state option" where
  "written_state p m fs name =
    (case find (\<lambda>f. ef_Name f = name) fs of
       None \<Rightarrow> None
     | Some f \<Rightarrow>
         (case map_of (mu_values m) name of None \<Rightarrow> None | Some item \<Rightarrow> if written p f item then Some (item_state item) else None))"

lemma SetColumn_item:
  assumes "descriptor_ok d" "dv_shape v = d" "f \<in> set (md_PersistentFields d)" "item_ok f item"
  shows "SetColumn (ef_Name f) (if mv_isNull item then None else mv_data item) v =
    Inr (v\<lparr>dv_states := mput (ef_Name f) (item_state item) (dv_states v)\<rparr>)"
proof -
  have "do_field v (ef_Name f) = Some f" using do_field_eq [OF assms(1,2)] assms(3) by blast
  then show ?thesis
    using assms(4) by (auto simp: SetColumn_def item_ok_def setNull_def item_state_def isTypedNil_def isNilValue_def
        split: if_splits option.splits goval.splits)
qed

lemma write_field_item:
  assumes "descriptor_ok d" "dv_shape v = d" "f \<in> set (md_PersistentFields d)" "item_ok f item" "map_of (mu_values m) (ef_Name f) = Some item"
  shows "refused p m f \<Longrightarrow> \<exists>msg. write_field p f item (v, n) = Inl (validate msg)"
    and "\<not> refused p m f \<Longrightarrow> write_field p f item (v, n) =
      (if written p f item then Inr (v\<lparr>dv_states := mput (ef_Name f) (item_state item) (dv_states v)\<rparr>, n + 1) else Inr (v, n))"
  using assms(5) SetColumn_item [OF assms(1-4)]
  by (cases "mv_source item"; auto simp: refused_def written_def write_field_def)+

lemma mutable_loop_exact:
  assumes "descriptor_ok d" "mutable_ok d m" "dv_shape v = d" "set fs \<subseteq> set (md_PersistentFields d)" "distinct (map ef_Name fs)"
  shows "case mutable_loop p (mu_values m) fs (v, n) of
      Inl e \<Rightarrow> (\<exists>msg. e = validate msg) \<and> list_ex (refused p m) fs
    | Inr (v', n') \<Rightarrow> \<not> list_ex (refused p m) fs \<and> dv_shape v' = d \<and>
        (\<forall>name. map_of (dv_states v') name =
          (case written_state p m fs name of None \<Rightarrow> map_of (dv_states v) name | Some st \<Rightarrow> Some st))"
  using assms(3-5)
proof (induction fs arbitrary: v n)
  case Nil
  then show ?case by (simp add: written_state_def)
next
  case (Cons f fs)
  have f: "f \<in> set (md_PersistentFields d)" "f \<in> set (md_Fields d)"
    using Cons.prems(2) persistent_member [OF assms(1)] by auto
  have other: "written_state p m fs (ef_Name f) = None"
  proof -
    have "find (\<lambda>g. ef_Name g = ef_Name f) fs = None" using Cons.prems(3) unfolding find_None_iff by (auto simp: image_iff)
    then show ?thesis by (simp add: written_state_def)
  qed
  have split: "written_state p m (f # fs) name =
      (if ef_Name f = name then (case map_of (mu_values m) name of None \<Rightarrow> None | Some item \<Rightarrow> if written p f item then Some (item_state item) else None)
       else written_state p m fs name)" for name
    by (simp add: written_state_def)
  show ?case
  proof (cases "map_of (mu_values m) (ef_Name f)")
    case None
    have "list_ex (refused p m) (f # fs) = list_ex (refused p m) fs" by (simp add: refused_def None)
    moreover have "written_state p m (f # fs) = written_state p m fs" using other None by (auto simp: split fun_eq_iff)
    moreover have "mutable_loop p (mu_values m) (f # fs) (v, n) = mutable_loop p (mu_values m) fs (v, n)" using None by simp
    moreover note Cons.IH [OF Cons.prems(1), of n] Cons.prems(2,3)
    ultimately show ?thesis by (simp only: set_simps list.map distinct.simps insert_subset)
  next
    case (Some item)
    have item: "item_ok f item"
    proof -
      obtain g where "g \<in> set (md_Fields d)" "ef_Name g = ef_Name f" "item_ok g item"
        using assms(2) Some unfolding mutable_ok_def by blast
      then show ?thesis using f(2) md_Field_iff [OF assms(1)] by (metis option.inject)
    qed
    note w = write_field_item [OF assms(1) Cons.prems(1) f(1) item Some, of p n]
    show ?thesis
    proof (cases "refused p m f")
      case True
      then show ?thesis using w(1) Some by auto
    next
      case False
      define v1 where "v1 = (if written p f item then v\<lparr>dv_states := mput (ef_Name f) (item_state item) (dv_states v)\<rparr> else v)"
      define n1 where "n1 = (if written p f item then n + 1 else n)"
      have step: "mutable_loop p (mu_values m) (f # fs) (v, n) = mutable_loop p (mu_values m) fs (v1, n1)"
        using w(2) [OF False] Some by (simp add: v1_def n1_def)
      have shape: "dv_shape v1 = d" using Cons.prems(1) by (simp add: v1_def)
      have ih: "case mutable_loop p (mu_values m) fs (v1, n1) of
          Inl e \<Rightarrow> (\<exists>msg. e = validate msg) \<and> list_ex (refused p m) fs
        | Inr (v', n') \<Rightarrow> \<not> list_ex (refused p m) fs \<and> dv_shape v' = d \<and>
            (\<forall>name. map_of (dv_states v') name =
              (case written_state p m fs name of None \<Rightarrow> map_of (dv_states v1) name | Some st \<Rightarrow> Some st))"
        using Cons.IH [OF shape] Cons.prems(2,3) by simp
      have "(case written_state p m fs name of None \<Rightarrow> map_of (dv_states v1) name | Some st \<Rightarrow> Some st) =
          (case written_state p m (f # fs) name of None \<Rightarrow> map_of (dv_states v) name | Some st \<Rightarrow> Some st)" for name
        using other Some by (cases "ef_Name f = name") (auto simp: split v1_def split: option.split)
      then show ?thesis
        using ih False unfolding step by (cases "mutable_loop p (mu_values m) fs (v1, n1)") auto
    qed
  qed
qed

text \<open>The policy of an action plan has the names that the controller declares.\<close>

lemma compileSortFields_readonly:
  assumes "compileSortFields d t i p auto = Inr p'"
  shows "fp_readonly p' = fp_readonly p"
proof -
  obtain m s where "p' = p\<lparr>fp_sortable := m, fp_defaultSort := s\<rparr>"
    using assms unfolding compileSortFields_def Let_def bindE_Inr_iff by blast
  then show ?thesis by simp
qed

lemma CompilePlan_fields:
  assumes "resolver_ok resolver" "CompilePlan resolver i req = Inr ap"
  shows "set (fp_hidden (ap_fields ap)) = cr_name ` set (fi_HiddenFields (pi_Fields i))"
    and "set (fp_readonly (ap_fields ap)) = cr_name ` set (fi_ReadonlyFields (pi_Fields i))"
proof -
  define auto where "auto \<longleftrightarrow> (pi_Action i = ActionList \<or> pi_Action i = ActionPage) \<and> fi_SortFields (pi_Fields i) = []"
  have p: "compileFieldPolicy resolver (pi_Entity i) (pi_Fields i) auto = Inr (ap_fields ap)"
    using assms(2) unfolding CompilePlan_def Let_def auto_def by (auto simp: bindE_Inr_iff split: if_splits)
  show "set (fp_hidden (ap_fields ap)) = cr_name ` set (fi_HiddenFields (pi_Fields i))"
    using compileFieldPolicy_ok [OF assms(1) p] by (simp add: auto_def)
  show "set (fp_readonly (ap_fields ap)) = cr_name ` set (fi_ReadonlyFields (pi_Fields i))"
  proof (cases "emptyPolicy (pi_Fields i) \<and> \<not> auto")
    case True
    then have "ap_fields ap = empty_policy" using p by (simp add: compileFieldPolicy_def)
    then show ?thesis using True by (simp add: emptyPolicy_def empty_policy_def)
  next
    case False
    obtain t d where td: "pi_Entity i = Some t" "named_struct t" "resolver t = Some d"
      using p False unfolding compileFieldPolicy_def by (auto split: if_splits option.splits)
    obtain hidden readonly ignored where r: "resolver t = Some d" "compileFieldSet d t (fi_ReadonlyFields (pi_Fields i)) = Inr readonly"
        "compileSortFields d t (pi_Fields i) \<lparr>fp_hidden = hidden, fp_infoIgnored = ignored, fp_readonly = readonly,
           fp_sortable = [], fp_defaultSort = None\<rparr> auto = Inr (ap_fields ap)"
      using p False td unfolding compileFieldPolicy_def by (auto simp: bindE_Inr_iff)
    have "fp_readonly (ap_fields ap) = readonly" using compileSortFields_readonly [OF r(3)] by simp
    moreover have "descriptor_ok d" using assms(1) r(1) unfolding resolver_ok_def by blast
    ultimately show ?thesis using compileFieldSet_names [OF _ r(2)] by simp
  qed
qed

text \<open>The database notes what it is given to insert.\<close>

definition noting :: "(do_value \<Rightarrow> 's \<Rightarrow> (go_error, int) result \<times> 's) \<Rightarrow> do_value \<Rightarrow> 's \<times> do_value list \<Rightarrow>
    (go_error, int) result \<times> 's \<times> do_value list" where
  "noting insertRow v sl = (case insertRow v (fst sl) of (r, s) \<Rightarrow> (r, s, snd sl @ [v]))"

lemma add_loop_noted:
  "add_loop (noting insertRow) d p xs sl = (r, sl') \<Longrightarrow> \<forall>x \<in> set xs. \<forall>v n. mutableData d x p = Inr (v, n) \<longrightarrow> P v \<Longrightarrow>
    list_all P (snd sl) \<Longrightarrow> list_all P (snd sl')"
proof (induction xs arbitrary: sl r)
  case (Cons x xs)
  show ?case
  proof (cases "mutableData d x p")
    case (Inl e)
    then show ?thesis using Cons.prems by simp
  next
    case (Inr vn)
    obtain v n where vn: "vn = (v, n)" by fastforce
    obtain a s where "insertRow v (fst sl) = (a, s)" by fastforce
    then have ins: "noting insertRow v sl = (a, s, snd sl @ [v])" by (simp add: noting_def)
    have P: "list_all P (snd sl @ [v])" using Cons.prems(2,3) Inr vn by simp
    show ?thesis
    proof (cases "\<exists>i w. a = Inr i \<and> convertInsertedID i = Inr w")
      case True
      then obtain r1 where "add_loop (noting insertRow) d p xs (s, snd sl @ [v]) = (r1, sl')"
        using Cons.prems(1) Inr vn ins by (auto split: prod.splits sum.splits)
      then show ?thesis using Cons.IH [of "(s, snd sl @ [v])" r1] Cons.prems(2) P by simp
    next
      case False
      then have "sl' = (s, snd sl @ [v])"
        using Cons.prems(1) Inr vn ins by (auto split: prod.splits sum.splits)
      then show ?thesis using P by simp
    qed
  qed
qed simp

definition client_built :: "gotype \<Rightarrow> metadata \<Rightarrow> mutable_fields option \<Rightarrow> bool" where
  "client_built t d x \<longleftrightarrow> (\<exists>fs m. x = Some m \<and> NewMutable t (Some d) fs = Inr m)"

definition from_client :: "mutable_fields \<Rightarrow> bool" where
  "from_client m \<longleftrightarrow> (\<forall>k item. map_of (mu_values m) k = Some item \<longrightarrow> mv_source item = FieldClient)"

lemma mutable_set_client: "mutable_set f isNull data FieldClient m = Inr m' \<Longrightarrow> from_client m \<Longrightarrow> from_client m'"
  by (auto simp: mutable_set_def from_client_def split: if_splits option.splits)

lemma new_mutable_loop_client: "new_mutable_loop d fs m = Inr m' \<Longrightarrow> from_client m \<Longrightarrow> from_client m'"
proof (induction d fs m rule: new_mutable_loop.induct)
  case (2 d item items m)
  then obtain f m1 where f: "fv_isSubmitted item" "map_of (md_byJSON d) (fv_name item) = Some f" "map_of (mu_values m) (ef_Name f) = None"
      "mutable_set f (fv_isNull item) (fv_data item) FieldClient m = Inr m1" "new_mutable_loop d items m1 = Inr m'"
    by (auto simp: bindE_Inr_iff split: if_splits option.splits)
  then show ?case using 2 mutable_set_client by blast
qed simp

lemma NewMutable_client: "NewMutable t (Some d) fs = Inr m \<Longrightarrow> from_client m"
  using new_mutable_loop_client by (fastforce simp: NewMutable_def bindE_Inr_iff from_client_def)

text \<open>Fields that a client may write under a controller's declaration.\<close>

definition writable :: "field_policy_input \<Rightarrow> entity_field \<Rightarrow> bool" where
  "writable i f \<longleftrightarrow> \<not> ef_Primary f \<and> \<not> ef_SystemMaintained f \<and>
     ef_Name f \<notin> cr_name ` set (fi_HiddenFields i) \<and> ef_Name f \<notin> cr_name ` set (fi_ReadonlyFields i)"

lemma written_state_client:
  assumes "from_client m" "written_state p m fs (ef_Name f) = Some st" "f \<in> set fs" "distinct (map ef_Name fs)"
  shows "\<not> ef_Primary f \<and> \<not> ef_SystemMaintained f \<and> \<not> IsHidden p (ef_Name f) \<and> \<not> IsReadonly p (ef_Name f)"
proof -
  obtain g where g: "find (\<lambda>g. ef_Name g = ef_Name f) fs = Some g" using assms(2) by (auto simp: written_state_def split: option.splits)
  then have "g \<in> set fs" "ef_Name g = ef_Name f" by (auto simp: find_Some_iff)
  then have "g = f" using assms(3,4) by (auto simp: distinct_map inj_on_def)
  then show ?thesis using assms(1,2) g by (auto simp: written_state_def written_def from_client_def split: option.splits if_splits)
qed

section \<open>An example\<close>

text \<open>A client submits a name, the code of the business sets the password that the client may not.\<close>

definition sample_submitted :: "field_value list" where
  "sample_submitted = [field_Value ''name'' (Some (go_string ''al''))]"

definition sample_mutable :: mutable_fields where
  "sample_mutable = (case NewMutable sample_entity (Some sample_metadata) sample_submitted of
     Inl e \<Rightarrow> \<lparr>mu_descriptor = None, mu_values = []\<rparr> | Inr m \<Rightarrow> m)"

definition sample_edited :: mutable_fields where
  "sample_edited = foldl mutable_edited sample_mutable [EditSet ''password'' (Some (go_string ''pw''))]"

definition sample_policy :: field_policy where
  "sample_policy = empty_policy\<lparr>fp_hidden := [''password'']\<rparr>"

definition sample_add :: plan_input where
  "sample_add = sample_input\<lparr>pi_Action := ActionAdd\<rparr>"

definition sample_add_plan :: action_plan where
  "sample_add_plan = (case CompilePlan sample_resolver sample_add None of
     Inl e \<Rightarrow> \<lparr>ap_action = [], ap_fields = empty_policy, ap_query = None\<rparr> | Inr p \<Rightarrow> p)"

definition sample_insert :: "do_value \<Rightarrow> unit \<Rightarrow> (go_error, int) result \<times> unit" where
  "sample_insert v s = (Inr 7, s)"

definition sample_service_add :: "(go_error, gs_result) result \<times> unit \<times> do_value list" where
  "sample_service_add = service_Add (noting sample_insert) ''default'' sample_metadata
     \<lparr>sx_transaction = Some (''default'', True), sx_plan = Some sample_add_plan\<rparr>
     \<lparr>ga_isMany = True, ga_one = None, ga_many = [Some sample_mutable]\<rparr> ((), [])"

lemma sample_metadata_ok: "descriptor_ok sample_metadata"
  using sample_resolver_ok by (simp add: resolver_ok_def sample_resolver_def)

lemma sample_submits: "NewMutable sample_entity (Some sample_metadata) sample_submitted = Inr sample_mutable"
proof -
  have "case NewMutable sample_entity (Some sample_metadata) sample_submitted of Inl e \<Rightarrow> False | Inr m \<Rightarrow> True" by code_simp
  then show ?thesis by (auto simp: sample_mutable_def split: sum.splits)
qed

lemma sample_add_compiles: "CompilePlan sample_resolver sample_add None = Inr sample_add_plan"
proof -
  have "case CompilePlan sample_resolver sample_add None of Inl e \<Rightarrow> False | Inr m \<Rightarrow> True" by code_simp
  then show ?thesis by (auto simp: sample_add_plan_def split: sum.splits)
qed

section \<open>Properties\<close>

lemma persistent_names: "descriptor_ok d \<Longrightarrow> distinct (map ef_Name (md_PersistentFields d))"
  by (auto simp: descriptor_ok_def fields_ok_def distinct_map inj_on_def)

lemma written_fields_data:
  assumes "descriptor_ok d" "NewMutable t (Some d) fs = Inr m" "edited = foldl mutable_edited m edits"
  shows "case mutableData d (Some edited) p of
      Inl e \<Rightarrow> (\<exists>msg. e = validate msg) \<and> list_ex (refused p edited) (md_PersistentFields d)
    | Inr (v, n) \<Rightarrow> \<not> list_ex (refused p edited) (md_PersistentFields d) \<and>
        map_of (dv_states v) = written_state p edited (md_PersistentFields d)"
proof -
  have ok: "mutable_ok d edited" using mutable_edits_ok [OF assms(1) NewMutable_ok [OF assms(1,2)]] assms(3) by simp
  then have "mutableData d (Some edited) p = mutable_loop p (mu_values edited) (md_PersistentFields d) (NewDO d, 0)"
    by (simp add: mutableData_def validateMutable_def mutable_ok_def)
  moreover have "(case s of None \<Rightarrow> map_of (dv_states (NewDO d)) name | Some x \<Rightarrow> Some x) = s" for s name
    by (cases s) (auto simp: NewDO_def)
  ultimately show ?thesis
    using mutable_loop_exact [OF assms(1) ok _ subset_refl persistent_names [OF assms(1)], of "NewDO d" p 0]
    by (auto simp: NewDO_def [of d, THEN arg_cong, of dv_shape] fun_eq_iff split: sum.splits prod.splits)
qed

text \<open>C14: What is written of submitted fields is exact. Take fields as a client submits them and let the
  code of the business change them in any way. Then the write is refused, as the client's or the
  code's mistake and never as an internal error, exactly if the client submitted a hidden field or
  the code set the key or a field of the system; otherwise the values for the database are exactly
  those submitted, less the key, the fields of the system and what the client submitted for
  readonly fields.\<close>

theorem written_fields_exact:
  assumes "descriptor_ok d" "NewMutable t (Some d) fs = Inr m" "edited = foldl mutable_edited m edits"
  shows "case mutableData d (Some edited) p of
      Inl e \<Rightarrow> (\<exists>msg. e = validate msg) \<and> list_ex (refused p edited) (md_PersistentFields d)
    | Inr (v, n) \<Rightarrow> \<not> list_ex (refused p edited) (md_PersistentFields d) \<and>
        map_of (dv_states v) = written_state p edited (md_PersistentFields d)"
  using written_fields_data [OF assms] .

theorem written_fields_exact_witness:
  "case mutableData sample_metadata (Some sample_edited) sample_policy of
     Inl e \<Rightarrow> False
   | Inr (v, n) \<Rightarrow> map_of (dv_states v) ''password'' = Some (DoValue (go_string ''pw'')) \<and> map_of (dv_states v) ''id'' = None"
proof -
  have "\<not> list_ex (refused sample_policy sample_edited) (md_PersistentFields sample_metadata)"
    "written_state sample_policy sample_edited (md_PersistentFields sample_metadata) ''password'' = Some (DoValue (go_string ''pw''))"
    "written_state sample_policy sample_edited (md_PersistentFields sample_metadata) ''id'' = None"
    by code_simp+
  then show ?thesis
    using written_fields_exact [OF sample_metadata_ok sample_submits sample_edited_def, of sample_policy]
    by (auto split: sum.splits prod.splits)
qed



end
