(* ===== verification/Native_Sql.thy ===== *)
theory Native_Sql
  imports Generic_Service
begin

text \<open>
  Native queries of the generic service (\<open>core/gnservice/native.go\<close>): the scanner that looks for the
  words of a statement outside comments, strings and quoted names, the guard that admits reading
  statements only, and the statement that fetches a page of one.

  The scanner's index is the suffix of the text that is left. The database is a parameter;
  the destination of the rows, a pointer of the caller, is left out with its check.
\<close>

section \<open>Characters\<close>

definition isSQLSpace :: "char \<Rightarrow> bool" where
  "isSQLSpace c \<longleftrightarrow> byte c \<in> {32, 9, 10, 13, 12}"

definition isSQLWordStart :: "char \<Rightarrow> bool" where
  "isSQLWordStart c \<longleftrightarrow> c = CHR ''_'' \<or> is_lower c \<or> is_upper c"

definition isSQLWordPart :: "char \<Rightarrow> bool" where
  "isSQLWordPart c \<longleftrightarrow> isSQLWordStart c \<or> is_digit c"

definition newline :: "char \<Rightarrow> bool" where
  "newline c \<longleftrightarrow> byte c = 10 \<or> byte c = 13"

definition sql_quote :: char where
  "sql_quote = char_of (39 :: nat)"

definition sql_backslash :: char where
  "sql_backslash = char_of (92 :: nat)"

definition is_quote :: "char \<Rightarrow> bool" where
  "is_quote c \<longleftrightarrow> byte c \<in> {39, 34, 96}"

definition upper_word :: "string \<Rightarrow> string" where
  "upper_word = map (\<lambda>c. char_of (upper_ascii (byte c)))"

section \<open>Skipping\<close>

definition skipLineComment :: "string \<Rightarrow> string" where
  "skipLineComment = dropWhile (\<lambda>c. \<not> newline c)"

text \<open>The text after a block comment, from behind its opening.\<close>

fun skipBlockComment :: "nat \<Rightarrow> string \<Rightarrow> string option" where
  "skipBlockComment depth (c # d # s) =
    (if c = CHR ''/'' \<and> d = CHR ''*'' then skipBlockComment (depth + 1) s
     else if c = CHR ''*'' \<and> d = CHR ''/'' then (if depth = 1 then Some s else skipBlockComment (depth - 1) s)
     else skipBlockComment depth (d # s))"
| "skipBlockComment depth s = None"

text \<open>The text after a quoted one, from behind its opening quote.\<close>

fun skipQuotedSQL :: "char \<Rightarrow> string \<Rightarrow> string option" where
  "skipQuotedSQL q [] = None"
| "skipQuotedSQL q [c] = (if c = q then Some [] else None)"
| "skipQuotedSQL q (c # d # s) =
    (if c = sql_backslash \<and> q = sql_quote then skipQuotedSQL q s
     else if c \<noteq> q then skipQuotedSQL q (d # s)
     else if d = q then skipQuotedSQL q s
     else Some (d # s))"

fun find_text :: "string \<Rightarrow> string \<Rightarrow> string option" where
  "find_text p [] = (if p = [] then Some [] else None)"
| "find_text p (c # s) = (if has_prefix p (c # s) then Some (drop (length p) (c # s)) else find_text p s)"

text \<open>From behind a dollar sign: \<open>None\<close> if no dollar quote begins here, \<open>Some None\<close> if it is not closed.\<close>

definition skipDollarQuote :: "string \<Rightarrow> string option option" where
  "skipDollarQuote s =
    (if CHR ''$'' \<notin> set s then None
     else (let tag = takeWhile (\<lambda>c. c \<noteq> CHR ''$'') s; rest = tl (dropWhile (\<lambda>c. c \<noteq> CHR ''$'') s)
       in if \<not> list_all isSQLWordPart tag then None
          else Some (find_text (''$'' @ tag @ ''$'') rest)))"

lemma skipLineComment_length: "length (skipLineComment s) \<le> length s"
  by (simp add: skipLineComment_def length_dropWhile_le)

lemma skipBlockComment_length: "skipBlockComment n s = Some t \<Longrightarrow> length t < length s"
  by (induction n s rule: skipBlockComment.induct) (auto split: if_splits)

lemma skipQuotedSQL_length: "skipQuotedSQL q s = Some t \<Longrightarrow> length t < length s"
  by (induction q s rule: skipQuotedSQL.induct) (auto split: if_splits)

lemma find_text_length: "find_text p s = Some t \<Longrightarrow> length t \<le> length s"
  by (induction p s rule: find_text.induct) (auto split: if_splits)

lemma skipDollarQuote_length: "skipDollarQuote s = Some (Some t) \<Longrightarrow> length t \<le> length s"
proof -
  assume a: "skipDollarQuote s = Some (Some t)"
  then have "find_text (''$'' @ takeWhile (\<lambda>c. c \<noteq> CHR ''$'') s @ ''$'') (tl (dropWhile (\<lambda>c. c \<noteq> CHR ''$'') s)) = Some t"
    by (auto simp: skipDollarQuote_def Let_def split: if_splits)
  from find_text_length [OF this] show ?thesis using length_dropWhile_le [of "\<lambda>c. c \<noteq> CHR ''$''" s] by simp
qed

section \<open>The scanner\<close>

text \<open>After the end of the statement only blanks and comments may follow.\<close>

function nativeSQLTailOnly :: "string \<Rightarrow> bool" where
  "nativeSQLTailOnly s =
    (case s of
       [] \<Rightarrow> True
     | c # t \<Rightarrow>
         if isSQLSpace c then nativeSQLTailOnly t
         else if has_prefix ''--'' s then nativeSQLTailOnly (skipLineComment (drop 2 s))
         else if c = CHR ''#'' then nativeSQLTailOnly (skipLineComment t)
         else if has_prefix ''/*'' s then
           (case skipBlockComment 1 (drop 2 s) of None \<Rightarrow> False | Some u \<Rightarrow> nativeSQLTailOnly u)
         else False)"
  by pat_completeness auto
termination
proof (relation "measure length")
  fix s t :: string and c assume s: "s = c # t"
  show "(t, s) \<in> measure length" using s by simp
  show "(skipLineComment (drop 2 s), s) \<in> measure length"
    using s skipLineComment_length [of "drop 2 s"] by simp
  show "(skipLineComment t, s) \<in> measure length" using s skipLineComment_length [of t] by simp
  show "skipBlockComment 1 (drop 2 s) = Some u \<Longrightarrow> (u, s) \<in> measure length" for u
    using s skipBlockComment_length [of 1 "drop 2 s" u] by simp
qed simp_all

declare nativeSQLTailOnly.simps [simp del]

function scanNativeSQL :: "string \<Rightarrow> (go_error, string list) result" where
  "scanNativeSQL s =
    (case s of
       [] \<Rightarrow> Inr []
     | c # t \<Rightarrow>
         if isSQLSpace c then scanNativeSQL t
         else if has_prefix ''--'' s then scanNativeSQL (skipLineComment (drop 2 s))
         else if c = CHR ''#'' then scanNativeSQL (skipLineComment t)
         else if has_prefix ''/*'' s then
           (case skipBlockComment 1 (drop 2 s) of None \<Rightarrow> Inl (validate ''comment not closed'') | Some u \<Rightarrow> scanNativeSQL u)
         else if is_quote c then
           (case skipQuotedSQL c t of None \<Rightarrow> Inl (validate ''quote not closed'') | Some u \<Rightarrow> scanNativeSQL u)
         else if c = CHR ''['' then
           (if CHR '']'' \<notin> set t then Inl (validate ''name not closed'')
            else scanNativeSQL (tl (dropWhile (\<lambda>x. x \<noteq> CHR '']'') t)))
         else if c = CHR ''$'' then
           (case skipDollarQuote t of
              None \<Rightarrow> scanNativeSQL t
            | Some None \<Rightarrow> Inl (validate ''quote not closed'')
            | Some (Some u) \<Rightarrow> scanNativeSQL u)
         else if c = CHR '';'' then
           (if nativeSQLTailOnly t then Inr [] else Inl (validate ''more than one statement''))
         else if isSQLWordStart c then
           bindE (scanNativeSQL (dropWhile isSQLWordPart t)) (\<lambda>tokens. Inr (upper_word (c # takeWhile isSQLWordPart t) # tokens))
         else scanNativeSQL t)"
  by pat_completeness auto
termination
proof (relation "measure length")
  fix s t :: string and c assume s: "s = c # t"
  show "(t, s) \<in> measure length" "(t, s) \<in> measure length" "(t, s) \<in> measure length" using s by simp_all
  show "(skipLineComment (drop 2 s), s) \<in> measure length"
    using s skipLineComment_length [of "drop 2 s"] by simp
  show "(skipLineComment t, s) \<in> measure length" using s skipLineComment_length [of t] by simp
  show "skipBlockComment 1 (drop 2 s) = Some u \<Longrightarrow> (u, s) \<in> measure length" for u
    using s skipBlockComment_length [of 1 "drop 2 s" u] by simp
  show "skipQuotedSQL c t = Some u \<Longrightarrow> (u, s) \<in> measure length" for u
    using s skipQuotedSQL_length [of c t u] by simp
  show "(tl (dropWhile (\<lambda>x. x \<noteq> CHR '']'') t), s) \<in> measure length"
    using s length_dropWhile_le [of "\<lambda>x. x \<noteq> CHR '']''" t] by simp
  show "skipDollarQuote t = Some x2 \<Longrightarrow> x2 = Some u \<Longrightarrow> (u, s) \<in> measure length" for u x2
    using s skipDollarQuote_length [of t u] by simp
  show "(dropWhile isSQLWordPart t, s) \<in> measure length"
    using s length_dropWhile_le [of isSQLWordPart t] by simp
qed simp_all

declare scanNativeSQL.simps [simp del]

section \<open>Statements\<close>

definition forbiddenTokens :: "string list" where
  "forbiddenTokens =
    [''ALTER'', ''ANALYZE'', ''ATTACH'', ''CALL'', ''COPY'', ''CREATE'', ''DELETE'', ''DETACH'', ''DROP'', ''EXEC'', ''EXECUTE'',
     ''GRANT'', ''INSERT'', ''INTO'', ''LOAD'', ''LOCK'', ''MERGE'', ''PRAGMA'', ''REINDEX'', ''REPLACE'', ''REVOKE'', ''SETVAL'',
     ''TRUNCATE'', ''UPDATE'', ''UPSERT'', ''VACUUM'']"

record native_statement =
  ns_arguments :: "goval option list"
  ns_query :: string

definition NativeSQL :: "string \<Rightarrow> goval option list \<Rightarrow> (go_error, native_statement) result" where
  "NativeSQL query arguments = bindE (scanNativeSQL query) (\<lambda>tokens.
     if tokens = [] \<or> hd tokens \<noteq> ''SELECT'' \<and> hd tokens \<noteq> ''WITH'' then Inl (validate ''not a query'')
     else (case find (\<lambda>t. t \<in> set forbiddenTokens) tokens of
         Some t \<Rightarrow> Inl (validate ''forbidden word'')
       | None \<Rightarrow>
           if ''SELECT'' \<notin> set tokens then Inl (validate ''without select'')
           else Inr \<lparr>ns_arguments = arguments, ns_query = trim_space query\<rparr>))"

definition NativeQuery ::
  "(string \<Rightarrow> goval option list \<Rightarrow> (go_error, 'r) result) \<Rightarrow> string \<Rightarrow> service_context \<Rightarrow> native_statement \<Rightarrow> (go_error, 'r) result" where
  "NativeQuery scanRows dbGroup cx statement =
    (if ns_query statement = [] then Inl (validate ''statement invalid'')
     else bindE (service_Model dbGroup cx) (\<lambda>_.
       (case scanRows (ns_query statement) (ns_arguments statement) of
          Inl e \<Rightarrow> Inl (wrap_core ''native query failed'' e)
        | Inr rows \<Rightarrow> Inr rows)))"

section \<open>Pages\<close>

definition nativeOrderPattern :: "string \<Rightarrow> bool" where
  "nativeOrderPattern s = (case s of [] \<Rightarrow> False | c # cs \<Rightarrow> isSQLWordStart c \<and> list_all isSQLWordPart cs)"

text \<open>One order; \<open>table\<close> are the lower case letters above ASCII.\<close>

definition native_order :: "(nat \<Rightarrow> nat) \<Rightarrow> (string \<Rightarrow> string) \<Rightarrow> string \<times> string \<Rightarrow> (go_error, string \<times> string) result" where
  "native_order table quote od =
    (if \<not> nativeOrderPattern (fst od) then Inl (validate ''order field'')
     else (let direction = to_lower table (snd od)
       in if direction \<noteq> Ascending \<and> direction \<noteq> Descending then Inl (validate ''order direction'')
          else Inr (quote ''a'' @ ''.'' @ quote (fst od), direction)))"

definition requested_orders :: "query_request option \<Rightarrow> (go_error, (string \<times> string) list) result" where
  "requested_orders request =
    (if request_Has request ''order'' \<or> request_Has request ''sort'' then
       (case request_Strings request ''order'' of
          None \<Rightarrow> Inl (validate ''order field'')
        | Some orders \<Rightarrow>
            (case request_Strings request ''sort'' of
               None \<Rightarrow> Inl (validate ''order parameters'')
             | Some directions \<Rightarrow>
                 if orders = [] \<or> length orders \<noteq> length directions then Inl (validate ''order parameters'')
                 else Inr (zip orders directions)))
     else Inr [(''id'', ''desc'')])"

definition applyPageOrder ::
  "(nat \<Rightarrow> nat) \<Rightarrow> (string \<Rightarrow> string) \<Rightarrow> query_request option \<Rightarrow> (go_error, (string \<times> string) list) result" where
  "applyPageOrder table quote request = bindE (requested_orders request) (mapE (native_order table quote))"

definition page_text :: "native_statement \<Rightarrow> string" where
  "page_text statement =
    ''SELECT * FROM ('' @ (if has_suffix '';'' (ns_query statement) then butlast (ns_query statement) else ns_query statement) @ '') AS a''"

definition SQLRenderPage ::
  "(string \<Rightarrow> goval option list \<Rightarrow> (string \<times> string) list \<Rightarrow> int \<Rightarrow> int \<Rightarrow> (go_error, 'r \<times> int) result) \<Rightarrow> (nat \<Rightarrow> nat) \<Rightarrow>
   (string \<Rightarrow> string) \<Rightarrow> string \<Rightarrow> service_context \<Rightarrow> native_statement \<Rightarrow> service_query \<Rightarrow> bool \<Rightarrow> (go_error, 'r \<times> pagination) result" where
  "SQLRenderPage page table quote dbGroup cx statement query autoSort =
    (if ns_query statement = [] then Inl (validate ''statement invalid'')
     else bindE (service_Model dbGroup cx) (\<lambda>_.
       bindE (if autoSort then applyPageOrder table quote (sq_request query) else Inr []) (\<lambda>orders.
       bindE (validateReadQuery query) (\<lambda>_.
       (case page (page_text statement) (ns_arguments statement) orders (sq_page query) (sq_size query) of
          Inl e \<Rightarrow> Inl (wrap_core ''page failed'' e)
        | Inr (rows, number) \<Rightarrow> Inr (rows, \<lparr>pg_page = sq_page query, pg_size = sq_size query, pg_total = number\<rparr>))))))"

end
