(* ===== verification/Native_Guard.thy ===== *)
theory Native_Guard
  imports Native_Sql
begin

text \<open>
  What the guard of native queries sees: an accepted text is a sequence of lexemes, of which one
  statement only, and all words outside comments, quoted texts and quoted names were checked.
\<close>

section \<open>Lexemes\<close>

text \<open>What a text consists of for the scanner. Comments, quoted texts and quoted names are skipped
  whole; \<open>LOther\<close> are digits, operators and the like.\<close>

datatype lexeme =
    LBlank char
  | LLine string
  | LBlock string
  | LQuoted char string
  | LBracket string
  | LDollar string string
  | LWord string
  | LOther char
  | LEnd

fun lexeme_text :: "lexeme \<Rightarrow> string" where
  "lexeme_text (LBlank c) = [c]"
| "lexeme_text (LLine s) = s"
| "lexeme_text (LBlock s) = ''/*'' @ s"
| "lexeme_text (LQuoted q s) = q # s"
| "lexeme_text (LBracket s) = ''['' @ s @ '']''"
| "lexeme_text (LDollar tag s) = (''$'' @ tag @ ''$'') @ s @ (''$'' @ tag @ ''$'')"
| "lexeme_text (LWord w) = w"
| "lexeme_text (LOther c) = [c]"
| "lexeme_text LEnd = '';''"

text \<open>A line comment has no line break; a block comment and a quoted text end where the scanner stops; a
  single character is none that begins something else.\<close>

fun lexeme_ok :: "lexeme \<Rightarrow> bool" where
  "lexeme_ok (LBlank c) \<longleftrightarrow> isSQLSpace c"
| "lexeme_ok (LLine s) \<longleftrightarrow> (has_prefix ''--'' s \<or> has_prefix ''#'' s) \<and> list_all (\<lambda>c. \<not> newline c) s"
| "lexeme_ok (LBlock s) \<longleftrightarrow> skipBlockComment 1 s = Some []"
| "lexeme_ok (LQuoted q s) \<longleftrightarrow> is_quote q \<and> skipQuotedSQL q s = Some []"
| "lexeme_ok (LBracket s) \<longleftrightarrow> CHR '']'' \<notin> set s"
| "lexeme_ok (LDollar tag s) \<longleftrightarrow>
    list_all isSQLWordPart tag \<and> find_text (''$'' @ tag @ ''$'') (s @ (''$'' @ tag @ ''$'')) = Some []"
| "lexeme_ok (LWord w) \<longleftrightarrow> nativeOrderPattern w"
| "lexeme_ok (LOther c) \<longleftrightarrow> \<not> isSQLSpace c \<and> \<not> is_quote c \<and> \<not> isSQLWordStart c \<and> c \<noteq> CHR '';'' \<and> c \<noteq> CHR ''#'' \<and> c \<noteq> CHR ''[''"
| "lexeme_ok LEnd \<longleftrightarrow> True"

fun lexeme_word :: "lexeme \<Rightarrow> string list" where
  "lexeme_word (LWord w) = [upper_word w]"
| "lexeme_word _ = []"

fun lexeme_blank :: "lexeme \<Rightarrow> bool" where
  "lexeme_blank (LBlank c) = True"
| "lexeme_blank (LLine s) = True"
| "lexeme_blank (LBlock s) = True"
| "lexeme_blank _ = False"

text \<open>No word is split into two.\<close>

fun apart :: "lexeme list \<Rightarrow> bool" where
  "apart (LWord v # LWord w # ls) = False"
| "apart (l # ls) = apart ls"
| "apart [] = True"

definition tail_only :: "lexeme list \<Rightarrow> bool" where
  "tail_only ls \<longleftrightarrow> (case ls of [] \<Rightarrow> True | l # rest \<Rightarrow> l = LEnd \<and> list_all lexeme_blank rest)"

definition lexemes_text :: "lexeme list \<Rightarrow> string" where
  "lexemes_text ls = concat (map lexeme_text ls)"

lemma lexemes_text_simps [simp]: "lexemes_text [] = []" "lexemes_text (l # ls) = lexeme_text l @ lexemes_text ls"
  "lexemes_text (ls @ ls') = lexemes_text ls @ lexemes_text ls'"
  by (simp_all add: lexemes_text_def)

lemma upto_dropped: "takeWhile P s @ dropWhile P s = s"
  by simp

lemma skipLine_split: "\<exists>b. s = b @ skipLineComment s \<and> list_all (\<lambda>c. \<not> newline c) b"
  by (rule exI [of _ "takeWhile (\<lambda>c. \<not> newline c) s"]) (auto simp: skipLineComment_def list_all_iff dest: set_takeWhileD)

lemma skipBlock_split: "skipBlockComment n s = Some u \<Longrightarrow> \<exists>b. s = b @ u \<and> skipBlockComment n b = Some []"
proof (induction n s rule: skipBlockComment.induct)
  case (1 n c d s)
  consider "c = CHR ''/'' \<and> d = CHR ''*''" | "c = CHR ''*'' \<and> d = CHR ''/'' \<and> n = 1" | "c = CHR ''*'' \<and> d = CHR ''/'' \<and> n \<noteq> 1"
    | "\<not> (c = CHR ''/'' \<and> d = CHR ''*'')" "\<not> (c = CHR ''*'' \<and> d = CHR ''/'')" by blast
  then show ?case
  proof cases
    case 1
    then obtain b where "s = b @ u" "skipBlockComment (n + 1) b = Some []" using "1.IH"(1) "1.prems" by auto
    then show ?thesis using 1 by (intro exI [of _ "c # d # b"]) simp
  next
    case 2
    then show ?thesis using "1.prems" by (intro exI [of _ "[c, d]"]) simp
  next
    case 3
    then obtain b where "s = b @ u" "skipBlockComment (n - 1) b = Some []" using "1.IH"(2) "1.prems" by auto
    then show ?thesis using 3 by (intro exI [of _ "c # d # b"]) simp
  next
    case 4
    then obtain b where b: "d # s = b @ u" "skipBlockComment n b = Some []" using "1.IH"(3) "1.prems" by auto
    then obtain b' where "b = d # b'" by (cases b) auto
    then show ?thesis using b 4 by (intro exI [of _ "c # b"]) auto
  qed
qed simp_all

lemma skipQuoted_split: "skipQuotedSQL q s = Some u \<Longrightarrow> \<exists>b. s = b @ u \<and> skipQuotedSQL q b = Some []"
proof (induction q s rule: skipQuotedSQL.induct)
  case (2 q c)
  then show ?case by (intro exI [of _ "[c]"]) (auto split: if_splits)
next
  case (3 q c d s)
  consider "c = sql_backslash \<and> q = sql_quote" | "\<not> (c = sql_backslash \<and> q = sql_quote)" "c \<noteq> q"
    | "\<not> (c = sql_backslash \<and> q = sql_quote)" "c = q" "d = q" | "\<not> (c = sql_backslash \<and> q = sql_quote)" "c = q" "d \<noteq> q" by blast
  then show ?case
  proof cases
    case 1
    then obtain b where "s = b @ u" "skipQuotedSQL q b = Some []" using "3.IH"(1) "3.prems" by auto
    then show ?thesis using 1 by (intro exI [of _ "c # d # b"]) simp
  next
    case 2
    then obtain b where b: "d # s = b @ u" "skipQuotedSQL q b = Some []" using "3.IH"(2) "3.prems" by auto
    then obtain b' where "b = d # b'" by (cases b) auto
    then show ?thesis using b 2 by (intro exI [of _ "c # b"]) auto
  next
    case 3
    then obtain b where "s = b @ u" "skipQuotedSQL q b = Some []" using "3.IH"(3) "3.prems" by (auto split: if_splits)
    then show ?thesis using 3 by (intro exI [of _ "c # d # b"]) auto
  next
    case 4
    then have "u = d # s" using "3.prems" by (auto split: if_splits)
    then show ?thesis using 4 by (intro exI [of _ "[c]"]) simp
  qed
qed simp

lemma find_text_split: "find_text p s = Some u \<Longrightarrow> \<exists>b. s = b @ p @ u \<and> find_text p (b @ p) = Some []"
proof (induction p s rule: find_text.induct)
  case (1 p)
  then show ?case by (simp split: if_splits)
next
  case (2 p c s)
  show ?case
  proof (cases "has_prefix p (c # s)")
    case True
    then have "c # s = p @ u" using "2.prems" by (auto simp: has_prefix_iff)
    moreover have "find_text p p = Some []" by (cases p) (auto simp: has_prefix_iff)
    ultimately show ?thesis by (intro exI [of _ "[]"]) simp
  next
    case False
    then obtain b where b: "s = b @ p @ u" "find_text p (b @ p) = Some []" using 2 by auto
    have "\<not> has_prefix p (c # b @ p)"
    proof
      assume "has_prefix p (c # b @ p)"
      then obtain z where "c # b @ p = p @ z" by (auto simp: has_prefix_iff)
      then have "c # s = p @ z @ u" using b(1) by (metis append.assoc append_Cons)
      then show False using False by (auto simp: has_prefix_iff)
    qed
    then show ?thesis using b by (intro exI [of _ "c # b"]) simp
  qed
qed

lemma split_at: "x \<in> set s \<Longrightarrow> s = takeWhile (\<lambda>c. c \<noteq> x) s @ x # tl (dropWhile (\<lambda>c. c \<noteq> x) s)"
  by (induction s) auto

lemma skipDollar_split:
  assumes "skipDollarQuote s = Some (Some u)"
  shows "\<exists>tag b. ''$'' @ s = lexeme_text (LDollar tag b) @ u \<and> lexeme_ok (LDollar tag b)"
proof -
  let ?tag = "takeWhile (\<lambda>c. c \<noteq> CHR ''$'') s"
  have t: "CHR ''$'' \<in> set s" "list_all isSQLWordPart ?tag" "find_text (''$'' @ ?tag @ ''$'') (tl (dropWhile (\<lambda>c. c \<noteq> CHR ''$'') s)) = Some u"
    using assms by (auto simp: skipDollarQuote_def Let_def split: if_splits)
  obtain b where b: "tl (dropWhile (\<lambda>c. c \<noteq> CHR ''$'') s) = b @ (''$'' @ ?tag @ ''$'') @ u"
      "find_text (''$'' @ ?tag @ ''$'') (b @ (''$'' @ ?tag @ ''$'')) = Some []" using find_text_split [OF t(3)] by blast
  then have "s = ?tag @ ''$'' @ b @ (''$'' @ ?tag @ ''$'') @ u" using split_at [OF t(1)] by simp
  then show ?thesis using t(2) b(2) by (intro exI [of _ ?tag] exI [of _ b]) simp
qed

section \<open>The tail\<close>

lemma openers: "\<not> newline CHR ''-''" "\<not> newline CHR ''#''"
  by code_simp+

lemma line_lexeme:
  assumes "opener = ''--'' \<or> opener = ''#''" "s = opener @ t"
  shows "\<exists>l. s = lexeme_text l @ skipLineComment t \<and> lexeme_ok l \<and> lexeme_blank l \<and> lexeme_word l = []"
proof -
  obtain b where b: "t = b @ skipLineComment t" "list_all (\<lambda>c. \<not> newline c) b" using skipLine_split by blast
  have "list_all (\<lambda>c. \<not> newline c) opener" using assms(1) by (elim disjE) (simp_all add: openers)
  then show ?thesis using assms b by (intro exI [of _ "LLine (opener @ b)"]) (auto simp: has_prefix_iff)
qed

lemma block_lexeme:
  assumes "has_prefix ''/*'' s" "skipBlockComment 1 (drop 2 s) = Some u"
  shows "\<exists>l. s = lexeme_text l @ u \<and> lexeme_ok l \<and> lexeme_blank l \<and> lexeme_word l = []"
proof -
  obtain b where b: "drop 2 s = b @ u" "skipBlockComment 1 b = Some []" using skipBlock_split [OF assms(2)] by blast
  have "s = ''/*'' @ drop 2 s" using assms(1) by (auto simp: has_prefix_iff)
  then show ?thesis using b by (intro exI [of _ "LBlock b"]) simp
qed

lemma tail_lexemes: "nativeSQLTailOnly s \<Longrightarrow> \<exists>ls. lexemes_text ls = s \<and> list_all lexeme_ok ls \<and> list_all lexeme_blank ls"
proof (induction s rule: nativeSQLTailOnly.induct)
  case (1 s)
  have grow: "\<exists>ls. lexemes_text ls = s \<and> list_all lexeme_ok ls \<and> list_all lexeme_blank ls"
    if g: "s = lexeme_text l @ u" "lexeme_ok l" "lexeme_blank l" "\<exists>ls. lexemes_text ls = u \<and> list_all lexeme_ok ls \<and> list_all lexeme_blank ls" for l u
  proof -
    obtain ls where "lexemes_text ls = u" "list_all lexeme_ok ls" "list_all lexeme_blank ls" using g(4) by blast
    then show ?thesis using g(1-3) by (intro exI [of _ "l # ls"]) simp
  qed
  show ?case
  proof (cases s)
    case Nil
    then show ?thesis by (intro exI [of _ "[]"]) simp
  next
    case (Cons c t)
    note tail = "1.prems" [unfolded nativeSQLTailOnly.simps [of s]]
    consider "isSQLSpace c" | "\<not> isSQLSpace c" "has_prefix ''--'' s" | "\<not> isSQLSpace c" "\<not> has_prefix ''--'' s" "c = CHR ''#''"
      | "\<not> isSQLSpace c" "\<not> has_prefix ''--'' s" "c \<noteq> CHR ''#''" by blast
    then show ?thesis
    proof cases
      case 1
      then have "nativeSQLTailOnly t" using tail Cons by simp
      then show ?thesis using "1.IH"(1) [OF Cons 1] 1 Cons by (intro grow [of "LBlank c" t]) auto
    next
      case 2
      then have "nativeSQLTailOnly (skipLineComment (drop 2 s))" using tail Cons by simp
      moreover have "s = ''--'' @ drop 2 s" using 2(2) by (auto simp: has_prefix_iff)
      ultimately show ?thesis using line_lexeme [of "''--''" s "drop 2 s"] "1.IH"(2) [OF Cons 2] grow by blast
    next
      case 3
      then have "nativeSQLTailOnly (skipLineComment t)" using tail Cons by simp
      moreover have "s = ''#'' @ t" using Cons 3(3) by simp
      ultimately show ?thesis using line_lexeme [of "''#''" s t] "1.IH"(3) [OF Cons 3] grow by blast
    next
      case 4
      then obtain u where u: "has_prefix ''/*'' s" "skipBlockComment 1 (drop 2 s) = Some u" "nativeSQLTailOnly u"
        using tail Cons by (auto split: if_splits option.splits)
      then show ?thesis using block_lexeme [OF u(1,2)] "1.IH"(4) [OF Cons 4 u(1,2)] grow by blast
    qed
  qed
qed

section \<open>The text before it\<close>

definition sees :: "string \<Rightarrow> string list \<Rightarrow> bool" where
  "sees s tokens \<longleftrightarrow> (\<exists>ls rest. lexemes_text (ls @ rest) = s \<and> list_all lexeme_ok (ls @ rest) \<and> apart ls \<and> LEnd \<notin> set ls \<and>
     tail_only rest \<and> concat (map lexeme_word ls) = tokens)"

lemma apart_Cons: "apart (l # ls) \<longleftrightarrow> apart ls \<and> \<not> ((\<exists>v. l = LWord v) \<and> (\<exists>w ls'. ls = LWord w # ls'))"
  by (cases "(LWord v # LWord w # ls', l # ls)" rule: prod.exhaust; cases l; cases ls; cases "hd ls") auto

lemma sees_grow:
  assumes "s = lexeme_text l @ u" "lexeme_ok l" "l \<noteq> LEnd" "sees u tokens"
    "\<And>w. l = LWord w \<Longrightarrow> u = [] \<or> \<not> isSQLWordStart (hd u)"
  shows "sees s (lexeme_word l @ tokens)"
proof -
  obtain ls rest where ls: "lexemes_text (ls @ rest) = u" "list_all lexeme_ok (ls @ rest)" "apart ls" "LEnd \<notin> set ls"
     "tail_only rest" "concat (map lexeme_word ls) = tokens"
    using assms(4) by (auto simp: sees_def)
  have "\<not> ((\<exists>v. l = LWord v) \<and> (\<exists>w ls'. ls = LWord w # ls'))"
  proof
    assume "(\<exists>v. l = LWord v) \<and> (\<exists>w ls'. ls = LWord w # ls')"
    then obtain v w ls' where w: "l = LWord v" "ls = LWord w # ls'" by blast
    then obtain c cs where "w = c # cs" "isSQLWordStart c"
      using ls(2) by (auto simp: nativeOrderPattern_def split: list.splits)
    then have "u \<noteq> [] \<and> isSQLWordStart (hd u)" using ls(1) w(2) by auto
    then show False using assms(5) w(1) by blast
  qed
  then have "apart (l # ls)" using ls(3) by (simp add: apart_Cons)
  then show ?thesis
    unfolding sees_def using assms(1-3) ls by (intro exI [of _ "l # ls"] exI [of _ rest]) simp
qed

lemma hd_dropWhile_part: "dropWhile isSQLWordPart t = [] \<or> \<not> isSQLWordStart (hd (dropWhile isSQLWordPart t))"
  using hd_dropWhile [of isSQLWordPart t] by (auto simp: isSQLWordPart_def)

lemma single_characters: "\<not> isSQLWordStart CHR ''$''" "\<not> isSQLSpace CHR ''$''" "\<not> is_quote CHR ''$''"
  by code_simp+

lemma takeWhile_all: "list_all P (takeWhile P s)"
  by (induction s) auto

lemma takeWhile_excludes: "x \<notin> set (takeWhile (\<lambda>c. c \<noteq> x) s)"
  by (auto dest: set_takeWhileD)

lemma scan_lexemes: "scanNativeSQL s = Inr tokens \<Longrightarrow> sees s tokens"
proof (induction s arbitrary: tokens rule: scanNativeSQL.induct)
  case (1 s)
  show ?case
  proof (cases s)
    case Nil
    then have "tokens = []" using "1.prems" by (simp add: scanNativeSQL.simps [of "[]"])
    then show ?thesis using Nil unfolding sees_def by (intro exI [of _ "[]"]) (simp add: tail_only_def)
  next
    case (Cons c t)
    note scan = "1.prems" [unfolded scanNativeSQL.simps [of s]]
    let ?a = "isSQLSpace c" and ?b = "has_prefix ''--'' s" and ?h = "c = CHR ''#''" and ?k = "has_prefix ''/*'' s"
    consider "?a" | "\<not> ?a" "?b" | "\<not> ?a" "\<not> ?b" "?h" | "\<not> ?a" "\<not> ?b" "\<not> ?h" "?k"
      | "\<not> ?a" "\<not> ?b" "\<not> ?h" "\<not> ?k" by blast
    then show ?thesis
    proof cases
      case 1
      then have "scanNativeSQL t = Inr tokens" using scan Cons by simp
      then show ?thesis using sees_grow [of s "LBlank c" t tokens] "1.IH"(1) [OF Cons 1] 1 Cons by simp
    next
      case 2
      then have "scanNativeSQL (skipLineComment (drop 2 s)) = Inr tokens" using scan Cons by simp
      then have ih: "sees (skipLineComment (drop 2 s)) tokens" using "1.IH"(2) [OF Cons 2] by blast
      have "s = ''--'' @ drop 2 s" using 2(2) by (auto simp: has_prefix_iff)
      then obtain l where l: "s = lexeme_text l @ skipLineComment (drop 2 s)" "lexeme_ok l" "lexeme_blank l" "lexeme_word l = []"
        using line_lexeme [of "''--''" s "drop 2 s"] by blast
      show ?thesis using sees_grow [OF l(1,2) _ ih] l(3,4) by (cases l) auto
    next
      case 3
      then have "scanNativeSQL (skipLineComment t) = Inr tokens" using scan Cons by simp
      then have ih: "sees (skipLineComment t) tokens" using "1.IH"(3) [OF Cons 3] by blast
      have "s = ''#'' @ t" using Cons 3(3) by simp
      then obtain l where l: "s = lexeme_text l @ skipLineComment t" "lexeme_ok l" "lexeme_blank l" "lexeme_word l = []"
        using line_lexeme [of "''#''" s t] by blast
      show ?thesis using sees_grow [OF l(1,2) _ ih] l(3,4) by (cases l) auto
    next
      case 4
      then obtain u where u: "skipBlockComment 1 (drop 2 s) = Some u" "scanNativeSQL u = Inr tokens"
        using scan Cons by (auto split: option.splits)
      then have ih: "sees u tokens" using "1.IH"(4) [OF Cons 4 u(1)] by blast
      obtain l where l: "s = lexeme_text l @ u" "lexeme_ok l" "lexeme_blank l" "lexeme_word l = []"
        using block_lexeme [OF 4(4) u(1)] by blast
      show ?thesis using sees_grow [OF l(1,2) _ ih] l(3,4) by (cases l) auto
    next
      case 5
      let ?q = "is_quote c" and ?e = "c = CHR ''[''" and ?d = "c = CHR ''$''" and ?f = "c = CHR '';''" and ?w = "isSQLWordStart c"
      consider "?q" | "\<not> ?q" "?e" | "\<not> ?q" "\<not> ?e" "?d" | "\<not> ?q" "\<not> ?e" "\<not> ?d" "?f"
        | "\<not> ?q" "\<not> ?e" "\<not> ?d" "\<not> ?f" "?w" | "\<not> ?q" "\<not> ?e" "\<not> ?d" "\<not> ?f" "\<not> ?w" by blast
      then show ?thesis
      proof cases
        case q: 1
        then obtain u where u: "skipQuotedSQL c t = Some u" "scanNativeSQL u = Inr tokens"
          using scan Cons 5 by (auto split: option.splits)
        then have ih: "sees u tokens" using "1.IH"(5) [OF Cons 5 q u(1)] by blast
        obtain b where b: "t = b @ u" "skipQuotedSQL c b = Some []" using skipQuoted_split [OF u(1)] by blast
        show ?thesis using sees_grow [OF _ _ _ ih, of s "LQuoted c b"] b q Cons by simp
      next
        case q: 2
        then have u: "CHR '']'' \<in> set t" "scanNativeSQL (tl (dropWhile (\<lambda>x. x \<noteq> CHR '']'') t)) = Inr tokens"
          using scan Cons 5 by (auto split: if_splits)
        then have ih: "sees (tl (dropWhile (\<lambda>x. x \<noteq> CHR '']'') t)) tokens" using "1.IH"(6) [OF Cons 5 q] by blast
        have "s = lexeme_text (LBracket (takeWhile (\<lambda>x. x \<noteq> CHR '']'') t)) @ tl (dropWhile (\<lambda>x. x \<noteq> CHR '']'') t)"
          using split_at [OF u(1)] Cons q(2) by simp
        from sees_grow [OF this _ _ ih] show ?thesis by (simp add: takeWhile_excludes)
      next
        case q: 3
        consider "skipDollarQuote t = None" "scanNativeSQL t = Inr tokens"
          | u where "skipDollarQuote t = Some (Some u)" "scanNativeSQL u = Inr tokens"
          using scan Cons 5 q by (auto simp: single_characters split: option.splits)
        then show ?thesis
        proof cases
          case d: 1
          then have ih: "sees t tokens" using "1.IH"(7) [OF Cons 5 q d(1)] by blast
          show ?thesis using sees_grow [OF _ _ _ ih, of s "LOther c"] q(3) Cons by (simp add: single_characters)
        next
          case d: 2
          then have ih: "sees u tokens" using "1.IH"(8) [OF Cons 5 q d(1)] by blast
          obtain tag b where b: "''$'' @ t = lexeme_text (LDollar tag b) @ u" "lexeme_ok (LDollar tag b)" using skipDollar_split [OF d(1)] by blast
          then have "s = lexeme_text (LDollar tag b) @ u" using Cons q(3) by simp
          from sees_grow [OF this b(2) _ ih] show ?thesis by simp
        qed
      next
        case q: 4
        then have "tokens = []" "nativeSQLTailOnly t" using scan Cons 5 by (auto split: if_splits)
        then obtain ls where "lexemes_text ls = t" "list_all lexeme_ok ls" "list_all lexeme_blank ls" using tail_lexemes by blast
        then show ?thesis using Cons q(4) \<open>tokens = []\<close> unfolding sees_def
          by (intro exI [of _ "[]"] exI [of _ "LEnd # ls"]) (simp add: tail_only_def)
      next
        case q: 5
        then obtain ts where u: "scanNativeSQL (dropWhile isSQLWordPart t) = Inr ts" "tokens = upper_word (c # takeWhile isSQLWordPart t) # ts"
          using scan Cons 5 by (auto simp: bindE_def split: sum.splits)
        then have ih: "sees (dropWhile isSQLWordPart t) ts" using "1.IH"(9) [OF Cons 5 q] by blast
        have "s = lexeme_text (LWord (c # takeWhile isSQLWordPart t)) @ dropWhile isSQLWordPart t" using Cons by simp
        from sees_grow [OF this _ _ ih] show ?thesis
          using u(2) q(5) hd_dropWhile_part [of t] by (simp add: nativeOrderPattern_def takeWhile_all)
      next
        case q: 6
        then have u: "scanNativeSQL t = Inr tokens" using scan Cons 5 by simp
        then have ih: "sees t tokens" using "1.IH"(10) [OF Cons 5 q] by blast
        show ?thesis using sees_grow [OF _ _ _ ih, of s "LOther c"] q 5 Cons by simp
      qed
    qed
  qed
qed

section \<open>Accepted statements\<close>

lemma NativeSQL_accepts:
  assumes "NativeSQL query arguments = Inr statement"
  obtains tokens where "scanNativeSQL query = Inr tokens" "tokens \<noteq> []" "hd tokens = ''SELECT'' \<or> hd tokens = ''WITH''"
    "''SELECT'' \<in> set tokens" "list_all (\<lambda>t. t \<notin> set forbiddenTokens) tokens" "ns_query statement = trim_space query"
proof -
  obtain tokens where t: "scanNativeSQL query = Inr tokens" using assms by (auto simp: NativeSQL_def bindE_Inr_iff)
  have n: "\<not> (tokens = [] \<or> hd tokens \<noteq> ''SELECT'' \<and> hd tokens \<noteq> ''WITH'')"
    using assms by (auto simp: NativeSQL_def t simp del: list.inject split: if_splits)
  moreover have f: "find (\<lambda>t. t \<in> set forbiddenTokens) tokens = None"
    using assms n by (simp add: NativeSQL_def t split: option.splits)
  moreover have "''SELECT'' \<in> set tokens" "ns_query statement = trim_space query"
    using assms n f by (auto simp: NativeSQL_def t split: if_splits)
  ultimately show ?thesis using t that by (auto simp: find_None_iff list_all_iff)
qed


definition native_example :: string where
  "native_example = ''SELECT $$DROP$$;''"

definition native_example_statement :: native_statement where
  "native_example_statement = \<lparr>ns_arguments = [], ns_query = trim_space native_example\<rparr>"

lemma native_example_words: "scanNativeSQL native_example = Inr [''SELECT'']"
  by code_simp

lemma native_example_accepted: "NativeSQL native_example [] = Inr native_example_statement"
  by (simp add: NativeSQL_def native_example_words native_example_statement_def forbiddenTokens_def)


end
