(* ===== verification/Spec2Isabelle.thy ===== *)
theory Spec2Isabelle
  imports Risk_Breaker Auth_Properties Auth_Wire Outbox_Consumer App_Lifecycle Base_Signin Crud_Policy Service_Properties Native_Guard
begin

text \<open>
  Verification of the cool-admin-go-next back end (directory \<open>src/\<close>, Go).

  \<^bold>\<open>The program.\<close> An administration back end: a framework (\<open>cool-next\<close>) and modules on
  it. A generator emits a static graph of modules, components and routes; the host checks it,
  constructs and starts the components and stops them in reverse. Requests pass risk control
  (captchas, rate limits, locked accounts), authentication (sessions behind access and refresh
  tokens) and authorisation (a permission derived from the route, decided by the business
  module). Business changes put messages into an outbox table in the same transaction; workers
  claim, publish and settle them, and consumers process each message once behind an inbox table.

  \<^bold>\<open>Theories and code.\<close>

  \<^item> \<open>Go_Prelude\<close>, \<open>Go_Strings\<close>, \<open>Go_Path\<close>: what the code uses of Go and its standard library:
    association lists for maps (\<open>mput\<close>, \<open>mdel\<close>), 64-bit arithmetic with wrap-around, results,
    UTF-8 strings as byte lists, \<open>path.Clean\<close>, identifiers; the contract \<open>one_shot\<close> of
    something that can succeed only once, shared by captchas, claims and the inbox.
  \<^item> \<open>Go_Exception\<close>: \<open>core/exception\<close>, errors with name, code, status and cause, and what a
    client sees of them.
  \<^item> \<open>Risk_Memory\<close>, \<open>Risk_Service\<close>, \<open>Risk_Breaker\<close>, \<open>Risk_Properties\<close>: \<open>risk/risk.go\<close> and
    \<open>risk/redis.go\<close>. \<open>risk_backend\<close> is \<open>memoryRiskBackend\<close>; \<open>risk_service\<close> is \<open>Service\<close> with its
    circuit breaker; \<open>Risk_Breaker\<close> interleaves requests at the granularity of the mutex.
  \<^item> \<open>Auth_Session\<close>, \<open>Auth_Service\<close>, \<open>Auth_Perm\<close>, \<open>Auth_Wire\<close>, \<open>Auth_Properties\<close>: \<open>auth/identity.go\<close>,
    \<open>auth/store.go\<close>, \<open>auth/perm.go\<close>. \<open>sessions\<close> is the map of \<open>MemoryStore\<close>; the service is a
    function of any store (\<open>store_ops\<close>) and its lemmas are proved in the locale of the contract.
  \<^item> \<open>Outbox_Store\<close>, \<open>Outbox_Claims\<close>: \<open>outbox/store\<close>. A table is a list of rows, a statement is a
    function on it, an operation is a function of the database environment (\<open>db_env\<close>: kind,
    clock, driver error, locked rows). \<open>Outbox_Message\<close>: \<open>outbox.go\<close>, \<open>enqueuer.go\<close>;
    \<open>Outbox_Worker\<close>: \<open>config.go\<close>, \<open>worker.go\<close>; \<open>Outbox_Consumer\<close>: \<open>consumer.go\<close>,
    \<open>consumer_adapter.go\<close>.
  \<^item> \<open>Route_Table\<close>, \<open>Module_Graph\<close>, \<open>App_Lifecycle\<close>: \<open>core/route\<close>, \<open>core/module\<close>, \<open>core/app\<close>. The
    state of \<open>Application\<close> is a record with a trace of all hooks that were called.
  \<^item> \<open>Base_Data\<close>: the tables of the base module (\<open>modules/base/entity\<close>) with the sessions and the
    cache of permissions as one record \<open>base_state\<close>, actions on it that may fail, the
    transaction (\<open>withinTx\<close>: a failure undoes the tables, not the sessions), and what the module
    uses of \<open>core/gnservice\<close> and \<open>db/lock.go\<close>. \<open>Base_Permission\<close>, \<open>Base_Role\<close>, \<open>Base_Department\<close>,
    \<open>Base_User\<close>, \<open>Base_Menu\<close>: the services of \<open>modules/base/service\<close> of these names, one definition
    per method; \<open>Base_Tree\<close>: reachability in tables with parents; \<open>Base_Login\<close>: \<open>login.go\<close>, \<open>captcha.go\<close>
    over risk control and authentication. \<open>Base_Frame\<close>, \<open>Base_Forest\<close>, \<open>Base_Integrity\<close>,
    \<open>Base_Authority\<close>, \<open>Base_Grants\<close>, \<open>Base_Signin\<close>: what all of them guarantee together, over
    requests (\<open>base_op\<close>) in any order.
  \<^item> \<open>Go_Reflect\<close>: Go types and values as the program looks at them by reflection.
    \<open>Entity_Descriptor\<close>: \<open>core/gnentity\<close>, from tagged struct fields to the metadata of a table.
    \<open>Crud_Ast\<close>, \<open>Crud_Plan\<close>, \<open>Crud_Action\<close>: \<open>crud\<close>, the query language, the compiler from
    declaration, extender and request to a plan (its state is \<open>plan_compiler\<close>, threaded through
    one definition per step), field policies, the check and the statement. \<open>Crud_Properties\<close>,
    \<open>Crud_Policy\<close>: the typing of plans (\<open>plan_typed\<close>), kept by every step of the compiler, and what
    policies mean for them.
  \<^item> \<open>Generic_Service\<close>: \<open>input.go\<close>, \<open>base.go\<close> and \<open>mutation.go\<close> of \<open>core/gnservice\<close> in full: submitted fields
    and who set them (\<open>mutable_fields\<close>), insertion, update and deletion, reads over a plan, mutations
    with hooks. \<open>Service_Properties\<close>: which fields a write stores. \<open>Native_Sql\<close>: \<open>native.go\<close>, the scanner of
    native statements, their guard and pages. \<open>Native_Guard\<close>: what an accepted text consists of.

  \<^bold>\<open>What is shown.\<close> Invariants over all runs of a component's operations (capacities of the risk
  backend, well-formed outbox rows, one probe of the breaker), refinement of the outbox to the
  life cycle of single messages, exclusiveness and single use (captchas, refresh tokens, claims,
  inbox entries), exact conditions (access tokens, the client address, lock durations, retry
  delays), round trips (stored sessions and messages), and the order of start and shutdown.
  Of the base module: over all sequences of requests the tables stay consistent, an enabled
  administrator remains, whoever's authority changes loses the sessions; what is deleted with a
  menu or department; and that sessions come into being only through the barriers of a login.
  Of queries: a compiled plan is well typed and within its bounds for every declaration, extender
  and request, numbers of a request are never rounded or wrapped, hidden fields stay hidden; what is written of submitted fields is
  exact, whatever the code of the business changes in them; and an accepted native statement is one
  statement with no forbidden word outside comments and quotes.

  \<^bold>\<open>Bounds and fuel.\<close> Loops are structural recursion. \<open>claimSQLite\<close> counts its eight attempts;
  the doubling loops (\<open>lock_loop\<close>, \<open>delay_loop\<close>) recurse on the counter of the code. The loop that
  collects departments may run for ever on cyclic rows and is a \<open>partial_function\<close>; that it
  returns where it is called is a theorem. The search for menus below a menu and the climb to
  the root recurse on the menus not seen yet.

  \<^bold>\<open>Parameters.\<close> JSON, JWT, SHA-256, net/netip, Redis scripts, the Unicode tables above ASCII,
  the random source, the database driver, the registry of descriptors, extenders of queries, the
  broker and the publisher are arguments of the
  definitions that use them. Error texts are labels.

  \<^bold>\<open>Not modelled.\<close> The binding of HTTP requests to Go structures by reflection, YAML, code generation and
  its analysis of Go syntax, HTTP and gRPC servers, the file system of the plugins, metrics,
  logging and tracing; of the base module the time stamps of rows, the pages and details of its
  queries, its settings, logs and translations, and the drawing of captchas; of the generic service
  the scanning of rows into structures of the caller. How a database reads comments and quotes
  differs between its dialects; the lexemes are those of the guard.
\<close>

end
